(* ===== verification/PyCore.thy ===== *)
theory PyCore
  imports Complex_Main "HOL-Library.AList" "HOL-Library.List_Lexorder" "HOL-Library.Char_ord"
begin

section \<open>Python values, results and strings\<close>

text \<open>
  The prelude of the development: the JSON values the runtime passes around as Python
  objects, exceptions as values, dictionaries as association lists in insertion order,
  and the string operations of the standard library that the modelled code calls.

  Strings are lists of code points below 256 (Isabelle's \<^typ>\<open>char\<close>). On this alphabet
  Unicode normalisation form C is the identity, so \<open>unicodedata.normalize("NFC", s)\<close> is
  not written out. A float is its Python text together with its exact value; the JSON
  extensions \<open>NaN\<close> and \<open>Infinity\<close> are not represented. Integers are unbounded.
\<close>

named_theorems res_simps "rewrite rules of the result monad"
named_theorems py_simps "evaluation of the Python operations"

subsection \<open>Exceptions and results\<close>

datatype py_exc =
    KeyError string
  | TypeError
  | AttributeError
  | IndexError
  | ValueError string
  | OSError string
  | FilesystemTransactionError string
  | PromotionDecisionRegistryError string
  | PromotionGatePolicyError string
  | PromotionGateUsageError string
  | PromotionGateArtifactSchemaError string
  | GoalRuntimeWorkspaceLockActive string
  | RecursionError
  | FileNotFoundError string
  | AutoImproveUsageError string
  | AutoImproveLearningReviewRequiredError string
  | RunMechanismExperimentError string
  | RunMechanismExperimentUsageError string
  | RunMechanismExperimentArtifactError string
  | RunMechanismExperimentMutationError string
  | RunMechanismExperimentWriteError string
  | FinalizeRunUsageError string
  | FinalizeRunArtifactMissingError string
  | FinalizeRunArtifactDecodeError string
  | FinalizeRunArtifactSchemaError string
  | FinalizeRunWriteError string

type_synonym 'a res = "py_exc + 'a"

text \<open>The subclasses of \<open>ValueError\<close>, of \<open>OSError\<close> and of \<open>RunMechanismExperimentError\<close> that an \<open>except\<close> clause catches.\<close>

fun is_value_error :: "py_exc \<Rightarrow> bool" where
  "is_value_error (ValueError _) = True"
| "is_value_error (PromotionDecisionRegistryError _) = True"
| "is_value_error _ = False"

fun is_os_error :: "py_exc \<Rightarrow> bool" where
  "is_os_error (OSError _) = True"
| "is_os_error (FilesystemTransactionError _) = True"
| "is_os_error (FileNotFoundError _) = True"
| "is_os_error _ = False"

fun is_experiment_error :: "py_exc \<Rightarrow> bool" where
  "is_experiment_error (RunMechanismExperimentError _) = True"
| "is_experiment_error (RunMechanismExperimentUsageError _) = True"
| "is_experiment_error (RunMechanismExperimentArtifactError _) = True"
| "is_experiment_error (RunMechanismExperimentMutationError _) = True"
| "is_experiment_error (RunMechanismExperimentWriteError _) = True"
| "is_experiment_error _ = False"

text \<open>\<open>str(exc)\<close> of a caught \<open>ValueError\<close>.\<close>

fun exc_text :: "py_exc \<Rightarrow> string" where
  "exc_text (ValueError s) = s"
| "exc_text (PromotionDecisionRegistryError s) = s"
| "exc_text _ = []"

definition bindr :: "'a res \<Rightarrow> ('a \<Rightarrow> 'b res) \<Rightarrow> 'b res" where
  "bindr m f = (case m of Inl e \<Rightarrow> Inl e | Inr x \<Rightarrow> f x)"

lemma bindr_Inl [simp, res_simps]: "bindr (Inl e) f = Inl e"
  by (simp add: bindr_def)

lemma bindr_Inr [simp, res_simps]: "bindr (Inr x) f = f x"
  by (simp add: bindr_def)

lemma bindr_eq_Inr [res_simps]: "bindr m f = Inr y \<longleftrightarrow> (\<exists>x. m = Inr x \<and> f x = Inr y)"
  by (cases m) simp_all

lemma bindr_eq_Inl [res_simps]:
  "bindr m f = Inl e \<longleftrightarrow> m = Inl e \<or> (\<exists>x. m = Inr x \<and> f x = Inl e)"
  by (cases m) simp_all

lemma bindrE:
  assumes "bindr m f = Inr y"
  obtains x where "m = Inr x" and "f x = Inr y"
  using assms by (auto simp: bindr_eq_Inr)

lemma bindr_cong [fundef_cong]:
  "m = m' \<Longrightarrow> (\<And>x. m' = Inr x \<Longrightarrow> f x = f' x) \<Longrightarrow> bindr m f = bindr m' f'"
  by (cases m') simp_all

fun mapr :: "('a \<Rightarrow> 'b res) \<Rightarrow> 'a list \<Rightarrow> 'b list res" where
  "mapr f [] = Inr []"
| "mapr f (x # xs) = bindr (f x) (\<lambda>y. bindr (mapr f xs) (\<lambda>ys. Inr (y # ys)))"

lemma mapr_Inr_iff: "mapr f xs = Inr ys \<longleftrightarrow> list_all2 (\<lambda>x y. f x = Inr y) xs ys"
  by (induction xs arbitrary: ys) (auto simp: bindr_eq_Inr list_all2_Cons1)

lemma mapr_Inr_map: "(\<And>x. x \<in> set xs \<Longrightarrow> f x = Inr (g x)) \<Longrightarrow> mapr f xs = Inr (map g xs)"
  by (induction xs) auto

lemma mapr_Inr_in:
  assumes "mapr f xs = Inr ys" and "x \<in> set xs"
  shows "\<exists>y \<in> set ys. f x = Inr y"
  using assms by (induction xs arbitrary: ys) (auto simp: bindr_eq_Inr)

lemma mapr_Inr_out:
  assumes "mapr f xs = Inr ys" and "y \<in> set ys"
  shows "\<exists>x \<in> set xs. f x = Inr y"
  using assms by (induction xs arbitrary: ys) (auto simp: bindr_eq_Inr)

lemma mapr_length: "mapr f xs = Inr ys \<Longrightarrow> length ys = length xs"
  by (auto simp: mapr_Inr_iff dest: list_all2_lengthD)

lemma list_all2_in1: "list_all2 P xs ys \<Longrightarrow> x \<in> set xs \<Longrightarrow> \<exists>y \<in> set ys. P x y"
  by (induction rule: list_all2_induct) auto

lemma list_all2_in2: "list_all2 P xs ys \<Longrightarrow> y \<in> set ys \<Longrightarrow> \<exists>x \<in> set xs. P x y"
  by (induction rule: list_all2_induct) auto

fun filterr :: "('a \<Rightarrow> bool res) \<Rightarrow> 'a list \<Rightarrow> 'a list res" where
  "filterr p [] = Inr []"
| "filterr p (x # xs) =
     bindr (p x) (\<lambda>b. bindr (filterr p xs) (\<lambda>ys. Inr (if b then x # ys else ys)))"

text \<open>\<open>all(...)\<close> and \<open>any(...)\<close> over a generator: evaluation stops at the first answer.\<close>

fun allr :: "('a \<Rightarrow> bool res) \<Rightarrow> 'a list \<Rightarrow> bool res" where
  "allr p [] = Inr True"
| "allr p (x # xs) = bindr (p x) (\<lambda>b. if b then allr p xs else Inr False)"

fun anyr :: "('a \<Rightarrow> bool res) \<Rightarrow> 'a list \<Rightarrow> bool res" where
  "anyr p [] = Inr False"
| "anyr p (x # xs) = bindr (p x) (\<lambda>b. if b then Inr True else anyr p xs)"

lemma allr_True: "allr p xs = Inr True \<longleftrightarrow> (\<forall>x \<in> set xs. p x = Inr True)"
  by (induction xs) (auto simp: bindr_eq_Inr split: if_splits)

lemma anyr_True: "anyr p xs = Inr True \<Longrightarrow> \<exists>x \<in> set xs. p x = Inr True"
  by (induction xs) (auto simp: bindr_eq_Inr split: if_splits)

lemma allr_Inr_map: "allr (\<lambda>x. Inr (q x)) xs = Inr (list_all q xs)"
  by (induction xs) auto

lemma anyr_Inr_map: "anyr (\<lambda>x. Inr (q x)) xs = Inr (list_ex q xs)"
  by (induction xs) auto

lemma filterr_Inr: "filterr p xs = Inr ys \<Longrightarrow> x \<in> set ys \<longleftrightarrow> x \<in> set xs \<and> p x = Inr True"
  by (induction xs arbitrary: ys) (auto simp: bindr_eq_Inr split: if_splits)

fun foldr_res :: "('s \<Rightarrow> 'a \<Rightarrow> 's res) \<Rightarrow> 's \<Rightarrow> 'a list \<Rightarrow> 's res" where
  "foldr_res f s [] = Inr s"
| "foldr_res f s (x # xs) = bindr (f s x) (\<lambda>s'. foldr_res f s' xs)"

definition raise_unless :: "bool \<Rightarrow> py_exc \<Rightarrow> unit res" where
  "raise_unless b e = (if b then Inr () else Inl e)"

lemma raise_unless_eq [simp, res_simps]:
  "raise_unless b e = Inr u \<longleftrightarrow> b"
  "raise_unless b e = Inl e' \<longleftrightarrow> \<not> b \<and> e' = e"
  by (auto simp: raise_unless_def)

subsection \<open>Values\<close>

datatype pyval =
    PyNone
  | PyBool bool
  | PyInt int
  | PyFloat string rat
  | PyStr string
  | PyList "pyval list"
  | PyDict "(string \<times> pyval) list"

type_synonym pydict = "(string \<times> pyval) list"

fun py_truth :: "pyval \<Rightarrow> bool" where
  "py_truth PyNone = False"
| "py_truth (PyBool b) = b"
| "py_truth (PyInt n) = (n \<noteq> 0)"
| "py_truth (PyFloat _ r) = (r \<noteq> 0)"
| "py_truth (PyStr s) = (s \<noteq> [])"
| "py_truth (PyList xs) = (xs \<noteq> [])"
| "py_truth (PyDict d) = (d \<noteq> [])"

fun is_dict :: "pyval \<Rightarrow> bool" where
  "is_dict (PyDict _) = True"
| "is_dict _ = False"

fun is_list :: "pyval \<Rightarrow> bool" where
  "is_list (PyList _) = True"
| "is_list _ = False"

fun is_str :: "pyval \<Rightarrow> bool" where
  "is_str (PyStr _) = True"
| "is_str _ = False"

text \<open>The contents of a value that is known to be a dictionary, a list or a string.\<close>

fun the_dict :: "pyval \<Rightarrow> pydict" where
  "the_dict (PyDict d) = d"
| "the_dict _ = []"

fun the_list :: "pyval \<Rightarrow> pyval list" where
  "the_list (PyList xs) = xs"
| "the_list _ = []"

fun the_str :: "pyval \<Rightarrow> string" where
  "the_str (PyStr s) = s"
| "the_str _ = []"

lemma is_dict_iff: "is_dict v \<longleftrightarrow> (\<exists>d. v = PyDict d)"
  by (cases v) simp_all

lemma is_list_iff: "is_list v \<longleftrightarrow> (\<exists>xs. v = PyList xs)"
  by (cases v) simp_all

lemma is_str_iff: "is_str v \<longleftrightarrow> (\<exists>s. v = PyStr s)"
  by (cases v) simp_all

text \<open>Python's \<open>==\<close> on these values: numbers compare by value, dictionaries by content.\<close>

fun py_num :: "pyval \<Rightarrow> rat option" where
  "py_num (PyBool b) = Some (if b then 1 else 0)"
| "py_num (PyInt n) = Some (of_int n)"
| "py_num (PyFloat _ r) = Some r"
| "py_num _ = None"

subsection \<open>Dictionaries\<close>

text \<open>
  \<open>d.get(key, default)\<close>, \<open>d[key]\<close>, \<open>d[key] = value\<close> and \<open>d.update(other)\<close>. An
  assignment to a present key keeps its position, a new key is appended, as in Python.
\<close>

definition dget :: "(string \<times> 'v) list \<Rightarrow> string \<Rightarrow> 'v \<Rightarrow> 'v" where
  "dget d k v = (case map_of d k of Some x \<Rightarrow> x | None \<Rightarrow> v)"

definition dhas :: "(string \<times> 'v) list \<Rightarrow> string \<Rightarrow> bool" where
  "dhas d k = (map_of d k \<noteq> None)"

definition ditem :: "(string \<times> 'v) list \<Rightarrow> string \<Rightarrow> 'v res" where
  "ditem d k = (case map_of d k of Some x \<Rightarrow> Inr x | None \<Rightarrow> Inl (KeyError k))"

definition dset :: "string \<Rightarrow> 'v \<Rightarrow> (string \<times> 'v) list \<Rightarrow> (string \<times> 'v) list" where
  "dset k v d = AList.update k v d"

definition dupdate :: "(string \<times> 'v) list \<Rightarrow> (string \<times> 'v) list \<Rightarrow> (string \<times> 'v) list" where
  "dupdate d e = fold (\<lambda>(k, v) d'. dset k v d') e d"

lemma map_of_dset: "map_of (dset k v d) = (map_of d)(k \<mapsto> v)"
  by (simp add: dset_def update_conv')

lemma dset_distinct: "distinct (map fst d) \<Longrightarrow> distinct (map fst (dset k v d))"
  by (simp add: dset_def distinct_update)

lemma dget_dset [simp]: "dget (dset k v d) k' x = (if k' = k then v else dget d k' x)"
  by (simp add: dget_def map_of_dset)

lemma dhas_dset [simp]: "dhas (dset k v d) k' \<longleftrightarrow> k' = k \<or> dhas d k'"
  by (simp add: dhas_def map_of_dset)

lemma ditem_eq_Inr [res_simps]: "ditem d k = Inr v \<longleftrightarrow> map_of d k = Some v"
  by (simp add: ditem_def split: option.splits)

text \<open>Attribute access \<open>v.get\<close> and subscription on a value whose type is not known.\<close>

fun py_get :: "pyval \<Rightarrow> string \<Rightarrow> pyval \<Rightarrow> pyval res" where
  "py_get (PyDict d) k v = Inr (dget d k v)"
| "py_get _ _ _ = Inl AttributeError"

fun py_item :: "pyval \<Rightarrow> string \<Rightarrow> pyval res" where
  "py_item (PyDict d) k = ditem d k"
| "py_item _ _ = Inl TypeError"

fun py_dict :: "pyval \<Rightarrow> pydict res" where
  "py_dict (PyDict d) = Inr d"
| "py_dict _ = Inl TypeError"

text \<open>Iteration: lists by element, dictionaries by key, strings by character.\<close>

fun py_iter :: "pyval \<Rightarrow> pyval list res" where
  "py_iter (PyList xs) = Inr xs"
| "py_iter (PyDict d) = Inr (map (\<lambda>kv. PyStr (fst kv)) d)"
| "py_iter (PyStr s) = Inr (map (\<lambda>c. PyStr [c]) s)"
| "py_iter _ = Inl TypeError"

text \<open>
  An integer read from a report whose JSON schema types the field as an integer: a
  boolean counts as 0 or 1 in arithmetic, anything else does not support it.
\<close>

fun py_as_int :: "pyval \<Rightarrow> int res" where
  "py_as_int (PyInt n) = Inr n"
| "py_as_int (PyBool b) = Inr (if b then 1 else 0)"
| "py_as_int _ = Inl TypeError"

end
