(* ===== verification/PyText.thy ===== *)
theory PyText
  imports PyCore "HOL-Library.Sublist" "HOL-Library.Multiset"
begin

section \<open>Text: the string operations and formatting of the source\<close>

text \<open>
  \<open>str.strip\<close>, \<open>startswith\<close>, \<open>split\<close>, \<open>join\<close>, \<open>lower\<close>, \<open>upper\<close>, \<open>int(text)\<close>,
  \<open>str(value)\<close> and \<open>repr(value)\<close> on code points below 256, sorting of strings by code
  point, and \<open>posixpath.normpath\<close>.
\<close>

subsection \<open>Characters\<close>

text \<open>\<open>str.isspace\<close> on the alphabet: tab to carriage return, the separators 28 to 31,
  space, next line (133) and no-break space (160).\<close>

definition py_isspace :: "char \<Rightarrow> bool" where
  "py_isspace c = (let n = (of_char c :: nat) in
     (9 \<le> n \<and> n \<le> 13) \<or> (28 \<le> n \<and> n \<le> 32) \<or> n = 133 \<or> n = 160)"

definition py_strip :: "string \<Rightarrow> string" where
  "py_strip s = rev (dropWhile py_isspace (rev (dropWhile py_isspace s)))"

definition py_startswith :: "string \<Rightarrow> string \<Rightarrow> bool" where
  "py_startswith s p = (take (length p) s = p)"

definition py_endswith :: "string \<Rightarrow> string \<Rightarrow> bool" where
  "py_endswith s p = (length p \<le> length s \<and> drop (length s - length p) s = p)"

definition lower_char :: "char \<Rightarrow> char" where
  "lower_char c = (let n = (of_char c :: nat) in
     if (65 \<le> n \<and> n \<le> 90) \<or> (192 \<le> n \<and> n \<le> 222 \<and> n \<noteq> 215) then char_of (n + 32) else c)"

definition py_lower :: "string \<Rightarrow> string" where
  "py_lower s = map lower_char s"

text \<open>\<open>str.upper\<close>; the three characters whose capital lies outside the alphabet or is two
  characters long (181, 223, 255) are left as they are.\<close>

definition upper_char :: "char \<Rightarrow> char" where
  "upper_char c = (let n = (of_char c :: nat) in
     if (97 \<le> n \<and> n \<le> 122) \<or> (224 \<le> n \<and> n \<le> 254 \<and> n \<noteq> 247) then char_of (n - 32) else c)"

definition py_upper :: "string \<Rightarrow> string" where
  "py_upper s = map upper_char s"

lemma py_startswith_prefix: "py_startswith s p \<longleftrightarrow> prefix p s"
  by (auto simp: py_startswith_def prefix_def) (metis append_take_drop_id)

lemma py_strip_Nil [simp]: "py_strip [] = []"
  by (simp add: py_strip_def)

lemma dropWhile_idem: "dropWhile P (dropWhile P xs) = dropWhile P xs"
  by (induction xs) auto

lemma hd_dropWhile_not: "dropWhile P xs = y # ys \<Longrightarrow> \<not> P y"
  by (metis dropWhile_eq_Cons_conv)

lemma dropWhile_rev_dropWhile:
  assumes "dropWhile P xs = xs"
  shows "dropWhile P (rev (dropWhile P (rev xs))) = rev (dropWhile P (rev xs))"
proof (cases "rev (dropWhile P (rev xs))")
  case (Cons y ys)
  have "suffix (dropWhile P (rev xs)) (rev xs)"
    by (rule suffix_dropWhile)
  then have "prefix (rev (dropWhile P (rev xs))) xs"
    by (simp add: suffix_to_prefix)
  then obtain zs where "xs = y # zs"
    using Cons by (auto simp: prefix_def)
  with assms have "\<not> P y"
    by (metis hd_dropWhile_not)
  with Cons show ?thesis by simp
next
  case Nil
  show ?thesis by (simp only: Nil dropWhile.simps)
qed

lemma py_strip_idem [simp]: "py_strip (py_strip s) = py_strip s"
  by (simp add: py_strip_def dropWhile_rev_dropWhile dropWhile_idem)

subsection \<open>Splitting and joining\<close>

fun py_split :: "char \<Rightarrow> string \<Rightarrow> string list" where
  "py_split c [] = [ [] ]"
| "py_split c (x # xs) =
     (if x = c then [] # py_split c xs
      else (case py_split c xs of [] \<Rightarrow> [ [x] ] | w # ws \<Rightarrow> (x # w) # ws))"

fun py_join :: "string \<Rightarrow> string list \<Rightarrow> string" where
  "py_join sep [] = []"
| "py_join sep [w] = w"
| "py_join sep (w # v # ws) = w @ sep @ py_join sep (v # ws)"

lemma py_split_ne [simp]: "py_split c s \<noteq> []"
  by (induction s) (auto split: list.splits)

lemma py_split_no_sep: "w \<in> set (py_split c s) \<Longrightarrow> c \<notin> set w"
  by (induction s arbitrary: w) (auto split: list.splits if_splits)

lemma py_split_sep_free: "c \<notin> set w \<Longrightarrow> py_split c w = [w]"
  by (induction w) auto

lemma py_split_append: "c \<notin> set w \<Longrightarrow> py_split c (w @ c # s) = w # py_split c s"
  by (induction w) auto

lemma py_split_join:
  assumes "ws \<noteq> []" and "\<forall>w \<in> set ws. c \<notin> set w"
  shows "py_split c (py_join [c] ws) = ws"
  using assms
  by (induction "[c]" ws rule: py_join.induct) (auto simp: py_split_sep_free py_split_append)

lemma py_join_split: "py_join [c] (py_split c s) = s"
proof (induction s)
  case (Cons x xs)
  then show ?case
    by (cases "py_split c xs") (auto split: list.splits, (metis append_Cons neq_Nil_conv py_join.simps(2,3) self_append_conv2)+)
qed simp

text \<open>
  A text read in text mode, as \<open>Path.read_text\<close> does: CR LF and a lone CR become LF. Writing
  translates LF to \<open>os.linesep\<close>, the identity on POSIX.
\<close>

fun universal_newlines :: "string \<Rightarrow> string" where
  "universal_newlines (c # d # s) =
     (if c = CHR 0x0D \<and> d = CHR 0x0A then CHR 0x0A # universal_newlines s
      else (if c = CHR 0x0D then CHR 0x0A else c) # universal_newlines (d # s))"
| "universal_newlines [c] = [if c = CHR 0x0D then CHR 0x0A else c]"
| "universal_newlines [] = []"

lemma universal_newlines_id: "CHR 0x0D \<notin> set s \<Longrightarrow> universal_newlines s = s"
  by (induction s rule: universal_newlines.induct) auto

lemma universal_newlines_no_cr: "CHR 0x0D \<notin> set (universal_newlines s)"
  by (induction s rule: universal_newlines.induct) auto

subsection \<open>Numbers as text\<close>

definition digit_char :: "nat \<Rightarrow> char" where
  "digit_char n = char_of (48 + n)"

fun nat_text :: "nat \<Rightarrow> string" where
  "nat_text n = (if n < 10 then [digit_char n] else nat_text (n div 10) @ [digit_char (n mod 10)])"

declare nat_text.simps [simp del]

definition int_text :: "int \<Rightarrow> string" where
  "int_text n = (if n < 0 then ''-'' @ nat_text (nat (- n)) else nat_text (nat n))"

text \<open>\<open>f"{n:04d}"\<close> for a non-negative number.\<close>

definition pad4 :: "nat \<Rightarrow> string" where
  "pad4 n = (let s = nat_text n in replicate (4 - length s) (CHR ''0'') @ s)"

definition is_dec :: "char \<Rightarrow> bool" where
  "is_dec c = (let n = (of_char c :: nat) in 48 \<le> n \<and> n \<le> 57)"

text \<open>\<open>str.isdigit\<close> also accepts the superscripts two, three and one (178, 179, 185).\<close>

definition py_isdigit :: "string \<Rightarrow> bool" where
  "py_isdigit s = (s \<noteq> [] \<and>
     list_all (\<lambda>c. is_dec c \<or> (of_char c :: nat) \<in> {178, 179, 185}) s)"

definition dec_value :: "string \<Rightarrow> int" where
  "dec_value s = fold (\<lambda>c acc. 10 * acc + (int (of_char c) - 48)) s 0"

text \<open>The body of an integer literal: digits, single underscores only between digits.\<close>

fun int_body :: "bool \<Rightarrow> string \<Rightarrow> bool" where
  "int_body prev [] = prev"
| "int_body prev (c # cs) =
     (if is_dec c then int_body True cs
      else if c = CHR ''_'' then prev \<and> int_body False cs
      else False)"

text \<open>\<open>int(text)\<close>: surrounding white space, a sign, a body; \<open>None\<close> is \<open>ValueError\<close>.\<close>

definition int_unsigned :: "string \<Rightarrow> int option" where
  "int_unsigned s = (if int_body False s then Some (dec_value (filter is_dec s)) else None)"

definition int_of_text :: "string \<Rightarrow> int option" where
  "int_of_text s =
     (case py_strip s of
        [] \<Rightarrow> None
      | c # cs \<Rightarrow>
          if c = CHR ''-'' then map_option uminus (int_unsigned cs)
          else if c = CHR ''+'' then int_unsigned cs
          else int_unsigned (c # cs))"

subsection \<open>\<open>str\<close> and \<open>repr\<close>\<close>

definition hex_digit :: "nat \<Rightarrow> char" where
  "hex_digit n = (if n < 10 then char_of (48 + n) else char_of (87 + n))"

definition py_printable :: "char \<Rightarrow> bool" where
  "py_printable c = (let n = (of_char c :: nat) in
     (32 \<le> n \<and> n \<le> 126) \<or> (161 \<le> n \<and> n \<noteq> 173))"

definition repr_char :: "char \<Rightarrow> char \<Rightarrow> string" where
  "repr_char q c =
     (if c = q \<or> c = CHR 0x5C then [CHR 0x5C, c]
      else if c = CHR 0x09 then [CHR 0x5C, CHR ''t'']
      else if c = CHR 0x0A then [CHR 0x5C, CHR ''n'']
      else if c = CHR 0x0D then [CHR 0x5C, CHR ''r'']
      else if py_printable c then [c]
      else (let n = (of_char c :: nat) in
              [CHR 0x5C, CHR ''x'', hex_digit (n div 16), hex_digit (n mod 16)]))"

definition str_repr :: "string \<Rightarrow> string" where
  "str_repr s =
     (let q = (if CHR 0x27 \<in> set s \<and> CHR 0x22 \<notin> set s then CHR 0x22 else CHR 0x27)
      in [q] @ concat (map (repr_char q) s) @ [q])"

function py_repr :: "pyval \<Rightarrow> string" where
  "py_repr PyNone = ''None''"
| "py_repr (PyBool b) = (if b then ''True'' else ''False'')"
| "py_repr (PyInt n) = int_text n"
| "py_repr (PyFloat t r) = t"
| "py_repr (PyStr s) = str_repr s"
| "py_repr (PyList xs) = ''['' @ py_join '', '' (map py_repr xs) @ '']''"
| "py_repr (PyDict d) =
     ''{'' @ py_join '', '' (map (\<lambda>kv. str_repr (fst kv) @ '': '' @ py_repr (snd kv)) d) @ ''}''"
  by pat_completeness auto
termination
proof (relation "measure size", goal_cases)
  case (2 xs x)
  then show ?case by (induction xs) auto
next
  case (3 d kv)
  then show ?case by (induction d) (auto split: prod.splits)
qed simp

definition py_str :: "pyval \<Rightarrow> string" where
  "py_str v = (case v of PyStr s \<Rightarrow> s | _ \<Rightarrow> py_repr v)"

text \<open>\<open>str(v or "")\<close>, \<open>str(v).strip()\<close> and the interpolation of a boolean as lower case.\<close>

definition str_or_empty :: "pyval \<Rightarrow> string" where
  "str_or_empty v = (if py_truth v then py_str v else '''')"

definition str_strip :: "pyval \<Rightarrow> string" where
  "str_strip v = py_strip (py_str v)"

definition bool_lower :: "bool \<Rightarrow> string" where
  "bool_lower b = (if b then ''true'' else ''false'')"

definition list_text :: "string list \<Rightarrow> string" where
  "list_text xs = ''['' @ py_join '', '' (map str_repr xs) @ '']''"

definition tuple_text :: "int list \<Rightarrow> string" where
  "tuple_text xs = ''('' @ py_join '', '' (map int_text xs) @ '')''"

lemma py_str_Str [simp]: "py_str (PyStr s) = s"
  by (simp add: py_str_def)

lemma str_strip_Str [simp]: "str_strip (PyStr s) = py_strip s"
  by (simp add: str_strip_def)

subsection \<open>Sorted lists and duplicates\<close>

text \<open>\<open>sorted(xs)\<close> and \<open>sorted(set(xs))\<close> on strings, and order-preserving de-duplication.\<close>

definition py_sorted :: "string list \<Rightarrow> string list" where
  "py_sorted xs = sort xs"

definition py_sorted_set :: "string list \<Rightarrow> string list" where
  "py_sorted_set xs = sort (remdups xs)"

fun dedupe_from :: "string set \<Rightarrow> string list \<Rightarrow> string list" where
  "dedupe_from seen [] = []"
| "dedupe_from seen (x # xs) =
     (if x \<in> seen then dedupe_from seen xs else x # dedupe_from (insert x seen) xs)"

lemma set_py_sorted [simp]: "set (py_sorted xs) = set xs"
  by (simp add: py_sorted_def)

lemma set_py_sorted_set [simp]: "set (py_sorted_set xs) = set xs"
  by (simp add: py_sorted_set_def)

lemma length_py_sorted [simp]: "length (py_sorted xs) = length xs"
  by (simp add: py_sorted_def)

lemma py_sorted_set_distinct [simp]: "distinct (py_sorted_set xs)"
  by (simp add: py_sorted_set_def)

lemma py_sorted_Nil [simp]: "py_sorted xs = [] \<longleftrightarrow> xs = []"
  by (metis py_sorted_def set_empty set_sort)

lemma py_sorted_set_Nil [simp]: "py_sorted_set xs = [] \<longleftrightarrow> xs = []"
  by (metis set_empty set_py_sorted_set)

lemma py_sorted_eq_iff: "py_sorted xs = py_sorted ys \<longleftrightarrow> mset xs = mset ys"
  by (metis mset_sort properties_for_sort py_sorted_def sorted_sort)

lemma set_dedupe_from: "set (dedupe_from seen xs) = set xs - seen"
  by (induction seen xs rule: dedupe_from.induct) auto

lemma distinct_dedupe_from: "distinct (dedupe_from seen xs)"
  by (induction seen xs rule: dedupe_from.induct) (auto simp: set_dedupe_from)

lemma dedupe_from_disjoint: "distinct xs \<Longrightarrow> set xs \<inter> seen = {} \<Longrightarrow> dedupe_from seen xs = xs"
  by (induction seen xs rule: dedupe_from.induct) auto

end
