(* ===== verification/RepoPath.thy ===== *)
theory RepoPath
  imports PyText
begin

section \<open>Repository paths and the apply guard\<close>

text \<open>
  \<open>core/path_runtime.py\<close> (\<open>normalize_repo_path_text\<close>) and the path part of
  \<open>core/filesystem_runtime.py\<close>: the normal form of a changed-files manifest path, the
  \<open>allowed_apply_roots\<close> of the policy, and the guard that classifies every manifest
  entry as invalid, disallowed or allowed before anything is written.

  \<open>norm_components\<close> is \<open>posixpath.normpath\<close> of the standard library on components.
\<close>

subsection \<open>\<open>posixpath.normpath\<close>\<close>

definition slash :: char where
  "slash = CHR ''/''"

text \<open>\<open>posixpath.splitroot\<close> without a drive: no root, \<open>/\<close>, or exactly two slashes.\<close>

fun splitroot :: "string \<Rightarrow> string \<times> string" where
  "splitroot [] = ([], [])"
| "splitroot (a # s) =
     (if a \<noteq> slash then ([], a # s)
      else (case s of
              [] \<Rightarrow> ([slash], [])
            | b # t \<Rightarrow>
                if b \<noteq> slash then ([slash], b # t)
                else (case t of
                        [] \<Rightarrow> ([slash, slash], [])
                      | c # u \<Rightarrow> if c = slash then ([slash], b # t)
                                 else ([slash, slash], t))))"

definition norm_step :: "bool \<Rightarrow> string list \<Rightarrow> string \<Rightarrow> string list" where
  "norm_step rooted acc w =
     (if w = [] \<or> w = ''.'' then acc
      else if w \<noteq> ''..'' \<or> (\<not> rooted \<and> acc = []) \<or> (acc \<noteq> [] \<and> last acc = ''..'')
           then acc @ [w]
      else butlast acc)"

definition norm_components :: "bool \<Rightarrow> string list \<Rightarrow> string list" where
  "norm_components rooted comps = foldl (norm_step rooted) [] comps"

definition normpath :: "string \<Rightarrow> string" where
  "normpath p =
     (if p = [] then ''.''
      else (case splitroot p of (rt, rest) \<Rightarrow>
        let r = rt @ py_join [slash] (norm_components (rt \<noteq> []) (py_split slash rest))
        in if r = [] then ''.'' else r))"

definition unslash_backslash :: "string \<Rightarrow> string" where
  "unslash_backslash s = map (\<lambda>c. if c = CHR 0x5C then slash else c) s"

text \<open>\<open>normalize_repo_path_text\<close> of \<open>path_runtime.py\<close>.\<close>

definition normalize_repo_path_text :: "string option \<Rightarrow> string option" where
  "normalize_repo_path_text value =
     (case value of
        None \<Rightarrow> None
      | Some v \<Rightarrow>
          (let t = py_strip v
           in if t = [] then None else Some (normpath (unslash_backslash t))))"

subsection \<open>Manifest paths and allowed roots\<close>

definition normalize_manifest_repo_path :: "pyval \<Rightarrow> string option" where
  "normalize_manifest_repo_path value =
     (case value of
        PyStr v \<Rightarrow>
          (let raw = unslash_backslash (py_strip v)
           in if raw = [] \<or> py_startswith raw ''/'' then None
              else (case normalize_repo_path_text (Some raw) of
                      None \<Rightarrow> None
                    | Some n \<Rightarrow>
                        if n = ''.'' \<or> n = ''..'' \<or> py_startswith n ''../'' then None
                        else Some n))
      | _ \<Rightarrow> None)"

record apply_root =
  normalized_path :: string
  prefix_match :: bool

definition parse_allowed_apply_root :: "pyval \<Rightarrow> apply_root res" where
  "parse_allowed_apply_root value =
     (case value of
        PyStr v \<Rightarrow>
          (let raw = unslash_backslash (py_strip v)
           in if raw = [] then Inl (ValueError ''allowed_apply_roots entries must not be empty'')
              else (let pm = py_endswith raw ''/''
                    in (case normalize_manifest_repo_path (PyStr (if pm then butlast raw else raw)) of
                          None \<Rightarrow> Inl (ValueError (''invalid allowed_apply_roots entry: '' @ v))
                        | Some n \<Rightarrow> Inr \<lparr>normalized_path = n, prefix_match = pm\<rparr>)))
      | _ \<Rightarrow> Inl (ValueError ''allowed_apply_roots entries must be strings''))"

definition canonical_root :: "apply_root \<Rightarrow> string" where
  "canonical_root r = (if prefix_match r then normalized_path r @ ''/'' else normalized_path r)"

definition normalized_allowed_apply_roots :: "pyval list \<Rightarrow> string list res" where
  "normalized_allowed_apply_roots roots =
     bindr (mapr parse_allowed_apply_root roots)
       (\<lambda>rs. Inr (dedupe_from {} (map canonical_root rs)))"

definition path_matches_allowed_apply_root :: "string \<Rightarrow> apply_root \<Rightarrow> bool" where
  "path_matches_allowed_apply_root path r =
     (if prefix_match r
      then path = normalized_path r \<or> py_startswith path (normalized_path r @ ''/'')
      else path = normalized_path r)"

subsection \<open>The apply guard\<close>

record guard_state =
  g_allowed_apply_roots :: "string list"
  g_changed_paths :: "string list"
  g_invalid_paths :: "string list"
  g_disallowed_paths :: "string list"

record guard_scan =
  sc_invalid :: "string list"
  sc_changed :: "string list"
  sc_disallowed :: "string list"

text \<open>One round of the loop over \<open>enumerate(files)\<close>.\<close>

definition guard_entry :: "apply_root list \<Rightarrow> nat \<Rightarrow> pyval \<Rightarrow> guard_scan \<Rightarrow> guard_scan" where
  "guard_entry roots index entry sc =
     (case entry of
        PyDict d \<Rightarrow>
          (let rel_path = dget d ''path'' PyNone
           in (case normalize_manifest_repo_path rel_path of
                 None \<Rightarrow> sc\<lparr>sc_invalid := sc_invalid sc @ [py_str rel_path]\<rparr>
               | Some n \<Rightarrow>
                   (let sc' = sc\<lparr>sc_changed := sc_changed sc @ [n]\<rparr>
                    in if list_ex (path_matches_allowed_apply_root n) roots then sc'
                       else sc'\<lparr>sc_disallowed := sc_disallowed sc' @ [n]\<rparr>)))
      | _ \<Rightarrow> sc\<lparr>sc_invalid := sc_invalid sc @ [''<invalid-entry:'' @ nat_text index @ ''>'']\<rparr>)"

fun guard_scan_from :: "apply_root list \<Rightarrow> nat \<Rightarrow> pyval list \<Rightarrow> guard_scan \<Rightarrow> guard_scan" where
  "guard_scan_from roots i [] sc = sc"
| "guard_scan_from roots i (e # es) sc =
     guard_scan_from roots (Suc i) es (guard_entry roots i e sc)"

definition manifest_apply_guard_state :: "pydict \<Rightarrow> pyval list \<Rightarrow> guard_state res" where
  "manifest_apply_guard_state manifest allowed_roots =
     (case dget manifest ''files'' (PyList []) of
        PyList files \<Rightarrow>
          bindr (mapr parse_allowed_apply_root allowed_roots) (\<lambda>roots.
            let sc = guard_scan_from roots 0 files \<lparr>sc_invalid = [], sc_changed = [], sc_disallowed = []\<rparr>
            in bindr (normalized_allowed_apply_roots allowed_roots) (\<lambda>names.
                 Inr \<lparr>g_allowed_apply_roots = names,
                      g_changed_paths = sc_changed sc,
                      g_invalid_paths = py_sorted_set (sc_invalid sc),
                      g_disallowed_paths = py_sorted_set (sc_disallowed sc)\<rparr>))
      | _ \<Rightarrow> Inl (ValueError ''changed-files manifest must contain a files list''))"

definition guard_problems :: "guard_state \<Rightarrow> string list" where
  "guard_problems st =
     (if g_invalid_paths st \<noteq> []
      then [''invalid paths: '' @ py_join '', '' (g_invalid_paths st)] else []) @
     (if g_disallowed_paths st \<noteq> []
      then [''paths outside allowed_apply_roots: '' @ py_join '', '' (g_disallowed_paths st)]
      else [])"

definition validate_manifest_apply_guard :: "pydict \<Rightarrow> pyval list \<Rightarrow> guard_state res" where
  "validate_manifest_apply_guard manifest allowed_roots =
     bindr (manifest_apply_guard_state manifest allowed_roots) (\<lambda>st.
       if guard_problems st \<noteq> []
       then Inl (FilesystemTransactionError
              (''changed-files manifest violates apply guardrails ('' @
               py_join ''; '' (guard_problems st) @ ''; allowed_apply_roots='' @
               py_join '', '' (g_allowed_apply_roots st) @ '')''))
       else Inr st)"

subsection \<open>Normal forms\<close>

definition plain_component :: "string \<Rightarrow> bool" where
  "plain_component w = (w \<noteq> [] \<and> w \<noteq> ''.'' \<and> w \<noteq> ''..'')"

definition norm_form :: "bool \<Rightarrow> string list \<Rightarrow> bool" where
  "norm_form rooted ws = (\<exists>k ns. ws = replicate k ''..'' @ ns \<and>
     (\<forall>w \<in> set ns. plain_component w) \<and> (rooted \<longrightarrow> k = 0))"

lemma norm_form_Nil [simp]: "norm_form rooted []"
  by (auto simp: norm_form_def)

lemma norm_step_norm_form:
  assumes "norm_form rooted acc"
  shows "norm_form rooted (norm_step rooted acc w)"
proof -
  obtain k ns where acc: "acc = replicate k ''..'' @ ns"
    and ns: "\<forall>w \<in> set ns. plain_component w" and k: "rooted \<longrightarrow> k = 0"
    using assms by (auto simp: norm_form_def)
  show ?thesis
  proof (cases "w = ''..''")
    case False
    have "plain_component w \<Longrightarrow> norm_form rooted (acc @ [w])"
      unfolding norm_form_def acc
      by (rule exI [of _ k], rule exI [of _ "ns @ [w]"]) (use ns k in auto)
    with False assms show ?thesis by (auto simp: norm_step_def plain_component_def)
  next
    case dots: True
    show ?thesis
    proof (cases ns rule: rev_cases)
      case Nil
      then have "norm_step rooted acc w = (if rooted then [] else replicate (Suc k) ''..'')"
        using k dots acc by (cases k) (auto simp: norm_step_def replicate_append_same)
      moreover have "norm_form rooted (if rooted then [] else replicate (Suc k) ''..'')"
        unfolding norm_form_def
        by (rule exI [of _ "if rooted then 0 else Suc k"], rule exI [of _ "[]"]) auto
      ultimately show ?thesis by simp
    next
      case (snoc ms m)
      then have "norm_step rooted acc w = replicate k ''..'' @ ms"
        using dots acc ns by (auto simp: norm_step_def plain_component_def butlast_append)
      then show ?thesis using snoc ns k by (auto simp: norm_form_def)
    qed
  qed
qed

lemma norm_components_norm_form: "norm_form rooted (norm_components rooted ws)"
proof -
  have "norm_form rooted acc \<Longrightarrow> norm_form rooted (foldl (norm_step rooted) acc ws)" for acc
    by (induction ws arbitrary: acc) (auto simp: norm_step_norm_form)
  then show ?thesis by (simp add: norm_components_def)
qed

lemma foldl_norm_plain:
  "\<forall>w \<in> set ns. plain_component w \<Longrightarrow> foldl (norm_step rooted) acc ns = acc @ ns"
  by (induction ns arbitrary: acc) (auto simp: norm_step_def plain_component_def)

lemma foldl_norm_dots:
  "foldl (norm_step False) (replicate j ''..'') (replicate k ''..'') = replicate (j + k) ''..''"
proof (induction k arbitrary: j)
  case (Suc k)
  have "norm_step False (replicate j ''..'') ''..'' = replicate (Suc j) ''..''"
    by (cases j) (auto simp: norm_step_def replicate_append_same)
  then show ?case using Suc [of "Suc j"] by simp
qed simp

lemma norm_components_fixed: "norm_form rooted ws \<Longrightarrow> norm_components rooted ws = ws"
  using foldl_norm_dots [of 0]
  by (auto simp: norm_form_def norm_components_def foldl_norm_plain)

lemma norm_step_subset: "set (norm_step rooted acc w) \<subseteq> insert w (set acc)"
  by (auto simp: norm_step_def dest: in_set_butlastD)

lemma norm_components_subset: "set (norm_components rooted ws) \<subseteq> set ws"
proof -
  have "set (foldl (norm_step rooted) acc ws) \<subseteq> set acc \<union> set ws" for acc
  proof (induction ws arbitrary: acc)
    case (Cons w ws)
    from Cons [of "norm_step rooted acc w"] norm_step_subset [of rooted acc w]
    show ?case by auto
  qed simp
  from this [of "[]"] show ?thesis by (simp add: norm_components_def)
qed

lemma norm_components_split_free:
  "w \<in> set (norm_components rooted (py_split c s)) \<Longrightarrow> c \<notin> set w"
  using norm_components_subset py_split_no_sep by blast

lemma norm_form_nonempty:
  assumes "norm_form rooted ws" and "w \<in> set ws"
  shows "w \<noteq> []"
proof -
  obtain k ns where "ws = replicate k ''..'' @ ns" and "\<forall>w \<in> set ns. plain_component w"
    using assms(1) unfolding norm_form_def by blast
  with assms(2) show ?thesis by (auto simp: plain_component_def)
qed

lemma py_join_hd:
  assumes "ws \<noteq> []" and "hd ws \<noteq> []"
  shows "py_join sep ws \<noteq> [] \<and> hd (py_join sep ws) = hd (hd ws)"
  using assms by (induction sep ws rule: py_join.induct) auto

lemma splitroot_relative: "s = [] \<or> hd s \<noteq> slash \<Longrightarrow> splitroot s = ([], s)"
  by (cases s) auto

lemma splitroot_root:
  assumes "splitroot p = (rt, rest)"
  shows "rt \<in> {[], [slash], [slash, slash]}"
proof (cases p)
  case (Cons a s)
  then show ?thesis using assms by (cases s; cases "tl s") (auto split: if_splits)
qed (use assms in simp)

lemma splitroot_join:
  assumes "splitroot p = (rt, rest)" and "s = [] \<or> hd s \<noteq> slash"
  shows "splitroot (rt @ s) = (rt, s)"
  using splitroot_root [OF assms(1)] assms(2) by (cases s) auto

lemma py_join_norm_hd:
  fixes s :: string and rooted :: bool
  defines "ws \<equiv> norm_components rooted (py_split slash s)"
  shows "py_join [slash] ws = [] \<or> hd (py_join [slash] ws) \<noteq> slash"
proof (cases ws)
  case (Cons w us)
  have "w \<noteq> []" using norm_form_nonempty [OF norm_components_norm_form] Cons
    by (metis list.set_intros(1) ws_def)
  moreover have "slash \<notin> set w" using norm_components_split_free Cons
    by (metis list.set_intros(1) ws_def)
  ultimately have "hd w \<noteq> slash" by (metis hd_in_set)
  then show ?thesis using py_join_hd [of ws "[slash]"] Cons \<open>w \<noteq> []\<close> by simp
qed simp

text \<open>\<open>normpath\<close> is idempotent: its result is the one spelling of that path.\<close>

lemma normpath_idem: "normpath (normpath p) = normpath p"
proof (cases "p = []")
  case True
  have "normpath [] = ''.''" and "normpath ''.'' = ''.''" by code_simp+
  with True show ?thesis by simp
next
  case False
  obtain rt rest where sr: "splitroot p = (rt, rest)" by (cases "splitroot p")
  define ws where "ws = norm_components (rt \<noteq> []) (py_split slash rest)"
  define s where "s = py_join [slash] ws"
  have np: "normpath p = (if rt @ s = [] then ''.'' else rt @ s)"
    using False by (simp only: normpath_def sr Let_def ws_def s_def prod.case if_False)
  have sr2: "splitroot (rt @ s) = (rt, s)"
    using splitroot_join [OF sr] py_join_norm_hd by (simp add: s_def ws_def)
  have "norm_components (rt \<noteq> []) (py_split slash s) = ws"
  proof (cases "ws = []")
    case True
    then show ?thesis by (simp add: s_def norm_components_def norm_step_def)
  next
    case False
    have "py_split slash s = ws" unfolding s_def
      by (rule py_split_join [OF False]) (auto simp: ws_def dest: norm_components_split_free)
    then show ?thesis
      using norm_components_fixed [OF norm_components_norm_form] by (simp add: ws_def)
  qed
  then have fix2: "rt @ s \<noteq> [] \<Longrightarrow> normpath (rt @ s) = rt @ s"
    using sr2 by (simp add: normpath_def Let_def s_def)
  show ?thesis
  proof (cases "rt @ s = []")
    case True
    then have "normpath p = ''.''" using np by simp
    moreover have "normpath ''.'' = ''.''" by code_simp
    ultimately show ?thesis by simp
  next
    case False
    have "normpath p = rt @ s" using np False by (simp only: if_False)
    with fix2 [OF False] show ?thesis by simp
  qed
qed

lemma normpath_relative:
  assumes "p \<noteq> []" and "hd p \<noteq> slash"
  shows "normpath p = (let ws = norm_components False (py_split slash p)
                       in if ws = [] then ''.'' else py_join [slash] ws)"
proof -
  have "splitroot p = ([], p)" using assms by (intro splitroot_relative) simp
  moreover have "norm_components False (py_split slash p) \<noteq> [] \<Longrightarrow>
      py_join [slash] (norm_components False (py_split slash p)) \<noteq> []"
    using norm_form_nonempty [OF norm_components_norm_form] py_join_hd hd_in_set by metis
  ultimately show ?thesis using assms by (auto simp: normpath_def Let_def)
qed

text \<open>
  A manifest path that survives normalisation is relative, not empty, and none of its
  components is empty, \<open>.\<close> or \<open>..\<close>: it cannot name anything outside the root it is
  joined to.
\<close>

definition contained_path :: "string \<Rightarrow> bool" where
  "contained_path p = (p \<noteq> [] \<and> hd p \<noteq> slash \<and> list_all plain_component (py_split slash p))"

lemma unslash_backslash_hd: "s \<noteq> [] \<Longrightarrow> \<not> py_startswith s ''/'' \<longleftrightarrow> hd s \<noteq> slash"
  by (cases s) (auto simp: py_startswith_def slash_def)

lemma norm_form_relative_contained:
  assumes nf: "norm_form False ws" and ne: "ws \<noteq> []"
    and free: "\<forall>w \<in> set ws. slash \<notin> set w"
    and p: "p = py_join [slash] ws"
    and ok: "p \<noteq> ''..''" "\<not> py_startswith p ''../''"
  shows "contained_path p"
proof -
  have split: "py_split slash p = ws"
    unfolding p using ne free by (rule py_split_join)
  obtain k ns where ws: "ws = replicate k ''..'' @ ns" and ns: "\<forall>w \<in> set ns. plain_component w"
    using nf by (auto simp: norm_form_def)
  have "k = 0"
  proof (cases k)
    case (Suc j)
    then obtain us where us: "ws = ''..'' # us" using ws by simp
    show ?thesis
    proof (cases us)
      case Nil
      then show ?thesis using us p ok(1) by simp
    next
      case (Cons v vs)
      then have "p = ''..'' @ [slash] @ py_join [slash] (v # vs)" using us p by simp
      then have "py_startswith p ''../''" by (simp add: py_startswith_def slash_def)
      with ok(2) show ?thesis by simp
    qed
  qed simp
  then have all: "\<forall>w \<in> set ws. plain_component w" using ws ns by simp
  have hd: "hd ws \<noteq> []" using all ne by (auto simp: plain_component_def)
  have "p \<noteq> [] \<and> hd p = hd (hd ws)" unfolding p using ne hd by (rule py_join_hd)
  moreover have "hd (hd ws) \<noteq> slash" using free ne hd by (metis hd_in_set)
  ultimately show ?thesis using all split by (simp add: contained_path_def list_all_iff)
qed

lemma unslash_backslash_idem [simp]: "unslash_backslash (unslash_backslash s) = unslash_backslash s"
  by (simp add: unslash_backslash_def slash_def)

lemma py_strip_unslash: "py_strip (unslash_backslash s) = unslash_backslash (py_strip s)"
proof -
  have "py_isspace (CHR 0x5C) = False" "py_isspace slash = False" by code_simp+
  then have "py_isspace \<circ> (\<lambda>c. if c = CHR 0x5C then slash else c) = py_isspace"
    by (auto simp: fun_eq_iff)
  then show ?thesis
    by (simp add: py_strip_def unslash_backslash_def dropWhile_map rev_map)
qed

lemma normalize_manifest_eq:
  "normalize_manifest_repo_path (PyStr s) =
     (let raw = unslash_backslash (py_strip s)
      in if raw = [] \<or> py_startswith raw ''/'' then None
         else (let n = normpath raw
               in if n = ''.'' \<or> n = ''..'' \<or> py_startswith n ''../'' then None else Some n))"
  by (simp add: normalize_manifest_repo_path_def normalize_repo_path_text_def py_strip_unslash Let_def)

lemma normalize_manifest_contained:
  assumes "normalize_manifest_repo_path v = Some p"
  shows "contained_path p"
proof -
  obtain s where v: "v = PyStr s"
    using assms by (cases v) (auto simp: normalize_manifest_repo_path_def)
  define raw where "raw = unslash_backslash (py_strip s)"
  have raw: "raw \<noteq> []" "\<not> py_startswith raw ''/''"
    and p: "p = normpath raw" and ok: "p \<noteq> ''.''" "p \<noteq> ''..''" "\<not> py_startswith p ''../''"
    using assms unfolding v normalize_manifest_eq raw_def [symmetric]
    by (auto simp: Let_def split: if_splits)
  have hd: "hd raw \<noteq> slash" using raw unslash_backslash_hd by blast
  define ws where "ws = norm_components False (py_split slash raw)"
  have "ws \<noteq> []" and pj: "p = py_join [slash] ws"
    using p ok(1) normpath_relative [OF raw(1) hd] by (auto simp: ws_def Let_def split: if_splits)
  moreover have "norm_form False ws" "\<forall>w \<in> set ws. slash \<notin> set w"
    by (auto simp: ws_def norm_components_norm_form dest: norm_components_split_free)
  ultimately show ?thesis using ok norm_form_relative_contained by blast
qed

lemma contained_path_normpath:
  assumes "contained_path p"
  shows "normpath p = p"
proof -
  have pc: "p \<noteq> []" "hd p \<noteq> slash" "\<forall>w \<in> set (py_split slash p). plain_component w"
    using assms by (auto simp: contained_path_def list_all_iff)
  have "norm_components False (py_split slash p) = py_split slash p"
    using pc(3) by (simp add: norm_components_def foldl_norm_plain)
  with normpath_relative [OF pc(1,2)] show ?thesis by (simp add: py_join_split)
qed

subsection \<open>Containment in a scope\<close>

lemma py_split_concat: "py_split c (a @ c # b) = py_split c a @ py_split c b"
proof (induction a)
  case (Cons x xs)
  then show ?case by (cases "py_split c xs") auto
qed simp

text \<open>
  The contract shared by the two scope tests of the runtime: whatever a scope entry
  matches lies, component by component, under the path the entry names. A test on raw
  text prefixes would also match a sibling such as \<open>src-old\<close> of \<open>src\<close>.
\<close>

locale path_scope =
  fixes scope_matches :: "string \<Rightarrow> 'r \<Rightarrow> bool"
    and scope_base :: "'r \<Rightarrow> string"
  assumes match_component_prefix:
    "scope_matches p r \<Longrightarrow> prefix (py_split slash (scope_base r)) (py_split slash p)"
begin

lemma in_scope_under_base:
  assumes "list_ex (scope_matches p) rs"
  shows "\<exists>r \<in> set rs. prefix (py_split slash (scope_base r)) (py_split slash p)"
  using assms match_component_prefix by (auto simp: list_ex_iff)

lemma no_sibling_match:
  assumes "scope_matches p r" and "py_split slash p = c # cs"
    and "py_split slash (scope_base r) = b # bs"
  shows "c = b"
  using match_component_prefix [OF assms(1)] assms(2,3) by simp

lemma scope_filter_outside:
  assumes "p \<in> set ps"
  shows "list_ex (scope_matches p) rs \<or> p \<in> set (filter (\<lambda>p. \<not> list_ex (scope_matches p) rs) ps)"
  using assms by auto

end

lemma component_prefix_text:
  "p = b \<or> py_startswith p (b @ ''/'') \<Longrightarrow> prefix (py_split slash b) (py_split slash p)"
  by (auto simp: py_startswith_prefix prefix_def slash_def [symmetric] py_split_concat)

interpretation apply_scope: path_scope path_matches_allowed_apply_root normalized_path
  by unfold_locales (metis path_matches_allowed_apply_root_def component_prefix_text)

subsection \<open>What the guard lets through\<close>

lemma guard_entry_mono:
  "set (sc_invalid sc) \<subseteq> set (sc_invalid (guard_entry roots i e sc))"
  "set (sc_disallowed sc) \<subseteq> set (sc_disallowed (guard_entry roots i e sc))"
  by (auto simp: guard_entry_def Let_def split: pyval.splits option.splits)

lemma guard_scan_mono:
  "set (sc_invalid sc) \<subseteq> set (sc_invalid (guard_scan_from roots i es sc))"
  "set (sc_disallowed sc) \<subseteq> set (sc_disallowed (guard_scan_from roots i es sc))"
proof (induction es arbitrary: i sc)
  case (Cons e es)
  {
    case 1
    show ?case using Cons(1) guard_entry_mono(1) by fastforce
  next
    case 2
    show ?case using Cons(2) guard_entry_mono(2) by fastforce
  }
qed simp_all

definition entry_allowed :: "apply_root list \<Rightarrow> pyval \<Rightarrow> string \<Rightarrow> bool" where
  "entry_allowed roots entry n =
     (\<exists>d. entry = PyDict d \<and> normalize_manifest_repo_path (dget d ''path'' PyNone) = Some n \<and>
          list_ex (path_matches_allowed_apply_root n) roots)"

lemma guard_entry_clean:
  assumes "sc_invalid (guard_entry roots i e sc) = []"
    and "sc_disallowed (guard_entry roots i e sc) = []"
  shows "\<exists>n. entry_allowed roots e n \<and> guard_entry roots i e sc = sc\<lparr>sc_changed := sc_changed sc @ [n]\<rparr>"
  using assms
  by (auto simp: guard_entry_def entry_allowed_def Let_def split: pyval.splits option.splits if_splits)

lemma guard_scan_clean:
  assumes "sc_invalid (guard_scan_from roots i es sc) = []"
    and "sc_disallowed (guard_scan_from roots i es sc) = []"
  shows "\<exists>ns. list_all2 (entry_allowed roots) es ns \<and>
              sc_changed (guard_scan_from roots i es sc) = sc_changed sc @ ns"
  using assms
proof (induction es arbitrary: i sc)
  case (Cons e es)
  let ?sc = "guard_entry roots i e sc"
  have "sc_invalid ?sc = []" "sc_disallowed ?sc = []"
    using guard_scan_mono [of ?sc roots "Suc i" es] Cons.prems by auto
  then obtain n where n: "entry_allowed roots e n" "?sc = sc\<lparr>sc_changed := sc_changed sc @ [n]\<rparr>"
    using guard_entry_clean by blast
  obtain ns where "list_all2 (entry_allowed roots) es ns"
    and "sc_changed (guard_scan_from roots (Suc i) es ?sc) = sc_changed ?sc @ ns"
    using Cons.IH [of "Suc i" ?sc] Cons.prems by auto
  with n show ?case by (intro exI [of _ "n # ns"]) simp
qed simp

lemma validate_guard_InrD:
  assumes "validate_manifest_apply_guard m allowed = Inr st"
  obtains files roots where "dget m ''files'' (PyList []) = PyList files"
    and "mapr parse_allowed_apply_root allowed = Inr roots"
    and "list_all2 (entry_allowed roots) files (g_changed_paths st)"
proof -
  have st: "manifest_apply_guard_state m allowed = Inr st" "guard_problems st = []"
    using assms by (auto simp: validate_manifest_apply_guard_def bindr_eq_Inr split: if_splits)
  have clean: "g_invalid_paths st = []" "g_disallowed_paths st = []"
    using st(2) by (auto simp: guard_problems_def split: if_splits)
  obtain files roots where f: "dget m ''files'' (PyList []) = PyList files"
    and r: "mapr parse_allowed_apply_root allowed = Inr roots"
    using st(1) by (auto simp: manifest_apply_guard_state_def bindr_eq_Inr split: pyval.splits)
  have "list_all2 (entry_allowed roots) files (g_changed_paths st)"
    using st(1) clean f r guard_scan_clean [of roots 0 files "\<lparr>sc_invalid = [], sc_changed = [], sc_disallowed = []\<rparr>"]
    by (auto simp: manifest_apply_guard_state_def bindr_eq_Inr Let_def)
  with f r that show thesis by blast
qed

lemma parse_root_contained:
  "parse_allowed_apply_root v = Inr r \<Longrightarrow> contained_path (normalized_path r)"
  by (auto simp: parse_allowed_apply_root_def Let_def split: pyval.splits if_splits option.splits
      dest: normalize_manifest_contained)

lemma guard_scan_allowed:
  "list_all2 (entry_allowed roots) es ns \<Longrightarrow>
     guard_scan_from roots i es sc = sc\<lparr>sc_changed := sc_changed sc @ ns\<rparr>"
proof (induction es ns arbitrary: i sc rule: list_all2_induct)
  case (Cons e es n ns)
  then have "guard_entry roots i e sc = sc\<lparr>sc_changed := sc_changed sc @ [n]\<rparr>"
    by (auto simp: guard_entry_def entry_allowed_def)
  with Cons.IH show ?case by simp
qed simp

lemma guard_contains:
  assumes "validate_manifest_apply_guard m allowed = Inr st" and "p \<in> set (g_changed_paths st)"
  shows "contained_path p \<and>
    (\<exists>a \<in> set allowed. \<exists>r. parse_allowed_apply_root a = Inr r \<and> contained_path (normalized_path r) \<and>
        prefix (py_split slash (normalized_path r)) (py_split slash p))"
proof -
  obtain files roots where roots: "mapr parse_allowed_apply_root allowed = Inr roots"
    and ok: "list_all2 (entry_allowed roots) files (g_changed_paths st)"
    using validate_guard_InrD [OF assms(1)] by blast
  from list_all2_in2 [OF ok assms(2)] obtain d where
    n: "normalize_manifest_repo_path (dget d ''path'' PyNone) = Some p"
    and m: "list_ex (path_matches_allowed_apply_root p) roots"
    by (auto simp: entry_allowed_def)
  from apply_scope.in_scope_under_base [OF m] obtain r where
    r: "r \<in> set roots" "prefix (py_split slash (normalized_path r)) (py_split slash p)" by blast
  from mapr_Inr_out [OF roots r(1)] obtain a where "a \<in> set allowed" "parse_allowed_apply_root a = Inr r"
    by blast
  with r normalize_manifest_contained [OF n] parse_root_contained show ?thesis by blast
qed

subsection \<open>Properties\<close>

text \<open>
  The apply guard accepts a changed-files manifest exactly when \<open>files\<close> is a list, every
  entry of \<open>allowed_apply_roots\<close> parses, and every file entry is an object whose path
  normalises to a path matched by one of these roots; it then returns those paths.
\<close>

theorem apply_guard_accepts_iff:
  "(\<exists>st. validate_manifest_apply_guard m allowed = Inr st \<and> g_changed_paths st = ns) \<longleftrightarrow>
   (\<exists>files roots. dget m ''files'' (PyList []) = PyList files \<and>
      mapr parse_allowed_apply_root allowed = Inr roots \<and>
      list_all2 (entry_allowed roots) files ns)"
proof
  assume "\<exists>st. validate_manifest_apply_guard m allowed = Inr st \<and> g_changed_paths st = ns"
  then show "\<exists>files roots. dget m ''files'' (PyList []) = PyList files \<and>
      mapr parse_allowed_apply_root allowed = Inr roots \<and> list_all2 (entry_allowed roots) files ns"
    by (metis validate_guard_InrD)
next
  assume "\<exists>files roots. dget m ''files'' (PyList []) = PyList files \<and>
      mapr parse_allowed_apply_root allowed = Inr roots \<and> list_all2 (entry_allowed roots) files ns"
  then show "\<exists>st. validate_manifest_apply_guard m allowed = Inr st \<and> g_changed_paths st = ns"
    by (auto simp: validate_manifest_apply_guard_def manifest_apply_guard_state_def guard_problems_def
        guard_scan_allowed normalized_allowed_apply_roots_def py_sorted_set_def Let_def)
qed

text \<open>
  C4: containment of applied changes. Every path the guard returns is a relative path without
  empty, \<open>.\<close> or \<open>..\<close> components, and lies component-wise under an allowed root, itself
  such a path: no manifest entry can name a file outside the allowed roots, not even a
  sibling that merely shares a text prefix.
\<close>

theorem apply_guard_contains_changes:
  assumes "validate_manifest_apply_guard m allowed = Inr st" and "p \<in> set (g_changed_paths st)"
  shows "contained_path p \<and>
    (\<exists>a \<in> set allowed. \<exists>r. parse_allowed_apply_root a = Inr r \<and> contained_path (normalized_path r) \<and>
        prefix (py_split slash (normalized_path r)) (py_split slash p))"
  using assms by (rule guard_contains)

theorem apply_guard_contains_changes_witness:
  "contained_path ''ops/scripts/a.py'' \<and>
   (\<exists>a \<in> set [PyStr ''ops/scripts/'']. \<exists>r. parse_allowed_apply_root a = Inr r \<and>
      contained_path (normalized_path r) \<and>
      prefix (py_split slash (normalized_path r)) (py_split slash ''ops/scripts/a.py''))"
proof -
  have "validate_manifest_apply_guard
      [(''files'', PyList [PyDict [(''path'', PyStr '' ops//scripts/./a.py '')]])] [PyStr ''ops/scripts/''] =
    Inr \<lparr>g_allowed_apply_roots = [''ops/scripts/''], g_changed_paths = [''ops/scripts/a.py''],
         g_invalid_paths = [], g_disallowed_paths = []\<rparr>"
    by code_simp
  from apply_guard_contains_changes [OF this, of "''ops/scripts/a.py''"] show ?thesis by simp
qed

text \<open>
  A path the apply guard accepted is in normal form: it is a contained path, and
  \<open>posixpath.normpath\<close>, which is a projection, leaves it as it is.
\<close>

theorem normalized_manifest_path_stable:
  assumes "normalize_manifest_repo_path v = Some p"
  shows "contained_path p \<and> normpath p = p \<and> normpath (normpath t) = normpath t"
  using assms normpath_idem normalize_manifest_contained contained_path_normpath by blast

theorem normalized_manifest_path_stable_witness:
  "contained_path ''ops/a.py'' \<and> normpath ''ops/a.py'' = ''ops/a.py''"
proof -
  have "normalize_manifest_repo_path (PyStr '' ops/x/..//a.py'') = Some ''ops/a.py''" by code_simp
  from normalized_manifest_path_stable [OF this] show ?thesis by blast
qed

end
