(* ===== verification/DecisionRegistry.thy ===== *)
theory DecisionRegistry
  imports PyText "HOL-Library.Product_Lexorder"
begin

section \<open>The promotion decision registry\<close>

text \<open>
  \<open>core/promotion_decision_registry_runtime.py\<close>: the three promotion decisions with their
  precedence, the decision record a gate run writes, and the reducer that collapses the
  proposals of the rules into one decision. The digest \<open>hashlib.sha256(raw).hexdigest()[:16]\<close>
  inside a decision id is the parameter \<open>digest16\<close>; nothing depends on which function it is.
\<close>

subsection \<open>Registry rows\<close>

record decision_cfg =
  cfg_precedence :: nat
  cfg_is_terminal :: bool
  cfg_default_finalizable :: bool
  cfg_ledger_event_type :: string
  cfg_outcome :: string

definition PROMOTION_DECISION_REGISTRY :: "(string \<times> decision_cfg) list" where
  "PROMOTION_DECISION_REGISTRY =
     [(''PROMOTE'', \<lparr>cfg_precedence = 10, cfg_is_terminal = True, cfg_default_finalizable = True,
         cfg_ledger_event_type = ''promotion_evaluated'', cfg_outcome = ''promoted''\<rparr>),
      (''HOLD'', \<lparr>cfg_precedence = 50, cfg_is_terminal = False, cfg_default_finalizable = False,
         cfg_ledger_event_type = ''promotion_evaluated'', cfg_outcome = ''hold''\<rparr>),
      (''DISCARD'', \<lparr>cfg_precedence = 100, cfg_is_terminal = True, cfg_default_finalizable = True,
         cfg_ledger_event_type = ''promotion_evaluated'', cfg_outcome = ''discarded''\<rparr>)]"

definition PROMOTION_DECISION_VALUES :: "string list" where
  "PROMOTION_DECISION_VALUES = map fst PROMOTION_DECISION_REGISTRY"

definition telemetry_decision_values :: "string list" where
  "telemetry_decision_values = [''''] @ PROMOTION_DECISION_VALUES @ [''SKIPPED'']"

definition validate_promotion_decision :: "pyval \<Rightarrow> string res" where
  "validate_promotion_decision d =
     (let n = (case d of PyStr s \<Rightarrow> py_strip s | _ \<Rightarrow> [])
      in if n \<in> set PROMOTION_DECISION_VALUES then Inr n
         else Inl (PromotionDecisionRegistryError
                (''unsupported promotion decision: '' @ py_repr d @ ''; expected one of '' @
                 list_text PROMOTION_DECISION_VALUES)))"

definition decision_config :: "string \<Rightarrow> decision_cfg res" where
  "decision_config d = bindr (validate_promotion_decision (PyStr d)) (ditem PROMOTION_DECISION_REGISTRY)"

definition decision_precedence :: "string \<Rightarrow> nat res" where
  "decision_precedence d = bindr (decision_config d) (\<lambda>c. Inr (cfg_precedence c))"

definition decision_outcome :: "string \<Rightarrow> string res" where
  "decision_outcome d = bindr (decision_config d) (\<lambda>c. Inr (cfg_outcome c))"

definition decision_is_terminal :: "string \<Rightarrow> bool res" where
  "decision_is_terminal d = bindr (decision_config d) (\<lambda>c. Inr (cfg_is_terminal c))"

definition decision_is_finalizable_by_default :: "string \<Rightarrow> bool res" where
  "decision_is_finalizable_by_default d = bindr (decision_config d) (\<lambda>c. Inr (cfg_default_finalizable c))"

definition decision_ledger_event_type :: "string \<Rightarrow> string res" where
  "decision_ledger_event_type d = bindr (decision_config d) (\<lambda>c. Inr (cfg_ledger_event_type c))"

subsection \<open>Identifiers and keys\<close>

definition slug_char :: "char \<Rightarrow> bool" where
  "slug_char c = (let n = (of_char c :: nat) in
     (65 \<le> n \<and> n \<le> 90) \<or> (97 \<le> n \<and> n \<le> 122) \<or> (48 \<le> n \<and> n \<le> 57) \<or>
     c \<in> {CHR ''_'', CHR ''.'', CHR '':'', CHR ''-''})"

text \<open>\<open>_SLUG_RE.sub("-", s)\<close>: every maximal run of other characters becomes one dash.\<close>

fun slug_sub :: "bool \<Rightarrow> string \<Rightarrow> string" where
  "slug_sub in_run [] = []"
| "slug_sub in_run (c # cs) =
     (if slug_char c then c # slug_sub False cs
      else if in_run then slug_sub True cs
      else CHR ''-'' # slug_sub True cs)"

definition strip_dashes :: "string \<Rightarrow> string" where
  "strip_dashes s =
     rev (dropWhile (\<lambda>c. c = CHR ''-'') (rev (dropWhile (\<lambda>c. c = CHR ''-'') s)))"

definition clean_token :: "string \<Rightarrow> string" where
  "clean_token v = (let t = strip_dashes (slug_sub False (py_strip v)) in if t = [] then ''unknown'' else t)"

record proposal =
  subject_id :: string
  subject_kind :: string
  decision :: string
  policy_version :: pyval
  source_rule :: string
  source_pass :: string
  actor :: string
  reason_code :: string
  reason_detail :: string
  evidence_refs :: "string list"
  decided_at :: string
  effective_at :: string

definition decision_id :: "(string \<Rightarrow> string) \<Rightarrow> proposal \<Rightarrow> string \<Rightarrow> string" where
  "decision_id digest16 p d =
     ''decision:'' @ clean_token (subject_id p) @ '':'' @
     digest16 (py_join ''|'' [subject_id p, subject_kind p, d, source_rule p, source_pass p, reason_code p])"

definition precedence_key :: "string \<Rightarrow> string res" where
  "precedence_key d = bindr (decision_precedence d) (\<lambda>n. Inr (pad4 n @ '':'' @ d))"

definition finalize_blockers :: "string \<Rightarrow> pyval \<Rightarrow> string list res" where
  "finalize_blockers d signoff =
     bindr (decision_is_finalizable_by_default d) (\<lambda>f.
       Inr ((if \<not> f then [''decision_not_finalizable''] else []) @
            (case signoff of
               PyDict s \<Rightarrow>
                 (if py_truth (dget s ''required'' PyNone) \<and> dget s ''status'' PyNone \<noteq> PyStr ''approved''
                  then [''required_signoff_not_approved''] else [])
             | _ \<Rightarrow> [])))"

subsection \<open>Proposals\<close>

text \<open>\<open>make_decision_proposal\<close>: the decision is validated, empty evidence references dropped.\<close>

definition make_decision_proposal :: "proposal \<Rightarrow> proposal res" where
  "make_decision_proposal p =
     bindr (validate_promotion_decision (PyStr (decision p))) (\<lambda>d.
       Inr (p\<lparr>decision := d, evidence_refs := filter (\<lambda>r. r \<noteq> []) (evidence_refs p)\<rparr>))"

text \<open>\<open>a or b\<close> on values.\<close>

definition py_or :: "pyval \<Rightarrow> pyval \<Rightarrow> pyval" where
  "py_or a b = (if py_truth a then a else b)"

definition proposal_from_mapping ::
  "pydict \<Rightarrow> string \<Rightarrow> string \<Rightarrow> pyval \<Rightarrow> string \<Rightarrow> proposal res" where
  "proposal_from_mapping item subj kind version pass =
     bindr (validate_promotion_decision (dget item ''decision'' PyNone)) (\<lambda>d.
       let rule_id = py_str (py_or (dget item ''rule_id'' PyNone)
                       (py_or (dget item ''source_rule'' PyNone) (PyStr ''default_promote'')));
           reason = py_str (py_or (dget item ''reason_code'' PyNone)
                       (py_or (PyStr rule_id) (PyStr ''no_blocking_rule_triggered'')));
           detail = py_str (py_or (dget item ''reason_detail'' PyNone)
                       (py_or (dget item ''detail'' PyNone) (PyStr '''')));
           raw_refs = dget item ''evidence_refs'' (PyList [])
       in make_decision_proposal
            \<lparr>subject_id = subj, subject_kind = kind, decision = d, policy_version = version,
             source_rule = rule_id,
             source_pass = py_str (py_or (dget item ''source_pass'' PyNone) (PyStr pass)),
             actor = py_str (py_or (dget item ''actor'' PyNone) (PyStr ''promotion_gate'')),
             reason_code = reason, reason_detail = detail,
             evidence_refs = map py_str (the_list raw_refs),
             decided_at = str_or_empty (dget item ''decided_at'' PyNone),
             effective_at = str_or_empty (dget item ''effective_at'' PyNone)\<rparr>)"

definition default_proposal :: "string \<Rightarrow> string \<Rightarrow> pyval \<Rightarrow> string \<Rightarrow> string \<Rightarrow> proposal res" where
  "default_proposal subj kind version pass dflt =
     make_decision_proposal
       \<lparr>subject_id = subj, subject_kind = kind, decision = dflt, policy_version = version,
        source_rule = ''default_promote'', source_pass = pass, actor = ''promotion_gate'',
        reason_code = ''no_blocking_rule_triggered'',
        reason_detail = ''No blocking promotion rule emitted HOLD or DISCARD.'',
        evidence_refs = [], decided_at = '''', effective_at = ''''\<rparr>"

subsection \<open>Decision records\<close>

definition py_strs :: "string list \<Rightarrow> pyval" where
  "py_strs xs = PyList (map PyStr xs)"

definition record_from_proposal ::
  "(string \<Rightarrow> string) \<Rightarrow> proposal \<Rightarrow> pyval \<Rightarrow> pydict res" where
  "record_from_proposal digest16 p signoff =
     bindr (validate_promotion_decision (PyStr (decision p))) (\<lambda>d.
     bindr (ditem PROMOTION_DECISION_REGISTRY d) (\<lambda>row.
     bindr (finalize_blockers d signoff) (\<lambda>blockers.
     bindr (precedence_key d) (\<lambda>pkey.
       Inr [(''decision_id'', PyStr (decision_id digest16 p d)),
            (''subject_id'', PyStr (subject_id p)),
            (''subject_kind'', PyStr (subject_kind p)),
            (''decision'', PyStr d),
            (''decision_stage'', PyStr ''promotion_gate''),
            (''is_terminal'', PyBool (cfg_is_terminal row)),
            (''policy_version'', (if policy_version p = PyNone then PyInt 0 else policy_version p)),
            (''source_rule'', PyStr (source_rule p)),
            (''source_pass'', PyStr (source_pass p)),
            (''actor'', PyStr (actor p)),
            (''reason_code'', PyStr (reason_code p)),
            (''reason_detail'', PyStr (reason_detail p)),
            (''evidence_refs'', py_strs (evidence_refs p)),
            (''decided_at'', PyStr (decided_at p)),
            (''effective_at'', PyStr (effective_at p)),
            (''supersedes'', PyList []),
            (''reducer_key'', PyStr ''promotion_decision_registry_v1''),
            (''precedence_key'', PyStr pkey),
            (''dedupe_key'', PyStr (subject_id p @ '':promotion_gate'')),
            (''finalizable'', PyBool (blockers = [])),
            (''finalize_blockers'', py_strs blockers),
            (''ledger_event_type'', PyStr (cfg_ledger_event_type row)),
            (''ledger_partition_key'', PyStr (subject_id p))]))))"

subsection \<open>The reducer\<close>

text \<open>Python's \<open>max(xs, key=...)\<close> on a non-empty list: the first element of maximal key.\<close>

fun max_by :: "('a \<Rightarrow> 'k::linorder) \<Rightarrow> 'a \<Rightarrow> 'a list \<Rightarrow> 'a" where
  "max_by key best [] = best"
| "max_by key best (x # xs) = max_by key (if key best < key x then x else best) xs"

datatype proposal_input = ProposalObject proposal | ProposalMapping pydict

fun normalize_proposal ::
  "string \<Rightarrow> string \<Rightarrow> pyval \<Rightarrow> string \<Rightarrow> proposal_input \<Rightarrow> proposal res" where
  "normalize_proposal subj kind version pass (ProposalObject p) = Inr p"
| "normalize_proposal subj kind version pass (ProposalMapping item) =
     proposal_from_mapping item subj kind version pass"

definition rec_text :: "pydict \<Rightarrow> string \<Rightarrow> string" where
  "rec_text r k = the_str (dget r k PyNone)"

definition keyed_record :: "pydict \<Rightarrow> ((nat \<times> string) \<times> pydict) res" where
  "keyed_record r =
     bindr (decision_precedence (rec_text r ''decision'')) (\<lambda>n. Inr ((n, rec_text r ''decision_id''), r))"

record decision_contract =
  dc_decision :: string
  dc_record :: pydict
  dc_reduction :: pydict

definition contract_of :: "pydict list \<Rightarrow> pydict \<Rightarrow> decision_contract" where
  "contract_of records winner =
     (let losing = filter (\<lambda>i. i \<noteq> rec_text winner ''decision_id'')
                     (map (\<lambda>r. rec_text r ''decision_id'') records);
          rec = dset ''supersedes'' (py_strs losing) winner
      in \<lparr>dc_decision = rec_text rec ''decision'', dc_record = rec,
          dc_reduction =
            [(''reducer_key'', PyStr ''promotion_decision_registry_v1''),
             (''selected_decision_id'', dget rec ''decision_id'' PyNone),
             (''proposal_count'', PyInt (int (length records))),
             (''proposals'', PyList (map PyDict records))]\<rparr>)"

definition reduce_decision_proposals ::
  "(string \<Rightarrow> string) \<Rightarrow> proposal_input list \<Rightarrow> string \<Rightarrow> string \<Rightarrow> pyval \<Rightarrow> string \<Rightarrow>
   pyval \<Rightarrow> string \<Rightarrow> decision_contract res" where
  "reduce_decision_proposals digest16 ps subj kind version pass signoff dflt =
     bindr (validate_promotion_decision (PyStr dflt)) (\<lambda>_.
     bindr (mapr (normalize_proposal subj kind version pass) ps) (\<lambda>normalized.
     bindr (if normalized = []
            then bindr (default_proposal subj kind version pass dflt) (\<lambda>p. Inr [p])
            else Inr normalized) (\<lambda>normalized'.
     bindr (mapr (\<lambda>p. record_from_proposal digest16 p signoff) normalized') (\<lambda>records.
     bindr (mapr keyed_record records) (\<lambda>keyed.
       case keyed of
         [] \<Rightarrow> Inl (ValueError ''max() iterable argument is empty'')
       | k # ks \<Rightarrow> Inr (contract_of records (snd (max_by fst k ks))))))))"

subsection \<open>Validation of stored records\<close>

definition DECISION_RECORD_FIELDS :: "string list" where
  "DECISION_RECORD_FIELDS =
     [''decision_id'', ''subject_id'', ''subject_kind'', ''decision'', ''decision_stage'',
      ''is_terminal'', ''policy_version'', ''source_rule'', ''source_pass'', ''actor'',
      ''reason_code'', ''reason_detail'', ''evidence_refs'', ''decided_at'', ''effective_at'',
      ''supersedes'', ''reducer_key'', ''precedence_key'', ''dedupe_key'', ''finalizable'',
      ''finalize_blockers'', ''ledger_event_type'', ''ledger_partition_key'']"

definition validate_decision_record :: "pyval \<Rightarrow> pydict res" where
  "validate_decision_record rec =
     (case rec of
        PyDict r \<Rightarrow>
          (let missing = filter (\<lambda>f. \<not> dhas r f) DECISION_RECORD_FIELDS; fail = PromotionDecisionRegistryError
           in bindr (raise_unless (missing = [])
                 (fail (''decision_record is missing required fields: '' @ list_text missing))) (\<lambda>_.
              bindr (validate_promotion_decision (dget r ''decision'' PyNone)) (\<lambda>d.
              bindr (raise_unless (dget r ''decision_stage'' PyNone = PyStr ''promotion_gate'')
                 (fail (''unsupported decision_record.decision_stage: '' @
                        py_repr (dget r ''decision_stage'' PyNone)))) (\<lambda>_.
              bindr (raise_unless (dget r ''reducer_key'' PyNone = PyStr ''promotion_decision_registry_v1'')
                 (fail (''unsupported decision_record.reducer_key: '' @
                        py_repr (dget r ''reducer_key'' PyNone)))) (\<lambda>_.
              bindr (precedence_key d) (\<lambda>pkey.
              bindr (raise_unless (dget r ''precedence_key'' PyNone = PyStr pkey)
                 (fail ''decision_record.precedence_key does not match decision'')) (\<lambda>_.
              bindr (decision_is_terminal d) (\<lambda>terminal.
              bindr (raise_unless (py_truth (dget r ''is_terminal'' PyNone) = terminal)
                 (fail ''decision_record.is_terminal does not match registry'')) (\<lambda>_.
              bindr (decision_ledger_event_type d) (\<lambda>event.
              bindr (raise_unless (dget r ''ledger_event_type'' PyNone = PyStr event)
                 (fail ''decision_record.ledger_event_type does not match registry'')) (\<lambda>_.
              bindr (raise_unless (is_list (dget r ''evidence_refs'' PyNone))
                 (fail ''decision_record.evidence_refs must be a list'')) (\<lambda>_.
              bindr (raise_unless (is_list (dget r ''supersedes'' PyNone))
                 (fail ''decision_record.supersedes must be a list'')) (\<lambda>_.
              bindr (raise_unless (is_list (dget r ''finalize_blockers'' PyNone))
                 (fail ''decision_record.finalize_blockers must be a list'')) (\<lambda>_.
              bindr (decision_is_finalizable_by_default d) (\<lambda>by_default.
              bindr (raise_unless (\<not> (py_truth (dget r ''finalizable'' PyNone) \<and> \<not> by_default))
                 (fail ''decision_record.finalizable does not match registry'')) (\<lambda>_.
              bindr (raise_unless (\<not> (py_truth (dget r ''finalizable'' PyNone) \<and>
                                     py_truth (dget r ''finalize_blockers'' PyNone)))
                 (fail ''decision_record.finalizable conflicts with finalize_blockers'')) (\<lambda>_.
              Inr r)))))))))))))))))
      | _ \<Rightarrow> Inl (PromotionDecisionRegistryError ''decision_record must be an object''))"

subsection \<open>Reading a decision back from a report or a payload\<close>

definition legacy_decision_record_from_report :: "(string \<Rightarrow> string) \<Rightarrow> pydict \<Rightarrow> pydict res" where
  "legacy_decision_record_from_report digest16 report =
     bindr (validate_promotion_decision (dget report ''decision'' PyNone)) (\<lambda>d.
     bindr (make_decision_proposal
       \<lparr>subject_id = str_or_empty (dget report ''run_id'' PyNone),
        subject_kind = str_or_empty (dget report ''artifact_class'' PyNone),
        decision = d, policy_version = PyInt 0,
        source_rule = ''legacy_top_level_decision'', source_pass = ''legacy_promotion_report'',
        actor = ''legacy_promotion_report'', reason_code = ''legacy_promotion_report'',
        reason_detail = ''Synthesized from legacy top-level promotion_report.decision.'',
        evidence_refs = [], decided_at = '''', effective_at = ''''\<rparr>) (\<lambda>p.
     record_from_proposal digest16 p (dget report ''signoff'' PyNone)))"

definition decision_record_from_report :: "(string \<Rightarrow> string) \<Rightarrow> pydict \<Rightarrow> bool \<Rightarrow> pydict res" where
  "decision_record_from_report digest16 report require_record =
     bindr (case dget report ''decision_record'' PyNone of
              PyNone \<Rightarrow>
                (if require_record
                 then Inl (PromotionDecisionRegistryError
                        ''promotion report is missing canonical decision_record'')
                 else bindr (legacy_decision_record_from_report digest16 report) (\<lambda>r. Inr (PyDict r)))
            | rec \<Rightarrow> Inr rec) (\<lambda>rec.
     bindr (validate_decision_record rec) (\<lambda>validated.
       case dget report ''decision'' PyNone of
         PyStr m \<Rightarrow>
           (if py_strip m \<noteq> [] \<and> PyStr (py_strip m) \<noteq> dget validated ''decision'' PyNone
            then Inl (PromotionDecisionRegistryError
                   ''promotion report decision mirror does not match decision_record.decision'')
            else Inr validated)
       | _ \<Rightarrow> Inr validated))"

definition decision_from_report :: "(string \<Rightarrow> string) \<Rightarrow> pydict \<Rightarrow> bool \<Rightarrow> string res" where
  "decision_from_report digest16 report require_record =
     bindr (decision_record_from_report digest16 report require_record)
       (\<lambda>r. bindr (ditem r ''decision'') (\<lambda>d. Inr (py_str d)))"

definition decision_record_from_payload :: "(string \<Rightarrow> string) \<Rightarrow> pydict \<Rightarrow> bool \<Rightarrow> pydict res" where
  "decision_record_from_payload digest16 payload require_record =
     (if dhas payload ''decision_record''
      then validate_decision_record (dget payload ''decision_record'' PyNone)
      else (case dget payload ''promotion_report'' PyNone of
              PyDict report \<Rightarrow> decision_record_from_report digest16 report require_record
            | _ \<Rightarrow>
                (if require_record
                 then Inl (PromotionDecisionRegistryError ''payload is missing canonical decision_record'')
                 else legacy_decision_record_from_report digest16 payload)))"

definition decision_event_from_record ::
  "pydict \<Rightarrow> string option \<Rightarrow> string option \<Rightarrow> pydict res" where
  "decision_event_from_record rec event_type effective =
     bindr (validate_decision_record (PyDict rec)) (\<lambda>v.
       Inr [(''decision_id'', dget v ''decision_id'' PyNone),
            (''decision'', dget v ''decision'' PyNone),
            (''reason_code'', dget v ''reason_code'' PyNone),
            (''policy_version'', dget v ''policy_version'' PyNone),
            (''source_rule'', dget v ''source_rule'' PyNone),
            (''source_pass'', dget v ''source_pass'' PyNone),
            (''effective_at'', (case effective of Some e \<Rightarrow> PyStr e
                                 | None \<Rightarrow> dget v ''effective_at'' PyNone)),
            (''ledger_event_type'', (case event_type of
                 Some e \<Rightarrow> (if e \<noteq> [] then PyStr e else dget v ''ledger_event_type'' PyNone)
               | None \<Rightarrow> dget v ''ledger_event_type'' PyNone))])"

definition attach_decision_contract ::
  "(string \<Rightarrow> string) \<Rightarrow> pydict \<Rightarrow> proposal_input list \<Rightarrow> string \<Rightarrow> string \<Rightarrow> pyval \<Rightarrow> string \<Rightarrow>
   pyval \<Rightarrow> string \<Rightarrow> pydict res" where
  "attach_decision_contract digest16 report ps subj kind version pass signoff dflt =
     bindr (reduce_decision_proposals digest16 ps subj kind version pass signoff dflt) (\<lambda>c.
       if dget report ''decision'' PyNone \<notin> {PyNone, PyStr '''', PyStr (dc_decision c)}
       then Inl (PromotionDecisionRegistryError
              ''promotion report decision mirror does not match reduced canonical decision'')
       else Inr (dset ''decision_reduction'' (PyDict (dc_reduction c))
                (dset ''decision_record'' (PyDict (dc_record c))
                (dset ''decision'' (PyStr (dc_decision c)) report))))"

subsection \<open>The decisions as an ordered type\<close>

text \<open>
  The three decisions ordered by the precedence of their registry rows. \<open>parse_verdict\<close>
  is the abstraction of a decision text.
\<close>

datatype verdict = Promote | Hold | Discard

fun verdict_rank :: "verdict \<Rightarrow> nat" where
  "verdict_rank Promote = 10"
| "verdict_rank Hold = 50"
| "verdict_rank Discard = 100"

lemma verdict_rank_inj [simp]: "verdict_rank v = verdict_rank w \<longleftrightarrow> v = w"
  by (cases v; cases w) simp_all

instantiation verdict :: linorder
begin

definition less_eq_verdict :: "verdict \<Rightarrow> verdict \<Rightarrow> bool" where
  "less_eq_verdict v w = (verdict_rank v \<le> verdict_rank w)"

definition less_verdict :: "verdict \<Rightarrow> verdict \<Rightarrow> bool" where
  "less_verdict v w = (verdict_rank v < verdict_rank w)"

instance
  by standard (auto simp: less_eq_verdict_def less_verdict_def)

end

lemma verdict_order [simp]:
  "Promote \<le> v" "v \<le> Discard" "Discard \<le> v \<longleftrightarrow> v = Discard" "v \<le> Promote \<longleftrightarrow> v = Promote"
  "Hold \<le> v \<longleftrightarrow> v \<noteq> Promote" "v \<le> Hold \<longleftrightarrow> v \<noteq> Discard"
  by (cases v; simp add: less_eq_verdict_def)+

fun verdict_text :: "verdict \<Rightarrow> string" where
  "verdict_text Promote = ''PROMOTE''"
| "verdict_text Hold = ''HOLD''"
| "verdict_text Discard = ''DISCARD''"

definition parse_verdict :: "pyval \<Rightarrow> verdict option" where
  "parse_verdict v =
     (case v of
        PyStr s \<Rightarrow>
          (let n = py_strip s
           in if n = ''PROMOTE'' then Some Promote
              else if n = ''HOLD'' then Some Hold
              else if n = ''DISCARD'' then Some Discard else None)
      | _ \<Rightarrow> None)"

lemma verdict_text_inj [simp]: "verdict_text v = verdict_text w \<longleftrightarrow> v = w"
  by (cases v; cases w) simp_all

lemma py_strip_verdict_text [simp]: "py_strip (verdict_text v) = verdict_text v"
  by (cases v; hypsubst_thin; code_simp)

lemma parse_verdict_text [simp]: "parse_verdict (PyStr (verdict_text v)) = Some v"
  by (simp add: parse_verdict_def Let_def) (cases v; simp)

lemmas verdict_literals [simp] =
  py_strip_verdict_text [of Promote, simplified] py_strip_verdict_text [of Hold, simplified]
  py_strip_verdict_text [of Discard, simplified]
  parse_verdict_text [of Promote, simplified] parse_verdict_text [of Hold, simplified]
  parse_verdict_text [of Discard, simplified]

lemma decision_values: "PROMOTION_DECISION_VALUES = [''PROMOTE'', ''HOLD'', ''DISCARD'']"
  by (simp add: PROMOTION_DECISION_VALUES_def PROMOTION_DECISION_REGISTRY_def)

lemma validate_decision_iff:
  "validate_promotion_decision v = Inr d \<longleftrightarrow> (\<exists>x. parse_verdict v = Some x \<and> d = verdict_text x)"
  by (cases v) (auto simp: validate_promotion_decision_def parse_verdict_def decision_values Let_def)

lemma validate_verdict_text [simp]: "validate_promotion_decision (PyStr (verdict_text v)) = Inr (verdict_text v)"
  by (simp add: validate_decision_iff)

fun verdict_row :: "verdict \<Rightarrow> decision_cfg" where
  "verdict_row v = \<lparr>cfg_precedence = verdict_rank v, cfg_is_terminal = (v \<noteq> Hold),
     cfg_default_finalizable = (v \<noteq> Hold), cfg_ledger_event_type = ''promotion_evaluated'',
     cfg_outcome = (case v of Promote \<Rightarrow> ''promoted'' | Hold \<Rightarrow> ''hold'' | Discard \<Rightarrow> ''discarded'')\<rparr>"

lemma registry_row [simp]: "ditem PROMOTION_DECISION_REGISTRY (verdict_text v) = Inr (verdict_row v)"
  by (cases v) (simp_all add: ditem_def PROMOTION_DECISION_REGISTRY_def)

lemma decision_config_verdict [simp]: "decision_config (verdict_text v) = Inr (verdict_row v)"
  by (simp add: decision_config_def)

lemma decision_fields_verdict [simp]:
  "decision_precedence (verdict_text v) = Inr (verdict_rank v)"
  "decision_is_terminal (verdict_text v) = Inr (v \<noteq> Hold)"
  "decision_is_finalizable_by_default (verdict_text v) = Inr (v \<noteq> Hold)"
  "decision_ledger_event_type (verdict_text v) = Inr ''promotion_evaluated''"
  by (simp_all add: decision_precedence_def decision_is_terminal_def
      decision_is_finalizable_by_default_def decision_ledger_event_type_def)

subsection \<open>The maximum of a list by key\<close>

lemma max_by_in: "max_by key b xs \<in> insert b (set xs)"
  by (induction xs arbitrary: b) auto

lemma max_by_ge: "x \<in> insert b (set xs) \<Longrightarrow> key x \<le> key (max_by key b xs)"
proof (induction xs arbitrary: b x)
  case (Cons y ys)
  let ?b = "if key b < key y then y else b"
  have "key ?b \<le> key (max_by key ?b ys)" by (rule Cons.IH) simp
  moreover have "key b \<le> key ?b" "key y \<le> key ?b" by auto
  ultimately show ?case using Cons.prems Cons.IH [of x ?b] by (auto intro: order_trans)
qed simp

subsection \<open>What one record says\<close>

definition signoff_blocks :: "pyval \<Rightarrow> bool" where
  "signoff_blocks signoff =
     (case signoff of
        PyDict s \<Rightarrow> py_truth (dget s ''required'' PyNone) \<and> dget s ''status'' PyNone \<noteq> PyStr ''approved''
      | _ \<Rightarrow> False)"

lemma finalize_blockers_verdict:
  "finalize_blockers (verdict_text v) signoff =
     Inr ((if v = Hold then [''decision_not_finalizable''] else []) @
          (if signoff_blocks signoff then [''required_signoff_not_approved''] else []))"
  by (cases signoff) (simp_all add: finalize_blockers_def signoff_blocks_def)

definition well_formed_record :: "pyval \<Rightarrow> verdict \<Rightarrow> pydict \<Rightarrow> bool" where
  "well_formed_record signoff v r =
     (dget r ''decision'' PyNone = PyStr (verdict_text v) \<and>
      dget r ''finalizable'' PyNone = PyBool (v \<noteq> Hold \<and> \<not> signoff_blocks signoff) \<and>
      (\<forall>losers. validate_decision_record (PyDict (dset ''supersedes'' (py_strs losers) r)) =
               Inr (dset ''supersedes'' (py_strs losers) r)))"

lemma validate_decision_record_iff:
  "validate_decision_record (PyDict r) = Inr r' \<longleftrightarrow>
     r' = r \<and> (\<forall>f \<in> set DECISION_RECORD_FIELDS. dhas r f) \<and>
     dget r ''decision_stage'' PyNone = PyStr ''promotion_gate'' \<and>
     dget r ''reducer_key'' PyNone = PyStr ''promotion_decision_registry_v1'' \<and>
     dget r ''ledger_event_type'' PyNone = PyStr ''promotion_evaluated'' \<and>
     is_list (dget r ''evidence_refs'' PyNone) \<and> is_list (dget r ''supersedes'' PyNone) \<and>
     is_list (dget r ''finalize_blockers'' PyNone) \<and>
     (\<exists>v. parse_verdict (dget r ''decision'' PyNone) = Some v \<and>
          dget r ''precedence_key'' PyNone = PyStr (pad4 (verdict_rank v) @ '':'' @ verdict_text v) \<and>
          py_truth (dget r ''is_terminal'' PyNone) = (v \<noteq> Hold) \<and>
          (py_truth (dget r ''finalizable'' PyNone) \<longrightarrow>
             v \<noteq> Hold \<and> \<not> py_truth (dget r ''finalize_blockers'' PyNone)))"
  unfolding validate_decision_record_def
  by (simp add: Let_def bindr_eq_Inr validate_decision_iff precedence_key_def
      filter_empty_conv ex_simps [symmetric] del: ex_simps) blast

lemma record_fields:
  assumes "parse_verdict (PyStr (decision p)) = Some v"
    and "record_from_proposal digest16 p signoff = Inr r"
  shows "map fst r = DECISION_RECORD_FIELDS"
    and "dget r ''decision'' PyNone = PyStr (verdict_text v)"
    and "dget r ''decision_stage'' PyNone = PyStr ''promotion_gate''"
    and "dget r ''reducer_key'' PyNone = PyStr ''promotion_decision_registry_v1''"
    and "dget r ''ledger_event_type'' PyNone = PyStr ''promotion_evaluated''"
    and "dget r ''evidence_refs'' PyNone = py_strs (evidence_refs p)"
    and "dget r ''finalizable'' PyNone = PyBool (v \<noteq> Hold \<and> \<not> signoff_blocks signoff)"
    and "dget r ''finalize_blockers'' PyNone = py_strs
          ((if v = Hold then [''decision_not_finalizable''] else []) @
           (if signoff_blocks signoff then [''required_signoff_not_approved''] else []))"
    and "dget r ''precedence_key'' PyNone = PyStr (pad4 (verdict_rank v) @ '':'' @ verdict_text v)"
    and "dget r ''is_terminal'' PyNone = PyBool (v \<noteq> Hold)"
proof -
  have d: "validate_promotion_decision (PyStr (decision p)) = Inr (verdict_text v)"
    using assms(1) by (simp add: validate_decision_iff)
  note r = assms(2) [unfolded record_from_proposal_def d finalize_blockers_verdict precedence_key_def
      registry_row decision_fields_verdict bindr_Inr sum.inject, symmetric]
  show "map fst r = DECISION_RECORD_FIELDS"
    unfolding r by (simp add: DECISION_RECORD_FIELDS_def)
  show "dget r ''decision'' PyNone = PyStr (verdict_text v)"
    and "dget r ''decision_stage'' PyNone = PyStr ''promotion_gate''"
    and "dget r ''reducer_key'' PyNone = PyStr ''promotion_decision_registry_v1''"
    and "dget r ''ledger_event_type'' PyNone = PyStr ''promotion_evaluated''"
    and "dget r ''evidence_refs'' PyNone = py_strs (evidence_refs p)"
    and "dget r ''finalizable'' PyNone = PyBool (v \<noteq> Hold \<and> \<not> signoff_blocks signoff)"
    and "dget r ''finalize_blockers'' PyNone = py_strs
          ((if v = Hold then [''decision_not_finalizable''] else []) @
           (if signoff_blocks signoff then [''required_signoff_not_approved''] else []))"
    and "dget r ''precedence_key'' PyNone = PyStr (pad4 (verdict_rank v) @ '':'' @ verdict_text v)"
    and "dget r ''is_terminal'' PyNone = PyBool (v \<noteq> Hold)"
    unfolding r dget_def by simp_all
qed

lemma is_list_py_strs [simp]: "is_list (py_strs xs)"
  by (simp add: py_strs_def)

lemma py_truth_py_strs [simp]: "py_truth (py_strs xs) \<longleftrightarrow> xs \<noteq> []"
  by (simp add: py_strs_def)

lemma dhas_iff: "dhas d k \<longleftrightarrow> k \<in> set (map fst d)"
  by (auto simp: dhas_def map_of_eq_None_iff)

lemma record_from_proposal_verdict:
  assumes "parse_verdict (PyStr (decision p)) = Some v"
  shows "\<exists>r. record_from_proposal digest16 p signoff = Inr r \<and> well_formed_record signoff v r"
proof -
  have d: "validate_promotion_decision (PyStr (decision p)) = Inr (verdict_text v)"
    using assms by (simp add: validate_decision_iff)
  then obtain r where r: "record_from_proposal digest16 p signoff = Inr r"
    by (simp add: record_from_proposal_def finalize_blockers_verdict precedence_key_def)
  note f = record_fields [OF assms r]
  have "\<forall>g \<in> set DECISION_RECORD_FIELDS. dhas r g"
    using f(1) by (simp add: dhas_iff)
  then have "well_formed_record signoff v r"
    by (auto simp: well_formed_record_def validate_decision_record_iff f(2-))
  with r show ?thesis by blast
qed

lemma record_from_proposal_InrD:
  assumes "record_from_proposal digest16 p signoff = Inr r"
  shows "\<exists>v. parse_verdict (PyStr (decision p)) = Some v \<and> well_formed_record signoff v r"
  using assms record_from_proposal_verdict [of p _ digest16 signoff]
  by (auto simp: record_from_proposal_def bindr_eq_Inr validate_decision_iff)

definition input_verdict :: "proposal_input \<Rightarrow> verdict option" where
  "input_verdict inp =
     (case inp of ProposalObject p \<Rightarrow> parse_verdict (PyStr (decision p))
                | ProposalMapping m \<Rightarrow> parse_verdict (dget m ''decision'' PyNone))"

lemma make_decision_proposal_verdict:
  "parse_verdict (PyStr (decision p)) = Some v \<Longrightarrow>
     \<exists>q. make_decision_proposal p = Inr q \<and> decision q = verdict_text v"
  by (simp add: make_decision_proposal_def validate_decision_iff [THEN iffD2] )

lemma normalize_proposal_verdict:
  assumes "input_verdict inp = Some v"
  shows "\<exists>q. normalize_proposal subj kind version pass inp = Inr q \<and>
             parse_verdict (PyStr (decision q)) = Some v"
proof (cases inp)
  case (ProposalMapping m)
  then have "validate_promotion_decision (dget m ''decision'' PyNone) = Inr (verdict_text v)"
    using assms by (simp add: input_verdict_def validate_decision_iff)
  with ProposalMapping show ?thesis
    by (simp add: proposal_from_mapping_def make_decision_proposal_def Let_def)
qed (use assms in \<open>simp add: input_verdict_def\<close>)

lemma normalize_proposal_InrD:
  assumes "normalize_proposal subj kind version pass inp = Inr q"
    and "parse_verdict (PyStr (decision q)) = Some v"
  shows "input_verdict inp = Some v"
proof (cases inp)
  case (ProposalMapping m)
  with assms show ?thesis
    by (auto simp: proposal_from_mapping_def make_decision_proposal_def Let_def bindr_eq_Inr
        validate_decision_iff input_verdict_def)
qed (use assms in \<open>simp add: input_verdict_def\<close>)

text \<open>The abstract reduction: the highest precedence, or the default when nothing was proposed.\<close>

definition collapse_verdicts :: "verdict \<Rightarrow> verdict list \<Rightarrow> verdict" where
  "collapse_verdicts dflt vs = (if vs = [] then dflt else foldr max vs Promote)"

lemma foldr_max_Max: "vs \<noteq> [] \<Longrightarrow> foldr max vs Promote = Max (set vs)"
proof (induction vs)
  case (Cons v vs)
  then show ?case by (cases "vs = []") (auto simp: max_def)
qed simp

lemma collapse_verdicts_eqI:
  assumes "v \<in> set vs" and "\<And>w. w \<in> set vs \<Longrightarrow> w \<le> v"
  shows "collapse_verdicts d vs = v"
  using assms by (auto simp: collapse_verdicts_def foldr_max_Max intro!: Max_eqI)

lemma collapse_verdicts_cases:
  "collapse_verdicts d vs = (if vs = [] then d else if Discard \<in> set vs then Discard
                             else if Hold \<in> set vs then Hold else Promote)"
proof -
  have "\<forall>v \<in> set vs. v = Promote" if "Discard \<notin> set vs" "Hold \<notin> set vs"
    using that by (metis verdict.exhaust)
  moreover have "\<forall>v \<in> set vs. v \<le> Hold" if "Discard \<notin> set vs" using that by auto
  moreover have "vs \<noteq> [] \<Longrightarrow> \<exists>v. v \<in> set vs" by (cases vs) auto
  ultimately show ?thesis
    by (auto intro!: collapse_verdicts_eqI simp: collapse_verdicts_def [of d "[]"])
qed

definition contract_ok :: "pyval \<Rightarrow> verdict \<Rightarrow> decision_contract \<Rightarrow> bool" where
  "contract_ok signoff v c =
     (dc_decision c = verdict_text v \<and>
      validate_decision_record (PyDict (dc_record c)) = Inr (dc_record c) \<and>
      dget (dc_record c) ''decision'' PyNone = PyStr (verdict_text v) \<and>
      dget (dc_record c) ''finalizable'' PyNone = PyBool (v \<noteq> Hold \<and> \<not> signoff_blocks signoff))"

lemma contract_of_ok: "well_formed_record signoff v w \<Longrightarrow> contract_ok signoff v (contract_of rs w)"
  by (simp add: contract_ok_def contract_of_def well_formed_record_def rec_text_def Let_def)

lemma keyed_record_wf:
  assumes "well_formed_record signoff v r"
  shows "keyed_record r = Inr ((verdict_rank v, rec_text r ''decision_id''), r)"
  using assms by (simp add: keyed_record_def well_formed_record_def rec_text_def)

lemma max_keyed_collapse:
  assumes "list_all2 (well_formed_record signoff) vs rs" and "rs = r # rs'"
  shows "\<exists>v. well_formed_record signoff v
            (snd (max_by fst ((\<lambda>(v, r). ((verdict_rank v, rec_text r ''decision_id''), r)) (hd vs, r))
               (map (\<lambda>(v, r). ((verdict_rank v, rec_text r ''decision_id''), r)) (zip (tl vs) rs'))))
          \<and> collapse_verdicts d vs = v"
proof -
  let ?f = "\<lambda>(v, r). ((verdict_rank v, rec_text r ''decision_id''), r)"
  obtain u us where vs: "vs = u # us" and u: "well_formed_record signoff u r"
    and us: "list_all2 (well_formed_record signoff) us rs'"
    using assms by (auto simp: list_all2_Cons2)
  let ?m = "max_by fst (?f (u, r)) (map ?f (zip us rs'))"
  have "?m \<in> insert (?f (u, r)) (set (map ?f (zip us rs')))" by (rule max_by_in)
  then obtain v q where m: "?m = ?f (v, q)" and v: "(v, q) \<in> insert (u, r) (set (zip us rs'))"
    by auto
  have wf: "well_formed_record signoff v q"
    using v u us by (auto simp: list_all2_iff)
  have "v \<in> set vs" using v vs by (auto dest: set_zip_leftD)
  moreover have "w \<le> v" if "w \<in> set vs" for w
  proof -
    have "\<exists>p. (w, p) \<in> insert (u, r) (set (zip us rs'))"
      using that vs us by (auto simp: in_set_conv_nth set_zip list_all2_conv_all_nth)
    then obtain p where p: "(w, p) \<in> insert (u, r) (set (zip us rs'))" by blast
    then have "?f (w, p) \<in> insert (?f (u, r)) (set (map ?f (zip us rs')))" by force
    then have "fst (?f (w, p)) \<le> fst ?m" by (rule max_by_ge)
    then have "fst (?f (w, p)) \<le> fst (?f (v, q))" by (simp only: m)
    then show ?thesis by (auto simp: less_eq_prod_def less_eq_verdict_def)
  qed
  ultimately have "collapse_verdicts d vs = v" by (rule collapse_verdicts_eqI)
  with wf m vs show ?thesis by simp
qed

lemma records_of_verdicts:
  assumes "list_all2 (\<lambda>p v. parse_verdict (PyStr (decision p)) = Some v) ps vs"
  shows "\<exists>rs. mapr (\<lambda>p. record_from_proposal digest16 p signoff) ps = Inr rs \<and>
              list_all2 (well_formed_record signoff) vs rs"
  using assms
proof (induction ps vs rule: list_all2_induct)
  case (Cons p ps v vs)
  then show ?case using record_from_proposal_verdict [OF Cons.hyps(1), of digest16 signoff] by force
qed simp

lemma keyed_records:
  "list_all2 (well_formed_record signoff) vs rs \<Longrightarrow>
     mapr keyed_record rs =
       Inr (map (\<lambda>(v, r). ((verdict_rank v, rec_text r ''decision_id''), r)) (zip vs rs))"
  by (induction vs rs rule: list_all2_induct) (auto simp: keyed_record_wf)

lemma reduce_normalized:
  assumes ps: "list_all2 (\<lambda>p v. parse_verdict (PyStr (decision p)) = Some v) ps vs" and ne: "ps \<noteq> []"
  shows "\<exists>c. bindr (mapr (\<lambda>p. record_from_proposal digest16 p signoff) ps) (\<lambda>records.
               bindr (mapr keyed_record records) (\<lambda>keyed.
                 case keyed of
                   [] \<Rightarrow> Inl (ValueError ''max() iterable argument is empty'')
                 | k # ks \<Rightarrow> Inr (contract_of records (snd (max_by fst k ks))))) = Inr c
             \<and> contract_ok signoff (collapse_verdicts d vs) c"
proof -
  obtain rs where rs: "mapr (\<lambda>p. record_from_proposal digest16 p signoff) ps = Inr rs"
    and wf: "list_all2 (well_formed_record signoff) vs rs"
    using records_of_verdicts [OF ps] by blast
  have "vs \<noteq> []" using ps ne by auto
  then obtain r rs' v vs' where eq: "rs = r # rs'" "vs = v # vs'"
    using wf by (cases vs; cases rs) auto
  obtain w where w: "well_formed_record signoff w
            (snd (max_by fst ((verdict_rank v, rec_text r ''decision_id''), r)
               (map (\<lambda>(v, r). ((verdict_rank v, rec_text r ''decision_id''), r)) (zip vs' rs'))))"
    and c: "collapse_verdicts d vs = w"
    using max_keyed_collapse [OF wf eq(1), of d] eq(2) by auto
  show ?thesis
    using contract_of_ok [OF w, of rs] c
    by (simp add: rs keyed_records [OF wf, unfolded eq] eq del: mapr.simps)
qed

lemma normalized_of_verdicts:
  assumes "list_all2 (\<lambda>i v. input_verdict i = Some v) ins vs"
  shows "\<exists>ps. mapr (normalize_proposal subj kind version pass) ins = Inr ps \<and>
              list_all2 (\<lambda>p v. parse_verdict (PyStr (decision p)) = Some v) ps vs"
  using assms
proof (induction ins vs rule: list_all2_induct)
  case (Cons i ins v vs)
  then show ?case using normalize_proposal_verdict [OF Cons.hyps(1), of subj kind version pass] by force
qed simp

lemma reduce_collapse:
  assumes ins: "list_all2 (\<lambda>i v. input_verdict i = Some v) ins vs"
    and dflt: "parse_verdict (PyStr dflt) = Some d"
  shows "\<exists>c. reduce_decision_proposals digest16 ins subj kind version pass signoff dflt = Inr c \<and>
             contract_ok signoff (collapse_verdicts d vs) c"
proof -
  have vd: "validate_promotion_decision (PyStr dflt) = Inr (verdict_text d)"
    using dflt by (simp add: validate_decision_iff)
  obtain ps where ps: "mapr (normalize_proposal subj kind version pass) ins = Inr ps"
    and pv: "list_all2 (\<lambda>p v. parse_verdict (PyStr (decision p)) = Some v) ps vs"
    using normalized_of_verdicts [OF ins] by blast
  show ?thesis
  proof (cases "ps = []")
    case True
    obtain q where q: "default_proposal subj kind version pass dflt = Inr q"
      and dq: "decision q = verdict_text d"
      by (simp add: default_proposal_def make_decision_proposal_def vd)
    have "list_all2 (\<lambda>p v. parse_verdict (PyStr (decision p)) = Some v) [q] [d]"
      using dq by simp
    from reduce_normalized [OF this, of digest16 signoff d] True pv show ?thesis
      by (simp add: reduce_decision_proposals_def vd ps q collapse_verdicts_def)
  next
    case False
    from reduce_normalized [OF pv False, of digest16 signoff d] False show ?thesis
      by (simp add: reduce_decision_proposals_def vd ps)
  qed
qed

lemma list_all2_verdicts_ex:
  "(\<exists>vs. list_all2 (\<lambda>i v. input_verdict i = Some v) ins vs) \<longleftrightarrow>
     (\<forall>i \<in> set ins. input_verdict i \<noteq> None)"
proof (induction ins)
  case (Cons i ins)
  then show ?case by (auto simp: list_all2_Cons1)
qed simp

lemma reduce_InrD:
  assumes "reduce_decision_proposals digest16 ins subj kind version pass signoff dflt = Inr c"
  shows "\<exists>vs. list_all2 (\<lambda>i v. input_verdict i = Some v) ins vs"
proof -
  obtain ps where ps: "mapr (normalize_proposal subj kind version pass) ins = Inr ps"
    and rs: "ps = [] \<or> (\<exists>rs. mapr (\<lambda>p. record_from_proposal digest16 p signoff) ps = Inr rs)"
    using assms by (auto simp: reduce_decision_proposals_def bindr_eq_Inr split: if_splits)
  have "\<exists>v. input_verdict i = Some v" if i: "i \<in> set ins" for i
  proof -
    obtain p where p: "p \<in> set ps" "normalize_proposal subj kind version pass i = Inr p"
      using mapr_Inr_in [OF ps i] by blast
    then obtain rs where "mapr (\<lambda>p. record_from_proposal digest16 p signoff) ps = Inr rs"
      using rs by fastforce
    from mapr_Inr_in [OF this p(1)] obtain v where "parse_verdict (PyStr (decision p)) = Some v"
      using record_from_proposal_InrD by blast
    with normalize_proposal_InrD [OF p(2)] show ?thesis by blast
  qed
  then show ?thesis by (simp add: list_all2_verdicts_ex)
qed

subsection \<open>The contract of the reduction\<close>

text \<open>
  What the rule registry relies on: a reduction returns exactly when every proposal is a
  decision of the registry, its result is one of them (or the default), and none of them
  outranks it.
\<close>

locale decision_reduction =
  fixes verdict_of :: "'p \<Rightarrow> 'v::linorder option"
    and reduce :: "'p list \<Rightarrow> 'v option"
    and dflt :: 'v
  assumes reduce_defined: "reduce ps \<noteq> None \<longleftrightarrow> (\<forall>p \<in> set ps. verdict_of p \<noteq> None)"
    and reduce_empty: "reduce [] = Some dflt"
    and reduce_in: "reduce ps = Some v \<Longrightarrow> ps \<noteq> [] \<Longrightarrow> \<exists>p \<in> set ps. verdict_of p = Some v"
    and reduce_ge: "reduce ps = Some v \<Longrightarrow> p \<in> set ps \<Longrightarrow> verdict_of p = Some w \<Longrightarrow> w \<le> v"
begin

lemma reduce_order_irrelevant:
  assumes "set ps = set qs"
  shows "reduce ps = reduce qs"
proof (cases "ps = []")
  case False
  then have ne: "qs \<noteq> []" using assms by auto
  show ?thesis
  proof (cases "reduce ps")
    case None
    then have "reduce qs = None" using reduce_defined [of ps] reduce_defined [of qs] assms by auto
    with None show ?thesis by simp
  next
    case (Some v)
    then obtain w where w: "reduce qs = Some w"
      using reduce_defined [of ps] reduce_defined [of qs] assms by auto
    obtain p where "p \<in> set ps" "verdict_of p = Some v" using reduce_in [OF Some False] by blast
    then have "v \<le> w" using reduce_ge [OF w] assms by blast
    moreover obtain q where "q \<in> set qs" "verdict_of q = Some w" using reduce_in [OF w ne] by blast
    then have "w \<le> v" using reduce_ge [OF Some] assms by blast
    ultimately show ?thesis using Some w by simp
  qed
qed (use assms in simp)

lemma reduce_mono:
  assumes "reduce ps = Some v" and "reduce qs = Some w" and "set ps \<subseteq> set qs" and "ps \<noteq> []"
  shows "v \<le> w"
  using reduce_in [OF assms(1,4)] reduce_ge [OF assms(2)] assms(3) by blast

lemma reduce_veto:
  assumes "reduce ps = Some v" and "p \<in> set ps" and "verdict_of p = Some m" and "\<And>x. x \<le> m"
  shows "v = m"
  using reduce_ge [OF assms(1-3)] assms(4) by (simp add: order_antisym)

end

definition gate_verdict ::
  "(string \<Rightarrow> string) \<Rightarrow> string \<Rightarrow> string \<Rightarrow> pyval \<Rightarrow> string \<Rightarrow> pyval \<Rightarrow> proposal_input list \<Rightarrow> verdict option" where
  "gate_verdict digest16 subj kind version pass signoff ins =
     (case reduce_decision_proposals digest16 ins subj kind version pass signoff ''PROMOTE'' of
        Inl _ \<Rightarrow> None
      | Inr c \<Rightarrow> parse_verdict (PyStr (dc_decision c)))"

lemma gate_verdict_Some:
  "gate_verdict digest16 subj kind version pass signoff ins = Some v \<longleftrightarrow>
     (\<exists>vs. list_all2 (\<lambda>i v. input_verdict i = Some v) ins vs \<and> v = collapse_verdicts Promote vs)"
proof
  assume g: "gate_verdict digest16 subj kind version pass signoff ins = Some v"
  then obtain c where c: "reduce_decision_proposals digest16 ins subj kind version pass signoff ''PROMOTE'' = Inr c"
    by (auto simp: gate_verdict_def split: sum.splits)
  obtain vs where vs: "list_all2 (\<lambda>i v. input_verdict i = Some v) ins vs"
    using reduce_InrD [OF c] by blast
  from reduce_collapse [OF vs, of "''PROMOTE''" Promote digest16 subj kind version pass signoff] c g vs
  show "\<exists>vs. list_all2 (\<lambda>i v. input_verdict i = Some v) ins vs \<and> v = collapse_verdicts Promote vs"
    by (auto simp: gate_verdict_def contract_ok_def)
next
  assume "\<exists>vs. list_all2 (\<lambda>i v. input_verdict i = Some v) ins vs \<and> v = collapse_verdicts Promote vs"
  then obtain vs where vs: "list_all2 (\<lambda>i v. input_verdict i = Some v) ins vs"
    and v: "v = collapse_verdicts Promote vs" by blast
  from reduce_collapse [OF vs, of "''PROMOTE''" Promote digest16 subj kind version pass signoff] v
  show "gate_verdict digest16 subj kind version pass signoff ins = Some v"
    by (auto simp: gate_verdict_def contract_ok_def)
qed

interpretation gate: decision_reduction input_verdict
  "gate_verdict digest16 subj kind version pass signoff" Promote
  for digest16 subj kind version pass signoff
proof (unfold_locales, goal_cases)
  case (1 ps)
  show ?case using gate_verdict_Some list_all2_verdicts_ex [of ps] by fastforce
next
  case 2
  show ?case by (simp add: gate_verdict_Some collapse_verdicts_def)
next
  case (3 ps v)
  then obtain vs where vs: "list_all2 (\<lambda>i v. input_verdict i = Some v) ps vs" "v = collapse_verdicts Promote vs"
    by (auto simp: gate_verdict_Some)
  then have "vs \<noteq> []" using 3 by auto
  then have "v \<in> set vs" using vs(2) by (simp add: collapse_verdicts_def foldr_max_Max)
  with list_all2_in2 [OF vs(1)] show ?case by blast
next
  case (4 ps v p w)
  then obtain vs where vs: "list_all2 (\<lambda>i v. input_verdict i = Some v) ps vs" "v = collapse_verdicts Promote vs"
    by (auto simp: gate_verdict_Some)
  then have w: "w \<in> set vs" using list_all2_in1 [OF vs(1)] 4 by fastforce
  then have "vs \<noteq> []" by auto
  with vs(2) w show ?case by (simp add: collapse_verdicts_def foldr_max_Max)
qed

subsection \<open>Properties\<close>

text \<open>
  C3: the reducer implements the abstract reduction. For any list of proposals that are
  decisions of the registry and any valid default, \<open>reduce_decision_proposals\<close> returns, and
  its decision is DISCARD if any proposal discards, otherwise HOLD if any holds, otherwise
  PROMOTE (the default on an empty list); the canonical record carries the same decision,
  passes \<open>validate_decision_record\<close>, and is finalizable exactly when the decision is not HOLD
  and no required signoff is missing.
\<close>

theorem reduce_decision_proposals_refines:
  assumes "list_all2 (\<lambda>i v. input_verdict i = Some v) ins vs" and "parse_verdict (PyStr dflt) = Some d"
  shows "\<exists>c. reduce_decision_proposals digest16 ins subj kind version pass signoff dflt = Inr c \<and>
    dc_decision c = verdict_text (if vs = [] then d else if Discard \<in> set vs then Discard
                                  else if Hold \<in> set vs then Hold else Promote) \<and>
    dget (dc_record c) ''decision'' PyNone = PyStr (dc_decision c) \<and>
    validate_decision_record (PyDict (dc_record c)) = Inr (dc_record c) \<and>
    dget (dc_record c) ''finalizable'' PyNone =
      PyBool (dc_decision c \<noteq> ''HOLD'' \<and> \<not> signoff_blocks signoff)"
proof -
  obtain c where c: "reduce_decision_proposals digest16 ins subj kind version pass signoff dflt = Inr c"
    and ok: "contract_ok signoff (collapse_verdicts d vs) c"
    using reduce_collapse [OF assms, of digest16 subj kind version pass signoff] by blast
  have "(verdict_text v \<noteq> ''HOLD'') = (v \<noteq> Hold)" for v by (cases v) auto
  then show ?thesis
    using ok by (intro exI [of _ c]) (simp only: c contract_ok_def collapse_verdicts_cases simp_thms)
qed

theorem reduce_decision_proposals_refines_witness:
  "\<exists>c. reduce_decision_proposals (\<lambda>_. ''0'')
     [ProposalMapping [(''decision'', PyStr ''PROMOTE'')], ProposalMapping [(''decision'', PyStr '' HOLD '')]]
     ''run-1'' ''system_mechanism'' (PyInt 3) ''gate'' PyNone ''PROMOTE'' = Inr c \<and>
     dc_decision c = ''HOLD'' \<and> dget (dc_record c) ''finalizable'' PyNone = PyBool False"
proof -
  have "list_all2 (\<lambda>i v. input_verdict i = Some v)
      [ProposalMapping [(''decision'', PyStr ''PROMOTE'')], ProposalMapping [(''decision'', PyStr '' HOLD '')]]
      [Promote, Hold]"
    by code_simp
  from reduce_decision_proposals_refines [OF this, of "''PROMOTE''" Promote "\<lambda>_. ''0''" "''run-1''"
      "''system_mechanism''" "PyInt 3" "''gate''" PyNone]
  show ?thesis by auto
qed

text \<open>
  The decision does not depend on the order or multiplicity in which the rules emitted
  their proposals, and adding proposals never lowers its precedence.
\<close>

theorem gate_decision_order_irrelevant:
  assumes "gate_verdict digest16 subj kind version pass signoff ps = Some v"
    and "gate_verdict digest16 subj kind version pass signoff qs = Some w"
  shows "(set ps = set qs \<longrightarrow> v = w) \<and> (ps \<noteq> [] \<and> set ps \<subseteq> set qs \<longrightarrow> v \<le> w)"
  using assms gate.reduce_order_irrelevant [of ps qs] gate.reduce_mono [of _ _ _ _ _ _ ps v qs w]
  by auto

theorem gate_decision_order_irrelevant_witness:
  "\<exists>v w. gate_verdict (\<lambda>_. ''0'') ''s'' ''k'' PyNone ''p'' PyNone
       [ProposalMapping [(''decision'', PyStr ''HOLD'')]] = Some v \<and>
     gate_verdict (\<lambda>_. ''0'') ''s'' ''k'' PyNone ''p'' PyNone
       [ProposalMapping [(''decision'', PyStr ''DISCARD'')], ProposalMapping [(''decision'', PyStr ''HOLD'')]] =
       Some w \<and> v \<le> w"
proof -
  let ?h = "ProposalMapping [(''decision'', PyStr ''HOLD'')]"
  let ?d = "ProposalMapping [(''decision'', PyStr ''DISCARD'')]"
  have "gate_verdict (\<lambda>_. ''0'') ''s'' ''k'' PyNone ''p'' PyNone [?h] = Some Hold"
    and "gate_verdict (\<lambda>_. ''0'') ''s'' ''k'' PyNone ''p'' PyNone [?d, ?h] = Some Discard"
    by code_simp+
  note v = this
  from gate_decision_order_irrelevant [OF v] v show ?thesis by auto
qed

text \<open>
  C35: round trip through a report. When \<open>attach_decision_contract\<close> succeeds, reading the
  decision back from the updated report in strict mode (\<open>require_record=True\<close>) succeeds, gives
  the attached record, and its decision equals the report's mirror field.
\<close>

theorem attach_decision_contract_roundtrip:
  assumes "attach_decision_contract digest16 report ins subj kind version pass signoff dflt = Inr report'"
  shows "\<exists>rec d. decision_record_from_report digest16 report' True = Inr rec \<and>
     dget report' ''decision_record'' PyNone = PyDict rec \<and>
     dget report' ''decision'' PyNone = PyStr d \<and> decision_from_report digest16 report' True = Inr d"
proof -
  obtain c where c: "reduce_decision_proposals digest16 ins subj kind version pass signoff dflt = Inr c"
    and r: "report' = dset ''decision_reduction'' (PyDict (dc_reduction c))
                (dset ''decision_record'' (PyDict (dc_record c))
                (dset ''decision'' (PyStr (dc_decision c)) report))"
    using assms by (auto simp: attach_decision_contract_def bindr_eq_Inr split: if_splits)
  obtain vs where vs: "list_all2 (\<lambda>i v. input_verdict i = Some v) ins vs"
    using reduce_InrD [OF c] by blast
  obtain d where d: "parse_verdict (PyStr dflt) = Some d"
    using c by (auto simp: reduce_decision_proposals_def bindr_eq_Inr validate_decision_iff)
  define v where "v = collapse_verdicts d vs"
  have ok: "contract_ok signoff v c"
    using reduce_collapse [OF vs d, of digest16 subj kind version pass signoff] c by (auto simp: v_def)
  have rec: "decision_record_from_report digest16 report' True = Inr (dc_record c)"
    using ok by (auto simp: decision_record_from_report_def r contract_ok_def)
  moreover have "ditem (dc_record c) ''decision'' = Inr (PyStr (verdict_text v))"
    using ok by (auto simp: contract_ok_def dget_def ditem_def split: option.splits)
  ultimately show ?thesis using ok by (auto simp: r contract_ok_def decision_from_report_def)
qed

theorem attach_decision_contract_roundtrip_witness:
  "\<exists>report'. attach_decision_contract (\<lambda>_. ''0'') [] [] ''s'' ''k'' PyNone ''p'' PyNone ''PROMOTE'' = Inr report' \<and>
     (\<exists>d. decision_from_report (\<lambda>_. ''0'') report' True = Inr d)"
proof -
  have "case attach_decision_contract (\<lambda>_. ''0'') [] [] ''s'' ''k'' PyNone ''p'' PyNone ''PROMOTE'' of
      Inr r \<Rightarrow> True | Inl _ \<Rightarrow> False"
    by code_simp
  then obtain r where r: "attach_decision_contract (\<lambda>_. ''0'') [] [] ''s'' ''k'' PyNone ''p'' PyNone ''PROMOTE'' = Inr r"
    by (auto split: sum.splits)
  with attach_decision_contract_roundtrip [OF r] show ?thesis by blast
qed

text \<open>
  What a stored record that passes validation guarantees: it names a registry decision,
  its terminal flag matches the registry, and a record marked finalizable is not a HOLD and
  lists no finalize blocker.
\<close>

theorem validated_record_consistent:
  assumes "validate_decision_record rec = Inr r"
  shows "rec = PyDict r \<and> (\<exists>v. parse_verdict (dget r ''decision'' PyNone) = Some v \<and>
     py_truth (dget r ''is_terminal'' PyNone) = (v \<noteq> Hold) \<and>
     (py_truth (dget r ''finalizable'' PyNone) \<longrightarrow>
        v \<noteq> Hold \<and> dget r ''finalize_blockers'' PyNone = PyList []))"
proof -
  obtain d where d: "rec = PyDict d"
    using assms by (cases rec) (auto simp: validate_decision_record_def)
  have iff: "validate_decision_record (PyDict d) = Inr r" using assms d by simp
  note facts = iff [unfolded validate_decision_record_iff]
  have "is_list (dget r ''finalize_blockers'' PyNone)" using facts by blast
  then have "\<not> py_truth (dget r ''finalize_blockers'' PyNone) \<longleftrightarrow> dget r ''finalize_blockers'' PyNone = PyList []"
    by (auto simp: is_list_iff)
  with facts d show ?thesis by blast
qed

theorem validated_record_consistent_witness:
  "\<exists>r v. validate_decision_record (PyDict r) = Inr r \<and> parse_verdict (dget r ''decision'' PyNone) = Some v"
proof -
  have "case bindr (reduce_decision_proposals (\<lambda>_. ''0'') [] ''s'' ''k'' PyNone ''p'' PyNone ''PROMOTE'')
          (\<lambda>c. validate_decision_record (PyDict (dc_record c))) of Inr r \<Rightarrow> True | Inl _ \<Rightarrow> False"
    by code_simp
  then obtain d r where r: "validate_decision_record (PyDict d) = Inr r"
    by (auto simp: bindr_def split: sum.splits)
  from validated_record_consistent [OF r] r show ?thesis by auto
qed

end
