(* ===== verification/RuleRegistry.thy ===== *)
theory RuleRegistry
  imports DecisionRegistry
begin

section \<open>The promotion rule registry\<close>

text \<open>
  \<open>core/rule_registry_runtime.py\<close>: which rules a policy configures, how a rule's checks are
  built, how they are reduced to an optional decision, and how the triggered decisions are
  collapsed by the decision registry. A check is a dictionary with \<open>id\<close>, \<open>status\<close> and
  \<open>detail\<close>; a rule is its (possibly failing) list of checks and an optional reducer.

  \<open>str.format\<close> is modelled for templates made of text, doubled braces and plain \<open>{name}\<close>
  fields, the only ones the policies contain; any other replacement field counts as a failed
  lookup, on which the source falls back to the default summary.
\<close>

record rule_metadata =
  md_rule_id :: string
  md_artifact_dependencies :: "string list"
  md_reducer :: string
  md_severity :: string
  md_summary_template :: string

record rule_spec =
  rs_rule_id :: string
  rs_build_checks :: "pydict list res"
  rs_reduce_decision :: "(pydict list \<Rightarrow> pyval res) option"
  rs_metadata :: "rule_metadata option"

definition single_check_rule ::
  "string \<Rightarrow> pydict res \<Rightarrow> (pydict list \<Rightarrow> pyval res) option \<Rightarrow> rule_metadata option \<Rightarrow> rule_spec" where
  "single_check_rule rid check red md =
     \<lparr>rs_rule_id = rid, rs_build_checks = bindr check (\<lambda>c. Inr [c]),
      rs_reduce_decision = red, rs_metadata = md\<rparr>"

definition has_status :: "string \<Rightarrow> pydict list \<Rightarrow> bool" where
  "has_status st checks = list_ex (\<lambda>c. dget c ''status'' PyNone = PyStr st) checks"

definition status_rule_reducer ::
  "pyval \<Rightarrow> pyval \<Rightarrow> pyval \<Rightarrow> pydict list \<Rightarrow> pyval res" where
  "status_rule_reducer fail warn ok checks =
     Inr (if has_status ''FAIL'' checks then fail
          else if has_status ''WARN'' checks then warn else ok)"

subsection \<open>Configuration\<close>

definition registry_configuration :: "pydict \<Rightarrow> string \<Rightarrow> pyval res" where
  "registry_configuration policy name =
     (case bindr (ditem policy ''promotion_policy'') (\<lambda>p.
           bindr (py_item p ''rule_registry'') (\<lambda>r. py_item r name)) of
        Inl (KeyError k) \<Rightarrow>
          Inl (PromotionGatePolicyError (''missing promotion rule registry configuration: '' @ name))
      | r \<Rightarrow> r)"

fun valid_rule_id :: "pyval \<Rightarrow> bool" where
  "valid_rule_id (PyStr s) = (py_strip s \<noteq> [])"
| "valid_rule_id _ = False"

definition configured_rule_ids :: "pydict \<Rightarrow> string \<Rightarrow> string list res" where
  "configured_rule_ids policy name =
     bindr (registry_configuration policy name) (\<lambda>configured.
       case configured of
         PyList (x # xs) \<Rightarrow>
           (if list_all valid_rule_id (x # xs)
            then Inr (dedupe_from {} (map (\<lambda>v. py_strip (the_str v)) (x # xs)))
            else Inl (PromotionGatePolicyError
                   (''promotion rule registry '' @ str_repr name @ '' contains an invalid rule id'')))
       | _ \<Rightarrow> Inl (PromotionGatePolicyError
                (''promotion rule registry '' @ str_repr name @ '' must be a non-empty list'')))"

definition metadata_of :: "string \<Rightarrow> string \<times> pyval \<Rightarrow> (string \<times> rule_metadata) res" where
  "metadata_of name kv =
     (case kv of (rule_id, item) \<Rightarrow>
        if py_strip rule_id = [] then
          Inl (PromotionGatePolicyError
            (''promotion rule metadata '' @ str_repr name @ '' contains an invalid rule id''))
        else
          (case item of
             PyDict d \<Rightarrow>
               bindr (ditem d ''artifact_dependencies'') (\<lambda>deps.
               bindr (py_iter deps) (\<lambda>ds.
               bindr (ditem d ''reducer'') (\<lambda>red.
               bindr (ditem d ''severity'') (\<lambda>sev.
               bindr (ditem d ''summary_template'') (\<lambda>tmpl.
                 Inr (rule_id,
                   \<lparr>md_rule_id = rule_id, md_artifact_dependencies = map py_str ds,
                    md_reducer = py_str red, md_severity = py_str sev,
                    md_summary_template = py_str tmpl\<rparr>))))))
           | _ \<Rightarrow> Inl (PromotionGatePolicyError
                    (''promotion rule metadata '' @ str_repr (name @ ''.'' @ rule_id) @
                     '' must be a mapping''))))"

definition configured_rule_metadata :: "pydict \<Rightarrow> string \<Rightarrow> (string \<times> rule_metadata) list res" where
  "configured_rule_metadata policy name =
     bindr (py_get (dget policy ''promotion_policy'' (PyDict [])) ''rule_metadata'' (PyDict [])) (\<lambda>md.
     bindr (py_get md name (PyDict [])) (\<lambda>raw.
       case raw of
         PyDict d \<Rightarrow> mapr (metadata_of name) d
       | _ \<Rightarrow> Inl (PromotionGatePolicyError
                (''promotion rule metadata '' @ str_repr name @ '' must be a mapping''))))"

subsection \<open>Summaries\<close>

definition check_evidence_ref :: "pydict \<Rightarrow> string \<Rightarrow> string" where
  "check_evidence_ref check fallback =
     py_str (py_or (dget check ''id'' PyNone) (py_or (dget check ''check'' PyNone) (PyStr fallback)))"

definition default_rule_summary :: "string \<Rightarrow> pydict list \<Rightarrow> string" where
  "default_rule_summary rule_id checks =
     py_join ''; '' (map (\<lambda>c. py_str (dget c ''id'' (PyStr rule_id)) @ ''='' @
        py_str (dget c ''status'' (PyStr '''')) @ '': '' @ py_str (dget c ''detail'' (PyStr ''''))) checks)"

definition brace_open :: char where "brace_open = CHR 0x7B"
definition brace_close :: char where "brace_close = CHR 0x7D"

text \<open>The scanner of \<open>str.format\<close>: the pending field name is \<open>Some name\<close> inside braces.\<close>

fun format_scan :: "(string \<times> string) list \<Rightarrow> string option \<Rightarrow> string \<Rightarrow> string option" where
  "format_scan env None [] = Some []"
| "format_scan env (Some n) [] = None"
| "format_scan env None [c] = (if c = brace_open \<or> c = brace_close then None else Some [c])"
| "format_scan env None (c # d # cs) =
     (if c = brace_open then
        (if d = brace_open then map_option ((#) brace_open) (format_scan env None cs)
         else format_scan env (Some []) (d # cs))
      else if c = brace_close then
        (if d = brace_close then map_option ((#) brace_close) (format_scan env None cs) else None)
      else map_option ((#) c) (format_scan env None (d # cs)))"
| "format_scan env (Some n) (c # cs) =
     (if c = brace_close then
        (case map_of env (rev n) of
           None \<Rightarrow> None
         | Some v \<Rightarrow> map_option ((@) v) (format_scan env None cs))
      else if c = brace_open then None
      else format_scan env (Some (c # n)) cs)"

definition metadata_rule_summary :: "rule_metadata \<Rightarrow> pydict list \<Rightarrow> string" where
  "metadata_rule_summary md checks =
     (let refs = map (\<lambda>c. check_evidence_ref c (md_rule_id md)) checks;
          statuses = py_join '', '' (map (\<lambda>c. py_str (dget c ''status'' (PyStr ''''))) checks);
          details = py_join ''; '' (map (\<lambda>c. check_evidence_ref c (md_rule_id md) @ ''='' @
             py_str (dget c ''status'' (PyStr '''')) @ '': '' @ py_str (dget c ''detail'' (PyStr ''''))) checks)
      in case format_scan
            [(''rule_id'', md_rule_id md), (''severity'', md_severity md), (''reducer'', md_reducer md),
             (''artifact_dependencies'', py_join '', '' (md_artifact_dependencies md)),
             (''evidence_refs'', py_join '', '' refs), (''statuses'', statuses), (''details'', details)]
            None (md_summary_template md) of
           Some t \<Rightarrow> t
         | None \<Rightarrow> default_rule_summary (md_rule_id md) checks)"

subsection \<open>Evaluation\<close>

text \<open>One round of the loop over \<open>rule_ids\<close>: the rule's checks and its triggered decision.\<close>

definition triggered_decision :: "string \<Rightarrow> rule_spec \<Rightarrow> pydict list \<Rightarrow> string \<Rightarrow> pydict" where
  "triggered_decision rule_id spec checks d =
     [(''rule_id'', PyStr rule_id), (''decision'', PyStr d), (''source_rule'', PyStr rule_id),
      (''reason_code'', PyStr rule_id),
      (''reason_detail'', PyStr (case rs_metadata spec of
          Some md \<Rightarrow> metadata_rule_summary md checks | None \<Rightarrow> default_rule_summary rule_id checks)),
      (''evidence_refs'', py_strs (filter (\<lambda>r. r \<noteq> []) (map (\<lambda>c. check_evidence_ref c rule_id) checks)))]"

definition decided_rule ::
  "string \<Rightarrow> rule_spec \<Rightarrow> pydict list \<Rightarrow> pyval \<Rightarrow> (pydict list \<times> pydict option) res" where
  "decided_rule rule_id spec checks v =
     (if v = PyNone then Inr (checks, None)
      else (case validate_promotion_decision v of
              Inr d \<Rightarrow> Inr (checks, Some (triggered_decision rule_id spec checks d))
            | Inl e \<Rightarrow>
                if is_value_error e
                then Inl (PromotionGatePolicyError (''promotion rule '' @ str_repr rule_id @
                       '' returned unsupported decision: '' @ py_str v))
                else Inl e))"

definition rule_result ::
  "(string \<times> rule_spec) list \<Rightarrow> string \<Rightarrow> (pydict list \<times> pydict option) res" where
  "rule_result registry rule_id =
     (case map_of registry rule_id of
        None \<Rightarrow> Inl (PromotionGatePolicyError
                 (''promotion rule registry references unknown rule id: '' @ rule_id))
      | Some spec \<Rightarrow>
          bindr (rs_build_checks spec) (\<lambda>checks.
            if checks = [] then
              Inl (PromotionGatePolicyError
                (''promotion rule '' @ str_repr rule_id @ '' must emit at least one check''))
            else
              (case rs_reduce_decision spec of
                 None \<Rightarrow> Inr (checks, None)
               | Some red \<Rightarrow> bindr (red checks) (decided_rule rule_id spec checks))))"

definition evaluate_rule_registry ::
  "string list \<Rightarrow> (string \<times> rule_spec) list \<Rightarrow> (pydict list \<times> pydict list) res" where
  "evaluate_rule_registry rule_ids registry =
     bindr (mapr (rule_result registry) rule_ids) (\<lambda>rs.
       Inr (concat (map fst rs), List.map_filter snd rs))"

definition collapse_rule_decision_contract ::
  "(string \<Rightarrow> string) \<Rightarrow> pydict list \<Rightarrow> string \<Rightarrow> string \<Rightarrow> pyval \<Rightarrow> string \<Rightarrow> pyval \<Rightarrow> string \<Rightarrow>
   decision_contract res" where
  "collapse_rule_decision_contract digest16 triggered subj kind version pass signoff dflt =
     reduce_decision_proposals digest16 (map ProposalMapping triggered) subj kind version pass signoff dflt"

definition collapse_rule_decisions :: "(string \<Rightarrow> string) \<Rightarrow> pydict list \<Rightarrow> string \<Rightarrow> string res" where
  "collapse_rule_decisions digest16 triggered dflt =
     bindr (collapse_rule_decision_contract digest16 triggered ''compat'' ''unknown'' (PyInt 0) ''compat''
              PyNone dflt) (\<lambda>c. Inr (dc_decision c))"

subsection \<open>What a rule decided\<close>

text \<open>\<open>rule_vote\<close> is the decision a configured rule casts, if it casts one.\<close>

definition rule_vote :: "(string \<times> rule_spec) list \<Rightarrow> string \<Rightarrow> verdict option" where
  "rule_vote registry rule_id =
     (case rule_result registry rule_id of
        Inr (_, Some t) \<Rightarrow> parse_verdict (dget t ''decision'' PyNone)
      | _ \<Rightarrow> None)"

lemma triggered_decision_field [simp]:
  "dget (triggered_decision rid spec checks d) ''decision'' PyNone = PyStr d"
  by (simp add: triggered_decision_def dget_def)

lemma decided_rule_Some:
  "decided_rule rid spec checks v = Inr (cs, Some t) \<longleftrightarrow>
     v \<noteq> PyNone \<and> cs = checks \<and>
     (\<exists>d. validate_promotion_decision v = Inr d \<and> t = triggered_decision rid spec checks d)"
  by (cases "validate_promotion_decision v") (auto simp: decided_rule_def)

lemma rule_result_triggered:
  assumes "rule_result registry rid = Inr (checks, Some t)"
  shows "\<exists>v. parse_verdict (dget t ''decision'' PyNone) = Some v"
  using assms
  by (auto simp: rule_result_def bindr_eq_Inr decided_rule_Some validate_decision_iff
      split: option.splits if_splits)

lemma rule_result_vote:
  "rule_result registry rid = Inr (checks, t) \<Longrightarrow>
     rule_vote registry rid = Option.bind t (\<lambda>t. parse_verdict (dget t ''decision'' PyNone))"
  by (cases t) (simp_all add: rule_vote_def)

lemma votes_of_results:
  assumes "mapr (rule_result registry) ids = Inr rs"
  shows "list_all2 (\<lambda>i v. input_verdict i = Some v)
           (map ProposalMapping (List.map_filter snd rs)) (List.map_filter (rule_vote registry) ids)"
  using assms
proof (induction ids arbitrary: rs)
  case (Cons i ids)
  then obtain r rs' where r: "rule_result registry i = Inr r" and rs: "rs = r # rs'"
    and rest: "mapr (rule_result registry) ids = Inr rs'"
    by (auto simp: bindr_eq_Inr)
  obtain checks t where ct: "r = (checks, t)" by (cases r)
  note IH = Cons.IH [OF rest]
  show ?case
  proof (cases t)
    case None
    then have "rule_vote registry i = None" using rule_result_vote r ct by fastforce
    with IH rs ct None show ?thesis by (simp add: List.map_filter_simps)
  next
    case (Some u)
    then obtain v where v: "parse_verdict (dget u ''decision'' PyNone) = Some v"
      using rule_result_triggered r ct by blast
    then have "rule_vote registry i = Some v" using rule_result_vote r ct Some by fastforce
    with IH rs ct Some v show ?thesis by (simp add: List.map_filter_simps input_verdict_def)
  qed
qed (simp add: List.map_filter_simps)

lemma evaluate_collapse:
  assumes "evaluate_rule_registry ids registry = Inr (checks, triggered)"
    and "parse_verdict (PyStr dflt) = Some d"
  shows "\<exists>c. collapse_rule_decision_contract digest16 triggered subj kind version pass signoff dflt = Inr c \<and>
             contract_ok signoff (collapse_verdicts d (List.map_filter (rule_vote registry) ids)) c"
proof -
  obtain rs where "mapr (rule_result registry) ids = Inr rs" and "triggered = List.map_filter snd rs"
    using assms(1) by (auto simp: evaluate_rule_registry_def bindr_eq_Inr)
  with reduce_collapse [OF votes_of_results assms(2)] show ?thesis
    by (simp add: collapse_rule_decision_contract_def)
qed

subsection \<open>Properties\<close>

text \<open>
  The configured rule list is well formed: when \<open>configured_rule_ids\<close> returns, the list is
  not empty, has no duplicates, and holds exactly the stripped, non-blank ids of the policy in
  the order of their first occurrence.
\<close>

theorem configured_rule_ids_wf:
  assumes "configured_rule_ids policy name = Inr ids"
  shows "ids \<noteq> [] \<and> distinct ids \<and> (\<forall>i \<in> set ids. i \<noteq> [] \<and> py_strip i = i) \<and>
    (\<exists>vs. registry_configuration policy name = Inr (PyList vs) \<and> set ids = (py_strip \<circ> the_str) ` set vs)"
proof -
  obtain c where reg0: "registry_configuration policy name = Inr c"
    and c: "(case c of PyList (x # xs) \<Rightarrow>
           (if list_all valid_rule_id (x # xs)
            then Inr (dedupe_from {} (map (\<lambda>v. py_strip (the_str v)) (x # xs)))
            else Inl (PromotionGatePolicyError
                   (''promotion rule registry '' @ str_repr name @ '' contains an invalid rule id'')))
       | _ \<Rightarrow> Inl (PromotionGatePolicyError
                (''promotion rule registry '' @ str_repr name @ '' must be a non-empty list''))) = Inr ids"
    using assms by (auto simp: configured_rule_ids_def bindr_eq_Inr)
  obtain vs where vs: "c = PyList vs" using c by (cases c) simp_all
  obtain x xs where xs: "vs = x # xs" using c vs by (cases vs) simp_all
  have reg: "registry_configuration policy name = Inr (PyList (x # xs))" using reg0 vs xs by simp
  have ok: "list_all valid_rule_id (x # xs)"
    and ids: "ids = dedupe_from {} (map (\<lambda>v. py_strip (the_str v)) (x # xs))"
    using c unfolding vs xs pyval.case list.case by (auto simp only: split: if_splits)
  have set: "set ids = (\<lambda>v. py_strip (the_str v)) ` set (x # xs)"
    by (simp only: ids set_dedupe_from set_map Diff_empty)
  have strip: "py_strip (the_str v) \<noteq> []" if "v \<in> set (x # xs)" for v
    using ok that by (cases v) (auto simp: list_all_iff)
  have "ids \<noteq> []" using set by auto
  moreover have "distinct ids" by (simp only: ids distinct_dedupe_from)
  ultimately show ?thesis using reg set strip by (auto simp: comp_def)
qed

theorem configured_rule_ids_wf_witness:
  "configured_rule_ids
     [(''promotion_policy'', PyDict [(''rule_registry'', PyDict
        [(''page_class'', PyList [PyStr '' a'', PyStr ''b'', PyStr ''a''])])])] ''page_class'' =
     Inr [''a'', ''b''] \<and> distinct [''a'', ''b'']"
proof -
  have c: "configured_rule_ids
     [(''promotion_policy'', PyDict [(''rule_registry'', PyDict
        [(''page_class'', PyList [PyStr '' a'', PyStr ''b'', PyStr ''a''])])])] ''page_class'' =
     Inr [''a'', ''b'']"
    by code_simp
  from configured_rule_ids_wf [OF c] c show ?thesis by blast
qed

lemma collapse_rule_decisions_votes:
  assumes "evaluate_rule_registry ids registry = Inr (checks, triggered)"
    and "parse_verdict (PyStr dflt) = Some d"
  shows "collapse_rule_decisions digest16 triggered dflt =
     Inr (verdict_text (collapse_verdicts d (List.map_filter (rule_vote registry) ids)))"
  using evaluate_collapse [OF assms, of digest16 "''compat''" "''unknown''" "PyInt 0" "''compat''" PyNone]
  by (auto simp: collapse_rule_decisions_def contract_ok_def)

lemma collapse_verdicts_Promote:
  "collapse_verdicts Promote vs = (if Discard \<in> set vs then Discard
                                   else if Hold \<in> set vs then Hold else Promote)"
  by (auto simp: collapse_verdicts_cases)

text \<open>
  The decision of a rule set is DISCARD when some rule votes DISCARD, else HOLD when some
  rule votes HOLD, else PROMOTE; it does not depend on the order in which the policy lists
  the rules, nor on how often.
\<close>

theorem rule_decision_order_irrelevant:
  assumes "evaluate_rule_registry ids registry = Inr (checks, triggered)"
    and "evaluate_rule_registry ids' registry = Inr (checks', triggered')"
    and "set ids = set ids'"
  shows "collapse_rule_decisions digest16 triggered ''PROMOTE'' =
      collapse_rule_decisions digest16 triggered' ''PROMOTE'' \<and>
    collapse_rule_decisions digest16 triggered ''PROMOTE'' =
      Inr (if \<exists>i \<in> set ids. rule_vote registry i = Some Discard then ''DISCARD''
           else if \<exists>i \<in> set ids. rule_vote registry i = Some Hold then ''HOLD'' else ''PROMOTE'')"
proof -
  have votes: "v \<in> set (List.map_filter (rule_vote registry) is) \<longleftrightarrow> (\<exists>i \<in> set is. rule_vote registry i = Some v)"
    for v "is"
    by (force simp: List.map_filter_def)
  have "collapse_rule_decisions digest16 triggered ''PROMOTE'' =
      Inr (if \<exists>i \<in> set ids. rule_vote registry i = Some Discard then ''DISCARD''
           else if \<exists>i \<in> set ids. rule_vote registry i = Some Hold then ''HOLD'' else ''PROMOTE'')"
    if "evaluate_rule_registry ids registry = Inr (checks, triggered)" for ids checks triggered
    using collapse_rule_decisions_votes [OF that, of "''PROMOTE''" Promote digest16]
    by (simp add: collapse_verdicts_Promote votes)
  from this [OF assms(1)] this [OF assms(2)] assms(3) show ?thesis by simp
qed

theorem rule_decision_order_irrelevant_witness:
  "collapse_rule_decisions (\<lambda>_. ''0'')
     [[(''rule_id'', PyStr ''r''), (''decision'', PyStr ''DISCARD''), (''source_rule'', PyStr ''r''),
       (''reason_code'', PyStr ''r''), (''reason_detail'', PyStr ''r=FAIL: ''),
       (''evidence_refs'', py_strs [''r''])]] ''PROMOTE'' = Inr ''DISCARD''"
proof -
  let ?check = "[(''id'', PyStr ''r''), (''status'', PyStr ''FAIL'')] :: pydict"
  let ?reg = "[(''r'', single_check_rule ''r'' (Inr ?check)
                 (Some (status_rule_reducer (PyStr ''DISCARD'') PyNone PyNone)) None)]"
  let ?t = "[(''rule_id'', PyStr ''r''), (''decision'', PyStr ''DISCARD''), (''source_rule'', PyStr ''r''),
       (''reason_code'', PyStr ''r''), (''reason_detail'', PyStr ''r=FAIL: ''),
       (''evidence_refs'', py_strs [''r''])] :: pydict"
  have e: "evaluate_rule_registry [''r''] ?reg = Inr ([?check], [?t])" and v: "rule_vote ?reg ''r'' = Some Discard"
    by code_simp+
  from rule_decision_order_irrelevant [OF e e refl, of "\<lambda>_. ''0''"] v show ?thesis by simp
qed

end
