(* ===== verification/GateCommon.thy ===== *)
theory GateCommon
  imports RepoPath RuleRegistry
begin

section \<open>Shared parts of the promotion gate\<close>

text \<open>
  \<open>mechanism/promotion_gate_common_runtime.py\<close>: the accessors of the gate's JSON reports, the
  signoff and log sections of a promotion report, target matching, and the comparison tuples
  of lint and structural metrics. Reports arrive schema-validated, but a missing key is
  still the \<open>KeyError\<close> it is in Python. The file system (\<open>resolve_repo_path\<close>,
  \<open>Path.resolve\<close>, \<open>Path.exists\<close>) is a record of functions, a parameter of the definitions.
\<close>

subsection \<open>Values used by the gate\<close>

text \<open>\<open>len(value)\<close>, \<open>value == n\<close> for a number, \<open>int(value)\<close>, \<open>value[k1][k2]...\<close>.\<close>

fun py_len :: "pyval \<Rightarrow> int res" where
  "py_len (PyList xs) = Inr (int (length xs))"
| "py_len (PyDict d) = Inr (int (length d))"
| "py_len (PyStr s) = Inr (int (length s))"
| "py_len _ = Inl TypeError"

definition py_eq_int :: "pyval \<Rightarrow> int \<Rightarrow> bool" where
  "py_eq_int v n = (py_num v = Some (of_int n))"

definition py_eq_scalar :: "pyval \<Rightarrow> pyval \<Rightarrow> bool" where
  "py_eq_scalar v w = (case py_num v of Some r \<Rightarrow> py_num w = Some r | None \<Rightarrow> v = w)"

fun py_int :: "pyval \<Rightarrow> int res" where
  "py_int (PyInt n) = Inr n"
| "py_int (PyBool b) = Inr (if b then 1 else 0)"
| "py_int (PyFloat t r) = Inr (if r < 0 then - \<lfloor>- r\<rfloor> else \<lfloor>r\<rfloor>)"
| "py_int (PyStr s) =
     (case int_of_text s of
        Some n \<Rightarrow> Inr n
      | None \<Rightarrow> Inl (ValueError (''invalid literal for int() with base 10: '' @ str_repr s)))"
| "py_int _ = Inl TypeError"

text \<open>\<open>text in value\<close>.\<close>

fun py_contains :: "pyval \<Rightarrow> string \<Rightarrow> bool res" where
  "py_contains (PyList xs) s = Inr (PyStr s \<in> set xs)"
| "py_contains (PyDict d) s = Inr (dhas d s)"
| "py_contains (PyStr t) s = Inr (sublist s t)"
| "py_contains _ s = Inl TypeError"

definition py_items :: "pyval \<Rightarrow> string list \<Rightarrow> pyval res" where
  "py_items v ks = foldr_res py_item v ks"

definition item_int :: "pydict \<Rightarrow> string \<Rightarrow> int res" where
  "item_int d k = bindr (ditem d k) py_as_int"

definition get_int :: "pydict \<Rightarrow> string \<Rightarrow> int \<Rightarrow> int res" where
  "get_int d k n = py_as_int (dget d k (PyInt n))"

definition str_or :: "string option \<Rightarrow> string \<Rightarrow> string" where
  "str_or v dflt = (case v of Some s \<Rightarrow> (if s = [] then dflt else s) | None \<Rightarrow> dflt)"

definition str_truth :: "string option \<Rightarrow> bool" where
  "str_truth v = (str_or v [] \<noteq> [])"

subsection \<open>Vault paths\<close>

text \<open>
  The file system as the gate sees it: the text of \<open>vault.resolve()\<close>, of
  \<open>resolve_repo_path(vault, raw)\<close>, of \<open>Path(text).resolve()\<close>, and \<open>(vault / rel).exists()\<close>.
\<close>

record vault_env =
  ve_root :: string
  ve_resolve_repo :: "string \<Rightarrow> string"
  ve_resolve :: "string \<Rightarrow> string"
  ve_exists :: "string \<Rightarrow> bool"

definition normalize_report_vault :: "vault_env \<Rightarrow> pyval \<Rightarrow> string option res" where
  "normalize_report_vault env raw =
     (if \<not> py_truth raw then Inr None
      else (case raw of PyStr s \<Rightarrow> Inr (Some (ve_resolve_repo env s)) | _ \<Rightarrow> Inl TypeError))"

text \<open>\<open>Path.relative_to\<close> on resolved paths; \<open>None\<close> is its \<open>ValueError\<close>.\<close>

definition relative_to :: "string \<Rightarrow> string \<Rightarrow> string option" where
  "relative_to base p =
     (let pre = (if py_endswith base ''/'' then base else base @ ''/'')
      in if p = base then Some ''.''
         else if py_startswith p pre then Some (drop (length pre) p) else None)"

definition extract_policy_identity :: "pydict \<Rightarrow> pyval \<times> pyval" where
  "extract_policy_identity report =
     (case dget report ''policy'' PyNone of
        PyDict p \<Rightarrow> (dget p ''path'' PyNone, dget p ''version'' PyNone)
      | _ \<Rightarrow> (PyNone, PyNone))"

text \<open>\<open>ledger_artifact_targets\<close>: the set of non-empty artifact strings, as a list.\<close>

definition ledger_artifact_targets :: "pydict \<Rightarrow> string list res" where
  "ledger_artifact_targets run_ledger =
     bindr (py_iter (dget run_ledger ''events'' (PyList []))) (\<lambda>events.
     bindr (mapr (\<lambda>event. bindr (py_get event ''artifacts'' (PyList [])) py_iter) events) (\<lambda>artifacts.
       Inr (filter (\<lambda>s. s \<noteq> []) (map the_str (filter is_str (concat artifacts))))))"

subsection \<open>Signoff, log and history\<close>

record gate_args =
  ga_require_signoff :: bool
  ga_signoff_status :: "string option"
  ga_signoff_by :: "string option"
  ga_signoff_ts :: "string option"
  ga_log_recorded :: bool
  ga_log_entry_ref :: "string option"
  ga_log_summary :: pyval

definition ensure_log_args_consistent :: "gate_args \<Rightarrow> unit res" where
  "ensure_log_args_consistent args =
     (if ga_log_recorded args \<and> \<not> str_truth (ga_log_entry_ref args)
      then Inl (PromotionGateUsageError ''--log-recorded requires --log-entry-ref'')
      else if str_truth (ga_log_entry_ref args) \<and> \<not> ga_log_recorded args
      then Inl (PromotionGateUsageError ''--log-entry-ref requires --log-recorded'')
      else Inr ())"

definition build_signoff :: "pydict \<Rightarrow> string \<Rightarrow> gate_args \<Rightarrow> pydict res" where
  "build_signoff policy artifact_class args =
     bindr (py_items (PyDict policy) [''promotion_policy'', ''signoff_defaults'', artifact_class]) (\<lambda>dflt.
       let required = (dflt = PyStr ''required'' \<or> ga_require_signoff args);
           status = str_or (ga_signoff_status args) (if required then ''pending'' else ''not_required'')
       in if required \<and> status = ''not_required''
          then Inl (PromotionGateUsageError (''required signoff cannot use status '' @ str_repr ''not_required''))
          else Inr [(''required'', PyBool required), (''status'', PyStr status),
                    (''by'', PyStr (str_or (ga_signoff_by args) '''')),
                    (''ts'', PyStr (str_or (ga_signoff_ts args) ''''))])"

definition build_log :: "pydict \<Rightarrow> gate_args \<Rightarrow> pydict res" where
  "build_log policy args =
     bindr (py_items (PyDict policy) [''promotion_policy'', ''log_defaults'']) (\<lambda>defaults.
     bindr (py_items (PyDict policy) [''mutation_policy'', ''require_log_entry'']) (\<lambda>required.
       let status = (if \<not> py_truth required then ''not_required''
                     else if ga_log_recorded args \<and> str_truth (ga_log_entry_ref args) then ''recorded''
                     else ''pending'')
       in bindr (py_item defaults ''page'') (\<lambda>page.
            Inr [(''required'', required), (''page'', page), (''summary'', ga_log_summary args),
                 (''status'', PyStr status), (''entry_ref'', PyStr (str_or (ga_log_entry_ref args) ''''))])))"

definition build_history_status :: "string \<Rightarrow> string \<Rightarrow> string \<Rightarrow> string \<Rightarrow> pydict" where
  "build_history_status status reason who ts =
     [(''status'', PyStr status), (''reason'', PyStr reason), (''by'', PyStr who), (''ts'', PyStr ts)]"

definition decision_to_outcome :: "string \<Rightarrow> string" where
  "decision_to_outcome d =
     (case decision_outcome d of Inr t \<Rightarrow> t | Inl _ \<Rightarrow> '''')"

definition decision_to_next_action :: "string \<Rightarrow> bool \<Rightarrow> bool \<Rightarrow> string" where
  "decision_to_next_action d signoff_required log_required =
     (let outcome = decision_to_outcome d in
      if outcome = ''promoted'' then
        (if log_required then
           ''Append the matching entry to system/system-log.md if not yet recorded, then persist the report.''
         else ''Persist the report; no system/system-log.md append is required by current policy.'')
      else if outcome = ''hold'' then
        (if signoff_required then
           (if log_required then
              ''Collect required signoff, then rerun promotion_gate.py and append the log entry.''
            else ''Collect required signoff, then rerun promotion_gate.py.'')
         else ''Address the remaining warning condition, then rerun promotion_gate.py.'')
      else ''Do not promote this candidate; fix the failing checks or discard the change.'')"

subsection \<open>Target matching\<close>

text \<open>\<open>PurePosixPath.parts\<close> and \<open>stem\<close> of a path text.\<close>

definition path_parts :: "string \<Rightarrow> string list" where
  "path_parts s =
     (case splitroot s of (rt, rest) \<Rightarrow>
        (if rt = [] then [] else [rt]) @
        filter (\<lambda>w. w \<noteq> [] \<and> w \<noteq> ''.'') (py_split slash rest))"

definition path_name :: "string \<Rightarrow> string" where
  "path_name s =
     (case splitroot s of (rt, rest) \<Rightarrow>
        (case rev (filter (\<lambda>w. w \<noteq> [] \<and> w \<noteq> ''.'') (py_split slash rest)) of
           [] \<Rightarrow> [] | w # _ \<Rightarrow> w))"

text \<open>The name up to its last dot, when that dot is neither its first nor its last character.\<close>

definition path_stem :: "string \<Rightarrow> string" where
  "path_stem s =
     (let n = path_name s; ext = takeWhile (\<lambda>c. c \<noteq> CHR ''.'') (rev n);
          i = length n - length ext - 1
      in if CHR ''.'' \<in> set n \<and> 0 < i \<and> ext \<noteq> [] then take i n else n)"

definition page_target_matches :: "string \<Rightarrow> pydict \<Rightarrow> bool res" where
  "page_target_matches target_rel spec =
     (case path_parts target_rel of
        p # _ # _ \<Rightarrow>
          bindr (ditem spec ''root'') (\<lambda>rt.
            if PyStr p \<noteq> rt then Inr False
            else bindr (ditem spec ''prefixes'') (\<lambda>ps. bindr (py_iter ps) (\<lambda>prefixes.
                   Inr (list_ex (\<lambda>pre. py_startswith (path_stem target_rel) (the_str pre)) prefixes))))
      | _ \<Rightarrow> Inr False)"

fun target_allowed :: "string \<Rightarrow> string list \<Rightarrow> bool" where
  "target_allowed target [] = False"
| "target_allowed target (allowed # rest) =
     (if py_endswith allowed ''/'' then
        (if py_startswith target allowed then True else target_allowed target rest)
      else if target = allowed then True else target_allowed target rest)"

definition mechanism_target_matches :: "pyval \<Rightarrow> string \<Rightarrow> bool res" where
  "mechanism_target_matches spec target_rel =
     bindr (py_item spec ''allowed_targets'') (\<lambda>a. bindr (py_iter a) (\<lambda>allowed.
       Inr (target_allowed target_rel (map the_str allowed))))"

subsection \<open>Summaries and comparison tuples\<close>

definition stat_or_len :: "pydict \<Rightarrow> pydict \<Rightarrow> string \<Rightarrow> string \<Rightarrow> pyval res" where
  "stat_or_len report stats stat_key list_key =
     bindr (py_len (dget report list_key (PyList []))) (\<lambda>n. Inr (dget stats stat_key (PyInt n)))"

definition lint_input_summary :: "pydict \<Rightarrow> pydict res" where
  "lint_input_summary report =
     (case dget report ''stats'' (PyDict []) of
        PyDict stats \<Rightarrow>
          bindr (ditem report ''status'') (\<lambda>status.
          bindr (stat_or_len report stats ''error_count'' ''errors'') (\<lambda>e.
          bindr (stat_or_len report stats ''warning_count'' ''warnings'') (\<lambda>w.
          bindr (stat_or_len report stats ''review_candidate_count'' ''review_candidates'') (\<lambda>r.
            Inr [(''status'', status), (''error_count'', e), (''warning_count'', w),
                 (''review_candidate_count'', r)]))))
      | _ \<Rightarrow> bindr (ditem report ''status'') (\<lambda>_. Inl AttributeError))"

definition eval_input_summary :: "pydict \<Rightarrow> pydict res" where
  "eval_input_summary report =
     bindr (ditem report ''status'') (\<lambda>s. bindr (ditem report ''total_score'') (\<lambda>t.
     bindr (ditem report ''max_score'') (\<lambda>m.
       Inr [(''status'', s), (''total_score'', t), (''max_score'', m)])))"

fun lint_status_rank :: "pyval \<Rightarrow> int res" where
  "lint_status_rank (PyStr s) =
     (if s = ''pass'' then Inr 0 else if s = ''warn'' then Inr 1
      else if s = ''fail'' then Inr 2 else Inl (KeyError s))"
| "lint_status_rank (PyList _) = Inl TypeError"
| "lint_status_rank (PyDict _) = Inl TypeError"
| "lint_status_rank v = Inl (KeyError (py_repr v))"

definition lint_comparison_tuple :: "pydict \<Rightarrow> int list res" where
  "lint_comparison_tuple report =
     bindr (lint_input_summary report) (\<lambda>s.
     bindr (lint_status_rank (dget s ''status'' PyNone)) (\<lambda>k.
     bindr (item_int s ''error_count'') (\<lambda>e.
     bindr (item_int s ''warning_count'') (\<lambda>w.
     bindr (item_int s ''review_candidate_count'') (\<lambda>r. Inr [k, e, w, r])))))"

definition structural_metrics :: "pydict \<Rightarrow> pyval res" where
  "structural_metrics report = ditem report ''structural_metrics''"

definition STRUCTURAL_METRIC_KEYS :: "string list" where
  "STRUCTURAL_METRIC_KEYS =
     [''nonempty_line_count_total'', ''python_function_count'', ''python_branch_node_count'',
      ''markdown_heading_count'']"

definition metric_tuple :: "pyval \<Rightarrow> int list res" where
  "metric_tuple metrics =
     mapr (\<lambda>k. bindr (py_item metrics k) py_as_int) STRUCTURAL_METRIC_KEYS"

definition structural_metric_tuple :: "pydict \<Rightarrow> int list res" where
  "structural_metric_tuple report = bindr (structural_metrics report) metric_tuple"

text \<open>The default of \<open>report.get\<close> is evaluated first, so \<open>structural_metrics\<close> must be there.\<close>

definition total_structural_metrics :: "pydict \<Rightarrow> pyval res" where
  "total_structural_metrics report =
     bindr (ditem report ''structural_metrics'') (\<lambda>m.
       Inr (dget report ''total_structural_metrics'' m))"

definition total_structural_metric_tuple :: "pydict \<Rightarrow> int list res" where
  "total_structural_metric_tuple report = bindr (total_structural_metrics report) metric_tuple"

definition SUPPORTED_AXES :: "string list" where
  "SUPPORTED_AXES = [''lint'', ''complexity'', ''tests'']"

fun axes_from :: "string list \<Rightarrow> pyval list \<Rightarrow> string list res" where
  "axes_from seen [] = Inr []"
| "axes_from seen (a # as) =
     (if is_list a \<or> is_dict a then Inl TypeError
      else if a \<notin> PyStr ` set SUPPORTED_AXES
      then Inl (PromotionGatePolicyError (''unsupported equal-score secondary axis: '' @ py_str a))
      else if the_str a \<in> set seen then axes_from seen as
      else bindr (axes_from (the_str a # seen) as) (\<lambda>r. Inr (the_str a # r)))"

definition configured_secondary_axes :: "pydict \<Rightarrow> string list res" where
  "configured_secondary_axes policy =
     bindr (py_items (PyDict policy) [''equal_score_promotion'', ''secondary_axes'']) (\<lambda>c.
     bindr (py_iter c) (axes_from []))"

definition report_target_list :: "pydict \<Rightarrow> string \<Rightarrow> string list" where
  "report_target_list report field =
     (case dget report field (PyList []) of
        PyList vs \<Rightarrow> map the_str (filter is_str vs)
      | _ \<Rightarrow> [])"

subsection \<open>Facts\<close>

lemma target_allowed_iff:
  "target_allowed t as \<longleftrightarrow> (\<exists>a \<in> set as. if py_endswith a ''/'' then prefix a t else t = a)"
  by (induction as) (auto simp: py_startswith_prefix)

lemma axes_from_Cons:
  "axes_from seen (a # as) = Inr xs \<longleftrightarrow>
     (\<exists>x. a = PyStr x \<and> x \<in> set SUPPORTED_AXES \<and>
        (if x \<in> set seen then axes_from seen as = Inr xs
         else \<exists>ys. axes_from (x # seen) as = Inr ys \<and> xs = x # ys))"
  by (cases a) (auto simp: bindr_eq_Inr)

lemma axes_from_sound:
  "axes_from seen as = Inr xs \<Longrightarrow>
     distinct xs \<and> set xs \<subseteq> set SUPPORTED_AXES \<and> set xs \<inter> set seen = {} \<and>
     the_str ` set as \<union> set seen = set xs \<union> set seen"
proof (induction as arbitrary: seen xs)
  case (Cons a as)
  then obtain x where x: "a = PyStr x" "x \<in> set SUPPORTED_AXES"
    and r: "if x \<in> set seen then axes_from seen as = Inr xs
            else \<exists>ys. axes_from (x # seen) as = Inr ys \<and> xs = x # ys"
    by (auto simp only: axes_from_Cons)
  show ?case
  proof (cases "x \<in> set seen")
    case True
    then show ?thesis using Cons.IH [of seen xs] r x by auto
  next
    case False
    then obtain ys where "axes_from (x # seen) as = Inr ys" "xs = x # ys" using r by auto
    then show ?thesis using Cons.IH [of "x # seen" ys] x False by auto
  qed
qed simp

lemma configured_secondary_axes_sound:
  assumes "configured_secondary_axes policy = Inr xs"
  shows "distinct xs" and "set xs \<subseteq> set SUPPORTED_AXES"
  using assms by (auto simp: configured_secondary_axes_def bindr_eq_Inr dest: axes_from_sound)

lemma build_signoff_status:
  assumes "build_signoff policy cls args = Inr s"
  shows "\<exists>r st. dget s ''required'' PyNone = PyBool r \<and> dget s ''status'' PyNone = PyStr st \<and>
     (r \<longrightarrow> st \<noteq> ''not_required'') \<and> (ga_require_signoff args \<longrightarrow> r)"
  using assms by (auto simp: build_signoff_def bindr_eq_Inr Let_def dget_def split: if_splits)

end
