(* ===== verification/RunValidation.thy ===== *)
theory RunValidation
  imports GateCommon
begin

section \<open>Validation of a mechanism run\<close>

text \<open>
  \<open>mechanism/mechanism_run_validation_runtime.py\<close>: the bundle of reports a mechanism run
  leaves behind and the checks on it, each a dictionary with \<open>id\<close>, \<open>status\<close> and
  \<open>detail\<close> (gate checks) or \<open>check\<close>, \<open>pass\<close> and \<open>detail\<close> (phase checks): consistency
  of run ids, policy and vault, declared targets, the scope of the changed files, the
  behavior-delta report and the order of the run-ledger events.
\<close>

subsection \<open>Event sequences\<close>

definition MECHANISM_EVALUATED_EVENT_SEQUENCE :: "string list" where
  "MECHANISM_EVALUATED_EVENT_SEQUENCE =
     [''created'', ''seed_frozen'', ''baseline_captured'', ''mutation_applied'',
      ''candidate_captured'', ''repo_health_checked'', ''promotion_evaluated'']"

definition MECHANISM_FINALIZED_EVENT_SEQUENCE :: "string list" where
  "MECHANISM_FINALIZED_EVENT_SEQUENCE = MECHANISM_EVALUATED_EVENT_SEQUENCE @ [''finalized'']"

definition MECHANISM_EVENT_SEQUENCE_BY_PHASE :: "(string \<times> string list) list" where
  "MECHANISM_EVENT_SEQUENCE_BY_PHASE =
     [(''mechanism_evaluated'', MECHANISM_EVALUATED_EVENT_SEQUENCE),
      (''mechanism_finalized'', MECHANISM_FINALIZED_EVENT_SEQUENCE)]"

definition MECHANISM_TERMINAL_EVENT_BY_PHASE :: "(string \<times> string) list" where
  "MECHANISM_TERMINAL_EVENT_BY_PHASE =
     [(''mechanism_evaluated'', ''promotion_evaluated''), (''mechanism_finalized'', ''finalized'')]"

definition SUPPORTED_MECHANISM_PHASES :: "string list" where
  "SUPPORTED_MECHANISM_PHASES = map fst MECHANISM_EVENT_SEQUENCE_BY_PHASE"

subsection \<open>The artifact bundle\<close>

record artifact_bundle =
  baseline_eval_report :: pydict
  candidate_eval_report :: pydict
  baseline_mechanism_contract_eval_report :: "pydict option"
  candidate_mechanism_contract_eval_report :: "pydict option"
  baseline_lint_report :: pydict
  candidate_lint_report :: pydict
  baseline_mechanism_report :: pydict
  candidate_mechanism_report :: pydict
  changed_files_manifest_report :: pydict
  run_ledger_report :: pydict

record declared_target_set =
  primary_targets :: "string list"
  supporting_targets :: "string list"
  test_files :: "string list"

record changed_files_scope =
  cs_changed_paths :: "string list"
  cs_declared_scope :: "string list"
  cs_out_of_scope_changes :: "string list"

record event_sequence =
  observed_event_types :: "string list"
  observed_required_event_types :: "string list"
  missing_event_types :: "string list"
  expected_sequence :: "string list"
  expected_terminal_event :: string
  order_pass :: bool
  terminal_pass :: bool

definition BUNDLE_FIELDS :: "string list" where
  "BUNDLE_FIELDS =
     [''baseline_eval_report'', ''candidate_eval_report'', ''baseline_lint_report'',
      ''candidate_lint_report'', ''baseline_mechanism_report'', ''candidate_mechanism_report'',
      ''changed_files_manifest_report'', ''run_ledger_report'']"

definition mechanism_gate_check :: "string \<Rightarrow> string \<Rightarrow> string \<Rightarrow> pydict" where
  "mechanism_gate_check check_id status detail =
     [(''id'', PyStr check_id), (''status'', PyStr status), (''detail'', PyStr detail)]"

definition mechanism_phase_check :: "string \<Rightarrow> bool \<Rightarrow> string \<Rightarrow> pydict" where
  "mechanism_phase_check check_id passed detail =
     [(''check'', PyStr check_id), (''pass'', PyBool passed), (''detail'', PyStr detail)]"

definition opt_dict :: "pyval \<Rightarrow> pydict option" where
  "opt_dict v = (case v of PyDict d \<Rightarrow> Some d | _ \<Rightarrow> None)"

text \<open>
  \<open>normalize_mechanism_artifact_bundle\<close> on a mapping; an object's attributes are read the
  same way (\<open>getattr(raw, field, None)\<close>), so it is the mapping of its attributes.
\<close>

definition normalize_mechanism_artifact_bundle :: "pydict \<Rightarrow> artifact_bundle res" where
  "normalize_mechanism_artifact_bundle raw =
     (let missing = filter (\<lambda>f. \<not> is_dict (dget raw f PyNone)) BUNDLE_FIELDS;
          field = (\<lambda>f. the_dict (dget raw f PyNone));
          opt = (\<lambda>f. opt_dict (dget raw f PyNone))
      in if missing \<noteq> []
         then Inl (ValueError (''missing mechanism artifact bundle fields: '' @
                py_join '', '' (py_sorted missing)))
         else Inr
           \<lparr>baseline_eval_report = field ''baseline_eval_report'',
            candidate_eval_report = field ''candidate_eval_report'',
            baseline_mechanism_contract_eval_report = opt ''baseline_mechanism_contract_eval_report'',
            candidate_mechanism_contract_eval_report = opt ''candidate_mechanism_contract_eval_report'',
            baseline_lint_report = field ''baseline_lint_report'',
            candidate_lint_report = field ''candidate_lint_report'',
            baseline_mechanism_report = field ''baseline_mechanism_report'',
            candidate_mechanism_report = field ''candidate_mechanism_report'',
            changed_files_manifest_report = field ''changed_files_manifest_report'',
            run_ledger_report = field ''run_ledger_report''\<rparr>)"

subsection \<open>Declared scope\<close>

definition INVALID_PREFIX :: string where
  "INVALID_PREFIX = ''!invalid-repo-path:''"

definition rstrip_slashes :: "string \<Rightarrow> string" where
  "rstrip_slashes s = rev (dropWhile (\<lambda>c. c = slash) (rev s))"

definition declared_target_matches :: "string \<Rightarrow> string \<Rightarrow> bool" where
  "declared_target_matches path target =
     (let normalized_target = rstrip_slashes target
      in \<not> py_startswith path INVALID_PREFIX \<and>
         \<not> py_startswith normalized_target INVALID_PREFIX \<and>
         (path = normalized_target \<or> py_startswith path (normalized_target @ ''/'')))"

definition path_in_declared_scope :: "string list \<Rightarrow> string \<Rightarrow> bool" where
  "path_in_declared_scope declared_targets path =
     list_ex (declared_target_matches path) declared_targets"

definition normalize_changed_file_path :: "string \<Rightarrow> string" where
  "normalize_changed_file_path path =
     (let n = (case normalize_repo_path_text (Some path) of
                 Some t \<Rightarrow> t
               | None \<Rightarrow> INVALID_PREFIX @ ''<blank:'' @ str_repr path @ ''>'')
      in if py_startswith n INVALID_PREFIX then n
         else if n = ''.'' \<or> n = ''..'' \<or> py_startswith n ''../'' \<or> py_startswith n ''/''
         then INVALID_PREFIX @ n
         else n)"

definition display_report_vault :: "vault_env \<Rightarrow> pyval \<Rightarrow> string res" where
  "display_report_vault env raw_vault =
     bindr (normalize_report_vault env raw_vault) (\<lambda>normalized.
       Inr (case normalized of
              None \<Rightarrow> ''<missing>''
            | Some p \<Rightarrow>
                (case relative_to (ve_root env) (ve_resolve env p) of
                   Some rel \<Rightarrow> rel
                 | None \<Rightarrow> ''<outside-vault>'')))"

definition manifest_declared_targets :: "artifact_bundle \<Rightarrow> declared_target_set res" where
  "manifest_declared_targets bundle =
     (let declared = dget (changed_files_manifest_report bundle) ''declared_targets'' (PyDict []);
          targets = (\<lambda>f. bindr (py_get declared f (PyList [])) (\<lambda>v.
            Inr (py_sorted (report_target_list [(f, v)] f))))
      in bindr (targets ''primary_targets'') (\<lambda>p.
         bindr (targets ''supporting_targets'') (\<lambda>s.
         bindr (targets ''test_files'') (\<lambda>t.
           Inr \<lparr>primary_targets = p, supporting_targets = s, test_files = t\<rparr>))))"

definition candidate_declared_targets :: "artifact_bundle \<Rightarrow> declared_target_set" where
  "candidate_declared_targets bundle =
     (let targets = (\<lambda>f. py_sorted (report_target_list (candidate_mechanism_report bundle) f))
      in \<lparr>primary_targets = targets ''primary_targets'',
          supporting_targets = targets ''supporting_targets'', test_files = targets ''test_files''\<rparr>)"

text \<open>The path texts of the entries that are objects with a string \<open>path\<close>.\<close>

definition str_fields :: "string \<Rightarrow> pyval list \<Rightarrow> string list" where
  "str_fields k entries =
     map the_str (filter is_str (map (\<lambda>e. dget (the_dict e) k PyNone) (filter is_dict entries)))"

definition changed_file_paths :: "artifact_bundle \<Rightarrow> string list" where
  "changed_file_paths bundle =
     (case dget (changed_files_manifest_report bundle) ''files'' (PyList []) of
        PyList files \<Rightarrow> py_sorted (map normalize_changed_file_path (str_fields ''path'' files))
      | _ \<Rightarrow> [])"

definition changed_files_scope_state ::
  "artifact_bundle \<Rightarrow> string list option \<Rightarrow> changed_files_scope res" where
  "changed_files_scope_state bundle declared_scope =
     bindr (manifest_declared_targets bundle) (\<lambda>targets.
       let raw = (case declared_scope of
                    Some s \<Rightarrow> s
                  | None \<Rightarrow> primary_targets targets @ supporting_targets targets @ test_files targets);
           scope = py_sorted_set (map normalize_changed_file_path raw);
           changed = changed_file_paths bundle
       in Inr \<lparr>cs_changed_paths = changed, cs_declared_scope = scope,
               cs_out_of_scope_changes = filter (\<lambda>p. \<not> path_in_declared_scope scope p) changed\<rparr>)"

subsection \<open>Behavior-delta checks\<close>

definition behavior_delta_policy :: "pydict \<Rightarrow> pydict" where
  "behavior_delta_policy policy = the_dict (dget policy ''behavior_delta'' (PyDict []))"

definition behavior_delta_requirement_reasons :: "pydict \<Rightarrow> bool \<Rightarrow> bool \<Rightarrow> string list" where
  "behavior_delta_requirement_reasons policy auto_improve_run score_equal =
     (let bp = behavior_delta_policy policy
      in (if py_truth (dget bp ''required_for_system_mechanism'' (PyBool False))
          then [''policy.required_for_system_mechanism''] else []) @
         (if auto_improve_run \<and> py_truth (dget bp ''required_for_auto_improve'' (PyBool True))
          then [''auto_improve_run''] else []) @
         (if score_equal \<and> py_truth (dget bp ''required_for_equal_score_promotion'' (PyBool True))
          then [''equal_score_promotion''] else []))"

definition build_behavior_delta_presence_check ::
  "pydict \<Rightarrow> pydict option \<Rightarrow> bool \<Rightarrow> bool \<Rightarrow> pydict" where
  "build_behavior_delta_presence_check policy delta auto_improve_run score_equal =
     (let reasons = behavior_delta_requirement_reasons policy auto_improve_run score_equal
      in if delta \<noteq> None then
           mechanism_gate_check ''behavior_delta_presence'' ''PASS''
             (if reasons = [] then ''behavior-delta artifact present''
              else ''behavior-delta artifact present for required context: '' @ py_join '', '' reasons)
         else if reasons \<noteq> [] then
           mechanism_gate_check ''behavior_delta_presence'' ''FAIL''
             (''missing behavior-delta artifact for required context: '' @ py_join '', '' reasons)
         else
           mechanism_gate_check ''behavior_delta_presence'' ''WARN''
             ''behavior_delta.required_for_system_mechanism=false and no auto-improve/equal-score requirement applies'')"

definition build_behavior_delta_consistency_check :: "artifact_bundle \<Rightarrow> pydict option \<Rightarrow> pydict res" where
  "build_behavior_delta_consistency_check bundle delta =
     (case delta of
        None \<Rightarrow> Inr (mechanism_gate_check ''behavior_delta_consistency'' ''WARN''
                  ''behavior-delta artifact not provided; consistency check skipped'')
      | Some report \<Rightarrow>
          bindr (py_iter (dget report ''deltas'' (PyList []))) (\<lambda>deltas.
            let manifest_paths = changed_file_paths bundle;
                delta_paths = py_sorted (str_fields ''target'' deltas);
                summary_total = (case dget report ''summary'' (PyDict []) of
                    PyDict s \<Rightarrow> dget s ''changed_file_count'' PyNone | _ \<Rightarrow> PyNone);
                count = int (length manifest_paths);
                problems =
                  (if manifest_paths \<noteq> delta_paths
                   then [''manifest_paths='' @ list_text manifest_paths @
                         '', behavior_delta_targets='' @ list_text delta_paths] else []) @
                  (if \<not> py_eq_int summary_total count
                   then [''summary.changed_file_count='' @ py_str summary_total @
                         '', manifest_count='' @ int_text count] else [])
            in Inr (mechanism_gate_check ''behavior_delta_consistency''
                 (if problems = [] then ''PASS'' else ''FAIL'')
                 (if problems = [] then ''behavior-delta targets align with changed-files manifest''
                  else py_join ''; '' problems))))"

definition build_behavior_delta_review_signal_check :: "pydict option \<Rightarrow> pydict res" where
  "build_behavior_delta_review_signal_check delta =
     (case delta of
        None \<Rightarrow> Inr (mechanism_gate_check ''behavior_delta_review_signal'' ''WARN''
                  ''behavior-delta artifact not provided; semantic/behavior review signal unavailable'')
      | Some report \<Rightarrow>
          (case dget report ''summary'' (PyDict []) of
             PyDict s \<Rightarrow>
               bindr (py_int (dget s ''regression_count'' (PyInt 0))) (\<lambda>regression.
               bindr (py_int (dget s ''unexpected_change_count'' (PyInt 0))) (\<lambda>unexpected.
               bindr (py_int (dget s ''coverage_gap_count'' (PyInt 0))) (\<lambda>gaps.
               bindr (py_int (dget s ''high_risk_delta_count'' (PyInt 0))) (\<lambda>high_risk.
                 Inr (if regression \<noteq> 0 then
                        mechanism_gate_check ''behavior_delta_review_signal'' ''FAIL''
                          (''behavior-delta reports regression_count='' @ int_text regression)
                      else
                        mechanism_gate_check ''behavior_delta_review_signal''
                          (if unexpected \<noteq> 0 \<or> gaps \<noteq> 0 \<or> high_risk \<noteq> 0 then ''WARN'' else ''PASS'')
                          (''unexpected='' @ int_text unexpected @ '', coverage_gaps='' @ int_text gaps @
                           '', high_risk_deltas='' @ int_text high_risk @
                           '', risk_level='' @ py_str (dget s ''risk_level'' (PyStr ''''))))))))
           | _ \<Rightarrow> Inr (mechanism_gate_check ''behavior_delta_review_signal'' ''FAIL''
                    ''behavior-delta summary is missing or invalid'')))"

subsection \<open>Gate checks\<close>

definition POLICY_AND_VAULT_REPORTS :: "(string \<times> (artifact_bundle \<Rightarrow> pydict option)) list" where
  "POLICY_AND_VAULT_REPORTS =
     [(''baseline_eval'', \<lambda>b. Some (baseline_eval_report b)),
      (''candidate_eval'', \<lambda>b. Some (candidate_eval_report b)),
      (''baseline_mechanism_contract_eval'', baseline_mechanism_contract_eval_report),
      (''candidate_mechanism_contract_eval'', candidate_mechanism_contract_eval_report),
      (''baseline_lint'', \<lambda>b. Some (baseline_lint_report b)),
      (''candidate_lint'', \<lambda>b. Some (candidate_lint_report b)),
      (''baseline_mechanism'', \<lambda>b. Some (baseline_mechanism_report b)),
      (''candidate_mechanism'', \<lambda>b. Some (candidate_mechanism_report b))]"

definition available_reports :: "artifact_bundle \<Rightarrow> (string \<times> pydict) list" where
  "available_reports bundle =
     List.map_filter (\<lambda>(name, f). map_option (Pair name) (f bundle)) POLICY_AND_VAULT_REPORTS"

definition pass_fail :: "bool \<Rightarrow> string" where
  "pass_fail b = (if b then ''PASS'' else ''FAIL'')"

definition pass_warn :: "bool \<Rightarrow> string" where
  "pass_warn b = (if b then ''PASS'' else ''WARN'')"

definition build_report_consistency_checks ::
  "vault_env \<Rightarrow> artifact_bundle \<Rightarrow> string \<Rightarrow> string \<Rightarrow> pyval \<Rightarrow> pydict list res" where
  "build_report_consistency_checks env bundle run_id expected_path expected_version =
     (let ledger_run = dget (run_ledger_report bundle) ''run_id'';
          manifest_run = dget (changed_files_manifest_report bundle) ''run_id'';
          reports = available_reports bundle;
          identities = map (\<lambda>(name, r). (name, extract_policy_identity r)) reports;
          policy_ok = list_all (\<lambda>(_, p, v). p = PyStr expected_path \<and> py_eq_scalar v expected_version) identities
      in bindr (mapr (\<lambda>(name, r). normalize_report_vault env (dget r ''vault'' PyNone)) reports) (\<lambda>vaults.
         bindr (mapr (\<lambda>(name, r). bindr (display_report_vault env (dget r ''vault'' PyNone)) (\<lambda>t.
             Inr (name @ ''='' @ t))) reports) (\<lambda>displayed.
           Inr
             [mechanism_gate_check ''run_id_consistency'' (pass_fail (ledger_run PyNone = PyStr run_id))
                (''expected run_id='' @ run_id @ '', run_ledger='' @ py_str (ledger_run (PyStr ''''))),
              mechanism_gate_check ''changed_files_manifest_run_id_consistency''
                (pass_fail (manifest_run PyNone = PyStr run_id))
                (''expected run_id='' @ run_id @ '', changed_files_manifest='' @
                 py_str (manifest_run (PyStr ''''))),
              mechanism_gate_check ''report_policy_consistency'' (pass_fail policy_ok)
                (''expected='' @ expected_path @ ''@'' @ py_str expected_version @ '', '' @
                 py_join '', '' (map (\<lambda>(name, p, v). name @ ''='' @ py_str p @ ''@'' @ py_str v) identities)),
              mechanism_gate_check ''report_vault_consistency''
                (pass_fail (list_all (\<lambda>v. v = Some (ve_root env)) vaults))
                (''expected=., '' @ py_join '', '' displayed)])))"

definition build_run_ledger_target_coverage_check :: "artifact_bundle \<Rightarrow> string list \<Rightarrow> pydict res" where
  "build_run_ledger_target_coverage_check bundle targets =
     bindr (ledger_artifact_targets (run_ledger_report bundle)) (\<lambda>ledger.
       let uncovered = py_sorted (filter (\<lambda>t. t \<notin> set ledger) targets)
       in Inr (mechanism_gate_check ''run_ledger_target_coverage'' (pass_fail (uncovered = []))
            (if uncovered = [] then ''all primary targets are referenced in run-ledger event artifacts''
             else ''uncovered primary targets: '' @ py_join '', '' uncovered)))"

definition build_mechanism_primary_target_check :: "artifact_bundle \<Rightarrow> string list \<Rightarrow> pydict" where
  "build_mechanism_primary_target_check bundle targets =
     (let expected = py_sorted targets;
          baseline = py_sorted (report_target_list (baseline_mechanism_report bundle) ''primary_targets'');
          candidate = py_sorted (report_target_list (candidate_mechanism_report bundle) ''primary_targets'')
      in mechanism_gate_check ''mechanism_report_primary_targets''
           (pass_fail (baseline = expected \<and> candidate = expected))
           (''expected='' @ list_text expected @ '', baseline='' @ list_text baseline @
            '', candidate='' @ list_text candidate))"

definition build_manifest_declared_targets_check ::
  "artifact_bundle \<Rightarrow> string list \<Rightarrow> string list \<Rightarrow> string list \<Rightarrow> pydict res" where
  "build_manifest_declared_targets_check bundle primary supporting tests =
     bindr (manifest_declared_targets bundle) (\<lambda>m.
       let ep = py_sorted primary; es = py_sorted supporting; et = py_sorted tests
       in Inr (mechanism_gate_check ''changed_files_manifest_declared_targets''
            (pass_fail (primary_targets m = ep \<and> supporting_targets m = es \<and> test_files m = et))
            (''expected_primary='' @ list_text ep @ '', manifest_primary='' @ list_text (primary_targets m) @
             ''; expected_supporting='' @ list_text es @ '', manifest_supporting='' @
             list_text (supporting_targets m) @ ''; expected_tests='' @ list_text et @
             '', manifest_tests='' @ list_text (test_files m))))"

definition build_changed_files_scope_gate_check :: "artifact_bundle \<Rightarrow> pydict res" where
  "build_changed_files_scope_gate_check bundle =
     bindr (changed_files_scope_state bundle None) (\<lambda>st.
       let out = cs_out_of_scope_changes st
       in Inr (mechanism_gate_check ''changed_files_manifest_scope'' (pass_fail (out = []))
            (if out = [] then ''all changed files stay within the declared primary/supporting/test target set''
             else ''out-of-scope changed files: '' @ py_join '', '' out)))"

definition build_changed_files_allowed_apply_roots_check :: "artifact_bundle \<Rightarrow> pyval list \<Rightarrow> pydict res" where
  "build_changed_files_allowed_apply_roots_check bundle allowed =
     (let check = mechanism_gate_check ''changed_files_manifest_allowed_apply_roots''
      in case manifest_apply_guard_state (changed_files_manifest_report bundle) allowed of
           Inl e \<Rightarrow> (if is_value_error e then Inr (check ''FAIL'' (exc_text e)) else Inl e)
         | Inr st \<Rightarrow>
             (if guard_problems st = []
              then Inr (check ''PASS''
                (''all changed files stay within auto_improve_policy.allowed_apply_roots: '' @
                 py_join '', '' (g_allowed_apply_roots st)))
              else Inr (check ''FAIL''
                (py_join ''; '' (guard_problems st) @ '' | allowed_apply_roots='' @
                 py_join '', '' (g_allowed_apply_roots st)))))"

definition build_changed_files_nonempty_check :: "artifact_bundle \<Rightarrow> pydict" where
  "build_changed_files_nonempty_check bundle =
     (let changed = changed_file_paths bundle
      in mechanism_gate_check ''changed_files_manifest_nonempty'' (pass_warn (changed \<noteq> []))
           (if changed \<noteq> [] then ''captured changed files: '' @ py_join '', '' changed
            else ''mutation workspace produced no tracked file changes''))"

definition build_changed_files_primary_target_touched_check ::
  "artifact_bundle \<Rightarrow> string list \<Rightarrow> pydict" where
  "build_changed_files_primary_target_touched_check bundle targets =
     (let changed = changed_file_paths bundle;
          touched = py_sorted (filter (\<lambda>t. list_ex (\<lambda>p. declared_target_matches p t) changed) targets)
      in mechanism_gate_check ''changed_files_manifest_primary_targets_touched'' (pass_fail (touched \<noteq> []))
           (if touched \<noteq> [] then ''changed files touch primary targets: '' @ py_join '', '' touched
            else ''changed files do not touch any primary target; expected_primary_targets='' @
                 list_text targets @ ''; changed_files='' @ list_text changed @
                 ''; test/report/generated-only changes require a scoped mechanism change''))"

subsection \<open>Event order and phase checks\<close>

definition event_sequence_state :: "pydict \<Rightarrow> string \<Rightarrow> event_sequence res" where
  "event_sequence_state ledger phase =
     (case map_of MECHANISM_EVENT_SEQUENCE_BY_PHASE phase of
        None \<Rightarrow> Inl (ValueError (''unsupported mechanism validation phase: '' @ phase @ ''; supported='' @
                  py_join '', '' SUPPORTED_MECHANISM_PHASES))
      | Some expected \<Rightarrow>
          bindr (ditem MECHANISM_TERMINAL_EVENT_BY_PHASE phase) (\<lambda>terminal.
          bindr (py_iter (dget ledger ''events'' (PyList []))) (\<lambda>events.
            let observed = str_fields ''type'' events;
                required = filter (\<lambda>t. t \<in> set expected) observed
            in Inr \<lparr>observed_event_types = observed, observed_required_event_types = required,
                    missing_event_types = filter (\<lambda>t. t \<notin> set observed) expected,
                    expected_sequence = expected, expected_terminal_event = terminal,
                    order_pass = (required = expected),
                    terminal_pass = (required \<noteq> [] \<and> last required = terminal \<and>
                      \<not> (phase \<noteq> ''mechanism_finalized'' \<and> ''finalized'' \<in> set observed))\<rparr>)))"

definition build_event_sequence_phase_checks :: "artifact_bundle \<Rightarrow> string \<Rightarrow> pydict list res" where
  "build_event_sequence_phase_checks bundle phase =
     bindr (event_sequence_state (run_ledger_report bundle) phase) (\<lambda>st.
       let req = observed_required_event_types st; terminal = expected_terminal_event st in
       Inr
         [mechanism_phase_check ''mechanism_run_required_events_present'' (missing_event_types st = [])
            (if missing_event_types st = []
             then ''run-ledger includes required event sequence through '' @ terminal
             else ''missing event types: '' @ py_join '', '' (missing_event_types st)),
          mechanism_phase_check ''mechanism_run_event_order'' (order_pass st)
            (if order_pass st
             then ''run-ledger event order matches canonical sequence through '' @ terminal
             else ''observed required event order='' @ list_text req),
          mechanism_phase_check ''mechanism_run_terminal_event'' (terminal_pass st)
            (if terminal_pass st then ''last required run-ledger event is '' @ terminal
             else ''expected terminal event '' @ terminal @ '', observed '' @
                  (if req \<noteq> [] then last req else ''none'') @ ''; all events: '' @
                  (if observed_event_types st = [] \<or> py_join '', '' (observed_event_types st) = []
                   then ''none'' else py_join '', '' (observed_event_types st)))])"

text \<open>\<open>value >= 1\<close>.\<close>

definition ge_one :: "pyval \<Rightarrow> bool res" where
  "ge_one v = (case py_num v of Some r \<Rightarrow> Inr (r \<ge> 1) | None \<Rightarrow> Inl TypeError)"

definition build_test_surface_phase_check :: "artifact_bundle \<Rightarrow> bool \<Rightarrow> pydict res" where
  "build_test_surface_phase_check bundle ready =
     (let bf = report_target_list (baseline_mechanism_report bundle) ''test_files'';
          cf = report_target_list (candidate_mechanism_report bundle) ''test_files'';
          count = (\<lambda>r. py_get (dget r ''structural_metrics'' (PyDict [])) ''test_case_count'' (PyInt 0))
      in bindr (count (baseline_mechanism_report bundle)) (\<lambda>bc.
         bindr (count (candidate_mechanism_report bundle)) (\<lambda>cc.
         bindr (if bf \<noteq> [] \<and> cf \<noteq> []
                then bindr (ge_one bc) (\<lambda>b. if b then ge_one cc else Inr False) else Inr False) (\<lambda>present.
           Inr (mechanism_phase_check ''mechanism_run_test_surface_present'' (\<not> ready \<or> present)
             (if \<not> ready then ''skipped until baseline/candidate mechanism artifacts are complete''
              else if present
              then ''baseline and candidate mechanism assessments both include at least one focused test file and test case''
              else ''completed mechanism runs should capture at least one focused test file and '' @
                   ''discovered test case in both baseline and candidate mechanism assessments; '' @
                   ''baseline_files='' @ nat_text (length bf) @ '', candidate_files='' @ nat_text (length cf) @
                   '', baseline_test_case_count='' @ py_str bc @
                   '', candidate_test_case_count='' @ py_str cc))))))"

definition build_manifest_alignment_phase_check :: "artifact_bundle \<Rightarrow> bool \<Rightarrow> pydict res" where
  "build_manifest_alignment_phase_check bundle ready =
     bindr (manifest_declared_targets bundle) (\<lambda>m.
       let c = candidate_declared_targets bundle; align = (m = c)
       in Inr (mechanism_phase_check ''mechanism_run_changed_files_declared_targets_align'' (\<not> ready \<or> align)
            (if \<not> ready then ''skipped until mechanism inputs are complete''
             else if align
             then ''changed-files manifest declared targets align with the candidate mechanism assessment''
             else ''manifest primary='' @ list_text (primary_targets m) @ '', candidate primary='' @
                  list_text (primary_targets c) @ ''; manifest supporting='' @
                  list_text (supporting_targets m) @ '', candidate supporting='' @
                  list_text (supporting_targets c) @ ''; manifest tests='' @
                  list_text (test_files m) @ '', candidate tests='' @ list_text (test_files c))))"

definition build_changed_files_scope_phase_check :: "artifact_bundle \<Rightarrow> bool \<Rightarrow> pydict res" where
  "build_changed_files_scope_phase_check bundle ready =
     bindr (changed_files_scope_state bundle None) (\<lambda>st.
       let out = cs_out_of_scope_changes st
       in Inr (mechanism_phase_check ''mechanism_run_changed_files_in_scope'' (\<not> ready \<or> out = [])
            (if \<not> ready then ''skipped until mechanism inputs are complete''
             else if out = []
             then ''changed-files manifest stays within the declared primary/supporting/test target set''
             else ''out-of-scope changed files: '' @ py_join '', '' out)))"

subsection \<open>Containment of the changed files\<close>

lemma normpath_rooted:
  assumes "raw \<noteq> []" and "hd raw = slash"
  shows "py_startswith (normpath raw) ''/''"
proof -
  obtain rt rest where sr: "splitroot raw = (rt, rest)" by (cases "splitroot raw")
  have "rt \<noteq> []" using assms sr by (cases raw; cases "tl raw"; cases "tl (tl raw)") (auto split: if_splits)
  then have "hd rt = slash" using splitroot_root [OF sr] by auto
  then show ?thesis using assms(1) sr \<open>rt \<noteq> []\<close>
    by (cases rt) (auto simp: normpath_def py_startswith_def slash_def Let_def)
qed

lemma normpath_contained:
  assumes "raw \<noteq> []" and ok: "normpath raw \<noteq> ''.''" "normpath raw \<noteq> ''..''"
    "\<not> py_startswith (normpath raw) ''../''" "\<not> py_startswith (normpath raw) ''/''"
  shows "contained_path (normpath raw)"
proof -
  have hd: "hd raw \<noteq> slash" using normpath_rooted assms(1) ok(4) by blast
  define ws where "ws = norm_components False (py_split slash raw)"
  have "ws \<noteq> []" and "normpath raw = py_join [slash] ws"
    using ok(1) normpath_relative [OF assms(1) hd] by (auto simp: ws_def Let_def split: if_splits)
  moreover have "norm_form False ws" "\<forall>w \<in> set ws. slash \<notin> set w"
    by (auto simp: ws_def norm_components_norm_form dest: norm_components_split_free)
  ultimately show ?thesis using ok norm_form_relative_contained by blast
qed

lemma changed_path_contained:
  assumes "\<not> py_startswith (normalize_changed_file_path s) INVALID_PREFIX"
  shows "contained_path (normalize_changed_file_path s)"
proof -
  define raw where "raw = unslash_backslash (py_strip s)"
  have pre: "py_startswith (INVALID_PREFIX @ t) INVALID_PREFIX" for t
    by (simp add: py_startswith_prefix)
  have "py_strip s \<noteq> []"
    using assms pre by (auto simp: normalize_changed_file_path_def normalize_repo_path_text_def Let_def)
  then have raw: "raw \<noteq> []" by (simp add: raw_def unslash_backslash_def)
  have n: "normalize_changed_file_path s =
      (if py_startswith (normpath raw) INVALID_PREFIX then normpath raw
       else if normpath raw = ''.'' \<or> normpath raw = ''..'' \<or> py_startswith (normpath raw) ''../'' \<or>
               py_startswith (normpath raw) ''/'' then INVALID_PREFIX @ normpath raw
       else normpath raw)"
    using \<open>py_strip s \<noteq> []\<close>
    by (simp add: normalize_changed_file_path_def normalize_repo_path_text_def Let_def raw_def)
  have "\<not> py_startswith (normpath raw) INVALID_PREFIX"
    using assms n by (metis)
  moreover have "\<not> (normpath raw = ''.'' \<or> normpath raw = ''..'' \<or> py_startswith (normpath raw) ''../'' \<or>
               py_startswith (normpath raw) ''/'')"
    using assms n pre calculation by metis
  ultimately show ?thesis using n normpath_contained [OF raw] by simp
qed

lemma rstrip_slashes_prefix:
  assumes "last p \<noteq> slash" and "p \<noteq> []" and "prefix p s"
  shows "prefix p (rstrip_slashes s)"
proof -
  obtain u where s: "s = p @ u" using assms(3) by (auto simp: prefix_def)
  have "dropWhile (\<lambda>c. c = slash) (rev p) = rev p"
    using assms(1,2) by (cases p rule: rev_cases) auto
  then show ?thesis
    by (auto simp: rstrip_slashes_def s dropWhile_append)
qed

lemma rstrip_slashes_contained:
  assumes "contained_path p"
  shows "rstrip_slashes p = p"
proof (cases p rule: rev_cases)
  case (snoc q c)
  have "c \<noteq> slash"
  proof
    assume "c = slash"
    then have "py_split slash p = py_split slash q @ [ [] ]"
      using py_split_concat [of slash q "[]"] snoc by simp
    with assms show False by (simp add: contained_path_def plain_component_def)
  qed
  then show ?thesis by (simp add: rstrip_slashes_def snoc)
qed (simp add: rstrip_slashes_def)

lemma declared_target_matches_normal:
  "declared_target_matches p t \<Longrightarrow>
     \<not> py_startswith p INVALID_PREFIX \<and> \<not> py_startswith t INVALID_PREFIX"
  using rstrip_slashes_prefix [of INVALID_PREFIX t]
  by (auto simp: declared_target_matches_def Let_def py_startswith_prefix INVALID_PREFIX_def slash_def)

interpretation declared_scope: path_scope declared_target_matches rstrip_slashes
  by unfold_locales (metis declared_target_matches_def component_prefix_text)

lemma gate_check_status [simp]:
  "dget (mechanism_gate_check i s d) ''status'' PyNone = PyStr s"
  by (simp add: mechanism_gate_check_def dget_def)

lemma pass_fail_PASS [simp]: "pass_fail b = ''PASS'' \<longleftrightarrow> b" "pass_fail b = ''FAIL'' \<longleftrightarrow> \<not> b"
  by (simp_all add: pass_fail_def)

lemma str_fields_in:
  "PyDict d \<in> set es \<Longrightarrow> dget d k PyNone = PyStr s \<Longrightarrow> s \<in> set (str_fields k es)"
  by (force simp: str_fields_def image_iff)

lemma scope_state_clean:
  assumes "changed_files_scope_state bundle scope = Inr st" and "cs_out_of_scope_changes st = []"
    and "p \<in> set (cs_changed_paths st)"
  shows "contained_path p \<and> (\<exists>t \<in> set (cs_declared_scope st). declared_target_matches p t)"
proof -
  have ch: "cs_changed_paths st = changed_file_paths bundle"
    and m: "\<exists>t \<in> set (cs_declared_scope st). declared_target_matches p t"
    using assms by (auto simp: changed_files_scope_state_def bindr_eq_Inr Let_def filter_empty_conv
        path_in_declared_scope_def list_ex_iff)
  obtain s where "p = normalize_changed_file_path s"
    using assms(3) ch by (auto simp: changed_file_paths_def split: pyval.splits)
  with m declared_target_matches_normal changed_path_contained show ?thesis by blast
qed

lemma scope_gate_contained:
  assumes "build_changed_files_scope_gate_check bundle = Inr c"
    and "dget c ''status'' PyNone = PyStr ''PASS''"
    and "dget (changed_files_manifest_report bundle) ''files'' (PyList []) = PyList files"
    and "PyDict d \<in> set files" and "dget d ''path'' PyNone = PyStr s"
    and "manifest_declared_targets bundle = Inr m"
  shows "\<not> py_startswith (normalize_changed_file_path s) INVALID_PREFIX \<and>
    contained_path (normalize_changed_file_path s) \<and>
    (\<exists>t \<in> set (primary_targets m @ supporting_targets m @ test_files m).
       contained_path (normalize_changed_file_path t) \<and>
       prefix (py_split slash (normalize_changed_file_path t))
              (py_split slash (normalize_changed_file_path s)))"
proof -
  let ?p = "normalize_changed_file_path s"
  obtain st where st: "changed_files_scope_state bundle None = Inr st"
    and clean: "cs_out_of_scope_changes st = []"
    using assms(1,2) by (auto simp: build_changed_files_scope_gate_check_def bindr_eq_Inr Let_def)
  have scope: "set (cs_declared_scope st) =
      normalize_changed_file_path ` set (primary_targets m @ supporting_targets m @ test_files m)"
    and ch: "cs_changed_paths st = changed_file_paths bundle"
    using st assms(6) by (auto simp: changed_files_scope_state_def bindr_eq_Inr Let_def)
  have "?p \<in> set (cs_changed_paths st)"
    using ch assms(3) str_fields_in [OF assms(4,5)] by (simp add: changed_file_paths_def)
  from scope_state_clean [OF st clean this] obtain t where
    p: "contained_path ?p" and t: "t \<in> set (primary_targets m @ supporting_targets m @ test_files m)"
    and match: "declared_target_matches ?p (normalize_changed_file_path t)"
    using scope by auto
  have ct: "contained_path (normalize_changed_file_path t)"
    using declared_target_matches_normal [OF match] changed_path_contained by blast
  have "prefix (py_split slash (normalize_changed_file_path t)) (py_split slash ?p)"
    using declared_scope.match_component_prefix [OF match] rstrip_slashes_contained [OF ct] by simp
  with p ct t declared_target_matches_normal [OF match] show ?thesis by blast
qed

subsection \<open>Properties\<close>

text \<open>A bundle with one changed file, the sample input of the witnesses.\<close>

definition sample_bundle :: artifact_bundle where
  "sample_bundle =
     \<lparr>baseline_eval_report = [], candidate_eval_report = [],
      baseline_mechanism_contract_eval_report = None, candidate_mechanism_contract_eval_report = None,
      baseline_lint_report = [], candidate_lint_report = [],
      baseline_mechanism_report = [], candidate_mechanism_report = [],
      changed_files_manifest_report =
        [(''files'', PyList [PyDict [(''path'', PyStr ''src//pkg/../a.py'')]]),
         (''declared_targets'', PyDict [(''primary_targets'', PyList [PyStr ''src/''])])],
      run_ledger_report = []\<rparr>"

text \<open>
  When the changed-files scope check passes, every file entry of the manifest that carries
  a path names a relative path without \<open>.\<close>, \<open>..\<close> or empty components that lies,
  component by component, under a declared primary, supporting or test target.
\<close>

theorem changed_files_scope_contained:
  assumes "build_changed_files_scope_gate_check bundle = Inr c"
    and "dget c ''status'' PyNone = PyStr ''PASS''"
    and "dget (changed_files_manifest_report bundle) ''files'' (PyList []) = PyList files"
    and "PyDict d \<in> set files" and "dget d ''path'' PyNone = PyStr s"
    and "manifest_declared_targets bundle = Inr m"
  shows "contained_path (normalize_changed_file_path s) \<and>
    (\<exists>t \<in> set (primary_targets m @ supporting_targets m @ test_files m).
       contained_path (normalize_changed_file_path t) \<and>
       prefix (py_split slash (normalize_changed_file_path t))
              (py_split slash (normalize_changed_file_path s)))"
  using scope_gate_contained [OF assms] by blast

theorem changed_files_scope_contained_witness:
  "contained_path (normalize_changed_file_path ''src//pkg/../a.py'') \<and>
   (\<exists>t \<in> {''src/''}. contained_path (normalize_changed_file_path t) \<and>
      prefix (py_split slash (normalize_changed_file_path t))
             (py_split slash (normalize_changed_file_path ''src//pkg/../a.py'')))"
proof -
  let ?c = "mechanism_gate_check ''changed_files_manifest_scope'' ''PASS''
      ''all changed files stay within the declared primary/supporting/test target set''"
  let ?m = "\<lparr>primary_targets = [''src/''], supporting_targets = [], test_files = []\<rparr>"
  have "build_changed_files_scope_gate_check sample_bundle = Inr ?c"
    and "dget (changed_files_manifest_report sample_bundle) ''files'' (PyList []) =
           PyList [PyDict [(''path'', PyStr ''src//pkg/../a.py'')]]"
    and "manifest_declared_targets sample_bundle = Inr ?m"
    by code_simp+
  note facts = this
  from changed_files_scope_contained [OF facts(1) gate_check_status facts(2) _ _ facts(3),
      of "[(''path'', PyStr ''src//pkg/../a.py'')]" "''src//pkg/../a.py''"]
  show ?thesis by (simp add: dget_def)
qed

text \<open>
  The behavior-delta consistency check passes exactly when the delta targets are the
  normalised manifest paths, with multiplicity and in any order, and the summary counts them.
\<close>

theorem behavior_delta_consistency_iff:
  assumes "dget (changed_files_manifest_report bundle) ''files'' (PyList []) = PyList files"
    and "dget report ''deltas'' (PyList []) = PyList deltas"
    and "dget report ''summary'' (PyDict []) = PyDict summary"
  shows "build_behavior_delta_consistency_check bundle (Some report) =
      Inr (mechanism_gate_check ''behavior_delta_consistency'' ''PASS''
             ''behavior-delta targets align with changed-files manifest'') \<longleftrightarrow>
    mset (map normalize_changed_file_path (str_fields ''path'' files)) = mset (str_fields ''target'' deltas) \<and>
    py_num (dget summary ''changed_file_count'' PyNone) = Some (of_nat (length (str_fields ''path'' files)))"
  using assms
  by (auto simp: build_behavior_delta_consistency_check_def changed_file_paths_def py_sorted_eq_iff
      mechanism_gate_check_def py_eq_int_def Let_def)

theorem behavior_delta_consistency_iff_witness:
  "build_behavior_delta_consistency_check sample_bundle
     (Some [(''deltas'', PyList [PyDict [(''target'', PyStr ''src/a.py'')]]),
            (''summary'', PyDict [(''changed_file_count'', PyInt 1)])]) =
   Inr (mechanism_gate_check ''behavior_delta_consistency'' ''PASS''
          ''behavior-delta targets align with changed-files manifest'')"
proof -
  have "normalize_changed_file_path ''src//pkg/../a.py'' = ''src/a.py''" by code_simp
  then show ?thesis
    by (subst behavior_delta_consistency_iff)
      (auto simp: sample_bundle_def dget_def str_fields_def)
qed

text \<open>
  The event-order check and the terminal-event check together pass exactly when the
  canonical events, \<open>finalized\<close> included, occur in the ledger as precisely the sequence of
  the phase: each once, in order, nothing finalized before the finalized phase.
\<close>

theorem event_order_exact:
  assumes "event_sequence_state ledger phase = Inr st"
  shows "order_pass st \<and> terminal_pass st \<longleftrightarrow>
    filter (\<lambda>t. t \<in> set MECHANISM_FINALIZED_EVENT_SEQUENCE) (observed_event_types st) = expected_sequence st"
proof -
  have split: "filter (\<lambda>t. t \<in> set (xs @ [x])) ys = xs \<longleftrightarrow>
      filter (\<lambda>t. t \<in> set xs) ys = xs \<and> x \<notin> set ys" if "x \<notin> set xs" for x :: string and xs ys
  proof
    assume e: "filter (\<lambda>t. t \<in> set (xs @ [x])) ys = xs"
    have "x \<in> set ys \<Longrightarrow> x \<in> set (filter (\<lambda>t. t \<in> set (xs @ [x])) ys)" by simp
    then have "x \<notin> set ys" using that e by metis
    then have "filter (\<lambda>t. t \<in> set (xs @ [x])) ys = filter (\<lambda>t. t \<in> set xs) ys"
      by (intro filter_cong) auto
    with e \<open>x \<notin> set ys\<close> show "filter (\<lambda>t. t \<in> set xs) ys = xs \<and> x \<notin> set ys" by simp
  next
    assume e: "filter (\<lambda>t. t \<in> set xs) ys = xs \<and> x \<notin> set ys"
    then have "filter (\<lambda>t. t \<in> set (xs @ [x])) ys = filter (\<lambda>t. t \<in> set xs) ys"
      by (intro filter_cong) auto
    with e show "filter (\<lambda>t. t \<in> set (xs @ [x])) ys = xs" by simp
  qed
  have new: "''finalized'' \<notin> set MECHANISM_EVALUATED_EVENT_SEQUENCE"
    and last: "MECHANISM_EVALUATED_EVENT_SEQUENCE \<noteq> []"
      "last MECHANISM_EVALUATED_EVENT_SEQUENCE = ''promotion_evaluated''"
    by code_simp+
  have ph: "phase = ''mechanism_evaluated'' \<or> phase = ''mechanism_finalized''"
    using assms by (auto simp: event_sequence_state_def MECHANISM_EVENT_SEQUENCE_BY_PHASE_def
        split: option.splits if_splits)
  then show ?thesis
    using assms split [OF new] last
    by (auto simp: event_sequence_state_def MECHANISM_EVENT_SEQUENCE_BY_PHASE_def ditem_def
        MECHANISM_TERMINAL_EVENT_BY_PHASE_def bindr_eq_Inr Let_def MECHANISM_FINALIZED_EVENT_SEQUENCE_def)
qed

theorem event_order_exact_witness:
  "\<not> (case event_sequence_state
        [(''events'', PyList [PyDict [(''type'', PyStr ''finalized'')]])] ''mechanism_evaluated'' of
        Inr st \<Rightarrow> order_pass st \<and> terminal_pass st | Inl _ \<Rightarrow> True)"
proof -
  obtain st where st: "event_sequence_state
        [(''events'', PyList [PyDict [(''type'', PyStr ''finalized'')]])] ''mechanism_evaluated'' = Inr st"
    and o: "observed_event_types st = [''finalized'']"
    and e: "expected_sequence st = MECHANISM_EVALUATED_EVENT_SEQUENCE"
    by (simp add: event_sequence_state_def MECHANISM_EVENT_SEQUENCE_BY_PHASE_def dget_def ditem_def
        MECHANISM_TERMINAL_EVENT_BY_PHASE_def str_fields_def Let_def)
  have "filter (\<lambda>t. t \<in> set MECHANISM_FINALIZED_EVENT_SEQUENCE) [''finalized''] \<noteq>
          MECHANISM_EVALUATED_EVENT_SEQUENCE"
    by code_simp
  then show ?thesis by (simp only: st sum.case event_order_exact [OF st] o e not_False_eq_True)
qed

end
