(* ===== verification/MechanismState.thy ===== *)
theory MechanismState
  imports RunValidation
begin

section \<open>The state of a mechanism promotion\<close>

text \<open>
  \<open>mechanism/promotion_gate_mechanism_state_runtime.py\<close>: the inputs of the mechanism gate and
  the state computed from them: target validation, score, lint, structural complexity with
  the equal-score line budget, test coverage, risk, the secondary axes and signoff, and the
  two decision functions that read this state. Loading and schema-validating an artifact
  (\<open>validate_json_artifact\<close>) is a parameter.
\<close>

subsection \<open>Inputs\<close>

record gate_inputs =
  gi_baseline_eval_report :: pydict
  gi_baseline_eval_rel :: string
  gi_candidate_eval_report :: pydict
  gi_candidate_eval_rel :: string
  gi_baseline_lint_report :: pydict
  gi_baseline_lint_rel :: string
  gi_candidate_lint_report :: pydict
  gi_candidate_lint_rel :: string
  gi_baseline_mechanism_report :: pydict
  gi_baseline_mechanism_rel :: string
  gi_candidate_mechanism_report :: pydict
  gi_candidate_mechanism_rel :: string
  gi_changed_files_manifest_report :: pydict
  gi_changed_files_manifest_rel :: string
  gi_run_ledger_report :: pydict
  gi_run_ledger_rel :: string
  gi_behavior_delta_report :: "pydict option"
  gi_behavior_delta_rel :: string
  gi_baseline_contract_eval_report :: "pydict option"
  gi_baseline_contract_eval_rel :: string
  gi_candidate_contract_eval_report :: "pydict option"
  gi_candidate_contract_eval_rel :: string

record gate_input_request =
  rq_baseline_eval_path :: string
  rq_candidate_eval_path :: string
  rq_baseline_lint_path :: string
  rq_candidate_lint_path :: string
  rq_baseline_mechanism_path :: string
  rq_candidate_mechanism_path :: string
  rq_changed_files_manifest_path :: string
  rq_run_ledger_path :: string
  rq_behavior_delta_path :: "string option"
  rq_baseline_contract_eval_path :: "string option"
  rq_candidate_contract_eval_path :: "string option"

definition EVAL_REPORT_SCHEMA :: string where
  "EVAL_REPORT_SCHEMA = ''ops/schemas/eval-report.schema.json''"
definition LINT_REPORT_SCHEMA :: string where
  "LINT_REPORT_SCHEMA = ''ops/schemas/lint-report.schema.json''"
definition MECHANISM_REPORT_SCHEMA :: string where
  "MECHANISM_REPORT_SCHEMA = ''ops/schemas/mechanism-assessment-report.schema.json''"
definition CHANGED_FILES_MANIFEST_SCHEMA :: string where
  "CHANGED_FILES_MANIFEST_SCHEMA = ''ops/schemas/changed-files-manifest.schema.json''"
definition RUN_LEDGER_SCHEMA :: string where
  "RUN_LEDGER_SCHEMA = ''ops/schemas/run-ledger.schema.json''"
definition BEHAVIOR_DELTA_SCHEMA :: string where
  "BEHAVIOR_DELTA_SCHEMA = ''ops/schemas/behavior-delta.schema.json''"

definition MECHANISM_CONTRACT_EVAL_ARTIFACT_KIND :: string where
  "MECHANISM_CONTRACT_EVAL_ARTIFACT_KIND = ''mechanism_contract_eval_report''"

definition require_mechanism_contract_eval_identity :: "pydict \<Rightarrow> string \<Rightarrow> string \<Rightarrow> unit res" where
  "require_mechanism_contract_eval_identity report rel phase =
     (let kind = dget report ''artifact_kind'' PyNone; ph = dget report ''phase'' PyNone in
      if kind \<noteq> PyStr MECHANISM_CONTRACT_EVAL_ARTIFACT_KIND
      then Inl (PromotionGateArtifactSchemaError (rel @ '': artifact_kind='' @ py_repr kind @
             ''; expected '' @ str_repr MECHANISM_CONTRACT_EVAL_ARTIFACT_KIND))
      else if ph \<noteq> PyStr phase
      then Inl (PromotionGateArtifactSchemaError (rel @ '': phase='' @ py_repr ph @
             ''; expected '' @ str_repr phase))
      else Inr ())"

text \<open>The loader: path and schema to the validated report and its repository path.\<close>

type_synonym artifact_loader = "string \<Rightarrow> string \<Rightarrow> (pydict \<times> string) res"

definition load_mechanism_contract_eval_pair ::
  "artifact_loader \<Rightarrow> gate_input_request \<Rightarrow> (pydict option \<times> string \<times> pydict option \<times> string) res" where
  "load_mechanism_contract_eval_pair load rq =
     (let bp = rq_baseline_contract_eval_path rq; cp = rq_candidate_contract_eval_path rq in
      if str_truth bp \<noteq> str_truth cp
      then Inl (PromotionGateUsageError ''mechanism contract eval requires both baseline and candidate reports'')
      else if \<not> str_truth bp \<or> \<not> str_truth cp then Inr (None, '''', None, '''')
      else bindr (load (str_or bp []) EVAL_REPORT_SCHEMA) (\<lambda>(b, brel).
           bindr (load (str_or cp []) EVAL_REPORT_SCHEMA) (\<lambda>(c, crel).
           bindr (require_mechanism_contract_eval_identity b brel ''baseline'') (\<lambda>_.
           bindr (require_mechanism_contract_eval_identity c crel ''candidate'') (\<lambda>_.
             Inr (Some b, brel, Some c, crel))))))"

definition collect_mechanism_gate_inputs_from_request ::
  "artifact_loader \<Rightarrow> gate_input_request \<Rightarrow> gate_inputs res" where
  "collect_mechanism_gate_inputs_from_request load rq =
     bindr (load (rq_baseline_eval_path rq) EVAL_REPORT_SCHEMA) (\<lambda>(be, be_rel).
     bindr (load (rq_candidate_eval_path rq) EVAL_REPORT_SCHEMA) (\<lambda>(ce, ce_rel).
     bindr (load_mechanism_contract_eval_pair load rq) (\<lambda>(bk, bk_rel, ck, ck_rel).
     bindr (load (rq_baseline_lint_path rq) LINT_REPORT_SCHEMA) (\<lambda>(bl, bl_rel).
     bindr (load (rq_candidate_lint_path rq) LINT_REPORT_SCHEMA) (\<lambda>(cl, cl_rel).
     bindr (load (rq_baseline_mechanism_path rq) MECHANISM_REPORT_SCHEMA) (\<lambda>(bm, bm_rel).
     bindr (load (rq_candidate_mechanism_path rq) MECHANISM_REPORT_SCHEMA) (\<lambda>(cm, cm_rel).
     bindr (load (rq_changed_files_manifest_path rq) CHANGED_FILES_MANIFEST_SCHEMA) (\<lambda>(mf, mf_rel).
     bindr (load (rq_run_ledger_path rq) RUN_LEDGER_SCHEMA) (\<lambda>(rl, rl_rel).
     bindr (if str_truth (rq_behavior_delta_path rq)
            then bindr (load (str_or (rq_behavior_delta_path rq) []) BEHAVIOR_DELTA_SCHEMA)
                   (\<lambda>(d, rel). Inr (Some d, rel))
            else Inr (None, '''')) (\<lambda>(bd, bd_rel).
       Inr \<lparr>gi_baseline_eval_report = be, gi_baseline_eval_rel = be_rel,
            gi_candidate_eval_report = ce, gi_candidate_eval_rel = ce_rel,
            gi_baseline_lint_report = bl, gi_baseline_lint_rel = bl_rel,
            gi_candidate_lint_report = cl, gi_candidate_lint_rel = cl_rel,
            gi_baseline_mechanism_report = bm, gi_baseline_mechanism_rel = bm_rel,
            gi_candidate_mechanism_report = cm, gi_candidate_mechanism_rel = cm_rel,
            gi_changed_files_manifest_report = mf, gi_changed_files_manifest_rel = mf_rel,
            gi_run_ledger_report = rl, gi_run_ledger_rel = rl_rel,
            gi_behavior_delta_report = bd, gi_behavior_delta_rel = bd_rel,
            gi_baseline_contract_eval_report = bk, gi_baseline_contract_eval_rel = bk_rel,
            gi_candidate_contract_eval_report = ck, gi_candidate_contract_eval_rel = ck_rel\<rparr>))))))))))"

text \<open>The attributes \<open>normalize_mechanism_artifact_bundle\<close> reads from the inputs object.\<close>

definition opt_value :: "pydict option \<Rightarrow> pyval" where
  "opt_value v = (case v of Some d \<Rightarrow> PyDict d | None \<Rightarrow> PyNone)"

definition inputs_attributes :: "gate_inputs \<Rightarrow> pydict" where
  "inputs_attributes i =
     [(''baseline_eval_report'', PyDict (gi_baseline_eval_report i)),
      (''candidate_eval_report'', PyDict (gi_candidate_eval_report i)),
      (''baseline_lint_report'', PyDict (gi_baseline_lint_report i)),
      (''candidate_lint_report'', PyDict (gi_candidate_lint_report i)),
      (''baseline_mechanism_report'', PyDict (gi_baseline_mechanism_report i)),
      (''candidate_mechanism_report'', PyDict (gi_candidate_mechanism_report i)),
      (''changed_files_manifest_report'', PyDict (gi_changed_files_manifest_report i)),
      (''run_ledger_report'', PyDict (gi_run_ledger_report i)),
      (''baseline_mechanism_contract_eval_report'', opt_value (gi_baseline_contract_eval_report i)),
      (''candidate_mechanism_contract_eval_report'', opt_value (gi_candidate_contract_eval_report i))]"

subsection \<open>Decisions that read the state\<close>

definition mechanism_equal_score_decision ::
  "bool \<Rightarrow> pyval \<Rightarrow> pyval \<Rightarrow> bool \<Rightarrow> bool \<Rightarrow> pyval res" where
  "mechanism_equal_score_decision score_equal mutation_policy equal_score_policy
       selected_non_regression equal_score_secondary_eligibility =
     (if \<not> score_equal then Inr PyNone
      else bindr (py_item mutation_policy ''default_requires_eval_improvement'') (\<lambda>req.
        if \<not> py_truth req then Inr PyNone
        else bindr (py_item equal_score_policy ''require_secondary_non_regression'') (\<lambda>nr.
          if py_truth nr \<and> \<not> selected_non_regression then Inr (PyStr ''DISCARD'')
          else bindr (py_item equal_score_policy ''require_any_secondary_improvement'') (\<lambda>imp.
            if py_truth imp \<and> \<not> equal_score_secondary_eligibility then Inr (PyStr ''DISCARD'')
            else Inr PyNone))))"

definition mechanism_signoff_decision :: "pyval \<Rightarrow> pyval \<Rightarrow> pyval res" where
  "mechanism_signoff_decision decision_rules signoff_status =
     (if signoff_status = PyStr ''rejected'' then Inr (PyStr ''DISCARD'')
      else bindr (py_item decision_rules ''hold_on_signoff_pending'') (\<lambda>h.
        if py_truth h \<and> signoff_status = PyStr ''pending'' then Inr (PyStr ''HOLD'')
        else bindr (py_item decision_rules ''promote_only_if_signoff_approved'') (\<lambda>p.
          if py_truth p \<and> signoff_status \<noteq> PyStr ''approved'' then Inr (PyStr ''HOLD'')
          else Inr PyNone)))"

subsection \<open>Component states\<close>

record target_validation_state =
  tv_invalid_targets :: "string list"
  tv_missing_targets :: "string list"

record score_state =
  ss_baseline_eval_pass :: bool
  ss_candidate_eval_pass :: bool
  ss_eval_score_source :: string
  ss_baseline_score_report :: string
  ss_candidate_score_report :: string
  ss_baseline_score :: int
  ss_candidate_score :: int
  ss_candidate_score_report_pass :: bool
  ss_global_baseline_score :: int
  ss_global_candidate_score :: int
  ss_global_eval_non_regression :: bool
  ss_global_eval_new_failure_count :: nat
  ss_score_improves :: bool
  ss_score_equal :: bool
  ss_improvement_check_status :: string

record lint_state =
  ls_baseline_lint_pass :: bool
  ls_candidate_lint_pass :: bool
  ls_non_regression :: bool
  ls_improves :: bool

record line_budget_state =
  lb_nonempty_line_growth :: int
  lb_added_test_functions :: int
  lb_added_test_guardrails :: int
  lb_allowed_line_growth :: int
  lb_within_budget :: bool

record structural_state =
  st_baseline_metrics :: pyval
  st_candidate_metrics :: pyval
  st_line_budget :: line_budget_state
  st_non_regression :: bool
  st_improves :: bool

record test_coverage_state =
  tc_baseline_file_count :: int
  tc_candidate_file_count :: int
  tc_baseline_case_count :: int
  tc_candidate_case_count :: int
  tc_baseline_guardrail_count :: int
  tc_candidate_guardrail_count :: int
  tc_non_regression :: bool
  tc_increases :: bool

record risk_state =
  rk_baseline_complexity_score :: int
  rk_candidate_complexity_score :: int
  rk_baseline_risk_flags :: pyval
  rk_candidate_risk_flags :: pyval

record secondary_axis_state =
  sx_selected_axes :: "string list"
  sx_failed_axes :: "string list"
  sx_improved_axes :: "string list"
  sx_selected_non_regression :: bool
  sx_selected_any_improvement :: bool
  sx_equal_score_allowed :: bool
  sx_equal_score_secondary_eligibility :: bool

record signoff_state =
  so_status :: pyval
  so_check_status :: string

definition target_validation_of ::
  "vault_env \<Rightarrow> pyval \<Rightarrow> string list \<Rightarrow> target_validation_state res" where
  "target_validation_of env artifact_spec targets =
     bindr (filterr (\<lambda>t. bindr (mechanism_target_matches artifact_spec t) (\<lambda>b. Inr (\<not> b))) targets) (\<lambda>bad.
       Inr \<lparr>tv_invalid_targets = py_sorted bad,
            tv_missing_targets = py_sorted (filter (\<lambda>t. \<not> ve_exists env t) targets)\<rparr>)"

text \<open>The failing results of one page; \<open>_eval_failure_keys\<close> is the set of these pairs.\<close>

definition result_failed :: "pyval \<Rightarrow> bool" where
  "result_failed r = (is_dict r \<and> dget (the_dict r) ''pass'' PyNone = PyBool False)"

definition or_unknown :: "pyval \<Rightarrow> string" where
  "or_unknown v = py_str (py_or v (PyStr ''unknown''))"

definition failed_results :: "pydict \<Rightarrow> (string \<times> string) list res" where
  "failed_results page =
     bindr (py_iter (dget page ''results'' (PyList []))) (\<lambda>results.
       Inr (map (\<lambda>r. (or_unknown (dget page ''page'' PyNone), or_unknown (dget (the_dict r) ''eval'' PyNone)))
              (filter result_failed results)))"

definition eval_failure_keys :: "pydict \<Rightarrow> (string \<times> string) list res" where
  "eval_failure_keys report =
     bindr (py_iter (dget report ''pages'' (PyList []))) (\<lambda>pages.
     bindr (mapr (\<lambda>p. failed_results (the_dict p)) (filter is_dict pages)) (\<lambda>keys.
       Inr (remdups (concat keys))))"

definition MECHANISM_CONTRACT_EVAL_SCORE_SOURCE :: string where
  "MECHANISM_CONTRACT_EVAL_SCORE_SOURCE = ''mechanism_contract_eval''"

definition MISSING_MECHANISM_CONTRACT_EVAL_SCORE_SOURCE :: string where
  "MISSING_MECHANISM_CONTRACT_EVAL_SCORE_SOURCE = ''mechanism_contract_eval_missing''"

definition score_source_reports :: "artifact_bundle \<Rightarrow> string \<times> pydict \<times> pydict" where
  "score_source_reports b =
     (case (baseline_mechanism_contract_eval_report b, candidate_mechanism_contract_eval_report b) of
        (Some x, Some y) \<Rightarrow> (MECHANISM_CONTRACT_EVAL_SCORE_SOURCE, x, y)
      | _ \<Rightarrow> (MISSING_MECHANISM_CONTRACT_EVAL_SCORE_SOURCE, baseline_eval_report b, candidate_eval_report b))"

text \<open>The state from the scores, statuses and failure keys it depends on.\<close>

definition score_state_from ::
  "string \<Rightarrow> int \<Rightarrow> int \<Rightarrow> bool \<Rightarrow> int \<Rightarrow> int \<Rightarrow> bool \<Rightarrow> bool \<Rightarrow> (string \<times> string) list \<Rightarrow> score_state" where
  "score_state_from source base cand cand_pass gbase gcand bpass cpass new_failures =
     (let available = (source = MECHANISM_CONTRACT_EVAL_SCORE_SOURCE);
          improves = (available \<and> base < cand);
          equal = (available \<and> cand = base)
      in \<lparr>ss_baseline_eval_pass = bpass, ss_candidate_eval_pass = cpass,
          ss_eval_score_source = source,
          ss_baseline_score_report = (if available then ''baseline_mechanism_contract_eval_report''
                                      else ''missing_mechanism_contract_eval_report''),
          ss_candidate_score_report = (if available then ''candidate_mechanism_contract_eval_report''
                                       else ''missing_mechanism_contract_eval_report''),
          ss_baseline_score = base, ss_candidate_score = cand,
          ss_candidate_score_report_pass = cand_pass,
          ss_global_baseline_score = gbase, ss_global_candidate_score = gcand,
          ss_global_eval_non_regression =
            (gbase \<le> gcand \<and> \<not> (bpass \<and> \<not> cpass) \<and> new_failures = []),
          ss_global_eval_new_failure_count = length new_failures,
          ss_score_improves = improves, ss_score_equal = equal,
          ss_improvement_check_status =
            (if \<not> available \<or> \<not> cand_pass then ''FAIL''
             else if improves then ''PASS'' else if equal then ''WARN'' else ''FAIL'')\<rparr>)"

definition score_state_of :: "artifact_bundle \<Rightarrow> score_state res" where
  "score_state_of b =
     (case score_source_reports b of (source, base_rep, cand_rep) \<Rightarrow>
      let available = (source = MECHANISM_CONTRACT_EVAL_SCORE_SOURCE)
      in bindr (if available then item_int base_rep ''total_score'' else Inr 0) (\<lambda>base.
         bindr (if available then item_int cand_rep ''total_score'' else Inr 0) (\<lambda>cand.
         bindr (if available then bindr (ditem cand_rep ''status'') (\<lambda>s. Inr (s = PyStr ''pass''))
                else Inr False) (\<lambda>cand_pass.
         bindr (item_int (baseline_eval_report b) ''total_score'') (\<lambda>gbase.
         bindr (item_int (candidate_eval_report b) ''total_score'') (\<lambda>gcand.
         bindr (eval_failure_keys (candidate_eval_report b)) (\<lambda>ckeys.
         bindr (eval_failure_keys (baseline_eval_report b)) (\<lambda>bkeys.
         bindr (ditem (baseline_eval_report b) ''status'') (\<lambda>bstatus.
         bindr (ditem (candidate_eval_report b) ''status'') (\<lambda>cstatus.
           Inr (score_state_from source base cand cand_pass gbase gcand
                  (bstatus = PyStr ''pass'') (cstatus = PyStr ''pass'')
                  (filter (\<lambda>k. k \<notin> set bkeys) ckeys))))))))))))"

definition lint_state_of :: "artifact_bundle \<Rightarrow> lint_state res" where
  "lint_state_of b =
     bindr (lint_comparison_tuple (candidate_lint_report b)) (\<lambda>cand.
     bindr (lint_comparison_tuple (baseline_lint_report b)) (\<lambda>base.
     bindr (ditem (baseline_lint_report b) ''status'') (\<lambda>bstatus.
     bindr (ditem (candidate_lint_report b) ''status'') (\<lambda>cstatus.
       Inr \<lparr>ls_baseline_lint_pass = (bstatus = PyStr ''pass''),
            ls_candidate_lint_pass = (cstatus = PyStr ''pass''),
            ls_non_regression = (cand \<le> base), ls_improves = (cand < base)\<rparr>))))"

definition candidate_lint_accepted :: "lint_state \<Rightarrow> bool" where
  "candidate_lint_accepted l =
     (ls_candidate_lint_pass l \<or> (\<not> ls_baseline_lint_pass l \<and> ls_non_regression l))"

definition candidate_eval_accepted :: "score_state \<Rightarrow> bool" where
  "candidate_eval_accepted s = ss_global_eval_non_regression s"

definition metric :: "pyval \<Rightarrow> string \<Rightarrow> int res" where
  "metric m k = bindr (py_item m k) py_as_int"

definition metric_or_zero :: "pyval \<Rightarrow> string \<Rightarrow> int res" where
  "metric_or_zero m k = bindr (py_get m k (PyInt 0)) py_as_int"

definition equal_score_line_budget_state :: "pyval \<Rightarrow> pyval \<Rightarrow> pyval \<Rightarrow> line_budget_state res" where
  "equal_score_line_budget_state base cand equal_score_policy =
     bindr (metric cand ''nonempty_line_count_total'') (\<lambda>cl.
     bindr (metric base ''nonempty_line_count_total'') (\<lambda>bl.
     bindr (metric cand ''test_case_count'') (\<lambda>ct.
     bindr (metric base ''test_case_count'') (\<lambda>bt.
     bindr (metric_or_zero cand ''test_guardrail_count'') (\<lambda>cg.
     bindr (metric_or_zero base ''test_guardrail_count'') (\<lambda>bg.
     bindr (bindr (py_get equal_score_policy ''nonempty_line_growth_budget_per_added_test_case'' (PyInt 0))
              py_int) (\<lambda>per_case.
       let growth = cl - bl; functions = max 0 (ct - bt); guardrails = max 0 (cg - bg);
           allowed = (functions + guardrails) * per_case
       in Inr \<lparr>lb_nonempty_line_growth = growth, lb_added_test_functions = functions,
               lb_added_test_guardrails = guardrails, lb_allowed_line_growth = allowed,
               lb_within_budget = (growth \<le> allowed)\<rparr>)))))))"

definition SEMANTIC_STRUCTURAL_METRIC_KEYS :: "string list" where
  "SEMANTIC_STRUCTURAL_METRIC_KEYS =
     [''python_function_count'', ''python_branch_node_count'', ''markdown_heading_count'']"

definition metric_cmp :: "(int \<Rightarrow> int \<Rightarrow> bool) \<Rightarrow> pyval \<Rightarrow> pyval \<Rightarrow> string \<Rightarrow> bool res" where
  "metric_cmp r cand base k = bindr (metric cand k) (\<lambda>c. bindr (metric base k) (\<lambda>b. Inr (r c b)))"

definition structural_state_of :: "artifact_bundle \<Rightarrow> pyval \<Rightarrow> structural_state res" where
  "structural_state_of b equal_score_policy =
     bindr (total_structural_metrics (baseline_mechanism_report b)) (\<lambda>base.
     bindr (total_structural_metrics (candidate_mechanism_report b)) (\<lambda>cand.
     bindr (allr (metric_cmp (\<le>) cand base) SEMANTIC_STRUCTURAL_METRIC_KEYS) (\<lambda>semantic.
     bindr (equal_score_line_budget_state base cand equal_score_policy) (\<lambda>budget.
     bindr (anyr (metric_cmp (<) cand base) STRUCTURAL_METRIC_KEYS) (\<lambda>improves.
       Inr \<lparr>st_baseline_metrics = base, st_candidate_metrics = cand, st_line_budget = budget,
            st_non_regression = (semantic \<and> lb_within_budget budget), st_improves = improves\<rparr>)))))"

definition test_coverage_state_of :: "structural_state \<Rightarrow> test_coverage_state res" where
  "test_coverage_state_of st =
     (let base = st_baseline_metrics st; cand = st_candidate_metrics st in
      bindr (metric base ''test_file_count'') (\<lambda>bf. bindr (metric cand ''test_file_count'') (\<lambda>cf.
      bindr (metric base ''test_case_count'') (\<lambda>bc. bindr (metric cand ''test_case_count'') (\<lambda>cc.
      bindr (metric_or_zero base ''test_guardrail_count'') (\<lambda>bg.
      bindr (metric_or_zero cand ''test_guardrail_count'') (\<lambda>cg.
        Inr \<lparr>tc_baseline_file_count = bf, tc_candidate_file_count = cf,
             tc_baseline_case_count = bc, tc_candidate_case_count = cc,
             tc_baseline_guardrail_count = bg, tc_candidate_guardrail_count = cg,
             tc_non_regression = (bf \<le> cf \<and> bc \<le> cc \<and> bg \<le> cg),
             tc_increases = (bf < cf \<or> bc < cc \<or> bg < cg)\<rparr>)))))))"

definition risk_state_of :: "artifact_bundle \<Rightarrow> risk_state res" where
  "risk_state_of b =
     bindr (ditem (baseline_mechanism_report b) ''complexity_profile'') (\<lambda>base.
     bindr (ditem (candidate_mechanism_report b) ''complexity_profile'') (\<lambda>cand.
     bindr (metric base ''complexity_score'') (\<lambda>bs. bindr (metric cand ''complexity_score'') (\<lambda>cs.
     bindr (py_item base ''risk_flags'') (\<lambda>bf. bindr (py_item cand ''risk_flags'') (\<lambda>cf.
       Inr \<lparr>rk_baseline_complexity_score = bs, rk_candidate_complexity_score = cs,
            rk_baseline_risk_flags = bf, rk_candidate_risk_flags = cf\<rparr>))))))"

text \<open>The state of one axis: \<open>(non_regression, improves)\<close>.\<close>

definition axis_states ::
  "lint_state \<Rightarrow> structural_state \<Rightarrow> test_coverage_state \<Rightarrow> (string \<times> bool \<times> bool) list" where
  "axis_states l s t =
     [(''lint'', ls_non_regression l, ls_improves l),
      (''complexity'', st_non_regression s, st_improves s),
      (''tests'', tc_non_regression t, tc_increases t)]"

definition axis_non_regression :: "(string \<times> bool \<times> bool) list \<Rightarrow> string \<Rightarrow> bool res" where
  "axis_non_regression axes a = bindr (ditem axes a) (\<lambda>x. Inr (fst x))"

definition axis_improves :: "(string \<times> bool \<times> bool) list \<Rightarrow> string \<Rightarrow> bool res" where
  "axis_improves axes a = bindr (ditem axes a) (\<lambda>x. Inr (snd x))"

definition secondary_axis_state_of ::
  "pydict \<Rightarrow> string \<Rightarrow> pyval \<Rightarrow> score_state \<Rightarrow> lint_state \<Rightarrow> structural_state \<Rightarrow> test_coverage_state \<Rightarrow>
   secondary_axis_state res" where
  "secondary_axis_state_of policy artifact_class equal_score_policy score l s t =
     (let axes = axis_states l s t in
      bindr (configured_secondary_axes policy) (\<lambda>selected.
      bindr (allr (axis_non_regression axes) selected) (\<lambda>non_regression.
      bindr (anyr (axis_improves axes) selected) (\<lambda>any_improvement.
      bindr (bindr (py_item equal_score_policy ''allowed_artifact_classes'')
               (\<lambda>c. py_contains c artifact_class)) (\<lambda>allowed.
      bindr (filterr (\<lambda>a. bindr (axis_non_regression axes a) (\<lambda>b. Inr (\<not> b))) selected) (\<lambda>failed.
      bindr (filterr (axis_improves axes) selected) (\<lambda>improved.
        Inr \<lparr>sx_selected_axes = selected, sx_failed_axes = failed, sx_improved_axes = improved,
             sx_selected_non_regression = non_regression,
             sx_selected_any_improvement = any_improvement,
             sx_equal_score_allowed = allowed,
             sx_equal_score_secondary_eligibility =
               (allowed \<and> ss_score_equal score \<and> candidate_lint_accepted l \<and>
                candidate_eval_accepted score \<and> non_regression \<and> any_improvement)\<rparr>)))))))"

definition signoff_state_of :: "pydict \<Rightarrow> signoff_state res" where
  "signoff_state_of signoff =
     bindr (ditem signoff ''status'') (\<lambda>status.
       Inr \<lparr>so_status = status,
            so_check_status = (if status = PyStr ''pending'' then ''WARN''
                               else if status = PyStr ''rejected'' then ''FAIL'' else ''PASS'')\<rparr>)"

subsection \<open>The promotion state\<close>

record mechanism_state =
  ms_bundle :: artifact_bundle
  ms_expected_policy_path :: string
  ms_expected_policy_version :: pyval
  ms_invalid_targets :: "string list"
  ms_missing_targets :: "string list"
  ms_baseline_lint_pass :: bool
  ms_candidate_lint_pass :: bool
  ms_candidate_lint_accepted :: bool
  ms_baseline_eval_pass :: bool
  ms_candidate_eval_pass :: bool
  ms_candidate_eval_accepted :: bool
  ms_eval_score_source :: string
  ms_baseline_score_report :: string
  ms_candidate_score_report :: string
  ms_baseline_score :: int
  ms_candidate_score :: int
  ms_candidate_score_report_pass :: bool
  ms_global_baseline_score :: int
  ms_global_candidate_score :: int
  ms_global_eval_non_regression :: bool
  ms_global_eval_new_failure_count :: nat
  ms_score_improves :: bool
  ms_score_equal :: bool
  ms_improvement_check_status :: string
  ms_lint_non_regression :: bool
  ms_lint_improves :: bool
  ms_structural_non_regression :: bool
  ms_structural_improves :: bool
  ms_nonempty_line_growth :: int
  ms_added_test_functions :: int
  ms_added_test_guardrails :: int
  ms_allowed_line_growth :: int
  ms_baseline_test_file_count :: int
  ms_candidate_test_file_count :: int
  ms_baseline_test_case_count :: int
  ms_candidate_test_case_count :: int
  ms_baseline_test_guardrail_count :: int
  ms_candidate_test_guardrail_count :: int
  ms_tests_non_regression :: bool
  ms_tests_increase :: bool
  ms_baseline_complexity_score :: int
  ms_candidate_complexity_score :: int
  ms_baseline_risk_flags :: pyval
  ms_candidate_risk_flags :: pyval
  ms_selected_secondary_axes :: "string list"
  ms_failed_secondary_axes :: "string list"
  ms_improved_secondary_axes :: "string list"
  ms_selected_non_regression :: bool
  ms_selected_any_improvement :: bool
  ms_equal_score_allowed :: bool
  ms_equal_score_secondary_eligibility :: bool
  ms_signoff_status :: pyval
  ms_signoff_check_status :: string

text \<open>The fields of \<open>MechanismPromotionState\<close>, each taken from one component state.\<close>

definition mechanism_state_of ::
  "artifact_bundle \<Rightarrow> string \<Rightarrow> pyval \<Rightarrow> target_validation_state \<Rightarrow> score_state \<Rightarrow> lint_state \<Rightarrow>
   structural_state \<Rightarrow> test_coverage_state \<Rightarrow> risk_state \<Rightarrow> secondary_axis_state \<Rightarrow> signoff_state \<Rightarrow>
   mechanism_state" where
  "mechanism_state_of b path version tv ss ls st tc rk sx so =
     \<lparr>ms_bundle = b, ms_expected_policy_path = path, ms_expected_policy_version = version,
      ms_invalid_targets = tv_invalid_targets tv, ms_missing_targets = tv_missing_targets tv,
      ms_baseline_lint_pass = ls_baseline_lint_pass ls,
      ms_candidate_lint_pass = ls_candidate_lint_pass ls,
      ms_candidate_lint_accepted = candidate_lint_accepted ls,
      ms_baseline_eval_pass = ss_baseline_eval_pass ss,
      ms_candidate_eval_pass = ss_candidate_eval_pass ss,
      ms_candidate_eval_accepted = candidate_eval_accepted ss,
      ms_eval_score_source = ss_eval_score_source ss,
      ms_baseline_score_report = ss_baseline_score_report ss,
      ms_candidate_score_report = ss_candidate_score_report ss,
      ms_baseline_score = ss_baseline_score ss, ms_candidate_score = ss_candidate_score ss,
      ms_candidate_score_report_pass = ss_candidate_score_report_pass ss,
      ms_global_baseline_score = ss_global_baseline_score ss,
      ms_global_candidate_score = ss_global_candidate_score ss,
      ms_global_eval_non_regression = ss_global_eval_non_regression ss,
      ms_global_eval_new_failure_count = ss_global_eval_new_failure_count ss,
      ms_score_improves = ss_score_improves ss, ms_score_equal = ss_score_equal ss,
      ms_improvement_check_status = ss_improvement_check_status ss,
      ms_lint_non_regression = ls_non_regression ls, ms_lint_improves = ls_improves ls,
      ms_structural_non_regression = st_non_regression st,
      ms_structural_improves = st_improves st,
      ms_nonempty_line_growth = lb_nonempty_line_growth (st_line_budget st),
      ms_added_test_functions = lb_added_test_functions (st_line_budget st),
      ms_added_test_guardrails = lb_added_test_guardrails (st_line_budget st),
      ms_allowed_line_growth = lb_allowed_line_growth (st_line_budget st),
      ms_baseline_test_file_count = tc_baseline_file_count tc,
      ms_candidate_test_file_count = tc_candidate_file_count tc,
      ms_baseline_test_case_count = tc_baseline_case_count tc,
      ms_candidate_test_case_count = tc_candidate_case_count tc,
      ms_baseline_test_guardrail_count = tc_baseline_guardrail_count tc,
      ms_candidate_test_guardrail_count = tc_candidate_guardrail_count tc,
      ms_tests_non_regression = tc_non_regression tc, ms_tests_increase = tc_increases tc,
      ms_baseline_complexity_score = rk_baseline_complexity_score rk,
      ms_candidate_complexity_score = rk_candidate_complexity_score rk,
      ms_baseline_risk_flags = rk_baseline_risk_flags rk,
      ms_candidate_risk_flags = rk_candidate_risk_flags rk,
      ms_selected_secondary_axes = sx_selected_axes sx,
      ms_failed_secondary_axes = sx_failed_axes sx,
      ms_improved_secondary_axes = sx_improved_axes sx,
      ms_selected_non_regression = sx_selected_non_regression sx,
      ms_selected_any_improvement = sx_selected_any_improvement sx,
      ms_equal_score_allowed = sx_equal_score_allowed sx,
      ms_equal_score_secondary_eligibility = sx_equal_score_secondary_eligibility sx,
      ms_signoff_status = so_status so, ms_signoff_check_status = so_check_status so\<rparr>"

text \<open>
  \<open>build_mechanism_promotion_state\<close>; \<open>policy_path\<close> is \<open>report_path(vault, resolved_policy_path)\<close>.
\<close>

definition build_mechanism_promotion_state ::
  "vault_env \<Rightarrow> pydict \<Rightarrow> string \<Rightarrow> string \<Rightarrow> string list \<Rightarrow> pydict \<Rightarrow> gate_inputs \<Rightarrow> mechanism_state res" where
  "build_mechanism_promotion_state env policy policy_path artifact_class targets signoff inputs =
     bindr (py_items (PyDict policy) [''promotion_policy'', ''artifact_classes'', artifact_class]) (\<lambda>spec.
     bindr (ditem policy ''equal_score_promotion'') (\<lambda>equal_score_policy.
     bindr (normalize_mechanism_artifact_bundle (inputs_attributes inputs)) (\<lambda>b.
     bindr (target_validation_of env spec targets) (\<lambda>tv.
     bindr (score_state_of b) (\<lambda>ss.
     bindr (lint_state_of b) (\<lambda>ls.
     bindr (structural_state_of b equal_score_policy) (\<lambda>st.
     bindr (test_coverage_state_of st) (\<lambda>tc.
     bindr (risk_state_of b) (\<lambda>rk.
     bindr (secondary_axis_state_of policy artifact_class equal_score_policy ss ls st tc) (\<lambda>sx.
     bindr (signoff_state_of signoff) (\<lambda>so.
       Inr (mechanism_state_of b policy_path (dget policy ''version'' PyNone)
              tv ss ls st tc rk sx so))))))))))))"

subsection \<open>What the state says about the reports\<close>

text \<open>
  The specification of the comparisons, on the reports themselves: an axis that does not
  regress and an axis that strictly improves, and the guard on the global evaluation.
\<close>

definition global_eval_kept :: "artifact_bundle \<Rightarrow> bool" where
  "global_eval_kept b =
     (\<exists>g g' ks ks'. item_int (baseline_eval_report b) ''total_score'' = Inr g \<and>
        item_int (candidate_eval_report b) ''total_score'' = Inr g' \<and> g \<le> g' \<and>
        eval_failure_keys (baseline_eval_report b) = Inr ks \<and>
        eval_failure_keys (candidate_eval_report b) = Inr ks' \<and> set ks' \<subseteq> set ks \<and>
        (ditem (baseline_eval_report b) ''status'' = Inr (PyStr ''pass'') \<longrightarrow>
         ditem (candidate_eval_report b) ''status'' = Inr (PyStr ''pass'')))"

definition contract_scores :: "artifact_bundle \<Rightarrow> int \<Rightarrow> int \<Rightarrow> bool" where
  "contract_scores b s s' =
     (\<exists>x y. baseline_mechanism_contract_eval_report b = Some x \<and>
        candidate_mechanism_contract_eval_report b = Some y \<and>
        item_int x ''total_score'' = Inr s \<and> item_int y ''total_score'' = Inr s')"

definition contract_candidate_passes :: "artifact_bundle \<Rightarrow> bool" where
  "contract_candidate_passes b =
     (\<exists>y. candidate_mechanism_contract_eval_report b = Some y \<and>
        ditem y ''status'' = Inr (PyStr ''pass''))"

definition metric_le :: "pyval \<Rightarrow> pyval \<Rightarrow> string \<Rightarrow> bool" where
  "metric_le cand base k = (\<exists>x y. metric base k = Inr x \<and> metric cand k = Inr y \<and> y \<le> x)"

definition metric_less :: "pyval \<Rightarrow> pyval \<Rightarrow> string \<Rightarrow> bool" where
  "metric_less cand base k = (\<exists>x y. metric base k = Inr x \<and> metric cand k = Inr y \<and> y < x)"

definition within_line_budget :: "pyval \<Rightarrow> pyval \<Rightarrow> pyval \<Rightarrow> bool" where
  "within_line_budget cand base equal_score_policy =
     (\<exists>lb. equal_score_line_budget_state base cand equal_score_policy = Inr lb \<and>
        lb_nonempty_line_growth lb \<le> lb_allowed_line_growth lb)"

definition axis_kept :: "artifact_bundle \<Rightarrow> pyval \<Rightarrow> string \<Rightarrow> bool" where
  "axis_kept b equal_score_policy a =
     (if a = ''lint'' then
        (\<exists>c d. lint_comparison_tuple (candidate_lint_report b) = Inr c \<and>
               lint_comparison_tuple (baseline_lint_report b) = Inr d \<and> c \<le> d)
      else
        (\<exists>base cand. total_structural_metrics (baseline_mechanism_report b) = Inr base \<and>
           total_structural_metrics (candidate_mechanism_report b) = Inr cand \<and>
           (if a = ''complexity'' then
              (\<forall>k \<in> set SEMANTIC_STRUCTURAL_METRIC_KEYS. metric_le cand base k) \<and>
              within_line_budget cand base equal_score_policy
            else a = ''tests'' \<and> metric_le base cand ''test_file_count'' \<and>
                 metric_le base cand ''test_case_count'' \<and>
                 (\<exists>x y. metric_or_zero base ''test_guardrail_count'' = Inr x \<and>
                        metric_or_zero cand ''test_guardrail_count'' = Inr y \<and> x \<le> y))))"

definition axis_better :: "artifact_bundle \<Rightarrow> string \<Rightarrow> bool" where
  "axis_better b a =
     (if a = ''lint'' then
        (\<exists>c d. lint_comparison_tuple (candidate_lint_report b) = Inr c \<and>
               lint_comparison_tuple (baseline_lint_report b) = Inr d \<and> c < d)
      else
        (\<exists>base cand. total_structural_metrics (baseline_mechanism_report b) = Inr base \<and>
           total_structural_metrics (candidate_mechanism_report b) = Inr cand \<and>
           (if a = ''complexity'' then \<exists>k \<in> set STRUCTURAL_METRIC_KEYS. metric_less cand base k
            else a = ''tests'' \<and> (metric_less base cand ''test_file_count'' \<or>
                 metric_less base cand ''test_case_count'' \<or>
                 (\<exists>x y. metric_or_zero base ''test_guardrail_count'' = Inr x \<and>
                        metric_or_zero cand ''test_guardrail_count'' = Inr y \<and> x < y)))))"

lemma normalize_inputs [simp]:
  "normalize_mechanism_artifact_bundle (inputs_attributes i) = Inr
     \<lparr>baseline_eval_report = gi_baseline_eval_report i,
      candidate_eval_report = gi_candidate_eval_report i,
      baseline_mechanism_contract_eval_report = gi_baseline_contract_eval_report i,
      candidate_mechanism_contract_eval_report = gi_candidate_contract_eval_report i,
      baseline_lint_report = gi_baseline_lint_report i,
      candidate_lint_report = gi_candidate_lint_report i,
      baseline_mechanism_report = gi_baseline_mechanism_report i,
      candidate_mechanism_report = gi_candidate_mechanism_report i,
      changed_files_manifest_report = gi_changed_files_manifest_report i,
      run_ledger_report = gi_run_ledger_report i\<rparr>"
proof -
  have "opt_dict (opt_value v) = v" for v
    by (cases v) (simp_all add: opt_dict_def opt_value_def)
  then show ?thesis
    by (simp add: normalize_mechanism_artifact_bundle_def inputs_attributes_def BUNDLE_FIELDS_def dget_def)
qed

lemma score_state_sound:
  assumes "score_state_of b = Inr ss"
  shows "ss_global_eval_non_regression ss \<Longrightarrow> global_eval_kept b"
    and "ss_improvement_check_status ss = ''PASS'' \<Longrightarrow>
           (\<exists>s s'. contract_scores b s s' \<and> s < s') \<and> contract_candidate_passes b"
    and "ss_improvement_check_status ss = ''WARN'' \<Longrightarrow> ss_score_equal ss \<and> contract_candidate_passes b"
    and "ss_score_equal ss \<Longrightarrow> \<exists>s. contract_scores b s s"
proof -
  obtain source base_rep cand_rep where src: "score_source_reports b = (source, base_rep, cand_rep)"
    by (cases "score_source_reports b")
  have avail: "source = MECHANISM_CONTRACT_EVAL_SCORE_SOURCE \<Longrightarrow>
      baseline_mechanism_contract_eval_report b = Some base_rep \<and>
      candidate_mechanism_contract_eval_report b = Some cand_rep"
    using src by (auto simp: score_source_reports_def MECHANISM_CONTRACT_EVAL_SCORE_SOURCE_def
        MISSING_MECHANISM_CONTRACT_EVAL_SCORE_SOURCE_def split: option.splits)
  let ?av = "source = MECHANISM_CONTRACT_EVAL_SCORE_SOURCE"
  obtain base cand cand_pass g g' ks ks' st st' where
    base: "(if ?av then item_int base_rep ''total_score'' else Inr 0) = Inr base"
    and cand: "(if ?av then item_int cand_rep ''total_score'' else Inr 0) = Inr cand"
    and cp: "(if ?av then bindr (ditem cand_rep ''status'') (\<lambda>s. Inr (s = PyStr ''pass''))
              else Inr False) = Inr cand_pass"
    and g: "item_int (baseline_eval_report b) ''total_score'' = Inr g"
      "item_int (candidate_eval_report b) ''total_score'' = Inr g'"
    and ks: "eval_failure_keys (candidate_eval_report b) = Inr ks'"
      "eval_failure_keys (baseline_eval_report b) = Inr ks"
    and st: "ditem (baseline_eval_report b) ''status'' = Inr st"
      "ditem (candidate_eval_report b) ''status'' = Inr st'"
    and ss: "ss = score_state_from source base cand cand_pass g g' (st = PyStr ''pass'') (st' = PyStr ''pass'')
                    (filter (\<lambda>k. k \<notin> set ks) ks')"
    using assms [unfolded score_state_of_def src Let_def prod.case bindr_eq_Inr] by blast
  show "ss_global_eval_non_regression ss \<Longrightarrow> global_eval_kept b"
    using g ks st by (auto simp: ss score_state_from_def global_eval_kept_def filter_empty_conv Let_def)
  have imp: "ss_improvement_check_status ss =
      (if \<not> ?av \<or> \<not> cand_pass then ''FAIL''
       else if ?av \<and> base < cand then ''PASS'' else if ?av \<and> cand = base then ''WARN'' else ''FAIL'')"
    and eq: "ss_score_equal ss = (?av \<and> cand = base)"
    by (simp_all only: ss score_state_from_def Let_def score_state.simps)
  have pass: "?av \<and> cand_pass \<Longrightarrow> contract_candidate_passes b"
    using avail cp by (auto simp: contract_candidate_passes_def bindr_eq_Inr)
  have scores: "?av \<Longrightarrow> contract_scores b base cand"
    using avail base cand by (auto simp: contract_scores_def)
  show "ss_improvement_check_status ss = ''PASS'' \<Longrightarrow>
           (\<exists>s s'. contract_scores b s s' \<and> s < s') \<and> contract_candidate_passes b"
    using imp pass scores by (auto split: if_splits)
  show "ss_improvement_check_status ss = ''WARN'' \<Longrightarrow> ss_score_equal ss \<and> contract_candidate_passes b"
    using imp eq pass by (auto split: if_splits)
  show "ss_score_equal ss \<Longrightarrow> \<exists>s. contract_scores b s s"
    using eq scores by auto
qed

lemma metric_cmp_True:
  "metric_cmp (\<le>) cand base k = Inr True \<longleftrightarrow> metric_le cand base k"
  "metric_cmp (<) cand base k = Inr True \<longleftrightarrow> metric_less cand base k"
  by (auto simp: metric_cmp_def metric_le_def metric_less_def bindr_eq_Inr)

lemma line_budget_within:
  "equal_score_line_budget_state base cand p = Inr lb \<Longrightarrow>
     lb_within_budget lb \<longleftrightarrow> lb_nonempty_line_growth lb \<le> lb_allowed_line_growth lb"
  by (auto simp: equal_score_line_budget_state_def bindr_eq_Inr Let_def)

lemma structural_state_sound:
  assumes "structural_state_of b equal_score_policy = Inr st"
  shows "st_non_regression st \<Longrightarrow> axis_kept b equal_score_policy ''complexity''"
    and "st_improves st \<Longrightarrow> axis_better b ''complexity''"
proof -
  obtain base cand semantic lb improves where
    m: "total_structural_metrics (baseline_mechanism_report b) = Inr base"
       "total_structural_metrics (candidate_mechanism_report b) = Inr cand"
    and sem: "allr (metric_cmp (\<le>) cand base) SEMANTIC_STRUCTURAL_METRIC_KEYS = Inr semantic"
    and lb: "equal_score_line_budget_state base cand equal_score_policy = Inr lb"
    and imp: "anyr (metric_cmp (<) cand base) STRUCTURAL_METRIC_KEYS = Inr improves"
    and st: "st_non_regression st = (semantic \<and> lb_within_budget lb)" "st_improves st = improves"
    using assms by (auto simp: structural_state_of_def bindr_eq_Inr)
  show "st_non_regression st \<Longrightarrow> axis_kept b equal_score_policy ''complexity''"
    using m sem lb st line_budget_within [OF lb]
    by (simp add: allr_True metric_cmp_True axis_kept_def within_line_budget_def)
  have "improves \<Longrightarrow> \<exists>k \<in> set STRUCTURAL_METRIC_KEYS. metric_less cand base k"
    using anyr_True imp metric_cmp_True(2) by fastforce
  then show "st_improves st \<Longrightarrow> axis_better b ''complexity''"
    using m st by (simp add: axis_better_def)
qed

lemma test_coverage_sound:
  assumes "structural_state_of b equal_score_policy = Inr st" and "test_coverage_state_of st = Inr tc"
  shows "tc_non_regression tc \<Longrightarrow> axis_kept b equal_score_policy ''tests''"
    and "tc_increases tc \<Longrightarrow> axis_better b ''tests''"
  using assms
  by (auto simp: structural_state_of_def test_coverage_state_of_def bindr_eq_Inr axis_kept_def
      axis_better_def metric_le_def metric_less_def Let_def)

lemma lint_state_sound:
  assumes "lint_state_of b = Inr ls"
  shows "ls_non_regression ls \<Longrightarrow> axis_kept b equal_score_policy ''lint''"
    and "ls_improves ls \<Longrightarrow> axis_better b ''lint''"
  using assms by (auto simp: lint_state_of_def bindr_eq_Inr axis_kept_def axis_better_def)

lemma secondary_axis_sound:
  assumes sx: "secondary_axis_state_of policy cls equal_score_policy ss ls st tc = Inr sx"
    and ls: "lint_state_of b = Inr ls" and st: "structural_state_of b equal_score_policy = Inr st"
    and tc: "test_coverage_state_of st = Inr tc"
  shows "sx_selected_non_regression sx \<Longrightarrow>
           \<forall>a \<in> set (sx_selected_axes sx). axis_kept b equal_score_policy a"
    and "sx_selected_any_improvement sx \<Longrightarrow> \<exists>a \<in> set (sx_selected_axes sx). axis_better b a"
    and "sx_equal_score_secondary_eligibility sx \<Longrightarrow>
           sx_selected_non_regression sx \<and> sx_selected_any_improvement sx \<and> sx_equal_score_allowed sx \<and>
           ss_score_equal ss \<and> candidate_lint_accepted ls \<and> candidate_eval_accepted ss"
    and "configured_secondary_axes policy = Inr (sx_selected_axes sx)"
proof -
  let ?axes = "axis_states ls st tc"
  obtain selected nr imp where sel: "configured_secondary_axes policy = Inr selected"
    and nr: "allr (axis_non_regression ?axes) selected = Inr nr"
    and imp: "anyr (axis_improves ?axes) selected = Inr imp"
    and eq: "sx_selected_axes sx = selected" "sx_selected_non_regression sx = nr"
      "sx_selected_any_improvement sx = imp"
    and elig: "sx_equal_score_secondary_eligibility sx \<longrightarrow> nr \<and> imp \<and> sx_equal_score_allowed sx \<and>
      ss_score_equal ss \<and> candidate_lint_accepted ls \<and> candidate_eval_accepted ss"
    using sx by (auto simp: secondary_axis_state_of_def bindr_eq_Inr Let_def)
  have kept: "axis_kept b equal_score_policy a" if "axis_non_regression ?axes a = Inr True" for a
    using that lint_state_sound [OF ls] structural_state_sound [OF st] test_coverage_sound [OF st tc]
    by (auto simp: axis_non_regression_def axis_states_def bindr_eq_Inr ditem_eq_Inr split: if_splits)
  have better: "axis_better b a" if "axis_improves ?axes a = Inr True" for a
    using that lint_state_sound [OF ls] structural_state_sound [OF st] test_coverage_sound [OF st tc]
    by (auto simp: axis_improves_def axis_states_def bindr_eq_Inr ditem_eq_Inr split: if_splits)
  show "sx_selected_non_regression sx \<Longrightarrow>
      \<forall>a \<in> set (sx_selected_axes sx). axis_kept b equal_score_policy a"
    using nr eq kept by (simp add: allr_True)
  show "sx_selected_any_improvement sx \<Longrightarrow> \<exists>a \<in> set (sx_selected_axes sx). axis_better b a"
    using imp eq better anyr_True by fastforce
  show "sx_equal_score_secondary_eligibility sx \<Longrightarrow>
      sx_selected_non_regression sx \<and> sx_selected_any_improvement sx \<and> sx_equal_score_allowed sx \<and>
      ss_score_equal ss \<and> candidate_lint_accepted ls \<and> candidate_eval_accepted ss"
    using elig eq by simp
  show "configured_secondary_axes policy = Inr (sx_selected_axes sx)" using sel eq by simp
qed

end
