(* ===== verification/MechanismRules.thy ===== *)
theory MechanismRules
  imports MechanismState
begin

section \<open>The mechanism rules and the mechanism promotion gate\<close>

text \<open>
  \<open>mechanism/promotion_gate_mechanism_rule_registry_runtime.py\<close> (one evaluator per rule id,
  the reducer each policy row names, the registry of rule specifications),
  \<open>promotion_gate_mechanism_report_runtime.py\<close> (the promotion report with its diagnostics),
  \<open>promotion_gate_mechanism_finalize_runtime.py\<close> and the gate itself,
  \<open>mechanism_class_report\<close> of \<open>promotion_gate_mechanism_runtime.py\<close>.
\<close>

subsection \<open>Rule evaluators\<close>

record rule_context =
  rc_env :: vault_env
  rc_run_id :: string
  rc_policy :: pydict
  rc_primary_targets :: "string list"
  rc_supporting_targets :: "string list"
  rc_signoff :: pydict
  rc_inputs :: gate_inputs
  rc_state :: mechanism_state
  rc_auto_improve_run :: bool

definition rc_bundle :: "rule_context \<Rightarrow> artifact_bundle" where
  "rc_bundle ctx = ms_bundle (rc_state ctx)"

definition decision_rules :: "rule_context \<Rightarrow> pyval res" where
  "decision_rules ctx =
     py_items (PyDict (rc_policy ctx)) [''promotion_policy'', ''decision_rules'', ''system_mechanism'']"

definition primary_target_scope_checks :: "rule_context \<Rightarrow> pydict list res" where
  "primary_target_scope_checks ctx =
     (let bad = ms_invalid_targets (rc_state ctx) in
      Inr [mechanism_gate_check ''primary_target_scope'' (pass_fail (bad = []))
             (if bad = [] then ''all primary targets match artifact-class scope''
              else ''invalid primary targets: '' @ py_join '', '' bad)])"

definition primary_target_exists_checks :: "rule_context \<Rightarrow> pydict list res" where
  "primary_target_exists_checks ctx =
     (let bad = ms_missing_targets (rc_state ctx) in
      Inr [mechanism_gate_check ''primary_target_exists'' (pass_fail (bad = []))
             (if bad = [] then ''all primary targets exist''
              else ''missing primary targets: '' @ py_join '', '' bad)])"

definition report_consistency_checks :: "rule_context \<Rightarrow> pydict list res" where
  "report_consistency_checks ctx =
     build_report_consistency_checks (rc_env ctx) (rc_bundle ctx) (rc_run_id ctx)
       (ms_expected_policy_path (rc_state ctx)) (ms_expected_policy_version (rc_state ctx))"

definition one_check :: "pydict res \<Rightarrow> pydict list res" where
  "one_check c = bindr c (\<lambda>x. Inr [x])"

definition run_ledger_target_coverage_checks :: "rule_context \<Rightarrow> pydict list res" where
  "run_ledger_target_coverage_checks ctx =
     one_check (build_run_ledger_target_coverage_check (rc_bundle ctx) (rc_primary_targets ctx))"

definition mechanism_report_primary_target_checks :: "rule_context \<Rightarrow> pydict list res" where
  "mechanism_report_primary_target_checks ctx =
     Inr [build_mechanism_primary_target_check (rc_bundle ctx) (rc_primary_targets ctx)]"

definition changed_files_manifest_declared_target_checks :: "rule_context \<Rightarrow> pydict list res" where
  "changed_files_manifest_declared_target_checks ctx =
     one_check (build_manifest_declared_targets_check (rc_bundle ctx) (rc_primary_targets ctx)
       (rc_supporting_targets ctx)
       (py_sorted (report_target_list (candidate_mechanism_report (rc_bundle ctx)) ''test_files'')))"

definition changed_files_manifest_scope_checks :: "rule_context \<Rightarrow> pydict list res" where
  "changed_files_manifest_scope_checks ctx = one_check (build_changed_files_scope_gate_check (rc_bundle ctx))"

definition changed_files_manifest_allowed_apply_root_checks :: "rule_context \<Rightarrow> pydict list res" where
  "changed_files_manifest_allowed_apply_root_checks ctx =
     bindr (py_items (PyDict (rc_policy ctx)) [''auto_improve_policy'', ''allowed_apply_roots'']) (\<lambda>v.
     bindr (py_iter v) (\<lambda>roots.
       one_check (build_changed_files_allowed_apply_roots_check (rc_bundle ctx) roots)))"

definition changed_files_manifest_nonempty_checks :: "rule_context \<Rightarrow> pydict list res" where
  "changed_files_manifest_nonempty_checks ctx = Inr [build_changed_files_nonempty_check (rc_bundle ctx)]"

definition changed_files_manifest_primary_targets_touched_checks :: "rule_context \<Rightarrow> pydict list res" where
  "changed_files_manifest_primary_targets_touched_checks ctx =
     Inr [build_changed_files_primary_target_touched_check (rc_bundle ctx) (rc_primary_targets ctx)]"

definition behavior_delta_presence_checks :: "rule_context \<Rightarrow> pydict list res" where
  "behavior_delta_presence_checks ctx =
     Inr [build_behavior_delta_presence_check (rc_policy ctx) (gi_behavior_delta_report (rc_inputs ctx))
            (rc_auto_improve_run ctx) (ms_score_equal (rc_state ctx))]"

definition candidate_lint_pass_checks :: "rule_context \<Rightarrow> pydict list res" where
  "candidate_lint_pass_checks ctx =
     (let st = rc_state ctx in
      bindr (ditem (baseline_lint_report (rc_bundle ctx)) ''status'') (\<lambda>bs.
      bindr (ditem (candidate_lint_report (rc_bundle ctx)) ''status'') (\<lambda>cs.
        Inr [mechanism_gate_check ''candidate_lint_pass'' (pass_fail (ms_candidate_lint_accepted st))
          (''baseline lint status='' @ py_str bs @ '', candidate lint status='' @ py_str cs @
           '', non_regression='' @ bool_lower (ms_lint_non_regression st) @ '', acceptance='' @
           (if ms_candidate_lint_pass st then ''candidate_pass''
            else if ms_candidate_lint_accepted st then ''baseline_fail_non_regression''
            else ''not_accepted''))])))"

definition candidate_eval_pass_checks :: "rule_context \<Rightarrow> pydict list res" where
  "candidate_eval_pass_checks ctx =
     (let st = rc_state ctx in
      bindr (ditem (baseline_eval_report (rc_bundle ctx)) ''status'') (\<lambda>bs.
      bindr (ditem (candidate_eval_report (rc_bundle ctx)) ''status'') (\<lambda>cs.
        Inr [mechanism_gate_check ''candidate_eval_pass'' (pass_fail (ms_candidate_eval_accepted st))
          (''global wiki eval guard baseline status='' @ py_str bs @ '', candidate status='' @ py_str cs @
           '', baseline='' @ int_text (ms_global_baseline_score st) @
           '', candidate='' @ int_text (ms_global_candidate_score st) @
           '', new_failures='' @ nat_text (ms_global_eval_new_failure_count st) @
           '', non_regression='' @ bool_lower (ms_global_eval_non_regression st) @
           '', promotion_score_source='' @ ms_eval_score_source st @ '', acceptance='' @
           (if ms_candidate_eval_accepted st then ''global_non_regression'' else ''not_accepted''))])))"

definition eval_score_improves_checks :: "rule_context \<Rightarrow> pydict list res" where
  "eval_score_improves_checks ctx =
     (let st = rc_state ctx in
      Inr [mechanism_gate_check ''eval_score_improves'' (ms_improvement_check_status st)
        (''source='' @ ms_eval_score_source st @ '', baseline_report='' @ ms_baseline_score_report st @
         '', candidate_report='' @ ms_candidate_score_report st @
         '', baseline='' @ int_text (ms_baseline_score st) @
         '', candidate='' @ int_text (ms_candidate_score st) @ '', candidate_status='' @
         (if ms_candidate_score_report_pass st then ''pass'' else ''fail''))])"

text \<open>The detail line of the lint and structural comparisons: both tuples.\<close>

definition tuple_detail ::
  "string \<Rightarrow> (pydict \<Rightarrow> int list res) \<Rightarrow> pydict \<Rightarrow> pydict \<Rightarrow> string res" where
  "tuple_detail sfx f base cand =
     bindr (f base) (\<lambda>b. bindr (f cand) (\<lambda>c.
       Inr (''baseline'' @ sfx @ ''='' @ tuple_text b @ '', candidate'' @ sfx @ ''='' @ tuple_text c)))"

definition lint_tuple_check :: "rule_context \<Rightarrow> string \<Rightarrow> string \<Rightarrow> pydict list res" where
  "lint_tuple_check ctx check_id status =
     bindr (tuple_detail '''' lint_comparison_tuple (baseline_lint_report (rc_bundle ctx))
              (candidate_lint_report (rc_bundle ctx))) (\<lambda>d. Inr [mechanism_gate_check check_id status d])"

definition lint_non_regression_checks :: "rule_context \<Rightarrow> pydict list res" where
  "lint_non_regression_checks ctx =
     lint_tuple_check ctx ''lint_non_regression'' (pass_fail (ms_lint_non_regression (rc_state ctx)))"

definition lint_improves_checks :: "rule_context \<Rightarrow> pydict list res" where
  "lint_improves_checks ctx =
     lint_tuple_check ctx ''lint_improves'' (pass_warn (ms_lint_improves (rc_state ctx)))"

definition structural_tuple_check :: "rule_context \<Rightarrow> string \<Rightarrow> string \<Rightarrow> pydict list res" where
  "structural_tuple_check ctx check_id status =
     bindr (tuple_detail ''_total'' total_structural_metric_tuple
              (baseline_mechanism_report (rc_bundle ctx)) (candidate_mechanism_report (rc_bundle ctx)))
       (\<lambda>d. Inr [mechanism_gate_check check_id status d])"

definition structural_complexity_non_regression_checks :: "rule_context \<Rightarrow> pydict list res" where
  "structural_complexity_non_regression_checks ctx =
     structural_tuple_check ctx ''structural_complexity_non_regression''
       (pass_fail (ms_structural_non_regression (rc_state ctx)))"

definition structural_complexity_improves_checks :: "rule_context \<Rightarrow> pydict list res" where
  "structural_complexity_improves_checks ctx =
     structural_tuple_check ctx ''structural_complexity_improves''
       (pass_warn (ms_structural_improves (rc_state ctx)))"

definition structural_regression_debt_checks :: "rule_context \<Rightarrow> pydict list res" where
  "structural_regression_debt_checks ctx =
     (let st = rc_state ctx;
          debt = (ms_score_improves st \<and> \<not> ms_structural_non_regression st \<and> \<not> ms_tests_increase st)
      in Inr [mechanism_gate_check ''structural_regression_debt'' (pass_warn (\<not> debt))
           (''score_improves='' @ bool_lower (ms_score_improves st) @
            '', structural_non_regression='' @ bool_lower (ms_structural_non_regression st) @
            '', tests_increase='' @ bool_lower (ms_tests_increase st) @
            '', failed_axes='' @ list_text (ms_failed_secondary_axes st) @
            '', debt_observation_required='' @ bool_lower debt)])"

definition tests_detail :: "mechanism_state \<Rightarrow> string" where
  "tests_detail st =
     ''baseline=(files='' @ int_text (ms_baseline_test_file_count st) @
     '', cases='' @ int_text (ms_baseline_test_case_count st) @
     '', guardrails='' @ int_text (ms_baseline_test_guardrail_count st) @
     ''), candidate=(files='' @ int_text (ms_candidate_test_file_count st) @
     '', cases='' @ int_text (ms_candidate_test_case_count st) @
     '', guardrails='' @ int_text (ms_candidate_test_guardrail_count st) @ '')''"

definition tests_non_regression_checks :: "rule_context \<Rightarrow> pydict list res" where
  "tests_non_regression_checks ctx =
     Inr [mechanism_gate_check ''tests_non_regression'' (pass_fail (ms_tests_non_regression (rc_state ctx)))
            (tests_detail (rc_state ctx))]"

definition tests_increase_checks :: "rule_context \<Rightarrow> pydict list res" where
  "tests_increase_checks ctx =
     Inr [mechanism_gate_check ''tests_increase'' (pass_warn (ms_tests_increase (rc_state ctx)))
            (tests_detail (rc_state ctx))]"

definition complexity_profile_score_checks :: "rule_context \<Rightarrow> pydict list res" where
  "complexity_profile_score_checks ctx =
     (let b = ms_baseline_complexity_score (rc_state ctx); c = ms_candidate_complexity_score (rc_state ctx)
      in Inr [mechanism_gate_check ''complexity_profile_score'' (pass_warn (c \<le> b))
           (''baseline='' @ int_text b @ '', candidate='' @ int_text c)])"

definition risk_flag_checks :: "rule_context \<Rightarrow> pydict list res" where
  "risk_flag_checks ctx =
     (let b = ms_baseline_risk_flags (rc_state ctx); c = ms_candidate_risk_flags (rc_state ctx)
      in Inr [mechanism_gate_check ''risk_flags'' (pass_warn (\<not> py_truth c))
           (''baseline='' @ py_str b @ '', candidate='' @ py_str c)])"

definition equal_score_secondary_eligibility_checks :: "rule_context \<Rightarrow> pydict list res" where
  "equal_score_secondary_eligibility_checks ctx =
     (let st = rc_state ctx in
      Inr [mechanism_gate_check ''equal_score_secondary_eligibility''
        (pass_warn (ms_equal_score_secondary_eligibility st))
        (''allowed='' @ bool_lower (ms_equal_score_allowed st) @
         '', score_equal='' @ bool_lower (ms_score_equal st) @
         '', score_source='' @ ms_eval_score_source st @
         '', selected_axes='' @ list_text (ms_selected_secondary_axes st) @
         '', failed_axes='' @ list_text (ms_failed_secondary_axes st) @
         '', improved_axes='' @ list_text (ms_improved_secondary_axes st) @
         '', candidate_lint_accepted='' @ bool_lower (ms_candidate_lint_accepted st) @
         '', candidate_eval_accepted='' @ bool_lower (ms_candidate_eval_accepted st) @
         '', selected_non_regression='' @ bool_lower (ms_selected_non_regression st) @
         '', selected_any_improvement='' @ bool_lower (ms_selected_any_improvement st) @
         '', nonempty_line_growth='' @ int_text (ms_nonempty_line_growth st) @
         '', added_test_functions='' @ int_text (ms_added_test_functions st) @
         '', added_test_guardrails='' @ int_text (ms_added_test_guardrails st) @
         '', allowed_line_growth='' @ int_text (ms_allowed_line_growth st))])"

definition signoff_status_checks :: "rule_context \<Rightarrow> pydict list res" where
  "signoff_status_checks ctx =
     bindr (ditem (rc_signoff ctx) ''required'') (\<lambda>r.
       Inr [mechanism_gate_check ''signoff_status'' (ms_signoff_check_status (rc_state ctx))
              (''required='' @ py_lower (py_str r) @ '', status='' @
               py_str (ms_signoff_status (rc_state ctx)))])"

definition MECHANISM_RULE_EVALUATORS :: "(string \<times> (rule_context \<Rightarrow> pydict list res)) list" where
  "MECHANISM_RULE_EVALUATORS =
     [(''primary_target_scope'', primary_target_scope_checks),
      (''primary_target_exists'', primary_target_exists_checks),
      (''report_consistency'', report_consistency_checks),
      (''run_ledger_target_coverage'', run_ledger_target_coverage_checks),
      (''mechanism_report_primary_targets'', mechanism_report_primary_target_checks),
      (''changed_files_manifest_declared_targets'', changed_files_manifest_declared_target_checks),
      (''changed_files_manifest_scope'', changed_files_manifest_scope_checks),
      (''changed_files_manifest_allowed_apply_roots'', changed_files_manifest_allowed_apply_root_checks),
      (''changed_files_manifest_nonempty'', changed_files_manifest_nonempty_checks),
      (''changed_files_manifest_primary_targets_touched'',
         changed_files_manifest_primary_targets_touched_checks),
      (''behavior_delta_presence'', behavior_delta_presence_checks),
      (''candidate_lint_pass'', candidate_lint_pass_checks),
      (''candidate_eval_pass'', candidate_eval_pass_checks),
      (''eval_score_improves'', eval_score_improves_checks),
      (''lint_non_regression'', lint_non_regression_checks),
      (''lint_improves'', lint_improves_checks),
      (''structural_complexity_non_regression'', structural_complexity_non_regression_checks),
      (''structural_complexity_improves'', structural_complexity_improves_checks),
      (''structural_regression_debt'', structural_regression_debt_checks),
      (''tests_non_regression'', tests_non_regression_checks),
      (''tests_increase'', tests_increase_checks),
      (''complexity_profile_score'', complexity_profile_score_checks),
      (''risk_flags'', risk_flag_checks),
      (''equal_score_secondary_eligibility'', equal_score_secondary_eligibility_checks),
      (''signoff_status'', signoff_status_checks)]"

subsection \<open>Reducers and the registry\<close>

definition mechanism_rule_reducer ::
  "rule_context \<Rightarrow> rule_metadata \<Rightarrow> (pydict list \<Rightarrow> pyval res) option res" where
  "mechanism_rule_reducer ctx md =
     (let discard = status_rule_reducer (PyStr ''DISCARD'') PyNone PyNone; r = md_reducer md;
          guarded = (\<lambda>key. bindr (decision_rules ctx) (\<lambda>rules. bindr (py_item rules key) (\<lambda>on.
            Inr (if py_truth on then Some discard else None))))
      in if r = ''none'' then Inr None
         else if r = ''status_fail_discard'' then Inr (Some discard)
         else if r = ''candidate_lint_status'' then guarded ''discard_on_candidate_lint_not_pass''
         else if r = ''candidate_eval_status'' then guarded ''discard_on_candidate_eval_not_pass''
         else if r = ''equal_score_secondary'' then
           Inr (Some (\<lambda>_.
             bindr (ditem (rc_policy ctx) ''mutation_policy'') (\<lambda>mp.
             bindr (ditem (rc_policy ctx) ''equal_score_promotion'') (\<lambda>ep.
               mechanism_equal_score_decision (ms_score_equal (rc_state ctx)) mp ep
                 (ms_selected_non_regression (rc_state ctx))
                 (ms_equal_score_secondary_eligibility (rc_state ctx))))))
         else if r = ''signoff_status'' then
           Inr (Some (\<lambda>_. bindr (decision_rules ctx) (\<lambda>rules.
             mechanism_signoff_decision rules (ms_signoff_status (rc_state ctx)))))
         else Inl (PromotionGatePolicyError (''unsupported mechanism promotion rule reducer: '' @
                md_rule_id md @ '' -> '' @ r)))"

definition mechanism_rule_spec :: "rule_context \<Rightarrow> rule_metadata \<Rightarrow> rule_spec res" where
  "mechanism_rule_spec ctx md =
     (case map_of MECHANISM_RULE_EVALUATORS (md_rule_id md) of
        None \<Rightarrow> Inl (PromotionGatePolicyError
                  (''promotion rule metadata references unknown mechanism evaluator: '' @ md_rule_id md))
      | Some evaluator \<Rightarrow>
          bindr (mechanism_rule_reducer ctx md) (\<lambda>red.
            Inr \<lparr>rs_rule_id = md_rule_id md, rs_build_checks = evaluator ctx,
                 rs_reduce_decision = red, rs_metadata = Some md\<rparr>))"

definition build_mechanism_rule_registry :: "rule_context \<Rightarrow> (string \<times> rule_spec) list res" where
  "build_mechanism_rule_registry ctx =
     bindr (configured_rule_metadata (rc_policy ctx) ''system_mechanism'') (\<lambda>mds.
       mapr (\<lambda>(rid, md). bindr (mechanism_rule_spec ctx md) (\<lambda>s. Inr (rid, s))) mds)"

subsection \<open>The promotion report\<close>

definition non_empty_entry :: "string \<Rightarrow> string \<Rightarrow> pydict" where
  "non_empty_entry k v = (if v = [] then [] else [(k, PyStr v)])"

definition build_mechanism_report_inputs :: "gate_inputs \<Rightarrow> pydict" where
  "build_mechanism_report_inputs i =
     [(''baseline_eval_report'', PyStr (gi_baseline_eval_rel i)),
      (''candidate_eval_report'', PyStr (gi_candidate_eval_rel i)),
      (''baseline_lint_report'', PyStr (gi_baseline_lint_rel i)),
      (''candidate_lint_report'', PyStr (gi_candidate_lint_rel i)),
      (''baseline_mechanism_report'', PyStr (gi_baseline_mechanism_rel i)),
      (''candidate_mechanism_report'', PyStr (gi_candidate_mechanism_rel i)),
      (''changed_files_manifest'', PyStr (gi_changed_files_manifest_rel i)),
      (''run_ledger'', PyStr (gi_run_ledger_rel i))] @
     non_empty_entry ''behavior_delta'' (gi_behavior_delta_rel i) @
     non_empty_entry ''baseline_mechanism_contract_eval_report'' (gi_baseline_contract_eval_rel i) @
     non_empty_entry ''candidate_mechanism_contract_eval_report'' (gi_candidate_contract_eval_rel i)"

text \<open>All failing results, with repetition, as (page, eval) pairs.\<close>

definition all_failures :: "pydict \<Rightarrow> (string \<times> string) list list res" where
  "all_failures report =
     bindr (py_iter (dget report ''pages'' (PyList []))) (\<lambda>pages.
       mapr (\<lambda>p. failed_results (the_dict p)) (filter is_dict pages))"

definition eval_failure_counts :: "pydict \<Rightarrow> (string \<times> int) list res" where
  "eval_failure_counts report =
     bindr (all_failures report) (\<lambda>fs.
       let ids = map snd (concat fs)
       in Inr (map (\<lambda>e. (e, int (count_list ids e))) (py_sorted_set ids)))"

definition failed_page_count :: "pydict \<Rightarrow> int res" where
  "failed_page_count report =
     bindr (all_failures report) (\<lambda>fs. Inr (int (length (filter (\<lambda>f. f \<noteq> []) fs))))"

definition failure_count_items :: "(string \<times> int) list \<Rightarrow> pyval" where
  "failure_count_items counts =
     PyList (map (\<lambda>(e, n). PyDict [(''eval'', PyStr e), (''count'', PyInt n)]) counts)"

definition failure_delta_items :: "(string \<times> int) list \<Rightarrow> (string \<times> int) list \<Rightarrow> pyval" where
  "failure_delta_items base cand =
     PyList (List.map_filter (\<lambda>e.
       let b = dget base e 0; c = dget cand e 0 in
       if c - b = 0 then None
       else Some (PyDict [(''eval'', PyStr e), (''baseline_count'', PyInt b),
                          (''candidate_count'', PyInt c), (''delta'', PyInt (c - b))]))
       (py_sorted_set (map fst base @ map fst cand)))"

definition global_eval_delta :: "gate_inputs \<Rightarrow> pydict res" where
  "global_eval_delta i =
     (let b = gi_baseline_eval_report i; c = gi_candidate_eval_report i in
      bindr (ditem b ''status'') (\<lambda>bs. bindr (ditem c ''status'') (\<lambda>cs.
      bindr (item_int b ''total_score'') (\<lambda>bt. bindr (item_int c ''total_score'') (\<lambda>ct.
      bindr (item_int b ''max_score'') (\<lambda>bm. bindr (item_int c ''max_score'') (\<lambda>cm.
        Inr [(''baseline_status'', bs), (''candidate_status'', cs),
             (''baseline_total_score'', PyInt bt), (''candidate_total_score'', PyInt ct),
             (''total_score_delta'', PyInt (ct - bt)),
             (''baseline_max_score'', PyInt bm), (''candidate_max_score'', PyInt cm),
             (''max_score_delta'', PyInt (cm - bm)), (''score_regressed'', PyBool (ct < bt)),
             (''status_regressed'', PyBool (bs = PyStr ''pass'' \<and> cs \<noteq> PyStr ''pass''))])))))))"

definition new_keys :: "(string \<times> string) list \<Rightarrow> (string \<times> string) list \<Rightarrow> (string \<times> string) list" where
  "new_keys cand base = filter (\<lambda>k. k \<notin> set base) cand"

definition sum_counts :: "(string \<times> int) list \<Rightarrow> int" where
  "sum_counts counts = sum_list (map snd counts)"

definition global_eval_failure_summary :: "gate_inputs \<Rightarrow> pydict res" where
  "global_eval_failure_summary i =
     (let b = gi_baseline_eval_report i; c = gi_candidate_eval_report i in
      bindr (eval_failure_counts b) (\<lambda>bc. bindr (eval_failure_counts c) (\<lambda>cc.
      bindr (eval_failure_keys b) (\<lambda>bk. bindr (eval_failure_keys c) (\<lambda>ck.
      bindr (failed_page_count b) (\<lambda>bp. bindr (failed_page_count c) (\<lambda>cp.
        Inr [(''baseline_failed_check_count'', PyInt (sum_counts bc)),
             (''candidate_failed_check_count'', PyInt (sum_counts cc)),
             (''failed_check_delta'', PyInt (sum_counts cc - sum_counts bc)),
             (''baseline_failed_page_count'', PyInt bp), (''candidate_failed_page_count'', PyInt cp),
             (''failed_page_delta'', PyInt (cp - bp)),
             (''baseline_failures_by_eval'', failure_count_items bc),
             (''candidate_failures_by_eval'', failure_count_items cc),
             (''changed_failures_by_eval'', failure_delta_items bc cc),
             (''candidate_new_failure_count'', PyInt (int (length (new_keys ck bk)))),
             (''candidate_resolved_failure_count'', PyInt (int (length (new_keys bk ck))))])))))))"

definition CONTENT_CORPUS_EVAL_IDS :: "string list" where
  "CONTENT_CORPUS_EVAL_IDS = [''source_page_substance'']"

definition count_selected_eval_failures :: "(string \<times> int) list \<Rightarrow> string list \<Rightarrow> int" where
  "count_selected_eval_failures counts selected =
     sum_counts (filter (\<lambda>(e, n). e \<in> set selected) counts)"

definition global_eval_lane_summary :: "gate_inputs \<Rightarrow> pydict res" where
  "global_eval_lane_summary i =
     bindr (eval_failure_counts (gi_baseline_eval_report i)) (\<lambda>bc.
     bindr (eval_failure_counts (gi_candidate_eval_report i)) (\<lambda>cc.
     bindr (eval_failure_keys (gi_candidate_eval_report i)) (\<lambda>ck.
     bindr (eval_failure_keys (gi_baseline_eval_report i)) (\<lambda>bk.
       let corpus = CONTENT_CORPUS_EVAL_IDS;
           bb = count_selected_eval_failures bc corpus; cb = count_selected_eval_failures cc corpus;
           fresh = new_keys ck bk
       in Inr [(''global_eval_role'', PyStr ''non_regression_guard''),
               (''content_corpus_eval_ids'', py_strs (py_sorted corpus)),
               (''candidate_content_corpus_backlog_count'', PyInt cb),
               (''content_corpus_backlog_delta'', PyInt (cb - bb)),
               (''content_corpus_backlog_like'', PyBool (0 < cb \<and> fresh = [])),
               (''content_corpus_backlog_evals_present'',
                  py_strs (py_sorted (filter (\<lambda>e. e \<in> set (map fst cc)) corpus))),
               (''mechanism_local_failure_count'',
                  PyInt (sum_counts (filter (\<lambda>(e, n). e \<notin> set corpus) cc))),
               (''mechanism_local_new_failure_count'',
                  PyInt (int (length (filter (\<lambda>k. snd k \<notin> set corpus) fresh)))),
               (''recommended_lane'',
                  PyStr (if 0 < cb \<and> fresh = [] then ''content_corpus''
                         else if fresh \<noteq> [] then ''mechanism_or_global_regression'' else ''none''))]))))"

definition mechanism_contract_eval_delta :: "gate_inputs \<Rightarrow> pydict res" where
  "mechanism_contract_eval_delta i =
     (case (gi_baseline_contract_eval_report i, gi_candidate_contract_eval_report i) of
        (Some b, Some c) \<Rightarrow>
          bindr (item_int c ''total_score'') (\<lambda>ct. bindr (item_int b ''total_score'') (\<lambda>bt.
          bindr (ditem b ''status'') (\<lambda>bs. bindr (ditem c ''status'') (\<lambda>cs.
            Inr [(''source'', PyStr ''provided''),
                 (''score_source'', PyStr MECHANISM_CONTRACT_EVAL_SCORE_SOURCE),
                 (''baseline_report'', PyStr (gi_baseline_contract_eval_rel i)),
                 (''candidate_report'', PyStr (gi_candidate_contract_eval_rel i)),
                 (''baseline_status'', bs), (''candidate_status'', cs),
                 (''baseline_total_score'', PyInt bt), (''candidate_total_score'', PyInt ct),
                 (''total_score_delta'', PyInt (ct - bt)),
                 (''score_improves'', PyBool (0 < ct - bt)), (''score_equal'', PyBool (ct - bt = 0))]))))
      | _ \<Rightarrow>
          Inr [(''source'', PyStr ''missing''),
               (''score_source'', PyStr MISSING_MECHANISM_CONTRACT_EVAL_SCORE_SOURCE),
               (''baseline_report'', PyStr ''''), (''candidate_report'', PyStr ''''),
               (''baseline_status'', PyStr ''''), (''candidate_status'', PyStr ''''),
               (''baseline_total_score'', PyInt 0), (''candidate_total_score'', PyInt 0),
               (''total_score_delta'', PyInt 0),
               (''score_improves'', PyBool False), (''score_equal'', PyBool False)])"

definition candidate_failure_mode :: "pydict \<Rightarrow> pydict \<Rightarrow> string" where
  "candidate_failure_mode delta failure_summary =
     (if dget delta ''candidate_status'' PyNone = PyStr ''pass'' then ''candidate_clean''
      else if dget delta ''score_regressed'' PyNone = PyBool True \<or>
              dget delta ''status_regressed'' PyNone = PyBool True \<or>
              (case dget failure_summary ''candidate_new_failure_count'' PyNone of
                 PyInt n \<Rightarrow> 0 < n | _ \<Rightarrow> False)
      then ''candidate_regression''
      else ''baseline_backlog_non_regression'')"

definition build_mechanism_report_diagnostics :: "string \<Rightarrow> gate_inputs \<Rightarrow> pydict res" where
  "build_mechanism_report_diagnostics artifact_class i =
     bindr (global_eval_delta i) (\<lambda>delta.
     bindr (global_eval_failure_summary i) (\<lambda>failures.
     bindr (global_eval_lane_summary i) (\<lambda>lanes.
     bindr (mechanism_contract_eval_delta i) (\<lambda>contract.
       let mode = candidate_failure_mode delta failures;
           mechanism = (artifact_class = ''system_mechanism'');
           provided = (dget contract ''source'' PyNone = PyStr ''provided'')
       in Inr
         [(''global_eval_delta'', PyDict delta),
          (''global_eval_failure_summary'', PyDict failures),
          (''global_eval_lane_summary'', PyDict lanes),
          (''mechanism_contract_eval'', PyDict contract),
          (''mechanism_eval_applicability'', PyDict
             [(''artifact_class'', PyStr artifact_class),
              (''classification'', PyStr (if mechanism \<and> provided then ''mechanism_contract_eval''
                 else if mechanism then ''global_health_guard_only'' else ''direct_eval_signal'')),
              (''candidate_failure_mode'', PyStr mode),
              (''candidate_regression'', PyBool (mode = ''candidate_regression'')),
              (''corpus_backlog_like'', PyBool (mode = ''baseline_backlog_non_regression'')),
              (''reason'', PyStr
                 (if mechanism \<and> provided then
                    ''mechanism_contract_eval scores changed targets, behavior-delta, '' @
                    ''promotion contract, and telemetry/schema contract while wiki_eval remains '' @
                    ''a global non-regression guard''
                  else if mechanism then
                    ''mechanism_contract_eval pair is missing, so wiki_eval remains only '' @
                    ''a global non-regression health guard and cannot authorize promotion''
                  else ''wiki_eval directly applies to page-class promotion candidates''))])]))))"

definition PROMOTION_REPORT_SCHEMA :: string where
  "PROMOTION_REPORT_SCHEMA = ''ops/schemas/promotion-report.schema.json''"

definition assemble_mechanism_promotion_report ::
  "string \<Rightarrow> string \<Rightarrow> string list \<Rightarrow> string list \<Rightarrow> pydict \<Rightarrow> pydict \<Rightarrow> gate_inputs \<Rightarrow> pydict list \<Rightarrow>
   string \<Rightarrow> pydict option \<Rightarrow> pydict option \<Rightarrow> pydict res" where
  "assemble_mechanism_promotion_report run_id artifact_class primary supporting signoff logd i checks d
       record_opt reduction_opt =
     bindr (ditem logd ''summary'') (\<lambda>summary.
     bindr (ditem signoff ''required'') (\<lambda>sr.
     bindr (ditem logd ''required'') (\<lambda>lr.
     bindr (build_mechanism_report_diagnostics artifact_class i) (\<lambda>diagnostics.
       Inr ([(''$schema'', PyStr PROMOTION_REPORT_SCHEMA), (''run_id'', PyStr run_id),
             (''mode'', PyStr ''report_only''), (''artifact_class'', PyStr artifact_class),
             (''decision'', PyStr d), (''outcome'', PyStr (decision_to_outcome d)),
             (''summary'', summary), (''primary_targets'', py_strs primary),
             (''supporting_targets'', py_strs supporting),
             (''checks'', PyList (map PyDict checks)), (''signoff'', PyDict signoff),
             (''log'', PyDict logd),
             (''history'', PyDict (build_history_status ''active'' '''' '''' '''')),
             (''next_action'', PyStr (decision_to_next_action d (py_truth sr) (py_truth lr))),
             (''inputs'', PyDict (build_mechanism_report_inputs i)),
             (''diagnostics'', PyDict diagnostics)] @
            (case record_opt of Some r \<Rightarrow> [(''decision_record'', PyDict r)] | None \<Rightarrow> []) @
            (case reduction_opt of Some r \<Rightarrow> [(''decision_reduction'', PyDict r)] | None \<Rightarrow> []))))))"

subsection \<open>The gate\<close>

definition finalize_mechanism_promotion_report ::
  "(string \<Rightarrow> string) \<Rightarrow> string \<Rightarrow> string \<Rightarrow> pydict \<Rightarrow> string list \<Rightarrow> string list \<Rightarrow> pydict \<Rightarrow> pydict \<Rightarrow>
   gate_inputs \<Rightarrow> (string \<times> rule_spec) list \<Rightarrow> pydict res" where
  "finalize_mechanism_promotion_report digest16 run_id artifact_class policy primary supporting
       signoff logd i rules =
     bindr (configured_rule_ids policy ''system_mechanism'') (\<lambda>ids.
     bindr (evaluate_rule_registry ids rules) (\<lambda>(checks, triggered).
     bindr (collapse_rule_decision_contract digest16 triggered run_id artifact_class
              (dget policy ''version'' PyNone) ''system_mechanism'' (PyDict signoff) ''PROMOTE'') (\<lambda>c.
       assemble_mechanism_promotion_report run_id artifact_class primary supporting signoff logd i
         checks (dc_decision c) (Some (dc_record c)) (Some (dc_reduction c)))))"

record mechanism_request =
  mr_env :: vault_env
  mr_run_id :: string
  mr_policy :: pydict
  mr_policy_path :: string
  mr_artifact_class :: string
  mr_primary_targets :: "string list"
  mr_supporting_targets :: "string list"
  mr_signoff :: pydict
  mr_log :: pydict
  mr_inputs :: gate_inputs
  mr_auto_improve_run :: bool

definition request_context :: "mechanism_request \<Rightarrow> mechanism_state \<Rightarrow> rule_context" where
  "request_context rq st =
     \<lparr>rc_env = mr_env rq, rc_run_id = mr_run_id rq, rc_policy = mr_policy rq,
      rc_primary_targets = mr_primary_targets rq, rc_supporting_targets = mr_supporting_targets rq,
      rc_signoff = mr_signoff rq, rc_inputs = mr_inputs rq, rc_state = st,
      rc_auto_improve_run = mr_auto_improve_run rq\<rparr>"

definition mechanism_class_report :: "(string \<Rightarrow> string) \<Rightarrow> mechanism_request \<Rightarrow> pydict res" where
  "mechanism_class_report digest16 rq =
     bindr (build_mechanism_promotion_state (mr_env rq) (mr_policy rq) (mr_policy_path rq)
              (mr_artifact_class rq) (mr_primary_targets rq) (mr_signoff rq) (mr_inputs rq)) (\<lambda>st.
     bindr (build_mechanism_rule_registry (request_context rq st)) (\<lambda>rules.
       finalize_mechanism_promotion_report digest16 (mr_run_id rq) (mr_artifact_class rq)
         (mr_policy rq) (mr_primary_targets rq) (mr_supporting_targets rq) (mr_signoff rq)
         (mr_log rq) (mr_inputs rq) rules))"

subsection \<open>What a configured rule decides\<close>

text \<open>The policy configures rule \<open>rid\<close> with reducer \<open>red\<close>.\<close>

definition rule_configured :: "pydict \<Rightarrow> string \<Rightarrow> string \<Rightarrow> bool" where
  "rule_configured policy rid red =
     (case (configured_rule_ids policy ''system_mechanism'',
            configured_rule_metadata policy ''system_mechanism'') of
        (Inr ids, Inr mds) \<Rightarrow>
          rid \<in> set ids \<and> (case map_of mds rid of
             Some md \<Rightarrow> md_rule_id md = rid \<and> md_reducer md = red | None \<Rightarrow> False)
      | _ \<Rightarrow> False)"

lemma rule_configuredD:
  assumes "rule_configured policy rid red"
  obtains ids mds md where "configured_rule_ids policy ''system_mechanism'' = Inr ids" and "rid \<in> set ids"
    and "configured_rule_metadata policy ''system_mechanism'' = Inr mds" and "map_of mds rid = Some md"
    and "md_rule_id md = rid" and "md_reducer md = red"
  using assms by (auto simp: rule_configured_def split: sum.splits option.splits)

text \<open>The gate ran to the report: its stages and the rule results it saw.\<close>

lemma mechanism_class_report_InrD:
  assumes "mechanism_class_report digest16 rq = Inr report"
  obtains st rules ids rs c where
    "build_mechanism_promotion_state (mr_env rq) (mr_policy rq) (mr_policy_path rq)
       (mr_artifact_class rq) (mr_primary_targets rq) (mr_signoff rq) (mr_inputs rq) = Inr st"
    and "build_mechanism_rule_registry (request_context rq st) = Inr rules"
    and "configured_rule_ids (mr_policy rq) ''system_mechanism'' = Inr ids"
    and "mapr (rule_result rules) ids = Inr rs"
    and "contract_ok (PyDict (mr_signoff rq))
           (collapse_verdicts Promote (List.map_filter (rule_vote rules) ids)) c"
    and "dget report ''decision'' PyNone = PyStr (dc_decision c)"
    and "dget report ''decision_record'' PyNone = PyDict (dc_record c)"
proof -
  obtain st rules where st: "build_mechanism_promotion_state (mr_env rq) (mr_policy rq) (mr_policy_path rq)
       (mr_artifact_class rq) (mr_primary_targets rq) (mr_signoff rq) (mr_inputs rq) = Inr st"
    and rules: "build_mechanism_rule_registry (request_context rq st) = Inr rules"
    and fin: "finalize_mechanism_promotion_report digest16 (mr_run_id rq) (mr_artifact_class rq)
         (mr_policy rq) (mr_primary_targets rq) (mr_supporting_targets rq) (mr_signoff rq)
         (mr_log rq) (mr_inputs rq) rules = Inr report"
    using assms by (auto simp: mechanism_class_report_def bindr_eq_Inr)
  obtain ids checks triggered c where ids: "configured_rule_ids (mr_policy rq) ''system_mechanism'' = Inr ids"
    and ev: "evaluate_rule_registry ids rules = Inr (checks, triggered)"
    and c: "collapse_rule_decision_contract digest16 triggered (mr_run_id rq) (mr_artifact_class rq)
              (dget (mr_policy rq) ''version'' PyNone) ''system_mechanism'' (PyDict (mr_signoff rq))
              ''PROMOTE'' = Inr c"
    and rep: "assemble_mechanism_promotion_report (mr_run_id rq) (mr_artifact_class rq)
         (mr_primary_targets rq) (mr_supporting_targets rq) (mr_signoff rq) (mr_log rq) (mr_inputs rq)
         checks (dc_decision c) (Some (dc_record c)) (Some (dc_reduction c)) = Inr report"
    using fin by (auto simp: finalize_mechanism_promotion_report_def bindr_eq_Inr)
  have ok: "contract_ok (PyDict (mr_signoff rq))
           (collapse_verdicts Promote (List.map_filter (rule_vote rules) ids)) c"
    using evaluate_collapse [OF ev, of "''PROMOTE''" Promote digest16 "mr_run_id rq" "mr_artifact_class rq"
        "dget (mr_policy rq) ''version'' PyNone" "''system_mechanism''" "PyDict (mr_signoff rq)"] c
    by auto
  obtain rs where rs: "mapr (rule_result rules) ids = Inr rs"
    using ev by (auto simp: evaluate_rule_registry_def bindr_eq_Inr)
  have "dget report ''decision'' PyNone = PyStr (dc_decision c)"
    and "dget report ''decision_record'' PyNone = PyDict (dc_record c)"
    using rep by (auto simp: assemble_mechanism_promotion_report_def bindr_eq_Inr dget_def)
  with st rules ids rs ok show thesis by (rule that)
qed

lemma registry_entry:
  assumes "build_mechanism_rule_registry ctx = Inr rules"
    and "configured_rule_metadata (rc_policy ctx) ''system_mechanism'' = Inr mds"
    and "map_of mds rid = Some md"
  shows "\<exists>spec. map_of rules rid = Some spec \<and> mechanism_rule_spec ctx md = Inr spec"
proof -
  have "mapr (\<lambda>(rid, md). bindr (mechanism_rule_spec ctx md) (\<lambda>s. Inr (rid, s))) mds = Inr rules"
    using assms(1,2) by (auto simp: build_mechanism_rule_registry_def bindr_eq_Inr)
  then show ?thesis using assms(3)
    by (induction mds arbitrary: rules) (auto simp: bindr_eq_Inr split: if_splits)
qed

lemma collapse_Promote_iff:
  "collapse_verdicts Promote vs = Promote \<longleftrightarrow> Discard \<notin> set vs \<and> Hold \<notin> set vs"
  by (auto simp: collapse_verdicts_cases)

lemma in_map_filter: "x \<in> set xs \<Longrightarrow> f x = Some y \<Longrightarrow> y \<in> set (List.map_filter f xs)"
  by (force simp: List.map_filter_def)

lemma decided_rule_checks: "decided_rule rid spec checks v = Inr (cs, t) \<Longrightarrow> cs = checks"
  by (cases "validate_promotion_decision v") (auto simp: decided_rule_def split: if_splits)

text \<open>
  On a promoted report every configured rule was evaluated at the state of the run, and if its
  reducer gave an answer, that answer was neither DISCARD nor HOLD.
\<close>

lemma promoted_rule:
  assumes rep: "mechanism_class_report digest16 rq = Inr report"
    and pr: "dget report ''decision'' PyNone = PyStr ''PROMOTE''"
    and conf: "rule_configured (mr_policy rq) rid red"
    and st: "build_mechanism_promotion_state (mr_env rq) (mr_policy rq) (mr_policy_path rq)
       (mr_artifact_class rq) (mr_primary_targets rq) (mr_signoff rq) (mr_inputs rq) = Inr st"
  shows "\<exists>evaluator checks md ro. map_of MECHANISM_RULE_EVALUATORS rid = Some evaluator \<and>
     evaluator (request_context rq st) = Inr checks \<and> checks \<noteq> [] \<and> md_reducer md = red \<and>
     mechanism_rule_reducer (request_context rq st) md = Inr ro \<and>
     (\<forall>f v. ro = Some f \<longrightarrow> f checks = Inr v \<longrightarrow> v \<noteq> PyStr ''DISCARD'' \<and> v \<noteq> PyStr ''HOLD'') \<and>
     (\<forall>f. ro = Some f \<longrightarrow> (\<exists>v. f checks = Inr v))"
proof -
  obtain st' rules ids rs c where
    st': "build_mechanism_promotion_state (mr_env rq) (mr_policy rq) (mr_policy_path rq)
       (mr_artifact_class rq) (mr_primary_targets rq) (mr_signoff rq) (mr_inputs rq) = Inr st'"
    and rules: "build_mechanism_rule_registry (request_context rq st') = Inr rules"
    and ids: "configured_rule_ids (mr_policy rq) ''system_mechanism'' = Inr ids"
    and rs: "mapr (rule_result rules) ids = Inr rs"
    and ok: "contract_ok (PyDict (mr_signoff rq))
           (collapse_verdicts Promote (List.map_filter (rule_vote rules) ids)) c"
    and dec: "dget report ''decision'' PyNone = PyStr (dc_decision c)"
    using mechanism_class_report_InrD [OF rep] by metis
  let ?votes = "List.map_filter (rule_vote rules) ids"
  have "verdict_text (collapse_verdicts Promote ?votes) = verdict_text Promote"
    using ok dec pr by (simp add: contract_ok_def)
  then have "collapse_verdicts Promote ?votes = Promote" by (simp only: verdict_text_inj)
  then have none: "Discard \<notin> set ?votes" "Hold \<notin> set ?votes"
    by (simp_all add: collapse_Promote_iff)
  obtain mds md where rid: "rid \<in> set ids"
    and mds: "configured_rule_metadata (mr_policy rq) ''system_mechanism'' = Inr mds" "map_of mds rid = Some md"
    and md: "md_rule_id md = rid" "md_reducer md = red"
    using rule_configuredD [OF conf] ids by (metis sum.inject(2))
  have s: "st' = st" using st st' by simp
  obtain spec where spec: "map_of rules rid = Some spec"
    "mechanism_rule_spec (request_context rq st) md = Inr spec"
    using registry_entry [OF rules _ mds(2)] mds(1) s by (auto simp: request_context_def)
  obtain evaluator ro where ev: "map_of MECHANISM_RULE_EVALUATORS rid = Some evaluator"
    and ro: "mechanism_rule_reducer (request_context rq st) md = Inr ro"
    and sp: "rs_build_checks spec = evaluator (request_context rq st)" "rs_reduce_decision spec = ro"
    using spec(2) md by (auto simp: mechanism_rule_spec_def bindr_eq_Inr split: option.splits)
  obtain checks t where rr: "rule_result rules rid = Inr (checks, t)"
    using mapr_Inr_in [OF rs rid] by auto
  have built: "evaluator (request_context rq st) = Inr checks" "checks \<noteq> []"
    using rr spec(1) sp
    by (auto simp: rule_result_def bindr_eq_Inr dest: decided_rule_checks split: if_splits option.splits)
  have vote: "rule_vote rules rid \<noteq> Some Discard" "rule_vote rules rid \<noteq> Some Hold"
    using in_map_filter [OF rid] none by metis+
  have red: "\<exists>v. f checks = Inr v \<and> decided_rule rid spec checks v = Inr (checks, t)" if "ro = Some f" for f
    using rr spec(1) sp that built by (auto simp: rule_result_def bindr_eq_Inr split: if_splits)
  have nodecision: "v \<noteq> PyStr ''DISCARD'' \<and> v \<noteq> PyStr ''HOLD''"
    if f: "ro = Some f" and v: "f checks = Inr v" for f v
  proof -
    have dr: "decided_rule rid spec checks v = Inr (checks, t)" using red [OF f] v by simp
    have "rule_vote rules rid = Some w" if "v = PyStr (verdict_text w)" for w
    proof -
      have "t = Some (triggered_decision rid spec checks (verdict_text w))"
        using dr that by (simp add: decided_rule_def)
      then show ?thesis using rule_result_vote [OF rr] by simp
    qed
    from this [of Discard] this [of Hold] vote show ?thesis by auto
  qed
  show ?thesis
    by (intro exI [of _ evaluator] exI [of _ checks] exI [of _ md] exI [of _ ro])
      (use ev built md ro nodecision red in blast)
qed

lemma promoted_no_fail:
  assumes rep: "mechanism_class_report digest16 rq = Inr report"
    and pr: "dget report ''decision'' PyNone = PyStr ''PROMOTE''"
    and conf: "rule_configured (mr_policy rq) rid ''status_fail_discard''"
    and st: "build_mechanism_promotion_state (mr_env rq) (mr_policy rq) (mr_policy_path rq)
       (mr_artifact_class rq) (mr_primary_targets rq) (mr_signoff rq) (mr_inputs rq) = Inr st"
  obtains evaluator checks where "map_of MECHANISM_RULE_EVALUATORS rid = Some evaluator"
    and "evaluator (request_context rq st) = Inr checks" and "\<not> has_status ''FAIL'' checks"
proof -
  from promoted_rule [OF rep pr conf st] obtain evaluator checks md ro where
    ev: "map_of MECHANISM_RULE_EVALUATORS rid = Some evaluator" "evaluator (request_context rq st) = Inr checks"
    and md: "md_reducer md = ''status_fail_discard''"
    and ro: "mechanism_rule_reducer (request_context rq st) md = Inr ro"
    and nd: "\<forall>f v. ro = Some f \<longrightarrow> f checks = Inr v \<longrightarrow> v \<noteq> PyStr ''DISCARD'' \<and> v \<noteq> PyStr ''HOLD''"
    by blast
  have "ro = Some (status_rule_reducer (PyStr ''DISCARD'') PyNone PyNone)"
    using ro md by (simp add: mechanism_rule_reducer_def Let_def)
  with nd have "\<not> has_status ''FAIL'' checks" by (auto simp: status_rule_reducer_def)
  with ev show thesis by (rule that)
qed
subsection \<open>Reading the state\<close>

lemma build_state_InrD:
  assumes "build_mechanism_promotion_state env policy path cls targets signoff i = Inr st"
  obtains equal_score_policy tv ss ls ts tc rk sx so where
    "ditem policy ''equal_score_promotion'' = Inr equal_score_policy"
    and "score_state_of (ms_bundle st) = Inr ss" and "lint_state_of (ms_bundle st) = Inr ls"
    and "structural_state_of (ms_bundle st) equal_score_policy = Inr ts"
    and "test_coverage_state_of ts = Inr tc"
    and "secondary_axis_state_of policy cls equal_score_policy ss ls ts tc = Inr sx"
    and "signoff_state_of signoff = Inr so"
    and "normalize_mechanism_artifact_bundle (inputs_attributes i) = Inr (ms_bundle st)"
    and "st = mechanism_state_of (ms_bundle st) path (dget policy ''version'' PyNone) tv ss ls ts tc rk sx so"
proof -
  obtain equal_score_policy b tv ss ls ts tc rk sx so where
    parts: "ditem policy ''equal_score_promotion'' = Inr equal_score_policy"
      "score_state_of b = Inr ss" "lint_state_of b = Inr ls"
      "structural_state_of b equal_score_policy = Inr ts" "test_coverage_state_of ts = Inr tc"
      "secondary_axis_state_of policy cls equal_score_policy ss ls ts tc = Inr sx"
      "signoff_state_of signoff = Inr so"
      "normalize_mechanism_artifact_bundle (inputs_attributes i) = Inr b"
    and st: "st = mechanism_state_of b path (dget policy ''version'' PyNone) tv ss ls ts tc rk sx so"
    using assms unfolding build_mechanism_promotion_state_def bindr_eq_Inr sum.inject by blast
  have "ms_bundle st = b" by (simp only: st mechanism_state_of_def mechanism_state.simps)
  then have b: "b = ms_bundle st" by simp
  show thesis using parts st unfolding b by (rule that)
qed

lemma score_state_status:
  assumes "score_state_of b = Inr ss"
  shows "ss_improvement_check_status ss \<in> {''PASS'', ''WARN'', ''FAIL''}"
proof -
  obtain source base_rep cand_rep where src: "score_source_reports b = (source, base_rep, cand_rep)"
    by (cases "score_source_reports b")
  have "\<exists>source base cand p g g' bp cp new. ss = score_state_from source base cand p g g' bp cp new"
    using assms unfolding score_state_of_def Let_def bindr_eq_Inr src prod.case by blast
  moreover have "ss_improvement_check_status (score_state_from source base cand p g g' bp cp new)
      \<in> {''PASS'', ''WARN'', ''FAIL''}" for source base cand p g g' bp cp new
    by (simp add: score_state_from_def Let_def)
  ultimately show ?thesis by metis
qed

lemma mechanism_state_fields [simp]:
  fixes b path v tv ss ls ts tc rk sx so
  defines "st \<equiv> mechanism_state_of b path v tv ss ls ts tc rk sx so"
  shows "ms_bundle st = b"
    and "ms_improvement_check_status st = ss_improvement_check_status ss"
    and "ms_score_equal st = ss_score_equal ss"
    and "ms_candidate_eval_accepted st = candidate_eval_accepted ss"
    and "ms_selected_non_regression st = sx_selected_non_regression sx"
    and "ms_equal_score_secondary_eligibility st = sx_equal_score_secondary_eligibility sx"
    and "ms_signoff_status st = so_status so"
  by (simp_all only: st_def mechanism_state_of_def mechanism_state.simps)

lemma request_context_fields [simp]:
  "rc_state (request_context rq st) = st" "rc_policy (request_context rq st) = mr_policy rq"
  "rc_inputs (request_context rq st) = mr_inputs rq" "rc_signoff (request_context rq st) = mr_signoff rq"
  by (simp_all add: request_context_def)

lemma equal_score_reducer:
  "md_reducer md = ''equal_score_secondary'' \<Longrightarrow> mechanism_rule_reducer ctx md = Inr (Some (\<lambda>_.
     bindr (ditem (rc_policy ctx) ''mutation_policy'') (\<lambda>mp.
     bindr (ditem (rc_policy ctx) ''equal_score_promotion'') (\<lambda>ep.
       mechanism_equal_score_decision (ms_score_equal (rc_state ctx)) mp ep
         (ms_selected_non_regression (rc_state ctx))
         (ms_equal_score_secondary_eligibility (rc_state ctx))))))"
  by (simp add: mechanism_rule_reducer_def Let_def)

lemma signoff_reducer:
  "md_reducer md = ''signoff_status'' \<Longrightarrow> mechanism_rule_reducer ctx md = Inr (Some (\<lambda>_.
     bindr (decision_rules ctx) (\<lambda>rules. mechanism_signoff_decision rules (ms_signoff_status (rc_state ctx)))))"
  by (simp add: mechanism_rule_reducer_def Let_def)

definition policy_flag :: "pydict \<Rightarrow> string list \<Rightarrow> bool" where
  "policy_flag policy ks = (case py_items (PyDict policy) ks of Inr v \<Rightarrow> py_truth v | Inl _ \<Rightarrow> False)"

lemma policy_flag_two:
  assumes "policy_flag policy [k, l]" and "ditem policy k = Inr d"
  shows "\<exists>v. py_item d l = Inr v \<and> py_truth v"
  using assms by (auto simp: policy_flag_def py_items_def bindr_eq_Inr split: sum.splits)

lemma has_status_single [simp]: "has_status s [c] \<longleftrightarrow> dget c ''status'' PyNone = PyStr s"
  by (simp add: has_status_def)

lemma evaluators_lookup [simp]:
  "map_of MECHANISM_RULE_EVALUATORS ''eval_score_improves'' = Some eval_score_improves_checks"
  "map_of MECHANISM_RULE_EVALUATORS ''equal_score_secondary_eligibility'' =
     Some equal_score_secondary_eligibility_checks"
  "map_of MECHANISM_RULE_EVALUATORS ''signoff_status'' = Some signoff_status_checks"
  "map_of MECHANISM_RULE_EVALUATORS ''changed_files_manifest_scope'' =
     Some changed_files_manifest_scope_checks"
  "map_of MECHANISM_RULE_EVALUATORS ''changed_files_manifest_allowed_apply_roots'' =
     Some changed_files_manifest_allowed_apply_root_checks"
  "map_of MECHANISM_RULE_EVALUATORS ''candidate_eval_pass'' = Some candidate_eval_pass_checks"
  by (simp_all add: MECHANISM_RULE_EVALUATORS_def)

subsection \<open>Properties\<close>

text \<open>
  C1: what a PROMOTE decision of the mechanism gate guarantees about the evaluation, under the
  reducers and flags of the shipped policy. The candidate's mechanism contract evaluation
  passes, and either its score is strictly higher than the baseline's, or the scores are equal,
  the global evaluation did not regress (score, status and set of failing checks), no
  configured secondary axis regressed, and at least one of them strictly improved.
\<close>

theorem promotion_requires_improvement:
  assumes rep: "mechanism_class_report digest16 rq = Inr report"
    and pr: "dget report ''decision'' PyNone = PyStr ''PROMOTE''"
    and score_rule: "rule_configured (mr_policy rq) ''eval_score_improves'' ''status_fail_discard''"
    and axis_rule: "rule_configured (mr_policy rq) ''equal_score_secondary_eligibility'' ''equal_score_secondary''"
    and flags: "policy_flag (mr_policy rq) [''mutation_policy'', ''default_requires_eval_improvement'']"
      "policy_flag (mr_policy rq) [''equal_score_promotion'', ''require_any_secondary_improvement'']"
    and b: "normalize_mechanism_artifact_bundle (inputs_attributes (mr_inputs rq)) = Inr b"
  shows "contract_candidate_passes b \<and>
    ((\<exists>s s'. contract_scores b s s' \<and> s < s') \<or>
     ((\<exists>s. contract_scores b s s) \<and> global_eval_kept b \<and>
      (\<exists>axes ep. configured_secondary_axes (mr_policy rq) = Inr axes \<and>
         ditem (mr_policy rq) ''equal_score_promotion'' = Inr ep \<and>
         (\<forall>a \<in> set axes. axis_kept b ep a) \<and> (\<exists>a \<in> set axes. axis_better b a))))"
proof -
  obtain st where st: "build_mechanism_promotion_state (mr_env rq) (mr_policy rq) (mr_policy_path rq)
       (mr_artifact_class rq) (mr_primary_targets rq) (mr_signoff rq) (mr_inputs rq) = Inr st"
    using mechanism_class_report_InrD [OF rep] by metis
  obtain ep tv ss ls ts tc rk sx so where ep: "ditem (mr_policy rq) ''equal_score_promotion'' = Inr ep"
    and ss: "score_state_of b = Inr ss" and ls: "lint_state_of b = Inr ls"
    and ts: "structural_state_of b ep = Inr ts" and tc: "test_coverage_state_of ts = Inr tc"
    and sx: "secondary_axis_state_of (mr_policy rq) (mr_artifact_class rq) ep ss ls ts tc = Inr sx"
    and steq: "st = mechanism_state_of b (mr_policy_path rq) (dget (mr_policy rq) ''version'' PyNone)
                      tv ss ls ts tc rk sx so"
    using build_state_InrD [OF st] b by (metis sum.inject(2))
  have imp: "ss_improvement_check_status ss \<noteq> ''FAIL''"
  proof -
    obtain checks where "eval_score_improves_checks (request_context rq st) = Inr checks"
      and "\<not> has_status ''FAIL'' checks"
      by (rule promoted_no_fail [OF rep pr score_rule st]) simp
    then show ?thesis by (auto simp: eval_score_improves_checks_def steq Let_def)
  qed
  then consider "ss_improvement_check_status ss = ''PASS''" | "ss_improvement_check_status ss = ''WARN''"
    using score_state_status [OF ss] by auto
  then show ?thesis
  proof cases
    case 1
    with score_state_sound(2) [OF ss] show ?thesis by blast
  next
    case 2
    have eq: "ss_score_equal ss" "contract_candidate_passes b" using score_state_sound(3) [OF ss 2] by auto
    obtain checks md ro where md: "md_reducer md = ''equal_score_secondary''"
      and ro: "mechanism_rule_reducer (request_context rq st) md = Inr ro"
      and nd: "\<forall>f v. ro = Some f \<longrightarrow> f checks = Inr v \<longrightarrow> v \<noteq> PyStr ''DISCARD'' \<and> v \<noteq> PyStr ''HOLD''"
      and ran: "\<forall>f. ro = Some f \<longrightarrow> (\<exists>v. f checks = Inr v)"
      using promoted_rule [OF rep pr axis_rule st] by blast
    define f where "f = (\<lambda>_ :: pydict list. bindr (ditem (mr_policy rq) ''mutation_policy'') (\<lambda>mp.
          mechanism_equal_score_decision True mp ep (sx_selected_non_regression sx)
            (sx_equal_score_secondary_eligibility sx)))"
    have f: "ro = Some f"
      using ro equal_score_reducer [OF md, of "request_context rq st"] ep eq(1)
      by (simp add: steq f_def)
    obtain v where v: "f checks = Inr v" using ran f by blast
    obtain mp where mp: "ditem (mr_policy rq) ''mutation_policy'' = Inr mp"
      and dec: "mechanism_equal_score_decision True mp ep (sx_selected_non_regression sx)
            (sx_equal_score_secondary_eligibility sx) = Inr v"
      using v by (auto simp: f_def bindr_eq_Inr)
    have "sx_equal_score_secondary_eligibility sx"
      using dec nd f v policy_flag_two [OF flags(1) mp] policy_flag_two [OF flags(2) ep]
      by (auto simp: mechanism_equal_score_decision_def bindr_eq_Inr split: if_splits)
    note elig = secondary_axis_sound(3) [OF sx ls ts tc this]
    have kept: "global_eval_kept b"
      using elig score_state_sound(1) [OF ss] by (simp add: candidate_eval_accepted_def)
    obtain s where "contract_scores b s s" using score_state_sound(4) [OF ss eq(1)] by blast
    moreover have "\<forall>a \<in> set (sx_selected_axes sx). axis_kept b ep a"
      "\<exists>a \<in> set (sx_selected_axes sx). axis_better b a"
      using secondary_axis_sound(1,2) [OF sx ls ts tc] elig by auto
    moreover have "configured_secondary_axes (mr_policy rq) = Inr (sx_selected_axes sx)"
      by (rule secondary_axis_sound(4) [OF sx ls ts tc])
    ultimately show ?thesis using kept ep eq(2) by blast
  qed
qed
lemma py_items_snoc: "py_items v (ks @ [k]) = bindr (py_items v ks) (\<lambda>d. py_item d k)"
  unfolding py_items_def by (induction ks arbitrary: v) (simp_all add: bindr_def split: sum.splits)

lemma guard_state_clean:
  "manifest_apply_guard_state m roots = Inr g \<Longrightarrow> guard_problems g = [] \<Longrightarrow>
     validate_manifest_apply_guard m roots = Inr g"
  by (simp add: validate_manifest_apply_guard_def)

lemma apply_roots_check_PASS:
  assumes "build_changed_files_allowed_apply_roots_check b roots = Inr c"
    and "dget c ''status'' PyNone \<noteq> PyStr ''FAIL''"
  shows "\<exists>g. validate_manifest_apply_guard (changed_files_manifest_report b) roots = Inr g"
  using assms
  by (cases "manifest_apply_guard_state (changed_files_manifest_report b) roots")
    (auto simp: build_changed_files_allowed_apply_roots_check_def Let_def split: if_splits
      dest: guard_state_clean)

lemma manifest_path_eq:
  assumes "normalize_manifest_repo_path (PyStr s) = Some n"
    and "\<not> py_startswith (normalize_changed_file_path s) INVALID_PREFIX"
  shows "normalize_changed_file_path s = n"
proof -
  have s: "py_strip s \<noteq> []" and raw: "unslash_backslash (py_strip s) \<noteq> []"
    and n: "n = normpath (unslash_backslash (py_strip s))"
    using assms(1) unfolding normalize_manifest_eq
    by (auto simp: Let_def unslash_backslash_def split: if_splits)
  have pre: "py_startswith (INVALID_PREFIX @ t) INVALID_PREFIX" for t
    by (simp add: py_startswith_prefix)
  show ?thesis
    using assms(2) s n pre
    by (auto simp: normalize_changed_file_path_def normalize_repo_path_text_def Let_def split: if_splits)
qed

text \<open>
  C2: containment of a promoted change. If the gate promotes and the policy configures the
  scope rule and the apply-root rule as blockers, every path of the changed-files manifest
  normalises to one contained path that lies, component by component, under a declared target
  of the manifest and under an allowed apply root of the policy.
\<close>

theorem promotion_contains_changes:
  assumes rep: "mechanism_class_report digest16 rq = Inr report"
    and pr: "dget report ''decision'' PyNone = PyStr ''PROMOTE''"
    and scope_rule: "rule_configured (mr_policy rq) ''changed_files_manifest_scope'' ''status_fail_discard''"
    and root_rule: "rule_configured (mr_policy rq) ''changed_files_manifest_allowed_apply_roots''
                      ''status_fail_discard''"
    and b: "normalize_mechanism_artifact_bundle (inputs_attributes (mr_inputs rq)) = Inr b"
    and roots: "py_items (PyDict (mr_policy rq)) [''auto_improve_policy'', ''allowed_apply_roots''] =
                  Inr (PyList allowed)"
    and files: "dget (changed_files_manifest_report b) ''files'' (PyList []) = PyList files"
    and f: "PyDict d \<in> set files" "dget d ''path'' PyNone = PyStr s"
    and m: "manifest_declared_targets b = Inr m"
  shows "\<exists>p. normalize_changed_file_path s = p \<and> normalize_manifest_repo_path (PyStr s) = Some p \<and>
    contained_path p \<and>
    (\<exists>t \<in> set (primary_targets m @ supporting_targets m @ test_files m).
       contained_path (normalize_changed_file_path t) \<and>
       prefix (py_split slash (normalize_changed_file_path t)) (py_split slash p)) \<and>
    (\<exists>a \<in> set allowed. \<exists>r. parse_allowed_apply_root a = Inr r \<and>
       contained_path (normalized_path r) \<and> prefix (py_split slash (normalized_path r)) (py_split slash p))"
proof -
  obtain st where st: "build_mechanism_promotion_state (mr_env rq) (mr_policy rq) (mr_policy_path rq)
       (mr_artifact_class rq) (mr_primary_targets rq) (mr_signoff rq) (mr_inputs rq) = Inr st"
    using mechanism_class_report_InrD [OF rep] by metis
  have bst: "rc_bundle (request_context rq st) = b"
    using build_state_InrD [OF st] b by (metis rc_bundle_def request_context_fields(1) sum.inject(2))
  obtain sc where sc: "build_changed_files_scope_gate_check b = Inr sc"
    "dget sc ''status'' PyNone \<noteq> PyStr ''FAIL''"
  proof -
    obtain checks where "changed_files_manifest_scope_checks (request_context rq st) = Inr checks"
      and "\<not> has_status ''FAIL'' checks"
      by (rule promoted_no_fail [OF rep pr scope_rule st]) simp
    with that bst show thesis
      by (auto simp: changed_files_manifest_scope_checks_def one_check_def bindr_eq_Inr)
  qed
  then have "dget sc ''status'' PyNone = PyStr ''PASS''"
    by (auto simp: build_changed_files_scope_gate_check_def bindr_eq_Inr pass_fail_def Let_def split: if_splits)
  note scope = scope_gate_contained [OF sc(1) this files f m]
  obtain ac where ac: "build_changed_files_allowed_apply_roots_check b allowed = Inr ac"
    "dget ac ''status'' PyNone \<noteq> PyStr ''FAIL''"
  proof -
    obtain checks where "changed_files_manifest_allowed_apply_root_checks (request_context rq st) = Inr checks"
      and "\<not> has_status ''FAIL'' checks"
      by (rule promoted_no_fail [OF rep pr root_rule st]) simp
    with that bst roots show thesis
      by (auto simp: changed_files_manifest_allowed_apply_root_checks_def one_check_def bindr_eq_Inr)
  qed
  obtain g where g: "validate_manifest_apply_guard (changed_files_manifest_report b) allowed = Inr g"
    using apply_roots_check_PASS [OF ac] by blast
  obtain rs where ok: "list_all2 (entry_allowed rs) files (g_changed_paths g)"
    using validate_guard_InrD [OF g] files by (metis pyval.inject(5))
  obtain n where n: "n \<in> set (g_changed_paths g)" "normalize_manifest_repo_path (PyStr s) = Some n"
    using list_all2_in1 [OF ok f(1)] f(2) by (auto simp: entry_allowed_def)
  have "\<not> py_startswith (normalize_changed_file_path s) INVALID_PREFIX"
    using scope by blast
  with manifest_path_eq [OF n(2)] scope guard_contains [OF g n(1)] n(2) show ?thesis by auto
qed
lemma signoff_state_status: "signoff_state_of signoff = Inr so \<Longrightarrow> dget signoff ''status'' PyNone = so_status so"
  by (auto simp: signoff_state_of_def bindr_eq_Inr ditem_eq_Inr dget_def)

text \<open>
  C33: signoff. A promoted report never carries a rejected signoff; when the policy holds on a
  pending signoff it is not pending, and when the policy promotes only approved signoffs it is
  approved. The signoff status is the one the rule list configures with \<open>signoff_status\<close>.
\<close>

theorem promotion_signoff:
  assumes rep: "mechanism_class_report digest16 rq = Inr report"
    and pr: "dget report ''decision'' PyNone = PyStr ''PROMOTE''"
    and rule: "rule_configured (mr_policy rq) ''signoff_status'' ''signoff_status''"
  shows "dget (mr_signoff rq) ''status'' PyNone \<noteq> PyStr ''rejected'' \<and>
    (policy_flag (mr_policy rq) [''promotion_policy'', ''decision_rules'', ''system_mechanism'',
       ''hold_on_signoff_pending''] \<longrightarrow> dget (mr_signoff rq) ''status'' PyNone \<noteq> PyStr ''pending'') \<and>
    (policy_flag (mr_policy rq) [''promotion_policy'', ''decision_rules'', ''system_mechanism'',
       ''promote_only_if_signoff_approved''] \<longrightarrow> dget (mr_signoff rq) ''status'' PyNone = PyStr ''approved'')"
proof -
  obtain st where st: "build_mechanism_promotion_state (mr_env rq) (mr_policy rq) (mr_policy_path rq)
       (mr_artifact_class rq) (mr_primary_targets rq) (mr_signoff rq) (mr_inputs rq) = Inr st"
    using mechanism_class_report_InrD [OF rep] by metis
  obtain ep tv ss ls ts tc rk sx so where so: "signoff_state_of (mr_signoff rq) = Inr so"
    and steq: "st = mechanism_state_of (ms_bundle st) (mr_policy_path rq)
                 (dget (mr_policy rq) ''version'' PyNone) tv ss ls ts tc rk sx so"
    by (rule build_state_InrD [OF st])
  have status: "ms_signoff_status st = dget (mr_signoff rq) ''status'' PyNone"
    using signoff_state_status [OF so] steq by (metis mechanism_state_fields(7))
  obtain checks md ro where md: "md_reducer md = ''signoff_status''"
    and ro: "mechanism_rule_reducer (request_context rq st) md = Inr ro"
    and nd: "\<forall>f v. ro = Some f \<longrightarrow> f checks = Inr v \<longrightarrow> v \<noteq> PyStr ''DISCARD'' \<and> v \<noteq> PyStr ''HOLD''"
    and ran: "\<forall>f. ro = Some f \<longrightarrow> (\<exists>v. f checks = Inr v)"
    using promoted_rule [OF rep pr rule st] by blast
  obtain f v where f: "ro = Some f" "f checks = Inr v"
    and feq: "f checks = bindr (decision_rules (request_context rq st)) (\<lambda>rules.
        mechanism_signoff_decision rules (ms_signoff_status st))"
    using ro signoff_reducer [OF md, of "request_context rq st"] ran by auto
  obtain rules where rules: "decision_rules (request_context rq st) = Inr rules"
    and dec: "mechanism_signoff_decision rules (ms_signoff_status st) = Inr v"
    using f(2) feq by (auto simp: bindr_eq_Inr)
  have v: "v \<noteq> PyStr ''DISCARD'' \<and> v \<noteq> PyStr ''HOLD''" using nd f by blast
  have flag: "policy_flag (mr_policy rq) [''promotion_policy'', ''decision_rules'', ''system_mechanism'', k] =
      (case py_item rules k of Inr x \<Rightarrow> py_truth x | Inl _ \<Rightarrow> False)" for k
    using rules py_items_snoc [of "PyDict (mr_policy rq)"
        "[''promotion_policy'', ''decision_rules'', ''system_mechanism'']" k]
    by (simp add: policy_flag_def decision_rules_def)
  show ?thesis
    using dec v status
    by (auto simp: flag mechanism_signoff_decision_def bindr_eq_Inr split: if_splits)
qed

lemma new_keys_filter: "new_keys ck bk = filter (\<lambda>k. k \<notin> set bk) ck"
  by (simp add: new_keys_def)

lemma failure_summary_new:
  assumes "global_eval_failure_summary i = Inr fs"
  obtains bk ck where "eval_failure_keys (gi_baseline_eval_report i) = Inr bk"
    and "eval_failure_keys (gi_candidate_eval_report i) = Inr ck"
    and "dget fs ''candidate_new_failure_count'' PyNone = PyInt (int (length (new_keys ck bk)))"
proof -
  obtain bc cc bk ck bp cp where parts:
    "eval_failure_keys (gi_baseline_eval_report i) = Inr bk" "eval_failure_keys (gi_candidate_eval_report i) = Inr ck"
    "eval_failure_counts (gi_baseline_eval_report i) = Inr bc" "eval_failure_counts (gi_candidate_eval_report i) = Inr cc"
    "failed_page_count (gi_baseline_eval_report i) = Inr bp" "failed_page_count (gi_candidate_eval_report i) = Inr cp"
    using assms unfolding global_eval_failure_summary_def Let_def bindr_eq_Inr by blast
  have "dget fs ''candidate_new_failure_count'' PyNone = PyInt (int (length (new_keys ck bk)))"
    using assms parts by (auto simp: global_eval_failure_summary_def dget_def)
  with parts(1,2) show thesis by (rule that)
qed

lemma global_delta_fields:
  assumes "global_eval_delta i = Inr d"
  obtains bs cs bt ct where "ditem (gi_baseline_eval_report i) ''status'' = Inr bs"
    and "ditem (gi_candidate_eval_report i) ''status'' = Inr cs"
    and "item_int (gi_baseline_eval_report i) ''total_score'' = Inr bt"
    and "item_int (gi_candidate_eval_report i) ''total_score'' = Inr ct"
    and "dget d ''candidate_status'' PyNone = cs"
    and "dget d ''score_regressed'' PyNone = PyBool (ct < bt)"
    and "dget d ''status_regressed'' PyNone = PyBool (bs = PyStr ''pass'' \<and> cs \<noteq> PyStr ''pass'')"
  using assms by (auto simp: global_eval_delta_def bindr_eq_Inr dget_def Let_def)

text \<open>
  The report's diagnosis agrees with the gate's guard. The failure summary of the report
  module is computed separately from the promotion state; for a candidate whose global
  evaluation does not pass, the failure mode is \<open>candidate_regression\<close> exactly when the
  state's \<open>global_eval_non_regression\<close> is false.
\<close>

theorem failure_mode_matches_guard:
  assumes st: "score_state_of b = Inr ss"
    and b: "normalize_mechanism_artifact_bundle (inputs_attributes i) = Inr b"
    and d: "global_eval_delta i = Inr delta" and fs: "global_eval_failure_summary i = Inr failures"
    and nopass: "\<not> ss_candidate_eval_pass ss"
  shows "candidate_failure_mode delta failures =
    (if ss_global_eval_non_regression ss then ''baseline_backlog_non_regression''
     else ''candidate_regression'')"
proof -
  obtain bk ck where k: "eval_failure_keys (gi_baseline_eval_report i) = Inr bk"
      "eval_failure_keys (gi_candidate_eval_report i) = Inr ck"
    and n: "dget failures ''candidate_new_failure_count'' PyNone = PyInt (int (length (new_keys ck bk)))"
    by (rule failure_summary_new [OF fs])
  obtain bs cs bt ct where s: "ditem (gi_baseline_eval_report i) ''status'' = Inr bs"
      "ditem (gi_candidate_eval_report i) ''status'' = Inr cs"
      "item_int (gi_baseline_eval_report i) ''total_score'' = Inr bt"
      "item_int (gi_candidate_eval_report i) ''total_score'' = Inr ct"
    and f: "dget delta ''candidate_status'' PyNone = cs" "dget delta ''score_regressed'' PyNone = PyBool (ct < bt)"
      "dget delta ''status_regressed'' PyNone = PyBool (bs = PyStr ''pass'' \<and> cs \<noteq> PyStr ''pass'')"
    by (rule global_delta_fields [OF d])
  have reps: "baseline_eval_report b = gi_baseline_eval_report i" "candidate_eval_report b = gi_candidate_eval_report i"
    using b by auto
  obtain source br cr where src: "score_source_reports b = (source, br, cr)"
    by (cases "score_source_reports b")
  have "\<exists>base cand p. ss = score_state_from source base cand p bt ct (bs = PyStr ''pass'') (cs = PyStr ''pass'')
          (filter (\<lambda>k. k \<notin> set bk) ck)"
    using st unfolding score_state_of_def src prod.case Let_def bindr_eq_Inr reps k s
    by (elim exE conjE) (simp only: sum.inject, blast)
  then have ssf: "ss_candidate_eval_pass ss = (cs = PyStr ''pass'')"
    "ss_global_eval_non_regression ss = (bt \<le> ct \<and> \<not> (bs = PyStr ''pass'' \<and> cs \<noteq> PyStr ''pass'') \<and>
       new_keys ck bk = [])"
    by (auto simp: score_state_from_def new_keys_def Let_def)
  then show ?thesis using nopass n f by (auto simp: candidate_failure_mode_def)
qed

text \<open>
  C34: every report the gate returns can be read back in strict mode: its decision record is
  valid, the mirror field \<open>decision\<close> agrees with it, and the decision is in the registry.
\<close>

theorem mechanism_report_decision_readable:
  assumes "mechanism_class_report digest16 rq = Inr report"
  shows "\<exists>v rec. dget report ''decision'' PyNone = PyStr (verdict_text v) \<and>
    dget report ''decision_record'' PyNone = PyDict rec \<and>
    decision_record_from_report digest16 report True = Inr rec \<and>
    decision_from_report digest16 report True = Inr (verdict_text v) \<and>
    dget rec ''finalizable'' PyNone = PyBool (v \<noteq> Hold \<and> \<not> signoff_blocks (PyDict (mr_signoff rq)))"
proof -
  obtain v c where ok: "contract_ok (PyDict (mr_signoff rq)) v c"
    and d: "dget report ''decision'' PyNone = PyStr (dc_decision c)"
    and r: "dget report ''decision_record'' PyNone = PyDict (dc_record c)"
    using mechanism_class_report_InrD [OF assms] by metis
  have rec: "decision_record_from_report digest16 report True = Inr (dc_record c)"
    using ok r d by (auto simp: decision_record_from_report_def contract_ok_def)
  moreover have "ditem (dc_record c) ''decision'' = Inr (PyStr (verdict_text v))"
    using ok by (auto simp: contract_ok_def dget_def ditem_def split: option.splits)
  ultimately show ?thesis using ok d r by (auto simp: contract_ok_def decision_from_report_def)
qed
text \<open>A small policy and run, the sample input of the witnesses.\<close>

definition sample_rule :: "string \<times> string \<Rightarrow> string \<times> pyval" where
  "sample_rule r = (fst r, PyDict [(''artifact_dependencies'', PyList []), (''reducer'', PyStr (snd r)),
     (''severity'', PyStr ''blocker''), (''summary_template'', PyStr ''rule'')])"

definition sample_rules :: "(string \<times> string) list" where
  "sample_rules =
     [(''changed_files_manifest_scope'', ''status_fail_discard''),
      (''changed_files_manifest_allowed_apply_roots'', ''status_fail_discard''),
      (''eval_score_improves'', ''status_fail_discard''),
      (''equal_score_secondary_eligibility'', ''equal_score_secondary''),
      (''signoff_status'', ''signoff_status'')]"

definition sample_policy :: pydict where
  "sample_policy =
     [(''version'', PyInt 3),
      (''promotion_policy'', PyDict
         [(''artifact_classes'', PyDict [(''system_mechanism'', PyDict [(''allowed_targets'', PyList [PyStr ''src/''])])]),
          (''decision_rules'', PyDict [(''system_mechanism'', PyDict
             [(''hold_on_signoff_pending'', PyBool True), (''promote_only_if_signoff_approved'', PyBool False)])]),
          (''rule_registry'', PyDict [(''system_mechanism'', PyList (map (PyStr \<circ> fst) sample_rules))]),
          (''rule_metadata'', PyDict [(''system_mechanism'', PyDict (map sample_rule sample_rules))])]),
      (''mutation_policy'', PyDict [(''default_requires_eval_improvement'', PyBool True)]),
      (''equal_score_promotion'', PyDict
         [(''allowed_artifact_classes'', PyList [PyStr ''system_mechanism'']),
          (''require_secondary_non_regression'', PyBool True),
          (''require_any_secondary_improvement'', PyBool True),
          (''secondary_axes'', PyList [PyStr ''lint'', PyStr ''complexity'', PyStr ''tests''])]),
      (''auto_improve_policy'', PyDict [(''allowed_apply_roots'', PyList [PyStr ''src/''])])]"

definition sample_eval :: "string \<Rightarrow> int \<Rightarrow> pydict" where
  "sample_eval status score =
     [(''status'', PyStr status), (''total_score'', PyInt score), (''max_score'', PyInt 10),
      (''pages'', PyList [PyDict [(''page'', PyStr ''p''), (''results'', PyList
         [PyDict [(''eval'', PyStr ''links''), (''pass'', PyBool False)]])]])]"

definition sample_lint :: "int \<Rightarrow> pydict" where
  "sample_lint warnings =
     [(''status'', PyStr ''pass''), (''stats'', PyDict [(''warning_count'', PyInt warnings)])]"

definition sample_mechanism :: "int \<Rightarrow> pydict" where
  "sample_mechanism tests =
     [(''structural_metrics'', PyDict
         [(''nonempty_line_count_total'', PyInt 100), (''python_function_count'', PyInt 9),
          (''python_branch_node_count'', PyInt 4), (''markdown_heading_count'', PyInt 0),
          (''test_file_count'', PyInt 1), (''test_case_count'', PyInt tests)]),
      (''complexity_profile'', PyDict [(''complexity_score'', PyInt 5), (''risk_flags'', PyList [])])]"

text \<open>The contract score of the candidate is the parameter: equal to or above the baseline's 7.\<close>

definition sample_inputs :: "int \<Rightarrow> gate_inputs" where
  "sample_inputs score =
     \<lparr>gi_baseline_eval_report = sample_eval ''fail'' 5, gi_baseline_eval_rel = ''be.json'',
      gi_candidate_eval_report = sample_eval ''fail'' 5, gi_candidate_eval_rel = ''ce.json'',
      gi_baseline_lint_report = sample_lint 3, gi_baseline_lint_rel = ''bl.json'',
      gi_candidate_lint_report = sample_lint 2, gi_candidate_lint_rel = ''cl.json'',
      gi_baseline_mechanism_report = sample_mechanism 4, gi_baseline_mechanism_rel = ''bm.json'',
      gi_candidate_mechanism_report = sample_mechanism 5, gi_candidate_mechanism_rel = ''cm.json'',
      gi_changed_files_manifest_report =
        [(''files'', PyList [PyDict [(''path'', PyStr ''src/a.py'')]]),
         (''declared_targets'', PyDict [(''primary_targets'', PyList [PyStr ''src/a.py''])])],
      gi_changed_files_manifest_rel = ''cf.json'',
      gi_run_ledger_report = [], gi_run_ledger_rel = ''rl.json'',
      gi_behavior_delta_report = None, gi_behavior_delta_rel = '''',
      gi_baseline_contract_eval_report = Some (sample_eval ''pass'' 7), gi_baseline_contract_eval_rel = ''bk.json'',
      gi_candidate_contract_eval_report = Some (sample_eval ''pass'' score), gi_candidate_contract_eval_rel = ''ck.json''\<rparr>"

definition sample_request :: "int \<Rightarrow> mechanism_request" where
  "sample_request score =
     \<lparr>mr_env = \<lparr>ve_root = ''/v'', ve_resolve_repo = (\<lambda>s. ''/v''), ve_resolve = (\<lambda>s. ''/v''), ve_exists = (\<lambda>s. True)\<rparr>,
      mr_run_id = ''run-1'', mr_policy = sample_policy, mr_policy_path = ''ops/policy.yaml'',
      mr_artifact_class = ''system_mechanism'', mr_primary_targets = [''src/a.py''],
      mr_supporting_targets = [],
      mr_signoff = [(''required'', PyBool False), (''status'', PyStr ''not_required'')],
      mr_log = [(''required'', PyBool False), (''summary'', PyStr ''change'')],
      mr_inputs = sample_inputs score, mr_auto_improve_run = False\<rparr>"

definition sample_digest :: "string \<Rightarrow> string" where
  "sample_digest s = ''0''"

definition gate_decision :: "pydict res \<Rightarrow> pyval" where
  "gate_decision r = (case r of Inr report \<Rightarrow> dget report ''decision'' PyNone | Inl _ \<Rightarrow> PyNone)"

lemma sample_promotes:
  "gate_decision (mechanism_class_report sample_digest (sample_request 7)) = PyStr ''PROMOTE''"
  by code_simp
lemma sample_report:
  obtains report where "mechanism_class_report sample_digest (sample_request 7) = Inr report"
    and "dget report ''decision'' PyNone = PyStr ''PROMOTE''"
  using sample_promotes by (auto simp: gate_decision_def split: sum.splits)

lemma sample_configured:
  "rule_configured sample_policy ''changed_files_manifest_scope'' ''status_fail_discard''"
  "rule_configured sample_policy ''changed_files_manifest_allowed_apply_roots'' ''status_fail_discard''"
  "rule_configured sample_policy ''eval_score_improves'' ''status_fail_discard''"
  "rule_configured sample_policy ''equal_score_secondary_eligibility'' ''equal_score_secondary''"
  "rule_configured sample_policy ''signoff_status'' ''signoff_status''"
  by code_simp+

lemma sample_request_fields [simp]:
  "mr_policy (sample_request n) = sample_policy" "mr_inputs (sample_request n) = sample_inputs n"
  "mr_signoff (sample_request n) = [(''required'', PyBool False), (''status'', PyStr ''not_required'')]"
  by (simp_all add: sample_request_def)

theorem promotion_requires_improvement_witness:
  "\<exists>b. normalize_mechanism_artifact_bundle (inputs_attributes (sample_inputs 7)) = Inr b \<and>
     contract_candidate_passes b \<and>
     ((\<exists>s s'. contract_scores b s s' \<and> s < s') \<or>
      ((\<exists>s. contract_scores b s s) \<and> global_eval_kept b \<and>
       (\<exists>axes ep. configured_secondary_axes sample_policy = Inr axes \<and>
          ditem sample_policy ''equal_score_promotion'' = Inr ep \<and>
          (\<forall>a \<in> set axes. axis_kept b ep a) \<and> (\<exists>a \<in> set axes. axis_better b a))))"
proof -
  obtain report where r: "mechanism_class_report sample_digest (sample_request 7) = Inr report"
    "dget report ''decision'' PyNone = PyStr ''PROMOTE''"
    by (rule sample_report)
  have flags: "policy_flag sample_policy [''mutation_policy'', ''default_requires_eval_improvement'']"
    "policy_flag sample_policy [''equal_score_promotion'', ''require_any_secondary_improvement'']"
    by code_simp+
  from promotion_requires_improvement [OF r, simplified sample_request_fields,
      OF sample_configured(3,4) flags normalize_inputs]
  show ?thesis by (intro exI conjI) (rule normalize_inputs, blast+)
qed

theorem promotion_contains_changes_witness:
  "\<exists>p. normalize_changed_file_path ''src/a.py'' = p \<and> contained_path p"
proof -
  obtain report where r: "mechanism_class_report sample_digest (sample_request 7) = Inr report"
    "dget report ''decision'' PyNone = PyStr ''PROMOTE''"
    by (rule sample_report)
  have roots: "py_items (PyDict sample_policy) [''auto_improve_policy'', ''allowed_apply_roots''] =
      Inr (PyList [PyStr ''src/''])"
    by code_simp
  have m: "\<exists>m. manifest_declared_targets \<lparr>baseline_eval_report = a1, candidate_eval_report = a2,
      baseline_mechanism_contract_eval_report = a3, candidate_mechanism_contract_eval_report = a4,
      baseline_lint_report = a5, candidate_lint_report = a6, baseline_mechanism_report = a7,
      candidate_mechanism_report = a8,
      changed_files_manifest_report = gi_changed_files_manifest_report (sample_inputs 7),
      run_ledger_report = a10\<rparr> = Inr m" for a1 a2 a3 a4 a5 a6 a7 a8 a10
    by (simp add: manifest_declared_targets_def sample_inputs_def dget_def)
  from promotion_contains_changes [OF r, simplified sample_request_fields,
      OF sample_configured(1,2) normalize_inputs roots, of
        "[PyDict [(''path'', PyStr ''src/a.py'')]]" "[(''path'', PyStr ''src/a.py'')]" "''src/a.py''"] m
  show ?thesis by (simp add: sample_inputs_def dget_def) blast
qed

theorem promotion_signoff_witness:
  "dget [(''required'', PyBool False), (''status'', PyStr ''not_required'')] ''status'' PyNone \<noteq>
     PyStr ''pending''"
proof -
  obtain report where r: "mechanism_class_report sample_digest (sample_request 7) = Inr report"
    "dget report ''decision'' PyNone = PyStr ''PROMOTE''"
    by (rule sample_report)
  have flag: "policy_flag sample_policy [''promotion_policy'', ''decision_rules'', ''system_mechanism'',
      ''hold_on_signoff_pending'']"
    by code_simp
  from promotion_signoff [OF r, simplified sample_request_fields, OF sample_configured(5)] flag
  show ?thesis by blast
qed

theorem failure_mode_matches_guard_witness:
  "\<exists>delta failures. global_eval_delta (sample_inputs 7) = Inr delta \<and>
     global_eval_failure_summary (sample_inputs 7) = Inr failures \<and>
     candidate_failure_mode delta failures = ''baseline_backlog_non_regression''"
proof -
  have "case bindr (normalize_mechanism_artifact_bundle (inputs_attributes (sample_inputs 7))) score_state_of of
          Inr ss \<Rightarrow> \<not> ss_candidate_eval_pass ss \<and> ss_global_eval_non_regression ss | Inl _ \<Rightarrow> False"
    and d: "case global_eval_delta (sample_inputs 7) of Inr _ \<Rightarrow> True | Inl _ \<Rightarrow> False"
    and f: "case global_eval_failure_summary (sample_inputs 7) of Inr _ \<Rightarrow> True | Inl _ \<Rightarrow> False"
    by code_simp+
  then obtain b ss delta failures where
    b: "normalize_mechanism_artifact_bundle (inputs_attributes (sample_inputs 7)) = Inr b"
    and ss: "score_state_of b = Inr ss" "\<not> ss_candidate_eval_pass ss" "ss_global_eval_non_regression ss"
    and "global_eval_delta (sample_inputs 7) = Inr delta"
    and "global_eval_failure_summary (sample_inputs 7) = Inr failures"
    by (auto split: sum.splits simp del: normalize_inputs simp: bindr_def)
  then show ?thesis using failure_mode_matches_guard [OF ss(1) b, of delta failures] by auto
qed

theorem mechanism_report_decision_readable_witness:
  "\<exists>report. mechanism_class_report sample_digest (sample_request 7) = Inr report \<and>
     decision_from_report sample_digest report True = Inr ''PROMOTE''"
proof -
  obtain report where r: "mechanism_class_report sample_digest (sample_request 7) = Inr report"
    "dget report ''decision'' PyNone = PyStr ''PROMOTE''"
    by (rule sample_report)
  with mechanism_report_decision_readable [OF r(1)] show ?thesis by auto
qed

end
