(* ===== verification/WriterGraph.thy ===== *)
theory WriterGraph
  imports GateCommon
begin

section \<open>The writer graph of the release closeout\<close>

text \<open>
  The planning half of \<open>release/release_closeout_fixed_point.py\<close>: the writer specifications of
  \<open>ops/policies/release-closeout-fixed-point.json\<close> with their validation (targets, produced
  paths, known dependencies, no dependency cycle, topological order), the map of downstream
  targets, and the selections computed from it. A Python set is a duplicate-free list here;
  where the source iterates over a set, the result does not depend on the order, as the
  properties show. The recursion of the cycle check carries its depth as fuel, one more than
  the number of writers; C36 shows that it is never exhausted. Where the source looks a dependency up in the
  table of positions, the check of known targets has already run, so that the lookup succeeds.
\<close>

subsection \<open>Writer specifications\<close>

record writer_spec =
  w_name :: string
  w_target :: string
  w_binding_mode :: string
  w_produces :: "string list"
  w_depends_on :: "string list"
  w_expensive_prerequisites :: "string list"

definition BINDING_MODES :: "string list" where
  "BINDING_MODES = [''content'', ''revision'', ''raw'']"

definition POLICY_PATH :: string where
  "POLICY_PATH = ''ops/policies/release-closeout-fixed-point.json''"

text \<open>\<open>[str(x).strip() for x in value if str(x).strip()]\<close>.\<close>

definition text_items :: "pyval \<Rightarrow> string list res" where
  "text_items v = bindr (py_iter v) (\<lambda>xs. Inr (filter (\<lambda>s. s \<noteq> []) (map str_strip xs)))"

text \<open>Claiming the produced paths of one writer in \<open>producer_by_path\<close>.\<close>

fun claim_paths :: "string \<Rightarrow> string list \<Rightarrow> (string \<times> string) list \<Rightarrow> (string \<times> string) list res" where
  "claim_paths target [] owners = Inr owners"
| "claim_paths target (p # ps) owners =
     (case map_of owners p of
        Some previous \<Rightarrow> Inl (ValueError (''duplicate produced path '' @ p @ '': '' @ previous @
                             '' and '' @ target))
      | None \<Rightarrow> claim_paths target ps (dset p target owners))"

definition writer_entry ::
  "string list \<Rightarrow> (string \<times> string) list \<Rightarrow> pyval \<Rightarrow> (writer_spec \<times> (string \<times> string) list) res" where
  "writer_entry seen owners item =
     (case item of
        PyDict d \<Rightarrow>
          (let target = str_strip (dget d ''target'' (PyStr ''''));
               mode = str_strip (dget d ''binding_mode'' (PyStr ''''));
               name = str_strip (dget d ''name'' (PyStr target))
           in bindr (raise_unless (target \<noteq> []) (ValueError ''writer target is required'')) (\<lambda>_.
              bindr (raise_unless (target \<notin> set seen)
                 (ValueError (''duplicate writer target: '' @ target))) (\<lambda>_.
              bindr (raise_unless (mode \<in> set BINDING_MODES)
                 (ValueError (''writer '' @ target @ '' has missing or invalid binding_mode: '' @
                    (if mode = [] then ''<missing>'' else mode)))) (\<lambda>_.
              bindr (text_items (dget d ''produces'' (PyList []))) (\<lambda>produces.
              bindr (raise_unless (produces \<noteq> [])
                 (ValueError (''writer '' @ target @ '' must produce at least one path''))) (\<lambda>_.
              bindr (claim_paths target produces owners) (\<lambda>owners'.
              bindr (text_items (dget d ''depends_on'' (PyList []))) (\<lambda>deps.
              bindr (text_items (dget d ''expensive_prerequisites'' (PyList []))) (\<lambda>exps.
                Inr (\<lparr>w_name = (if name = [] then target else name), w_target = target,
                      w_binding_mode = mode, w_produces = produces, w_depends_on = deps,
                      w_expensive_prerequisites = exps\<rparr>, owners'))))))))))
      | _ \<Rightarrow> Inl (ValueError ''writer specs must be objects''))"

fun writer_entries ::
  "string list \<Rightarrow> (string \<times> string) list \<Rightarrow> pyval list \<Rightarrow> writer_spec list res" where
  "writer_entries seen owners [] = Inr []"
| "writer_entries seen owners (item # items) =
     bindr (writer_entry seen owners item) (\<lambda>(w, owners').
     bindr (writer_entries (w_target w # seen) owners' items) (\<lambda>ws. Inr (w # ws)))"

subsection \<open>The cycle check\<close>

text \<open>
  \<open>visit\<close> of \<open>_validate_acyclic_writer_graph\<close>: the set \<open>visiting\<close> always holds exactly the
  targets of \<open>trail\<close>; the set \<open>visited\<close> is threaded through and returned.
\<close>

fun visit ::
  "nat \<Rightarrow> (string \<times> string list) list \<Rightarrow> string list \<Rightarrow> string list \<Rightarrow> string \<Rightarrow> string list res" where
  "visit 0 deps trail visited t = Inl RecursionError"
| "visit (Suc n) deps trail visited t =
     (if t \<in> set trail then
        Inl (ValueError (''writer dependency cycle: '' @
          py_join '' -> '' (dropWhile (\<lambda>x. x \<noteq> t) trail @ [t])))
      else if t \<in> set visited then Inr visited
      else bindr (ditem deps t) (\<lambda>ds.
           bindr (foldr_res (visit n deps (trail @ [t])) visited ds) (\<lambda>visited'.
             Inr (visited' @ [t]))))"

definition dependencies :: "writer_spec list \<Rightarrow> (string \<times> string list) list" where
  "dependencies ws = map (\<lambda>w. (w_target w, w_depends_on w)) ws"

definition validate_acyclic_writer_graph :: "writer_spec list \<Rightarrow> unit res" where
  "validate_acyclic_writer_graph ws =
     (let deps = dependencies ws
      in bindr (foldr_res (visit (Suc (length deps)) deps []) [] (map fst deps)) (\<lambda>_. Inr ()))"

definition position :: "writer_spec list \<Rightarrow> string \<Rightarrow> nat" where
  "position ws t = length (takeWhile (\<lambda>w. w_target w \<noteq> t) ws)"

definition late_dependencies :: "writer_spec list \<Rightarrow> writer_spec \<Rightarrow> string list" where
  "late_dependencies ws w =
     filter (\<lambda>d. position ws (w_target w) \<le> position ws d) (w_depends_on w)"

definition check_known :: "string list \<Rightarrow> writer_spec \<Rightarrow> unit res" where
  "check_known known w =
     (let unknown = py_sorted_set (filter (\<lambda>d. d \<notin> set known) (w_depends_on w))
      in raise_unless (unknown = []) (ValueError (''writer '' @ w_target w @
           '' has unknown depends_on targets: '' @ list_text unknown)))"

definition check_order :: "writer_spec list \<Rightarrow> writer_spec \<Rightarrow> unit res" where
  "check_order ws w =
     raise_unless (late_dependencies ws w = [])
       (ValueError (''writer policy order is not topological: '' @ w_target w @
          '' appears before dependencies '' @ list_text (late_dependencies ws w)))"

definition writer_specs :: "pydict \<Rightarrow> writer_spec list res" where
  "writer_specs policy =
     (case dget policy ''writers'' PyNone of
        PyList (x # xs) \<Rightarrow>
          bindr (writer_entries [] [] (x # xs)) (\<lambda>ws.
          bindr (mapr (check_known (map w_target ws)) ws) (\<lambda>_.
          bindr (validate_acyclic_writer_graph ws) (\<lambda>_.
          bindr (mapr (check_order ws) ws) (\<lambda>_. Inr ws))))
      | _ \<Rightarrow> Inl (ValueError (POLICY_PATH @ '' must define non-empty writers'')))"

subsection \<open>Tracked artifacts and downstream targets\<close>

record tracked_artifact =
  ta_name :: string
  ta_path :: string
  ta_binding_mode :: string

definition tracked_artifacts :: "writer_spec list \<Rightarrow> tracked_artifact list" where
  "tracked_artifacts ws =
     concat (map (\<lambda>w. map (\<lambda>p. \<lparr>ta_name = w_name w, ta_path = p, ta_binding_mode = w_binding_mode w\<rparr>)
                       (w_produces w)) ws)"

definition producer_by_path :: "writer_spec list \<Rightarrow> (string \<times> string) list" where
  "producer_by_path ws =
     fold (\<lambda>(p, t) m. dset p t m) (concat (map (\<lambda>w. map (\<lambda>p. (p, w_target w)) (w_produces w)) ws)) []"

definition all_writer_targets :: "writer_spec list \<Rightarrow> string list" where
  "all_writer_targets ws = map w_target ws"

text \<open>The direct dependents of a target: \<open>direct.get(target, set())\<close>.\<close>

definition dependents :: "writer_spec list \<Rightarrow> string \<Rightarrow> string list" where
  "dependents ws t = dedupe_from {} (map w_target (filter (\<lambda>w. t \<in> set (w_depends_on w)) ws))"

definition graph_nodes :: "writer_spec list \<Rightarrow> string set" where
  "graph_nodes ws = set (concat (map w_depends_on ws))"

lemma dependents_leaf: "c \<notin> graph_nodes ws \<Longrightarrow> dependents ws c = []"
  by (auto simp: dependents_def graph_nodes_def filter_empty_conv intro: filter_False)

text \<open>The worklist of \<open>_downstream_by_target\<close>; the stack has its top first.\<close>

function downstream_loop :: "writer_spec list \<Rightarrow> string list \<Rightarrow> string list \<Rightarrow> string list" where
  "downstream_loop ws seen [] = seen"
| "downstream_loop ws seen (c # stack) =
     (if c \<in> set seen then downstream_loop ws seen stack
      else downstream_loop ws (c # seen) (dependents ws c @ stack))"
  by pat_completeness auto

termination
proof (relation "measures [\<lambda>(ws, seen, stack). card (graph_nodes ws - set seen), \<lambda>(ws, seen, stack). length stack]",
    goal_cases)
  case (3 ws seen c stack)
  show ?case
  proof (cases "c \<in> graph_nodes ws")
    case True
    have "card (graph_nodes ws - set (c # seen)) < card (graph_nodes ws - set seen)"
      by (rule psubset_card_mono) (use 3 True in \<open>auto simp: graph_nodes_def\<close>)
    then show ?thesis by simp
  next
    case False
    then have "graph_nodes ws - set (c # seen) = graph_nodes ws - set seen" by auto
    then show ?thesis using dependents_leaf [OF False] by simp
  qed
qed simp_all

definition downstream_of :: "writer_spec list \<Rightarrow> string \<Rightarrow> string list" where
  "downstream_of ws t = downstream_loop ws [] (dependents ws t)"

definition downstream_closed_writer_targets ::
  "string list \<Rightarrow> string list \<Rightarrow> (string \<Rightarrow> string list) \<Rightarrow> string list res" where
  "downstream_closed_writer_targets targets writer_targets downstream =
     (let requested = dedupe_from {} (filter (\<lambda>t. t \<noteq> []) (map py_strip targets));
          unknown = py_sorted_set (filter (\<lambda>t. t \<notin> set writer_targets) requested);
          selected = concat (map (\<lambda>t. t # downstream t) requested)
      in bindr (raise_unless (requested \<noteq> [])
            (ValueError ''initial_targets must include at least one target'')) (\<lambda>_.
         bindr (raise_unless (unknown = [])
            (ValueError (''unknown initial target(s): '' @ list_text unknown))) (\<lambda>_.
           Inr (filter (\<lambda>t. t \<in> set selected) writer_targets))))"

definition validated_initial_targets :: "writer_spec list \<Rightarrow> string list option \<Rightarrow> string list res" where
  "validated_initial_targets ws targets =
     (case targets of
        None \<Rightarrow> Inr (all_writer_targets ws)
      | Some ts \<Rightarrow> downstream_closed_writer_targets ts (all_writer_targets ws) (downstream_of ws))"

definition output_paths_at_or_downstream :: "writer_spec list \<Rightarrow> string \<Rightarrow> string list res" where
  "output_paths_at_or_downstream ws target =
     bindr (raise_unless (target \<in> set (all_writer_targets ws))
        (ValueError (''unknown fixed-point writer target: '' @ target))) (\<lambda>_.
       Inr (remdups (concat (map w_produces
         (filter (\<lambda>w. w_target w \<in> set (target # downstream_of ws target)) ws)))))"

definition execution_targets :: "string list \<Rightarrow> writer_spec list \<Rightarrow> string list" where
  "execution_targets selected ws =
     dedupe_from {} (concat (map (\<lambda>w. w_expensive_prerequisites w @ [w_target w])
       (filter (\<lambda>w. w_target w \<in> set selected) ws)))"

definition targets_for_affected_paths :: "string list \<Rightarrow> writer_spec list \<Rightarrow> string list" where
  "targets_for_affected_paths affected ws =
     (let producers = List.map_filter (map_of (producer_by_path ws)) affected;
          selected = concat (map (\<lambda>p. p # downstream_of ws p) producers)
      in filter (\<lambda>t. t \<in> set selected) (map w_target ws))"

subsection \<open>Downstream targets are the transitive dependents\<close>

definition dep_edge :: "writer_spec list \<Rightarrow> (string \<times> string) set" where
  "dep_edge ws = {(d, t). \<exists>w \<in> set ws. w_target w = t \<and> d \<in> set (w_depends_on w)}"

lemma set_dependents: "set (dependents ws t) = dep_edge ws `` {t}"
  by (auto simp: dependents_def set_dedupe_from dep_edge_def)

lemma downstream_loop_closed:
  assumes "\<forall>c \<in> set seen. dep_edge ws `` {c} \<subseteq> set seen \<union> set stack"
  shows "set seen \<union> set stack \<subseteq> set (downstream_loop ws seen stack) \<and>
    dep_edge ws `` set (downstream_loop ws seen stack) \<subseteq> set (downstream_loop ws seen stack) \<and>
    set (downstream_loop ws seen stack) \<subseteq> set seen \<union> (dep_edge ws)\<^sup>* `` set stack"
  using assms
proof (induction ws seen stack rule: downstream_loop.induct)
  case (1 ws seen)
  then show ?case by auto
next
  case (2 ws seen c stack)
  show ?case
  proof (cases "c \<in> set seen")
    case True
    with "2.IH"(1) "2.prems" show ?thesis by (auto simp: insert_absorb)
  next
    case False
    have inv: "\<forall>x \<in> set (c # seen). dep_edge ws `` {x} \<subseteq> set (c # seen) \<union> set (dependents ws c @ stack)"
      using "2.prems" by (auto simp: set_dependents)
    have "(dep_edge ws)\<^sup>* `` set (dependents ws c @ stack) \<subseteq> (dep_edge ws)\<^sup>* `` set (c # stack)"
      by (auto simp: set_dependents intro: converse_rtrancl_into_rtrancl)
    note sub = this
    have c: "c \<in> (dep_edge ws)\<^sup>* `` set (c # stack)" by (rule ImageI [of c c]) auto
    let ?r = "set (downstream_loop ws (c # seen) (dependents ws c @ stack))"
    note IH = "2.IH"(2) [OF False inv]
    have "?r \<subseteq> set seen \<union> (dep_edge ws)\<^sup>* `` set (c # stack)"
      using IH sub c by (simp only: list.set) blast
    with IH False show ?thesis by auto
  qed
qed

lemma downstream_of_trancl: "set (downstream_of ws t) = (dep_edge ws)\<^sup>+ `` {t}"
proof -
  let ?r = "set (downstream_of ws t)"
  have facts: "set (dependents ws t) \<subseteq> ?r" "dep_edge ws `` ?r \<subseteq> ?r"
      "?r \<subseteq> (dep_edge ws)\<^sup>* `` set (dependents ws t)"
    using downstream_loop_closed [of "[]" ws "dependents ws t"] by (auto simp: downstream_of_def)
  show ?thesis
  proof
    show "?r \<subseteq> (dep_edge ws)\<^sup>+ `` {t}"
      using facts(3) by (auto simp: set_dependents intro: rtrancl_into_trancl2)
    have "x \<in> ?r" if "(t, x) \<in> (dep_edge ws)\<^sup>+" for x
      using that
    proof (induction rule: trancl_induct)
      case (base y)
      then show ?case using facts(1) by (auto simp: set_dependents)
    next
      case (step y z)
      then show ?case using facts(2) by blast
    qed
    then show "(dep_edge ws)\<^sup>+ `` {t} \<subseteq> ?r" by auto
  qed
qed

subsection \<open>The cycle check decides acyclicity\<close>

definition deps_edge :: "(string \<times> string list) list \<Rightarrow> (string \<times> string) set" where
  "deps_edge deps = {(d, t). \<exists>ds. map_of deps t = Some ds \<and> d \<in> set ds}"

text \<open>A visited list is a post-order: the dependencies of each entry come before it.\<close>

definition post_ordered :: "(string \<times> string list) list \<Rightarrow> string list \<Rightarrow> bool" where
  "post_ordered deps vis =
     (\<forall>i < length vis. \<exists>ds. map_of deps (vis ! i) = Some ds \<and> set ds \<subseteq> set (take i vis))"

lemma post_ordered_snoc:
  assumes "post_ordered deps vis" and "map_of deps t = Some ds" and "set ds \<subseteq> set vis"
  shows "post_ordered deps (vis @ [t])"
  using assms by (auto simp: post_ordered_def nth_append less_Suc_eq)

definition extends :: "(string \<times> string list) list \<Rightarrow> string list \<Rightarrow> string list \<Rightarrow> string set \<Rightarrow> bool" where
  "extends deps vis vis' ts = (post_ordered deps vis' \<and> prefix vis vis' \<and> ts \<subseteq> set vis')"

lemma fold_visit_extends:
  assumes step: "\<And>vis t vis'. post_ordered deps vis \<Longrightarrow> f vis t = Inr vis' \<Longrightarrow> extends deps vis vis' {t}"
    and "post_ordered deps vis" and "foldr_res f vis ts = Inr vis'"
  shows "extends deps vis vis' (set ts)"
  using assms(2,3)
proof (induction ts arbitrary: vis)
  case (Cons t ts)
  then obtain v where v: "f vis t = Inr v" "foldr_res f v ts = Inr vis'" by (auto simp: bindr_eq_Inr)
  with step Cons.prems(1) have e: "extends deps vis v {t}" by blast
  then have "extends deps v vis' (set ts)" using Cons.IH [of v] v(2) by (simp add: extends_def)
  with e show ?case by (auto simp: extends_def dest: prefix_order.trans set_mono_prefix)
qed (simp add: extends_def)

lemma visit_extends:
  "post_ordered deps vis \<Longrightarrow> visit n deps trail vis t = Inr vis' \<Longrightarrow> extends deps vis vis' {t}"
proof (induction n arbitrary: trail vis t vis')
  case (Suc n)
  show ?case
  proof (cases "t \<in> set vis")
    case True
    with Suc.prems show ?thesis by (auto simp: extends_def split: if_splits)
  next
    case False
    then obtain ds v where ds: "map_of deps t = Some ds"
      and v: "foldr_res (visit n deps (trail @ [t])) vis ds = Inr v" and vis': "vis' = v @ [t]"
      using Suc.prems by (auto simp: bindr_eq_Inr ditem_eq_Inr split: if_splits)
    have "extends deps vis v (set ds)"
      by (rule fold_visit_extends [OF _ Suc.prems(1) v]) (rule Suc.IH)
    with ds vis' post_ordered_snoc show ?thesis by (auto simp: extends_def)
  qed
qed simp

lemma post_ordered_acyclic:
  assumes "post_ordered deps vis" and "\<And>t ds. map_of deps t = Some ds \<Longrightarrow> t \<in> set vis"
  shows "acyclic (deps_edge deps)"
proof -
  let ?rank = "\<lambda>x. length (takeWhile (\<lambda>y. y \<noteq> x) vis)"
  have "?rank d < ?rank t" if e: "(d, t) \<in> deps_edge deps" for d t
  proof -
    obtain ds where ds: "map_of deps t = Some ds" "d \<in> set ds" using e by (auto simp: deps_edge_def)
    then have t: "t \<in> set vis" using assms(2) by blast
    obtain xs zs where vis: "vis = xs @ t # zs" "t \<notin> set xs" using split_list_first [OF t] by blast
    have rank: "?rank y = length as" if "vis = as @ y # bs" "y \<notin> set as" for y as bs
    proof -
      have "takeWhile (\<lambda>z. z \<noteq> y) as = as" using that(2) by (simp add: takeWhile_eq_all_conv) metis
      then show ?thesis using that by (simp add: takeWhile_tail)
    qed
    have "\<exists>ds. map_of deps (vis ! length xs) = Some ds \<and> set ds \<subseteq> set (take (length xs) vis)"
      using assms(1) vis(1) unfolding post_ordered_def by (elim allE [of _ "length xs"]) simp
    then have "set ds \<subseteq> set (take (length xs) vis)" using ds(1) vis(1) by simp
    then have "d \<in> set xs" using ds(2) vis(1) by auto
    then obtain ys us where xs: "xs = ys @ d # us" "d \<notin> set ys" using split_list_first by metis
    have "?rank d = length ys" by (rule rank [of ys d "us @ t # zs"]) (use vis xs in auto)
    moreover have "?rank t = length xs" by (rule rank [of xs t zs]) (use vis in auto)
    ultimately show ?thesis using xs by simp
  qed
  then have "deps_edge deps \<subseteq> measure ?rank" by auto
  then show ?thesis using wf_acyclic wf_subset wf_measure by blast
qed

lemma trail_length:
  assumes "distinct trail" and "set trail \<subseteq> dom (map_of deps)"
  shows "length trail \<le> length deps"
proof -
  have "length trail \<le> card (dom (map_of deps))"
    using assms by (metis card_mono distinct_card finite_dom_map_of)
  also have "\<dots> \<le> length deps"
    by (metis card_length dom_map_of_conv_image_fst length_map set_map)
  finally show ?thesis .
qed

subsection \<open>The check names a real cycle\<close>

text \<open>
  The targets on the trail are linked: each depends on the next. A target found on the trail
  closes a cycle, which the error names. The trail holds distinct writers, so that the depth
  given as fuel is never exhausted, on cyclic graphs neither.
\<close>

definition cycle_error :: "string list \<Rightarrow> py_exc" where
  "cycle_error cycle = ValueError (''writer dependency cycle: '' @ py_join '' -> '' cycle)"

abbreviation linked :: "(string \<times> string) set \<Rightarrow> string list \<Rightarrow> bool" where
  "linked r xs \<equiv> successively (\<lambda>x y. (y, x) \<in> r) xs"

definition names_cycle :: "(string \<times> string) set \<Rightarrow> py_exc \<Rightarrow> bool" where
  "names_cycle r e =
     (\<exists>c cs. e = cycle_error (c # cs @ [c]) \<and> distinct (c # cs) \<and> linked r (c # cs @ [c]))"

lemma foldr_res_InlE:
  assumes "foldr_res f s xs = Inl e"
  obtains x s' where "x \<in> set xs" and "f s' x = Inl e"
proof -
  have "\<exists>x \<in> set xs. \<exists>s'. f s' x = Inl e"
    using assms
  proof (induction xs arbitrary: s)
    case (Cons x xs)
    then show ?case by (cases "f s x") auto
  qed simp
  then show ?thesis using that by blast
qed

lemma back_edge_names_cycle:
  assumes t: "t \<in> set trail" and "distinct trail" and "linked r (trail @ [t])"
  shows "names_cycle r (cycle_error (dropWhile (\<lambda>x. x \<noteq> t) trail @ [t]))"
proof -
  obtain as bs where trail: "trail = as @ t # bs" "t \<notin> set as" using split_list_first [OF t] by blast
  then have "dropWhile (\<lambda>x. x \<noteq> t) trail = t # bs" by (subst trail(1), subst dropWhile_append2) auto
  moreover have "distinct (t # bs)" using assms(2) trail(1) by simp
  moreover have "linked r (t # bs @ [t])"
    using assms(3) unfolding trail(1) by (simp add: successively_append_iff)
  ultimately show ?thesis
    unfolding names_cycle_def by (intro exI [of _ t] exI [of _ bs]) simp
qed

lemma visit_names_cycle:
  assumes closed: "\<And>t ds d. map_of deps t = Some ds \<Longrightarrow> d \<in> set ds \<Longrightarrow> map_of deps d \<noteq> None"
  shows "map_of deps t \<noteq> None \<Longrightarrow> distinct trail \<Longrightarrow> set trail \<subseteq> dom (map_of deps) \<Longrightarrow>
     linked (deps_edge deps) (trail @ [t]) \<Longrightarrow> length deps < n + length trail \<Longrightarrow>
     visit n deps trail vis t = Inl e \<Longrightarrow> names_cycle (deps_edge deps) e"
proof (induction n arbitrary: trail vis t)
  case 0
  then show ?case using trail_length [of trail deps] by simp
next
  case (Suc n)
  show ?case
  proof (cases "t \<in> set trail")
    case True
    with Suc.prems(6) have "e = cycle_error (dropWhile (\<lambda>x. x \<noteq> t) trail @ [t])"
      by (simp add: cycle_error_def)
    then show ?thesis using back_edge_names_cycle [OF True Suc.prems(2,4)] by simp
  next
    case False
    obtain ds where ds: "map_of deps t = Some ds" using Suc.prems(1) by blast
    with False Suc.prems(6) have "foldr_res (visit n deps (trail @ [t])) vis ds = Inl e"
      by (auto simp: ditem_def bindr_eq_Inl split: if_splits)
    then obtain d v where d: "d \<in> set ds" and run: "visit n deps (trail @ [t]) v d = Inl e"
      by (rule foldr_res_InlE)
    show ?thesis
    proof (rule Suc.IH [OF _ _ _ _ _ run])
      show "map_of deps d \<noteq> None" by (rule closed [OF ds d])
      show "linked (deps_edge deps) ((trail @ [t]) @ [d])"
        using Suc.prems(4) ds d by (auto simp: successively_append_iff deps_edge_def)
    qed (use Suc.prems False ds in auto)
  qed
qed

lemma linked_trancl: "linked r (c # cs @ [d]) \<Longrightarrow> (d, c) \<in> r\<^sup>+"
  by (induction cs arbitrary: c) (auto intro: trancl_into_trancl)

lemma names_cycle_not_acyclic: "names_cycle r e \<Longrightarrow> \<not> acyclic r"
  by (auto simp: names_cycle_def acyclic_def dest: linked_trancl)

text \<open>The dependency table of writers with distinct targets.\<close>

lemma dependencies_lookup:
  assumes "distinct (map w_target ws)"
  shows "map_of (dependencies ws) t = Some ds \<longleftrightarrow> (\<exists>w \<in> set ws. w_target w = t \<and> w_depends_on w = ds)"
proof -
  have "map_of (dependencies ws) t = Some ds \<longleftrightarrow> (t, ds) \<in> set (dependencies ws)"
    by (rule map_of_eq_Some_iff) (use assms in \<open>simp add: dependencies_def comp_def\<close>)
  then show ?thesis by (auto simp: dependencies_def)
qed

lemma dependencies_edge:
  "distinct (map w_target ws) \<Longrightarrow> deps_edge (dependencies ws) = dep_edge ws"
  by (auto simp: deps_edge_def dep_edge_def dependencies_lookup)

lemma dependencies_known: "map_of (dependencies ws) t \<noteq> None \<longleftrightarrow> t \<in> w_target ` set ws"
  by (auto simp: dependencies_def map_of_eq_None_iff image_image)

lemma validate_acyclic_names_cycle:
  assumes distinct: "distinct (map w_target ws)"
    and known: "\<forall>w \<in> set ws. set (w_depends_on w) \<subseteq> w_target ` set ws"
    and run: "validate_acyclic_writer_graph ws = Inl e"
  shows "names_cycle (dep_edge ws) e"
proof -
  let ?deps = "dependencies ws"
  have "foldr_res (visit (Suc (length ?deps)) ?deps []) [] (map fst ?deps) = Inl e"
    using run by (auto simp: validate_acyclic_writer_graph_def Let_def bindr_eq_Inl simp del: visit.simps)
  then obtain t v where t: "t \<in> set (map fst ?deps)"
    and "visit (Suc (length ?deps)) ?deps [] v t = Inl e" by (rule foldr_res_InlE)
  note visit = this(2)
  have closed: "map_of ?deps d \<noteq> None" if "map_of ?deps t = Some ds" "d \<in> set ds" for t ds d
    using that known unfolding dependencies_known by (auto simp: dependencies_lookup [OF distinct])
  have "map_of ?deps t \<noteq> None" using t by (auto simp: map_of_eq_None_iff)
  from visit_names_cycle [OF closed this _ _ _ _ visit] show ?thesis
    by (simp add: dependencies_edge [OF distinct])
qed

lemma validate_acyclic_decides:
  assumes distinct: "distinct (map w_target ws)"
    and known: "\<forall>w \<in> set ws. set (w_depends_on w) \<subseteq> w_target ` set ws"
  shows "validate_acyclic_writer_graph ws = Inr () \<longleftrightarrow> acyclic (dep_edge ws)"
proof
  let ?deps = "dependencies ws"
  assume "validate_acyclic_writer_graph ws = Inr ()"
  then obtain vis where run: "foldr_res (visit (Suc (length ?deps)) ?deps []) [] (map fst ?deps) = Inr vis"
    by (auto simp: validate_acyclic_writer_graph_def Let_def bindr_eq_Inr simp del: visit.simps)
  have step: "extends ?deps vis vis' {t}"
    if "post_ordered ?deps vis" "visit (Suc (length ?deps)) ?deps [] vis t = Inr vis'" for vis vis' t
    using that by (rule visit_extends)
  have "post_ordered ?deps []" by (simp add: post_ordered_def)
  from fold_visit_extends [OF step this run]
  have "extends ?deps [] vis (set (map fst ?deps))" .
  then have "post_ordered ?deps vis" and all: "w_target ` set ws \<subseteq> set vis"
    by (auto simp: extends_def dependencies_def)
  then have "acyclic (deps_edge ?deps)"
    using all by (intro post_ordered_acyclic [of ?deps vis]) (auto simp: dependencies_lookup [OF distinct])
  then show "acyclic (dep_edge ws)" by (simp add: dependencies_edge [OF distinct])
next
  assume ac: "acyclic (dep_edge ws)"
  show "validate_acyclic_writer_graph ws = Inr ()"
  proof (cases "validate_acyclic_writer_graph ws")
    case (Inl e)
    with validate_acyclic_names_cycle [OF assms] names_cycle_not_acyclic ac show ?thesis by blast
  qed simp
qed

subsection \<open>Accepted policies\<close>

lemma claim_paths_Inr:
  assumes "claim_paths target ps owners = Inr owners'"
  shows "distinct ps \<and> set ps \<inter> dom (map_of owners) = {} \<and>
    dom (map_of owners') = dom (map_of owners) \<union> set ps"
  using assms
proof (induction ps arbitrary: owners)
  case (Cons p ps)
  then have "map_of owners p = None" "claim_paths target ps (dset p target owners) = Inr owners'"
    by (auto split: option.splits)
  with Cons.IH [of "dset p target owners"] show ?case by (auto simp: map_of_dset)
qed simp

lemma writer_entry_Inr:
  assumes "writer_entry seen owners item = Inr (w, owners')"
  shows "w_target w \<noteq> [] \<and> w_target w \<notin> set seen \<and> w_produces w \<noteq> [] \<and>
    w_binding_mode w \<in> set BINDING_MODES \<and> claim_paths (w_target w) (w_produces w) owners = Inr owners'"
  using assms by (cases item) (auto simp: writer_entry_def Let_def bindr_eq_Inr split: if_splits)

lemma writer_entries_wf:
  assumes "writer_entries seen owners items = Inr ws"
  shows "distinct (map w_target ws) \<and> w_target ` set ws \<inter> set seen = {} \<and>
    distinct (concat (map w_produces ws)) \<and> set (concat (map w_produces ws)) \<inter> dom (map_of owners) = {} \<and>
    (\<forall>w \<in> set ws. w_produces w \<noteq> [] \<and> w_target w \<noteq> [] \<and> w_binding_mode w \<in> set BINDING_MODES)"
  using assms
proof (induction items arbitrary: seen owners ws)
  case (Cons item items)
  then obtain w owners' ws' where w: "writer_entry seen owners item = Inr (w, owners')"
    and ws': "writer_entries (w_target w # seen) owners' items = Inr ws'" and ws: "ws = w # ws'"
    by (auto simp: bindr_eq_Inr)
  note e = writer_entry_Inr [OF w]
  then have c: "distinct (w_produces w)" "set (w_produces w) \<inter> dom (map_of owners) = {}"
      "dom (map_of owners') = dom (map_of owners) \<union> set (w_produces w)"
    using claim_paths_Inr by blast+
  have IH: "distinct (map w_target ws')" "w_target ` set ws' \<inter> set (w_target w # seen) = {}"
      "distinct (concat (map w_produces ws'))"
      "set (concat (map w_produces ws')) \<inter> (dom (map_of owners) \<union> set (w_produces w)) = {}"
      "\<forall>w \<in> set ws'. w_produces w \<noteq> [] \<and> w_target w \<noteq> [] \<and> w_binding_mode w \<in> set BINDING_MODES"
    using Cons.IH [OF ws'] c(3) by auto
  have "distinct (concat (map w_produces ws))"
    unfolding ws using IH(3,4) c(1) by auto
  moreover have "set (concat (map w_produces ws)) \<inter> dom (map_of owners) = {}"
    unfolding ws using IH(4) c(2) by auto
  ultimately show ?case using e IH(1,2,5) by (auto simp: ws)
qed simp

definition ordered_writers :: "writer_spec list \<Rightarrow> bool" where
  "ordered_writers ws =
     (\<forall>i < length ws. set (w_depends_on (ws ! i)) \<subseteq> w_target ` set (take i ws))"

lemma position_less: "i \<le> length ws \<Longrightarrow> position ws d < i \<longleftrightarrow> d \<in> w_target ` set (take i ws)"
proof (induction ws arbitrary: i)
  case (Cons w ws)
  then show ?case by (cases i) (auto simp: position_def)
qed (simp add: position_def)

lemma position_nth:
  assumes "distinct (map w_target ws)" and "i < length ws"
  shows "position ws (w_target (ws ! i)) = i"
proof -
  have "w_target (ws ! i) \<notin> w_target ` set (take i ws)"
  proof
    assume "w_target (ws ! i) \<in> w_target ` set (take i ws)"
    then obtain j where j: "j < i" "w_target (ws ! i) = w_target (ws ! j)"
      using assms(2) by (auto simp: in_set_conv_nth)
    with assms show False by (simp add: distinct_conv_nth)
  qed
  then have "\<not> position ws (w_target (ws ! i)) < i" using position_less assms(2) by (metis less_imp_le)
  moreover have "position ws (w_target (ws ! i)) < Suc i"
    using assms(2) by (subst position_less) (auto simp: take_Suc_conv_app_nth)
  ultimately show ?thesis by simp
qed

lemma check_known_all:
  "mapr (check_known (map w_target ws)) vs = Inr us \<longleftrightarrow>
     us = map (\<lambda>_. ()) vs \<and> (\<forall>w \<in> set vs. set (w_depends_on w) \<subseteq> w_target ` set ws)"
  by (induction vs arbitrary: us) (auto simp: check_known_def bindr_eq_Inr Let_def filter_empty_conv)

lemma check_order_all:
  "mapr (check_order ws) vs = Inr us \<longleftrightarrow>
     us = map (\<lambda>_. ()) vs \<and> (\<forall>w \<in> set vs. \<forall>d \<in> set (w_depends_on w). position ws d < position ws (w_target w))"
  by (induction vs arbitrary: us)
    (auto simp: check_order_def late_dependencies_def bindr_eq_Inr filter_empty_conv not_le)

lemma ordered_writers_positions:
  assumes "distinct (map w_target ws)"
  shows "ordered_writers ws \<longleftrightarrow>
    (\<forall>w \<in> set ws. \<forall>d \<in> set (w_depends_on w). position ws d < position ws (w_target w))"
proof -
  have "set (w_depends_on (ws ! i)) \<subseteq> w_target ` set (take i ws) \<longleftrightarrow>
      (\<forall>d \<in> set (w_depends_on (ws ! i)). position ws d < position ws (w_target (ws ! i)))"
    if i: "i < length ws" for i
    unfolding position_nth [OF assms i] position_less [OF less_imp_le [OF i]] by blast
  then show ?thesis unfolding ordered_writers_def all_set_conv_all_nth by blast
qed

lemma ordered_writers_known:
  assumes "ordered_writers ws" and "w \<in> set ws"
  shows "set (w_depends_on w) \<subseteq> w_target ` set ws"
proof -
  obtain i where "i < length ws" "ws ! i = w" using assms(2) by (metis in_set_conv_nth)
  then have "set (w_depends_on w) \<subseteq> w_target ` set (take i ws)"
    using assms(1) by (auto simp: ordered_writers_def)
  also have "\<dots> \<subseteq> w_target ` set ws" by (intro image_mono set_take_subset)
  finally show ?thesis .
qed

lemma ordered_writers_acyclic:
  assumes "distinct (map w_target ws)" and "ordered_writers ws"
  shows "acyclic (dep_edge ws)"
proof -
  have "dep_edge ws \<subseteq> measure (position ws)"
    using assms ordered_writers_positions by (auto simp: dep_edge_def)
  then show ?thesis using wf_acyclic wf_subset wf_measure by blast
qed

lemma writer_specs_iff:
  "writer_specs policy = Inr ws \<longleftrightarrow>
     (\<exists>x xs. dget policy ''writers'' PyNone = PyList (x # xs) \<and>
        writer_entries [] [] (x # xs) = Inr ws \<and> ordered_writers ws)"
  (is "?l \<longleftrightarrow> ?r")
proof
  assume l: ?l
  obtain l where l': "dget policy ''writers'' PyNone = PyList l"
    using l by (cases "dget policy ''writers'' PyNone") (simp_all add: writer_specs_def)
  obtain x xs where "l = x # xs"
    using l l' by (cases l) (simp_all add: writer_specs_def)
  with l' have d: "dget policy ''writers'' PyNone = PyList (x # xs)" by simp
  obtain us where w: "dget policy ''writers'' PyNone = PyList (x # xs)"
      "writer_entries [] [] (x # xs) = Inr ws" and o: "mapr (check_order ws) ws = Inr us"
    using l unfolding writer_specs_def d by (auto simp only: pyval.case list.case bindr_eq_Inr sum.inject)
  have "distinct (map w_target ws)" using writer_entries_wf [OF w(2)] by simp
  with o w ordered_writers_positions check_order_all show ?r by blast
next
  assume ?r
  then obtain x xs where w: "dget policy ''writers'' PyNone = PyList (x # xs)"
      "writer_entries [] [] (x # xs) = Inr ws" and o: "ordered_writers ws"
    by blast
  have d: "distinct (map w_target ws)" using writer_entries_wf [OF w(2)] by simp
  have known: "\<forall>w \<in> set ws. set (w_depends_on w) \<subseteq> w_target ` set ws"
    using ordered_writers_known [OF o] by blast
  have "validate_acyclic_writer_graph ws = Inr ()"
    using validate_acyclic_decides [OF d known] ordered_writers_acyclic [OF d o] by blast
  moreover have "mapr (check_known (map w_target ws)) ws = Inr (map (\<lambda>_. ()) ws)"
    using known by (simp add: check_known_all)
  moreover have "mapr (check_order ws) ws = Inr (map (\<lambda>_. ()) ws)"
    using o ordered_writers_positions [OF d] by (simp add: check_order_all)
  ultimately show ?l using w by (simp add: writer_specs_def del: writer_entries.simps)
qed

lemma writer_specs_wf:
  assumes "writer_specs policy = Inr ws"
  shows "distinct (map w_target ws)" and "ordered_writers ws"
    and "distinct (concat (map w_produces ws))" and "acyclic (dep_edge ws)"
proof -
  obtain x xs where w: "writer_entries [] [] (x # xs) = Inr ws" and o: "ordered_writers ws"
    using assms unfolding writer_specs_iff by blast
  note wf = writer_entries_wf [OF w]
  then show d: "distinct (map w_target ws)" and "distinct (concat (map w_produces ws))" by auto
  show "ordered_writers ws" by (rule o)
  show "acyclic (dep_edge ws)" by (rule ordered_writers_acyclic [OF d o])
qed

subsection \<open>Plans\<close>

text \<open>
  What the executor relies on: a list of distinct nodes in which every edge points forward.
  Any selection that keeps the list's order runs dependencies first.
\<close>

locale ordered_plan =
  fixes nodes :: "'n list" and edge :: "('n \<times> 'n) set"
  assumes distinct_nodes: "distinct nodes"
    and edge_forward: "(a, b) \<in> edge \<Longrightarrow> \<exists>xs ys zs. nodes = xs @ a # ys @ b # zs"
begin

lemma selection_forward:
  assumes "(a, b) \<in> edge" and "P a" and "P b"
  shows "\<exists>xs ys zs. filter P nodes = xs @ a # ys @ b # zs"
proof -
  obtain xs ys zs where "nodes = xs @ a # ys @ b # zs" using edge_forward [OF assms(1)] by blast
  then have "filter P nodes = filter P xs @ a # filter P ys @ b # filter P zs" using assms by simp
  then show ?thesis by blast
qed

lemma edge_nodes: "(a, b) \<in> edge \<Longrightarrow> a \<in> set nodes \<and> b \<in> set nodes \<and> a \<noteq> b"
  using edge_forward distinct_nodes by fastforce

lemma closed_selection:
  assumes closed: "\<And>a b. (a, b) \<in> edge \<Longrightarrow> P a \<Longrightarrow> P b" and "a \<in> set (filter P nodes)" and "(a, b) \<in> edge\<^sup>+"
  shows "b \<in> set (filter P nodes)"
  using assms(3,2)
proof (induction rule: trancl_induct)
  case (base y)
  then show ?case using closed edge_nodes by auto
next
  case (step y z)
  then show ?case using closed edge_nodes by auto
qed

end

definition accepted_writers :: "pydict \<Rightarrow> writer_spec list" where
  "accepted_writers policy = (case writer_specs policy of Inr ws \<Rightarrow> ws | Inl _ \<Rightarrow> [])"

lemma ordered_writers_forward:
  assumes "ordered_writers ws" and "(a, b) \<in> dep_edge ws"
  shows "\<exists>xs ys zs. map w_target ws = xs @ a # ys @ b # zs"
proof -
  obtain i where i: "i < length ws" "w_target (ws ! i) = b" "a \<in> set (w_depends_on (ws ! i))"
  proof -
    obtain w where w: "w \<in> set ws" "w_target w = b" "a \<in> set (w_depends_on w)"
      using assms(2) by (auto simp: dep_edge_def)
    obtain i where "i < length ws" "ws ! i = w" using w(1) by (metis in_set_conv_nth)
    with w show ?thesis using that by blast
  qed
  then have "a \<in> set (map w_target (take i ws))" using assms(1) by (auto simp: ordered_writers_def)
  then obtain xs ys where "map w_target (take i ws) = xs @ a # ys" by (metis split_list)
  moreover have "map w_target ws = map w_target (take i ws) @ b # map w_target (drop (Suc i) ws)"
    using i(1,2) by (metis Cons_nth_drop_Suc append_take_drop_id list.simps(9) map_append)
  ultimately show ?thesis by auto
qed

lemma accepted_writers_wf:
  "distinct (map w_target (accepted_writers policy)) \<and> ordered_writers (accepted_writers policy)"
proof (cases "writer_specs policy")
  case (Inl e)
  then show ?thesis by (simp add: accepted_writers_def ordered_writers_def)
next
  case (Inr ws)
  then show ?thesis using writer_specs_wf(1,2) [OF Inr] by (simp add: accepted_writers_def)
qed

interpretation plan: ordered_plan "all_writer_targets (accepted_writers policy)"
  "dep_edge (accepted_writers policy)" for policy
  by unfold_locales
    (simp_all only: all_writer_targets_def accepted_writers_wf ordered_writers_forward)

subsection \<open>Selections of writers\<close>

lemma accepted_writers_eq: "writer_specs policy = Inr ws \<Longrightarrow> accepted_writers policy = ws"
  by (simp add: accepted_writers_def)

lemma dep_edge_target: "(a, b) \<in> dep_edge ws \<Longrightarrow> b \<in> set (all_writer_targets ws)"
  by (auto simp: dep_edge_def all_writer_targets_def)

lemma dep_edge_closed:
  "(a, b) \<in> (dep_edge ws)\<^sup>* \<Longrightarrow> a \<in> set (all_writer_targets ws) \<Longrightarrow> b \<in> set (all_writer_targets ws)"
  by (induction rule: rtrancl_induct) (auto intro: dep_edge_target)

lemma selected_downstream:
  "set (concat (map (\<lambda>t. t # downstream_of ws t) ts)) = (dep_edge ws)\<^sup>* `` set ts"
proof -
  have "set (t # downstream_of ws t) = (dep_edge ws)\<^sup>* `` {t}" for t
    by (auto simp: downstream_of_trancl rtrancl_eq_or_trancl)
  then show ?thesis by auto
qed

lemma downstream_closed_Inr:
  "downstream_closed_writer_targets ts (all_writer_targets ws) (downstream_of ws) = Inr sel \<longleftrightarrow>
     py_strip ` set ts - {[]} \<noteq> {} \<and> py_strip ` set ts - {[]} \<subseteq> set (all_writer_targets ws) \<and>
     sel = filter (\<lambda>t. t \<in> (dep_edge ws)\<^sup>* `` (py_strip ` set ts - {[]})) (all_writer_targets ws)"
proof -
  let ?req = "dedupe_from {} (filter (\<lambda>t. t \<noteq> []) (map py_strip ts))"
  have req: "set ?req = py_strip ` set ts - {[]}" by (auto simp: set_dedupe_from)
  have e: "?req = [] \<longleftrightarrow> py_strip ` set ts - {[]} = {}" unfolding req [symmetric] by simp
  have u: "py_sorted_set (filter (\<lambda>t. t \<notin> set (all_writer_targets ws)) ?req) = [] \<longleftrightarrow>
      py_strip ` set ts - {[]} \<subseteq> set (all_writer_targets ws)"
    unfolding py_sorted_set_Nil filter_empty_conv using req by blast
  show ?thesis
    unfolding downstream_closed_writer_targets_def Let_def selected_downstream req
    using e u by (auto simp: bindr_eq_Inr)
qed

lemma selection_exact:
  assumes "py_strip ` set ts - {[]} \<subseteq> set (all_writer_targets ws)"
  shows "set (filter (\<lambda>t. t \<in> (dep_edge ws)\<^sup>* `` (py_strip ` set ts - {[]})) (all_writer_targets ws)) =
    (dep_edge ws)\<^sup>* `` (py_strip ` set ts - {[]})"
  using assms dep_edge_closed by fastforce

subsection \<open>Execution order\<close>

lemma dedupe_from_append:
  "dedupe_from seen (xs @ ys) = dedupe_from seen xs @ dedupe_from (seen \<union> set xs) ys"
  by (induction seen xs rule: dedupe_from.induct) (auto simp: insert_absorb)

lemma dedupe_from_cong: "seen \<inter> set xs = seen' \<inter> set xs \<Longrightarrow> dedupe_from seen xs = dedupe_from seen' xs"
proof (induction xs arbitrary: seen seen')
  case (Cons x xs)
  have "x \<in> seen \<longleftrightarrow> x \<in> seen'" using Cons.prems by auto
  moreover have "dedupe_from seen xs = dedupe_from seen' xs"
    by (rule Cons.IH) (use Cons.prems in auto)
  moreover have "dedupe_from (insert x seen) xs = dedupe_from (insert x seen') xs"
    by (rule Cons.IH) (use Cons.prems in auto)
  ultimately show ?case by simp
qed simp

lemma filter_dedupe_from: "filter P (dedupe_from seen xs) = dedupe_from seen (filter P xs)"
proof (induction seen xs rule: dedupe_from.induct)
  case (2 seen x xs)
  have "\<not> P x \<Longrightarrow> dedupe_from (insert x seen) (filter P xs) = dedupe_from seen (filter P xs)"
    by (rule dedupe_from_cong) auto
  with 2 show ?case by auto
qed simp

lemma dedupe_from_precedes:
  assumes "p \<in> set xs" and "t \<notin> set xs"
  shows "\<exists>as bs cs. dedupe_from {} (xs @ t # ys) = as @ p # bs @ t # cs"
proof -
  have "p \<in> set (dedupe_from {} xs)" using assms by (simp add: set_dedupe_from)
  then obtain as bs where "dedupe_from {} xs = as @ p # bs" by (metis split_list)
  with assms show ?thesis by (auto simp: dedupe_from_append)
qed

definition run_items :: "string list \<Rightarrow> writer_spec list \<Rightarrow> string list" where
  "run_items selected ws = concat (map (\<lambda>w. w_expensive_prerequisites w @ [w_target w])
     (filter (\<lambda>w. w_target w \<in> set selected) ws))"

lemma execution_targets_run: "execution_targets selected ws = dedupe_from {} (run_items selected ws)"
  by (simp add: execution_targets_def run_items_def)

lemma run_items_writers:
  assumes "\<forall>w \<in> set vs. \<forall>p \<in> set (w_expensive_prerequisites w). p \<notin> T" and "w_target ` set vs \<subseteq> T"
  shows "filter (\<lambda>t. t \<in> T) (run_items selected vs) = filter (\<lambda>t. t \<in> set selected) (map w_target vs)"
  using assms by (induction vs) (auto simp: run_items_def filter_empty_conv)

lemma set_run_items_targets:
  assumes "\<forall>w \<in> set vs. \<forall>p \<in> set (w_expensive_prerequisites w). p \<notin> T" and "t \<in> T"
  shows "t \<in> set (run_items selected vs) \<longleftrightarrow> t \<in> set selected \<and> t \<in> w_target ` set vs"
  using assms by (induction vs) (auto simp: run_items_def)

lemma map_of_fold_dset:
  "distinct (map fst ps) \<Longrightarrow> map_of (fold (\<lambda>(p, t) m. dset p t m) ps m) q =
     (case map_of ps q of Some t \<Rightarrow> Some t | None \<Rightarrow> map_of m q)"
proof (induction ps arbitrary: m)
  case (Cons pt ps)
  obtain p t where pt: "pt = (p, t)" by (cases pt)
  have "map_of ps p = None" using Cons.prems by (auto simp: pt map_of_eq_None_iff)
  with Cons show ?case by (auto simp: pt map_of_dset split: option.splits)
qed simp

lemma producer_by_path_Some:
  assumes "distinct (concat (map w_produces ws))"
  shows "map_of (producer_by_path ws) p = Some t \<longleftrightarrow> (\<exists>w \<in> set ws. p \<in> set (w_produces w) \<and> w_target w = t)"
proof -
  let ?ps = "concat (map (\<lambda>w. map (\<lambda>p. (p, w_target w)) (w_produces w)) ws)"
  have keys: "map fst ?ps = concat (map w_produces ws)" by (induction ws) (auto simp: comp_def)
  have "map_of (producer_by_path ws) p = map_of ?ps p"
    unfolding producer_by_path_def using map_of_fold_dset [of ?ps "[]" p] assms
    by (simp add: keys split: option.splits)
  then have "map_of (producer_by_path ws) p = Some t \<longleftrightarrow> (p, t) \<in> set ?ps"
    using map_of_eq_Some_iff [of ?ps p t] assms by (simp add: keys)
  then show ?thesis by auto
qed
definition precedes :: "string \<Rightarrow> string \<Rightarrow> string list \<Rightarrow> bool" where
  "precedes a b xs = (\<exists>as bs cs. xs = as @ a # bs @ b # cs)"

lemma execution_prerequisites_first:
  assumes distinct: "distinct (map w_target ws)"
    and disjoint: "\<forall>w \<in> set ws. \<forall>p \<in> set (w_expensive_prerequisites w). p \<notin> w_target ` set ws"
    and w: "w \<in> set ws" "w_target w \<in> set sel" and p: "p \<in> set (w_expensive_prerequisites w)"
  shows "precedes p (w_target w) (execution_targets sel ws)"
proof -
  obtain us vs where ws: "ws = us @ w # vs" using w(1) by (metis split_list)
  have "w_target w \<notin> set (run_items sel us)"
    using set_run_items_targets [of us "w_target ` set ws" "w_target w" sel] distinct disjoint
    by (auto simp: ws)
  moreover have "w_target w \<notin> set (w_expensive_prerequisites w)" using disjoint w(1) by auto
  ultimately have fresh: "w_target w \<notin> set (run_items sel us @ w_expensive_prerequisites w)" by simp
  have "run_items sel ws = (run_items sel us @ w_expensive_prerequisites w) @ w_target w # run_items sel vs"
    using w(2) by (simp add: ws run_items_def)
  with dedupe_from_precedes [OF _ fresh, of p "run_items sel vs"] p show ?thesis
    by (simp add: execution_targets_run precedes_def)
qed

lemma execution_writers_filter:
  assumes "distinct (map w_target ws)"
    and "\<forall>w \<in> set ws. \<forall>p \<in> set (w_expensive_prerequisites w). p \<notin> w_target ` set ws"
  shows "filter (\<lambda>t. t \<in> w_target ` set ws) (execution_targets sel ws) =
    filter (\<lambda>t. t \<in> set sel) (map w_target ws)"
proof -
  have "filter (\<lambda>t. t \<in> w_target ` set ws) (execution_targets sel ws) =
      dedupe_from {} (filter (\<lambda>t. t \<in> w_target ` set ws) (run_items sel ws))"
    by (simp only: execution_targets_run filter_dedupe_from)
  also have "\<dots> = dedupe_from {} (filter (\<lambda>t. t \<in> set sel) (map w_target ws))"
    using run_items_writers [of ws "w_target ` set ws" sel] assms(2) by simp
  also have "\<dots> = filter (\<lambda>t. t \<in> set sel) (map w_target ws)"
    using assms(1) by (intro dedupe_from_disjoint distinct_filter) auto
  finally show ?thesis .
qed

subsection \<open>Properties of the writer graph\<close>

definition sample_writer :: "string \<Rightarrow> string list \<Rightarrow> string list \<Rightarrow> pyval" where
  "sample_writer t deps exps = PyDict [(''target'', PyStr t), (''binding_mode'', PyStr ''raw''),
     (''produces'', PyList [PyStr (t @ ''.json'')]), (''depends_on'', PyList (map PyStr deps)),
     (''expensive_prerequisites'', PyList (map PyStr exps))]"

definition sample_policy :: pydict where
  "sample_policy = [(''writers'', PyList [sample_writer ''a'' [] [], sample_writer ''b'' [''a''] [''slow''],
     sample_writer ''c'' [] [], sample_writer ''d'' [''b''] [''slow'']])]"

definition sample_spec :: "string \<Rightarrow> string list \<Rightarrow> string list \<Rightarrow> writer_spec" where
  "sample_spec t deps exps = \<lparr>w_name = t, w_target = t, w_binding_mode = ''raw'',
     w_produces = [t @ ''.json''], w_depends_on = deps, w_expensive_prerequisites = exps\<rparr>"

definition sample_writers :: "writer_spec list" where
  "sample_writers = [sample_spec ''a'' [] [], sample_spec ''b'' [''a''] [''slow''],
     sample_spec ''c'' [] [], sample_spec ''d'' [''b''] [''slow'']]"

text \<open>
  C36: the cycle check of the writer policy is exact and names the cycle. For writers with distinct
  targets whose dependencies are all writers, the depth-first walk of
  \<open>_validate_acyclic_writer_graph\<close> returns without raising exactly when the dependency relation has
  no cycle. On every graph with a cycle it raises the \<open>ValueError\<close> of a dependency cycle, and the
  targets its message lists are a cycle of the graph: without repetition, each depending on the
  next and the last on the first. So the walk never exceeds a recursion depth of one more than the
  number of writers, on cyclic graphs neither: no other error is possible.
\<close>

theorem acyclic_check_exact:
  assumes "distinct (map w_target ws)"
    and "\<forall>w \<in> set ws. set (w_depends_on w) \<subseteq> w_target ` set ws"
  shows "(validate_acyclic_writer_graph ws = Inr () \<longleftrightarrow> acyclic (dep_edge ws)) \<and>
    (\<not> acyclic (dep_edge ws) \<longrightarrow>
      (\<exists>c cs. validate_acyclic_writer_graph ws =
          Inl (ValueError (''writer dependency cycle: '' @ py_join '' -> '' (c # cs @ [c]))) \<and>
        distinct (c # cs) \<and> successively (\<lambda>x y. (y, x) \<in> dep_edge ws) (c # cs @ [c])))"
proof (intro conjI impI)
  show iff: "validate_acyclic_writer_graph ws = Inr () \<longleftrightarrow> acyclic (dep_edge ws)"
    using assms by (rule validate_acyclic_decides)
  assume "\<not> acyclic (dep_edge ws)"
  with iff obtain e where e: "validate_acyclic_writer_graph ws = Inl e"
    by (cases "validate_acyclic_writer_graph ws") auto
  from validate_acyclic_names_cycle [OF assms e] e
  show "\<exists>c cs. validate_acyclic_writer_graph ws =
          Inl (ValueError (''writer dependency cycle: '' @ py_join '' -> '' (c # cs @ [c]))) \<and>
        distinct (c # cs) \<and> successively (\<lambda>x y. (y, x) \<in> dep_edge ws) (c # cs @ [c])"
    by (auto simp: names_cycle_def cycle_error_def)
qed

definition cyclic_writers :: "writer_spec list" where
  "cyclic_writers = [sample_spec ''a'' [''c''] [], sample_spec ''b'' [''a''] [],
     sample_spec ''c'' [''b''] []]"

theorem acyclic_check_exact_witness:
  "acyclic (dep_edge sample_writers) \<and> \<not> acyclic (dep_edge cyclic_writers) \<and>
     validate_acyclic_writer_graph cyclic_writers =
       Inl (ValueError ''writer dependency cycle: a -> c -> b -> a'')"
proof -
  have "validate_acyclic_writer_graph sample_writers = Inr ()"
    and c: "validate_acyclic_writer_graph cyclic_writers =
       Inl (ValueError ''writer dependency cycle: a -> c -> b -> a'')"
    by code_simp+
  then have "acyclic (dep_edge sample_writers)"
    using acyclic_check_exact [of sample_writers] by (auto simp: sample_writers_def sample_spec_def)
  moreover have "\<not> acyclic (dep_edge cyclic_writers)"
    using acyclic_check_exact [of cyclic_writers] c by (auto simp: cyclic_writers_def sample_spec_def)
  ultimately show ?thesis using c by blast
qed

text \<open>
  C37: what the policy loader accepts. \<open>_writer_specs\<close> returns writers exactly when the policy
  holds a non-empty list whose entries are each well formed and each depends only on targets
  that come before it; then targets and produced paths are free of duplicates, every writer
  produces something under a known binding mode, and the dependency graph is acyclic.
\<close>

theorem writer_policy_accepted_iff:
  "(writer_specs policy = Inr ws \<longleftrightarrow>
      (\<exists>x xs. dget policy ''writers'' PyNone = PyList (x # xs) \<and>
         writer_entries [] [] (x # xs) = Inr ws \<and> ordered_writers ws)) \<and>
    (writer_specs policy = Inr ws \<longrightarrow>
      distinct (map w_target ws) \<and> distinct (concat (map w_produces ws)) \<and> acyclic (dep_edge ws) \<and>
      (\<forall>w \<in> set ws. w_produces w \<noteq> [] \<and> w_binding_mode w \<in> set BINDING_MODES))"
proof (intro conjI impI)
  show "writer_specs policy = Inr ws \<longleftrightarrow>
      (\<exists>x xs. dget policy ''writers'' PyNone = PyList (x # xs) \<and>
         writer_entries [] [] (x # xs) = Inr ws \<and> ordered_writers ws)"
    by (rule writer_specs_iff)
  assume a: "writer_specs policy = Inr ws"
  then obtain x xs where w: "writer_entries [] [] (x # xs) = Inr ws" unfolding writer_specs_iff by blast
  show "distinct (map w_target ws)" "distinct (concat (map w_produces ws))" "acyclic (dep_edge ws)"
    by (rule writer_specs_wf [OF a])+
  show "\<forall>w \<in> set ws. w_produces w \<noteq> [] \<and> w_binding_mode w \<in> set BINDING_MODES"
    using writer_entries_wf [OF w] by blast
qed

theorem writer_policy_accepted_iff_witness:
  "ordered_writers sample_writers \<and> acyclic (dep_edge sample_writers)"
proof -
  have a: "writer_specs sample_policy = Inr sample_writers" by code_simp
  then show ?thesis
    using writer_policy_accepted_iff [of sample_policy sample_writers] by blast
qed

text \<open>
  C38: the selection for a run is the downstream closure. For an accepted policy, initial targets
  are accepted exactly when some remain after stripping and all are writers; the selected targets
  are then exactly those reachable from the initial ones through dependency edges, without
  duplicates and in policy order, so that for every dependency edge that leaves a selected
  target the dependency comes first in the selection.
\<close>

theorem initial_targets_closure:
  assumes accepted: "writer_specs policy = Inr ws"
  shows "((\<exists>sel. validated_initial_targets ws (Some ts) = Inr sel) \<longleftrightarrow>
      py_strip ` set ts - {[]} \<noteq> {} \<and> py_strip ` set ts - {[]} \<subseteq> set (all_writer_targets ws)) \<and>
    (\<forall>sel. validated_initial_targets ws (Some ts) = Inr sel \<longrightarrow>
      set sel = (dep_edge ws)\<^sup>* `` (py_strip ` set ts - {[]}) \<and>
      distinct sel \<and> subseq sel (all_writer_targets ws) \<and>
      (\<forall>a b. (a, b) \<in> dep_edge ws \<and> a \<in> set sel \<longrightarrow> precedes a b sel))"
proof (intro conjI allI impI)
  let ?req = "py_strip ` set ts - {[]}"
  let ?P = "\<lambda>t. t \<in> (dep_edge ws)\<^sup>* `` ?req"
  show "(\<exists>sel. validated_initial_targets ws (Some ts) = Inr sel) \<longleftrightarrow>
      ?req \<noteq> {} \<and> ?req \<subseteq> set (all_writer_targets ws)"
    by (simp add: validated_initial_targets_def downstream_closed_Inr)
  fix sel assume run: "validated_initial_targets ws (Some ts) = Inr sel"
  then have sub: "?req \<subseteq> set (all_writer_targets ws)" and sel: "sel = filter ?P (all_writer_targets ws)"
    by (auto simp: validated_initial_targets_def downstream_closed_Inr)
  show set_sel: "set sel = (dep_edge ws)\<^sup>* `` ?req" unfolding sel by (rule selection_exact [OF sub])
  show "distinct sel" using writer_specs_wf(1) [OF accepted] by (simp add: sel all_writer_targets_def)
  show "subseq sel (all_writer_targets ws)" by (simp add: sel)
  fix a b assume e: "(a, b) \<in> dep_edge ws \<and> a \<in> set sel"
  then have "?P a" using set_sel by blast
  moreover have "?P b" using \<open>?P a\<close> e by (auto intro: rtrancl_into_rtrancl)
  ultimately show "precedes a b sel"
    using plan.selection_forward [of a b policy ?P] e
    unfolding accepted_writers_eq [OF accepted] sel precedes_def by blast
qed

theorem initial_targets_closure_witness:
  "set [''b'', ''d''] = (dep_edge sample_writers)\<^sup>* `` (py_strip ` set ['' b ''] - {[]}) \<and>
     precedes ''b'' ''d'' [''b'', ''d'']"
proof -
  have a: "writer_specs sample_policy = Inr sample_writers"
    and r: "validated_initial_targets sample_writers (Some ['' b '']) = Inr [''b'', ''d'']"
    by code_simp+
  have e: "(''b'', ''d'') \<in> dep_edge sample_writers"
    by (auto simp: dep_edge_def sample_writers_def sample_spec_def)
  show ?thesis
    using initial_targets_closure [OF a, of "['' b '']"] r e by (metis list.set_intros(1))
qed
text \<open>
  C39: the execution plan runs prerequisites and dependencies first. For an accepted policy whose
  expensive prerequisites are not themselves writers, the planned commands have no duplicates;
  the writers among them are exactly the selected ones, in policy order; every prerequisite of a
  selected writer comes before it; and a selected writer comes after each of its selected
  dependencies.
\<close>

theorem execution_plan_ordered:
  assumes accepted: "writer_specs policy = Inr ws"
    and disjoint: "\<forall>w \<in> set ws. \<forall>p \<in> set (w_expensive_prerequisites w). p \<notin> w_target ` set ws"
  shows "distinct (execution_targets sel ws) \<and>
    filter (\<lambda>t. t \<in> w_target ` set ws) (execution_targets sel ws) = filter (\<lambda>t. t \<in> set sel) (all_writer_targets ws) \<and>
    (\<forall>w \<in> set ws. \<forall>p \<in> set (w_expensive_prerequisites w).
       w_target w \<in> set sel \<longrightarrow> precedes p (w_target w) (execution_targets sel ws)) \<and>
    (\<forall>a b. (a, b) \<in> dep_edge ws \<and> a \<in> set sel \<and> b \<in> set sel \<longrightarrow>
       precedes a b (filter (\<lambda>t. t \<in> w_target ` set ws) (execution_targets sel ws)))"
proof (intro conjI ballI allI impI)
  note d = writer_specs_wf(1) [OF accepted]
  show "distinct (execution_targets sel ws)" by (simp add: execution_targets_def distinct_dedupe_from)
  show f: "filter (\<lambda>t. t \<in> w_target ` set ws) (execution_targets sel ws) = filter (\<lambda>t. t \<in> set sel) (all_writer_targets ws)"
    using execution_writers_filter [OF d disjoint] by (simp add: all_writer_targets_def)
  show "precedes p (w_target w) (execution_targets sel ws)"
    if "w \<in> set ws" "p \<in> set (w_expensive_prerequisites w)" "w_target w \<in> set sel" for w p
    by (rule execution_prerequisites_first [OF d disjoint that(1,3,2)])
  show "precedes a b (filter (\<lambda>t. t \<in> w_target ` set ws) (execution_targets sel ws))"
    if "(a, b) \<in> dep_edge ws \<and> a \<in> set sel \<and> b \<in> set sel" for a b
    using plan.selection_forward [of a b policy "\<lambda>t. t \<in> set sel"] that
    unfolding f accepted_writers_eq [OF accepted] precedes_def by blast
qed

theorem execution_plan_ordered_witness:
  "execution_targets [''b'', ''d''] sample_writers = [''slow'', ''b'', ''d''] \<and>
     precedes ''slow'' ''d'' [''slow'', ''b'', ''d'']"
proof -
  have a: "writer_specs sample_policy = Inr sample_writers"
    and e: "execution_targets [''b'', ''d''] sample_writers = [''slow'', ''b'', ''d'']"
    by code_simp+
  have disjoint: "\<forall>w \<in> set sample_writers. \<forall>p \<in> set (w_expensive_prerequisites w).
      p \<notin> w_target ` set sample_writers"
    by (simp add: sample_writers_def sample_spec_def)
  show ?thesis
    using conjunct1 [OF conjunct2 [OF conjunct2 [OF execution_plan_ordered [OF a disjoint, of "[''b'', ''d'']"]]]] e
    by (simp add: sample_writers_def sample_spec_def)
qed

text \<open>
  C40: the writers rerun for changed files. For an accepted policy, the targets chosen for a set of
  affected paths are, in policy order and without duplicates, exactly the writers that produce
  one of the affected paths and the writers that depend on those, directly or not; paths no writer
  produces are ignored.
\<close>

theorem affected_targets_exact:
  assumes accepted: "writer_specs policy = Inr ws"
  shows "targets_for_affected_paths affected ws =
    filter (\<lambda>t. \<exists>w \<in> set ws. (\<exists>p \<in> set affected. p \<in> set (w_produces w)) \<and> (w_target w, t) \<in> (dep_edge ws)\<^sup>*)
      (all_writer_targets ws)"
proof -
  let ?producers = "List.map_filter (map_of (producer_by_path ws)) affected"
  note p = producer_by_path_Some [OF writer_specs_wf(3) [OF accepted]]
  have "u \<in> set ?producers \<longleftrightarrow> (\<exists>q \<in> set affected. map_of (producer_by_path ws) q = Some u)" for u
    by (induction affected) (auto simp: List.map_filter_simps split: option.splits)
  then have "u \<in> set ?producers \<longleftrightarrow> (\<exists>q \<in> set affected. \<exists>w \<in> set ws. q \<in> set (w_produces w) \<and> w_target w = u)" for u
    by (simp only: p)
  then have "set ?producers = w_target ` {w \<in> set ws. \<exists>p \<in> set affected. p \<in> set (w_produces w)}"
    by (simp only: set_eq_iff image_iff) (simp add: Bex_def, metis)
  then have "t \<in> (dep_edge ws)\<^sup>* `` set ?producers \<longleftrightarrow>
      (\<exists>w \<in> set ws. (\<exists>p \<in> set affected. p \<in> set (w_produces w)) \<and> (w_target w, t) \<in> (dep_edge ws)\<^sup>*)" for t
    by (simp only: Image_iff bex_simps Bex_def image_iff mem_Collect_eq ex_simps) auto
  then show ?thesis
    unfolding targets_for_affected_paths_def Let_def selected_downstream all_writer_targets_def by simp
qed

theorem affected_targets_exact_witness:
  "targets_for_affected_paths [''a.json'', ''zz''] sample_writers = [''a'', ''b'', ''d''] \<and>
     (\<exists>w \<in> set sample_writers. ''a.json'' \<in> set (w_produces w) \<and> (w_target w, ''d'') \<in> (dep_edge sample_writers)\<^sup>*)"
proof -
  have a: "writer_specs sample_policy = Inr sample_writers"
    and e: "targets_for_affected_paths [''a.json'', ''zz''] sample_writers = [''a'', ''b'', ''d'']"
    by code_simp+
  have "''d'' \<in> set (targets_for_affected_paths [''a.json'', ''zz''] sample_writers)" by (simp add: e)
  then have "''d'' \<in> set (targets_for_affected_paths [''a.json''] sample_writers)" by code_simp
  then show ?thesis
    using e affected_targets_exact [OF a, of "[''a.json'']"] by auto
qed

end
