(* ===== verification/FixedPointRun.thy ===== *)
theory FixedPointRun
  imports WriterGraph
begin

section \<open>The fixed-point run\<close>

text \<open>
  The execution half of \<open>release/release_closeout_fixed_point.py\<close>: the single pass over the writer
  targets with its record of tracked writes, the summary of durations, the authority of an earlier
  report and the dry run. The tree is an abstract state; what a command does to it (\<open>command_runner\<close>),
  what is observed of a tracked file, digests, \<open>sanitize_report_text\<close> and the loading of JSON files
  are parameters. Progress messages are left out.
\<close>

subsection \<open>Observing the tracked artifacts\<close>

text \<open>A dictionary filled in a loop of assignments.\<close>

definition dict_of :: "(string \<times> 'v) list \<Rightarrow> (string \<times> 'v) list" where
  "dict_of ps = fold (\<lambda>(k, v) d. dset k v d) ps []"

lemma map_of_fold_values:
  "map_of (fold (\<lambda>(k, v) d. dset k v d) (map (\<lambda>x. (f x, g (f x))) xs) d) p =
     (if p \<in> f ` set xs then Some (g p) else map_of d p)"
  by (induction xs arbitrary: d) (auto simp: map_of_dset)

lemma map_of_dict_values: "map_of (dict_of (map (\<lambda>x. (f x, g (f x))) xs)) p = (if p \<in> f ` set xs then Some (g p) else None)"
  unfolding dict_of_def by (subst map_of_fold_values) simp

lemma fst_dset: "fst ` set (dset k v d) = insert k (fst ` set d)"
  by (simp add: dset_def dom_update)

lemma keys_fold_dset: "fst ` set (fold (\<lambda>(k, v) d. dset k v d) ps d) = fst ` set ps \<union> fst ` set d"
  by (induction ps arbitrary: d) (simp_all add: split_beta fst_dset)

lemma keys_dict_of: "fst ` set (dict_of ps) = fst ` set ps"
  by (simp add: dict_of_def keys_fold_dset)

lemma distinct_fold_dset: "distinct (map fst d) \<Longrightarrow> distinct (map fst (fold (\<lambda>(k, v) d. dset k v d) ps d))"
  by (induction ps arbitrary: d) (auto simp: dset_def distinct_update)

type_synonym output_state = "string \<times> int \<times> int \<times> int"

text \<open>
  What the run sees of the tree: digest, device, inode and modification time of a file (\<open>None\<close> when
  it is not a regular file) and its digest under a binding mode.
\<close>

record 's tree_view =
  tv_stat :: "string \<Rightarrow> 's \<Rightarrow> output_state option"
  tv_binding :: "string \<Rightarrow> string \<Rightarrow> 's \<Rightarrow> string"

definition observe :: "'s tree_view \<Rightarrow> 's \<Rightarrow> string \<Rightarrow> output_state" where
  "observe V s p = (case tv_stat V p s of None \<Rightarrow> (''missing'', 0, 0, 0) | Some st \<Rightarrow> st)"

definition tracked_output_state_map :: "'s tree_view \<Rightarrow> tracked_artifact list \<Rightarrow> 's \<Rightarrow> (string \<times> output_state) list" where
  "tracked_output_state_map V arts s = dict_of (map (\<lambda>a. (ta_path a, observe V s (ta_path a))) arts)"

definition raw_digest_map :: "'s tree_view \<Rightarrow> tracked_artifact list \<Rightarrow> 's \<Rightarrow> (string \<times> string) list" where
  "raw_digest_map V arts s = dict_of (map (\<lambda>a. (ta_path a, fst (observe V s (ta_path a)))) arts)"

definition binding_maps ::
  "'s tree_view \<Rightarrow> tracked_artifact list \<Rightarrow> 's \<Rightarrow> (string \<times> string) list \<times> (string \<times> string) list" where
  "binding_maps V arts s =
     (dict_of (map (\<lambda>a. (ta_path a, tv_binding V (ta_binding_mode a) (ta_path a) s)) arts),
      dict_of (map (\<lambda>a. (ta_path a, ta_binding_mode a)) arts))"

definition changed_paths :: "(string \<times> 'v) list option \<Rightarrow> (string \<times> 'v) list \<Rightarrow> string list" where
  "changed_paths previous current =
     (case previous of
        None \<Rightarrow> py_sorted (map fst current)
      | Some old \<Rightarrow> py_sorted (map fst (filter (\<lambda>(p, digest). map_of old p \<noteq> Some digest) current)))"

subsection \<open>Running the commands\<close>

definition make_command :: "string \<Rightarrow> string \<Rightarrow> string \<Rightarrow> string list \<Rightarrow> string list" where
  "make_command target vault python_executable make_variables =
     [''make'', target, ''PYTHON='' @ python_executable, ''VAULT='' @ vault] @ make_variables"

record command_result =
  cr_target :: string
  cr_command :: "string list"
  cr_returncode :: int
  cr_timed_out :: bool
  cr_timeout_seconds :: int
  cr_termination_reason :: string
  cr_duration_ms :: int
  cr_stdout_tail :: string
  cr_stderr_tail :: string
  cr_status :: string
  cr_tracked_paths_changed :: "string list"
  cr_undeclared_tracked_writes :: "string list"
  cr_issues :: "string list"

record 's execution_context =
  x_vault :: string
  x_python_executable :: string
  x_make_variables :: "string list"
  x_timeout_seconds :: int
  x_command_runner :: "string list \<Rightarrow> int \<Rightarrow> 's \<Rightarrow> pydict \<times> 's"
  x_sanitize :: "string \<Rightarrow> string"
  x_writers :: "writer_spec list"
  x_tracked_artifacts :: "tracked_artifact list"
  x_view :: "'s tree_view"

text \<open>\<open>_writer_by_target\<close>: a later writer of the same target replaces an earlier one.\<close>

definition writer_by_target :: "writer_spec list \<Rightarrow> string \<Rightarrow> writer_spec option" where
  "writer_by_target ws t = map_of (rev (map (\<lambda>w. (w_target w, w)) ws)) t"

definition declared_produces :: "writer_spec list \<Rightarrow> string \<Rightarrow> string list" where
  "declared_produces ws t = (case writer_by_target ws t of None \<Rightarrow> [] | Some w \<Rightarrow> w_produces w)"

text \<open>The payload of one command from the runner's answer and the observed writes.\<close>

definition command_payload ::
  "'s execution_context \<Rightarrow> string \<Rightarrow> string list \<Rightarrow> pydict \<Rightarrow> string list \<Rightarrow> command_result res" where
  "command_payload X target command result changed =
     (let undeclared = py_sorted_set (filter (\<lambda>p. p \<notin> set (declared_produces (x_writers X) target)) changed)
      in bindr (py_iter (dget result ''command'' (py_strs command))) (\<lambda>words.
         bindr (py_int (dget result ''returncode'' (PyInt 1))) (\<lambda>code.
         bindr (py_int (dget result ''timeout_seconds'' (PyInt (x_timeout_seconds X)))) (\<lambda>timeout.
         bindr (let d = dget result ''duration_ms'' (PyInt 0) in py_int (if py_truth d then d else PyInt 0)) (\<lambda>duration.
           Inr \<lparr>cr_target = target, cr_command = map (\<lambda>w. x_sanitize X (py_str w)) words, cr_returncode = code,
             cr_timed_out = py_truth (dget result ''timed_out'' (PyBool False)), cr_timeout_seconds = timeout,
             cr_termination_reason =
               (if undeclared \<noteq> [] then ''undeclared_tracked_write''
                else py_str (dget result ''termination_reason'' (PyStr ''''))),
             cr_duration_ms = duration,
             cr_stdout_tail = x_sanitize X (py_str (dget result ''stdout_tail'' (PyStr ''''))),
             cr_stderr_tail = x_sanitize X (py_str (dget result ''stderr_tail'' (PyStr ''''))),
             cr_status = (if undeclared \<noteq> [] then ''fail'' else py_str (dget result ''status'' (PyStr ''fail''))),
             cr_tracked_paths_changed = changed, cr_undeclared_tracked_writes = undeclared,
             cr_issues = (if undeclared \<noteq> [] then [''undeclared_tracked_write''] else [])\<rparr>)))))"

definition run_target :: "'s execution_context \<Rightarrow> string \<Rightarrow> 's \<Rightarrow> command_result res \<times> 's" where
  "run_target X target s =
     (let command = make_command target (x_vault X) (x_python_executable X) (x_make_variables X);
          before = tracked_output_state_map (x_view X) (x_tracked_artifacts X) s
      in case x_command_runner X command (x_timeout_seconds X) s of (result, s') \<Rightarrow>
           (command_payload X target command result
              (changed_paths (Some before) (tracked_output_state_map (x_view X) (x_tracked_artifacts X) s')), s'))"

fun run_execution :: "'s execution_context \<Rightarrow> string list \<Rightarrow> 's \<Rightarrow> (command_result list \<times> bool) res \<times> 's" where
  "run_execution X [] s = (Inr ([], False), s)"
| "run_execution X (t # ts) s =
     (case run_target X t s of
        (Inl e, s') \<Rightarrow> (Inl e, s')
      | (Inr r, s') \<Rightarrow>
          if cr_status r \<noteq> ''pass'' then (Inr ([r], True), s')
          else (case run_execution X ts s' of
                  (Inl e, s2) \<Rightarrow> (Inl e, s2)
                | (Inr (rs, failed), s2) \<Rightarrow> (Inr (r # rs, failed), s2)))"

subsection \<open>The state after the pass\<close>

record execution_state =
  es_status :: string
  es_reason :: string
  es_selected_targets :: "string list"
  es_command_results :: "command_result list"
  es_raw_digest_map :: "(string \<times> string) list"
  es_raw_changed_paths :: "string list"
  es_binding_digest_map :: "(string \<times> string) list"
  es_binding_mode_map :: "(string \<times> string) list"
  es_binding_changed_paths :: "string list"

definition fixed_point_execution_state ::
  "'s execution_context \<Rightarrow> string list \<Rightarrow> 's \<Rightarrow> execution_state res \<times> 's" where
  "fixed_point_execution_state X selected s =
     (let V = x_view X; arts = x_tracked_artifacts X;
          previous_raw = raw_digest_map V arts s;
          previous_binding = fst (binding_maps V arts s)
      in case run_execution X (execution_targets selected (x_writers X)) s of
           (Inl e, s') \<Rightarrow> (Inl e, s')
         | (Inr (results, failed), s') \<Rightarrow>
             (Inr \<lparr>es_status = (if failed then ''fail'' else ''pass''),
                es_reason =
                  (if list_ex (\<lambda>r. ''undeclared_tracked_write'' \<in> set (cr_issues r)) results
                   then ''undeclared_tracked_write''
                   else if failed then ''command_failed'' else ''single_topological_pass_completed''),
                es_selected_targets = selected, es_command_results = results,
                es_raw_digest_map = raw_digest_map V arts s',
                es_raw_changed_paths = changed_paths (Some previous_raw) (raw_digest_map V arts s'),
                es_binding_digest_map = fst (binding_maps V arts s'),
                es_binding_mode_map = snd (binding_maps V arts s'),
                es_binding_changed_paths =
                  changed_paths (Some previous_binding) (fst (binding_maps V arts s'))\<rparr>, s'))"

subsection \<open>What a passing run did\<close>

lemma map_of_output_states:
  "map_of (tracked_output_state_map V arts s) p = (if p \<in> ta_path ` set arts then Some (observe V s p) else None)"
  by (simp add: tracked_output_state_map_def map_of_dict_values)

lemma changed_paths_iff:
  "p \<in> set (changed_paths (Some old) new) \<longleftrightarrow> (\<exists>v. (p, v) \<in> set new \<and> map_of old p \<noteq> Some v)"
  by (force simp: changed_paths_def)

lemma changed_output_states:
  "set (changed_paths (Some (tracked_output_state_map V arts s)) (tracked_output_state_map V arts s')) =
     {p \<in> ta_path ` set arts. observe V s p \<noteq> observe V s' p}"
proof -
  have "distinct (map fst (tracked_output_state_map V arts s'))"
    unfolding tracked_output_state_map_def dict_of_def by (rule distinct_fold_dset) simp
  then have "(p, st) \<in> set (tracked_output_state_map V arts s') \<longleftrightarrow> p \<in> ta_path ` set arts \<and> st = observe V s' p" for p st
    using map_of_eq_Some_iff [of "tracked_output_state_map V arts s'" p st] by (auto simp: map_of_output_states split: if_splits)
  then show ?thesis
    by (intro set_eqI) (auto simp add: changed_paths_iff map_of_output_states simp del: split_paired_Ex)
qed

lemma run_target_pass:
  assumes run: "run_target X t s = (Inr r, s')" and ok: "cr_status r = ''pass''"
    and p: "p \<in> ta_path ` set (x_tracked_artifacts X)" "p \<notin> set (declared_produces (x_writers X) t)"
  shows "observe (x_view X) s' p = observe (x_view X) s p"
proof (rule ccontr)
  assume ne: "observe (x_view X) s' p \<noteq> observe (x_view X) s p"
  obtain result changed where ch: "changed = changed_paths (Some (tracked_output_state_map (x_view X) (x_tracked_artifacts X) s))
      (tracked_output_state_map (x_view X) (x_tracked_artifacts X) s')"
    and pay: "command_payload X t (make_command t (x_vault X) (x_python_executable X) (x_make_variables X)) result changed = Inr r"
    using run by (auto simp: run_target_def Let_def split: prod.splits)
  have "p \<in> set changed" using p(1) ne by (auto simp: ch changed_output_states)
  with p(2) have "py_sorted_set (filter (\<lambda>p. p \<notin> set (declared_produces (x_writers X) t)) changed) \<noteq> []"
    by (auto simp: filter_empty_conv)
  with pay have "cr_status r = ''fail''" by (auto simp: command_payload_def Let_def bindr_eq_Inr)
  with ok show False by simp
qed

lemma run_target_name: "run_target X t s = (Inr r, s') \<Longrightarrow> cr_target r = t"
  by (auto simp: run_target_def command_payload_def Let_def bindr_eq_Inr split: prod.splits)

lemma run_execution_append:
  "run_execution X (ts @ us) s = (Inr (rs, False), s') \<longleftrightarrow>
     (\<exists>rs1 rs2 s1. run_execution X ts s = (Inr (rs1, False), s1) \<and> run_execution X us s1 = (Inr (rs2, False), s') \<and>
        rs = rs1 @ rs2)"
proof (induction ts arbitrary: s rs)
  case (Cons t ts)
  obtain o1 w1 where 1: "run_target X t s = (o1, w1)" by (cases "run_target X t s")
  show ?case
  proof (cases o1)
    case (Inr r)
    show ?thesis
    proof (cases "cr_status r = ''pass''")
      case True
      have "run_execution X ((t # ts) @ us) s = (Inr (rs, False), s') \<longleftrightarrow>
          (\<exists>rs'. rs = r # rs' \<and> run_execution X (ts @ us) w1 = (Inr (rs', False), s'))"
        using 1 Inr True by (auto split: prod.splits sum.splits)
      also have "\<dots> \<longleftrightarrow> (\<exists>rs1 rs2 s1. run_execution X ts w1 = (Inr (rs1, False), s1) \<and>
          run_execution X us s1 = (Inr (rs2, False), s') \<and> rs = r # rs1 @ rs2)"
        unfolding Cons.IH by blast
      also have "\<dots> \<longleftrightarrow> (\<exists>rs1 rs2 s1. run_execution X (t # ts) s = (Inr (rs1, False), s1) \<and>
          run_execution X us s1 = (Inr (rs2, False), s') \<and> rs = rs1 @ rs2)"
        using 1 Inr True by (fastforce split: prod.splits sum.splits)
      finally show ?thesis .
    qed (use 1 Inr in auto)
  qed (use 1 in auto)
qed simp

lemma run_execution_pass:
  assumes "run_execution X ts s = (Inr (rs, False), s')"
  shows "map cr_target rs = ts \<and> (\<forall>r \<in> set rs. cr_status r = ''pass'') \<and>
    (\<forall>p \<in> ta_path ` set (x_tracked_artifacts X). (\<forall>t \<in> set ts. p \<notin> set (declared_produces (x_writers X) t)) \<longrightarrow>
       observe (x_view X) s' p = observe (x_view X) s p)"
  using assms
proof (induction ts arbitrary: s rs)
  case (Cons t ts)
  obtain r w1 where 1: "run_target X t s = (Inr r, w1)" and ok: "cr_status r = ''pass''"
    using Cons.prems by (auto split: prod.splits sum.splits if_splits)
  obtain rs' where 2: "run_execution X ts w1 = (Inr (rs', False), s')" and rs: "rs = r # rs'"
    using Cons.prems 1 ok by (auto split: prod.splits sum.splits if_splits)
  note ih = Cons.IH [OF 2]
  show ?case
  proof (intro conjI ballI impI)
    show "map cr_target rs = t # ts" using ih run_target_name [OF 1] by (simp add: rs)
    show "cr_status q = ''pass''" if "q \<in> set rs" for q using ih ok that by (auto simp: rs)
    fix p
    assume p: "p \<in> ta_path ` set (x_tracked_artifacts X)" "\<forall>u \<in> set (t # ts). p \<notin> set (declared_produces (x_writers X) u)"
    then have "observe (x_view X) s' p = observe (x_view X) w1 p" using ih by auto
    also have "\<dots> = observe (x_view X) s p" using run_target_pass [OF 1 ok p(1)] p(2) by simp
    finally show "observe (x_view X) s' p = observe (x_view X) s p" .
  qed
qed simp
subsection \<open>One pass is enough\<close>

lemma writer_by_target_Some:
  assumes "distinct (map w_target ws)"
  shows "writer_by_target ws t = Some w \<longleftrightarrow> w \<in> set ws \<and> w_target w = t"
proof -
  have "map fst (rev (map (\<lambda>w. (w_target w, w)) ws)) = rev (map w_target ws)" by (simp add: rev_map)
  then have "distinct (map fst (rev (map (\<lambda>w. (w_target w, w)) ws)))" using assms by simp
  then show ?thesis by (auto simp: writer_by_target_def map_of_eq_Some_iff)
qed

lemma distinct_concat_unique:
  "distinct (concat (map f xs)) \<Longrightarrow> x \<in> set xs \<Longrightarrow> y \<in> set xs \<Longrightarrow> p \<in> set (f x) \<Longrightarrow> p \<in> set (f y) \<Longrightarrow> x = y"
  by (induction xs) auto

lemma declared_by_other:
  assumes ws: "writer_specs policy = Inr ws" and v: "v \<in> set ws" "p \<in> set (w_produces v)" and t: "t \<noteq> w_target v"
  shows "p \<notin> set (declared_produces ws t)"
proof
  assume "p \<in> set (declared_produces ws t)"
  then obtain u where u: "writer_by_target ws t = Some u" "p \<in> set (w_produces u)"
    by (cases "writer_by_target ws t") (auto simp: declared_produces_def)
  have "u \<in> set ws" "w_target u = t" using u(1) writer_by_target_Some [OF writer_specs_wf(1) [OF ws]] by auto
  then have "u = v" using distinct_concat_unique [OF writer_specs_wf(3) [OF ws]] u(2) v by blast
  with \<open>w_target u = t\<close> t show False by simp
qed

lemma tracked_paths: "ta_path ` set (tracked_artifacts ws) = (\<Union>w \<in> set ws. set (w_produces w))"
  by (auto simp: tracked_artifacts_def image_iff)

lemma dependency_ran_before:
  assumes ws: "writer_specs policy = Inr ws"
    and disjoint: "\<forall>w \<in> set ws. \<forall>p \<in> set (w_expensive_prerequisites w). p \<notin> w_target ` set ws"
    and split: "execution_targets sel ws = as @ w_target w # bs" and w: "w \<in> set ws" and d: "d \<in> set (w_depends_on w)"
  shows "d \<notin> set (w_target w # bs)"
proof
  assume bad: "d \<in> set (w_target w # bs)"
  have plan: "filter (\<lambda>t. t \<in> w_target ` set ws) (as @ w_target w # bs) = filter (\<lambda>t. t \<in> set sel) (map w_target ws)"
    using execution_writers_filter [OF writer_specs_wf(1) [OF ws] disjoint, of sel] split by simp
  have edge: "(d, w_target w) \<in> dep_edge ws" using w d by (auto simp: dep_edge_def)
  have dt: "d \<in> w_target ` set ws" using ordered_writers_known [OF writer_specs_wf(2) [OF ws] w] d by blast
  have "d \<noteq> w_target w" using plan.edge_nodes [of d "w_target w" policy] edge accepted_writers_eq [OF ws] by simp
  then have "d \<in> set bs" using bad by simp
  then have "d \<in> set (filter (\<lambda>t. t \<in> w_target ` set ws) (as @ w_target w # bs))" using dt by simp
  then have ds: "d \<in> set sel" unfolding plan by simp
  have "w_target w \<in> set (filter (\<lambda>t. t \<in> w_target ` set ws) (as @ w_target w # bs))" using w by simp
  then have wsel: "w_target w \<in> set sel" unfolding plan by simp
  obtain xs ys zs where x: "filter (\<lambda>t. t \<in> set sel) (map w_target ws) = xs @ d # ys @ w_target w # zs"
    using plan.selection_forward [of d "w_target w" policy "\<lambda>t. t \<in> set sel"] edge ds wsel
    by (auto simp: accepted_writers_eq [OF ws] all_writer_targets_def)
  have dist: "distinct (xs @ d # ys @ w_target w # zs)"
    unfolding x [symmetric] using writer_specs_wf(1) [OF ws] by (rule distinct_filter)
  let ?f = "filter (\<lambda>t. t \<in> w_target ` set ws)"
  have eq: "?f as @ w_target w # ?f bs = (xs @ d # ys) @ w_target w # zs" using plan x w by simp
  have "distinct (?f as @ w_target w # ?f bs)" unfolding eq using dist by simp
  then have "w_target w \<notin> set (?f as)" "w_target w \<notin> set (?f bs)" by auto
  then have "?f as = xs @ d # ys \<and> ?f bs = zs" using eq append_Cons_eq_iff [of "w_target w" "?f as" "?f bs"] by blast
  then have "d \<in> set as" by (metis Un_iff filter_is_subset in_set_conv_decomp subsetD)
  moreover have "distinct (as @ w_target w # bs)" by (simp flip: split add: execution_targets_run distinct_dedupe_from)
  ultimately show False using \<open>d \<in> set bs\<close> by auto
qed
text \<open>What a pass leaves alone: the outputs of the writers it did not run.\<close>

lemma pass_keeps_other_outputs:
  assumes ws: "writer_specs policy = Inr ws"
    and ctx: "x_writers X = ws" "x_tracked_artifacts X = tracked_artifacts ws"
    and run: "run_execution X ts s = (Inr (rs, False), s')"
    and v: "v \<in> set ws" "p \<in> set (w_produces v)" and out: "w_target v \<notin> set ts"
  shows "observe (x_view X) s' p = observe (x_view X) s p"
proof -
  have "\<forall>t \<in> set ts. p \<notin> set (declared_produces (x_writers X) t)"
    using declared_by_other [OF ws v] out unfolding ctx by metis
  moreover have "p \<in> ta_path ` set (x_tracked_artifacts X)" using v by (auto simp: ctx tracked_paths)
  ultimately show ?thesis using run_execution_pass [OF run] by blast
qed

text \<open>
  C27: one pass in dependency order is a fixed point. When the run of the execution plan of an accepted
  policy ends without a failure, every planned target ran exactly once, in order, and passed, and no
  output of a writer that is not in the plan has changed. The plan holds the selected writers and
  their expensive prerequisites. The rest is for a policy none of whose expensive prerequisites is
  itself a writer, which the shipped policy satisfies and the loader does not check: then no tracked
  artifact outside the outputs of the selected writers has changed; and for every writer that ran,
  each output of the writers it depends on was, when its command started, exactly what it is at the
  end of the pass, so that running the writer again would see the same inputs.
\<close>

theorem single_pass_fixed_point:
  assumes ws: "writer_specs policy = Inr ws"
    and ctx: "x_writers X = ws" "x_tracked_artifacts X = tracked_artifacts ws"
    and run: "run_execution X (execution_targets sel ws) s = (Inr (rs, False), s')"
  shows "map cr_target rs = execution_targets sel ws \<and> distinct (map cr_target rs) \<and>
    (\<forall>r \<in> set rs. cr_status r = ''pass'') \<and>
    (\<forall>v \<in> set ws. \<forall>p \<in> set (w_produces v). w_target v \<notin> set (execution_targets sel ws) \<longrightarrow>
       observe (x_view X) s' p = observe (x_view X) s p) \<and>
    ((\<forall>w \<in> set ws. \<forall>p \<in> set (w_expensive_prerequisites w). p \<notin> w_target ` set ws) \<longrightarrow>
      (\<forall>v \<in> set ws. \<forall>p \<in> set (w_produces v). w_target v \<notin> set sel \<longrightarrow>
         observe (x_view X) s' p = observe (x_view X) s p) \<and>
      (\<forall>w as bs. w \<in> set ws \<and> execution_targets sel ws = as @ w_target w # bs \<longrightarrow>
         (\<exists>rs1 s1. run_execution X as s = (Inr (rs1, False), s1) \<and>
            (\<forall>v \<in> set ws. w_target v \<in> set (w_depends_on w) \<longrightarrow>
               (\<forall>p \<in> set (w_produces v). observe (x_view X) s1 p = observe (x_view X) s' p)))))"
proof (intro conjI ballI allI impI)
  note all = run_execution_pass [OF run] and keeps = pass_keeps_other_outputs [OF ws ctx]
  show names: "map cr_target rs = execution_targets sel ws" using all by blast
  show "distinct (map cr_target rs)" unfolding names by (simp add: execution_targets_run distinct_dedupe_from)
  show "cr_status r = ''pass''" if "r \<in> set rs" for r using all that by blast
  show "observe (x_view X) s' p = observe (x_view X) s p"
    if "v \<in> set ws" "p \<in> set (w_produces v)" "w_target v \<notin> set (execution_targets sel ws)" for v p
    by (rule keeps [OF run that])
  assume disjoint: "\<forall>w \<in> set ws. \<forall>p \<in> set (w_expensive_prerequisites w). p \<notin> w_target ` set ws"
  show "observe (x_view X) s' p = observe (x_view X) s p"
    if v: "v \<in> set ws" and p: "p \<in> set (w_produces v)" and out: "w_target v \<notin> set sel" for v p
  proof (rule keeps [OF run v p], rule notI)
    assume "w_target v \<in> set (execution_targets sel ws)"
    then have "w_target v \<in> set (filter (\<lambda>t. t \<in> w_target ` set ws) (execution_targets sel ws))" using v by simp
    then show False using out unfolding execution_writers_filter [OF writer_specs_wf(1) [OF ws] disjoint] by simp
  qed
  fix w as bs
  assume w: "w \<in> set ws \<and> execution_targets sel ws = as @ w_target w # bs"
  then have "run_execution X (as @ w_target w # bs) s = (Inr (rs, False), s')" using run by simp
  then obtain rs1 rs2 s1 where 1: "run_execution X as s = (Inr (rs1, False), s1)"
    and 2: "run_execution X (w_target w # bs) s1 = (Inr (rs2, False), s')"
    unfolding run_execution_append by blast
  have "observe (x_view X) s1 p = observe (x_view X) s' p"
    if v: "v \<in> set ws" and dep: "w_target v \<in> set (w_depends_on w)" and p: "p \<in> set (w_produces v)" for v p
  proof -
    have "w_target v \<notin> set (w_target w # bs)" using dependency_ran_before [OF ws disjoint] w dep by blast
    from keeps [OF 2 v p this] show ?thesis by simp
  qed
  with 1 show "\<exists>rs1 s1. run_execution X as s = (Inr (rs1, False), s1) \<and>
      (\<forall>v \<in> set ws. w_target v \<in> set (w_depends_on w) \<longrightarrow>
         (\<forall>p \<in> set (w_produces v). observe (x_view X) s1 p = observe (x_view X) s' p))" by blast
qed

text \<open>A tree whose files carry the number of commands run so far; every writer writes its outputs.\<close>

definition sample_context :: "(string \<rightharpoonup> int) execution_context" where
  "sample_context = \<lparr>x_vault = ''v'', x_python_executable = ''py'', x_make_variables = [], x_timeout_seconds = 600,
     x_command_runner = (\<lambda>command timeout s. ([(''status'', PyStr ''pass''), (''returncode'', PyInt 0)],
        if command ! 1 = ''slow'' then s else s((command ! 1 @ ''.json'') \<mapsto> 1))),
     x_sanitize = (\<lambda>t. t), x_writers = sample_writers, x_tracked_artifacts = tracked_artifacts sample_writers,
     x_view = \<lparr>tv_stat = (\<lambda>p s. map_option (\<lambda>n. (''d'', 0, 0, n)) (s p)), tv_binding = (\<lambda>_ _ _. '''')\<rparr>\<rparr>"

theorem single_pass_fixed_point_witness:
  "\<exists>rs s'. run_execution sample_context [''slow'', ''b'', ''d''] Map.empty = (Inr (rs, False), s') \<and>
     map cr_target rs = [''slow'', ''b'', ''d''] \<and>
     observe (x_view sample_context) s' ''c.json'' = observe (x_view sample_context) Map.empty ''c.json'' \<and>
     (\<exists>rs1 s1. run_execution sample_context [''slow'', ''b''] Map.empty = (Inr (rs1, False), s1) \<and>
        observe (x_view sample_context) s1 ''b.json'' = observe (x_view sample_context) s' ''b.json'')"
proof -
  have ws: "writer_specs sample_policy = Inr sample_writers" by code_simp
  have plan: "execution_targets [''b'', ''d''] sample_writers = [''slow'', ''b'', ''d'']" by code_simp
  have disjoint: "\<forall>w \<in> set sample_writers. \<forall>p \<in> set (w_expensive_prerequisites w). p \<notin> w_target ` set sample_writers"
    by code_simp
  have ctx: "x_writers sample_context = sample_writers"
      "x_tracked_artifacts sample_context = tracked_artifacts sample_writers" by (simp_all add: sample_context_def)
  let ?b = "sample_spec ''b'' [''a''] [''slow'']" and ?c = "sample_spec ''c'' [] []"
    and ?d = "sample_spec ''d'' [''b''] [''slow'']"
  have b: "?b \<in> set sample_writers" and c: "?c \<in> set sample_writers" and d: "?d \<in> set sample_writers"
    by (simp_all add: sample_writers_def)
  have "case fst (run_execution sample_context [''slow'', ''b'', ''d''] Map.empty) of Inr (rs, f) \<Rightarrow> \<not> f | Inl _ \<Rightarrow> False"
    by code_simp
  then obtain rs s' where run: "run_execution sample_context [''slow'', ''b'', ''d''] Map.empty = (Inr (rs, False), s')"
    by (cases "run_execution sample_context [''slow'', ''b'', ''d''] Map.empty") (auto split: sum.splits prod.splits)
  note pass = single_pass_fixed_point [OF ws ctx run [folded plan], unfolded plan]
  then have names: "map cr_target rs = [''slow'', ''b'', ''d'']" by (elim conjE)
  note rest = mp [OF conjunct2 [OF conjunct2 [OF conjunct2 [OF conjunct2 [OF pass]]]] disjoint]
  have "observe (x_view sample_context) s' ''c.json'' = observe (x_view sample_context) Map.empty ''c.json''"
    by (rule conjunct1 [OF rest, rule_format, OF c]) (simp_all add: sample_spec_def)
  moreover have "\<exists>rs1 s1. run_execution sample_context [''slow'', ''b''] Map.empty = (Inr (rs1, False), s1) \<and>
      (\<forall>v \<in> set sample_writers. w_target v \<in> set (w_depends_on ?d) \<longrightarrow>
         (\<forall>p \<in> set (w_produces v). observe (x_view sample_context) s1 p = observe (x_view sample_context) s' p))"
    by (rule conjunct2 [OF rest, rule_format, of ?d _ "[]"]) (simp add: d, simp add: sample_spec_def)
  then obtain rs1 s1 where first: "run_execution sample_context [''slow'', ''b''] Map.empty = (Inr (rs1, False), s1)"
    and kept: "\<forall>v \<in> set sample_writers. w_target v \<in> set (w_depends_on ?d) \<longrightarrow>
         (\<forall>p \<in> set (w_produces v). observe (x_view sample_context) s1 p = observe (x_view sample_context) s' p)" by blast
  have "observe (x_view sample_context) s1 ''b.json'' = observe (x_view sample_context) s' ''b.json''"
    by (rule kept [rule_format, OF b]) (simp_all add: sample_spec_def)
  ultimately show ?thesis
    using run names first by (intro exI [of _ rs] exI [of _ s'] exI [of _ rs1] exI [of _ s1] conjI)
qed

text \<open>
  The condition on the prerequisites is needed. The loader accepts a policy in which the prerequisite of
  the writer \<open>b\<close> is the writer \<open>a\<close>; a run for \<open>b\<close> alone then reruns \<open>a\<close> and passes, and a
  tracked artifact outside the selection has changed.
\<close>

definition overlapping_policy :: pydict where
  "overlapping_policy = [(''writers'', PyList [sample_writer ''a'' [] [], sample_writer ''b'' [] [''a'']])]"

definition overlapping_writers :: "writer_spec list" where
  "overlapping_writers = [sample_spec ''a'' [] [], sample_spec ''b'' [] [''a'']]"

definition overlapping_context :: "(string \<rightharpoonup> int) execution_context" where
  "overlapping_context = sample_context
     \<lparr>x_writers := overlapping_writers, x_tracked_artifacts := tracked_artifacts overlapping_writers\<rparr>"

theorem prerequisite_writer_escapes_selection:
  "writer_specs overlapping_policy = Inr overlapping_writers \<and>
   validated_initial_targets overlapping_writers (Some [''b'']) = Inr [''b''] \<and>
   (\<exists>st s'. fixed_point_execution_state overlapping_context [''b''] Map.empty = (Inr st, s') \<and>
      es_status st = ''pass'' \<and> es_selected_targets st = [''b''] \<and>
      observe (x_view overlapping_context) s' ''a.json'' \<noteq>
        observe (x_view overlapping_context) Map.empty ''a.json'')"
proof -
  have "case fixed_point_execution_state overlapping_context [''b''] Map.empty of
      (Inr st, s') \<Rightarrow> es_status st = ''pass'' \<and> es_selected_targets st = [''b''] \<and>
        observe (x_view overlapping_context) s' ''a.json'' \<noteq>
          observe (x_view overlapping_context) Map.empty ''a.json''
    | (Inl _, _) \<Rightarrow> False" by code_simp
  then have "\<exists>st s'. fixed_point_execution_state overlapping_context [''b''] Map.empty = (Inr st, s') \<and>
      es_status st = ''pass'' \<and> es_selected_targets st = [''b''] \<and>
      observe (x_view overlapping_context) s' ''a.json'' \<noteq>
        observe (x_view overlapping_context) Map.empty ''a.json''"
    by (cases "fixed_point_execution_state overlapping_context [''b''] Map.empty") (auto split: sum.splits)
  moreover have "writer_specs overlapping_policy = Inr overlapping_writers"
    and "validated_initial_targets overlapping_writers (Some [''b'']) = Inr [''b'']" by code_simp+
  ultimately show ?thesis by blast
qed

subsection \<open>Durations\<close>

text \<open>
  \<open>round(total / count)\<close>: the quotient rounded half to even. Exact for the durations at hand: the
  float quotient of integers below two to the fiftieth has the same rounding.
\<close>

definition round_div :: "int \<Rightarrow> int \<Rightarrow> int" where
  "round_div n d =
     (let q = n div d; r = n mod d
      in if 2 * r < d then q else if 2 * r > d then q + 1 else if even q then q else q + 1)"

record writer_cost =
  wc_name :: string
  wc_target :: string
  wc_produces :: "string list"
  wc_run_count :: nat
  wc_selected :: bool
  wc_total_duration_ms :: int
  wc_average_duration_ms :: int
  wc_max_duration_ms :: int

definition durations_of :: "command_result list \<Rightarrow> string \<Rightarrow> int list" where
  "durations_of results target = map cr_duration_ms (filter (\<lambda>r. cr_target r = target) results)"

definition writer_cost_of :: "command_result list \<Rightarrow> string list \<Rightarrow> writer_spec \<Rightarrow> writer_cost" where
  "writer_cost_of results selected w =
     (let durations = durations_of results (w_target w); total = sum_list durations
      in \<lparr>wc_name = w_name w, wc_target = w_target w, wc_produces = w_produces w, wc_run_count = length durations,
          wc_selected = (w_target w \<in> set (filter (\<lambda>t. py_strip t \<noteq> []) selected)), wc_total_duration_ms = total,
          wc_average_duration_ms = (if durations = [] then 0 else round_div total (int (length durations))),
          wc_max_duration_ms = (case durations of [] \<Rightarrow> 0 | d # ds \<Rightarrow> fold max ds d)\<rparr>)"

record duration_summary =
  ds_execution_pass_count :: nat
  ds_command_run_count :: nat
  ds_total_duration_ms :: int
  ds_writer_costs :: "writer_cost list"
  ds_expensive_targets :: "string list"
  ds_observed_target_count :: nat
  ds_expensive_run_count :: nat
  ds_expensive_duration_ms :: int
  ds_summary :: string

definition duration_summary_of :: "writer_spec list \<Rightarrow> execution_state \<Rightarrow> duration_summary" where
  "duration_summary_of writers execution =
     (let results = es_command_results execution;
          costs = map (writer_cost_of results (es_selected_targets execution)) writers;
          expensive = dedupe_from {} (concat (map w_expensive_prerequisites writers));
          expensive_runs = filter (\<lambda>r. cr_target r \<in> set expensive) results;
          total = sum_list (map cr_duration_ms results)
      in \<lparr>ds_execution_pass_count = 1, ds_command_run_count = length results, ds_total_duration_ms = total,
          ds_writer_costs = costs, ds_expensive_targets = expensive,
          ds_observed_target_count = length (remdups (map cr_target expensive_runs)),
          ds_expensive_run_count = length expensive_runs,
          ds_expensive_duration_ms = sum_list (map cr_duration_ms expensive_runs),
          ds_summary = nat_text (length costs) @ '' writers ran '' @ nat_text (length results) @
            '' commands in one execution pass; total_duration_ms='' @ int_text total\<rparr>)"

lemma round_div_le: "0 < d \<Longrightarrow> n \<le> m * d \<Longrightarrow> round_div n d \<le> m"
proof -
  assume d: "0 < d" and n: "n \<le> m * d"
  have eq: "n = n div d * d + n mod d" and r: "0 \<le> n mod d" using d by simp_all
  show ?thesis
  proof (cases "n mod d = 0")
    case True
    then have "n div d * d \<le> m * d" using eq n by simp
    then show ?thesis using d True by (simp add: round_div_def Let_def)
  next
    case False
    then have "n div d * d < m * d" using eq n r by linarith
    then have "n div d < m" using d by simp
    then show ?thesis by (simp add: round_div_def Let_def)
  qed
qed

lemma round_div_nonneg: "0 < d \<Longrightarrow> 0 \<le> n \<Longrightarrow> 0 \<le> round_div n d"
  by (simp add: round_div_def Let_def pos_imp_zdiv_nonneg_iff add_nonneg_nonneg)

lemma fold_max_ge: "(d :: int) \<le> fold max ds d \<and> (\<forall>x \<in> set ds. x \<le> fold max ds d)"
proof (induction ds arbitrary: d)
  case (Cons a ds)
  show ?case using Cons.IH [of "max a d"] by simp
qed simp

lemma fold_max_in: "fold max ds (d :: int) \<in> insert d (set ds)"
proof (induction ds arbitrary: d)
  case (Cons a ds)
  show ?case using Cons [of "max a d"] by (auto simp: max_def split: if_splits)
qed simp

lemma sum_le_max: "(\<forall>x \<in> set ds. x \<le> m) \<Longrightarrow> sum_list ds \<le> m * int (length ds)"
  by (induction ds) (auto simp: algebra_simps)

lemma sum_list_point: "distinct ts \<Longrightarrow> (\<Sum>t\<leftarrow>ts. if t = k then x else (0 :: int)) = (if k \<in> set ts then x else 0)"
  by (induction ts) auto

lemma sum_targets:
  assumes "distinct ts" and "\<forall>r \<in> set rs. 0 \<le> cr_duration_ms r"
  shows "(\<Sum>t\<leftarrow>ts. sum_list (durations_of rs t)) \<le> sum_list (map cr_duration_ms rs)"
  using assms(2)
proof (induction rs)
  case (Cons r rs)
  have "(\<Sum>t\<leftarrow>ts. sum_list (durations_of (r # rs) t)) =
      (\<Sum>t\<leftarrow>ts. if t = cr_target r then cr_duration_ms r else 0) + (\<Sum>t\<leftarrow>ts. sum_list (durations_of rs t))"
    by (induction ts) (auto simp: durations_of_def)
  moreover have "(\<Sum>t\<leftarrow>ts. if t = cr_target r then cr_duration_ms r else 0) \<le> cr_duration_ms r"
    using Cons.prems by (simp add: sum_list_point [OF assms(1)])
  ultimately show ?case using Cons by simp
qed (simp add: durations_of_def)
text \<open>
  The durations of a run are consistent. With no negative duration in the results, every writer's
  average lies between zero and its maximum and its maximum below its total; the totals of all writers
  together (targets are distinct) do not exceed the duration of the run.
\<close>

theorem durations_bounded:
  assumes ws: "writer_specs policy = Inr ws"
    and nonneg: "\<forall>r \<in> set (es_command_results e). 0 \<le> cr_duration_ms r"
  shows "(\<forall>c \<in> set (ds_writer_costs (duration_summary_of ws e)).
      0 \<le> wc_average_duration_ms c \<and> wc_average_duration_ms c \<le> wc_max_duration_ms c \<and>
      wc_max_duration_ms c \<le> wc_total_duration_ms c) \<and>
    (\<Sum>c\<leftarrow>ds_writer_costs (duration_summary_of ws e). wc_total_duration_ms c) \<le>
      ds_total_duration_ms (duration_summary_of ws e)"
proof (intro conjI ballI)
  let ?rs = "es_command_results e" and ?sel = "es_selected_targets e"
  have costs: "ds_writer_costs (duration_summary_of ws e) = map (writer_cost_of ?rs ?sel) ws"
    "ds_total_duration_ms (duration_summary_of ws e) = sum_list (map cr_duration_ms ?rs)"
    by (simp_all add: duration_summary_of_def Let_def)
  fix c
  assume "c \<in> set (ds_writer_costs (duration_summary_of ws e))"
  then obtain w where c: "c = writer_cost_of ?rs ?sel w" using costs by auto
  let ?ds = "durations_of ?rs (w_target w)"
  have pos: "\<forall>x \<in> set ?ds. 0 \<le> x" using nonneg by (auto simp: durations_of_def)
  show "0 \<le> wc_average_duration_ms c"
    using pos by (auto simp: c writer_cost_of_def Let_def intro!: round_div_nonneg sum_list_nonneg)
  show "wc_average_duration_ms c \<le> wc_max_duration_ms c"
  proof (cases ?ds)
    case (Cons d ds)
    have "\<forall>x \<in> set ?ds. x \<le> fold max ds d" using fold_max_ge [of d ds] Cons by simp
    then have "sum_list ?ds \<le> fold max ds d * int (length ?ds)" by (rule sum_le_max)
    then show ?thesis using Cons by (simp add: c writer_cost_of_def Let_def round_div_le)
  qed (simp add: c writer_cost_of_def Let_def)
  show "wc_max_duration_ms c \<le> wc_total_duration_ms c"
  proof (cases ?ds)
    case (Cons d ds)
    have "fold max ds d \<in> set ?ds" using fold_max_in [of ds d] Cons by auto
    then have "fold max ds d \<le> sum_list ?ds" using pos by (simp add: member_le_sum_list)
    then show ?thesis using Cons by (simp add: c writer_cost_of_def Let_def)
  qed (simp add: c writer_cost_of_def Let_def)
next
  have "(\<Sum>t\<leftarrow>map w_target ws. sum_list (durations_of (es_command_results e) t)) \<le>
      sum_list (map cr_duration_ms (es_command_results e))"
    using sum_targets [OF writer_specs_wf(1) [OF ws] nonneg] .
  then show "(\<Sum>c\<leftarrow>ds_writer_costs (duration_summary_of ws e). wc_total_duration_ms c) \<le>
      ds_total_duration_ms (duration_summary_of ws e)"
    by (simp add: duration_summary_of_def writer_cost_of_def Let_def comp_def)
qed

definition sample_result :: "string \<Rightarrow> int \<Rightarrow> command_result" where
  "sample_result t ms = \<lparr>cr_target = t, cr_command = [], cr_returncode = 0, cr_timed_out = False, cr_timeout_seconds = 600,
     cr_termination_reason = '''', cr_duration_ms = ms, cr_stdout_tail = '''', cr_stderr_tail = '''', cr_status = ''pass'',
     cr_tracked_paths_changed = [], cr_undeclared_tracked_writes = [], cr_issues = []\<rparr>"

definition sample_execution :: execution_state where
  "sample_execution = \<lparr>es_status = ''pass'', es_reason = ''single_topological_pass_completed'', es_selected_targets = [''a'', ''b''],
     es_command_results = [sample_result ''a'' 5, sample_result ''slow'' 40, sample_result ''b'' 7], es_raw_digest_map = [],
     es_raw_changed_paths = [], es_binding_digest_map = [], es_binding_mode_map = [], es_binding_changed_paths = []\<rparr>"

theorem durations_bounded_witness:
  "(\<Sum>c\<leftarrow>ds_writer_costs (duration_summary_of sample_writers sample_execution). wc_total_duration_ms c) \<le> 52"
proof -
  have ws: "writer_specs sample_policy = Inr sample_writers" by code_simp
  have "\<forall>r \<in> set (es_command_results sample_execution). 0 \<le> cr_duration_ms r"
    by (simp add: sample_execution_def sample_result_def)
  moreover have "ds_total_duration_ms (duration_summary_of sample_writers sample_execution) = 52" by code_simp
  ultimately show ?thesis using durations_bounded [OF ws, of sample_execution] by auto
qed

subsection \<open>The authority of an earlier report\<close>

definition normalized_string_map :: "pyval \<Rightarrow> (string \<times> string) list" where
  "normalized_string_map v =
     (case v of
        PyDict d \<Rightarrow> List.map_filter (\<lambda>(k, x). case x of PyStr s \<Rightarrow> Some (k, s) | _ \<Rightarrow> None) d
      | _ \<Rightarrow> [])"

definition valid_digest :: "string \<Rightarrow> bool" where
  "valid_digest s \<longleftrightarrow> s = ''missing'' \<or> length s = 64 \<and> list_all (\<lambda>c. c \<in> set ''0123456789abcdef'') s"

definition valid_digest_map :: "(string \<times> string) list \<Rightarrow> bool" where
  "valid_digest_map m = list_all (\<lambda>(_, d). valid_digest d) m"

text \<open>Equality of two dictionaries, whose keys are distinct.\<close>

definition same_dict :: "(string \<times> string) list \<Rightarrow> (string \<times> string) list \<Rightarrow> bool" where
  "same_dict m n = (set m = set n)"

record authority =
  au_load_status :: string
  au_status :: string
  au_digest_count :: nat
  au_summary :: string
  au_raw :: "(string \<times> string) list"
  au_binding :: "(string \<times> string) list"
  au_modes :: "(string \<times> string) list"

definition authority_unavailable :: "string \<Rightarrow> string \<Rightarrow> string \<Rightarrow> authority" where
  "authority_unavailable load_status status summary = \<lparr>au_load_status = load_status, au_status = status,
     au_digest_count = 0, au_summary = summary, au_raw = [], au_binding = [], au_modes = []\<rparr>"

text \<open>\<open>str(x).strip() or fallback\<close>.\<close>

definition strip_or :: "pyval \<Rightarrow> string \<Rightarrow> string" where
  "strip_or v fallback = (let t = str_strip v in if t = [] then fallback else t)"

definition execution_is_consistent ::
  "pyval \<Rightarrow> (string \<times> string) list \<Rightarrow> (string \<times> string) list \<Rightarrow> (string \<times> string) list \<Rightarrow> bool" where
  "execution_is_consistent execution raw binding modes =
     (case execution of
        PyDict x \<Rightarrow> dget x ''status'' PyNone = PyStr ''pass'' \<and>
          same_dict (normalized_string_map (dget x ''raw_digest_map'' PyNone)) raw \<and>
          same_dict (normalized_string_map (dget x ''binding_digest_map'' PyNone)) binding \<and>
          same_dict (normalized_string_map (dget x ''binding_mode_map'' PyNone)) modes
      | _ \<Rightarrow> False)"

text \<open>A report of the current producer that passed, is current, and made one pass.\<close>

definition report_is_current :: "pydict \<Rightarrow> string \<Rightarrow> bool" where
  "report_is_current payload report_status \<longleftrightarrow>
     dget payload ''artifact_kind'' PyNone = PyStr ''release_closeout_fixed_point_report'' \<and>
     dget payload ''producer'' PyNone = PyStr ''ops.scripts.release_closeout_fixed_point'' \<and>
     report_status = ''pass'' \<and> dget payload ''artifact_status'' PyNone = PyStr ''current'' \<and>
     (case dget payload ''currentness'' PyNone of
        PyDict c \<Rightarrow> str_strip (dget c ''status'' (PyStr '''')) = ''current'' | _ \<Rightarrow> False) \<and>
     py_eq_int (dget payload ''execution_pass_count'' PyNone) 1"

definition authority_maps_valid ::
  "writer_spec list \<Rightarrow> (string \<times> string) list \<Rightarrow> (string \<times> string) list \<Rightarrow> (string \<times> string) list \<Rightarrow> pyval \<Rightarrow> bool" where
  "authority_maps_valid writers raw binding modes execution \<longleftrightarrow>
     (let arts = tracked_artifacts writers
      in set (map fst raw) = set (map ta_path arts) \<and> set (map fst binding) = set (map ta_path arts) \<and>
         same_dict modes (dict_of (map (\<lambda>a. (ta_path a, ta_binding_mode a)) arts)) \<and>
         valid_digest_map raw \<and> valid_digest_map binding \<and> execution_is_consistent execution raw binding modes)"

text \<open>The arguments are what \<open>load_optional_json_object_with_diagnostics\<close> returns: payload and status.\<close>

definition load_fixed_point_authority :: "writer_spec list \<Rightarrow> pydict \<Rightarrow> string \<Rightarrow> authority" where
  "load_fixed_point_authority writers payload load_status =
     (let report_status = strip_or (dget payload ''status'' (PyStr ''unknown'')) ''unknown'';
          raw = normalized_string_map (dget payload ''raw_digest_map'' PyNone);
          binding = normalized_string_map (dget payload ''binding_digest_map'' PyNone);
          modes = normalized_string_map (dget payload ''binding_mode_map'' PyNone)
      in if load_status \<noteq> ''ok''
         then authority_unavailable load_status ''missing''
                ''fixed-point report is unavailable; run release-closeout-fixed-point''
         else if \<not> py_eq_int (dget payload ''schema_version'' PyNone) 2
         then authority_unavailable ''unsupported_schema_version'' ''not_authoritative''
                ''only schema_version=2 fixed-point reports are current authority''
         else if \<not> report_is_current payload report_status
         then authority_unavailable ''not_current_authority'' report_status
                ''schema_version=2 fixed-point report is not current pass authority''
         else if \<not> authority_maps_valid writers raw binding modes (dget payload ''execution'' PyNone)
         then authority_unavailable ''invalid_v2_authority'' report_status
                ''schema_version=2 fixed-point digest or binding-mode maps are invalid''
         else \<lparr>au_load_status = ''ok'', au_status = report_status, au_digest_count = length raw,
                au_summary = ''fixed-point v2 status='' @ report_status @ ''; digest_count='' @ nat_text (length raw),
                au_raw = raw, au_binding = binding, au_modes = modes\<rparr>)"

subsection \<open>The dry run\<close>

record freshness_summary =
  fs_load_status :: string
  fs_status :: string

fun freshness_records_of :: "pyval list \<Rightarrow> (string \<times> pydict) list \<Rightarrow> (string \<times> pydict) list" where
  "freshness_records_of [] records = records"
| "freshness_records_of (item # items) records =
     freshness_records_of items
       (case item of
          PyDict d \<Rightarrow> (let path = str_strip (dget d ''path'' (PyStr ''''))
                       in if path \<noteq> [] then dset path d records else records)
        | _ \<Rightarrow> records)"

definition artifact_freshness_records :: "pydict \<Rightarrow> string \<Rightarrow> (string \<times> pydict) list \<times> freshness_summary" where
  "artifact_freshness_records payload status =
     (if status \<noteq> ''ok'' then ([], \<lparr>fs_load_status = status, fs_status = ''missing''\<rparr>)
      else (case dget payload ''artifact_records'' PyNone of PyList items \<Rightarrow> freshness_records_of items [] | _ \<Rightarrow> [],
            \<lparr>fs_load_status = ''ok'', fs_status = strip_or (dget payload ''status'' (PyStr ''unknown'')) ''unknown''\<rparr>))"

definition source_tree_status :: "string \<Rightarrow> string \<Rightarrow> string \<Rightarrow> string" where
  "source_tree_status load_status fingerprint current =
     (if load_status \<noteq> ''ok'' then load_status
      else if fingerprint = [] then ''missing''
      else if fingerprint = current then ''current'' else ''stale'')"

definition freshness_signal :: "pydict \<Rightarrow> string \<times> string list" where
  "freshness_signal record =
     (str_strip (dget record ''schema_validation_status'' (PyStr '''')),
      case dget record ''issues'' PyNone of PyList xs \<Rightarrow> map py_str xs | _ \<Rightarrow> [])"

record tracked_record =
  tr_name :: string
  tr_path :: string
  tr_producer_target :: string
  tr_load_status :: string
  tr_binding_mode :: string
  tr_baseline_raw_digest :: string
  tr_current_raw_digest :: string
  tr_raw_digest_status :: string
  tr_baseline_binding_digest :: string
  tr_current_binding_digest :: string
  tr_binding_digest_status :: string
  tr_source_tree_fingerprint :: string
  tr_source_tree_status :: string
  tr_schema_validation_status :: string
  tr_freshness_status :: string
  tr_issues :: "string list"
  tr_refresh_needed :: bool

definition text_or :: "string \<Rightarrow> string option \<Rightarrow> string" where
  "text_or fallback v = (case v of None \<Rightarrow> fallback | Some t \<Rightarrow> t)"

definition binding_digest_status :: "string option \<Rightarrow> string \<Rightarrow> string \<Rightarrow> string \<Rightarrow> string" where
  "binding_digest_status baseline_mode declared baseline current =
     (if baseline_mode \<noteq> Some declared \<or> baseline = ''unknown'' \<or> current = ''unknown'' then ''unknown''
      else if baseline = current then ''current'' else ''changed'')"

text \<open>
  What the dry run reads: the JSON payload and load status of a tracked path, the digests of the
  tree as it is, the freshness records and the fingerprint of the source tree.
\<close>

record dry_inputs =
  di_payload :: "string \<Rightarrow> pydict \<times> string"
  di_raw :: "(string \<times> string) list"
  di_binding :: "(string \<times> string) list"
  di_freshness :: "(string \<times> pydict) list"
  di_fingerprint :: string

definition dry_run_tracked_artifact_record ::
  "writer_spec list \<Rightarrow> authority \<Rightarrow> dry_inputs \<Rightarrow> tracked_artifact \<Rightarrow> tracked_record" where
  "dry_run_tracked_artifact_record writers au di item =
     (let path = ta_path item;
          payload = fst (di_payload di path); load_status = snd (di_payload di path);
          fingerprint = str_strip (dget payload ''source_tree_fingerprint'' (PyStr ''''));
          tree_status = source_tree_status load_status fingerprint (di_fingerprint di);
          baseline_raw = text_or ''missing'' (map_of (au_raw au) path);
          current_raw = text_or ''missing'' (map_of (di_raw di) path);
          raw_status = (if baseline_raw = current_raw then ''current'' else ''changed'');
          baseline_binding = text_or ''unknown'' (map_of (au_binding au) path);
          current_binding = text_or ''unknown'' (map_of (di_binding di) path);
          binding_status = binding_digest_status (map_of (au_modes au) path) (ta_binding_mode item)
            baseline_binding current_binding;
          (schema_status, issues) = freshness_signal (case map_of (di_freshness di) path of None \<Rightarrow> [] | Some r \<Rightarrow> r);
          freshness_status = (if issues \<noteq> [] \<or> schema_status = ''fail'' then ''attention'' else ''pass'');
          digest_refresh = (binding_status = ''changed'' \<or> binding_status = ''unknown'' \<and> raw_status \<noteq> ''current'')
      in \<lparr>tr_name = ta_name item, tr_path = path,
          tr_producer_target = text_or '''' (map_of (producer_by_path writers) path),
          tr_load_status = load_status, tr_binding_mode = ta_binding_mode item,
          tr_baseline_raw_digest = baseline_raw, tr_current_raw_digest = current_raw,
          tr_raw_digest_status = raw_status, tr_baseline_binding_digest = baseline_binding,
          tr_current_binding_digest = current_binding, tr_binding_digest_status = binding_status,
          tr_source_tree_fingerprint = fingerprint, tr_source_tree_status = tree_status,
          tr_schema_validation_status = (if schema_status = [] then ''unknown'' else schema_status),
          tr_freshness_status = freshness_status, tr_issues = issues,
          tr_refresh_needed = (load_status \<noteq> ''ok'' \<or> digest_refresh \<or> tree_status \<noteq> ''current'' \<or>
            freshness_status \<noteq> ''pass'')\<rparr>)"

definition affected_paths_of :: "tracked_record list \<Rightarrow> string list" where
  "affected_paths_of records = dedupe_from {} (map tr_path (filter tr_refresh_needed records))"

definition dry_run_recommended_targets :: "writer_spec list \<Rightarrow> authority \<Rightarrow> string list \<Rightarrow> string list" where
  "dry_run_recommended_targets writers au affected =
     (if au_load_status au \<noteq> ''ok'' then all_writer_targets writers
      else targets_for_affected_paths affected writers)"

definition record_gap_reasons :: "tracked_record \<Rightarrow> string list" where
  "record_gap_reasons r =
     (if tr_load_status r \<noteq> ''ok'' then [tr_path r @ '':artifact_unavailable''] else []) @
     (if tr_baseline_raw_digest r = ''missing'' then [tr_path r @ '':baseline_raw_digest_missing''] else []) @
     (if tr_current_raw_digest r = ''missing'' then [tr_path r @ '':current_raw_digest_missing''] else []) @
     (if tr_source_tree_status r \<in> {''missing'', ''unreadable''}
      then [tr_path r @ '':source_tree_fingerprint_'' @ tr_source_tree_status r] else [])"

definition dry_run_evidence_gap_reasons :: "authority \<Rightarrow> freshness_summary \<Rightarrow> tracked_record list \<Rightarrow> string list" where
  "dry_run_evidence_gap_reasons au fresh records = dedupe_from {}
     ((if au_load_status au \<noteq> ''ok'' then [''fixed_point_report_unavailable''] else []) @
      (if au_digest_count au = 0 then [''fixed_point_digest_map_empty''] else []) @
      (if fs_load_status fresh \<noteq> ''ok'' then [''artifact_freshness_report_unavailable''] else []) @
      concat (map record_gap_reasons records))"

definition record_drift_reasons :: "tracked_record \<Rightarrow> string list" where
  "record_drift_reasons r =
     (if tr_raw_digest_status r = ''changed'' \<and> tr_baseline_raw_digest r \<noteq> ''missing'' \<and>
         tr_current_raw_digest r \<noteq> ''missing'' then [tr_path r @ '':raw_digest_changed''] else []) @
     (if tr_binding_digest_status r = ''changed'' then [tr_path r @ '':binding_digest_changed''] else []) @
     (if tr_source_tree_status r = ''stale'' then [tr_path r @ '':source_tree_stale''] else []) @
     (if tr_freshness_status r = ''attention'' then [tr_path r @ '':artifact_freshness_attention''] else [])"

definition dry_run_drift_reasons :: "tracked_record list \<Rightarrow> string list" where
  "dry_run_drift_reasons records = dedupe_from {} (concat (map record_drift_reasons records))"

definition dry_run_diagnostic_status :: "string list \<Rightarrow> string list \<Rightarrow> bool \<Rightarrow> string" where
  "dry_run_diagnostic_status gaps drifts refresh_required =
     (if gaps \<noteq> [] \<and> drifts \<noteq> [] then ''mixed_attention''
      else if gaps \<noteq> [] then ''evidence_insufficient''
      else if drifts \<noteq> [] \<or> refresh_required then ''drift_detected''
      else ''settled'')"

record dry_run =
  dr_records :: "tracked_record list"
  dr_affected_paths :: "string list"
  dr_recommended_targets :: "string list"
  dr_refresh_required :: bool
  dr_evidence_gap_reasons :: "string list"
  dr_drift_reasons :: "string list"
  dr_diagnostic_status :: string
  dr_status :: string

definition build_dry_run :: "writer_spec list \<Rightarrow> authority \<Rightarrow> freshness_summary \<Rightarrow> dry_inputs \<Rightarrow> dry_run" where
  "build_dry_run writers au fresh di =
     (let records = map (dry_run_tracked_artifact_record writers au di) (tracked_artifacts writers);
          affected = affected_paths_of records;
          recommended = dry_run_recommended_targets writers au affected;
          refresh = (recommended \<noteq> []);
          gaps = dry_run_evidence_gap_reasons au fresh records;
          drifts = dry_run_drift_reasons records
      in \<lparr>dr_records = records, dr_affected_paths = affected, dr_recommended_targets = recommended,
          dr_refresh_required = refresh, dr_evidence_gap_reasons = gaps, dr_drift_reasons = drifts,
          dr_diagnostic_status = dry_run_diagnostic_status gaps drifts refresh,
          dr_status = (if refresh then ''attention'' else ''pass'')\<rparr>)"

text \<open>The exit codes of the command.\<close>

definition dry_run_exit_code :: "bool \<Rightarrow> bool \<Rightarrow> dry_run \<Rightarrow> int" where
  "dry_run_exit_code fail_on_refresh no_fail d =
     (if fail_on_refresh \<and> dr_refresh_required d \<and> \<not> no_fail then 1 else 0)"

definition run_exit_code :: "bool \<Rightarrow> execution_state \<Rightarrow> int" where
  "run_exit_code no_fail e = (if no_fail then 0 else if es_status e = ''pass'' then 0 else 1)"
subsection \<open>What the authority and the dry run guarantee\<close>

lemma valid_digest_map_iff: "valid_digest_map m \<longleftrightarrow> (\<forall>(p, d) \<in> set m. valid_digest d)"
  by (auto simp: valid_digest_map_def list_all_iff)

text \<open>
  C29: the type of an authority. Whatever JSON the stored report holds, the maps handed to the dry run
  are either all empty, with a load status that is not \<open>ok\<close> and a digest count of zero, or they are
  total on exactly the tracked paths of the policy, every digest is \<open>missing\<close> or sixty-four lower-case
  hexadecimal digits, the binding modes are those of the policy, and the report passed.
\<close>

theorem authority_typed:
  "let au = load_fixed_point_authority writers payload load_status in
    (au_load_status au = ''ok'' \<longrightarrow> load_status = ''ok'' \<and> au_status au = ''pass'' \<and>
      fst ` set (au_raw au) = ta_path ` set (tracked_artifacts writers) \<and>
      fst ` set (au_binding au) = ta_path ` set (tracked_artifacts writers) \<and>
      (\<forall>(p, d) \<in> set (au_raw au) \<union> set (au_binding au). valid_digest d) \<and>
      set (au_modes au) = set (dict_of (map (\<lambda>a. (ta_path a, ta_binding_mode a)) (tracked_artifacts writers)))) \<and>
    (au_load_status au \<noteq> ''ok'' \<longrightarrow> au_raw au = [] \<and> au_binding au = [] \<and> au_modes au = [] \<and> au_digest_count au = 0)"
proof -
  let ?au = "load_fixed_point_authority writers payload load_status"
  consider l st t where "?au = authority_unavailable l st t" "l \<noteq> ''ok''"
    | raw binding modes x t where "load_status = ''ok''" "authority_maps_valid writers raw binding modes x"
        "?au = \<lparr>au_load_status = ''ok'', au_status = ''pass'', au_digest_count = length raw, au_summary = t,
          au_raw = raw, au_binding = binding, au_modes = modes\<rparr>"
    by (cases "load_status = ''ok''"; cases "?au = authority_unavailable (au_load_status ?au) (au_status ?au) (au_summary ?au)")
      (auto simp: load_fixed_point_authority_def Let_def authority_unavailable_def report_is_current_def split: if_splits)
  then show ?thesis
  proof cases
    case 1
    then show ?thesis by (simp add: authority_unavailable_def Let_def)
  next
    case 2
    then show ?thesis by (auto simp: same_dict_def valid_digest_map_iff authority_maps_valid_def Let_def)
  qed
qed

definition artifact_settled :: "writer_spec list \<Rightarrow> authority \<Rightarrow> dry_inputs \<Rightarrow> tracked_artifact \<Rightarrow> bool" where
  "artifact_settled writers au di item \<longleftrightarrow>
     (let p = ta_path item
      in snd (di_payload di p) = ''ok'' \<and>
         (\<exists>d. map_of (au_raw au) p = Some d \<and> map_of (di_raw di) p = Some d \<and> d \<noteq> ''missing'') \<and>
         binding_digest_status (map_of (au_modes au) p) (ta_binding_mode item)
           (text_or ''unknown'' (map_of (au_binding au) p)) (text_or ''unknown'' (map_of (di_binding di) p)) \<noteq> ''changed'' \<and>
         str_strip (dget (fst (di_payload di p)) ''source_tree_fingerprint'' (PyStr '''')) = di_fingerprint di \<and>
         di_fingerprint di \<noteq> [] \<and>
         (\<forall>r. map_of (di_freshness di) p = Some r \<longrightarrow>
            snd (freshness_signal r) = [] \<and> fst (freshness_signal r) \<noteq> ''fail''))"

lemma freshness_signal_Nil: "freshness_signal [] = ([], [])"
  by (simp add: freshness_signal_def dget_def)

definition signal_of :: "dry_inputs \<Rightarrow> string \<Rightarrow> string \<times> string list" where
  "signal_of di p = freshness_signal (case map_of (di_freshness di) p of None \<Rightarrow> [] | Some r \<Rightarrow> r)"

lemma signal_clean:
  "snd (signal_of di p) = [] \<and> fst (signal_of di p) \<noteq> ''fail'' \<longleftrightarrow>
     (\<forall>r. map_of (di_freshness di) p = Some r \<longrightarrow> snd (freshness_signal r) = [] \<and> fst (freshness_signal r) \<noteq> ''fail'')"
  by (cases "map_of (di_freshness di) p") (simp_all add: signal_of_def freshness_signal_Nil)

lemma tracked_record_fields:
  fixes writers au di item
  defines "r \<equiv> dry_run_tracked_artifact_record writers au di item" and "p \<equiv> ta_path item"
  shows "tr_path r = p" and "tr_load_status r = snd (di_payload di p)"
    and "tr_baseline_raw_digest r = text_or ''missing'' (map_of (au_raw au) p)"
    and "tr_current_raw_digest r = text_or ''missing'' (map_of (di_raw di) p)"
    and "tr_raw_digest_status r = (if text_or ''missing'' (map_of (au_raw au) p) = text_or ''missing'' (map_of (di_raw di) p)
      then ''current'' else ''changed'')"
    and "tr_binding_digest_status r = binding_digest_status (map_of (au_modes au) p) (ta_binding_mode item)
      (text_or ''unknown'' (map_of (au_binding au) p)) (text_or ''unknown'' (map_of (di_binding di) p))"
    and "tr_source_tree_status r = source_tree_status (snd (di_payload di p))
      (str_strip (dget (fst (di_payload di p)) ''source_tree_fingerprint'' (PyStr ''''))) (di_fingerprint di)"
    and "tr_freshness_status r = (if snd (signal_of di p) \<noteq> [] \<or> fst (signal_of di p) = ''fail'' then ''attention'' else ''pass'')"
    and "tr_refresh_needed r \<longleftrightarrow> tr_load_status r \<noteq> ''ok'' \<or> tr_binding_digest_status r = ''changed'' \<or>
      tr_binding_digest_status r = ''unknown'' \<and> tr_raw_digest_status r \<noteq> ''current'' \<or>
      tr_source_tree_status r \<noteq> ''current'' \<or> tr_freshness_status r \<noteq> ''pass''"
  by (simp_all add: r_def p_def dry_run_tracked_artifact_record_def Let_def split_beta signal_of_def)

lemma raw_digest_settled:
  "text_or ''missing'' m \<noteq> ''missing'' \<and> text_or ''missing'' n \<noteq> ''missing'' \<and> text_or ''missing'' m = text_or ''missing'' n \<longleftrightarrow>
     (\<exists>d. m = Some d \<and> n = Some d \<and> d \<noteq> ''missing'')"
  by (cases m; cases n) (auto simp: text_or_def)

lemma source_tree_settled:
  "l = ''ok'' \<Longrightarrow> source_tree_status l f c \<notin> {''missing'', ''unreadable'', ''stale''} \<longleftrightarrow> f = c \<and> c \<noteq> []"
  by (auto simp: source_tree_status_def)

lemma artifact_settled_record:
  fixes writers au di item
  defines "r \<equiv> dry_run_tracked_artifact_record writers au di item"
  shows "artifact_settled writers au di item \<longleftrightarrow> tr_load_status r = ''ok'' \<and>
    tr_baseline_raw_digest r \<noteq> ''missing'' \<and> tr_current_raw_digest r \<noteq> ''missing'' \<and>
    tr_raw_digest_status r \<noteq> ''changed'' \<and> tr_binding_digest_status r \<noteq> ''changed'' \<and>
    tr_source_tree_status r \<notin> {''missing'', ''unreadable'', ''stale''} \<and> tr_freshness_status r \<noteq> ''attention''"
proof -
  have "tr_raw_digest_status r \<noteq> ''changed'' \<longleftrightarrow>
      text_or ''missing'' (map_of (au_raw au) (ta_path item)) = text_or ''missing'' (map_of (di_raw di) (ta_path item))"
    by (simp add: r_def tracked_record_fields)
  moreover have "tr_freshness_status r \<noteq> ''attention'' \<longleftrightarrow> snd (signal_of di (ta_path item)) = [] \<and> fst (signal_of di (ta_path item)) \<noteq> ''fail''"
    by (simp add: r_def tracked_record_fields)
  moreover have "tr_load_status r = ''ok'' \<Longrightarrow> tr_source_tree_status r \<notin> {''missing'', ''unreadable'', ''stale''} \<longleftrightarrow>
      str_strip (dget (fst (di_payload di (ta_path item))) ''source_tree_fingerprint'' (PyStr '''')) = di_fingerprint di \<and>
      di_fingerprint di \<noteq> []"
    unfolding r_def tracked_record_fields by (rule source_tree_settled)
  ultimately show ?thesis
    unfolding artifact_settled_def Let_def raw_digest_settled [symmetric] signal_clean [symmetric]
    by (simp only: r_def tracked_record_fields(2-4,6)) blast
qed

lemma settled_record:
  "record_gap_reasons (dry_run_tracked_artifact_record writers au di item) = [] \<and>
   record_drift_reasons (dry_run_tracked_artifact_record writers au di item) = [] \<longleftrightarrow>
   artifact_settled writers au di item"
proof -
  have gap: "record_gap_reasons r = [] \<longleftrightarrow> tr_load_status r = ''ok'' \<and> tr_baseline_raw_digest r \<noteq> ''missing'' \<and>
      tr_current_raw_digest r \<noteq> ''missing'' \<and> tr_source_tree_status r \<notin> {''missing'', ''unreadable''}" for r
    by (simp add: record_gap_reasons_def)
  have drift: "record_drift_reasons r = [] \<longleftrightarrow> \<not> (tr_raw_digest_status r = ''changed'' \<and>
      tr_baseline_raw_digest r \<noteq> ''missing'' \<and> tr_current_raw_digest r \<noteq> ''missing'') \<and>
      tr_binding_digest_status r \<noteq> ''changed'' \<and> tr_source_tree_status r \<noteq> ''stale'' \<and> tr_freshness_status r \<noteq> ''attention''" for r
    by (simp add: record_drift_reasons_def)
  show ?thesis unfolding gap drift artifact_settled_record by blast
qed

lemma settled_no_refresh:
  assumes "artifact_settled writers au di item"
  shows "\<not> tr_refresh_needed (dry_run_tracked_artifact_record writers au di item)"
proof -
  let ?r = "dry_run_tracked_artifact_record writers au di item"
  have "tr_source_tree_status ?r \<in> {''missing'', ''current'', ''stale''}" if "tr_load_status ?r = ''ok''"
    using that by (simp add: tracked_record_fields source_tree_status_def)
  moreover have "tr_freshness_status ?r \<in> {''attention'', ''pass''}" "tr_raw_digest_status ?r \<in> {''current'', ''changed''}"
    by (simp_all add: tracked_record_fields)
  ultimately show ?thesis using assms unfolding artifact_settled_record tracked_record_fields(9) by blast
qed

lemma dedupe_from_Nil_iff: "dedupe_from {} xs = [] \<longleftrightarrow> xs = []"
  by (cases xs) simp_all

text \<open>
  C28: when the dry run calls the closeout settled. The diagnostic status is \<open>settled\<close> exactly when the
  authority and the freshness report loaded, the authority holds digests, and every tracked artifact
  loads, has the recorded raw digest, has no changed binding digest, carries the current source tree
  fingerprint and no freshness issue; then no refresh is required and no target is recommended.
\<close>

theorem dry_run_settled_iff:
  "(dr_diagnostic_status (build_dry_run writers au fresh di) = ''settled'' \<longleftrightarrow>
      au_load_status au = ''ok'' \<and> au_digest_count au \<noteq> 0 \<and> fs_load_status fresh = ''ok'' \<and>
      (\<forall>item \<in> set (tracked_artifacts writers). artifact_settled writers au di item)) \<and>
   (dr_diagnostic_status (build_dry_run writers au fresh di) = ''settled'' \<longrightarrow>
      \<not> dr_refresh_required (build_dry_run writers au fresh di) \<and>
      dr_recommended_targets (build_dry_run writers au fresh di) = [])"
proof -
  let ?d = "build_dry_run writers au fresh di" and ?arts = "tracked_artifacts writers"
  let ?rec = "dry_run_tracked_artifact_record writers au di"
  have diag: "dr_diagnostic_status ?d = ''settled'' \<longleftrightarrow>
      dr_evidence_gap_reasons ?d = [] \<and> dr_drift_reasons ?d = [] \<and> \<not> dr_refresh_required ?d"
    by (simp add: build_dry_run_def Let_def dry_run_diagnostic_status_def)
  have gaps: "dr_evidence_gap_reasons ?d = [] \<longleftrightarrow> au_load_status au = ''ok'' \<and> au_digest_count au \<noteq> 0 \<and>
      fs_load_status fresh = ''ok'' \<and> (\<forall>i \<in> set ?arts. record_gap_reasons (?rec i) = [])"
    by (auto simp: build_dry_run_def Let_def dry_run_evidence_gap_reasons_def dedupe_from_Nil_iff)
  have drifts: "dr_drift_reasons ?d = [] \<longleftrightarrow> (\<forall>i \<in> set ?arts. record_drift_reasons (?rec i) = [])"
    by (auto simp: build_dry_run_def Let_def dry_run_drift_reasons_def dedupe_from_Nil_iff)
  have refresh: "\<not> dr_refresh_required ?d"
    if "au_load_status au = ''ok''" "\<forall>i \<in> set ?arts. artifact_settled writers au di i"
  proof -
    have "filter tr_refresh_needed (map ?rec ?arts) = []" using that(2) settled_no_refresh by (auto simp: filter_empty_conv)
    then show ?thesis using that(1)
      by (simp add: build_dry_run_def Let_def affected_paths_of_def dry_run_recommended_targets_def
          targets_for_affected_paths_def)
  qed
  have "dr_diagnostic_status ?d = ''settled'' \<longleftrightarrow> au_load_status au = ''ok'' \<and> au_digest_count au \<noteq> 0 \<and>
      fs_load_status fresh = ''ok'' \<and> (\<forall>i \<in> set ?arts. artifact_settled writers au di i)"
    unfolding diag gaps drifts using settled_record [of writers au di] refresh by blast
  moreover have "dr_refresh_required ?d \<longleftrightarrow> dr_recommended_targets ?d \<noteq> []" by (simp add: build_dry_run_def Let_def)
  ultimately show ?thesis using refresh by blast
qed
definition sample_digest :: string where
  "sample_digest = replicate 64 (CHR ''a'')"

definition sample_writer_a :: "writer_spec list" where
  "sample_writer_a = [sample_spec ''a'' [] []]"

definition sample_maps :: pydict where
  "sample_maps = [(''raw_digest_map'', PyDict [(''a.json'', PyStr sample_digest)]),
     (''binding_digest_map'', PyDict [(''a.json'', PyStr sample_digest)]),
     (''binding_mode_map'', PyDict [(''a.json'', PyStr ''raw'')])]"

definition sample_report :: pydict where
  "sample_report = [(''artifact_kind'', PyStr ''release_closeout_fixed_point_report''),
     (''producer'', PyStr ''ops.scripts.release_closeout_fixed_point''), (''schema_version'', PyInt 2),
     (''status'', PyStr ''pass''), (''artifact_status'', PyStr ''current''),
     (''currentness'', PyDict [(''status'', PyStr ''current'')]), (''execution_pass_count'', PyInt 1),
     (''execution'', PyDict ((''status'', PyStr ''pass'') # sample_maps))] @ sample_maps"

definition sample_authority :: authority where
  "sample_authority = load_fixed_point_authority sample_writer_a sample_report ''ok''"

definition sample_inputs :: dry_inputs where
  "sample_inputs = \<lparr>di_payload = (\<lambda>p. ([(''source_tree_fingerprint'', PyStr ''f'')], ''ok'')),
     di_raw = [(''a.json'', sample_digest)], di_binding = [(''a.json'', sample_digest)], di_freshness = [],
     di_fingerprint = ''f''\<rparr>"

theorem authority_typed_witness:
  "au_load_status sample_authority = ''ok'' \<and> fst ` set (au_raw sample_authority) = {''a.json''}"
proof -
  have ok: "au_load_status sample_authority = ''ok''" by code_simp
  have "ta_path ` set (tracked_artifacts sample_writer_a) = {''a.json''}"
    by (simp add: sample_writer_a_def tracked_artifacts_def sample_spec_def)
  then show ?thesis
    using authority_typed [of sample_writer_a sample_report "''ok''"] ok unfolding sample_authority_def Let_def by simp
qed

theorem dry_run_settled_iff_witness:
  "dr_diagnostic_status (build_dry_run sample_writer_a sample_authority \<lparr>fs_load_status = ''ok'', fs_status = ''pass''\<rparr>
       sample_inputs) = ''settled'' \<and>
   \<not> dr_refresh_required (build_dry_run sample_writer_a sample_authority \<lparr>fs_load_status = ''ok'', fs_status = ''pass''\<rparr>
       sample_inputs)"
proof -
  have "au_load_status sample_authority = ''ok''" "au_digest_count sample_authority = 1"
    "au_raw sample_authority = [(''a.json'', sample_digest)]" "sample_digest \<noteq> ''missing''"
    "au_binding sample_authority = [(''a.json'', sample_digest)]"
    by code_simp+
  moreover have "\<forall>item \<in> set (tracked_artifacts sample_writer_a). artifact_settled sample_writer_a sample_authority sample_inputs item"
    using calculation
    by (simp add: sample_writer_a_def tracked_artifacts_def sample_spec_def artifact_settled_def sample_inputs_def Let_def
        dget_def text_or_def binding_digest_status_def str_strip_def py_strip_def)
      (simp add: py_isspace_def)
  ultimately show ?thesis
    using dry_run_settled_iff [of sample_writer_a sample_authority "\<lparr>fs_load_status = ''ok'', fs_status = ''pass''\<rparr>" sample_inputs]
    by simp
qed

subsection \<open>The handoff plan\<close>

text \<open>The plan the dry run hands over: which target to run, why, and what it will write.\<close>

definition target_writes :: "writer_spec list \<Rightarrow> string \<Rightarrow> string list" where
  "target_writes writers target = declared_produces writers target"

definition record_of :: "tracked_record list \<Rightarrow> string \<Rightarrow> tracked_record option" where
  "record_of records path = map_of (rev (map (\<lambda>r. (tr_path r, r)) records)) path"

definition expected_raw_digest_to_settle :: "tracked_record list \<Rightarrow> string list \<Rightarrow> (string \<times> string) list" where
  "expected_raw_digest_to_settle records writes = dict_of (map (\<lambda>p.
     (p, case record_of records p of
           None \<Rightarrow> ''unknown''
         | Some r \<Rightarrow> if tr_current_raw_digest r \<noteq> [] \<and> tr_current_raw_digest r \<noteq> ''missing''
                    then tr_current_raw_digest r else ''unknown'')) writes)"

text \<open>
  A path without a record has \<open>None\<close> in every field, which differs from \<open>current\<close>, \<open>pass\<close> and \<open>ok\<close>.
\<close>

definition path_reasons :: "tracked_record option \<Rightarrow> string list" where
  "path_reasons r =
     (case r of
        None \<Rightarrow> [''raw digest drift'', ''source tree None'', ''freshness attention'', ''load None'']
      | Some t \<Rightarrow>
          (if tr_binding_digest_status t = ''changed'' then [''binding digest drift'']
           else if tr_raw_digest_status t \<noteq> ''current'' then [''raw digest drift''] else []) @
          (if tr_source_tree_status t \<noteq> ''current'' then [''source tree '' @ tr_source_tree_status t] else []) @
          (if tr_freshness_status t \<noteq> ''pass'' then [''freshness attention''] else []) @
          (if tr_load_status t \<noteq> ''ok'' then [''load '' @ tr_load_status t] else []))"

definition path_reason_text :: "tracked_record list \<Rightarrow> string \<Rightarrow> string" where
  "path_reason_text records path =
     (let rs = path_reasons (record_of records path)
      in path @ '' ('' @ (if rs = [] then ''refresh needed'' else py_join '', '' rs) @ '')'')"

definition target_why ::
  "writer_spec list \<Rightarrow> authority \<Rightarrow> tracked_record list \<Rightarrow> string list \<Rightarrow> string \<Rightarrow> string list \<Rightarrow> string" where
  "target_why writers au records affected target writes =
     (let direct = filter (\<lambda>p. p \<in> set affected) writes;
          upstream = filter (\<lambda>p. target \<in> set (downstream_of writers
            (text_or '''' (map_of (producer_by_path writers) p)))) affected
      in if au_load_status au \<noteq> ''ok'' then ''single-pass baseline evidence is unavailable; run the writer graph''
         else if direct \<noteq> []
         then ''refreshes affected artifact(s): '' @ py_join ''; '' (map (path_reason_text records) direct)
         else if upstream \<noteq> [] then ''downstream of affected artifact(s): '' @ py_join '', '' upstream
         else ''included in the single-pass prerequisite writer set'')"

record target_plan =
  tp_target :: string
  tp_why :: string
  tp_writes :: "string list"
  tp_expected :: "(string \<times> string) list"

definition closeout_plan :: "writer_spec list \<Rightarrow> authority \<Rightarrow> dry_run \<Rightarrow> target_plan list" where
  "closeout_plan writers au d = map (\<lambda>t.
     let writes = target_writes writers t
     in \<lparr>tp_target = t, tp_why = target_why writers au (dr_records d) (dr_affected_paths d) t writes,
         tp_writes = writes, tp_expected = expected_raw_digest_to_settle (dr_records d) writes\<rparr>)
     (dr_recommended_targets d)"

end
