(* ===== verification/FileSystem.thy ===== *)
theory FileSystem
  imports GateCommon
begin

section \<open>A file system with faults\<close>

text \<open>
  The file operations that \<open>core/filesystem_runtime.py\<close> calls, on an explicit store: a list of
  absolute paths, each a text file or a directory. Any operation may fail: an oracle in the
  environment says which step raises \<open>OSError\<close>, and what a file copy or a write leaves behind when
  it does (\<open>os.replace\<close>, \<open>unlink\<close> and \<open>rmdir\<close> either happen or do not). The names chosen by
  \<open>tempfile\<close>, \<open>Path.resolve\<close> and the symbolic links of the machine are parameters of the
  environment too. A file holds its text as it is stored; reading it in text mode translates newlines.
\<close>

subsection \<open>State and effects\<close>

type_synonym fpath = "string list"

datatype node = FileNode string | DirNode

record os_env =
  e_fault :: "nat \<Rightarrow> (string \<times> string option) option"
  e_tmp :: "nat \<Rightarrow> string"
  e_resolve :: "fpath \<Rightarrow> fpath"
  e_link :: "fpath \<Rightarrow> bool"

record world =
  w_nodes :: "(fpath \<times> node) list"
  w_clock :: nat
  w_env :: os_env

type_synonym 'a io = "world \<Rightarrow> 'a res \<times> world"

definition returnm :: "'a \<Rightarrow> 'a io" where
  "returnm x = (\<lambda>w. (Inr x, w))"

definition raisem :: "py_exc \<Rightarrow> 'a io" where
  "raisem e = (\<lambda>w. (Inl e, w))"

definition liftm :: "'a res \<Rightarrow> 'a io" where
  "liftm r = (\<lambda>w. (r, w))"

definition bindm :: "'a io \<Rightarrow> ('a \<Rightarrow> 'b io) \<Rightarrow> 'b io" where
  "bindm m f = (\<lambda>w. case m w of (Inl e, w') \<Rightarrow> (Inl e, w') | (Inr x, w') \<Rightarrow> f x w')"

text \<open>\<open>except OSError as exc\<close>, the \<open>FileNotFoundError\<close> clause, and \<open>finally\<close>.\<close>

definition catch_os :: "'a io \<Rightarrow> (py_exc \<Rightarrow> 'a io) \<Rightarrow> 'a io" where
  "catch_os m h = (\<lambda>w. case m w of
      (Inl e, w') \<Rightarrow> if is_os_error e then h e w' else (Inl e, w')
    | (Inr x, w') \<Rightarrow> (Inr x, w'))"

definition ignore_missing :: "unit io \<Rightarrow> unit io" where
  "ignore_missing m = (\<lambda>w. case m w of
      (Inl e, w') \<Rightarrow> (case e of FileNotFoundError _ \<Rightarrow> (Inr (), w') | _ \<Rightarrow> (Inl e, w'))
    | (Inr x, w') \<Rightarrow> (Inr x, w'))"

definition finallym :: "'a io \<Rightarrow> unit io \<Rightarrow> 'a io" where
  "finallym m c = (\<lambda>w. case m w of (r, w') \<Rightarrow>
     (case c w' of (Inl e, w'') \<Rightarrow> (Inl e, w'') | (Inr _, w'') \<Rightarrow> (r, w'')))"

fun mapm :: "('a \<Rightarrow> 'b io) \<Rightarrow> 'a list \<Rightarrow> 'b list io" where
  "mapm f [] = returnm []"
| "mapm f (x # xs) = bindm (f x) (\<lambda>y. bindm (mapm f xs) (\<lambda>ys. returnm (y # ys)))"

fun eachm :: "('a \<Rightarrow> unit io) \<Rightarrow> 'a list \<Rightarrow> unit io" where
  "eachm f [] = returnm ()"
| "eachm f (x # xs) = bindm (f x) (\<lambda>_. eachm f xs)"

definition os_error_text :: "py_exc \<Rightarrow> string" where
  "os_error_text e = (case e of OSError t \<Rightarrow> t | FilesystemTransactionError t \<Rightarrow> t
     | FileNotFoundError t \<Rightarrow> t | _ \<Rightarrow> [])"

subsection \<open>The store\<close>

definition node_of :: "world \<Rightarrow> fpath \<Rightarrow> node option" where
  "node_of w p = map_of (w_nodes w) p"

definition file_at :: "world \<Rightarrow> fpath \<Rightarrow> string option" where
  "file_at w p = (case node_of w p of Some (FileNode t) \<Rightarrow> Some t | _ \<Rightarrow> None)"

definition is_dir :: "world \<Rightarrow> fpath \<Rightarrow> bool" where
  "is_dir w p = (p = [] \<or> node_of w p = Some DirNode)"

definition put_node :: "fpath \<Rightarrow> node \<Rightarrow> world \<Rightarrow> world" where
  "put_node p n w = w\<lparr>w_nodes := AList.update p n (w_nodes w)\<rparr>"

definition del_node :: "fpath \<Rightarrow> world \<Rightarrow> world" where
  "del_node p w = w\<lparr>w_nodes := AList.delete p (w_nodes w)\<rparr>"

definition path_text :: "fpath \<Rightarrow> string" where
  "path_text p = ''/'' @ py_join ''/'' p"

definition no_such_file :: "fpath \<Rightarrow> py_exc" where
  "no_such_file p = FileNotFoundError (''[Errno 2] No such file or directory: '' @ str_repr (path_text p))"

definition is_a_directory :: "fpath \<Rightarrow> py_exc" where
  "is_a_directory p = OSError (''[Errno 21] Is a directory: '' @ str_repr (path_text p))"

subsection \<open>Operations\<close>

text \<open>One step of the clock: the oracle decides whether the operation fails.\<close>

definition step_io :: "(string option \<Rightarrow> world \<Rightarrow> world) \<Rightarrow> 'a io \<Rightarrow> 'a io" where
  "step_io torn act = (\<lambda>w.
     let w1 = w\<lparr>w_clock := Suc (w_clock w)\<rparr>
     in case e_fault (w_env w) (w_clock w) of
          Some (msg, partial) \<Rightarrow> (Inl (OSError msg), torn partial w1)
        | None \<Rightarrow> act w1)"

definition atomic_io :: "'a io \<Rightarrow> 'a io" where
  "atomic_io act = step_io (\<lambda>_ w. w) act"

definition torn_file :: "fpath \<Rightarrow> string option \<Rightarrow> world \<Rightarrow> world" where
  "torn_file p partial w = (case partial of None \<Rightarrow> w | Some t \<Rightarrow> put_node p (FileNode t) w)"

definition path_exists :: "fpath \<Rightarrow> bool io" where
  "path_exists p = (\<lambda>w. (Inr (p = [] \<or> node_of w p \<noteq> None), w))"

definition op_unlink :: "fpath \<Rightarrow> unit io" where
  "op_unlink p = atomic_io (\<lambda>w. case node_of w p of
      None \<Rightarrow> (Inl (no_such_file p), w)
    | Some DirNode \<Rightarrow> (Inl (is_a_directory p), w)
    | Some (FileNode _) \<Rightarrow> (Inr (), del_node p w))"

definition op_replace :: "fpath \<Rightarrow> fpath \<Rightarrow> unit io" where
  "op_replace src dst = atomic_io (\<lambda>w. case node_of w src of
      None \<Rightarrow> (Inl (no_such_file src), w)
    | Some DirNode \<Rightarrow> (Inl (is_a_directory src), w)
    | Some (FileNode t) \<Rightarrow>
        if node_of w dst = Some DirNode \<or> dst = [] then (Inl (is_a_directory dst), w)
        else if \<not> is_dir w (butlast dst) then (Inl (no_such_file dst), w)
        else (Inr (), put_node dst (FileNode t) (del_node src w)))"

text \<open>\<open>mkdir(parents=True, exist_ok=True)\<close>.\<close>

fun add_dirs :: "fpath list \<Rightarrow> world \<Rightarrow> world" where
  "add_dirs [] w = w"
| "add_dirs (p # ps) w =
     (if p = [] \<or> node_of w p \<noteq> None then add_dirs ps w else add_dirs ps (put_node p DirNode w))"

definition op_mkdir :: "fpath \<Rightarrow> unit io" where
  "op_mkdir p = atomic_io (\<lambda>w.
     if list_ex (\<lambda>q. file_at w q \<noteq> None) (prefixes p)
     then (Inl (OSError (''[Errno 17] File exists: '' @ str_repr (path_text p))), w)
     else (Inr (), add_dirs (prefixes p) w))"

definition op_copy2 :: "fpath \<Rightarrow> fpath \<Rightarrow> unit io" where
  "op_copy2 src dst = step_io (torn_file dst) (\<lambda>w. case node_of w src of
      None \<Rightarrow> (Inl (no_such_file src), w)
    | Some DirNode \<Rightarrow> (Inl (is_a_directory src), w)
    | Some (FileNode t) \<Rightarrow>
        if node_of w dst = Some DirNode \<or> dst = [] then (Inl (is_a_directory dst), w)
        else if \<not> is_dir w (butlast dst) then (Inl (no_such_file dst), w)
        else (Inr (), put_node dst (FileNode t) w))"

definition no_free_name :: py_exc where
  "no_free_name = OSError ''[Errno 17] No usable temporary file name found''"

definition op_mkstemp :: "fpath \<Rightarrow> string \<Rightarrow> string \<Rightarrow> fpath io" where
  "op_mkstemp dir pre suf = atomic_io (\<lambda>w.
     let p = dir @ [pre @ e_tmp (w_env w) (w_clock w) @ suf]
     in if \<not> is_dir w dir then (Inl (no_such_file p), w)
        else if node_of w p \<noteq> None then (Inl no_free_name, w)
        else (Inr p, put_node p (FileNode []) w))"

definition op_mkdtemp :: "fpath \<Rightarrow> string \<Rightarrow> fpath io" where
  "op_mkdtemp dir pre = atomic_io (\<lambda>w.
     let p = dir @ [pre @ e_tmp (w_env w) (w_clock w)]
     in if \<not> is_dir w dir then (Inl (no_such_file p), w)
        else if node_of w p \<noteq> None then (Inl no_free_name, w)
        else (Inr p, put_node p DirNode w))"

definition op_write :: "fpath \<Rightarrow> string \<Rightarrow> unit io" where
  "op_write p t = step_io (torn_file p) (\<lambda>w. (Inr (), put_node p (FileNode t) w))"

definition op_read :: "fpath \<Rightarrow> string io" where
  "op_read p = atomic_io (\<lambda>w. case node_of w p of
      None \<Rightarrow> (Inl (no_such_file p), w)
    | Some DirNode \<Rightarrow> (Inl (is_a_directory p), w)
    | Some (FileNode t) \<Rightarrow> (Inr t, w))"

text \<open>\<open>Path.read_text\<close>: the same read, in text mode.\<close>

definition read_text :: "fpath \<Rightarrow> string io" where
  "read_text p = bindm (op_read p) (\<lambda>t. returnm (universal_newlines t))"

definition op_rmdir :: "fpath \<Rightarrow> unit io" where
  "op_rmdir p = atomic_io (\<lambda>w.
     if p = [] then (Inl (OSError ''[Errno 16] Device or resource busy: /''), w)
     else (case node_of w p of
        None \<Rightarrow> (Inl (no_such_file p), w)
      | Some (FileNode _) \<Rightarrow> (Inl (OSError (''[Errno 20] Not a directory: '' @ str_repr (path_text p))), w)
      | Some DirNode \<Rightarrow>
          if list_ex (\<lambda>(q, n). strict_prefix p q) (w_nodes w)
          then (Inl (OSError (''[Errno 39] Directory not empty: '' @ str_repr (path_text p))), w)
          else (Inr (), del_node p w)))"

text \<open>\<open>shutil.rmtree(path, ignore_errors=True)\<close>.\<close>

definition op_rmtree :: "fpath \<Rightarrow> unit io" where
  "op_rmtree p = (\<lambda>w.
     let w1 = w\<lparr>w_clock := Suc (w_clock w)\<rparr>
     in case e_fault (w_env w) (w_clock w) of
          Some _ \<Rightarrow> (Inr (), w1)
        | None \<Rightarrow> (Inr (), w1\<lparr>w_nodes := filter (\<lambda>(q, n). \<not> prefix p q) (w_nodes w1)\<rparr>))"

subsection \<open>What the operations leave alone\<close>

text \<open>
  \<open>leaves P E m Q\<close>: in the environment \<open>E\<close>, \<open>m\<close> changes no file whose path satisfies \<open>P\<close>, on any
  outcome, keeps the environment, and returns only values in \<open>Q\<close>. The rules below compose it along
  the combinators; client proofs are chains of these rules.
\<close>

named_theorems leaves_rules "composition of the frame predicate"

definition leaves :: "(fpath \<Rightarrow> bool) \<Rightarrow> os_env \<Rightarrow> 'a io \<Rightarrow> ('a \<Rightarrow> bool) \<Rightarrow> bool" where
  "leaves P E m Q \<longleftrightarrow> (\<forall>w r w'. w_env w = E \<longrightarrow> m w = (r, w') \<longrightarrow>
     w_env w' = E \<and> (\<forall>p. P p \<longrightarrow> file_at w' p = file_at w p) \<and> (\<forall>x. r = Inr x \<longrightarrow> Q x))"

lemma leavesI:
  assumes "\<And>w r w'. w_env w = E \<Longrightarrow> m w = (r, w') \<Longrightarrow>
     w_env w' = E \<and> (\<forall>p. P p \<longrightarrow> file_at w' p = file_at w p) \<and> (\<forall>x. r = Inr x \<longrightarrow> Q x)"
  shows "leaves P E m Q"
  using assms unfolding leaves_def by blast

lemma leavesD:
  assumes "leaves P E m Q" and "w_env w = E" and "m w = (r, w')"
  shows "w_env w' = E" and "P p \<Longrightarrow> file_at w' p = file_at w p" and "r = Inr x \<Longrightarrow> Q x"
  using assms unfolding leaves_def by blast+

lemma leaves_weaken: "leaves P E m Q \<Longrightarrow> (\<And>p. P' p \<Longrightarrow> P p) \<Longrightarrow> (\<And>x. Q x \<Longrightarrow> Q' x) \<Longrightarrow> leaves P' E m Q'"
  unfolding leaves_def by blast

lemma leaves_return [leaves_rules]: "Q x \<Longrightarrow> leaves P E (returnm x) Q"
  by (rule leavesI) (auto simp: returnm_def)

lemma leaves_raise [leaves_rules]: "leaves P E (raisem e) Q"
  by (rule leavesI) (auto simp: raisem_def)

lemma leaves_lift: "(\<And>x. r = Inr x \<Longrightarrow> Q x) \<Longrightarrow> leaves P E (liftm r) Q"
  by (rule leavesI) (auto simp: liftm_def)

lemma leaves_bind:
  assumes "leaves P E m R" and "\<And>x. R x \<Longrightarrow> leaves P E (f x) Q"
  shows "leaves P E (bindm m f) Q"
proof (rule leavesI)
  fix w r w' assume w: "w_env w = E" and run: "bindm m f w = (r, w')"
  show "w_env w' = E \<and> (\<forall>p. P p \<longrightarrow> file_at w' p = file_at w p) \<and> (\<forall>x. r = Inr x \<longrightarrow> Q x)"
  proof (cases "m w")
    case (Pair r1 w1)
    note d1 = leavesD [OF assms(1) w Pair]
    show ?thesis
    proof (cases r1)
      case (Inl e)
      then show ?thesis using run Pair d1 by (auto simp: bindm_def)
    next
      case (Inr x)
      then have "f x w1 = (r, w')" using run Pair by (simp add: bindm_def)
      with leavesD [OF assms(2) [OF d1(3) [OF Inr]] d1(1)] d1(2) show ?thesis by metis
    qed
  qed
qed

lemma leaves_catch [leaves_rules]:
  assumes "leaves P E m Q" and "\<And>e. is_os_error e \<Longrightarrow> leaves P E (h e) Q"
  shows "leaves P E (catch_os m h) Q"
proof (rule leavesI)
  fix w r w' assume w: "w_env w = E" and run: "catch_os m h w = (r, w')"
  show "w_env w' = E \<and> (\<forall>p. P p \<longrightarrow> file_at w' p = file_at w p) \<and> (\<forall>x. r = Inr x \<longrightarrow> Q x)"
  proof (cases "m w")
    case (Pair r1 w1)
    note d1 = leavesD [OF assms(1) w Pair]
    show ?thesis
    proof (cases "\<exists>e. r1 = Inl e \<and> is_os_error e")
      case True
      then obtain e where e: "is_os_error e" "h e w1 = (r, w')" using run Pair by (auto simp: catch_os_def)
      with leavesD [OF assms(2) [OF e(1)] d1(1) e(2)] d1(2) show ?thesis by metis
    next
      case False
      then show ?thesis using run Pair d1 by (auto simp: catch_os_def split: sum.splits if_splits)
    qed
  qed
qed

lemma leaves_ignore [leaves_rules]: "leaves P E m Q \<Longrightarrow> Q () \<Longrightarrow> leaves P E (ignore_missing m) Q"
  by (rule leavesI)
    (force simp: ignore_missing_def dest: leavesD split: prod.splits sum.splits py_exc.splits)

lemma leaves_finally [leaves_rules]:
  assumes "leaves P E m Q" and "leaves P E c (\<lambda>_. True)"
  shows "leaves P E (finallym m c) Q"
proof (rule leavesI)
  fix w r w' assume w: "w_env w = E" and run: "finallym m c w = (r, w')"
  obtain r1 w1 r2 where 1: "m w = (r1, w1)" and 2: "c w1 = (r2, w')"
    and r: "r = (case r2 of Inl e \<Rightarrow> Inl e | Inr _ \<Rightarrow> r1)"
    using run by (auto simp: finallym_def split: prod.splits sum.splits)
  note d1 = leavesD [OF assms(1) w 1]
  note d2 = leavesD [OF assms(2) d1(1) 2]
  show "w_env w' = E \<and> (\<forall>p. P p \<longrightarrow> file_at w' p = file_at w p) \<and> (\<forall>x. r = Inr x \<longrightarrow> Q x)"
    using d1 d2 r by (auto split: sum.splits)
qed

lemma leaves_mapm:
  assumes "\<And>x. x \<in> set xs \<Longrightarrow> leaves P E (f x) (R x)"
  shows "leaves P E (mapm f xs) (\<lambda>ys. list_all2 R xs ys)"
  using assms
proof (induction xs)
  case (Cons x xs)
  have "leaves P E (bindm (mapm f xs) (\<lambda>ys. returnm (y # ys))) (list_all2 R (x # xs))" if "R x y" for y
    by (rule leaves_bind [OF Cons.IH]) (use Cons.prems that in \<open>auto intro: leaves_return\<close>)
  then show ?case unfolding mapm.simps by (intro leaves_bind [OF Cons.prems]) auto
qed (simp add: leaves_return)

lemma leaves_eachm:
  assumes "\<And>x. x \<in> set xs \<Longrightarrow> leaves P E (f x) (\<lambda>_. True)"
  shows "leaves P E (eachm f xs) (\<lambda>_. True)"
  using assms
proof (induction xs)
  case (Cons x xs)
  show ?case unfolding eachm.simps
    by (rule leaves_bind [OF Cons.prems]) (use Cons in auto)
qed (simp add: leaves_return)

subsection \<open>Frames of the operations\<close>

lemma node_of_clock [simp]: "node_of (w\<lparr>w_clock := n\<rparr>) p = node_of w p"
  by (simp add: node_of_def)

lemma file_at_clock [simp]: "file_at (w\<lparr>w_clock := n\<rparr>) p = file_at w p"
  by (simp add: file_at_def)

lemma node_of_put [simp]: "node_of (put_node q n w) p = (if p = q then Some n else node_of w p)"
  by (simp add: node_of_def put_node_def update_conv')

lemma node_of_del [simp]: "node_of (del_node q w) p = (if p = q then None else node_of w p)"
  by (simp add: node_of_def del_node_def delete_conv')

lemma env_put [simp]: "w_env (put_node q n w) = w_env w" "w_env (del_node q w) = w_env w"
  "w_clock (put_node q n w) = w_clock w" "w_clock (del_node q w) = w_clock w"
  by (simp_all add: put_node_def del_node_def)

lemma file_at_put [simp]:
  "file_at (put_node q n w) p = (if p = q then (case n of FileNode t \<Rightarrow> Some t | DirNode \<Rightarrow> None) else file_at w p)"
  by (simp add: file_at_def split: node.splits)

lemma file_at_del [simp]: "file_at (del_node q w) p = (if p = q then None else file_at w p)"
  by (simp add: file_at_def)

lemma leaves_step:
  assumes "\<And>partial w. w_env w = E \<Longrightarrow> w_env (torn partial w) = E \<and> (\<forall>p. P p \<longrightarrow> file_at (torn partial w) p = file_at w p)"
    and "leaves P E act Q"
  shows "leaves P E (step_io torn act) Q"
proof (rule leavesI)
  fix w r w' assume w: "w_env w = E" and run: "step_io torn act w = (r, w')"
  let ?w1 = "w\<lparr>w_clock := Suc (w_clock w)\<rparr>"
  have w1: "w_env ?w1 = E" using w by simp
  show "w_env w' = E \<and> (\<forall>p. P p \<longrightarrow> file_at w' p = file_at w p) \<and> (\<forall>x. r = Inr x \<longrightarrow> Q x)"
  proof (cases "e_fault (w_env w) (w_clock w)")
    case None
    then have "act ?w1 = (r, w')" using run by (simp add: step_io_def)
    from leavesD [OF assms(2) w1 this] show ?thesis by (metis file_at_clock)
  next
    case (Some a)
    then obtain msg partial where "a = (msg, partial)" by (cases a)
    with Some run have "r = Inl (OSError msg)" "w' = torn partial ?w1" by (simp_all add: step_io_def)
    with assms(1) [OF w1, of partial] show ?thesis by simp
  qed
qed

lemma leaves_atomic: "leaves P E act Q \<Longrightarrow> leaves P E (atomic_io act) Q"
  unfolding atomic_io_def by (rule leaves_step) auto

lemma leaves_exists [leaves_rules]: "leaves P E (path_exists p) (\<lambda>_. True)"
  by (rule leavesI) (auto simp: path_exists_def)

lemma leaves_unlink [leaves_rules]: "\<not> P q \<Longrightarrow> leaves P E (op_unlink q) (\<lambda>_. True)"
  unfolding op_unlink_def by (rule leaves_atomic, rule leavesI) (auto split: option.splits node.splits)

lemma leaves_replace [leaves_rules]: "\<not> P src \<Longrightarrow> \<not> P dst \<Longrightarrow> leaves P E (op_replace src dst) (\<lambda>_. True)"
  unfolding op_replace_def
  by (rule leaves_atomic, rule leavesI) (auto split: option.splits node.splits if_splits)

lemma add_dirs_keep: "file_at (add_dirs ps w) p = file_at w p \<and> w_env (add_dirs ps w) = w_env w"
  by (induction ps w rule: add_dirs.induct) (auto simp: file_at_def)

lemma leaves_mkdir [leaves_rules]: "leaves P E (op_mkdir q) (\<lambda>_. True)"
  unfolding op_mkdir_def by (rule leaves_atomic, rule leavesI) (auto simp: add_dirs_keep split: if_splits)

lemma torn_file_keep: "w_env (torn_file q partial w) = w_env w \<and> (p \<noteq> q \<longrightarrow> file_at (torn_file q partial w) p = file_at w p)"
  by (simp add: torn_file_def split: option.splits)

lemma leaves_copy2 [leaves_rules]: "\<not> P dst \<Longrightarrow> leaves P E (op_copy2 src dst) (\<lambda>_. True)"
  unfolding op_copy2_def
  by (rule leaves_step, metis torn_file_keep, rule leavesI) (auto split: option.splits node.splits if_splits)

lemma leaves_write [leaves_rules]: "\<not> P q \<Longrightarrow> leaves P E (op_write q t) (\<lambda>_. True)"
  unfolding op_write_def by (rule leaves_step, metis torn_file_keep, rule leavesI) auto

lemma leaves_read [leaves_rules]: "leaves P E (op_read q) (\<lambda>_. True)"
  unfolding op_read_def by (rule leaves_atomic, rule leavesI) (auto split: option.splits node.splits)

lemma leaves_read_text [leaves_rules]: "leaves P E (read_text q) (\<lambda>_. True)"
  unfolding read_text_def by (intro leaves_bind [OF leaves_read] leaves_return TrueI)

lemma leaves_mkstemp:
  "(\<And>k. \<not> P (dir @ [pre @ e_tmp E k @ suf])) \<Longrightarrow>
     leaves P E (op_mkstemp dir pre suf) (\<lambda>p. \<exists>k. p = dir @ [pre @ e_tmp E k @ suf])"
  unfolding op_mkstemp_def by (rule leaves_atomic, rule leavesI) (auto simp: Let_def split: if_splits)

lemma leaves_mkdtemp:
  "leaves P E (op_mkdtemp dir pre) (\<lambda>p. \<exists>k. p = dir @ [pre @ e_tmp E k])"
  unfolding op_mkdtemp_def
  by (rule leaves_atomic, rule leavesI) (auto simp: Let_def file_at_def split: if_splits)

lemma leaves_rmdir [leaves_rules]: "leaves P E (op_rmdir q) (\<lambda>_. True)"
  unfolding op_rmdir_def
  by (rule leaves_atomic, rule leavesI) (auto simp: file_at_def split: option.splits node.splits if_splits)

lemma leaves_rmtree [leaves_rules]:
  assumes "\<And>p. P p \<Longrightarrow> \<not> prefix q p"
  shows "leaves P E (op_rmtree q) (\<lambda>_. True)"
proof -
  have look: "\<not> prefix q p \<Longrightarrow> map_of (filter (\<lambda>(r, n). \<not> prefix q r) ns) p = map_of ns p"
    for p and ns :: "(fpath \<times> node) list"
    by (induction ns) auto
  show ?thesis
    by (rule leavesI)
      (use assms look in \<open>auto simp: op_rmtree_def Let_def file_at_def node_of_def split: option.splits\<close>)
qed

end
