(* ===== verification/UndoLog.thy ===== *)
theory UndoLog
  imports FileSystem
begin

section \<open>Forward passes with an undo log\<close>

text \<open>
  The shape both transactions of \<open>core/filesystem_runtime.py\<close> share: a loop that records what it
  has done and stops at the first failure, and a rollback loop over the reversed record that tries
  every entry and collects the errors. The locale states what an entry's action and its undo
  promise; the facts proved in it are used by both transactions.
\<close>

subsection \<open>The two loops\<close>

text \<open>
  A forward pass: stop at the first failure and say what was done before it. It stands for the
  lists \<open>staged_updates\<close> and \<open>committed_updates\<close> the loops of \<open>atomic_multi_write\<close> fill in.
\<close>

fun run_log :: "('i \<Rightarrow> 'o io) \<Rightarrow> 'i list \<Rightarrow> ('i \<times> 'o) list \<Rightarrow> (py_exc option \<times> ('i \<times> 'o) list) io" where
  "run_log act [] done = returnm (None, done)"
| "run_log act (x # xs) done = (\<lambda>w.
     case act x w of
       (Inl e, w') \<Rightarrow> (Inr (Some e, done), w')
     | (Inr y, w') \<Rightarrow> run_log act xs (done @ [(x, y)]) w')"

text \<open>The rollback loop over \<open>reversed(...)\<close>: errors are collected, every item is tried.\<close>

fun undo_all :: "('i \<Rightarrow> unit io) \<Rightarrow> ('i \<Rightarrow> string) \<Rightarrow> 'i list \<Rightarrow> string list io" where
  "undo_all undo label [] = returnm []"
| "undo_all undo label (x # xs) =
     bindm (catch_os (bindm (undo x) (\<lambda>_. returnm []))
              (\<lambda>e. returnm [label x @ '': '' @ os_error_text e])) (\<lambda>err.
     bindm (undo_all undo label xs) (\<lambda>errs. returnm (err @ errs)))"

subsection \<open>The contract of an undoable action\<close>

locale undo_log =
  fixes act :: "'i \<Rightarrow> 'o io" and undo :: "'i \<Rightarrow> unit io"
    and target :: "'i \<Rightarrow> fpath" and scratch :: "fpath \<Rightarrow> bool" and E :: os_env
    and good :: "'i \<Rightarrow> bool" and apart :: "'i \<Rightarrow> 'i \<Rightarrow> bool" and free_of :: "'i \<Rightarrow> 'i \<Rightarrow> bool"
    and intact :: "(fpath \<Rightarrow> string option) \<Rightarrow> 'i \<Rightarrow> world \<Rightarrow> bool"
  assumes act_leaves: "good i \<Longrightarrow> leaves (\<lambda>p. \<not> scratch p \<and> p \<noteq> target i) E (act i) (\<lambda>_. True)"
    and act_fails: "good i \<Longrightarrow> w_env w = E \<Longrightarrow> act i w = (Inl e, w') \<Longrightarrow> \<not> scratch p \<Longrightarrow>
      file_at w' p = file_at w p"
    and act_intact: "good i \<Longrightarrow> good j \<Longrightarrow> free_of i j \<Longrightarrow> w_env w = E \<Longrightarrow> intact old j w \<Longrightarrow>
      act i w = (r, w') \<Longrightarrow> intact old j w'"
    and undo_leaves: "good i \<Longrightarrow> leaves (\<lambda>p. \<not> scratch p \<and> p \<noteq> target i) E (undo i) (\<lambda>_. True)"
    and undo_restores: "good i \<Longrightarrow> w_env w = E \<Longrightarrow> intact old i w \<Longrightarrow> undo i w = (Inr u, w') \<Longrightarrow>
      file_at w' (target i) = old (target i)"
    and undo_intact: "good i \<Longrightarrow> good j \<Longrightarrow> apart i j \<Longrightarrow> w_env w = E \<Longrightarrow> intact old j w \<Longrightarrow>
      undo i w = (ru, w') \<Longrightarrow> intact old j w'"
    and undo_os: "undo i w = (Inl e, w') \<Longrightarrow> is_os_error e"
    and apart_sym: "apart i j \<Longrightarrow> apart j i"
begin

definition deviates :: "(fpath \<Rightarrow> string option) \<Rightarrow> 'i list \<Rightarrow> world \<Rightarrow> bool" where
  "deviates old xs w \<longleftrightarrow> w_env w = E \<and>
     (\<forall>p. \<not> scratch p \<longrightarrow> p \<notin> target ` set xs \<longrightarrow> file_at w p = old p)"

lemma run_log_deviates:
  assumes "\<forall>x \<in> set xs \<union> U. good x" and "\<forall>x \<in> set xs. \<forall>y \<in> U. free_of x y"
    and "deviates old (map fst done0) w" and "\<forall>y \<in> U. intact old y w"
    and "run_log act xs done0 w = (r, w')"
  shows "\<exists>err done1. r = Inr (err, done0 @ done1) \<and> prefix (map fst done1) xs \<and>
     (err = None \<longrightarrow> map fst done1 = xs) \<and>
     deviates old (map fst (done0 @ done1)) w' \<and> (\<forall>y \<in> U. intact old y w')"
  using assms
proof (induction xs arbitrary: done0 w)
  case Nil
  then show ?case by (auto simp: returnm_def)
next
  case (Cons x xs)
  have env: "w_env w = E" using Cons.prems(3) by (simp add: deviates_def)
  have gx: "good x" using Cons.prems(1) by simp
  obtain r1 w1 where run: "act x w = (r1, w1)" by (cases "act x w")
  note l = leavesD [OF act_leaves [OF gx] env run]
  have intact: "\<forall>y \<in> U. intact old y w1"
    using Cons.prems(1,2,4) act_intact [OF gx _ _ env _ run] by simp
  show ?case
  proof (cases r1)
    case (Inl e)
    have "deviates old (map fst done0) w1"
      using Cons.prems(3) act_fails [OF gx env run [unfolded Inl]] l(1) by (simp add: deviates_def)
    then show ?thesis using Cons.prems(5) run Inl intact by auto
  next
    case (Inr y)
    have dev: "deviates old (map fst (done0 @ [(x, y)])) w1"
      using Cons.prems(3) l(1,2) by (auto simp: deviates_def)
    have rest: "run_log act xs (done0 @ [(x, y)]) w1 = (r, w')" using Cons.prems(5) run Inr by simp
    have "\<exists>err done1. r = Inr (err, (done0 @ [(x, y)]) @ done1) \<and> prefix (map fst done1) xs \<and>
        (err = None \<longrightarrow> map fst done1 = xs) \<and>
        deviates old (map fst ((done0 @ [(x, y)]) @ done1)) w' \<and> (\<forall>y \<in> U. intact old y w')"
      by (rule Cons.IH [OF _ _ dev intact rest]) (use Cons.prems(1,2) in auto)
    then obtain err done1 where d: "r = Inr (err, (done0 @ [(x, y)]) @ done1)"
      "prefix (map fst done1) xs" "err = None \<longrightarrow> map fst done1 = xs"
      "deviates old (map fst ((done0 @ [(x, y)]) @ done1)) w'" "\<forall>y \<in> U. intact old y w'" by blast
    show ?thesis by (rule exI [of _ err], rule exI [of _ "(x, y) # done1"]) (use d in auto)
  qed
qed

lemma undo_all_returns: "\<exists>errs w'. undo_all undo label xs w = (Inr errs, w')"
proof (induction xs arbitrary: w)
  case (Cons x xs)
  obtain r w1 where run: "undo x w = (r, w1)" by (cases "undo x w")
  obtain errs w' where "undo_all undo label xs w1 = (Inr errs, w')" using Cons [of w1] by blast
  then show ?case
    using run undo_os [of x w] by (cases r) (auto simp: bindm_def catch_os_def returnm_def)
qed (simp add: returnm_def)

lemma undo_all_restores:
  assumes "\<forall>x \<in> set xs. good x" and "sorted_wrt apart xs"
    and "deviates old xs w" and "\<forall>x \<in> set xs. intact old x w"
    and "undo_all undo label xs w = (r, w')"
  shows "\<exists>errs. r = Inr errs \<and> w_env w' = E \<and> (errs = [] \<longrightarrow> deviates old [] w') \<and> deviates old xs w'"
  using assms
proof (induction xs arbitrary: w r)
  case Nil
  then show ?case by (auto simp: returnm_def deviates_def)
next
  case (Cons x xs)
  have env: "w_env w = E" using Cons.prems(3) by (simp add: deviates_def)
  have gx: "good x" using Cons.prems(1) by simp
  obtain r1 w1 where run: "undo x w = (r1, w1)" by (cases "undo x w")
  note l = leavesD [OF undo_leaves [OF gx] env run]
  have intact: "\<forall>y \<in> set xs. intact old y w1"
    using Cons.prems(1,2,4) undo_intact [OF gx _ _ env _ run] by simp
  obtain r2 where rest: "undo_all undo label xs w1 = (r2, w')"
    and r: "r = (case r2 of Inl e \<Rightarrow> Inl e | Inr errs \<Rightarrow>
       Inr ((case r1 of Inl e \<Rightarrow> [label x @ '': '' @ os_error_text e] | Inr _ \<Rightarrow> []) @ errs))"
    using Cons.prems(5) run undo_os [of x w]
    by (cases r1) (auto simp: bindm_def catch_os_def returnm_def split: prod.splits sum.splits)
  show ?case
  proof (cases r1)
    case (Inr u)
    have "file_at w1 (target x) = old (target x)"
      using undo_restores [OF gx env _ run [unfolded Inr]] Cons.prems(4) by simp
    then have dev: "deviates old xs w1"
      using Cons.prems(3) l(1,2) unfolding deviates_def by (metis image_insert insert_iff list.set(2))
    from Cons.IH [OF _ _ dev intact rest] Cons.prems(1,2) obtain errs where
      "r2 = Inr errs" "w_env w' = E" "errs = [] \<longrightarrow> deviates old [] w'" "deviates old xs w'" by auto
    then show ?thesis using r Inr by (auto simp: deviates_def)
  next
    case (Inl e)
    have frame: "\<And>y. y \<in> set xs \<Longrightarrow> good y" "sorted_wrt apart xs" using Cons.prems(1,2) by auto
    let ?old = "\<lambda>p. if p = target x then file_at w1 p else old p"
    have keep: "leaves (\<lambda>p. \<not> scratch p \<and> p \<notin> target ` set xs) E (undo_all undo label xs) (\<lambda>_. True)"
      using frame(1)
    proof (induction xs)
      case (Cons y ys)
      have *: "leaves (\<lambda>p. \<not> scratch p \<and> p \<notin> target ` set (y # ys)) E (undo y) (\<lambda>_. True)"
        by (rule leaves_weaken [OF undo_leaves]) (use Cons.prems in auto)
      have "leaves (\<lambda>p. \<not> scratch p \<and> p \<notin> target ` set (y # ys)) E (undo_all undo label ys) (\<lambda>_. True)"
        by (rule leaves_weaken [OF Cons.IH]) (use Cons.prems in auto)
      then show ?case unfolding undo_all.simps
        by (intro leaves_bind [where R = "\<lambda>_. True"] leaves_catch * leaves_return TrueI)
    qed (simp add: leaves_return)
    note k = leavesD [OF keep l(1) rest]
    have "deviates old (x # xs) w'"
      using Cons.prems(3) l(2) k by (auto simp: deviates_def)
    moreover obtain errs where "r2 = Inr errs" using undo_all_returns [of label xs w1] rest by auto
    ultimately show ?thesis using r Inl k(1) by simp
  qed
qed

lemma rollback_restores:
  assumes "\<forall>x \<in> set xs. good x" and "\<forall>x \<in> set xs. \<forall>y \<in> set xs. free_of x y" and "sorted_wrt apart xs"
    and "deviates old [] w" and "\<forall>x \<in> set xs. intact old x w"
    and "run_log act xs [] w = (Inr (err, done), w1)"
    and "undo_all undo label (rev (map fst done)) w1 = (r, w2)"
  shows "\<exists>errs. r = Inr errs \<and> w_env w2 = E \<and> (errs = [] \<longrightarrow> deviates old [] w2)"
proof -
  from run_log_deviates [OF _ assms(2) _ assms(5,6)] assms(1,4)
  have pre: "prefix (map fst done) xs" and dev: "deviates old (map fst done) w1"
    and intact: "\<forall>y \<in> set xs. intact old y w1" by auto
  from pre obtain rest where xs: "xs = map fst done @ rest" by (auto simp: prefix_def)
  have apart: "sorted_wrt apart (rev (map fst done))"
    using assms(3) apart_sym unfolding xs by (auto simp: sorted_wrt_append sorted_wrt_rev elim: sorted_wrt_mono_rel [rotated])
  have "deviates old (rev (map fst done)) w1" using dev by (simp add: deviates_def)
  from undo_all_restores [OF _ apart this _ assms(7)] assms(1) intact
  show ?thesis unfolding xs by auto
qed

end

end
