(* ===== verification/JsonText.thy ===== *)
theory JsonText
  imports PyText
begin

section \<open>JSON text\<close>

text \<open>
  \<open>json.dumps(value, ensure_ascii=False, ...)\<close> as the source calls it: with \<open>indent=2\<close> for reports
  and with \<open>sort_keys=True, separators=(",", ":")\<close> for canonical digests. A float is written by the
  text it carries.
\<close>

definition json_char :: "char \<Rightarrow> string" where
  "json_char c =
     (let n = (of_char c :: nat) in
      if c = CHR 0x22 \<or> c = CHR 0x5C then [CHR 0x5C, c]
      else if n = 10 then [CHR 0x5C, CHR ''n'']
      else if n = 13 then [CHR 0x5C, CHR ''r'']
      else if n = 9 then [CHR 0x5C, CHR ''t'']
      else if n = 12 then [CHR 0x5C, CHR ''f'']
      else if n = 8 then [CHR 0x5C, CHR ''b'']
      else if n < 32 then [CHR 0x5C] @ ''u00'' @ [hex_digit (n div 16), hex_digit (n mod 16)]
      else [c])"

definition json_string :: "string \<Rightarrow> string" where
  "json_string s = [CHR 0x22] @ concat (map json_char s) @ [CHR 0x22]"

text \<open>The layout: \<open>None\<close> is the compact form, \<open>Some n\<close> the indented form at column \<open>n\<close>.\<close>

definition json_line :: "nat \<Rightarrow> string" where
  "json_line n = CHR 0x0A # replicate n (CHR '' '')"

definition json_wrap :: "char \<Rightarrow> char \<Rightarrow> nat option \<Rightarrow> string list \<Rightarrow> string" where
  "json_wrap opening closing layout items =
     (if items = [] then [opening, closing]
      else case layout of
        None \<Rightarrow> [opening] @ py_join '','' items @ [closing]
      | Some n \<Rightarrow> [opening] @ json_line (n + 2) @ py_join ('','' @ json_line (n + 2)) items @
                  json_line n @ [closing])"

definition json_colon :: "nat option \<Rightarrow> string" where
  "json_colon layout = (case layout of None \<Rightarrow> '':'' | Some _ \<Rightarrow> '': '')"

definition json_inner :: "nat option \<Rightarrow> nat option" where
  "json_inner layout = map_option (\<lambda>n. n + 2) layout"

definition json_items :: "bool \<Rightarrow> (string \<times> 'v) list \<Rightarrow> (string \<times> 'v) list" where
  "json_items sorted_keys d = (if sorted_keys then sort_key fst d else d)"

lemma set_json_items [simp]: "set (json_items b d) = set d"
  by (simp add: json_items_def)

function json_text :: "bool \<Rightarrow> nat option \<Rightarrow> pyval \<Rightarrow> string" where
  "json_text sk layout PyNone = ''null''"
| "json_text sk layout (PyBool b) = bool_lower b"
| "json_text sk layout (PyInt n) = int_text n"
| "json_text sk layout (PyFloat t r) = t"
| "json_text sk layout (PyStr s) = json_string s"
| "json_text sk layout (PyList xs) =
     json_wrap (CHR ''['') (CHR '']'') layout (map (json_text sk (json_inner layout)) xs)"
| "json_text sk layout (PyDict d) =
     json_wrap (CHR ''{'') (CHR ''}'') layout
       (map (\<lambda>kv. json_string (fst kv) @ json_colon layout @ json_text sk (json_inner layout) (snd kv))
         (json_items sk d))"
  by pat_completeness auto
termination
proof (relation "measure (\<lambda>(sk, layout, v). size v)", goal_cases)
  case (2 sk layout xs x)
  then show ?case by (induction xs) auto
next
  case (3 sk layout d kv)
  then have "kv \<in> set d" by simp
  then show ?case by (induction d) (auto split: prod.splits)
qed simp

definition json_indented :: "pydict \<Rightarrow> string" where
  "json_indented d = json_text False (Some 0) (PyDict d)"

definition json_canonical :: "pyval \<Rightarrow> string" where
  "json_canonical v = json_text True None v"

end
