(* ===== verification/AtomicFiles.thy ===== *)
theory AtomicFiles
  imports UndoLog JsonText
begin

section \<open>Atomic file updates\<close>

text \<open>
  The write half of \<open>core/filesystem_runtime.py\<close>: staging, replacing and restoring text files,
  \<open>atomic_write_text\<close>, the duplicate-target check and the all-or-nothing \<open>atomic_multi_write\<close>,
  and the single-file replacement with a backup.
\<close>

subsection \<open>Staging and replacing\<close>

record text_update =
  u_path :: fpath
  u_text :: string

definition existing_text_or_none :: "fpath \<Rightarrow> string option io" where
  "existing_text_or_none p =
     bindm (path_exists p) (\<lambda>b.
       if \<not> b then returnm None else bindm (read_text p) (\<lambda>t. returnm (Some t)))"

definition stage_prefix :: "fpath \<Rightarrow> string" where
  "stage_prefix p = ''.'' @ last p @ ''.''"

definition cleanup_staged_file :: "fpath option \<Rightarrow> unit io" where
  "cleanup_staged_file p = (case p of None \<Rightarrow> returnm () | Some q \<Rightarrow> ignore_missing (op_unlink q))"

text \<open>A failed write removes the staged file and raises again.\<close>

definition reraise_after :: "'a io \<Rightarrow> unit io \<Rightarrow> 'a io" where
  "reraise_after m c = (\<lambda>w. case m w of
      (Inl e, w') \<Rightarrow> (case c w' of (Inl e', w'') \<Rightarrow> (Inl e', w'') | (Inr _, w'') \<Rightarrow> (Inl e, w''))
    | (Inr x, w') \<Rightarrow> (Inr x, w'))"

definition stage_atomic_text :: "fpath \<Rightarrow> string \<Rightarrow> fpath io" where
  "stage_atomic_text p text =
     bindm (op_mkdir (butlast p)) (\<lambda>_.
     bindm (op_mkstemp (butlast p) (stage_prefix p) ''.tmp'') (\<lambda>staged.
     bindm (reraise_after (op_write staged text) (ignore_missing (op_unlink staged))) (\<lambda>_.
       returnm staged)))"

definition restore_text_update :: "fpath \<Rightarrow> string option \<Rightarrow> unit io" where
  "restore_text_update p original =
     (case original of
        None \<Rightarrow> ignore_missing (op_unlink p)
      | Some t \<Rightarrow> bindm (stage_atomic_text p t) (\<lambda>staged.
          finallym (op_replace staged p) (cleanup_staged_file (Some staged))))"

text \<open>
  \<open>atomic_write_text\<close>: the \<open>finally\<close> clause sees \<open>staged_path\<close> only when staging succeeded.
\<close>

definition transaction_error :: "py_exc \<Rightarrow> 'a io" where
  "transaction_error e = raisem (FilesystemTransactionError (os_error_text e))"

definition atomic_write_text :: "fpath \<Rightarrow> string \<Rightarrow> fpath io" where
  "atomic_write_text p text =
     bindm (catch_os (stage_atomic_text p text) transaction_error) (\<lambda>staged.
     bindm (finallym (catch_os (op_replace staged p) transaction_error)
              (cleanup_staged_file (Some staged))) (\<lambda>_.
       returnm p))"

definition atomic_write_json :: "fpath \<Rightarrow> pydict \<Rightarrow> fpath io" where
  "atomic_write_json p payload = atomic_write_text p (json_indented payload)"

subsection \<open>Duplicate targets\<close>

text \<open>\<open>_canonical_atomic_target\<close>: \<open>os.path.normcase\<close> is the identity on POSIX.\<close>

definition canonical_atomic_target :: "os_env \<Rightarrow> fpath \<Rightarrow> string" where
  "canonical_atomic_target E p = path_text (e_resolve E p)"

definition duplicate_targets :: "os_env \<Rightarrow> text_update list \<Rightarrow> string list" where
  "duplicate_targets E us =
     py_sorted_set (map (\<lambda>u. path_text (u_path u))
       (filter (\<lambda>u. 1 < length (filter (\<lambda>v. canonical_atomic_target E (u_path v) =
                                           canonical_atomic_target E (u_path u)) us)) us))"

definition build_atomic_text_updates :: "text_update list \<Rightarrow> text_update list io" where
  "build_atomic_text_updates us = (\<lambda>w.
     let dups = duplicate_targets (w_env w) us
     in if dups \<noteq> []
        then (Inl (FilesystemTransactionError
                (''atomic_multi_write received duplicate target paths: '' @ py_join '', '' dups)), w)
        else (Inr us, w))"

subsection \<open>Writing several files\<close>

record write_state =
  ws_path :: fpath
  ws_text :: string
  ws_original :: "string option"

definition write_state_of :: "text_update \<Rightarrow> write_state io" where
  "write_state_of u = bindm (existing_text_or_none (u_path u)) (\<lambda>t.
     returnm \<lparr>ws_path = u_path u, ws_text = u_text u, ws_original = t\<rparr>)"

definition rollback_detail :: "py_exc \<Rightarrow> string list \<Rightarrow> string" where
  "rollback_detail e errs =
     (if errs = [] then os_error_text e
      else os_error_text e @ '' | rollback issues: '' @ py_join ''; '' errs)"

text \<open>
  \<open>atomic_multi_write\<close>. A committed update has \<open>staged_path\<close> set to \<open>None\<close>, so the staged files
  still to be removed are those of the updates after the last committed one.
\<close>

definition commit_update :: "write_state \<times> fpath \<Rightarrow> unit io" where
  "commit_update u = op_replace (snd u) (ws_path (fst u))"

definition restore_update :: "write_state \<times> fpath \<Rightarrow> unit io" where
  "restore_update u = restore_text_update (ws_path (fst u)) (ws_original (fst u))"

definition update_label :: "write_state \<times> fpath \<Rightarrow> string" where
  "update_label u = path_text (ws_path (fst u))"

definition cleanup_updates :: "(write_state \<times> fpath) list \<Rightarrow> unit io" where
  "cleanup_updates us = eachm (\<lambda>u. cleanup_staged_file (Some (snd u))) us"

text \<open>The \<open>except\<close> and \<open>finally\<close> clauses.\<close>

definition settle_write ::
  "py_exc option \<Rightarrow> (write_state \<times> fpath) list \<Rightarrow> (write_state \<times> fpath) list \<Rightarrow> unit io" where
  "settle_write err committed pending =
     finallym
       (case err of
          None \<Rightarrow> returnm ()
        | Some e \<Rightarrow>
            if is_os_error e
            then bindm (undo_all restore_update update_label (rev committed)) (\<lambda>errs.
                 bindm (cleanup_updates pending) (\<lambda>_.
                   raisem (FilesystemTransactionError (rollback_detail e errs))))
            else raisem e)
       (cleanup_updates pending)"

definition write_staged :: "write_state list \<Rightarrow> unit io" where
  "write_staged states =
     bindm (run_log (\<lambda>s. stage_atomic_text (ws_path s) (ws_text s)) states []) (\<lambda>(err, staged).
       case err of
         Some e \<Rightarrow> settle_write (Some e) [] staged
       | None \<Rightarrow> bindm (run_log commit_update staged []) (\<lambda>(err', committed).
           settle_write err' (map fst committed) (drop (length committed) staged)))"

definition atomic_multi_write :: "text_update list \<Rightarrow> unit io" where
  "atomic_multi_write updates =
     bindm (build_atomic_text_updates updates) (\<lambda>us.
     bindm (mapm write_state_of us) write_staged)"

subsection \<open>Replacing one file with a backup\<close>

definition attempt :: "'a io \<Rightarrow> 'a res io" where
  "attempt m = (\<lambda>w. case m w of (r, w') \<Rightarrow> (Inr r, w'))"

text \<open>The \<open>try\<close> block: its outcome and the value \<open>backup_path\<close> has when it ends.\<close>

definition replace_attempt :: "fpath \<Rightarrow> fpath \<Rightarrow> fpath \<Rightarrow> (unit res \<times> fpath option) io" where
  "replace_attempt src dst staged =
     bindm (attempt (op_copy2 src staged)) (\<lambda>r1. case r1 of
       Inl e \<Rightarrow> returnm (Inl e, None)
     | Inr _ \<Rightarrow>
         bindm (path_exists dst) (\<lambda>present.
           if \<not> present
           then bindm (attempt (op_replace staged dst)) (\<lambda>r. returnm (r, None))
           else bindm (attempt (op_mkstemp (butlast dst) (stage_prefix dst) ''.bak'')) (\<lambda>r2. case r2 of
                  Inl e \<Rightarrow> returnm (Inl e, None)
                | Inr backup \<Rightarrow>
                    bindm (attempt (bindm (op_copy2 dst backup) (\<lambda>_. op_replace staged dst)))
                      (\<lambda>r. returnm (r, Some backup)))))"

definition restore_backup :: "fpath \<Rightarrow> fpath option \<Rightarrow> unit io" where
  "restore_backup dst backup =
     (case backup of
        None \<Rightarrow> returnm ()
      | Some b \<Rightarrow> bindm (path_exists b) (\<lambda>present.
          if present then catch_os (op_replace b dst) (\<lambda>_. returnm ()) else returnm ()))"

definition stage_replace_file :: "fpath \<Rightarrow> fpath \<Rightarrow> unit io" where
  "stage_replace_file src dst =
     bindm (op_mkdir (butlast dst)) (\<lambda>_.
     bindm (op_mkstemp (butlast dst) (stage_prefix dst) ''.tmp'') (\<lambda>staged.
     bindm (replace_attempt src dst staged) (\<lambda>(r, backup).
       finallym
         (case r of
            Inr _ \<Rightarrow> returnm ()
          | Inl e \<Rightarrow>
              if is_os_error e
              then bindm (restore_backup dst backup) (\<lambda>_. transaction_error e)
              else raisem e)
         (bindm (cleanup_staged_file (Some staged)) (\<lambda>_. cleanup_staged_file backup)))))"

subsection \<open>Frames and values of the building blocks\<close>

text \<open>The paths that staging may create.\<close>

definition temp_path :: "os_env \<Rightarrow> fpath \<Rightarrow> bool" where
  "temp_path E p \<longleftrightarrow> (\<exists>dir name k. p = dir @ [''.'' @ name @ ''.'' @ e_tmp E k @ ''.tmp''])"

lemma temp_path_stage: "temp_path E (butlast p @ [stage_prefix p @ e_tmp E k @ ''.tmp''])"
  unfolding temp_path_def stage_prefix_def by (intro exI) simp

lemma leaves_cleanup: "(\<And>q. p = Some q \<Longrightarrow> \<not> P q) \<Longrightarrow> leaves P E (cleanup_staged_file p) (\<lambda>_. True)"
  unfolding cleanup_staged_file_def
  by (cases p) (auto intro!: leaves_return leaves_ignore leaves_unlink)

lemma leaves_reraise:
  assumes "leaves P E m Q" and "leaves P E c (\<lambda>_. True)"
  shows "leaves P E (reraise_after m c) Q"
proof (rule leavesI)
  fix w r w' assume w: "w_env w = E" and run: "reraise_after m c w = (r, w')"
  obtain r1 w1 where 1: "m w = (r1, w1)" by (cases "m w")
  note d = leavesD [OF assms(1) w 1]
  show "w_env w' = E \<and> (\<forall>p. P p \<longrightarrow> file_at w' p = file_at w p) \<and> (\<forall>x. r = Inr x \<longrightarrow> Q x)"
  proof (cases r1)
    case (Inr x)
    then show ?thesis using run 1 d by (simp add: reraise_after_def)
  next
    case (Inl e)
    obtain r2 w2 where 2: "c w1 = (r2, w2)" by (cases "c w1")
    have "w' = w2 \<and> (\<forall>x. r \<noteq> Inr x)" using run 1 2 Inl by (auto simp: reraise_after_def split: sum.splits)
    then show ?thesis using leavesD [OF assms(2) d(1) 2] d(2) by auto
  qed
qed

lemma leaves_stage:
  assumes "\<And>q. P q \<Longrightarrow> \<not> temp_path E q"
  shows "leaves P E (stage_atomic_text p t) (temp_path E)"
proof -
  have temp: "\<not> P q" if "\<exists>k. q = butlast p @ [stage_prefix p @ e_tmp E k @ ''.tmp'']" for q
    using assms temp_path_stage that by blast
  show ?thesis unfolding stage_atomic_text_def
    by (rule leaves_bind [OF leaves_mkdir], rule leaves_bind [OF leaves_mkstemp])
      (use temp temp_path_stage in \<open>auto intro!: leaves_bind [where R = "\<lambda>_. True"] leaves_reraise leaves_write
         leaves_ignore leaves_unlink leaves_return\<close>)
qed

lemma leaves_restore:
  assumes "\<And>q. P q \<Longrightarrow> \<not> temp_path E q" and "\<not> P p"
  shows "leaves P E (restore_text_update p t) (\<lambda>_. True)"
proof (cases t)
  case None
  then show ?thesis using assms by (auto simp: restore_text_update_def intro!: leaves_ignore leaves_unlink)
next
  case (Some a)
  have "leaves P E (finallym (op_replace q p) (cleanup_staged_file (Some q))) (\<lambda>_. True)"
    if "temp_path E q" for q
    using that assms by (intro leaves_finally leaves_replace leaves_cleanup) auto
  with Some show ?thesis
    by (auto simp: restore_text_update_def intro!: leaves_bind [OF leaves_stage [OF assms(1)]])
qed

lemma atomic_io_Inr:
  assumes "atomic_io act w = (Inr x, w')"
  shows "act (w\<lparr>w_clock := Suc (w_clock w)\<rparr>) = (Inr x, w')"
  using assms by (auto simp: atomic_io_def step_io_def Let_def split: option.splits)

lemma atomic_io_Inl:
  assumes "atomic_io act w = (Inl e, w')"
  shows "(\<exists>msg. e = OSError msg) \<and> w' = w\<lparr>w_clock := Suc (w_clock w)\<rparr> \<or>
    act (w\<lparr>w_clock := Suc (w_clock w)\<rparr>) = (Inl e, w')"
  using assms by (auto simp: atomic_io_def step_io_def Let_def split: option.splits)

lemma replace_Inr:
  assumes "op_replace src dst w = (Inr u, w')"
  shows "\<exists>t. file_at w src = Some t \<and>
    (\<forall>p. file_at w' p = (if p = dst then Some t else if p = src then None else file_at w p))"
  using atomic_io_Inr [OF assms [unfolded op_replace_def]]
  by (auto simp: file_at_def split: option.splits node.splits if_splits)

lemma replace_Inl: "op_replace src dst w = (Inl e, w') \<Longrightarrow> is_os_error e \<and> file_at w' p = file_at w p"
  unfolding op_replace_def
  by (drule atomic_io_Inl)
    (auto simp: no_such_file_def is_a_directory_def split: option.splits node.splits if_splits)

lemma unlink_Inr: "op_unlink q w = (Inr u, w') \<Longrightarrow> file_at w' p = (if p = q then None else file_at w p)"
  unfolding op_unlink_def by (drule atomic_io_Inr) (auto split: option.splits node.splits)

lemma ignore_unlink_Inr:
  assumes "ignore_missing (op_unlink q) w = (Inr u, w')"
  shows "file_at w' p = (if p = q then None else file_at w p)"
proof (cases "op_unlink q w")
  case (Pair r w1)
  show ?thesis
  proof (cases r)
    case (Inr u')
    then show ?thesis using assms Pair unlink_Inr [of q w] by (simp add: ignore_missing_def)
  next
    case (Inl e)
    then obtain t where e: "e = FileNotFoundError t" and w1: "w1 = w'"
      using assms Pair by (auto simp: ignore_missing_def split: py_exc.splits)
    have "node_of w q = None \<and> file_at w' p = file_at w p"
      using Pair unfolding Inl e w1 op_unlink_def
      by (auto dest!: atomic_io_Inl simp: is_a_directory_def split: option.splits node.splits)
    then show ?thesis by (simp add: file_at_def)
  qed
qed

subsection \<open>Only operating-system errors\<close>

definition only_os :: "'a io \<Rightarrow> bool" where
  "only_os m \<longleftrightarrow> (\<forall>w e w'. m w = (Inl e, w') \<longrightarrow> is_os_error e)"

lemma only_os_combinators [intro]:
  "only_os (returnm x)"
  "only_os m \<Longrightarrow> (\<And>x. only_os (f x)) \<Longrightarrow> only_os (bindm m f)"
  "only_os m \<Longrightarrow> only_os c \<Longrightarrow> only_os (finallym m c)"
  "only_os m \<Longrightarrow> only_os c \<Longrightarrow> only_os (reraise_after m c)"
  "only_os u \<Longrightarrow> only_os (ignore_missing u)"
  by (fastforce simp: only_os_def returnm_def bindm_def finallym_def reraise_after_def ignore_missing_def
      split: prod.splits sum.splits py_exc.splits)+

lemma only_os_step: "only_os act \<Longrightarrow> only_os (step_io torn act)" "only_os act \<Longrightarrow> only_os (atomic_io act)"
  by (auto simp: only_os_def step_io_def atomic_io_def Let_def split: option.splits)

lemma only_os_ops [intro]:
  "only_os (op_unlink q)" "only_os (op_replace q p)" "only_os (op_mkdir q)" "only_os (op_write q t)"
  "only_os (op_mkstemp d a b)" "only_os (op_copy2 q p)" "only_os (path_exists q)" "only_os (op_rmdir q)"
  unfolding op_unlink_def op_replace_def op_mkdir_def op_write_def op_mkstemp_def op_copy2_def op_rmdir_def
  by (auto simp: only_os_def step_io_def atomic_io_def no_such_file_def is_a_directory_def no_free_name_def
      path_exists_def Let_def split: option.splits node.splits if_splits)

lemma only_os_stage: "only_os (stage_atomic_text p t)"
  unfolding stage_atomic_text_def by blast

lemma only_os_restore: "only_os (restore_text_update p t)"
  unfolding restore_text_update_def cleanup_staged_file_def
  by (cases t) (auto intro!: only_os_combinators only_os_ops only_os_stage)

subsection \<open>Staged files hold their text\<close>

lemma bindm_Inr:
  assumes "bindm m f w = (Inr y, w')"
  obtains x w1 where "m w = (Inr x, w1)" and "f x w1 = (Inr y, w')"
  using assms by (auto simp: bindm_def split: prod.splits sum.splits)

lemma bindm_Inl:
  assumes "bindm m f w = (Inl e, w')"
  obtains "m w = (Inl e, w')" | x w1 where "m w = (Inr x, w1)" and "f x w1 = (Inl e, w')"
  using assms by (auto simp: bindm_def split: prod.splits sum.splits)

lemma finallym_Inr:
  assumes "finallym m c w = (Inr y, w')"
  obtains w1 u where "m w = (Inr y, w1)" and "c w1 = (Inr u, w')"
  using assms by (auto simp: finallym_def split: prod.splits sum.splits)

lemma returnm_eq [simp]: "returnm x w = (r, w') \<longleftrightarrow> r = Inr x \<and> w' = w"
  by (auto simp: returnm_def)

lemma raisem_eq [simp]: "raisem e w = (r, w') \<longleftrightarrow> r = Inl e \<and> w' = w"
  by (auto simp: raisem_def)

lemma mkdir_keeps:
  assumes "op_mkdir q w = (r, w')"
  shows "w_env w' = w_env w \<and> file_at w' p = file_at w p"
  using leavesD [OF leaves_mkdir [of "\<lambda>_. True"] refl assms] by simp

lemma mkstemp_Inr:
  assumes "op_mkstemp d a b w = (Inr q, w')"
  shows "file_at w q = None \<and> w_env w' = w_env w \<and>
    (\<forall>x. file_at w' x = (if x = q then Some [] else file_at w x)) \<and> (\<exists>k. q = d @ [a @ e_tmp (w_env w) k @ b])"
  using atomic_io_Inr [OF assms [unfolded op_mkstemp_def]]
  by (auto simp: Let_def file_at_def split: if_splits)

lemma write_Inr:
  assumes "op_write q t w = (Inr u, w')"
  shows "w_env w' = w_env w \<and> file_at w' x = (if x = q then Some t else file_at w x)"
  using assms by (auto simp: op_write_def step_io_def Let_def split: option.splits)

lemma stage_Inr:
  assumes "stage_atomic_text p t w = (Inr q, w')"
  shows "w_env w' = w_env w \<and> file_at w q = None \<and> temp_path (w_env w) q \<and>
    (\<forall>x. file_at w' x = (if x = q then Some t else file_at w x))"
proof -
  obtain u w1 w2 w3 v where 1: "op_mkdir (butlast p) w = (Inr u, w1)"
    and 2: "op_mkstemp (butlast p) (stage_prefix p) ''.tmp'' w1 = (Inr q, w2)"
    and 3: "reraise_after (op_write q t) (ignore_missing (op_unlink q)) w2 = (Inr v, w3)" and w': "w' = w3"
    using assms unfolding stage_atomic_text_def by (auto elim!: bindm_Inr)
  have "op_write q t w2 = (Inr v, w3)"
    using 3 by (auto simp: reraise_after_def split: prod.splits sum.splits)
  note facts = write_Inr [OF this] mkstemp_Inr [OF 2] mkdir_keeps [OF 1]
  then show ?thesis using temp_path_stage [of "w_env w" p] w' by auto
qed

lemma cleanup_Inr:
  assumes "cleanup_staged_file (Some q) w = (r, w')"
  shows "w_env w' = w_env w \<and> (x \<noteq> q \<longrightarrow> file_at w' x = file_at w x)"
  using leavesD [OF leaves_cleanup [of "Some q" "\<lambda>x. x \<noteq> q"] refl assms] by simp

lemma restore_Inr:
  assumes "\<not> temp_path (w_env w) p" and "restore_text_update p t w = (Inr u, w')"
  shows "file_at w' p = t"
proof (cases t)
  case None
  then show ?thesis using assms(2) ignore_unlink_Inr [of p w u w' p] by (simp add: restore_text_update_def)
next
  case (Some a)
  then obtain q w1 where 1: "stage_atomic_text p a w = (Inr q, w1)"
    and 2: "finallym (op_replace q p) (cleanup_staged_file (Some q)) w1 = (Inr u, w')"
    using assms(2) by (auto simp: restore_text_update_def elim!: bindm_Inr)
  from 2 obtain w2 v where 3: "op_replace q p w1 = (Inr u, w2)" and 4: "cleanup_staged_file (Some q) w2 = (Inr v, w')"
    by (rule finallym_Inr)
  note s = stage_Inr [OF 1]
  then have "p \<noteq> q" using assms(1) by auto
  then show ?thesis using replace_Inr [OF 3] cleanup_Inr [OF 4, of p] s Some by auto
qed

text \<open>Whether a restore returns or not, the target keeps its content or has the one to restore.\<close>

lemma unlink_Inl: "op_unlink q w = (Inl e, w') \<Longrightarrow> file_at w' p = file_at w p"
  unfolding op_unlink_def by (drule atomic_io_Inl) (auto split: option.splits node.splits)

lemma restore_choice:
  assumes plain: "\<not> temp_path (w_env w) p" and run: "restore_text_update p t w = (r, w')"
  shows "file_at w' p \<in> {file_at w p, t}"
proof (cases t)
  case None
  then show ?thesis
    using run unlink_Inl [of p w] restore_Inr [OF plain, of t] 
    by (cases r; cases "op_unlink p w")
      (auto simp: restore_text_update_def ignore_missing_def split: sum.splits py_exc.splits)
next
  case (Some a)
  obtain r1 w1 where 1: "stage_atomic_text p a w = (r1, w1)" by (cases "stage_atomic_text p a w")
  have l: "leaves (\<lambda>q. \<not> temp_path (w_env w) q) (w_env w) (stage_atomic_text p a) (temp_path (w_env w))"
    by (rule leaves_stage) simp
  note w1 = leavesD(2) [OF l refl 1 plain]
  show ?thesis
  proof (cases r1)
    case (Inl e)
    then have "w' = w1" using run 1 Some by (simp add: restore_text_update_def bindm_def)
    then show ?thesis using w1 by simp
  next
    case (Inr q)
    note st = stage_Inr [OF 1 [unfolded Inr]]
    have pq: "p \<noteq> q" using st plain by auto
    obtain r2 w2 where 2: "op_replace q p w1 = (r2, w2)" by (cases "op_replace q p w1")
    obtain r3 w3 where 3: "cleanup_staged_file (Some q) w2 = (r3, w3)" by (cases "cleanup_staged_file (Some q) w2")
    have "w' = w3"
      using run 1 Inr 2 3 Some
      by (simp add: restore_text_update_def bindm_def finallym_def split: sum.splits)
    then have "file_at w' p = file_at w2 p" using cleanup_Inr [OF 3, of p] pq by simp
    then show ?thesis
      using replace_Inl [of q p w1 _ w2 p] replace_Inr [of q p w1 _ w2] 2 st w1 Some by (cases r2) auto
  qed
qed

subsection \<open>The undo log of a multi-file write\<close>

lemma restore_leaves_update:
  "\<not> temp_path E (ws_path (fst i)) \<Longrightarrow>
     leaves (\<lambda>p. \<not> temp_path E p \<and> p \<noteq> ws_path (fst i)) E (restore_update i) (\<lambda>_. True)"
  unfolding restore_update_def by (rule leaves_restore) auto

lemma commit_leaves_update:
  "temp_path E (snd i) \<Longrightarrow>
     leaves (\<lambda>p. \<not> temp_path E p \<and> p \<noteq> ws_path (fst i)) E (commit_update i) (\<lambda>_. True)"
  unfolding commit_update_def by (rule leaves_replace) auto

definition fit_update :: "os_env \<Rightarrow> write_state \<times> fpath \<Rightarrow> bool" where
  "fit_update E u \<longleftrightarrow> \<not> temp_path E (ws_path (fst u)) \<and> temp_path E (snd u)"

interpretation multi_write: undo_log commit_update restore_update "\<lambda>u. ws_path (fst u)" "temp_path E" E
  "fit_update E" "\<lambda>_ _. True" "\<lambda>_ _. True" "\<lambda>old u w. ws_original (fst u) = old (ws_path (fst u))" for E
proof (unfold_locales, goal_cases)
  case (1 i)
  then show ?case by (auto simp: fit_update_def intro: commit_leaves_update)
next
  case (2 i w e w' p)
  then show ?case using replace_Inl by (simp add: commit_update_def)
next
  case (4 i)
  then show ?case by (auto simp: fit_update_def intro: restore_leaves_update)
next
  case (5 i w old u w')
  then show ?case using restore_Inr [of w] by (simp add: restore_update_def fit_update_def)
next
  case (7 i w e w')
  then show ?case using only_os_restore unfolding only_os_def restore_update_def by blast
qed simp_all

subsection \<open>Successful passes\<close>

lemma run_log_success:
  assumes "run_log act xs done0 w = (Inr (None, done), w')"
  shows "\<exists>ys. mapm act xs w = (Inr ys, w') \<and> done = done0 @ zip xs ys \<and> length ys = length xs"
  using assms
proof (induction xs arbitrary: done0 w)
  case (Cons x xs)
  obtain y w1 where 1: "act x w = (Inr y, w1)" and 2: "run_log act xs (done0 @ [(x, y)]) w1 = (Inr (None, done), w')"
    using Cons.prems by (auto split: prod.splits sum.splits)
  from Cons.IH [OF 2] obtain ys where "mapm act xs w1 = (Inr ys, w')" "done = (done0 @ [(x, y)]) @ zip xs ys"
    "length ys = length xs" by blast
  with 1 show ?case by (intro exI [of _ "y # ys"]) (simp add: bindm_def)
qed simp

text \<open>A pass is its successful part, followed by the action that failed.\<close>

lemma run_log_stops:
  assumes "run_log act xs done0 w = (Inr (err, done), w')"
  shows "\<exists>n ys v. mapm act (take n xs) w = (Inr ys, v) \<and> done = done0 @ zip (take n xs) ys \<and>
     length ys = length (take n xs) \<and> (w' = v \<or> (\<exists>x e. act x v = (Inl e, w')))"
  using assms
proof (induction xs arbitrary: done0 w)
  case (Cons x xs)
  obtain r w1 where 1: "act x w = (r, w1)" by (cases "act x w")
  show ?case
  proof (cases r)
    case (Inl e)
    then show ?thesis using Cons.prems 1 by (intro exI [of _ 0]) auto
  next
    case (Inr y)
    then have "run_log act xs (done0 @ [(x, y)]) w1 = (Inr (err, done), w')" using Cons.prems 1 by simp
    from Cons.IH [OF this] obtain n ys v where "mapm act (take n xs) w1 = (Inr ys, v)"
      "done = (done0 @ [(x, y)]) @ zip (take n xs) ys" "length ys = length (take n xs)"
      "w' = v \<or> (\<exists>x e. act x v = (Inl e, w'))" by blast
    then show ?thesis
      using 1 Inr by (intro exI [of _ "Suc n"] exI [of _ "y # ys"] exI [of _ v]) (simp add: bindm_def)
  qed
qed (auto intro: exI [of _ 0])

lemma run_log_returns: "\<exists>err done w'. run_log act xs done0 w = (Inr (err, done), w')"
proof (induction xs arbitrary: done0 w)
  case (Cons x xs)
  then show ?case by (cases "act x w") (auto split: sum.splits)
qed simp

lemma staged_all:
  assumes "mapm (\<lambda>s. stage_atomic_text (ws_path s) (ws_text s)) ss w = (Inr qs, w')"
  shows "w_env w' = w_env w \<and> length qs = length ss \<and> distinct qs \<and>
    (\<forall>q \<in> set qs. file_at w q = None \<and> temp_path (w_env w) q) \<and>
    (\<forall>x. x \<notin> set qs \<longrightarrow> file_at w' x = file_at w x) \<and>
    list_all2 (\<lambda>s q. file_at w' q = Some (ws_text s)) ss qs"
  using assms
proof (induction ss arbitrary: w qs)
  case (Cons s ss)
  obtain q w1 rs where 1: "stage_atomic_text (ws_path s) (ws_text s) w = (Inr q, w1)"
    and 2: "mapm (\<lambda>s. stage_atomic_text (ws_path s) (ws_text s)) ss w1 = (Inr rs, w')" and qs: "qs = q # rs"
    using Cons.prems by (auto elim!: bindm_Inr)
  note s = stage_Inr [OF 1]
  note r = Cons.IH [OF 2]
  have fresh: "q \<notin> set rs" using s r by (metis option.distinct(1))
  have "file_at w' q = Some (ws_text s)" using fresh s r by metis
  moreover have "\<forall>q \<in> set rs. file_at w q = None" using s r by (metis option.distinct(1))
  ultimately show ?case using s r fresh by (auto simp: qs)
qed simp

lemma commit_all:
  assumes "mapm commit_update us w = (Inr vs, w')"
    and "distinct (map snd us)" and "distinct (map (\<lambda>u. ws_path (fst u)) us)"
    and "\<forall>u \<in> set us. fit_update E u \<and> file_at w (snd u) = Some (ws_text (fst u))"
  shows "(\<forall>u \<in> set us. file_at w' (ws_path (fst u)) = Some (ws_text (fst u))) \<and>
    (\<forall>x. x \<notin> snd ` set us \<longrightarrow> x \<notin> (\<lambda>u. ws_path (fst u)) ` set us \<longrightarrow> file_at w' x = file_at w x)"
  using assms
proof (induction us arbitrary: w vs)
  case (Cons u us)
  obtain v w1 rs where 1: "commit_update u w = (Inr v, w1)" and 2: "mapm commit_update us w1 = (Inr rs, w')"
    using Cons.prems(1) by (auto elim!: bindm_Inr)
  from replace_Inr [OF 1 [unfolded commit_update_def]] obtain t where t: "file_at w (snd u) = Some t"
    and r: "\<And>p. file_at w1 p = (if p = ws_path (fst u) then Some t else if p = snd u then None else file_at w p)"
    by blast
  have sep: "snd y \<noteq> snd u" "snd y \<noteq> ws_path (fst u)" "ws_path (fst y) \<noteq> ws_path (fst u)" "ws_path (fst u) \<noteq> snd y"
      "fit_update E y" "file_at w (snd y) = Some (ws_text (fst y))"
    if "y \<in> set us" for y
    using that Cons.prems(2-4) by (fastforce simp: fit_update_def image_iff)+
  have "\<forall>y \<in> set us. fit_update E y \<and> file_at w1 (snd y) = Some (ws_text (fst y))"
    using r sep by simp
  from Cons.IH [OF 2 _ _ this] Cons.prems(2,3)
  have IH: "\<forall>y \<in> set us. file_at w' (ws_path (fst y)) = Some (ws_text (fst y))"
    "\<forall>x. x \<notin> snd ` set us \<longrightarrow> x \<notin> (\<lambda>u. ws_path (fst u)) ` set us \<longrightarrow> file_at w' x = file_at w1 x" by auto
  have "file_at w' (ws_path (fst u)) = file_at w1 (ws_path (fst u))"
    using IH(2) sep(3,4) by (metis (no_types, lifting) imageE)
  then have "file_at w' (ws_path (fst u)) = Some (ws_text (fst u))" using r t Cons.prems(4) by auto
  with IH r show ?case by auto
qed simp
subsection \<open>The stages of a multi-file write\<close>

lemma read_Inr:
  assumes "op_read p w = (Inr t, w')"
  shows "file_at w p = Some t \<and> file_at w' x = file_at w x \<and> w_env w' = w_env w"
  using atomic_io_Inr [OF assms [unfolded op_read_def]]
  by (auto simp: file_at_def split: option.splits node.splits)

lemma read_text_Inr:
  assumes "read_text p w = (Inr t, w')"
  shows "map_option universal_newlines (file_at w p) = Some t \<and> file_at w' x = file_at w x \<and> w_env w' = w_env w"
proof -
  from assms obtain s where "op_read p w = (Inr s, w')" and t: "t = universal_newlines s"
    by (auto simp: read_text_def elim!: bindm_Inr)
  with read_Inr [of p w s w' x] show ?thesis by simp
qed

lemma existing_Inr:
  assumes "existing_text_or_none p w = (Inr t, w')"
  shows "t = map_option universal_newlines (file_at w p) \<and> file_at w' x = file_at w x \<and> w_env w' = w_env w"
proof (cases "p = [] \<or> node_of w p \<noteq> None")
  case True
  then show ?thesis
    using assms read_text_Inr [of p w _ w' x]
    by (auto simp: existing_text_or_none_def path_exists_def elim!: bindm_Inr)
next
  case False
  then show ?thesis
    using assms by (auto simp: existing_text_or_none_def path_exists_def bindm_def file_at_def)
qed

abbreviation recorded_state :: "world \<Rightarrow> text_update \<Rightarrow> write_state" where
  "recorded_state w u \<equiv> \<lparr>ws_path = u_path u, ws_text = u_text u,
     ws_original = map_option universal_newlines (file_at w (u_path u))\<rparr>"

lemma write_states_Inr:
  assumes "mapm write_state_of us w = (Inr ss, w')"
  shows "ss = map (recorded_state w) us \<and> w_env w' = w_env w \<and> (\<forall>x. file_at w' x = file_at w x)"
  using assms
proof (induction us arbitrary: w ss)
  case (Cons u us)
  obtain s w1 rs where s: "write_state_of u w = (Inr s, w1)"
    and 2: "mapm write_state_of us w1 = (Inr rs, w')" and ss: "ss = s # rs"
    using Cons.prems by (auto elim!: bindm_Inr)
  then obtain t where 1: "existing_text_or_none (u_path u) w = (Inr t, w1)"
    and "s = \<lparr>ws_path = u_path u, ws_text = u_text u, ws_original = t\<rparr>"
    by (auto simp: write_state_of_def elim!: bindm_Inr)
  with ss existing_Inr [OF 1] Cons.IH [OF 2] show ?case by simp
qed simp

lemma no_duplicate_targets:
  assumes "duplicate_targets E us = []"
  shows "distinct (map u_path us)"
proof (rule ccontr)
  assume "\<not> distinct (map u_path us)"
  then obtain xs ys zs q where "map u_path us = xs @ [q] @ ys @ [q] @ zs" using not_distinct_decomp by blast
  then obtain as u bs v cs where us: "us = as @ u # bs @ v # cs" and p: "u_path u = u_path v"
    by (auto simp: map_eq_append_conv map_eq_Cons_conv append_eq_map_conv Cons_eq_map_conv)
  let ?P = "\<lambda>x. canonical_atomic_target E (u_path x) = canonical_atomic_target E (u_path u)"
  have "1 < length (filter ?P us)" using p by (simp add: us)
  then have "filter (\<lambda>u. 1 < length (filter (\<lambda>v. canonical_atomic_target E (u_path v) =
      canonical_atomic_target E (u_path u)) us)) us \<noteq> []"
    unfolding filter_empty_conv by (auto simp: us)
  with assms show False by (simp add: duplicate_targets_def)
qed

lemma build_updates_Inr:
  assumes "build_atomic_text_updates us w = (Inr vs, w')"
  shows "vs = us \<and> w' = w \<and> distinct (map u_path us)"
  using assms no_duplicate_targets [of "w_env w" us]
  by (auto simp: build_atomic_text_updates_def Let_def split: if_splits)

definition rollback_reported :: "string \<Rightarrow> bool" where
  "rollback_reported t = sublist '' | rollback issues: '' t"

lemma rollback_detail_clean: "\<not> rollback_reported (rollback_detail e errs) \<Longrightarrow> errs = []"
proof (rule ccontr)
  assume "\<not> rollback_reported (rollback_detail e errs)" and "errs \<noteq> []"
  then show False
    by (simp only: rollback_reported_def rollback_detail_def if_False sublist_appendI not_True_eq_False)
qed

lemma leaves_staging:
  "leaves (\<lambda>p. \<not> temp_path E p) E (run_log (\<lambda>s. stage_atomic_text (ws_path s) (ws_text s)) ss done)
     (\<lambda>(err, d). \<forall>u \<in> set d. u \<in> set done \<or> fst u \<in> set ss \<and> temp_path E (snd u))"
proof (induction ss arbitrary: "done")
  case (Cons s ss)
  show ?case
  proof (rule leavesI)
    fix w r w' assume w: "w_env w = E"
      and run: "run_log (\<lambda>s. stage_atomic_text (ws_path s) (ws_text s)) (s # ss) done w = (r, w')"
    obtain r1 w1 where 1: "stage_atomic_text (ws_path s) (ws_text s) w = (r1, w1)"
      by (cases "stage_atomic_text (ws_path s) (ws_text s) w")
    have l: "leaves (\<lambda>p. \<not> temp_path E p) E (stage_atomic_text (ws_path s) (ws_text s)) (temp_path E)"
      by (rule leaves_stage) simp
    note d = leavesD [OF l w 1]
    show "w_env w' = E \<and> (\<forall>p. \<not> temp_path E p \<longrightarrow> file_at w' p = file_at w p) \<and>
        (\<forall>x. r = Inr x \<longrightarrow> (case x of (err, d) \<Rightarrow>
           \<forall>u \<in> set d. u \<in> set done \<or> fst u \<in> set (s # ss) \<and> temp_path E (snd u)))"
    proof (cases r1)
      case (Inl e)
      then show ?thesis using run 1 d(1,2) by auto
    next
      case (Inr q)
      then have rest: "run_log (\<lambda>s. stage_atomic_text (ws_path s) (ws_text s)) ss (done @ [(s, q)]) w1 = (r, w')"
        using run 1 by simp
      note k = leavesD [OF Cons.IH d(1) rest]
      show ?thesis using k d(2) d(3) [OF Inr] by (fastforce split: prod.splits)
    qed
  qed
qed (auto intro: leaves_return)
lemma temp_updates_fit:
  assumes "\<forall>s \<in> set ss. \<not> temp_path E (ws_path s)" and "\<forall>u \<in> set us. fst u \<in> set ss \<and> temp_path E (snd u)"
  shows "\<forall>u \<in> set us. fit_update E u"
  using assms by (auto simp: fit_update_def)

lemma leaves_undo_updates:
  assumes "\<forall>u \<in> set us. fit_update E u"
  shows "leaves (\<lambda>p. \<not> temp_path E p \<and> p \<notin> (\<lambda>u. ws_path (fst u)) ` set us) E
     (undo_all restore_update update_label us) (\<lambda>_. True)"
  using assms
proof (induction us)
  case (Cons u us)
  let ?P = "\<lambda>p. \<not> temp_path E p \<and> p \<notin> (\<lambda>u. ws_path (fst u)) ` set (u # us)"
  have u: "leaves ?P E (restore_update u) (\<lambda>_. True)"
    by (rule leaves_weaken [OF restore_leaves_update]) (use Cons.prems in \<open>auto simp: fit_update_def\<close>)
  have "leaves ?P E (undo_all restore_update update_label us) (\<lambda>_. True)"
    by (rule leaves_weaken [OF Cons.IH]) (use Cons.prems in auto)
  then show ?case unfolding undo_all.simps
    by (intro leaves_bind [where R = "\<lambda>_. True"] leaves_catch u leaves_return TrueI)
qed (simp add: leaves_return)

lemma leaves_cleanup_updates:
  assumes "\<forall>u \<in> set us. temp_path E (snd u)" and "\<And>p. P p \<Longrightarrow> \<not> temp_path E p"
  shows "leaves P E (cleanup_updates us) (\<lambda>_. True)"
  unfolding cleanup_updates_def by (rule leaves_eachm, rule leaves_cleanup) (use assms in auto)

lemma leaves_settle:
  assumes "\<forall>u \<in> set committed. fit_update E u" and "\<forall>u \<in> set pending. temp_path E (snd u)"
  shows "leaves (\<lambda>p. \<not> temp_path E p \<and> p \<notin> (\<lambda>u. ws_path (fst u)) ` set committed) E
     (settle_write err committed pending) (\<lambda>_. True)"
proof -
  let ?P = "\<lambda>p. \<not> temp_path E p \<and> p \<notin> (\<lambda>u. ws_path (fst u)) ` set committed"
  have c: "leaves ?P E (cleanup_updates pending) (\<lambda>_. True)"
    by (rule leaves_cleanup_updates [OF assms(2)]) simp
  have u: "leaves ?P E (undo_all restore_update update_label (rev committed)) (\<lambda>_. True)"
    using leaves_undo_updates [of "rev committed"] assms(1) by simp
  show ?thesis unfolding settle_write_def
    by (rule leaves_finally [OF _ c])
      (auto split: option.splits intro!: leaves_return leaves_raise leaves_bind [where R = "\<lambda>_. True"] u c)
qed

lemma leaves_commits:
  assumes "\<forall>u \<in> set us. fit_update E u"
  shows "leaves (\<lambda>p. \<not> temp_path E p \<and> p \<notin> (\<lambda>u. ws_path (fst u)) ` set us) E
     (run_log commit_update us done0) (\<lambda>(err, d). \<forall>c \<in> set d. c \<in> set done0 \<or> fst c \<in> set us)"
  using assms
proof (induction us arbitrary: done0)
  case (Cons u us)
  let ?P = "\<lambda>p. \<not> temp_path E p \<and> p \<notin> (\<lambda>u. ws_path (fst u)) ` set (u # us)"
  have l: "leaves ?P E (commit_update u) (\<lambda>_. True)"
    by (rule leaves_weaken [OF commit_leaves_update]) (use Cons.prems in \<open>auto simp: fit_update_def\<close>)
  show ?case
  proof (rule leavesI)
    fix w r w' assume w: "w_env w = E" and run: "run_log commit_update (u # us) done0 w = (r, w')"
    obtain r1 w1 where 1: "commit_update u w = (r1, w1)" by (cases "commit_update u w")
    note d = leavesD [OF l w 1]
    show "w_env w' = E \<and> (\<forall>p. ?P p \<longrightarrow> file_at w' p = file_at w p) \<and>
        (\<forall>x. r = Inr x \<longrightarrow> (case x of (err, d) \<Rightarrow> \<forall>c \<in> set d. c \<in> set done0 \<or> fst c \<in> set (u # us)))"
    proof (cases r1)
      case (Inl e)
      then show ?thesis using run 1 d(1,2) by auto
    next
      case (Inr v)
      then have rest: "run_log commit_update us (done0 @ [(u, v)]) w1 = (r, w')" using run 1 by simp
      have "leaves (\<lambda>p. \<not> temp_path E p \<and> p \<notin> (\<lambda>u. ws_path (fst u)) ` set us) E
          (run_log commit_update us (done0 @ [(u, v)]))
          (\<lambda>(err, d). \<forall>c \<in> set d. c \<in> set (done0 @ [(u, v)]) \<or> fst c \<in> set us)"
        by (rule Cons.IH) (use Cons.prems in simp)
      note k = leavesD [OF this d(1) rest]
      show ?thesis using k d(2) by (fastforce split: prod.splits)
    qed
  qed
qed (auto intro: leaves_return)

lemma leaves_write_staged:
  assumes "\<forall>s \<in> set ss. \<not> temp_path E (ws_path s)"
  shows "leaves (\<lambda>p. \<not> temp_path E p \<and> p \<notin> ws_path ` set ss) E (write_staged ss) (\<lambda>_. True)"
proof -
  let ?P = "\<lambda>p. \<not> temp_path E p \<and> p \<notin> ws_path ` set ss"
  have stage: "leaves ?P E (run_log (\<lambda>s. stage_atomic_text (ws_path s) (ws_text s)) ss [])
      (\<lambda>(err, us). \<forall>u \<in> set us. fst u \<in> set ss \<and> temp_path E (snd u))"
    by (rule leaves_weaken [OF leaves_staging]) auto
  show ?thesis unfolding write_staged_def
  proof (rule leaves_bind [OF stage], clarify)
    fix err us assume us: "\<forall>u \<in> set us. fst u \<in> set ss \<and> temp_path E (snd u)"
    note fit = temp_updates_fit [OF assms us]
    have settle: "leaves ?P E (settle_write e cs (drop n us)) (\<lambda>_. True)" if "\<forall>c \<in> set cs. c \<in> set us" for e cs n
      by (rule leaves_weaken [OF leaves_settle]) (use that fit us in \<open>auto dest: in_set_dropD\<close>)
    have commit: "leaves ?P E (run_log commit_update us []) (\<lambda>(err, d). \<forall>c \<in> set d. fst c \<in> set us)"
      by (rule leaves_weaken [OF leaves_commits [OF fit]]) (use us in auto)
    have "leaves ?P E (bindm (run_log commit_update us []) (\<lambda>(err', committed).
        settle_write err' (map fst committed) (drop (length committed) us))) (\<lambda>_. True)"
      by (rule leaves_bind [OF commit], clarify, rule settle) auto
    then show "leaves ?P E (case err of
          Some e \<Rightarrow> settle_write (Some e) [] us
        | None \<Rightarrow> bindm (run_log commit_update us []) (\<lambda>(err', committed).
            settle_write err' (map fst committed) (drop (length committed) us))) (\<lambda>_. True)"
      using settle [of "[]" _ 0] by (cases err) simp_all
  qed
qed

lemma cleanup_not_transaction: "cleanup_updates us w = (Inl e, w') \<Longrightarrow> e \<noteq> FilesystemTransactionError t"
proof (induction us arbitrary: w)
  case (Cons u us)
  have "op_unlink q w = (Inl e, w') \<Longrightarrow> e \<noteq> FilesystemTransactionError t" for q w
    unfolding op_unlink_def
    by (drule atomic_io_Inl) (auto simp: no_such_file_def is_a_directory_def split: option.splits node.splits)
  then have "cleanup_staged_file p w = (Inl e, w') \<Longrightarrow> e \<noteq> FilesystemTransactionError t" for p w
    by (auto simp: cleanup_staged_file_def ignore_missing_def split: option.splits prod.splits sum.splits py_exc.splits)
  with Cons show ?case by (auto simp: cleanup_updates_def elim!: bindm_Inl)
qed (simp add: cleanup_updates_def)

lemma settle_Inr:
  assumes "settle_write err committed pending w = (Inr u, w')"
  shows "err = None \<and> (\<exists>v. cleanup_updates pending w = (Inr v, w'))"
  using assms unfolding settle_write_def
  by (auto elim!: finallym_Inr bindm_Inr split: option.splits if_splits)

lemma undo_updates_returns: "\<exists>errs w'. undo_all restore_update update_label us w = (Inr errs, w')"
  by (rule multi_write.undo_all_returns)

lemma settle_transaction:
  assumes "settle_write err committed pending w = (Inl (FilesystemTransactionError t), w')"
  obtains e errs w1 w2 ru r where "err = Some e"
    and "undo_all restore_update update_label (rev committed) w = (Inr errs, w1)"
    and "cleanup_updates pending w1 = (ru, w2)" and "cleanup_updates pending w2 = (r, w')"
    and "t = rollback_detail e errs"
proof -
  obtain e where err: "err = Some e" and os: "is_os_error e"
    using assms cleanup_not_transaction
    by (auto simp: settle_write_def finallym_def split: option.splits prod.splits sum.splits if_splits) metis+
  obtain errs w1 where 1: "undo_all restore_update update_label (rev committed) w = (Inr errs, w1)"
    using undo_updates_returns by blast
  obtain r2 w2 where 2: "cleanup_updates pending w1 = (r2, w2)" by (cases "cleanup_updates pending w1")
  obtain r3 w3 where 3: "cleanup_updates pending w2 = (r3, w3)" by (cases "cleanup_updates pending w2")
  have "w3 = w' \<and> t = rollback_detail e errs"
    using assms err os 1 2 3 cleanup_not_transaction [of pending w1 _ w2 t] cleanup_not_transaction [of pending w2 _ w3 t]
    by (cases r2; cases r3) (auto simp: settle_write_def finallym_def bindm_def raisem_def)
  with err 1 2 3 that show ?thesis by blast
qed
text \<open>
  Every outcome of the clauses: an ordinary path keeps its content or is a committed target with its
  recorded content.
\<close>

lemma undo_choice:
  assumes "\<forall>u \<in> set us. fit_update E u" and "w_env w = E"
    and "undo_all restore_update update_label us w = (r, w')" and p: "\<not> temp_path E p"
  shows "w_env w' = E \<and> (file_at w' p = file_at w p \<or>
    (\<exists>u \<in> set us. ws_path (fst u) = p \<and> file_at w' p = ws_original (fst u)))"
  using assms(1-3)
proof (induction us arbitrary: w r)
  case (Cons u us)
  have fit: "\<not> temp_path E (ws_path (fst u))" using Cons.prems(1) by (simp add: fit_update_def)
  obtain r1 w1 where 1: "restore_update u w = (r1, w1)" by (cases "restore_update u w")
  note d = leavesD [OF restore_leaves_update [OF fit] Cons.prems(2) 1]
  have first: "file_at w1 p = file_at w p \<or> ws_path (fst u) = p \<and> file_at w1 p = ws_original (fst u)"
    using d(2) [of p] p restore_choice [of w "ws_path (fst u)" "ws_original (fst u)" r1 w1] 1 fit Cons.prems(2)
    by (auto simp: restore_update_def)
  have os: "is_os_error e" if "r1 = Inl e" for e
    using 1 that only_os_restore unfolding only_os_def restore_update_def by blast
  obtain r2 where rest: "undo_all restore_update update_label us w1 = (r2, w')"
    using Cons.prems(3) 1 os by (cases r1) (auto simp: bindm_def catch_os_def split: prod.splits sum.splits)
  have "w_env w' = E \<and> (file_at w' p = file_at w1 p \<or>
      (\<exists>u \<in> set us. ws_path (fst u) = p \<and> file_at w' p = ws_original (fst u)))"
    by (rule Cons.IH [OF _ d(1) rest]) (use Cons.prems(1) in simp)
  with first show ?case by auto
qed simp

lemma settle_choice:
  assumes fit: "\<forall>u \<in> set committed. fit_update E u" and temp: "\<forall>u \<in> set pending. temp_path E (snd u)"
    and E: "w_env w = E" and run: "settle_write err committed pending w = (r, w')" and p: "\<not> temp_path E p"
  shows "file_at w' p = file_at w p \<or> (\<exists>u \<in> set committed. ws_path (fst u) = p \<and> file_at w' p = ws_original (fst u))"
proof -
  have c: "leaves (\<lambda>p. \<not> temp_path E p) E (cleanup_updates pending) (\<lambda>_. True)"
    by (rule leaves_cleanup_updates [OF temp])
  obtain errs w1 where 1: "undo_all restore_update update_label (rev committed) w = (Inr errs, w1)"
    using undo_updates_returns by blast
  have u: "w_env w1 = E \<and> (file_at w1 p = file_at w p \<or>
      (\<exists>u \<in> set committed. ws_path (fst u) = p \<and> file_at w1 p = ws_original (fst u)))"
    using undo_choice [OF _ E 1 p] fit by simp
  show ?thesis
  proof (cases "\<exists>e. err = Some e \<and> is_os_error e")
    case True
    then obtain e where e: "err = Some e" "is_os_error e" by blast
    obtain r2 w2 where 2: "bindm (cleanup_updates pending)
        (\<lambda>_. raisem (FilesystemTransactionError (rollback_detail e errs)) :: unit io) w1 = (r2, w2)" (is "?m w1 = _")
      by (cases "?m w1")
    obtain r3 w3 where 3: "cleanup_updates pending w2 = (r3, w3)" by (cases "cleanup_updates pending w2")
    have m: "leaves (\<lambda>p. \<not> temp_path E p) E ?m (\<lambda>_. True)" by (intro leaves_bind [OF c] leaves_raise)
    note d2 = leavesD [OF m conjunct1 [OF u] 2]
    have "w' = w3" using run e 1 2 3 by (auto simp: settle_write_def finallym_def bindm_def split: sum.splits)
    then show ?thesis using u d2(2) [OF p] leavesD(2) [OF c d2(1) 3 p] by auto
  next
    case False
    then have "leaves (\<lambda>p. \<not> temp_path E p) E (settle_write err committed pending) (\<lambda>_. True)"
      unfolding settle_write_def
      by (intro leaves_finally [OF _ c]) (auto split: option.splits intro: leaves_return leaves_raise)
    from leavesD(2) [OF this E run p] show ?thesis by simp
  qed
qed

lemma mapm_run_log:
  "mapm act xs w = (Inr ys, w') \<Longrightarrow> run_log act xs done0 w = (Inr (None, done0 @ zip xs ys), w')"
proof (induction xs arbitrary: w done0 ys)
  case (Cons x xs)
  then obtain y w1 zs where "act x w = (Inr y, w1)" "mapm act xs w1 = (Inr zs, w')" "ys = y # zs"
    by (auto elim!: bindm_Inr)
  with Cons.IH [of w1 zs "done0 @ [(x, y)]"] show ?case by simp
qed simp

lemma write_staged_success:
  assumes ok: "write_staged ss w = (Inr u, w')"
    and plain: "\<forall>s \<in> set ss. \<not> temp_path (w_env w) (ws_path s)" and distinct: "distinct (map ws_path ss)"
  shows "\<forall>s \<in> set ss. file_at w' (ws_path s) = Some (ws_text s)"
proof -
  obtain err staged w1 where 1: "run_log (\<lambda>s. stage_atomic_text (ws_path s) (ws_text s)) ss [] w = (Inr (err, staged), w1)"
    by (metis run_log_returns)
  have none: "err = None" using ok 1 by (cases err) (auto simp: write_staged_def bindm_def dest: settle_Inr)
  from run_log_success [OF 1 [unfolded none]] obtain qs where
    qs: "mapm (\<lambda>s. stage_atomic_text (ws_path s) (ws_text s)) ss w = (Inr qs, w1)" "staged = zip ss qs" by auto
  note st = staged_all [OF qs(1)]
  obtain err' committed w2 where 2: "run_log commit_update staged [] w1 = (Inr (err', committed), w2)"
    by (metis run_log_returns)
  have settle: "settle_write err' (map fst committed) (drop (length committed) staged) w2 = (Inr u, w')"
    using ok 1 2 none by (simp add: write_staged_def bindm_def)
  then have none': "err' = None" by (auto dest: settle_Inr)
  from run_log_success [OF 2 [unfolded none']] obtain vs where
    vs: "mapm commit_update staged w1 = (Inr vs, w2)" "committed = zip staged vs" "length vs = length staged" by auto
  have w': "w' = w2" using settle_Inr [OF settle] vs(2,3) by (simp add: cleanup_updates_def)
  have snds: "map snd staged = qs" and fsts: "map fst staged = ss" using st by (simp_all add: qs(2))
  have fit: "\<forall>u \<in> set staged. fit_update (w_env w) u \<and> file_at w1 (snd u) = Some (ws_text (fst u))"
    using plain st by (auto simp: qs(2) fit_update_def list_all2_iff dest: set_zip_leftD set_zip_rightD)
  have paths: "distinct (map (\<lambda>u. ws_path (fst u)) staged)"
    using distinct unfolding fsts [symmetric] by (simp add: comp_def)
  have "\<forall>u \<in> set staged. file_at w2 (ws_path (fst u)) = Some (ws_text (fst u))"
    using commit_all [OF vs(1) _ paths fit] st snds by simp
  then show ?thesis using w' fsts by (metis (no_types, lifting) imageE list.set_map)
qed

lemma write_staged_failure:
  assumes bad: "write_staged ss w = (Inl (FilesystemTransactionError t), w')"
    and plain: "\<forall>s \<in> set ss. \<not> temp_path (w_env w) (ws_path s)"
    and original: "\<forall>s \<in> set ss. ws_original s = map_option universal_newlines (file_at w (ws_path s))"
    and clean: "\<not> rollback_reported t" and p: "\<not> temp_path (w_env w) p"
  shows "file_at w' p = file_at w p \<or>
    p \<in> ws_path ` set ss \<and> file_at w' p = map_option universal_newlines (file_at w p)"
proof -
  let ?E = "w_env w"
  obtain err staged w1 where 1: "run_log (\<lambda>s. stage_atomic_text (ws_path s) (ws_text s)) ss [] w = (Inr (err, staged), w1)"
    by (metis run_log_returns)
  note st = leavesD [OF leaves_staging refl 1]
  have staged: "\<forall>u \<in> set staged. fst u \<in> set ss \<and> temp_path ?E (snd u)" using st(3) [OF refl] by auto
  note fit = temp_updates_fit [OF plain staged]
  have dev1: "multi_write.deviates ?E (file_at w) [] w1" using st(1,2) by (simp add: multi_write.deviates_def)
  obtain err' committed w2 where 2: "run_log commit_update staged [] w1 = (Inr (err', committed), w2)"
    by (metis run_log_returns)
  define cs ws e' where "cs = (case err of None \<Rightarrow> map fst committed | Some _ \<Rightarrow> [])"
    and "ws = (case err of None \<Rightarrow> w2 | Some _ \<Rightarrow> w1)" and "e' = (case err of None \<Rightarrow> err' | Some e \<Rightarrow> Some e)"
  have settle: "settle_write e' cs (drop (length cs) staged) ws = (Inl (FilesystemTransactionError t), w')"
    using bad 1 2 unfolding cs_def ws_def e'_def by (cases err) (simp_all add: write_staged_def bindm_def)
  obtain e errs w3 w4 ru r where undo: "undo_all restore_update update_label (rev cs) ws = (Inr errs, w3)"
    and cl: "cleanup_updates (drop (length cs) staged) w3 = (ru, w4)" "cleanup_updates (drop (length cs) staged) w4 = (r, w')"
    and t: "t = rollback_detail e errs"
    using settle by (rule settle_transaction)
  have "multi_write.deviates ?E (file_at w) (map fst committed) w2 \<and> prefix (map fst committed) staged"
    using multi_write.run_log_deviates [of staged "{}" ?E "file_at w" "[]" w1 "Inr (err', committed)" w2] fit dev1 2
    by auto
  then have cs: "multi_write.deviates ?E (file_at w) cs ws" "set cs \<subseteq> set staged"
    using dev1 set_mono_prefix [of "map fst committed" staged] by (cases err; simp add: cs_def ws_def)+
  let ?targets = "(\<lambda>u. ws_path (fst u)) ` set cs"
  let ?old = "\<lambda>p. if p \<in> ?targets then map_option universal_newlines (file_at w p) else file_at w p"
  have errs: "errs = []" using clean rollback_detail_clean t by blast
  have "multi_write.deviates ?E ?old (rev cs) ws" using cs(1) by (simp add: multi_write.deviates_def)
  moreover have "\<forall>u \<in> set (rev cs). ws_original (fst u) = ?old (ws_path (fst u))"
    using original staged cs(2) by auto
  moreover have "\<forall>u \<in> set (rev cs). fit_update ?E u" using fit cs(2) by auto
  ultimately have dev3: "multi_write.deviates ?E ?old [] w3"
    using multi_write.undo_all_restores [of "rev cs" ?E ?old ws update_label "Inr errs" w3] undo errs
    by (auto simp: sorted_wrt_iff_nth_less)
  have clean_up: "leaves (\<lambda>p. \<not> temp_path ?E p) ?E (cleanup_updates (drop (length cs) staged)) (\<lambda>_. True)"
    by (rule leaves_cleanup_updates) (use staged in \<open>auto dest: in_set_dropD\<close>)
  have w3: "w_env w3 = ?E" "file_at w3 p = ?old p" using dev3 p by (simp_all add: multi_write.deviates_def)
  note d4 = leavesD [OF clean_up w3(1) cl(1)]
  note d5 = leavesD [OF clean_up d4(1) cl(2)]
  have "?targets \<subseteq> ws_path ` set ss" using staged cs(2) by auto
  then show ?thesis using d5(2) [OF p] d4(2) [OF p] w3(2) by (auto split: if_splits)
qed

text \<open>No target is torn, whatever the outcome: only complete texts are moved onto it.\<close>

lemma write_staged_outcome:
  assumes run: "write_staged ss w = (r, w')"
    and plain: "\<forall>s \<in> set ss. \<not> temp_path (w_env w) (ws_path s)" and distinct: "distinct (map ws_path ss)"
    and s: "s \<in> set ss"
  shows "file_at w' (ws_path s) \<in> {file_at w (ws_path s), ws_original s, Some (ws_text s)}"
proof -
  let ?E = "w_env w" and ?p = "ws_path s"
  have p: "\<not> temp_path ?E ?p" using plain s by simp
  obtain err staged w1 where 1: "run_log (\<lambda>s. stage_atomic_text (ws_path s) (ws_text s)) ss [] w = (Inr (err, staged), w1)"
    by (metis run_log_returns)
  note st = leavesD [OF leaves_staging refl 1]
  have staged: "\<forall>u \<in> set staged. fst u \<in> set ss \<and> temp_path ?E (snd u)" using st(3) [OF refl] by auto
  note fit = temp_updates_fit [OF plain staged]
  show ?thesis
  proof (cases err)
    case (Some e)
    then have "settle_write (Some e) [] staged w1 = (r, w')" using run 1 by (simp add: write_staged_def bindm_def)
    from settle_choice [OF _ _ st(1) this p] staged st(2) [OF p] show ?thesis by simp
  next
    case None
    from run_log_success [OF 1 [unfolded None]] obtain qs where
      qs: "mapm (\<lambda>s. stage_atomic_text (ws_path s) (ws_text s)) ss w = (Inr qs, w1)" "staged = zip ss qs" by auto
    note sa = staged_all [OF qs(1)]
    obtain err' committed w2 where 2: "run_log commit_update staged [] w1 = (Inr (err', committed), w2)"
      by (metis run_log_returns)
    from run_log_stops [OF 2] obtain n vs v where vs: "mapm commit_update (take n staged) w1 = (Inr vs, v)"
      "committed = zip (take n staged) vs" "length vs = length (take n staged)"
      "w2 = v \<or> (\<exists>x e. commit_update x v = (Inl e, w2))" unfolding append_Nil by blast
    then have cs: "map fst committed = take n staged" by simp
    have w2: "file_at w2 x = file_at v x" for x
      using vs(4) replace_Inl unfolding commit_update_def by metis
    have settle: "settle_write err' (take n staged) (drop (length committed) staged) w2 = (r, w')"
      using run 1 2 None cs by (simp add: write_staged_def bindm_def)
    have fsts: "map fst staged = ss" and snds: "map snd staged = qs" using sa by (simp_all add: qs(2))
    have paths: "distinct (map (\<lambda>u. ws_path (fst u)) staged)"
      using distinct unfolding fsts [symmetric] by (simp add: comp_def)
    have every: "\<forall>u \<in> set staged. fit_update ?E u \<and> file_at w1 (snd u) = Some (ws_text (fst u))"
      using plain sa by (auto simp: qs(2) fit_update_def list_all2_iff dest: set_zip_leftD set_zip_rightD)
    have fit': "\<forall>u \<in> set (take n staged). fit_update ?E u \<and> file_at w1 (snd u) = Some (ws_text (fst u))"
      using every by (auto dest: in_set_takeD)
    have "distinct (map snd (take n staged))" "distinct (map (\<lambda>u. ws_path (fst u)) (take n staged))"
      using sa snds paths by (metis distinct_take take_map)+
    from commit_all [OF vs(1) this fit'] have
      new: "\<And>u. u \<in> set (take n staged) \<Longrightarrow> file_at v (ws_path (fst u)) = Some (ws_text (fst u))"
      and rest: "\<And>x. x \<notin> snd ` set (take n staged) \<Longrightarrow> x \<notin> (\<lambda>u. ws_path (fst u)) ` set (take n staged) \<Longrightarrow>
        file_at v x = file_at w1 x" by blast+
    have same: "fst u = s" if "u \<in> set (take n staged)" "ws_path (fst u) = ?p" for u
      using that distinct s fsts by (metis distinct_map image_eqI in_set_takeD inj_onD list.set_map)
    have "file_at w2 ?p \<in> {file_at w ?p, Some (ws_text s)}"
    proof (cases "?p \<in> (\<lambda>u. ws_path (fst u)) ` set (take n staged)")
      case True
      then show ?thesis using new same w2 by auto
    next
      case False
      moreover have "?p \<notin> snd ` set (take n staged)" using p staged by (fastforce dest: in_set_takeD)
      ultimately show ?thesis using rest [of ?p] w2 st(2) [OF p] by simp
    qed
    moreover have "w_env w2 = ?E" by (rule leavesD(1) [OF leaves_commits [OF fit] st(1) 2])
    note env2 = this
    have "file_at w' ?p = file_at w2 ?p \<or>
        (\<exists>u \<in> set (take n staged). ws_path (fst u) = ?p \<and> file_at w' ?p = ws_original (fst u))"
      by (rule settle_choice [OF _ _ env2 settle p]) (use fit staged in \<open>auto dest: in_set_takeD in_set_dropD\<close>)
    ultimately show ?thesis using same by auto
  qed
qed

text \<open>A multi-file write either reaches its staging with the originals it recorded, or changes nothing.\<close>

lemma multi_write_cases:
  assumes run: "atomic_multi_write us w = (r, w')"
  obtains (written) ss w1 where "write_staged ss w1 = (r, w')"
    "ss = map (recorded_state w) us"
    "w_env w1 = w_env w" "\<forall>x. file_at w1 x = file_at w x" "distinct (map u_path us)"
  | (refused) e where "r = Inl e" "w_env w' = w_env w" "\<forall>p. file_at w' p = file_at w p"
proof (cases "\<exists>ss w1. build_atomic_text_updates us w = (Inr us, w) \<and> mapm write_state_of us w = (Inr ss, w1)")
  case True
  then obtain ss w1 where b: "build_atomic_text_updates us w = (Inr us, w)"
    and m: "mapm write_state_of us w = (Inr ss, w1)" by blast
  have "write_staged ss w1 = (r, w')"
    using run b m by (simp add: atomic_multi_write_def bindm_def)
  then show ?thesis using written write_states_Inr [OF m] build_updates_Inr [OF b] by blast
next
  case False
  obtain rb wb where b: "build_atomic_text_updates us w = (rb, wb)" by (cases "build_atomic_text_updates us w")
  have wb: "wb = w" and rb: "rb = Inr us \<or> (\<exists>e. rb = Inl e)"
    using b by (auto simp: build_atomic_text_updates_def Let_def split: if_splits)
  obtain rm wm where m: "mapm write_state_of us w = (rm, wm)" by (cases "mapm write_state_of us w")
  have "leaves (\<lambda>_. True) (w_env w) (write_state_of u) (\<lambda>_. True)" for u
    unfolding write_state_of_def existing_text_or_none_def
    by (auto intro!: leaves_bind [where R = "\<lambda>_. True"] leaves_exists leaves_read_text leaves_return)
  then have "leaves (\<lambda>_. True) (w_env w) (mapm write_state_of us) (list_all2 (\<lambda>_ _. True) us)"
    by (rule leaves_mapm)
  note keep = leavesD(1,2) [OF this refl m]
  have "(\<exists>e. r = Inl e) \<and> w_env w' = w_env w \<and> (\<forall>p. file_at w' p = file_at w p)"
    using run b wb rb m False keep by (cases rm) (auto simp: atomic_multi_write_def bindm_def)
  then show ?thesis using refused by blast
qed

lemma multi_write_returns:
  assumes run: "atomic_multi_write us w = (Inr x, w')"
    and plain: "\<forall>u \<in> set us. \<not> temp_path (w_env w) (u_path u)" and u: "u \<in> set us"
  shows "file_at w' (u_path u) = Some (u_text u)"
  using run
proof (cases rule: multi_write_cases)
  case (written ss w1)
  then have "\<forall>s \<in> set ss. file_at w' (ws_path s) = Some (ws_text s)"
    by (intro write_staged_success [OF written(1)]) (use plain in \<open>auto simp: comp_def\<close>)
  with u written(2) show ?thesis by force
qed simp

lemma leaves_multi_write:
  assumes plain: "\<forall>u \<in> set us. \<not> temp_path E (u_path u)"
  shows "leaves (\<lambda>p. \<not> temp_path E p \<and> p \<notin> u_path ` set us) E (atomic_multi_write us) (\<lambda>_. True)"
proof (rule leavesI)
  fix w r w' assume w: "w_env w = E" and run: "atomic_multi_write us w = (r, w')"
  from run show "w_env w' = E \<and> (\<forall>p. \<not> temp_path E p \<and> p \<notin> u_path ` set us \<longrightarrow> file_at w' p = file_at w p) \<and>
      (\<forall>x. r = Inr x \<longrightarrow> True)"
  proof (cases rule: multi_write_cases)
    case (written ss w1)
    have "\<forall>s \<in> set ss. \<not> temp_path E (ws_path s)" and "ws_path ` set ss = u_path ` set us"
      using plain written(2) by (auto simp: image_comp)
    then show ?thesis
      using leavesD [OF leaves_write_staged written(3) [unfolded w] written(1)] written(4) w by auto
  qed (use w in simp)
qed

subsection \<open>Properties of atomic updates\<close>

definition sample_env :: "(nat \<Rightarrow> (string \<times> string option) option) \<Rightarrow> os_env" where
  "sample_env faults = \<lparr>e_fault = faults, e_tmp = (\<lambda>k. replicate k (CHR ''x'')), e_resolve = (\<lambda>p. p),
     e_link = (\<lambda>_. False)\<rparr>"

definition sample_world :: "(nat \<Rightarrow> (string \<times> string option) option) \<Rightarrow> world" where
  "sample_world faults = \<lparr>w_nodes = [([''v''], DirNode), ([''v'', ''a.txt''], FileNode ''old a''),
     ([''v'', ''b.txt''], FileNode ''old b'')], w_clock = 0, w_env = sample_env faults\<rparr>"

definition fault_at :: "nat \<Rightarrow> string option \<Rightarrow> nat \<Rightarrow> (string \<times> string option) option" where
  "fault_at n partial k = (if k = n then Some (''disk full'', partial) else None)"

lemma sample_not_temp:
  "last name \<noteq> CHR ''p'' \<Longrightarrow> \<not> temp_path E (d @ [name])"
  by (auto simp: temp_path_def)

text \<open>
  C8: \<open>atomic_multi_write\<close> is all or nothing, whatever operation of the file system fails, for targets
  that do not look like staging files. In every outcome nothing but the targets (and staging files)
  changes, and no target is torn: each holds its old text, its old text as \<open>read_text\<close> returned it (CR LF
  and CR become LF), or its complete new text. When the call returns, every target holds its new text.
  When it raises \<open>FilesystemTransactionError\<close> without reporting rollback issues, every file is as before,
  except that a target may have had its newlines translated by the restore. The other failures leave
  targets on either side: a \<open>FilesystemTransactionError\<close> that reports rollback issues, and an
  \<open>OSError\<close> of the clean-up in the handler, which replaces that report (shown below).
\<close>

theorem multi_write_all_or_nothing:
  assumes plain: "\<forall>u \<in> set us. \<not> temp_path (w_env w) (u_path u)"
    and run: "atomic_multi_write us w = (r, w')"
  shows "(\<forall>p. \<not> temp_path (w_env w) p \<and> p \<notin> u_path ` set us \<longrightarrow> file_at w' p = file_at w p) \<and>
    (\<forall>u \<in> set us. file_at w' (u_path u) \<in>
       {file_at w (u_path u), map_option universal_newlines (file_at w (u_path u)), Some (u_text u)}) \<and>
    (r = Inr () \<longrightarrow> (\<forall>u \<in> set us. file_at w' (u_path u) = Some (u_text u))) \<and>
    (\<forall>t. r = Inl (FilesystemTransactionError t) \<and> \<not> rollback_reported t \<longrightarrow>
       (\<forall>p. \<not> temp_path (w_env w) p \<longrightarrow> file_at w' p = file_at w p \<or>
          p \<in> u_path ` set us \<and> file_at w' p = map_option universal_newlines (file_at w p)))"
proof (intro conjI)
  show "\<forall>p. \<not> temp_path (w_env w) p \<and> p \<notin> u_path ` set us \<longrightarrow> file_at w' p = file_at w p"
    using leavesD(2) [OF leaves_multi_write [OF plain] refl run] by blast
  show "r = Inr () \<longrightarrow> (\<forall>u \<in> set us. file_at w' (u_path u) = Some (u_text u))"
    using multi_write_returns [OF _ plain] run by auto
  from run show "\<forall>u \<in> set us. file_at w' (u_path u) \<in>
       {file_at w (u_path u), map_option universal_newlines (file_at w (u_path u)), Some (u_text u)}"
  proof (cases rule: multi_write_cases)
    case (written ss w1)
    show ?thesis
    proof
      fix u assume u: "u \<in> set us"
      have "recorded_state w u \<in> set ss" using u written(2) by simp
      moreover have "\<forall>s \<in> set ss. \<not> temp_path (w_env w1) (ws_path s)" using plain written(2,3) by simp
      ultimately show "file_at w' (u_path u) \<in>
          {file_at w (u_path u), map_option universal_newlines (file_at w (u_path u)), Some (u_text u)}"
        using write_staged_outcome [OF written(1), of "recorded_state w u"] written(2,4,5) by (simp add: comp_def)
    qed
  qed simp
  from run show "\<forall>t. r = Inl (FilesystemTransactionError t) \<and> \<not> rollback_reported t \<longrightarrow>
       (\<forall>p. \<not> temp_path (w_env w) p \<longrightarrow> file_at w' p = file_at w p \<or>
          p \<in> u_path ` set us \<and> file_at w' p = map_option universal_newlines (file_at w p))"
  proof (cases rule: multi_write_cases)
    case (written ss w1)
    have "ws_path ` set ss = u_path ` set us" using written(2) by (simp add: image_comp)
    moreover have "\<forall>s \<in> set ss. \<not> temp_path (w_env w1) (ws_path s)" using plain written(2,3) by simp
    moreover have "\<forall>s \<in> set ss. ws_original s = map_option universal_newlines (file_at w1 (ws_path s))"
      using written(2,4) by simp
    ultimately show ?thesis using write_staged_failure [of ss w1 _ w'] written(1,3,4) by simp
  qed simp
qed

definition sample_updates :: "text_update list" where
  "sample_updates = [\<lparr>u_path = [''v'', ''a.txt''], u_text = ''new a''\<rparr>, \<lparr>u_path = [''v'', ''b.txt''], u_text = ''new b''\<rparr>]"

theorem multi_write_all_or_nothing_witness:
  "fst (atomic_multi_write sample_updates (sample_world (fault_at 9 None))) =
       Inl (FilesystemTransactionError ''disk full'') \<and>
     file_at (snd (atomic_multi_write sample_updates (sample_world (fault_at 9 None)))) [''v'', ''a.txt''] = Some ''old a''"
proof -
  let ?w = "sample_world (fault_at 9 None)"
  have r: "fst (atomic_multi_write sample_updates ?w) = Inl (FilesystemTransactionError ''disk full'')"
    by code_simp
  have clean: "\<not> rollback_reported ''disk full''" by (simp add: rollback_reported_def sublist_code)
  have plain: "\<forall>u \<in> set sample_updates. \<not> temp_path (w_env ?w) (u_path u)"
    and a: "\<not> temp_path (w_env ?w) [''v'', ''a.txt'']"
    using sample_not_temp [of "''a.txt''" _ "[''v'']"] sample_not_temp [of "''b.txt''" _ "[''v'']"]
    by (auto simp: sample_updates_def)
  obtain s w' where run: "atomic_multi_write sample_updates ?w = (s, w')" by (cases "atomic_multi_write sample_updates ?w")
  have old: "file_at ?w [''v'', ''a.txt''] = Some ''old a''"
    and un: "map_option universal_newlines (Some ''old a'') = Some ''old a''" by code_simp+
  have "file_at w' [''v'', ''a.txt''] = file_at ?w [''v'', ''a.txt''] \<or>
      file_at w' [''v'', ''a.txt''] = map_option universal_newlines (file_at ?w [''v'', ''a.txt''])"
    using multi_write_all_or_nothing [OF plain run] r clean a unfolding run fst_conv by blast
  then have "file_at w' [''v'', ''a.txt''] = Some ''old a''" unfolding old un by simp
  then show ?thesis using r by (simp add: run)
qed

text \<open>
  What the exceptions of the property stand for. The restore of a target stored with CR LF newlines
  writes it back with LF. And when the clean-up of the handler fails after a failed restore, its
  \<open>OSError\<close> takes the place of the error that would have named the target left with its new text.
\<close>

definition crlf_world :: world where
  "crlf_world = (sample_world (fault_at 9 None))\<lparr>w_nodes := [([''v''], DirNode),
     ([''v'', ''a.txt''], FileNode [CHR ''x'', CHR 0x0D, CHR 0x0A]), ([''v'', ''b.txt''], FileNode ''old b'')]\<rparr>"

theorem rollback_translates_newlines:
  "fst (atomic_multi_write sample_updates crlf_world) = Inl (FilesystemTransactionError ''disk full'') \<and>
   file_at crlf_world [''v'', ''a.txt''] = Some [CHR ''x'', CHR 0x0D, CHR 0x0A] \<and>
   file_at (snd (atomic_multi_write sample_updates crlf_world)) [''v'', ''a.txt''] = Some [CHR ''x'', CHR 0x0A]"
  by code_simp

definition handler_faults :: "nat \<Rightarrow> (string \<times> string option) option" where
  "handler_faults k = (if k \<in> {9, 10, 11} then Some (''disk full'', None) else None)"

theorem clean_up_error_hides_rollback_issue:
  "fst (atomic_multi_write sample_updates (sample_world handler_faults)) = Inl (OSError ''disk full'') \<and>
   file_at (snd (atomic_multi_write sample_updates (sample_world handler_faults))) [''v'', ''a.txt''] = Some ''new a'' \<and>
   file_at (snd (atomic_multi_write sample_updates (sample_world handler_faults))) [''v'', ''b.txt''] = Some ''old b''"
  by code_simp

text \<open>
  C9: a reader never sees a torn file. Whatever fails during \<open>atomic_write_text\<close>, the target holds
  either its old content or the complete new text; it holds the new text when the call returns, the
  old content when it raises \<open>FilesystemTransactionError\<close>; and no other file changes, except for
  staging files.
\<close>

theorem atomic_write_never_torn:
  assumes plain: "\<not> temp_path (w_env w) p" and run: "atomic_write_text p text w = (r, w')"
  shows "file_at w' p \<in> {file_at w p, Some text} \<and>
    (\<forall>q. r = Inr q \<longrightarrow> q = p \<and> file_at w' p = Some text) \<and>
    (\<forall>t. r = Inl (FilesystemTransactionError t) \<longrightarrow> file_at w' p = file_at w p) \<and>
    (\<forall>x. \<not> temp_path (w_env w) x \<and> x \<noteq> p \<longrightarrow> file_at w' x = file_at w x)"
proof -
  let ?E = "w_env w"
  obtain r1 w1 where 1: "stage_atomic_text p text w = (r1, w1)" by (cases "stage_atomic_text p text w")
  have l: "leaves (\<lambda>q. \<not> temp_path ?E q) ?E (stage_atomic_text p text) (temp_path ?E)" by (rule leaves_stage) simp
  note s = leavesD [OF l refl 1]
  show ?thesis
  proof (cases r1)
    case (Inl e)
    have "is_os_error e" using only_os_stage 1 Inl unfolding only_os_def by blast
    then have "w' = w1 \<and> (\<exists>t. r = Inl (FilesystemTransactionError t))"
      using run 1 Inl by (auto simp: atomic_write_text_def bindm_def catch_os_def transaction_error_def raisem_def)
    then show ?thesis using s(2) plain by auto
  next
    case (Inr q)
    note st = stage_Inr [OF 1 [unfolded Inr]]
    have pq: "p \<noteq> q" using st plain by auto
    obtain r2 w2 where 2: "op_replace q p w1 = (r2, w2)" by (cases "op_replace q p w1")
    obtain r3 w3 where 3: "cleanup_staged_file (Some q) w2 = (r3, w3)" by (cases "cleanup_staged_file (Some q) w2")
    have w3: "file_at w3 x = file_at w2 x" if "x \<noteq> q" for x using cleanup_Inr [OF 3] that by simp
    have "e \<noteq> FilesystemTransactionError t" if "r3 = Inl e" for e t
      using cleanup_not_transaction [of "[(undefined, q)]" w2 e w3 t] 3 that by (simp add: cleanup_updates_def bindm_def)
    note no_fte = this
    show ?thesis
    proof (cases r2)
      case (Inl e)
      have e: "is_os_error e" and w2: "\<And>x. file_at w2 x = file_at w1 x"
        using replace_Inl [OF 2 [unfolded Inl]] by blast+
      have "w' = w3 \<and> (\<exists>e. r = Inl e)"
        using run 1 Inr 2 Inl 3 e by (cases r3)
          (auto simp: atomic_write_text_def bindm_def catch_os_def transaction_error_def raisem_def finallym_def)
      moreover have "file_at w3 x = file_at w x" if "\<not> temp_path ?E x" for x
        using that w2 w3 [of x] st by auto
      ultimately show ?thesis using plain by auto
    next
      case u: (Inr u)
      from replace_Inr [OF 2 [unfolded u]] st have w2: "file_at w2 p = Some text" "\<And>x. x \<noteq> p \<Longrightarrow> x \<noteq> q \<Longrightarrow> file_at w2 x = file_at w1 x"
        using pq by auto
      have "w' = w3" and "r = (case r3 of Inl e \<Rightarrow> Inl e | Inr _ \<Rightarrow> Inr p)"
        using run 1 Inr 2 u 3 by (cases r3;
          simp add: atomic_write_text_def bindm_def catch_os_def finallym_def returnm_def)+
      moreover have "file_at w3 x = file_at w x" if "\<not> temp_path ?E x" "x \<noteq> p" for x
        using that w2(2) [of x] w3 [of x] st by auto
      ultimately show ?thesis using w2(1) w3 [OF pq] pq no_fte by (cases r3) auto
    qed
  qed
qed

theorem atomic_write_never_torn_witness:
  "fst (atomic_write_text [''v'', ''a.txt''] ''new a'' (sample_world (fault_at 2 (Some ''ne'')))) =
       Inl (FilesystemTransactionError ''disk full'') \<and>
     file_at (snd (atomic_write_text [''v'', ''a.txt''] ''new a'' (sample_world (fault_at 2 (Some ''ne''))))) [''v'', ''a.txt''] =
       Some ''old a''"
proof -
  let ?w = "sample_world (fault_at 2 (Some ''ne''))"
  let ?run = "atomic_write_text [''v'', ''a.txt''] ''new a'' ?w"
  have r: "fst ?run = Inl (FilesystemTransactionError ''disk full'')" by code_simp
  obtain s w' where run: "?run = (s, w')" by (cases ?run)
  have a: "\<not> temp_path (w_env ?w) [''v'', ''a.txt'']" using sample_not_temp [of "''a.txt''" _ "[''v'']"] by simp
  have "file_at w' [''v'', ''a.txt''] = file_at ?w [''v'', ''a.txt'']"
    using atomic_write_never_torn [OF a run] r unfolding run fst_conv by blast
  also have "\<dots> = Some ''old a''" by code_simp
  finally show ?thesis using r by (simp add: run)
qed

definition backup_path :: "os_env \<Rightarrow> fpath \<Rightarrow> bool" where
  "backup_path E p \<longleftrightarrow> (\<exists>dir name k. p = dir @ [''.'' @ name @ ''.'' @ e_tmp E k @ ''.bak''])"

lemma copy2_Inr:
  assumes "op_copy2 src dst w = (Inr u, w')"
  shows "\<exists>t. file_at w src = Some t \<and> (\<forall>p. file_at w' p = (if p = dst then Some t else file_at w p)) \<and> w_env w' = w_env w"
  using assms by (auto simp: op_copy2_def step_io_def Let_def file_at_def [of w]
      split: option.splits node.splits if_splits)

lemma leaves_attempt: "leaves P E m Q \<Longrightarrow> leaves P E (attempt m) (\<lambda>r. \<forall>x. r = Inr x \<longrightarrow> Q x)"
  by (rule leavesI) (auto simp: attempt_def dest: leavesD split: prod.splits)

lemma leaves_replace_attempt:
  assumes "temp_path E staged"
  shows "leaves (\<lambda>p. \<not> temp_path E p \<and> \<not> backup_path E p \<and> p \<noteq> dst) E (replace_attempt src dst staged)
     (\<lambda>(r, b). \<forall>q. b = Some q \<longrightarrow> backup_path E q)"
proof -
  let ?P = "\<lambda>p. \<not> temp_path E p \<and> \<not> backup_path E p \<and> p \<noteq> dst"
  have bak: "leaves ?P E (op_mkstemp (butlast dst) (stage_prefix dst) ''.bak'') (backup_path E)"
    by (rule leaves_weaken [OF leaves_mkstemp [of ?P]]) (auto simp: backup_path_def stage_prefix_def)
  have replace: "leaves ?P E (op_replace staged dst) (\<lambda>_. True)" by (rule leaves_replace) (use assms in auto)
  have copy: "leaves ?P E (op_copy2 a b) (\<lambda>_. True)" if "temp_path E b \<or> backup_path E b" for a b
    by (rule leaves_copy2) (use that in auto)
  show ?thesis unfolding replace_attempt_def
    by (auto intro!: leaves_bind [OF leaves_attempt [OF copy]] leaves_bind [OF leaves_attempt [OF replace]]
        leaves_bind [OF leaves_exists] leaves_bind [OF leaves_attempt [OF bak]] leaves_return
        leaves_bind [OF leaves_attempt [OF leaves_bind [OF copy replace]]] simp: assms split: sum.splits)
qed

lemma replace_attempt_Inr:
  assumes run: "replace_attempt src dst staged w = (Inr (Inr u, b), w')" and sep: "staged \<noteq> dst"
  shows "\<exists>t. file_at w src = Some t \<and> file_at w' dst = Some t"
proof -
  obtain r1 w1 where 1: "op_copy2 src staged w = (r1, w1)" by (cases "op_copy2 src staged w")
  obtain v where r1: "r1 = Inr v" using run 1 by (cases r1) (auto simp: replace_attempt_def bindm_def attempt_def)
  obtain t where t: "file_at w src = Some t" "file_at w1 staged = Some t" using copy2_Inr [OF 1 [unfolded r1]] by auto
  have fin: "file_at w' dst = Some t" if "op_replace staged dst v = (Inr x, w')" "file_at v staged = Some t" for v x
    using replace_Inr [OF that(1)] that(2) by auto
  show ?thesis
  proof (cases "dst = [] \<or> node_of w1 dst \<noteq> None")
    case False
    then have "\<exists>x. op_replace staged dst w1 = (Inr x, w')"
      using run 1 r1 by (auto simp: replace_attempt_def bindm_def path_exists_def attempt_def returnm_def split: prod.splits)
    then show ?thesis using fin t by blast
  next
    case True
    obtain r2 w2 where 2: "op_mkstemp (butlast dst) (stage_prefix dst) ''.bak'' w1 = (r2, w2)"
      by (cases "op_mkstemp (butlast dst) (stage_prefix dst) ''.bak'' w1")
    obtain q where q: "r2 = Inr q" using run 1 r1 True 2
      by (cases r2) (auto simp: replace_attempt_def bindm_def path_exists_def attempt_def returnm_def)
    note m = mkstemp_Inr [OF 2 [unfolded q]]
    have w2: "file_at w2 staged = Some t" using m t by auto
    obtain x y w3 where 3: "op_copy2 dst q w2 = (Inr y, w3)" and 4: "op_replace staged dst w3 = (Inr x, w')"
      using run 1 r1 True 2 q
      by (auto simp: replace_attempt_def bindm_def path_exists_def attempt_def returnm_def split: prod.splits sum.splits)
    have "q \<noteq> staged" using m t(2) by auto
    then have "file_at w3 staged = Some t" using copy2_Inr [OF 3] w2 by auto
    then show ?thesis using fin 4 t(1) by blast
  qed
qed

text \<open>
  Replacing a file by a copy. When \<open>stage_replace_file\<close> returns, the destination holds what the
  source held at the start. In every outcome no file but the destination and the temporary files
  changes.
\<close>


theorem stage_replace_copies:
  assumes plain: "\<not> temp_path (w_env w) dst" "\<not> backup_path (w_env w) dst" "\<not> temp_path (w_env w) src"
    and run: "stage_replace_file src dst w = (r, w')"
  shows "(r = Inr () \<longrightarrow> file_at w src \<noteq> None \<and> file_at w' dst = file_at w src) \<and>
    (\<forall>p. p \<noteq> dst \<and> \<not> temp_path (w_env w) p \<and> \<not> backup_path (w_env w) p \<longrightarrow> file_at w' p = file_at w p)"
proof -
  let ?E = "w_env w" and ?P = "\<lambda>p. \<not> temp_path (w_env w) p \<and> \<not> backup_path (w_env w) p \<and> p \<noteq> dst"
  have tmp: "leaves ?P ?E (op_mkstemp (butlast dst) (stage_prefix dst) ''.tmp'') (temp_path ?E)"
    by (rule leaves_weaken [OF leaves_mkstemp [of ?P]]) (auto simp: temp_path_def stage_prefix_def)
  have restore: "leaves ?P ?E (restore_backup dst b) (\<lambda>_. True)" if "\<forall>q. b = Some q \<longrightarrow> backup_path ?E q" for b
    using that by (cases b) (auto simp: restore_backup_def intro!: leaves_return leaves_bind [OF leaves_exists]
        leaves_catch leaves_replace)
  have clean: "leaves ?P ?E (bindm (cleanup_staged_file (Some s)) (\<lambda>_. cleanup_staged_file b)) (\<lambda>_. True)"
    if "temp_path ?E s" "\<forall>q. b = Some q \<longrightarrow> backup_path ?E q" for s b
    by (rule leaves_bind [OF leaves_cleanup leaves_cleanup]) (use that in auto)
  have frame: "leaves ?P ?E (stage_replace_file src dst) (\<lambda>_. True)"
    unfolding stage_replace_file_def
    by (rule leaves_bind [OF leaves_mkdir], rule leaves_bind [OF tmp], rule leaves_bind [OF leaves_replace_attempt])
      (auto intro!: leaves_finally clean leaves_return leaves_raise leaves_bind [OF restore]
        simp: transaction_error_def split: sum.splits)
  have "file_at w src \<noteq> None \<and> file_at w' dst = file_at w src" if r: "r = Inr ()"
  proof -
    obtain staged rb w1 w2 w3 b u v where 1: "op_mkdir (butlast dst) w = (Inr u, w1)"
      and 2: "op_mkstemp (butlast dst) (stage_prefix dst) ''.tmp'' w1 = (Inr staged, w2)"
      and 3: "replace_attempt src dst staged w2 = (Inr (rb, b), w3)"
      and 4: "finallym (case rb of Inr _ \<Rightarrow> returnm () | Inl e \<Rightarrow>
                if is_os_error e then bindm (restore_backup dst b) (\<lambda>_. transaction_error e) else raisem e)
              (bindm (cleanup_staged_file (Some staged)) (\<lambda>_. cleanup_staged_file b)) w3 = (Inr v, w')"
      using run r unfolding stage_replace_file_def by (auto elim!: bindm_Inr)
    obtain x where rb: "rb = Inr x"
      using 4 by (cases rb) (auto simp: transaction_error_def elim!: finallym_Inr bindm_Inr split: if_splits)
    note m = mkstemp_Inr [OF 2] and k = mkdir_keeps [OF 1]
    have st: "temp_path ?E staged" using m k temp_path_stage by metis
    have src: "file_at w2 src = file_at w src" using m k plain(3) st by auto
    obtain t where t: "file_at w2 src = Some t" "file_at w3 dst = Some t"
      using replace_attempt_Inr [OF 3 [unfolded rb]] st plain(1) by blast
    have e3: "w_env w3 = ?E" and b: "\<forall>q. b = Some q \<longrightarrow> backup_path ?E q"
      using leavesD(1,3) [OF leaves_replace_attempt [OF st] _ 3] m k by auto
    have cl: "leaves (\<lambda>p. p = dst) ?E (bindm (cleanup_staged_file (Some staged)) (\<lambda>_. cleanup_staged_file b)) (\<lambda>_. True)"
      by (rule leaves_bind [OF leaves_cleanup leaves_cleanup]) (use plain st b in auto)
    obtain w4 z where "(returnm () :: unit io) w3 = (Inr v, w4)"
        "bindm (cleanup_staged_file (Some staged)) (\<lambda>_. cleanup_staged_file b) w4 = (Inr z, w')"
      using 4 unfolding rb sum.case by (rule finallym_Inr)
    then have "file_at w' dst = file_at w3 dst" using leavesD(2) [OF cl e3] by simp
    with t src show ?thesis by simp
  qed
  then show ?thesis using leavesD(2) [OF frame refl run] by blast
qed

theorem stage_replace_copies_witness:
  "file_at (snd (stage_replace_file [''v'', ''b.txt''] [''v'', ''a.txt''] (sample_world (\<lambda>_. None)))) [''v'', ''a.txt''] =
     Some ''old b''"
proof -
  let ?w = "sample_world (\<lambda>_. None)"
  obtain r w' where run: "stage_replace_file [''v'', ''b.txt''] [''v'', ''a.txt''] ?w = (r, w')"
    by (cases "stage_replace_file [''v'', ''b.txt''] [''v'', ''a.txt''] ?w")
  have "fst (stage_replace_file [''v'', ''b.txt''] [''v'', ''a.txt''] ?w) = Inr ()" by code_simp
  then have r: "r = Inr ()" by (simp add: run)
  have "file_at ?w [''v'', ''b.txt''] = Some ''old b''" by code_simp
  moreover have "\<not> temp_path (w_env ?w) [''v'', ''a.txt'']" "\<not> backup_path (w_env ?w) [''v'', ''a.txt'']"
      "\<not> temp_path (w_env ?w) [''v'', ''b.txt'']"
    by (auto simp: temp_path_def backup_path_def)
  ultimately show ?thesis using stage_replace_copies [OF _ _ _ run] r by (simp add: run)
qed

text \<open>
  C32: a failed backup overwrites the destination. In \<open>stage_replace_file\<close> the variable
  \<open>backup_path\<close> is set before the copy into it succeeds. When that copy fails, having written only a
  part (here \<open>ol\<close>), the error handler replaces the intact destination (\<open>old a\<close>) by the torn backup:
  the original content is lost although the call reports failure.
\<close>

theorem torn_backup_destroys_destination:
  "\<exists>w w'. file_at w [''v'', ''a.txt''] = Some ''old a'' \<and>
     stage_replace_file [''v'', ''b.txt''] [''v'', ''a.txt''] w =
       (Inl (FilesystemTransactionError ''disk full''), w') \<and>
     file_at w' [''v'', ''a.txt''] = Some ''ol''"
proof -
  let ?w = "sample_world (fault_at 4 (Some ''ol''))"
  have "file_at ?w [''v'', ''a.txt''] = Some ''old a''"
    and "fst (stage_replace_file [''v'', ''b.txt''] [''v'', ''a.txt''] ?w) =
       Inl (FilesystemTransactionError ''disk full'')"
    and "file_at (snd (stage_replace_file [''v'', ''b.txt''] [''v'', ''a.txt''] ?w)) [''v'', ''a.txt''] = Some ''ol''"
    by code_simp+
  then show ?thesis by (metis prod.collapse)
qed

end
