(* ===== verification/ManifestApply.thy ===== *)
theory ManifestApply
  imports AtomicFiles
begin

section \<open>The manifest transaction\<close>

text \<open>
  The transaction half of \<open>core/filesystem_runtime.py\<close>: preparing the entries of a changed-files
  manifest (backups and staged copies in a temporary directory), applying them to the live tree,
  rolling back in reverse order, the dry-run plan and the rehearsal with their reports. The
  digest \<open>hashlib.sha256\<close> and the report writer are parameters.
\<close>

subsection \<open>Manifest paths on the file system\<close>

definition path_has_symlink_segments :: "os_env \<Rightarrow> fpath \<Rightarrow> string \<Rightarrow> bool" where
  "path_has_symlink_segments E rt rel =
     (let parts = path_parts rel
      in list_ex (\<lambda>n. e_link E (rt @ take (Suc n) parts)) [0..<length parts])"

definition resolve_manifest_apply_path :: "fpath \<Rightarrow> string \<Rightarrow> string \<Rightarrow> fpath io" where
  "resolve_manifest_apply_path rt rel label = (\<lambda>w.
     let E = w_env w
     in if path_has_symlink_segments E rt rel
        then (Inl (FilesystemTransactionError
                (label @ '' path resolves through symlink segments for '' @ rel)), w)
        else if \<not> prefix (e_resolve E rt) (e_resolve E (rt @ path_parts rel))
        then (Inl (FilesystemTransactionError
                (label @ '' path escapes root after resolve for '' @ rel)), w)
        else (Inr (e_resolve E (rt @ path_parts rel)), w))"

subsection \<open>Preparing\<close>

record manifest_item =
  ai_rel :: string
  ai_change :: string
  ai_live :: fpath
  ai_workspace :: "fpath option"
  ai_backup :: "fpath option"
  ai_staged :: "fpath option"
  ai_existed :: bool

text \<open>\<open>change_type not in {...}\<close> hashes the value first.\<close>

definition manifest_change :: "string \<Rightarrow> pyval \<Rightarrow> string res" where
  "manifest_change rel change =
     (if is_list change \<or> is_dict change then Inl TypeError
      else if change \<in> {PyStr ''added'', PyStr ''modified'', PyStr ''deleted''} then Inr (the_str change)
      else Inl (FilesystemTransactionError
             (''invalid manifest change_type for '' @ rel @ '': '' @ py_str change)))"

definition stage_candidate :: "fpath option \<Rightarrow> fpath \<Rightarrow> string \<Rightarrow> unit io" where
  "stage_candidate workspace staged rel =
     (case workspace of
        None \<Rightarrow> returnm ()
      | Some q \<Rightarrow> bindm (path_exists q) (\<lambda>present.
          if \<not> present
          then raisem (FilesystemTransactionError (''workspace candidate file is missing for '' @ rel))
          else bindm (op_mkdir (butlast staged)) (\<lambda>_. op_copy2 q staged)))"

definition candidate_path :: "fpath \<Rightarrow> string \<Rightarrow> string \<Rightarrow> fpath option io" where
  "candidate_path workspace_root rel change =
     (if change = ''deleted'' then returnm None
      else bindm (resolve_manifest_apply_path workspace_root rel ''workspace'') (\<lambda>q. returnm (Some q)))"

definition back_up :: "bool \<Rightarrow> fpath \<Rightarrow> fpath \<Rightarrow> unit io" where
  "back_up existed live backup =
     (if existed then bindm (op_mkdir (butlast backup)) (\<lambda>_. op_copy2 live backup) else returnm ())"

text \<open>The copies of one entry, once its paths are resolved.\<close>

definition copy_item :: "fpath \<Rightarrow> nat \<Rightarrow> string \<Rightarrow> string \<Rightarrow> fpath \<Rightarrow> fpath option \<Rightarrow> manifest_item io" where
  "copy_item tmp_dir index rel change live workspace =
     (let backup = tmp_dir @ [nat_text index @ ''.backup''];
          staged = tmp_dir @ [nat_text index @ ''.staged'']
      in bindm (path_exists live) (\<lambda>existed.
         bindm (back_up existed live backup) (\<lambda>_.
         bindm (stage_candidate workspace staged rel) (\<lambda>_.
           returnm \<lparr>ai_rel = rel, ai_change = change, ai_live = live, ai_workspace = workspace,
             ai_backup = (if existed then Some backup else None),
             ai_staged = (if change = ''deleted'' then None else Some staged),
             ai_existed = existed\<rparr>))))"

definition prepare_item :: "fpath \<Rightarrow> fpath \<Rightarrow> fpath \<Rightarrow> nat \<Rightarrow> pyval \<Rightarrow> manifest_item io" where
  "prepare_item live_root workspace_root tmp_dir index entry =
     (case entry of
        PyDict d \<Rightarrow>
          (case normalize_manifest_repo_path (dget d ''path'' PyNone) of
             None \<Rightarrow> raisem (FilesystemTransactionError (''invalid manifest path at index '' @ nat_text index))
           | Some rel \<Rightarrow>
               bindm (liftm (manifest_change rel (dget d ''change_type'' PyNone))) (\<lambda>change.
               bindm (resolve_manifest_apply_path live_root rel ''live'') (\<lambda>live.
               bindm (candidate_path workspace_root rel change) (\<lambda>workspace.
                 copy_item tmp_dir index rel change live workspace))))
      | _ \<Rightarrow> raisem (FilesystemTransactionError (''invalid manifest entry at index '' @ nat_text index)))"

fun prepare_items :: "fpath \<Rightarrow> fpath \<Rightarrow> fpath \<Rightarrow> nat \<Rightarrow> pyval list \<Rightarrow> manifest_item list io" where
  "prepare_items live ws tmp i [] = returnm []"
| "prepare_items live ws tmp i (e # es) =
     bindm (prepare_item live ws tmp i e) (\<lambda>x.
     bindm (prepare_items live ws tmp (Suc i) es) (\<lambda>xs. returnm (x # xs)))"

subsection \<open>Applying and rolling back\<close>

text \<open>One round of the apply loop; the result is the entry of \<open>deleted_live_paths\<close>, if any.\<close>

definition apply_item :: "manifest_item \<Rightarrow> fpath option io" where
  "apply_item i =
     (if ai_change i = ''deleted''
      then bindm (path_exists (ai_live i)) (\<lambda>present.
             if present then bindm (op_unlink (ai_live i)) (\<lambda>_. returnm (Some (ai_live i)))
             else returnm None)
      else bindm (op_mkdir (butlast (ai_live i))) (\<lambda>_.
           bindm (op_replace (case ai_staged i of Some q \<Rightarrow> q | None \<Rightarrow> []) (ai_live i)) (\<lambda>_. returnm None)))"

definition rollback_item :: "manifest_item \<Rightarrow> unit io" where
  "rollback_item i =
     (case ai_backup i of
        None \<Rightarrow> ignore_missing (op_unlink (ai_live i))
      | Some b \<Rightarrow> bindm (op_mkdir (butlast (ai_live i))) (\<lambda>_. op_replace b (ai_live i)))"

definition rollback_manifest_items :: "manifest_item list \<Rightarrow> string list io" where
  "rollback_manifest_items applied = undo_all rollback_item ai_rel (rev applied)"

function remove_empty_parents :: "fpath \<Rightarrow> fpath \<Rightarrow> unit io" where
  "remove_empty_parents stop current =
     (if current = stop then returnm ()
      else bindm (path_exists current) (\<lambda>present.
        if \<not> present then returnm ()
        else if current = [] then catch_os (op_rmdir []) (\<lambda>_. returnm ())
        else bindm (catch_os (bindm (op_rmdir current) (\<lambda>_. returnm True)) (\<lambda>_. returnm False))
               (\<lambda>removed. if removed then remove_empty_parents stop (butlast current) else returnm ())))"
  by pat_completeness auto

termination
  by (relation "measure (\<lambda>(stop, current). length current)") simp_all

declare remove_empty_parents.simps [simp del]

definition remove_empty_parent_dirs :: "fpath \<Rightarrow> fpath \<Rightarrow> unit io" where
  "remove_empty_parent_dirs p stop_at = (\<lambda>w. remove_empty_parents (e_resolve (w_env w) stop_at) (butlast p) w)"

subsection \<open>The shadow report\<close>

definition manifest_apply_summary :: "manifest_item list \<Rightarrow> pydict" where
  "manifest_apply_summary prepared =
     [(''total_changed_files'', PyInt (int (length prepared))),
      (''added'', PyInt (int (length (filter (\<lambda>i. ai_change i = ''added'') prepared)))),
      (''modified'', PyInt (int (length (filter (\<lambda>i. ai_change i = ''modified'') prepared)))),
      (''deleted'', PyInt (int (length (filter (\<lambda>i. ai_change i = ''deleted'') prepared))))]"

definition workspace_present :: "manifest_item \<Rightarrow> bool io" where
  "workspace_present i = (case ai_workspace i of None \<Rightarrow> returnm False | Some q \<Rightarrow> path_exists q)"

definition shadow_entry :: "manifest_item \<Rightarrow> pyval io" where
  "shadow_entry i = bindm (workspace_present i) (\<lambda>present.
     returnm (PyDict [(''path'', PyStr (ai_rel i)), (''change_type'', PyStr (ai_change i)),
       (''live_exists'', PyBool (ai_existed i)), (''workspace_exists'', PyBool present),
       (''would_write'', PyBool (ai_change i \<noteq> ''deleted'')),
       (''would_delete'', PyBool (ai_change i = ''deleted''))]))"

definition source_manifest :: "pydict \<Rightarrow> pyval" where
  "source_manifest manifest = PyDict
     [(''schema'', PyStr (py_str (dget manifest ''$schema'' (PyStr '''')))),
      (''run_id'', PyStr (py_str (dget manifest ''run_id'' (PyStr ''''))))]"

definition guard_payload :: "guard_state \<Rightarrow> pyval" where
  "guard_payload st = PyDict
     [(''allowed_apply_roots'', py_strs (g_allowed_apply_roots st)),
      (''changed_paths'', py_strs (g_changed_paths st)),
      (''invalid_paths'', py_strs (g_invalid_paths st)),
      (''disallowed_paths'', py_strs (g_disallowed_paths st))]"

definition SHADOW_APPLY_REPORT_SCHEMA :: string where
  "SHADOW_APPLY_REPORT_SCHEMA = ''ops/schemas/shadow-apply-report.schema.json''"

definition build_shadow_apply_report :: "pydict \<Rightarrow> guard_state \<Rightarrow> manifest_item list \<Rightarrow> string \<Rightarrow> pydict io" where
  "build_shadow_apply_report manifest st prepared generated_at =
     bindm (mapm shadow_entry prepared) (\<lambda>files.
       returnm [(''$schema'', PyStr SHADOW_APPLY_REPORT_SCHEMA), (''mode'', PyStr ''shadow''),
         (''status'', PyStr ''ready_for_live_apply''), (''generated_at'', PyStr generated_at),
         (''source_manifest'', source_manifest manifest), (''guard'', guard_payload st),
         (''summary'', PyDict (manifest_apply_summary prepared)), (''files'', PyList files)])"

type_synonym report_writer = "fpath \<Rightarrow> pydict \<Rightarrow> unit io"

definition write_shadow_apply_report :: report_writer where
  "write_shadow_apply_report p report = bindm (atomic_write_json p report) (\<lambda>_. returnm ())"

subsection \<open>Applying and planning\<close>

definition checked_guard :: "pydict \<Rightarrow> pyval list \<Rightarrow> guard_state res" where
  "checked_guard manifest allowed =
     (case validate_manifest_apply_guard manifest allowed of
        Inl e \<Rightarrow> Inl (if is_value_error e then FilesystemTransactionError (exc_text e) else e)
      | Inr st \<Rightarrow> Inr st)"

definition manifest_files :: "pydict \<Rightarrow> pyval list" where
  "manifest_files manifest = the_list (dget manifest ''files'' (PyList []))"

definition shadow_step ::
  "pydict \<Rightarrow> guard_state \<Rightarrow> manifest_item list \<Rightarrow> fpath option \<Rightarrow> string \<Rightarrow> report_writer \<Rightarrow> unit io" where
  "shadow_step manifest st prepared shadow generated_at writer =
     (case shadow of
        None \<Rightarrow> returnm ()
      | Some p \<Rightarrow>
          if generated_at = []
          then raisem (FilesystemTransactionError
                 ''shadow_report_generated_at is required when shadow_report_path is provided'')
          else bindm (build_shadow_apply_report manifest st prepared generated_at) (writer p))"

definition settle_apply ::
  "py_exc option \<Rightarrow> (manifest_item \<times> fpath option) list \<Rightarrow> fpath list io" where
  "settle_apply err applied =
     (case err of
        None \<Rightarrow> returnm (List.map_filter snd applied)
      | Some e \<Rightarrow>
          if is_os_error e
          then bindm (rollback_manifest_items (map fst applied)) (\<lambda>errs.
                 raisem (FilesystemTransactionError (rollback_detail e errs)))
          else raisem e)"

definition apply_in_tmp ::
  "fpath \<Rightarrow> fpath \<Rightarrow> pydict \<Rightarrow> guard_state \<Rightarrow> fpath option \<Rightarrow> string \<Rightarrow> report_writer \<Rightarrow> fpath \<Rightarrow>
   fpath list io" where
  "apply_in_tmp live_root workspace_root manifest st shadow generated_at writer tmp_dir =
     bindm (attempt (
       bindm (prepare_items live_root workspace_root tmp_dir 0 (manifest_files manifest)) (\<lambda>prepared.
       bindm (shadow_step manifest st prepared shadow generated_at writer) (\<lambda>_. returnm prepared)))) (\<lambda>r.
     case r of
       Inl e \<Rightarrow> settle_apply (Some e) []
     | Inr prepared \<Rightarrow> bindm (run_log apply_item prepared []) (\<lambda>(err, applied). settle_apply err applied))"

definition apply_manifest_transaction ::
  "fpath \<Rightarrow> fpath \<Rightarrow> pydict \<Rightarrow> pyval list \<Rightarrow> fpath option \<Rightarrow> string \<Rightarrow> report_writer \<Rightarrow> string list io" where
  "apply_manifest_transaction live_root workspace_root manifest allowed shadow generated_at writer =
     bindm (liftm (checked_guard manifest allowed)) (\<lambda>st.
     bindm (op_mkdtemp live_root ''.manifest-apply-'') (\<lambda>tmp_dir.
     bindm (finallym (apply_in_tmp live_root workspace_root manifest st shadow generated_at writer tmp_dir)
              (op_rmtree tmp_dir)) (\<lambda>deleted.
     bindm (eachm (\<lambda>p. remove_empty_parent_dirs p live_root) deleted) (\<lambda>_.
       returnm (g_changed_paths st)))))"

definition plan_manifest_apply_transaction ::
  "fpath \<Rightarrow> fpath \<Rightarrow> pydict \<Rightarrow> pyval list \<Rightarrow> fpath \<Rightarrow> string \<Rightarrow> report_writer \<Rightarrow> string list io" where
  "plan_manifest_apply_transaction live_root workspace_root manifest allowed shadow generated_at writer =
     (if generated_at = []
      then raisem (FilesystemTransactionError ''shadow_report_generated_at is required'')
      else bindm (liftm (checked_guard manifest allowed)) (\<lambda>st.
           bindm (op_mkdtemp live_root ''.manifest-plan-'') (\<lambda>tmp_dir.
           bindm (finallym
             (bindm (prepare_items live_root workspace_root tmp_dir 0 (manifest_files manifest)) (\<lambda>prepared.
              bindm (build_shadow_apply_report manifest st prepared generated_at) (writer shadow)))
             (op_rmtree tmp_dir)) (\<lambda>_. returnm (g_changed_paths st)))))"

subsection \<open>Frames\<close>

text \<open>The scratch paths of a run: the temporary directory, staging files, the shadow report.\<close>

definition scratch_path :: "os_env \<Rightarrow> fpath \<Rightarrow> fpath option \<Rightarrow> fpath \<Rightarrow> bool" where
  "scratch_path E tmp shadow p \<longleftrightarrow> prefix tmp p \<or> temp_path E p \<or> Some p = shadow"

lemma leaves_resolve [leaves_rules]:
  "leaves P E (resolve_manifest_apply_path rt rel label)
     (\<lambda>p. p = e_resolve E (rt @ path_parts rel) \<and> prefix (e_resolve E rt) p)"
  by (rule leavesI) (auto simp: resolve_manifest_apply_path_def Let_def split: if_splits)

lemma backup_name_distinct:
  "tmp @ [nat_text i @ ''.backup''] \<noteq> tmp @ [nat_text j @ ''.staged'']"
  "tmp @ [nat_text i @ ''.backup''] = tmp @ [nat_text j @ ''.backup''] \<longleftrightarrow> nat_text i = nat_text j"
proof -
  have "last (nat_text i @ ''.backup'') \<noteq> last (nat_text j @ ''.staged'')" by simp
  then show "tmp @ [nat_text i @ ''.backup''] \<noteq> tmp @ [nat_text j @ ''.staged'']" by auto
qed simp

text \<open>What a prepared item looks like.\<close>

definition prepared_as :: "os_env \<Rightarrow> fpath \<Rightarrow> fpath \<Rightarrow> fpath \<Rightarrow> nat \<Rightarrow> pyval \<Rightarrow> manifest_item \<Rightarrow> bool" where
  "prepared_as E live ws tmp index entry i \<longleftrightarrow>
     (\<exists>d rel. entry = PyDict d \<and> normalize_manifest_repo_path (dget d ''path'' PyNone) = Some rel \<and>
        ai_rel i = rel \<and> ai_live i = e_resolve E (live @ path_parts rel) \<and>
        prefix (e_resolve E live) (ai_live i) \<and>
        dget d ''change_type'' PyNone = PyStr (ai_change i) \<and>
        ai_change i \<in> {''added'', ''modified'', ''deleted''} \<and>
        (ai_change i \<noteq> ''deleted'' \<longrightarrow> ai_workspace i = Some (e_resolve E (ws @ path_parts rel))) \<and>
        ai_backup i = (if ai_existed i then Some (tmp @ [nat_text index @ ''.backup'']) else None) \<and>
        ai_staged i = (if ai_change i = ''deleted'' then None else Some (tmp @ [nat_text index @ ''.staged''])))"

lemma manifest_change_Inr:
  "manifest_change rel c = Inr t \<Longrightarrow> c = PyStr t \<and> t \<in> {''added'', ''modified'', ''deleted''}"
  by (auto simp: manifest_change_def split: if_splits)

lemma leaves_prepare_item:
  assumes "\<not> P (tmp @ [nat_text index @ ''.backup''])" and "\<not> P (tmp @ [nat_text index @ ''.staged''])"
  shows "leaves P E (prepare_item live ws tmp index entry) (prepared_as E live ws tmp index entry)"
proof -
  have stage: "leaves P E (stage_candidate q (tmp @ [nat_text index @ ''.staged'']) rel) (\<lambda>_. True)" for q rel
    unfolding stage_candidate_def
    by (cases q) (auto intro!: leaves_return leaves_bind [OF leaves_exists] leaves_raise
        leaves_bind [OF leaves_mkdir] leaves_copy2 assms)
  have backup: "leaves P E (back_up b src (tmp @ [nat_text index @ ''.backup''])) (\<lambda>_. True)" for b src
    unfolding back_up_def by (auto intro!: leaves_return leaves_bind [OF leaves_mkdir] leaves_copy2 assms)
  have change: "leaves P E (liftm (manifest_change rel c)) (\<lambda>t. c = PyStr t \<and> t \<in> {''added'', ''modified'', ''deleted''})"
    for rel c by (rule leaves_lift) (rule manifest_change_Inr)
  have workspace: "leaves P E (candidate_path ws rel t)
      (\<lambda>q. t \<noteq> ''deleted'' \<longrightarrow> q = Some (e_resolve E (ws @ path_parts rel)))" for t rel
    unfolding candidate_path_def by (auto intro!: leaves_return leaves_bind [OF leaves_resolve])
  show ?thesis unfolding prepare_item_def copy_item_def Let_def
    by (cases entry)
      (auto simp: prepared_as_def split: option.splits intro!: leaves_raise leaves_bind [OF change]
        leaves_bind [OF leaves_resolve] leaves_bind [OF workspace] leaves_bind [OF leaves_exists]
        leaves_bind [OF backup] leaves_bind [OF stage] leaves_return)
qed

fun prepared_list :: "os_env \<Rightarrow> fpath \<Rightarrow> fpath \<Rightarrow> fpath \<Rightarrow> nat \<Rightarrow> pyval list \<Rightarrow> manifest_item list \<Rightarrow> bool" where
  "prepared_list E live ws tmp i [] xs = (xs = [])"
| "prepared_list E live ws tmp i (e # es) xs =
     (\<exists>y ys. xs = y # ys \<and> prepared_as E live ws tmp i e y \<and> prepared_list E live ws tmp (Suc i) es ys)"

definition prepared_file :: "fpath \<Rightarrow> nat \<Rightarrow> fpath \<Rightarrow> bool" where
  "prepared_file tmp i p \<longleftrightarrow>
     (\<exists>j \<ge> i. p = tmp @ [nat_text j @ ''.backup''] \<or> p = tmp @ [nat_text j @ ''.staged''])"

lemma prepared_file_Suc: "prepared_file tmp (Suc i) p \<Longrightarrow> prepared_file tmp i p"
  unfolding prepared_file_def by (elim exE conjE, rule exI, rule conjI, erule Suc_leD, assumption)

lemma leaves_prepare_items:
  assumes "\<And>p. P p \<Longrightarrow> \<not> prepared_file tmp i p"
  shows "leaves P E (prepare_items live ws tmp i es) (prepared_list E live ws tmp i es)"
  using assms
proof (induction es arbitrary: i)
  case (Cons e es)
  have rest: "leaves P E (prepare_items live ws tmp (Suc i) es) (prepared_list E live ws tmp (Suc i) es)"
    using Cons.IH Cons.prems prepared_file_Suc by blast
  have hd: "leaves P E (prepare_item live ws tmp i e) (prepared_as E live ws tmp i e)"
    by (rule leaves_prepare_item) (use Cons.prems in \<open>auto simp: prepared_file_def\<close>)
  show ?case unfolding prepare_items.simps
    by (rule leaves_bind [OF hd], rule leaves_bind [OF rest]) (simp add: leaves_return)
qed (simp add: leaves_return)

definition quiet_writer :: "os_env \<Rightarrow> report_writer \<Rightarrow> bool" where
  "quiet_writer E writer \<longleftrightarrow>
     (\<forall>p report. leaves (\<lambda>q. q \<noteq> p \<and> \<not> temp_path E q) E (writer p report) (\<lambda>_. True))"

lemma leaves_atomic_write_text: "leaves (\<lambda>q. q \<noteq> p \<and> \<not> temp_path E q) E (atomic_write_text p t) (\<lambda>_. True)"
proof -
  let ?P = "\<lambda>q. q \<noteq> p \<and> \<not> temp_path E q"
  have stage: "leaves ?P E (catch_os (stage_atomic_text p t) transaction_error) (temp_path E)"
    unfolding transaction_error_def by (rule leaves_catch [OF leaves_stage leaves_raise]) simp
  show ?thesis unfolding atomic_write_text_def
    by (rule leaves_bind [OF stage], rule leaves_bind [where R = "\<lambda>_. True"])
      (auto intro!: leaves_finally leaves_catch leaves_replace leaves_cleanup leaves_return leaves_raise
        simp: transaction_error_def)
qed

text \<open>The default writer changes nothing but the report and its staging file.\<close>

lemma default_writer_quiet: "quiet_writer E write_shadow_apply_report"
  by (auto simp: quiet_writer_def write_shadow_apply_report_def atomic_write_json_def
      intro!: leaves_bind [where R = "\<lambda>_. True"] leaves_return leaves_atomic_write_text)

lemma leaves_workspace_present: "leaves P E (workspace_present i) (\<lambda>_. True)"
  by (auto simp: workspace_present_def split: option.splits intro!: leaves_return leaves_exists)

lemma leaves_build_shadow: "leaves P E (build_shadow_apply_report m st items t) (\<lambda>_. True)"
  unfolding build_shadow_apply_report_def
  by (rule leaves_bind [OF leaves_mapm [where R = "\<lambda>_ _. True"]])
    (auto simp: shadow_entry_def intro!: leaves_return leaves_bind [OF leaves_workspace_present])

lemma leaves_shadow_step:
  assumes "quiet_writer E writer"
  shows "leaves (\<lambda>q. \<not> temp_path E q \<and> Some q \<noteq> shadow) E (shadow_step m st items shadow t writer) (\<lambda>_. True)"
proof (cases shadow)
  case (Some p)
  have "leaves (\<lambda>q. \<not> temp_path E q \<and> Some q \<noteq> shadow) E (writer p report) (\<lambda>_. True)" for report
    using assms Some unfolding quiet_writer_def by (auto elim!: leaves_weaken allE [of _ p])
  with Some show ?thesis
    by (auto simp: shadow_step_def intro!: leaves_raise leaves_bind [OF leaves_build_shadow])
qed (simp add: shadow_step_def leaves_return)

lemma leaves_apply_item:
  assumes "\<not> P (ai_live i)" and "\<And>q. ai_change i \<noteq> ''deleted'' \<Longrightarrow> ai_staged i = Some q \<Longrightarrow> \<not> P q" and "ai_change i = ''deleted'' \<or> ai_staged i \<noteq> None"
  shows "leaves P E (apply_item i) (\<lambda>_. True)"
  unfolding apply_item_def using assms
  by (auto intro!: leaves_bind [OF leaves_exists] leaves_bind [OF leaves_unlink] leaves_return
      leaves_bind [OF leaves_mkdir] leaves_bind [OF leaves_replace])

lemma leaves_rollback_item:
  assumes "\<not> P (ai_live i)" and "\<And>q. ai_backup i = Some q \<Longrightarrow> \<not> P q"
  shows "leaves P E (rollback_item i) (\<lambda>_. True)"
  unfolding rollback_item_def using assms
  by (auto split: option.splits intro!: leaves_ignore leaves_unlink leaves_bind [OF leaves_mkdir] leaves_replace)

lemma leaves_remove_parents: "leaves P E (remove_empty_parents stop p) (\<lambda>_. True)"
proof (induction stop p rule: remove_empty_parents.induct)
  case (1 stop p)
  have rec: "leaves P E (if b then remove_empty_parents stop (butlast p) else returnm ()) (\<lambda>_. True)"
    if "p \<noteq> stop" "p \<noteq> []" for b
    using 1 that by (auto intro: leaves_return)
  show ?case
    unfolding remove_empty_parents.simps [of stop p]
    by (auto intro!: leaves_return leaves_bind [OF leaves_exists] leaves_catch leaves_rmdir
        leaves_bind [where R = "\<lambda>_. True"] rec)
qed

lemma leaves_remove_parent_dirs: "leaves P E (remove_empty_parent_dirs p stop) (\<lambda>_. True)"
  using leaves_remove_parents [of P E] unfolding remove_empty_parent_dirs_def leaves_def by blast
subsection \<open>What preparation stores\<close>

lemma digit_char_inj: "digit_char a = digit_char b \<Longrightarrow> a < 10 \<Longrightarrow> b < 10 \<Longrightarrow> a = b"
proof -
  assume "digit_char a = digit_char b" "a < 10" "b < 10"
  then have "(of_char (char_of (48 + a)) :: nat) = of_char (char_of (48 + b))" by (simp add: digit_char_def)
  with \<open>a < 10\<close> \<open>b < 10\<close> show "a = b" by simp
qed

lemma nat_text_ne: "nat_text n \<noteq> []"
  by (subst nat_text.simps) simp

lemma nat_text_inj: "nat_text m = nat_text n \<Longrightarrow> m = n"
proof (induction m arbitrary: n rule: less_induct)
  case (less m)
  note eq = less.prems [unfolded nat_text.simps [of m] nat_text.simps [of n]]
  show ?case
  proof (cases "m < 10")
    case True
    have "n < 10"
    proof (rule ccontr)
      assume "\<not> n < 10"
      then have "nat_text (n div 10) = []" using eq True by simp
      then show False using nat_text_ne by blast
    qed
    with True eq digit_char_inj show ?thesis by simp
  next
    case False
    have n: "\<not> n < 10"
    proof
      assume "n < 10"
      then have "nat_text (m div 10) = []" using eq False by simp
      then show False using nat_text_ne by blast
    qed
    then have "nat_text (m div 10) = nat_text (n div 10)" "m mod 10 = n mod 10"
      using eq False by (auto dest: digit_char_inj)
    then have "m div 10 = n div 10" using less.IH False by simp
    with \<open>m mod 10 = n mod 10\<close> show ?thesis by (metis mult_div_mod_eq)
  qed
qed

definition outside :: "os_env \<Rightarrow> fpath \<Rightarrow> fpath \<Rightarrow> fpath \<Rightarrow> pyval list \<Rightarrow> bool" where
  "outside E live ws tmp es \<longleftrightarrow>
     (\<forall>e \<in> set es. \<forall>d rel. e = PyDict d \<longrightarrow> normalize_manifest_repo_path (dget d ''path'' PyNone) = Some rel \<longrightarrow>
        \<not> prefix tmp (e_resolve E (live @ path_parts rel)) \<and> \<not> prefix tmp (e_resolve E (ws @ path_parts rel)))"

text \<open>The copies an item needs are in place for the contents \<open>old\<close>.\<close>

definition backed_up :: "(fpath \<Rightarrow> string option) \<Rightarrow> manifest_item \<Rightarrow> world \<Rightarrow> bool" where
  "backed_up old i w \<longleftrightarrow> (ai_backup i = None \<longrightarrow> old (ai_live i) = None) \<and>
     (\<forall>b. ai_backup i = Some b \<longrightarrow> file_at w b = old (ai_live i) \<and> old (ai_live i) \<noteq> None)"

definition candidate_staged :: "(fpath \<Rightarrow> string option) \<Rightarrow> manifest_item \<Rightarrow> world \<Rightarrow> bool" where
  "candidate_staged old i w \<longleftrightarrow> (\<forall>s. ai_staged i = Some s \<longrightarrow>
     (\<exists>q t. ai_workspace i = Some q \<and> old q = Some t \<and> file_at w s = Some t))"

lemma copy_after_mkdir:
  assumes "bindm (op_mkdir d) (\<lambda>_. op_copy2 src dst) w = (Inr u, w')"
  shows "\<exists>t. file_at w src = Some t \<and> (\<forall>p. file_at w' p = (if p = dst then Some t else file_at w p))"
proof -
  obtain x w1 where 1: "op_mkdir d w = (Inr x, w1)" and 2: "op_copy2 src dst w1 = (Inr u, w')"
    using assms by (rule bindm_Inr)
  then show ?thesis using copy2_Inr [OF 2] mkdir_keeps [OF 1] by auto
qed

lemma exists_eq [simp]: "path_exists p w = (r, w') \<longleftrightarrow> r = Inr (p = [] \<or> node_of w p \<noteq> None) \<and> w' = w"
  by (auto simp: path_exists_def)

lemma stage_candidate_Inr:
  assumes "stage_candidate q s rel w = (Inr u, w')"
  shows "case q of None \<Rightarrow> w' = w
     | Some c \<Rightarrow> \<exists>t. file_at w c = Some t \<and> (\<forall>p. file_at w' p = (if p = s then Some t else file_at w p))"
proof (cases q)
  case None
  then show ?thesis using assms by (simp add: stage_candidate_def)
next
  case (Some c)
  then have "bindm (op_mkdir (butlast s)) (\<lambda>_. op_copy2 c s) w = (Inr u, w')"
    using assms by (auto simp: stage_candidate_def bindm_def path_exists_def raisem_def split: if_splits)
  from copy_after_mkdir [OF this] Some show ?thesis by simp
qed

lemma resolve_Inr:
  "resolve_manifest_apply_path rt rel label w = (Inr p, w') \<Longrightarrow> w' = w \<and> p = e_resolve (w_env w) (rt @ path_parts rel)"
  by (auto simp: resolve_manifest_apply_path_def Let_def split: if_splits)

lemma prepared_list_in:
  "prepared_list E live ws tmp i es xs \<Longrightarrow> x \<in> set xs \<Longrightarrow> \<exists>e \<in> set es. \<exists>j \<ge> i. prepared_as E live ws tmp j e x"
proof (induction es arbitrary: i xs)
  case (Cons e es)
  obtain y ys where xs: "xs = y # ys" "prepared_as E live ws tmp i e y" "prepared_list E live ws tmp (Suc i) es ys"
    using Cons.prems(1) by auto
  show ?case
  proof (cases "x = y")
    case True
    then show ?thesis using xs(2) by auto
  next
    case False
    then have "x \<in> set ys" using Cons.prems(2) xs(1) by simp
    from Cons.IH [OF xs(3) this] obtain e' j where "e' \<in> set es" "Suc i \<le> j" "prepared_as E live ws tmp j e' x" by blast
    then have "e' \<in> set (e # es)" "i \<le> j" "prepared_as E live ws tmp j e' x" by simp_all
    then show ?thesis by blast
  qed
qed simp

lemma copy_item_Inr:
  assumes run: "copy_item tmp i rel change live q w = (Inr x, w')" and live: "\<not> prefix tmp live"
    and q: "change \<noteq> ''deleted'' \<Longrightarrow> \<exists>c. q = Some c \<and> \<not> prefix tmp c"
  shows "backed_up (file_at w) x w' \<and> candidate_staged (file_at w) x w'"
proof -
  let ?b = "tmp @ [nat_text i @ ''.backup'']" and ?s = "tmp @ [nat_text i @ ''.staged'']"
  define existed where "existed \<longleftrightarrow> live = [] \<or> node_of w live \<noteq> None"
  obtain u v w3 where 3: "back_up existed live ?b w = (Inr u, w3)"
    and 4: "stage_candidate q ?s rel w3 = (Inr v, w')"
    and x: "x = \<lparr>ai_rel = rel, ai_change = change, ai_live = live, ai_workspace = q,
           ai_backup = (if existed then Some ?b else None),
           ai_staged = (if change = ''deleted'' then None else Some ?s), ai_existed = existed\<rparr>"
    using run unfolding copy_item_def Let_def existed_def by (auto elim!: bindm_Inr)
  have w3: "if existed then \<exists>t. file_at w live = Some t \<and> (\<forall>p. file_at w3 p = (if p = ?b then Some t else file_at w p))
      else w3 = w"
    using 3 copy_after_mkdir [of "butlast ?b" live ?b w u w3] by (auto simp: back_up_def split: if_splits)
  have bs: "?b \<noteq> ?s" by (rule backup_name_distinct)
  have w': "\<And>p. p \<noteq> ?s \<Longrightarrow> file_at w' p = file_at w3 p"
    using stage_candidate_Inr [OF 4] by (auto split: option.splits)
  have none: "\<not> existed \<Longrightarrow> file_at w live = None" by (simp add: existed_def file_at_def)
  have bk: "backed_up (file_at w) x w'"
    using w3 w' bs none by (auto simp: backed_up_def x split: if_splits)
  have "candidate_staged (file_at w) x w'"
  proof (cases "change = ''deleted''")
    case True
    then show ?thesis by (simp add: candidate_staged_def x)
  next
    case False
    then obtain c where c: "q = Some c" "\<not> prefix tmp c" using q by blast
    have "c \<noteq> ?b" using c(2) by auto
    then have "file_at w3 c = file_at w c" using w3 by (cases existed) auto
    then show ?thesis using stage_candidate_Inr [OF 4] c(1) False by (auto simp: candidate_staged_def x)
  qed
  with bk show ?thesis by blast
qed

lemma prepare_item_Inr:
  assumes run: "prepare_item live ws tmp i e w = (Inr x, w')" and out: "outside (w_env w) live ws tmp (e # es)"
  shows "backed_up (file_at w) x w' \<and> candidate_staged (file_at w) x w'"
proof -
  obtain d where e: "e = PyDict d" using run by (cases e) (auto simp: prepare_item_def)
  obtain rel where rel: "normalize_manifest_repo_path (dget d ''path'' PyNone) = Some rel"
    using run by (cases "normalize_manifest_repo_path (dget d ''path'' PyNone)") (auto simp: prepare_item_def e)
  obtain change lp q w0 w1 w2 where c: "liftm (manifest_change rel (dget d ''change_type'' PyNone)) w = (Inr change, w0)"
    and 1: "resolve_manifest_apply_path live rel ''live'' w0 = (Inr lp, w1)"
    and 2: "candidate_path ws rel change w1 = (Inr q, w2)"
    and 3: "copy_item tmp i rel change lp q w2 = (Inr x, w')"
    using run by (auto simp: prepare_item_def e rel elim!: bindm_Inr)
  have w0: "w0 = w" using c by (simp add: liftm_def)
  have w1: "w1 = w" and lp: "lp = e_resolve (w_env w) (live @ path_parts rel)" using resolve_Inr [OF 1] w0 by auto
  have w2: "w2 = w \<and> (change \<noteq> ''deleted'' \<longrightarrow> q = Some (e_resolve (w_env w) (ws @ path_parts rel)))"
    using 2 w1 by (auto simp: candidate_path_def split: if_splits dest!: resolve_Inr elim!: bindm_Inr)
  show ?thesis
    by (rule copy_item_Inr [OF 3 [unfolded conjunct1 [OF w2]]])
      (use w2 lp out rel in \<open>auto simp: outside_def e\<close>)
qed

lemma prepare_items_Inr:
  assumes "prepare_items live ws tmp i es w = (Inr xs, w')" and "outside (w_env w) live ws tmp es"
  shows "\<forall>x \<in> set xs. backed_up (file_at w) x w' \<and> candidate_staged (file_at w) x w'"
  using assms
proof (induction es arbitrary: i w xs)
  case (Cons e es)
  let ?E = "w_env w"
  obtain y ys w1 where 1: "prepare_item live ws tmp i e w = (Inr y, w1)"
    and 2: "prepare_items live ws tmp (Suc i) es w1 = (Inr ys, w')" and xs: "xs = y # ys"
    using Cons.prems(1) by (auto elim!: bindm_Inr)
  have l1: "leaves (\<lambda>p. \<not> prefix tmp p) ?E (prepare_item live ws tmp i e) (prepared_as ?E live ws tmp i e)"
    by (rule leaves_prepare_item) auto
  note d1 = leavesD [OF l1 refl 1]
  have l2: "leaves (\<lambda>p. \<not> prepared_file tmp (Suc i) p) ?E (prepare_items live ws tmp (Suc i) es)
      (prepared_list ?E live ws tmp (Suc i) es)"
    by (rule leaves_prepare_items) simp
  note d2 = leavesD [OF l2 d1(1) 2]
  have own: "\<not> prepared_file tmp (Suc i) (tmp @ [nat_text i @ ''.backup''])"
      "\<not> prepared_file tmp (Suc i) (tmp @ [nat_text i @ ''.staged''])"
    using nat_text_inj backup_name_distinct by (fastforce simp: prepared_file_def)+
  have y: "backed_up (file_at w) y w1" "candidate_staged (file_at w) y w1" using prepare_item_Inr [OF 1 Cons.prems(2)] by auto
  have pa: "prepared_as ?E live ws tmp i e y" using d1(3) by simp
  have "backed_up (file_at w) y w'" "candidate_staged (file_at w) y w'"
    using y pa d2(2) own by (auto simp: backed_up_def candidate_staged_def prepared_as_def split: if_splits)
  moreover have "backed_up (file_at w) x w' \<and> candidate_staged (file_at w) x w'" if x: "x \<in> set ys" for x
  proof -
    have out: "outside (w_env w1) live ws tmp es" using Cons.prems(2) d1(1) by (simp add: outside_def)
    have IH: "backed_up (file_at w1) x w' \<and> candidate_staged (file_at w1) x w'" using Cons.IH [OF 2 out] x by blast
    obtain e' j where e': "e' \<in> set es" "prepared_as ?E live ws tmp j e' x"
      using prepared_list_in [OF d2(3) [OF refl] x] by blast
    then have "\<not> prefix tmp (ai_live x) \<and> (ai_change x \<noteq> ''deleted'' \<longrightarrow> (\<forall>c. ai_workspace x = Some c \<longrightarrow> \<not> prefix tmp c)) \<and>
        (ai_change x = ''deleted'' \<longrightarrow> ai_staged x = None)"
      using Cons.prems(2) by (auto simp: outside_def prepared_as_def)
    then show ?thesis using IH d1(2)
      by (auto simp: backed_up_def candidate_staged_def)
  qed
  ultimately show ?case by (simp add: xs)
qed simp
subsection \<open>The undo log of the transaction\<close>

definition fit_item :: "(fpath \<Rightarrow> bool) \<Rightarrow> fpath \<Rightarrow> manifest_item \<Rightarrow> bool" where
  "fit_item scratch tmp i \<longleftrightarrow> \<not> scratch (ai_live i) \<and> (\<forall>p. prefix tmp p \<longrightarrow> scratch p) \<and>
     (\<forall>b. ai_backup i = Some b \<longrightarrow> prefix tmp b) \<and>
     (ai_change i = ''deleted'' \<or> (\<exists>s. ai_staged i = Some s \<and> prefix tmp s))"

definition distinct_copies :: "manifest_item \<Rightarrow> manifest_item \<Rightarrow> bool" where
  "distinct_copies i j \<longleftrightarrow> (\<forall>b. ai_backup j = Some b \<longrightarrow> ai_backup i \<noteq> Some b)"

definition stage_apart :: "manifest_item \<Rightarrow> manifest_item \<Rightarrow> bool" where
  "stage_apart i j \<longleftrightarrow> ai_change i = ''deleted'' \<or> (\<forall>b. ai_backup j = Some b \<longrightarrow> ai_staged i \<noteq> Some b)"

lemma apply_item_steps:
  assumes "apply_item i w = (r, w')"
  shows "(\<exists>e. r = Inl e) \<and> (\<forall>p. file_at w' p = file_at w p) \<or>
    ai_change i = ''deleted'' \<and> (\<exists>x. r = Inr x) \<and> (\<forall>p. file_at w' p = (if p = ai_live i then None else file_at w p)) \<or>
    ai_change i \<noteq> ''deleted'' \<and> r = Inr None \<and> (\<exists>s t. s = (case ai_staged i of Some q \<Rightarrow> q | None \<Rightarrow> []) \<and> file_at w s = Some t \<and>
      (\<forall>p. file_at w' p = (if p = ai_live i then Some t else if p = s then None else file_at w p)))"
proof (cases "ai_change i = ''deleted''")
  case True
  show ?thesis
  proof (cases "ai_live i = [] \<or> node_of w (ai_live i) \<noteq> None")
    case False
    then have "file_at w (ai_live i) = None" by (simp add: file_at_def)
    then show ?thesis using assms True False by (auto simp: apply_item_def bindm_def path_exists_def returnm_def)
  next
    case present: True
    obtain ru wu where u: "op_unlink (ai_live i) w = (ru, wu)" by (cases "op_unlink (ai_live i) w")
    then have "r = (case ru of Inl e \<Rightarrow> Inl e | Inr _ \<Rightarrow> Inr (Some (ai_live i)))" "w' = wu"
      using assms True present by (auto simp: apply_item_def bindm_def path_exists_def returnm_def split: sum.splits)
    moreover have "\<forall>p. file_at wu p = file_at w p" if "ru = Inl e" for e
      using u that unfolding op_unlink_def by (auto dest!: atomic_io_Inl split: option.splits node.splits)
    ultimately show ?thesis using True unlink_Inr [of "ai_live i" w _ wu] u by (cases ru) auto
  qed
next
  case False
  let ?s = "case ai_staged i of Some q \<Rightarrow> q | None \<Rightarrow> []"
  obtain rm wm where m: "op_mkdir (butlast (ai_live i)) w = (rm, wm)" by (cases "op_mkdir (butlast (ai_live i)) w")
  note mk = mkdir_keeps [OF m]
  show ?thesis
  proof (cases rm)
    case (Inl e)
    then show ?thesis using assms False m mk by (auto simp: apply_item_def bindm_def)
  next
    case (Inr u)
    obtain rr wr where r: "op_replace ?s (ai_live i) wm = (rr, wr)" by (cases "op_replace ?s (ai_live i) wm")
    then have "w' = wr" "r = (case rr of Inl e \<Rightarrow> Inl e | Inr _ \<Rightarrow> Inr None)"
      using assms False m Inr by (auto simp: apply_item_def bindm_def returnm_def split: sum.splits)
    then show ?thesis using False mk replace_Inr [of ?s "ai_live i" wm _ wr] replace_Inl [of ?s "ai_live i" wm _ wr] r
      by (cases rr) auto
  qed
qed

lemma rollback_Inr:
  assumes "rollback_item i w = (Inr u, w')" and "backed_up old i w"
  shows "file_at w' (ai_live i) = old (ai_live i)"
proof (cases "ai_backup i")
  case None
  then show ?thesis using assms ignore_unlink_Inr [of "ai_live i" w u w' "ai_live i"]
    by (simp add: rollback_item_def backed_up_def)
next
  case (Some b)
  then obtain v w1 where 1: "op_mkdir (butlast (ai_live i)) w = (Inr v, w1)" and 2: "op_replace b (ai_live i) w1 = (Inr u, w')"
    using assms(1) by (auto simp: rollback_item_def elim!: bindm_Inr)
  then show ?thesis using replace_Inr [OF 2] mkdir_keeps [OF 1] assms(2) Some by (auto simp: backed_up_def)
qed

lemma only_os_rollback: "only_os (rollback_item i)"
  unfolding rollback_item_def by (cases "ai_backup i") auto

interpretation manifest: undo_log apply_item rollback_item ai_live scratch E
  "fit_item scratch tmp" distinct_copies stage_apart backed_up for scratch E tmp
proof (unfold_locales, goal_cases)
  case (1 i)
  show ?case by (rule leaves_apply_item) (use 1 in \<open>auto simp: fit_item_def\<close>)
next
  case (2 i w e w' p)
  then show ?case using apply_item_steps [of i w "Inl e" w'] by auto
next
  case (3 i j w old r w')
  have "b \<noteq> ai_live i" if "ai_backup j = Some b" for b using that 3 by (auto simp: fit_item_def)
  then show ?case using apply_item_steps [OF 3(6)] 3(1,3,5)
    by (fastforce simp: backed_up_def stage_apart_def fit_item_def split: option.splits)
next
  case (4 i)
  show ?case by (rule leaves_rollback_item) (use 4 in \<open>auto simp: fit_item_def\<close>)
next
  case (5 i w old u w')
  then show ?case using rollback_Inr by blast
next
  case (6 i j w old ru w')
  have "leaves (\<lambda>p. p \<noteq> ai_live i \<and> ai_backup i \<noteq> Some p) E (rollback_item i) (\<lambda>_. True)"
    by (rule leaves_rollback_item) auto
  note d = leavesD(2) [OF this 6(4) 6(6)]
  have "b \<noteq> ai_live i" if "ai_backup j = Some b" for b using that 6 by (auto simp: fit_item_def)
  then show ?case using d 6(3,5) by (auto simp: backed_up_def distinct_copies_def)
next
  case (7 i w e w')
  then show ?case using only_os_rollback unfolding only_os_def by blast
next
  case (8 i j)
  then show ?case by (auto simp: distinct_copies_def)
qed

subsection \<open>One run inside the temporary directory\<close>

lemma copy_not_temp:
  "\<not> temp_path E (tmp @ [nat_text i @ ''.backup''])" "\<not> temp_path E (tmp @ [nat_text i @ ''.staged''])"
proof -
  have *: "nat_text i @ ''.backup'' \<noteq> x @ ''.tmp''" "nat_text i @ ''.staged'' \<noteq> x @ ''.tmp''" for x
  proof
    assume "nat_text i @ ''.backup'' = x @ ''.tmp''"
    then have "rev (nat_text i @ ''.backup'') = rev (x @ ''.tmp'')" by (rule arg_cong)
    then show False by simp
  qed (auto dest: arg_cong [where f = last])
  have "last p = x @ ''.tmp'' \<longrightarrow> p \<noteq> tmp @ [nat_text i @ ''.backup''] \<and> p \<noteq> tmp @ [nat_text i @ ''.staged'']" for p x
    using * by (metis last_snoc)
  then show "\<not> temp_path E (tmp @ [nat_text i @ ''.backup''])" "\<not> temp_path E (tmp @ [nat_text i @ ''.staged''])"
    unfolding temp_path_def by (metis append_assoc last_snoc)+
qed

definition entry_effect ::
  "os_env \<Rightarrow> fpath \<Rightarrow> fpath \<Rightarrow> (fpath \<Rightarrow> string option) \<Rightarrow> pyval \<Rightarrow> (fpath \<Rightarrow> string option) \<Rightarrow> fpath \<Rightarrow> string option" where
  "entry_effect E live ws old entry f =
     (case entry of
        PyDict d \<Rightarrow>
          (case normalize_manifest_repo_path (dget d ''path'' PyNone) of
             Some rel \<Rightarrow> f(e_resolve E (live @ path_parts rel) :=
               (if dget d ''change_type'' PyNone = PyStr ''deleted'' then None
                else old (e_resolve E (ws @ path_parts rel))))
           | None \<Rightarrow> f)
      | _ \<Rightarrow> f)"

text \<open>The files a manifest asks for: its entries applied in order to the old contents.\<close>

definition manifest_effect ::
  "os_env \<Rightarrow> fpath \<Rightarrow> fpath \<Rightarrow> (fpath \<Rightarrow> string option) \<Rightarrow> pyval list \<Rightarrow> fpath \<Rightarrow> string option" where
  "manifest_effect E live ws old entries = fold (entry_effect E live ws old) entries old"

lemma entry_effect_at: "f p = g p \<Longrightarrow> entry_effect E live ws old e f p = entry_effect E live ws old e g p"
  by (auto simp: entry_effect_def split: pyval.splits option.splits)

lemma fold_effect_at:
  "f p = g p \<Longrightarrow> fold (entry_effect E live ws old) es f p = fold (entry_effect E live ws old) es g p"
proof (induction es arbitrary: f g)
  case (Cons e es)
  show ?case unfolding fold_Cons comp_def by (rule Cons.IH, rule entry_effect_at, rule Cons.prems)
qed simp

lemma prepared_fit:
  assumes "prepared_as E live ws tmp i e x" and "\<not> scratch (ai_live x)" and "\<And>p. prefix tmp p \<Longrightarrow> scratch p"
  shows "fit_item scratch tmp x"
  using assms by (auto simp: fit_item_def prepared_as_def split: if_splits)

lemma prepared_distinct: "prepared_list E live ws tmp i es xs \<Longrightarrow> sorted_wrt distinct_copies xs"
proof (induction es arbitrary: i xs)
  case (Cons e es)
  obtain y ys where xs: "xs = y # ys" "prepared_as E live ws tmp i e y" "prepared_list E live ws tmp (Suc i) es ys"
    using Cons.prems by auto
  have "distinct_copies y x" if x: "x \<in> set ys" for x
  proof -
    obtain e' j where "Suc i \<le> j" "prepared_as E live ws tmp j e' x" using prepared_list_in [OF xs(3) x] by blast
    then show ?thesis using xs(2) by (auto simp: distinct_copies_def prepared_as_def split: if_splits dest: nat_text_inj)
  qed
  then show ?case using Cons.IH [OF xs(3)] xs(1) by simp
qed simp

lemma prepared_stage_apart:
  assumes "prepared_as E live ws tmp i e x" and "prepared_as E live ws tmp j e' y"
  shows "stage_apart x y"
  using assms backup_name_distinct(1) [of tmp j i] by (auto simp: stage_apart_def prepared_as_def split: if_splits)

lemma apply_all_effect:
  assumes "mapm apply_item xs w = (Inr ys, w')" and "prepared_list E live ws tmp i es xs"
    and "\<forall>x \<in> set xs. fit_item scratch tmp x \<and> candidate_staged old x w" and "\<not> scratch p"
  shows "file_at w' p = fold (entry_effect E live ws old) es (file_at w) p"
  using assms
proof (induction es arbitrary: i xs w ys)
  case (Cons e es)
  obtain x zs where xs: "xs = x # zs" and x: "prepared_as E live ws tmp i e x"
    and zs: "prepared_list E live ws tmp (Suc i) es zs" using Cons.prems(2) by auto
  obtain o1 w1 os where 1: "apply_item x w = (Inr o1, w1)" and 2: "mapm apply_item zs w1 = (Inr os, w')"
    using Cons.prems(1) unfolding xs by (auto elim!: bindm_Inr)
  have fit: "fit_item scratch tmp x" and cs: "candidate_staged old x w" using Cons.prems(3) xs by auto
  let ?s = "case ai_staged x of Some q \<Rightarrow> q | None \<Rightarrow> []"
  have keep: "file_at w1 q = file_at w q" if "q \<noteq> ai_live x" "ai_change x = ''deleted'' \<or> q \<noteq> ?s" for q
    using apply_item_steps [OF 1] that by auto
  have rest: "\<forall>z \<in> set zs. fit_item scratch tmp z \<and> candidate_staged old z w1"
  proof
    fix z assume z: "z \<in> set zs"
    obtain e' j where j: "Suc i \<le> j" "prepared_as E live ws tmp j e' z" using prepared_list_in [OF zs z] by blast
    have zf: "fit_item scratch tmp z" "candidate_staged old z w" using Cons.prems(3) xs z by auto
    have "file_at w1 s = file_at w s" if s: "ai_staged z = Some s" for s
    proof (rule keep)
      show "s \<noteq> ai_live x" using s zf(1) fit j(2) by (auto simp: fit_item_def prepared_as_def split: if_splits)
      show "ai_change x = ''deleted'' \<or> s \<noteq> ?s"
        using s j x nat_text_inj by (auto simp: prepared_as_def split: if_splits dest!: nat_text_inj)
    qed
    then show "fit_item scratch tmp z \<and> candidate_staged old z w1" using zf by (auto simp: candidate_staged_def)
  qed
  have "file_at w1 p = entry_effect E live ws old e (file_at w) p"
  proof -
    obtain d rel where e: "e = PyDict d" "normalize_manifest_repo_path (dget d ''path'' PyNone) = Some rel"
      "ai_live x = e_resolve E (live @ path_parts rel)" "dget d ''change_type'' PyNone = PyStr (ai_change x)"
      and wsp: "ai_change x \<noteq> ''deleted'' \<Longrightarrow> ai_workspace x = Some (e_resolve E (ws @ path_parts rel))"
      using x by (auto simp: prepared_as_def)
    have sc: "\<And>s. ai_change x \<noteq> ''deleted'' \<Longrightarrow> ai_staged x = Some s \<Longrightarrow> scratch s" using fit by (auto simp: fit_item_def)
    show ?thesis
    proof (cases "ai_change x = ''deleted''")
      case True
      then show ?thesis using apply_item_steps [OF 1] e by (auto simp: entry_effect_def)
    next
      case False
      then obtain s where s: "ai_staged x = Some s" using x by (auto simp: prepared_as_def)
      obtain t where t: "old (e_resolve E (ws @ path_parts rel)) = Some t" "file_at w s = Some t"
        using cs s wsp [OF False] by (auto simp: candidate_staged_def)
      have "s \<noteq> p" using sc [OF False s] Cons.prems(4) by auto
      then show ?thesis using apply_item_steps [OF 1] e False s t by (auto simp: entry_effect_def)
    qed
  qed
  then have "fold (entry_effect E live ws old) es (file_at w1) p =
      fold (entry_effect E live ws old) es (entry_effect E live ws old e (file_at w)) p"
    by (rule fold_effect_at)
  then show ?case using Cons.IH [OF 2 zs rest Cons.prems(4)] by simp
qed simp

lemma rollback_items_returns: "\<exists>errs w'. rollback_manifest_items xs w = (Inr errs, w')"
  unfolding rollback_manifest_items_def by (rule manifest.undo_all_returns)

definition clear_run :: "os_env \<Rightarrow> fpath \<Rightarrow> fpath \<Rightarrow> fpath \<Rightarrow> fpath option \<Rightarrow> pyval list \<Rightarrow> bool" where
  "clear_run E live ws tmp shadow es \<longleftrightarrow> outside E live ws tmp es \<and> (\<forall>p. shadow = Some p \<longrightarrow> \<not> prefix tmp p) \<and>
     (\<forall>e \<in> set es. \<forall>d rel. e = PyDict d \<longrightarrow> normalize_manifest_repo_path (dget d ''path'' PyNone) = Some rel \<longrightarrow>
        \<not> scratch_path E tmp shadow (e_resolve E (live @ path_parts rel)))"

text \<open>The preparation phase, the report included.\<close>

lemma preparation:
  assumes run: "bindm (prepare_items live ws tmp 0 es) (\<lambda>prepared.
      bindm (shadow_step m st prepared shadow t writer) (\<lambda>_. returnm prepared)) w = (r, w')"
    and clear: "clear_run (w_env w) live ws tmp shadow es" and quiet: "quiet_writer (w_env w) writer"
  shows "w_env w' = w_env w \<and> (\<forall>p. \<not> scratch_path (w_env w) tmp shadow p \<longrightarrow> file_at w' p = file_at w p) \<and>
    (\<forall>xs. r = Inr xs \<longrightarrow> prepared_list (w_env w) live ws tmp 0 es xs \<and>
       (\<forall>x \<in> set xs. fit_item (scratch_path (w_env w) tmp shadow) tmp x \<and>
          backed_up (file_at w) x w' \<and> candidate_staged (file_at w) x w'))"
proof -
  let ?E = "w_env w" and ?S = "scratch_path (w_env w) tmp shadow"
  obtain r1 w1 where 1: "prepare_items live ws tmp 0 es w = (r1, w1)" by (cases "prepare_items live ws tmp 0 es w")
  have "leaves (\<lambda>p. \<not> prefix tmp p) ?E (prepare_items live ws tmp 0 es) (prepared_list ?E live ws tmp 0 es)"
    by (rule leaves_prepare_items) (auto simp: prepared_file_def)
  note d1 = leavesD [OF this refl 1]
  show ?thesis
  proof (cases r1)
    case (Inl e)
    then show ?thesis using run 1 d1 by (auto simp: bindm_def scratch_path_def)
  next
    case (Inr xs)
    obtain r2 w2 where 2: "shadow_step m st xs shadow t writer w1 = (r2, w2)"
      by (cases "shadow_step m st xs shadow t writer w1")
    note d2 = leavesD [OF leaves_shadow_step [OF quiet] d1(1) 2]
    have w': "w' = w2" and r: "r = (case r2 of Inl e \<Rightarrow> Inl e | Inr _ \<Rightarrow> Inr xs)"
      using run 1 Inr 2 by (auto simp: bindm_def split: sum.splits)
    have pl: "prepared_list ?E live ws tmp 0 es xs" using d1(3) [OF Inr] .
    have vals: "backed_up (file_at w) x w1 \<and> candidate_staged (file_at w) x w1" if "x \<in> set xs" for x
      using prepare_items_Inr [OF 1 [unfolded Inr]] clear that by (auto simp: clear_run_def)
    have item: "fit_item ?S tmp x \<and> backed_up (file_at w) x w2 \<and> candidate_staged (file_at w) x w2" if x: "x \<in> set xs" for x
    proof -
      obtain e j where e: "e \<in> set es" "prepared_as ?E live ws tmp j e x" using prepared_list_in [OF pl x] by blast
      have fit: "fit_item ?S tmp x"
        by (rule prepared_fit [OF e(2)]) (use e clear in \<open>auto simp: clear_run_def prepared_as_def scratch_path_def\<close>)
      have copies: "file_at w2 q = file_at w1 q"
        if "q = tmp @ [nat_text j @ ''.backup''] \<or> q = tmp @ [nat_text j @ ''.staged'']" for q
        by (rule d2(2)) (use that copy_not_temp clear in \<open>auto simp: clear_run_def\<close>)
      have "\<And>b. ai_backup x = Some b \<Longrightarrow> file_at w2 b = file_at w1 b" "\<And>s. ai_staged x = Some s \<Longrightarrow> file_at w2 s = file_at w1 s"
        using e(2) copies by (auto simp: prepared_as_def split: if_splits)
      with vals [OF x] fit show ?thesis by (auto simp: backed_up_def candidate_staged_def)
    qed
    show ?thesis using d1 d2 pl item w' r by (auto simp: scratch_path_def split: sum.splits)
  qed
qed

text \<open>The whole run in the temporary directory: success, reported failure, containment.\<close>

lemma settle_apply_Inr: "settle_apply err lg w = (Inr ys, w') \<Longrightarrow> err = None \<and> w' = w"
  by (auto simp: settle_apply_def split: option.splits if_splits elim!: bindm_Inr)

lemma settle_apply_transaction:
  assumes "settle_apply err lg w = (Inl (FilesystemTransactionError t), w')"
  obtains e errs where "rollback_manifest_items (map fst lg) w = (Inr errs, w')" and "t = rollback_detail e errs"
proof -
  obtain e where e: "err = Some e" "is_os_error e"
    using assms by (auto simp: settle_apply_def split: option.splits if_splits)
  obtain errs w1 where 1: "rollback_manifest_items (map fst lg) w = (Inr errs, w1)" using rollback_items_returns by blast
  have "w1 = w' \<and> t = rollback_detail e errs" using assms e 1 by (auto simp: settle_apply_def bindm_def)
  with 1 that show ?thesis by blast
qed

definition live_targets :: "os_env \<Rightarrow> fpath \<Rightarrow> pyval list \<Rightarrow> fpath set" where
  "live_targets E live es = {e_resolve E (live @ path_parts rel) | d rel. PyDict d \<in> set es \<and>
     normalize_manifest_repo_path (dget d ''path'' PyNone) = Some rel \<and>
     prefix (e_resolve E live) (e_resolve E (live @ path_parts rel))}"

lemma apply_in_tmp_outcomes:
  assumes run: "apply_in_tmp live ws m st shadow t writer tmp w = (r, w')"
    and clear: "clear_run (w_env w) live ws tmp shadow (manifest_files m)" and quiet: "quiet_writer (w_env w) writer"
    and p: "\<not> scratch_path (w_env w) tmp shadow p"
  shows "w_env w' = w_env w \<and>
    (\<forall>ys. r = Inr ys \<longrightarrow> file_at w' p = manifest_effect (w_env w) live ws (file_at w) (manifest_files m) p) \<and>
    (\<forall>t. r = Inl (FilesystemTransactionError t) \<and> \<not> rollback_reported t \<longrightarrow> file_at w' p = file_at w p) \<and>
    (p \<notin> live_targets (w_env w) live (manifest_files m) \<longrightarrow> file_at w' p = file_at w p)"
proof -
  let ?E = "w_env w" and ?S = "scratch_path (w_env w) tmp shadow" and ?es = "manifest_files m"
  let ?prep = "bindm (prepare_items live ws tmp 0 ?es) (\<lambda>prepared.
      bindm (shadow_step m st prepared shadow t writer) (\<lambda>_. returnm prepared))"
  obtain r1 w1 where 1: "?prep w = (r1, w1)" by (cases "?prep w")
  note pre = preparation [OF 1 clear quiet]
  show ?thesis
  proof (cases r1)
    case (Inl e)
    have run': "settle_apply (Some e) [] w1 = (r, w')"
      using run 1 Inl by (simp add: apply_in_tmp_def bindm_def attempt_def)
    then have "w' = w1 \<and> (\<forall>ys. r \<noteq> Inr ys)"
      by (auto simp: settle_apply_def rollback_manifest_items_def bindm_def raisem_def returnm_def split: if_splits)
    then show ?thesis using pre p by auto
  next
    case (Inr xs)
    obtain err lg w2 where 2: "run_log apply_item xs [] w1 = (Inr (err, lg), w2)" by (metis run_log_returns)
    have settle: "settle_apply err lg w2 = (r, w')"
      using run 1 Inr 2 by (simp add: apply_in_tmp_def bindm_def attempt_def)
    have pl: "prepared_list ?E live ws tmp 0 ?es xs" using pre Inr by blast
    have item: "fit_item ?S tmp x" "backed_up (file_at w) x w1" "candidate_staged (file_at w) x w1" if "x \<in> set xs" for x
      using pre Inr that by blast+
    have fit: "\<forall>x \<in> set xs. fit_item ?S tmp x" using item by blast
    have apart: "\<forall>x \<in> set xs. \<forall>y \<in> set xs. stage_apart x y"
      using prepared_list_in [OF pl] prepared_stage_apart by meson
    have dev: "manifest.deviates ?S ?E (file_at w) [] w1" using pre by (simp add: manifest.deviates_def)
    have intact: "\<forall>x \<in> set xs. backed_up (file_at w) x w1" using item by blast
   
    have lg: "prefix (map fst lg) xs" "manifest.deviates ?S ?E (file_at w) (map fst lg) w2"
      using manifest.run_log_deviates [OF _ apart _ intact 2] fit dev by auto
    have sub: "set (map fst lg) \<subseteq> set xs" using lg(1) by (rule set_mono_prefix)
    have targets: "ai_live ` set xs \<subseteq> live_targets ?E live ?es"
    proof
      fix q assume "q \<in> ai_live ` set xs"
      then obtain x where "x \<in> set xs" "q = ai_live x" by blast
      with prepared_list_in [OF pl, of x] obtain e j where e: "e \<in> set ?es" "prepared_as ?E live ws tmp j e x" "q = ai_live x"
        by blast
      from e(2) obtain d rel where "e = PyDict d" "normalize_manifest_repo_path (dget d ''path'' PyNone) = Some rel"
        "ai_live x = e_resolve ?E (live @ path_parts rel)" "prefix (e_resolve ?E live) (ai_live x)"
        unfolding prepared_as_def by blast
      with e(1,3) show "q \<in> live_targets ?E live ?es" unfolding live_targets_def by (intro CollectI exI [of _ d] exI [of _ rel]) simp
    qed
    obtain errs w3 where 3: "rollback_manifest_items (map fst lg) w2 = (Inr errs, w3)" using rollback_items_returns by blast
    have roll: "\<exists>es. (Inr errs :: string list res) = Inr es \<and> w_env w3 = ?E \<and> (es = [] \<longrightarrow> manifest.deviates ?S ?E (file_at w) [] w3)"
      by (rule manifest.rollback_restores [OF fit apart prepared_distinct [OF pl] dev intact 2
            3 [unfolded rollback_manifest_items_def]])
    have w': "w' = w2 \<or> w' = w3"
      using settle 3 by (auto simp: settle_apply_def bindm_def split: option.splits if_splits)
    have env: "w_env w' = ?E" using w' lg(2) roll by (auto simp: manifest.deviates_def)
    have ok: "file_at w' p = manifest_effect ?E live ws (file_at w) ?es p" if "r = Inr ys" for ys
    proof -
      have "err = None \<and> w' = w2" using settle that settle_apply_Inr by blast
      then obtain zs where all: "mapm apply_item xs w1 = (Inr zs, w')" using run_log_success 2 by blast
      have fits: "\<forall>x \<in> set xs. fit_item ?S tmp x \<and> candidate_staged (file_at w) x w1" using item by blast
      have "file_at w' p = fold (entry_effect ?E live ws (file_at w)) ?es (file_at w1) p"
        by (rule apply_all_effect [where scratch = ?S and tmp = tmp and i = 0, OF all pl fits p])
      also have "\<dots> = manifest_effect ?E live ws (file_at w) ?es p"
        unfolding manifest_effect_def by (rule fold_effect_at) (use pre p in blast)
      finally show ?thesis .
    qed
    have bad: "file_at w' p = file_at w p" if fail: "r = Inl (FilesystemTransactionError t)" "\<not> rollback_reported t" for t
    proof -
      obtain e es where es: "rollback_manifest_items (map fst lg) w2 = (Inr es, w')" "t = rollback_detail e es"
        by (rule settle_apply_transaction [OF settle [unfolded fail(1)]])
      then have "es = []" using fail(2) rollback_detail_clean by blast
      then show ?thesis using es roll 3 p by (auto simp: manifest.deviates_def)
    qed
    have other: "file_at w' p = file_at w p" if q: "p \<notin> live_targets ?E live ?es"
    proof -
      have sub': "set (rev (map fst lg)) \<subseteq> set xs" using sub by simp
      have "p \<notin> ai_live ` set (rev (map fst lg))" using q targets sub' by blast
      moreover have "manifest.deviates ?S ?E (file_at w) (rev (map fst lg)) w2"
        using lg(2) by (simp add: manifest.deviates_def)
      moreover have "sorted_wrt distinct_copies (rev (map fst lg))"
      proof -
        obtain zs where "xs = map fst lg @ zs" using lg(1) by (auto simp: prefix_def)
        then have "sorted_wrt distinct_copies (map fst lg)" using prepared_distinct [OF pl] by (simp add: sorted_wrt_append)
        then show ?thesis using manifest.apart_sym by (auto simp: sorted_wrt_rev elim: sorted_wrt_mono_rel [rotated])
      qed
      moreover have "\<forall>x \<in> set (rev (map fst lg)). fit_item ?S tmp x \<and> backed_up (file_at w) x w2"
        using manifest.run_log_deviates [OF _ apart _ intact 2] fit dev sub' by auto
      ultimately have "manifest.deviates ?S ?E (file_at w) (rev (map fst lg)) w3"
        using manifest.undo_all_restores [OF _ _ _ _ 3 [unfolded rollback_manifest_items_def]] by blast
      then show ?thesis using w' lg(2) p \<open>p \<notin> ai_live ` set (rev (map fst lg))\<close>
        by (auto simp: manifest.deviates_def)
    qed
    show ?thesis using env ok bad other by blast
  qed
qed

subsection \<open>The transaction\<close>

lemma remove_parents_returns: "\<exists>w'. remove_empty_parents stop p w = (Inr (), w')"
proof (induction stop p arbitrary: w rule: remove_empty_parents.induct)
  case (1 stop p)
  consider "p = stop \<or> node_of w p = None \<and> p \<noteq> []" | "p \<noteq> stop" "p = []" | "p \<noteq> stop" "p \<noteq> []" "node_of w p \<noteq> None" by blast
  then show ?case
  proof cases
    case 1
    then show ?thesis by (subst remove_empty_parents.simps) (auto simp: bindm_def path_exists_def returnm_def)
  next
    case 2
    then show ?thesis
      by (subst remove_empty_parents.simps)
        (auto simp: bindm_def path_exists_def returnm_def catch_os_def op_rmdir_def atomic_io_def step_io_def Let_def
          split: option.splits)
  next
    case 3
    obtain r w1 where rm: "op_rmdir p w = (r, w1)" by (cases "op_rmdir p w")
    have "is_os_error e" if "r = Inl e" for e using only_os_ops(8) [of p] rm that unfolding only_os_def by blast
    moreover have "\<exists>w'. remove_empty_parents stop (butlast p) w1 = (Inr (), w')" using 1 3 by simp
    ultimately show ?thesis using 3 rm
      by (subst remove_empty_parents.simps) (cases r; auto simp: bindm_def path_exists_def returnm_def catch_os_def)
  qed
qed

lemma remove_dirs_return: "\<exists>w'. eachm (\<lambda>p. remove_empty_parent_dirs p stop) ps w = (Inr (), w')"
proof (induction ps arbitrary: w)
  case (Cons p ps)
  obtain w1 where "remove_empty_parent_dirs p stop w = (Inr (), w1)"
    using remove_parents_returns [of "e_resolve (w_env w) stop" "butlast p" w] by (auto simp: remove_empty_parent_dirs_def)
  with Cons [of w1] show ?case by (simp add: bindm_def)
qed (simp add: returnm_def)

definition clear_of_temporaries :: "os_env \<Rightarrow> fpath \<Rightarrow> fpath \<Rightarrow> string \<Rightarrow> fpath option \<Rightarrow> pydict \<Rightarrow> bool" where
  "clear_of_temporaries E live ws pre shadow m \<longleftrightarrow>
     (\<forall>k. clear_run E live ws (live @ [pre @ e_tmp E k]) shadow (manifest_files m))"

definition ordinary_path :: "os_env \<Rightarrow> fpath \<Rightarrow> string \<Rightarrow> fpath option \<Rightarrow> fpath \<Rightarrow> bool" where
  "ordinary_path E live pre shadow p \<longleftrightarrow> (\<forall>k. \<not> scratch_path E (live @ [pre @ e_tmp E k]) shadow p)"

lemma rmtree_Inr: "\<exists>w'. op_rmtree q w = (Inr (), w')"
  by (auto simp: op_rmtree_def Let_def split: option.splits)

lemma apply_transaction_outcomes:
  assumes guard: "validate_manifest_apply_guard m allowed = Inr st"
    and clear: "clear_of_temporaries (w_env w) live ws ''.manifest-apply-'' shadow m"
    and quiet: "quiet_writer (w_env w) writer"
    and run: "apply_manifest_transaction live ws m allowed shadow t writer w = (r, w')"
    and p: "ordinary_path (w_env w) live ''.manifest-apply-'' shadow p"
  shows "w_env w' = w_env w \<and> (\<forall>ps. r = Inr ps \<longrightarrow> ps = g_changed_paths st \<and>
       file_at w' p = manifest_effect (w_env w) live ws (file_at w) (manifest_files m) p) \<and>
    (\<forall>t. r = Inl (FilesystemTransactionError t) \<and> \<not> rollback_reported t \<longrightarrow> file_at w' p = file_at w p) \<and>
    (p \<notin> live_targets (w_env w) live (manifest_files m) \<longrightarrow> file_at w' p = file_at w p)"
proof -
  let ?E = "w_env w" and ?pre = "''.manifest-apply-''"
  obtain r1 w1 where 1: "op_mkdtemp live ?pre w = (r1, w1)" by (cases "op_mkdtemp live ?pre w")
  note d1 = leavesD [OF leaves_mkdtemp [of "\<lambda>_. True" ?E live ?pre] refl 1]
  have g: "liftm (checked_guard m allowed) w = (Inr st, w)" by (simp add: liftm_def checked_guard_def guard)
  show ?thesis
  proof (cases r1)
    case (Inl e)
    then have "r = Inl e" "w' = w1" using run 1 g by (simp_all add: apply_manifest_transaction_def bindm_def)
    then show ?thesis using d1 by simp
  next
    case (Inr tmp)
    obtain k where k: "tmp = live @ [?pre @ e_tmp ?E k]" using d1(3) [OF Inr] by blast
    obtain r2 w2 where 2: "apply_in_tmp live ws m st shadow t writer tmp w1 = (r2, w2)"
      by (cases "apply_in_tmp live ws m st shadow t writer tmp w1")
    have same: "file_at w1 = file_at w" using d1(2) by (intro ext) simp
    have "clear_run (w_env w1) live ws tmp shadow (manifest_files m)"
      using clear d1(1) by (simp add: clear_of_temporaries_def k)
    moreover have np: "\<not> scratch_path (w_env w1) tmp shadow p" using p d1(1) by (simp add: ordinary_path_def k)
    ultimately have core: "w_env w2 = ?E"
      "\<And>ys. r2 = Inr ys \<Longrightarrow> file_at w2 p = manifest_effect ?E live ws (file_at w) (manifest_files m) p"
      "\<And>t. r2 = Inl (FilesystemTransactionError t) \<Longrightarrow> \<not> rollback_reported t \<Longrightarrow> file_at w2 p = file_at w p"
      "p \<notin> live_targets ?E live (manifest_files m) \<Longrightarrow> file_at w2 p = file_at w p"
      using apply_in_tmp_outcomes [OF 2] quiet d1(1) by (auto simp: same)
    obtain w3 where 3: "op_rmtree tmp w2 = (Inr (), w3)" using rmtree_Inr by blast
    have "\<not> prefix tmp p" using np by (simp add: scratch_path_def)
    then have w3: "w_env w3 = ?E" "file_at w3 p = file_at w2 p"
      using leavesD(1,2) [OF leaves_rmtree [of "\<lambda>q. q = p" tmp] core(1) 3] by auto
    have fin: "finallym (apply_in_tmp live ws m st shadow t writer tmp) (op_rmtree tmp) w1 = (r2, w3)"
      using 2 3 by (simp add: finallym_def)
    show ?thesis
    proof (cases r2)
      case (Inl e)
      then have "r = Inl e" "w' = w3" using run g 1 Inr fin by (simp_all add: apply_manifest_transaction_def bindm_def)
      then show ?thesis using core Inl w3 by simp
    next
      case del: (Inr ys)
      obtain w4 where 4: "eachm (\<lambda>p. remove_empty_parent_dirs p live) ys w3 = (Inr (), w4)" using remove_dirs_return by blast
      have "leaves (\<lambda>_. True) ?E (eachm (\<lambda>p. remove_empty_parent_dirs p live) ys) (\<lambda>_. True)"
        by (rule leaves_eachm) (rule leaves_remove_parent_dirs)
      from leavesD(1,2) [OF this w3(1) 4] have "w_env w4 = ?E" "file_at w4 p = file_at w3 p" by simp_all
      moreover have "r = Inr (g_changed_paths st)" "w' = w4"
        using run g 1 Inr fin del 4 by (simp_all add: apply_manifest_transaction_def bindm_def returnm_def)
      ultimately show ?thesis using core del w3 by simp
    qed
  qed
qed

lemma live_target_changed:
  assumes "validate_manifest_apply_guard m allowed = Inr st" and "p \<in> live_targets E live (manifest_files m)"
  shows "\<exists>rel \<in> set (g_changed_paths st). p = e_resolve E (live @ path_parts rel) \<and> prefix (e_resolve E live) p"
proof -
  obtain files roots where f: "dget m ''files'' (PyList []) = PyList files"
    and ok: "list_all2 (entry_allowed roots) files (g_changed_paths st)"
    using assms(1) by (rule validate_guard_InrD)
  obtain d rel where d: "PyDict d \<in> set files" "normalize_manifest_repo_path (dget d ''path'' PyNone) = Some rel"
      "p = e_resolve E (live @ path_parts rel)" "prefix (e_resolve E live) p"
    using assms(2) f by (auto simp: live_targets_def manifest_files_def)
  from list_all2_in1 [OF ok d(1)] d(2) have "rel \<in> set (g_changed_paths st)" by (auto simp: entry_allowed_def)
  with d show ?thesis by blast
qed

subsection \<open>Properties of the transaction\<close>

text \<open>
  C5: a failed manifest transaction leaves the live tree as it was. For an accepted manifest whose
  files do not collide with the temporary directory, staging files or the report, and a report
  writer that writes nothing else: when \<open>apply_manifest_transaction\<close> raises
  \<open>FilesystemTransactionError\<close> without reporting rollback issues, every file outside those scratch
  paths has its old content, whichever file operation failed and however far the loop had come.
\<close>

theorem apply_failure_restores:
  assumes "validate_manifest_apply_guard m allowed = Inr st"
    and "clear_of_temporaries (w_env w) live ws ''.manifest-apply-'' shadow m"
    and "quiet_writer (w_env w) writer"
    and "apply_manifest_transaction live ws m allowed shadow t writer w = (Inl (FilesystemTransactionError msg), w')"
    and "\<not> rollback_reported msg" and "ordinary_path (w_env w) live ''.manifest-apply-'' shadow p"
  shows "file_at w' p = file_at w p"
  using apply_transaction_outcomes [OF assms(1-4,6)] assms(5) by blast

definition sample_tree :: "(nat \<Rightarrow> (string \<times> string option) option) \<Rightarrow> world" where
  "sample_tree faults = \<lparr>w_nodes = [([''v''], DirNode), ([''v'', ''a''], FileNode ''old a''),
     ([''v'', ''b''], FileNode ''old b''), ([''w''], DirNode), ([''w'', ''a''], FileNode ''new a'')],
     w_clock = 0, w_env = sample_env faults\<rparr>"

definition sample_entry :: "string \<Rightarrow> string \<Rightarrow> pyval" where
  "sample_entry path change = PyDict [(''path'', PyStr path), (''change_type'', PyStr change)]"

definition sample_manifest :: pydict where
  "sample_manifest = [(''files'', PyList [sample_entry ''a'' ''modified'', sample_entry ''b'' ''deleted''])]"

definition sample_run :: "(nat \<Rightarrow> (string \<times> string option) option) \<Rightarrow> string list res \<times> world" where
  "sample_run faults = apply_manifest_transaction [''v''] [''w''] sample_manifest [PyStr ''a'', PyStr ''b''] None ''''
     write_shadow_apply_report (sample_tree faults)"

lemma sample_guard:
  "\<exists>st. validate_manifest_apply_guard sample_manifest [PyStr ''a'', PyStr ''b''] = Inr st \<and> g_changed_paths st = [''a'', ''b'']"
proof -
  have "(case validate_manifest_apply_guard sample_manifest [PyStr ''a'', PyStr ''b''] of
      Inr st \<Rightarrow> g_changed_paths st = [''a'', ''b''] | Inl _ \<Rightarrow> False)" by code_simp
  then show ?thesis by (auto split: sum.splits)
qed

lemma not_temp_component: "last name \<noteq> CHR ''p'' \<Longrightarrow> \<not> temp_path E (d @ [name])"
  by (auto simp: temp_path_def)

lemma sample_ordinary:
  assumes "n = ''a'' \<or> n = ''b''"
  shows "ordinary_path (sample_env f) [''v''] ''.manifest-apply-'' None [''v'', n]"
  using assms not_temp_component [of n "sample_env f" "[''v'']"]
  by (auto simp: ordinary_path_def scratch_path_def sample_env_def)

lemma sample_clear: "clear_of_temporaries (sample_env f) [''v''] [''w''] ''.manifest-apply-'' None sample_manifest"
proof -
  have n: "normalize_manifest_repo_path (PyStr ''a'') = Some ''a''" "normalize_manifest_repo_path (PyStr ''b'') = Some ''b''"
    "path_parts ''a'' = [''a'']" "path_parts ''b'' = [''b'']"
    by code_simp+
  have files: "manifest_files sample_manifest = [sample_entry ''a'' ''modified'', sample_entry ''b'' ''deleted'']" by code_simp
  have "dget [(''path'', PyStr x), (''change_type'', PyStr y)] ''path'' PyNone = PyStr x" for x y by (simp add: dget_def)
  then show ?thesis
    using sample_ordinary [of "''a''" f] sample_ordinary [of "''b''" f]
    by (auto simp: clear_of_temporaries_def clear_run_def outside_def files sample_entry_def n ordinary_path_def
        scratch_path_def sample_env_def)
qed

theorem apply_failure_restores_witness:
  "fst (sample_run (fault_at 9 None)) = Inl (FilesystemTransactionError ''disk full'') \<and>
     file_at (snd (sample_run (fault_at 9 None))) [''v'', ''a''] = Some ''old a''"
proof -
  let ?f = "fault_at 9 None"
  obtain st where st: "validate_manifest_apply_guard sample_manifest [PyStr ''a'', PyStr ''b''] = Inr st"
    using sample_guard by blast
  have r: "fst (sample_run ?f) = Inl (FilesystemTransactionError ''disk full'')" by code_simp
  obtain s w' where run: "sample_run ?f = (s, w')" by (cases "sample_run ?f")
  have clean: "\<not> rollback_reported ''disk full''" by (simp add: rollback_reported_def sublist_code)
  have e: "w_env (sample_tree ?f) = sample_env ?f" by (simp add: sample_tree_def)
  have "file_at w' [''v'', ''a''] = file_at (sample_tree ?f) [''v'', ''a'']"
    by (rule apply_failure_restores [OF st, of _ "[''v'']" "[''w'']" None])
      (use r run clean sample_ordinary [of "''a''"] sample_clear default_writer_quiet in \<open>simp_all add: sample_run_def e\<close>)
  also have "\<dots> = Some ''old a''" by code_simp
  finally show ?thesis using r by (simp add: run)
qed

text \<open>
  C6: a manifest transaction that returns has done exactly what the manifest asks. It returns the
  guard's changed paths, and every file outside the scratch paths holds what the entries applied in
  order prescribe: a deleted path is gone, an added or modified path holds the workspace's candidate,
  every other file is unchanged.
\<close>

theorem apply_success_effect:
  assumes "validate_manifest_apply_guard m allowed = Inr st"
    and "clear_of_temporaries (w_env w) live ws ''.manifest-apply-'' shadow m"
    and "quiet_writer (w_env w) writer"
    and "apply_manifest_transaction live ws m allowed shadow t writer w = (Inr ps, w')"
    and "ordinary_path (w_env w) live ''.manifest-apply-'' shadow p"
  shows "ps = g_changed_paths st \<and>
    file_at w' p = manifest_effect (w_env w) live ws (file_at w) (manifest_files m) p"
  using apply_transaction_outcomes [OF assms] by blast

theorem apply_success_effect_witness:
  "fst (sample_run (\<lambda>_. None)) = Inr [''a'', ''b''] \<and>
     file_at (snd (sample_run (\<lambda>_. None))) [''v'', ''a''] = Some ''new a'' \<and>
     file_at (snd (sample_run (\<lambda>_. None))) [''v'', ''b''] = None"
proof -
  let ?f = "(\<lambda>_. None) :: nat \<Rightarrow> (string \<times> string option) option"
  obtain st where st: "validate_manifest_apply_guard sample_manifest [PyStr ''a'', PyStr ''b''] = Inr st"
    using sample_guard by blast
  have r: "fst (sample_run ?f) = Inr [''a'', ''b'']" by code_simp
  obtain s w' where run: "sample_run ?f = (s, w')" by (cases "sample_run ?f")
  have e: "w_env (sample_tree ?f) = sample_env ?f" by (simp add: sample_tree_def)
  have "file_at w' [''v'', n] = manifest_effect (sample_env ?f) [''v''] [''w''] (file_at (sample_tree ?f))
      (manifest_files sample_manifest) [''v'', n]" if "n = ''a'' \<or> n = ''b''" for n
    using apply_success_effect [OF st, of "sample_tree ?f" "[''v'']" "[''w'']" None write_shadow_apply_report "''''"
        "[''a'', ''b'']" w' "[''v'', n]"]
      r run sample_ordinary [OF that] sample_clear default_writer_quiet by (simp add: sample_run_def e)
  moreover have "manifest_effect (sample_env ?f) [''v''] [''w''] (file_at (sample_tree ?f))
      (manifest_files sample_manifest) [''v'', ''a''] = Some ''new a''" by code_simp
  moreover have "manifest_effect (sample_env ?f) [''v''] [''w''] (file_at (sample_tree ?f))
      (manifest_files sample_manifest) [''v'', ''b''] = None" by code_simp
  ultimately show ?thesis using r by (simp add: run)
qed

text \<open>
  C7: containment in every outcome. Whatever \<open>apply_manifest_transaction\<close> does and however it ends,
  a file outside the scratch paths can only differ afterwards if its path is the resolved form of one
  of the guard's changed paths, lies under the resolved live root, and the changed path is contained
  and lies under an allowed root of the policy.
\<close>

theorem apply_changes_contained:
  assumes guard: "validate_manifest_apply_guard m allowed = Inr st"
    and "clear_of_temporaries (w_env w) live ws ''.manifest-apply-'' shadow m"
    and "quiet_writer (w_env w) writer"
    and "apply_manifest_transaction live ws m allowed shadow t writer w = (r, w')"
    and "ordinary_path (w_env w) live ''.manifest-apply-'' shadow p"
    and changed: "file_at w' p \<noteq> file_at w p"
  shows "\<exists>rel \<in> set (g_changed_paths st). p = e_resolve (w_env w) (live @ path_parts rel) \<and>
    prefix (e_resolve (w_env w) live) p \<and> contained_path rel \<and>
    (\<exists>a \<in> set allowed. \<exists>root. parse_allowed_apply_root a = Inr root \<and>
       prefix (py_split slash (normalized_path root)) (py_split slash rel))"
proof -
  have "p \<in> live_targets (w_env w) live (manifest_files m)"
    using apply_transaction_outcomes [OF assms(1-5)] changed by blast
  from live_target_changed [OF guard this] guard_contains [OF guard] show ?thesis by blast
qed

theorem apply_changes_contained_witness:
  "\<exists>rel \<in> {''a'', ''b''}. [''v'', ''b''] = [''v''] @ path_parts rel \<and> contained_path rel"
proof -
  let ?f = "(\<lambda>_. None) :: nat \<Rightarrow> (string \<times> string option) option"
  obtain st where st: "validate_manifest_apply_guard sample_manifest [PyStr ''a'', PyStr ''b''] = Inr st"
      "g_changed_paths st = [''a'', ''b'']"
    using sample_guard by blast
  have e: "w_env (sample_tree ?f) = sample_env ?f" by (simp add: sample_tree_def)
  obtain s w' where run: "sample_run ?f = (s, w')" by (cases "sample_run ?f")
  have "file_at (snd (sample_run ?f)) [''v'', ''b''] \<noteq> file_at (sample_tree ?f) [''v'', ''b'']" by code_simp
  then have "file_at w' [''v'', ''b''] \<noteq> file_at (sample_tree ?f) [''v'', ''b'']" by (simp add: run)
  then have "\<exists>rel \<in> set (g_changed_paths st). [''v'', ''b''] = e_resolve (w_env (sample_tree ?f)) ([''v''] @ path_parts rel) \<and>
      prefix (e_resolve (w_env (sample_tree ?f)) [''v'']) [''v'', ''b''] \<and> contained_path rel \<and>
      (\<exists>a \<in> set [PyStr ''a'', PyStr ''b'']. \<exists>root. parse_allowed_apply_root a = Inr root \<and>
         prefix (py_split slash (normalized_path root)) (py_split slash rel))"
    by (rule apply_changes_contained [OF st(1), of _ _ "[''w'']" None write_shadow_apply_report "''''" s, rotated -1])
      (use run sample_ordinary [of "''b''"] sample_clear default_writer_quiet in \<open>simp_all add: sample_run_def e\<close>)
  then show ?thesis unfolding st(2) e by (auto simp: sample_env_def)
qed

end
