(* ===== verification/Rehearsal.thy ===== *)
theory Rehearsal
  imports ManifestApply
begin

section \<open>The rollback rehearsal\<close>

text \<open>
  \<open>rehearse_manifest_apply_rollback\<close> of \<open>core/filesystem_runtime.py\<close>: the touched files are copied
  into a private live root, the manifest is applied and rolled back there, and every file is
  checked after each half. The digest of a file (\<open>hashlib.sha256\<close> of its content) is the parameter
  \<open>sha\<close>; the report writer is a parameter, as in the apply transaction.
\<close>

subsection \<open>Seeding the private live root\<close>

type_synonym digest = "string \<Rightarrow> string"

definition file_sha256 :: "digest \<Rightarrow> fpath \<Rightarrow> string io" where
  "file_sha256 sha p = bindm (op_read p) (\<lambda>t. returnm (sha t))"

definition seed_file ::
  "digest \<Rightarrow> string \<Rightarrow> fpath \<Rightarrow> fpath \<Rightarrow> (string \<rightharpoonup> string) \<Rightarrow> (string \<rightharpoonup> string) io" where
  "seed_file sha rel source target base =
     bindm (path_exists source) (\<lambda>present.
       if \<not> present then returnm (base(rel \<mapsto> ''''))
       else bindm (op_mkdir (butlast target)) (\<lambda>_.
            bindm (op_copy2 source target) (\<lambda>_.
            bindm (file_sha256 sha source) (\<lambda>d. returnm (base(rel \<mapsto> d))))))"

definition seed_entry ::
  "digest \<Rightarrow> fpath \<Rightarrow> fpath \<Rightarrow> pyval \<Rightarrow> (string \<rightharpoonup> string) \<Rightarrow> (string \<rightharpoonup> string) io" where
  "seed_entry sha live_root rehearsal_root entry base =
     (case entry of
        PyDict d \<Rightarrow>
          (case normalize_manifest_repo_path (dget d ''path'' PyNone) of
             None \<Rightarrow> returnm base
           | Some rel \<Rightarrow>
               bindm (resolve_manifest_apply_path live_root rel ''live'') (\<lambda>source.
               bindm (resolve_manifest_apply_path rehearsal_root rel ''rehearsal live'') (\<lambda>target.
                 seed_file sha rel source target base)))
      | _ \<Rightarrow> returnm base)"

fun seed_rehearsal_live_root ::
  "digest \<Rightarrow> fpath \<Rightarrow> fpath \<Rightarrow> pyval list \<Rightarrow> (string \<rightharpoonup> string) \<Rightarrow> (string \<rightharpoonup> string) io" where
  "seed_rehearsal_live_root sha live reh [] base = returnm base"
| "seed_rehearsal_live_root sha live reh (e # es) base =
     bindm (seed_entry sha live reh e base) (\<lambda>base'. seed_rehearsal_live_root sha live reh es base')"

subsection \<open>Verifying each half\<close>

definition note_text :: "manifest_item \<Rightarrow> string \<Rightarrow> string list" where
  "note_text i t = [ai_rel i @ '': '' @ t]"

definition same_digest :: "digest \<Rightarrow> manifest_item \<Rightarrow> fpath \<Rightarrow> (bool \<times> string list) io" where
  "same_digest sha i workspace =
     bindm (path_exists (ai_live i)) (\<lambda>created.
       if \<not> created then returnm (False, note_text i ''rehearsal apply did not create live file'')
       else bindm (file_sha256 sha (ai_live i)) (\<lambda>d1.
            bindm (file_sha256 sha workspace) (\<lambda>d2.
              returnm (if d1 = d2 then (True, []) else (False, note_text i ''rehearsal apply digest mismatch'')))))"

definition verify_rehearsal_apply :: "digest \<Rightarrow> manifest_item \<Rightarrow> (bool \<times> string list) io" where
  "verify_rehearsal_apply sha i = catch_os
     (if ai_change i = ''deleted''
      then bindm (path_exists (ai_live i)) (\<lambda>present.
             returnm (if \<not> present then (True, []) else (False, note_text i ''rehearsal apply left deleted file present'')))
      else (case ai_workspace i of
              None \<Rightarrow> returnm (False, note_text i ''workspace candidate missing during rehearsal'')
            | Some q \<Rightarrow> bindm (path_exists q) (\<lambda>present.
                if \<not> present then returnm (False, note_text i ''workspace candidate missing during rehearsal'')
                else same_digest sha i q)))
     (\<lambda>e. returnm (False, note_text i (''rehearsal apply verification failed: '' @ os_error_text e)))"

definition verify_rehearsal_rollback :: "digest \<Rightarrow> string \<Rightarrow> manifest_item \<Rightarrow> (bool \<times> string list) io" where
  "verify_rehearsal_rollback sha baseline i = catch_os
     (bindm (path_exists (ai_live i)) (\<lambda>present.
        if baseline = []
        then returnm (if \<not> present then (True, []) else (False, note_text i ''rehearsal rollback left new file present''))
        else if \<not> present
        then returnm (False, note_text i ''rehearsal rollback did not restore live file'')
        else bindm (file_sha256 sha (ai_live i)) (\<lambda>d.
               returnm (if d = baseline then (True, []) else (False, note_text i ''rehearsal rollback digest mismatch'')))))
     (\<lambda>e. returnm (False, note_text i (''rehearsal rollback verification failed: '' @ os_error_text e)))"

text \<open>The two result dictionaries, and the diagnostics of an item that both loops extend.\<close>

type_synonym verdicts = "(string \<rightharpoonup> bool) \<times> (string \<rightharpoonup> string list)"

definition enter_verdict :: "string \<Rightarrow> bool \<times> string list \<Rightarrow> verdicts \<Rightarrow> verdicts" where
  "enter_verdict rel v vs = (case v of (ok, ds) \<Rightarrow> case vs of (results, notes) \<Rightarrow>
     (results(rel \<mapsto> ok), notes(rel \<mapsto> (case notes rel of None \<Rightarrow> ds | Some old \<Rightarrow> old @ ds))))"

fun verify_items :: "(manifest_item \<Rightarrow> (bool \<times> string list) io) \<Rightarrow> manifest_item list \<Rightarrow> verdicts \<Rightarrow> verdicts io" where
  "verify_items check [] vs = returnm vs"
| "verify_items check (i # items) vs =
     bindm (check i) (\<lambda>v. verify_items check items (enter_verdict (ai_rel i) v vs))"

subsection \<open>The rehearsal in its temporary directory\<close>

record rehearsal =
  rh_prepared :: "manifest_item list"
  rh_baseline :: "string \<rightharpoonup> string"
  rh_apply :: "string \<rightharpoonup> bool"
  rh_rollback :: "string \<rightharpoonup> bool"
  rh_notes :: "string \<rightharpoonup> string list"
  rh_diagnostics :: "string list"

definition prepare_rehearsal ::
  "digest \<Rightarrow> fpath \<Rightarrow> fpath \<Rightarrow> pydict \<Rightarrow> fpath \<Rightarrow> ((string \<rightharpoonup> string) \<times> manifest_item list) io" where
  "prepare_rehearsal sha live_root workspace_root manifest tmp_root =
     (let rehearsal_root = tmp_root @ [''live'']; tmp_dir = tmp_root @ [''tmp'']
      in bindm (op_mkdir rehearsal_root) (\<lambda>_.
         bindm (op_mkdir tmp_dir) (\<lambda>_.
         bindm (seed_rehearsal_live_root sha live_root rehearsal_root (manifest_files manifest) Map.empty) (\<lambda>base.
         bindm (prepare_items rehearsal_root workspace_root tmp_dir 0 (manifest_files manifest)) (\<lambda>prepared.
           returnm (base, prepared))))))"

text \<open>Applying, checking, rolling back and checking again, once everything is prepared.\<close>

definition rehearse_prepared :: "digest \<Rightarrow> (string \<rightharpoonup> string) \<Rightarrow> manifest_item list \<Rightarrow> rehearsal io" where
  "rehearse_prepared sha base prepared =
     bindm (run_log apply_item prepared []) (\<lambda>(err, applied).
       if err \<noteq> None \<and> \<not> is_os_error (the err) then raisem (the err)
       else bindm (verify_items (verify_rehearsal_apply sha) prepared (Map.empty, Map.empty)) (\<lambda>(apply_results, notes).
       bindm (rollback_manifest_items (map fst applied)) (\<lambda>errs.
       bindm (verify_items (\<lambda>i. verify_rehearsal_rollback sha (case base (ai_rel i) of None \<Rightarrow> '''' | Some d \<Rightarrow> d) i)
                prepared (Map.empty, notes)) (\<lambda>(rollback_results, notes').
         returnm \<lparr>rh_prepared = prepared, rh_baseline = base, rh_apply = apply_results,
           rh_rollback = rollback_results, rh_notes = notes',
           rh_diagnostics =
             (case err of None \<Rightarrow> [] | Some e \<Rightarrow> [''rehearsal apply failed: '' @ os_error_text e]) @
             map (\<lambda>t. ''rehearsal rollback failed: '' @ t) errs\<rparr>))))"

text \<open>
  The outer handler is reached only while nothing has been applied: the loops after the preparation
  catch their own \<open>OSError\<close>. \<open>prepared\<close> is then still empty, so that the report lists no file.
\<close>

definition rehearse_in_tmp :: "digest \<Rightarrow> fpath \<Rightarrow> fpath \<Rightarrow> pydict \<Rightarrow> fpath \<Rightarrow> rehearsal io" where
  "rehearse_in_tmp sha live_root workspace_root manifest tmp_root =
     bindm (attempt (prepare_rehearsal sha live_root workspace_root manifest tmp_root)) (\<lambda>r.
     case r of
       Inl e \<Rightarrow>
         if is_os_error e
         then bindm (rollback_manifest_items []) (\<lambda>errs.
           returnm \<lparr>rh_prepared = [], rh_baseline = Map.empty, rh_apply = Map.empty, rh_rollback = Map.empty,
             rh_notes = Map.empty,
             rh_diagnostics = (''rollback rehearsal failed before verification: '' @ os_error_text e) #
               map (\<lambda>t. ''rehearsal rollback failed: '' @ t) errs\<rparr>)
         else raisem e
     | Inr (base, prepared) \<Rightarrow> rehearse_prepared sha base prepared)"

subsection \<open>The report\<close>

definition rehearsal_file_result :: "rehearsal \<Rightarrow> manifest_item \<Rightarrow> pydict io" where
  "rehearsal_file_result rh i =
     (let found = (\<lambda>m. case m (ai_rel i) of None \<Rightarrow> False | Some b \<Rightarrow> b)
      in bindm (workspace_present i) (\<lambda>present.
         returnm [(''path'', PyStr (ai_rel i)), (''change_type'', PyStr (ai_change i)),
           (''live_exists_before'', PyBool (ai_existed i)), (''workspace_exists'', PyBool present),
           (''apply_verified'', PyBool (found (rh_apply rh))),
           (''rollback_verified'', PyBool (found (rh_rollback rh))),
           (''diagnostics'', py_strs (case rh_notes rh (ai_rel i) of None \<Rightarrow> [] | Some ds \<Rightarrow> ds))]))"

definition rehearsal_file_results :: "rehearsal \<Rightarrow> pydict list io" where
  "rehearsal_file_results rh =
     mapm (rehearsal_file_result rh) (filter (\<lambda>i. rh_baseline rh (ai_rel i) \<noteq> None) (rh_prepared rh))"

definition flag :: "pydict \<Rightarrow> string \<Rightarrow> bool" where
  "flag d k = py_truth (dget d k PyNone)"

definition rehearsal_failed :: "pydict list \<Rightarrow> nat" where
  "rehearsal_failed files =
     length (filter (\<lambda>d. \<not> flag d ''apply_verified'' \<or> \<not> flag d ''rollback_verified'') files)"

definition rollback_rehearsal_summary :: "pydict list \<Rightarrow> pydict" where
  "rollback_rehearsal_summary files =
     [(''total_changed_files'', PyInt (int (length files))),
      (''apply_verified'', PyInt (int (length (filter (\<lambda>d. flag d ''apply_verified'') files)))),
      (''rollback_verified'', PyInt (int (length (filter (\<lambda>d. flag d ''rollback_verified'') files)))),
      (''failed'', PyInt (int (rehearsal_failed files)))]"

definition ROLLBACK_REHEARSAL_REPORT_SCHEMA :: string where
  "ROLLBACK_REHEARSAL_REPORT_SCHEMA = ''ops/schemas/rollback-rehearsal-report.schema.json''"

definition build_rollback_rehearsal_report ::
  "pydict \<Rightarrow> guard_state \<Rightarrow> pydict list \<Rightarrow> string \<Rightarrow> string \<Rightarrow> string list \<Rightarrow> pydict" where
  "build_rollback_rehearsal_report manifest st files generated_at shadow_ref diagnostics =
     (let ds = filter (\<lambda>t. py_strip t \<noteq> []) diagnostics
      in [(''$schema'', PyStr ROLLBACK_REHEARSAL_REPORT_SCHEMA), (''mode'', PyStr ''rollback_rehearsal''),
          (''status'', PyStr (if rehearsal_failed files = 0 \<and> ds = [] then ''pass'' else ''fail'')),
          (''generated_at'', PyStr generated_at), (''source_shadow_apply_report'', PyStr shadow_ref),
          (''source_manifest'', source_manifest manifest), (''guard'', guard_payload st),
          (''summary'', PyDict (rollback_rehearsal_summary files)),
          (''files'', PyList (map PyDict files)), (''diagnostics'', py_strs ds)])"

definition rehearse_manifest_apply_rollback ::
  "digest \<Rightarrow> fpath \<Rightarrow> fpath \<Rightarrow> pydict \<Rightarrow> pyval list \<Rightarrow> fpath \<Rightarrow> string \<Rightarrow> string \<Rightarrow> report_writer \<Rightarrow> pydict io" where
  "rehearse_manifest_apply_rollback sha live_root workspace_root manifest allowed report_path generated_at
       shadow_ref writer =
     (if generated_at = []
      then raisem (FilesystemTransactionError ''rollback_rehearsal_generated_at is required'')
      else bindm (liftm (checked_guard manifest allowed)) (\<lambda>st.
           bindm (op_mkdtemp live_root ''.rollback-rehearsal-'') (\<lambda>tmp_root.
           bindm (finallym (rehearse_in_tmp sha live_root workspace_root manifest tmp_root)
                    (op_rmtree tmp_root)) (\<lambda>rh.
           bindm (rehearsal_file_results rh) (\<lambda>files.
             let report = build_rollback_rehearsal_report manifest st files generated_at shadow_ref (rh_diagnostics rh)
             in bindm (writer report_path report) (\<lambda>_. returnm report))))))"

subsection \<open>The live tree is not touched\<close>

lemma leaves_sha [leaves_rules]: "leaves P E (file_sha256 sha p) (\<lambda>_. True)"
  unfolding file_sha256_def by (auto intro!: leaves_bind [OF leaves_read] leaves_return)

text \<open>The baseline knows the path of an entry.\<close>

definition records_entry :: "(string \<rightharpoonup> string) \<Rightarrow> pyval \<Rightarrow> bool" where
  "records_entry b e \<longleftrightarrow>
     (\<forall>d rel. e = PyDict d \<longrightarrow> normalize_manifest_repo_path (dget d ''path'' PyNone) = Some rel \<longrightarrow> b rel \<noteq> None)"

lemma records_entry_mono: "records_entry b e \<Longrightarrow> dom b \<subseteq> dom b' \<Longrightarrow> records_entry b' e"
  unfolding records_entry_def by blast

lemma leaves_seed_entry:
  assumes "\<And>p. P p \<Longrightarrow> \<not> prefix (e_resolve E reh) p"
  shows "leaves P E (seed_entry sha live reh e base) (\<lambda>b. dom base \<subseteq> dom b \<and>
    records_entry b e)"
proof -
  have copy: "leaves P E (seed_file sha rel src dst base) (\<lambda>b. dom base \<subseteq> dom b \<and> rel \<in> dom b)"
    if "prefix (e_resolve E reh) dst" for rel src dst
  proof -
    have "\<not> P dst" using assms that by blast
    then show ?thesis unfolding seed_file_def
      by (auto intro!: leaves_bind [OF leaves_exists] leaves_return leaves_bind [OF leaves_mkdir]
          leaves_bind [OF leaves_copy2] leaves_bind [OF leaves_sha])
  qed
  have step: "leaves P E (bindm (resolve_manifest_apply_path live rel ''live'') (\<lambda>src.
      bindm (resolve_manifest_apply_path reh rel ''rehearsal live'') (\<lambda>dst. seed_file sha rel src dst base)))
      (\<lambda>b. dom base \<subseteq> dom b \<and> rel \<in> dom b)" for rel
    by (rule leaves_bind [OF leaves_resolve], rule leaves_bind [OF leaves_resolve]) (blast intro: copy)
  show ?thesis
  proof (cases e)
    case (PyDict d)
    show ?thesis
    proof (cases "normalize_manifest_repo_path (dget d ''path'' PyNone)")
      case None
      then show ?thesis using PyDict by (auto simp: seed_entry_def records_entry_def intro: leaves_return)
    next
      case (Some rel)
      show ?thesis unfolding PyDict seed_entry_def pyval.case Some option.case
        by (rule leaves_weaken [OF step [of rel]]) (auto simp: records_entry_def Some)
    qed
  qed (auto simp: seed_entry_def records_entry_def intro: leaves_return)
qed

lemma leaves_seed:
  assumes "\<And>p. P p \<Longrightarrow> \<not> prefix (e_resolve E reh) p"
  shows "leaves P E (seed_rehearsal_live_root sha live reh es base)
    (\<lambda>b. dom base \<subseteq> dom b \<and> (\<forall>e \<in> set es. records_entry b e))"
proof (induction es arbitrary: base)
  case (Cons e es)
  show ?case unfolding seed_rehearsal_live_root.simps
  proof (rule leaves_bind [OF leaves_seed_entry [OF assms]])
    fix b :: "string \<rightharpoonup> string"
    assume b: "dom base \<subseteq> dom b \<and> records_entry b e"
    have "dom base \<subseteq> dom b' \<and> (\<forall>e' \<in> set (e # es). records_entry b' e')"
      if "dom b \<subseteq> dom b' \<and> (\<forall>e' \<in> set es. records_entry b' e')" for b'
      using b that records_entry_mono [of b e b'] by simp blast
    then show "leaves P E (seed_rehearsal_live_root sha live reh es b)
      (\<lambda>b'. dom base \<subseteq> dom b' \<and> (\<forall>e' \<in> set (e # es). records_entry b' e'))"
      by (rule leaves_weaken [OF Cons.IH [of b] _, rotated]) assumption
  qed
qed (simp add: leaves_return)

lemma leaves_run_log:
  assumes "\<And>x. x \<in> set xs \<Longrightarrow> leaves P E (act x) (\<lambda>_. True)"
  shows "leaves P E (run_log act xs done0) (\<lambda>(err, lg). set (map fst lg) \<subseteq> set (map fst done0) \<union> set xs)"
  using assms
proof (induction xs arbitrary: done0)
  case (Cons x xs)
  show ?case
  proof (rule leavesI)
    fix w r w'
    assume env: "w_env w = E" and run: "run_log act (x # xs) done0 w = (r, w')"
    obtain r1 w1 where 1: "act x w = (r1, w1)" by (cases "act x w")
    note d1 = leavesD [OF Cons.prems [of x] env 1]
    show "w_env w' = E \<and> (\<forall>p. P p \<longrightarrow> file_at w' p = file_at w p) \<and>
      (\<forall>y. r = Inr y \<longrightarrow> (case y of (err, lg) \<Rightarrow> set (map fst lg) \<subseteq> set (map fst done0) \<union> set (x # xs)))"
    proof (cases r1)
      case (Inl e)
      then show ?thesis using run 1 d1 by auto
    next
      case (Inr y)
      then have rest: "run_log act xs (done0 @ [(x, y)]) w1 = (r, w')" using run 1 by simp
      have "leaves P E (run_log act xs (done0 @ [(x, y)]))
          (\<lambda>(err, lg). set (map fst lg) \<subseteq> set (map fst (done0 @ [(x, y)])) \<union> set xs)"
        by (rule Cons.IH) (simp add: Cons.prems)
      note d2 = leavesD [OF this _ rest]
      have "w_env w1 = E" using d1(1) by simp
      from d2 [OF this] d1(2) show ?thesis by (auto split: prod.splits)
    qed
  qed
qed (simp add: leaves_return)

lemma leaves_undo_all:
  assumes "\<And>x. x \<in> set xs \<Longrightarrow> leaves P E (undo x) (\<lambda>_. True)"
  shows "leaves P E (undo_all undo label xs) (\<lambda>_. True)"
  using assms
proof (induction xs)
  case (Cons x xs)
  have 1: "leaves P E (undo x) (\<lambda>_. True)" using Cons.prems by simp
  have 2: "leaves P E (undo_all undo label xs) (\<lambda>_. True)" using Cons by simp
  have 3: "leaves P E (catch_os (bindm (undo x) (\<lambda>_. returnm [])) (\<lambda>e. returnm [label x @ '': '' @ os_error_text e])) (\<lambda>_. True)"
    by (rule leaves_catch) (auto intro!: leaves_bind [OF 1] leaves_return)
  show ?case unfolding undo_all.simps
    by (rule leaves_bind [OF 3], rule leaves_bind [OF 2]) (simp add: leaves_return)
qed (simp add: leaves_return)

lemma leaves_verify_apply: "leaves P E (verify_rehearsal_apply sha i) (\<lambda>_. True)"
  unfolding verify_rehearsal_apply_def same_digest_def
  by (rule leaves_catch)
    (auto split: option.splits intro!: leaves_bind [OF leaves_exists] leaves_bind [OF leaves_sha] leaves_return)

lemma leaves_verify_rollback: "leaves P E (verify_rehearsal_rollback sha d i) (\<lambda>_. True)"
  unfolding verify_rehearsal_rollback_def
  by (rule leaves_catch)
    (auto intro!: leaves_bind [OF leaves_exists] leaves_bind [OF leaves_sha] leaves_return)

lemma leaves_verify_items:
  assumes "\<And>i. leaves P E (check i) (\<lambda>_. True)"
  shows "leaves P E (verify_items check items vs) (\<lambda>_. True)"
proof (induction items arbitrary: vs)
  case (Cons i items)
  show ?case unfolding verify_items.simps by (rule leaves_bind [OF assms]) (rule Cons)
qed (simp add: leaves_return)

lemma prepared_list_fit:
  assumes "prepared_list E live ws tmp i es xs" and "x \<in> set xs"
  shows "prefix (e_resolve E live) (ai_live x) \<and> (\<forall>q. ai_staged x = Some q \<longrightarrow> prefix tmp q) \<and>
    (\<forall>q. ai_backup x = Some q \<longrightarrow> prefix tmp q) \<and> (ai_change x = ''deleted'' \<or> ai_staged x \<noteq> None)"
  using prepared_list_in [OF assms] by (auto simp: prepared_as_def split: if_splits)

lemma leaves_rehearse_prepared:
  assumes fit: "\<And>x p. x \<in> set prepared \<Longrightarrow> P p \<Longrightarrow>
      p \<noteq> ai_live x \<and> ai_staged x \<noteq> Some p \<and> ai_backup x \<noteq> Some p"
    and staged: "\<And>x. x \<in> set prepared \<Longrightarrow> ai_change x = ''deleted'' \<or> ai_staged x \<noteq> None"
  shows "leaves P E (rehearse_prepared sha base prepared) (\<lambda>rh. rh_prepared rh = prepared \<and> rh_baseline rh = base)"
proof -
  have act: "leaves P E (apply_item x) (\<lambda>_. True)" if "x \<in> set prepared" for x
    using fit staged that by (intro leaves_apply_item) blast+
  have undo: "leaves P E (rollback_item x) (\<lambda>_. True)" if "x \<in> set prepared" for x
    using fit that by (intro leaves_rollback_item) blast+
  have undone: "leaves P E (rollback_manifest_items xs) (\<lambda>_. True)" if "set xs \<subseteq> set prepared" for xs
    unfolding rollback_manifest_items_def by (rule leaves_undo_all) (use that undo in auto)
  show ?thesis unfolding rehearse_prepared_def
  proof (rule leaves_bind [OF leaves_run_log [OF act]], assumption)
    fix y :: "py_exc option \<times> (manifest_item \<times> fpath option) list"
    assume y: "case y of (err, lg) \<Rightarrow> set (map fst lg) \<subseteq> set (map fst []) \<union> set prepared"
    obtain err lg where e: "y = (err, lg)" by (cases y)
    have lg: "set (map fst lg) \<subseteq> set prepared" using y e by simp
    show "leaves P E (case y of (err, applied) \<Rightarrow>
         if err \<noteq> None \<and> \<not> is_os_error (the err) then raisem (the err)
         else bindm (verify_items (verify_rehearsal_apply sha) prepared (Map.empty, Map.empty)) (\<lambda>(apply_results, notes).
         bindm (rollback_manifest_items (map fst applied)) (\<lambda>errs.
         bindm (verify_items (\<lambda>i. verify_rehearsal_rollback sha (case base (ai_rel i) of None \<Rightarrow> '''' | Some d \<Rightarrow> d) i)
                  prepared (Map.empty, notes)) (\<lambda>(rollback_results, notes').
           returnm \<lparr>rh_prepared = prepared, rh_baseline = base, rh_apply = apply_results,
             rh_rollback = rollback_results, rh_notes = notes',
             rh_diagnostics =
               (case err of None \<Rightarrow> [] | Some e \<Rightarrow> [''rehearsal apply failed: '' @ os_error_text e]) @
               map (\<lambda>t. ''rehearsal rollback failed: '' @ t) errs\<rparr>))))
       (\<lambda>rh. rh_prepared rh = prepared \<and> rh_baseline rh = base)"
      unfolding e prod.case
      by (auto intro!: leaves_raise leaves_bind [OF leaves_verify_items [OF leaves_verify_apply]]
          leaves_bind [OF undone [OF lg]] leaves_bind [OF leaves_verify_items [OF leaves_verify_rollback]] leaves_return)
  qed
qed
definition names_entry :: "pyval \<Rightarrow> manifest_item \<Rightarrow> bool" where
  "names_entry e i \<longleftrightarrow> (\<exists>d. e = PyDict d \<and> normalize_manifest_repo_path (dget d ''path'' PyNone) = Some (ai_rel i))"

lemma prepared_list_names: "prepared_list E live ws tmp k es xs \<Longrightarrow> list_all2 names_entry es xs"
  by (induction es arbitrary: k xs) (auto simp: prepared_as_def names_entry_def)

lemma leaves_prepare_rehearsal:
  assumes inside: "prefix tmp_root (e_resolve E (tmp_root @ [''live'']))" and P: "\<And>p. P p \<Longrightarrow> \<not> prefix tmp_root p"
  shows "leaves P E (prepare_rehearsal sha live ws m tmp_root) (\<lambda>(base, prepared).
    prepared_list E (tmp_root @ [''live'']) ws (tmp_root @ [''tmp'']) 0 (manifest_files m) prepared \<and>
    (\<forall>e \<in> set (manifest_files m). records_entry base e))"
proof -
  have "\<not> prefix (e_resolve E (tmp_root @ [''live''])) p" if "P p" for p
    using P [OF that] inside prefix_order.trans by blast
  note seed = leaves_seed [of P E "tmp_root @ [''live'']", OF this]
  have "\<not> prepared_file (tmp_root @ [''tmp'']) 0 p" if "P p" for p
    using P [OF that] by (auto simp: prepared_file_def)
  note prep = leaves_prepare_items [of P "tmp_root @ [''tmp'']" 0, OF this]
  show ?thesis unfolding prepare_rehearsal_def Let_def
    by (rule leaves_bind [OF leaves_mkdir], rule leaves_bind [OF leaves_mkdir], rule leaves_bind [OF seed], assumption,
        rule leaves_bind [OF prep], assumption) (simp add: leaves_return)
qed

text \<open>Either every entry was prepared and has a baseline, or the report carries a diagnostic.\<close>

definition rehearsed :: "pydict \<Rightarrow> rehearsal \<Rightarrow> bool" where
  "rehearsed m rh \<longleftrightarrow>
     list_all2 names_entry (manifest_files m) (rh_prepared rh) \<and>
       (\<forall>i \<in> set (rh_prepared rh). rh_baseline rh (ai_rel i) \<noteq> None) \<or>
     (\<exists>t \<in> set (rh_diagnostics rh). py_strip t \<noteq> [])"

lemma py_strip_Cons_ne: "\<not> py_isspace c \<Longrightarrow> py_strip (c # s) \<noteq> []"
  by (auto simp: py_strip_def dropWhile_append)

lemma leaves_rehearse_in_tmp:
  assumes inside: "prefix tmp_root (e_resolve E (tmp_root @ [''live'']))" and P: "\<And>p. P p \<Longrightarrow> \<not> prefix tmp_root p"
  shows "leaves P E (rehearse_in_tmp sha live ws m tmp_root) (rehearsed m)"
proof (rule leavesI)
  fix w r w'
  assume env: "w_env w = E" and run: "rehearse_in_tmp sha live ws m tmp_root w = (r, w')"
  obtain r1 w1 where 1: "prepare_rehearsal sha live ws m tmp_root w = (r1, w1)"
    by (cases "prepare_rehearsal sha live ws m tmp_root w")
  note d1 = leavesD [OF leaves_prepare_rehearsal [OF inside P] env 1]
  show "w_env w' = E \<and> (\<forall>p. P p \<longrightarrow> file_at w' p = file_at w p) \<and> (\<forall>x. r = Inr x \<longrightarrow> rehearsed m x)"
  proof (cases r1)
    case (Inl e)
    have "py_strip (''rollback rehearsal failed before verification: '' @ t) \<noteq> []" for t
      using py_strip_Cons_ne [of "CHR ''r''"] by (simp add: py_isspace_def)
    then show ?thesis using run 1 Inl d1
      by (auto simp: rehearse_in_tmp_def bindm_def attempt_def raisem_def returnm_def rehearsed_def
          rollback_manifest_items_def split: if_splits)
  next
    case (Inr y)
    obtain base prepared where y: "y = (base, prepared)" by (cases y)
    have run2: "rehearse_prepared sha base prepared w1 = (r, w')"
      using run 1 Inr y by (simp add: rehearse_in_tmp_def bindm_def attempt_def)
    have pl: "prepared_list E (tmp_root @ [''live'']) ws (tmp_root @ [''tmp'']) 0 (manifest_files m) prepared"
      and base: "\<forall>e \<in> set (manifest_files m). records_entry base e" using d1(3) [OF _ Inr] y by auto
    have "leaves P E (rehearse_prepared sha base prepared) (\<lambda>rh. rh_prepared rh = prepared \<and> rh_baseline rh = base)"
    proof (rule leaves_rehearse_prepared)
      fix x p
      assume x: "x \<in> set prepared"
      note f = prepared_list_fit [OF pl x]
      then show "ai_change x = ''deleted'' \<or> ai_staged x \<noteq> None" by blast
      assume "P p"
      then have "\<not> prefix tmp_root p" by (rule P)
      then show "p \<noteq> ai_live x \<and> ai_staged x \<noteq> Some p \<and> ai_backup x \<noteq> Some p"
        using f inside by (meson append_prefixD prefix_order.trans)
    qed
    note d2 = leavesD [OF this d1(1) run2]
    have "list_all2 names_entry (manifest_files m) prepared" using pl by (rule prepared_list_names)
    moreover have "base (ai_rel i) \<noteq> None" if "i \<in> set prepared" for i
      using list_all2_in2 [OF calculation that] base by (auto simp: names_entry_def records_entry_def)
    ultimately show ?thesis using d1 d2 by (auto simp: rehearsed_def)
  qed
qed
subsection \<open>Properties\<close>

lemma leaves_file_results: "leaves P E (rehearsal_file_results rh)
  (list_all2 (\<lambda>i d. dget d ''path'' PyNone = PyStr (ai_rel i))
     (filter (\<lambda>i. rh_baseline rh (ai_rel i) \<noteq> None) (rh_prepared rh)))"
  unfolding rehearsal_file_results_def
  by (rule leaves_mapm) (auto simp: rehearsal_file_result_def Let_def dget_def
      intro!: leaves_bind [OF leaves_workspace_present] leaves_return)

text \<open>The private live root of a rehearsal resolves to a place inside its temporary directory.\<close>

definition private_root :: "os_env \<Rightarrow> fpath \<Rightarrow> bool" where
  "private_root E live \<longleftrightarrow> (\<forall>k. let tmp = live @ [''.rollback-rehearsal-'' @ e_tmp E k]
     in prefix tmp (e_resolve E (tmp @ [''live''])))"

definition rehearsal_of :: "pydict \<Rightarrow> guard_state \<Rightarrow> pydict \<Rightarrow> bool" where
  "rehearsal_of m st report \<longleftrightarrow> (\<exists>rh files t ref. rehearsed m rh \<and>
     list_all2 (\<lambda>i d. dget d ''path'' PyNone = PyStr (ai_rel i))
       (filter (\<lambda>i. rh_baseline rh (ai_rel i) \<noteq> None) (rh_prepared rh)) files \<and>
     report = build_rollback_rehearsal_report m st files t ref (rh_diagnostics rh))"

lemma names_allowed:
  "list_all2 names_entry fs xs \<Longrightarrow> list_all2 (entry_allowed roots) fs ys \<Longrightarrow> map ai_rel xs = ys"
  by (induction fs arbitrary: xs ys) (auto simp: list_all2_Cons1 names_entry_def entry_allowed_def)

lemma rehearsal_ofI:
  "rehearsed m rh \<Longrightarrow> list_all2 (\<lambda>i d. dget d ''path'' PyNone = PyStr (ai_rel i))
     (filter (\<lambda>i. rh_baseline rh (ai_rel i) \<noteq> None) (rh_prepared rh)) files \<Longrightarrow>
   rehearsal_of m st (build_rollback_rehearsal_report m st files t ref (rh_diagnostics rh))"
  unfolding rehearsal_of_def by blast

lemma leaves_rehearsal:
  assumes priv: "private_root E live" and quiet: "\<forall>rep. leaves P E (writer p rep) (\<lambda>_. True)"
    and P: "\<And>q k. P q \<Longrightarrow> \<not> prefix (live @ [''.rollback-rehearsal-'' @ e_tmp E k]) q"
  shows "leaves P E (rehearse_manifest_apply_rollback sha live ws m allowed p t ref writer)
    (\<lambda>report. \<forall>st. validate_manifest_apply_guard m allowed = Inr st \<longrightarrow> rehearsal_of m st report)"
proof -
  have guard: "leaves P E (liftm (checked_guard m allowed)) (\<lambda>st. validate_manifest_apply_guard m allowed = Inr st)"
    by (rule leaves_lift) (auto simp: checked_guard_def split: sum.splits)
  have core: "leaves P E (finallym (rehearse_in_tmp sha live ws m tmp) (op_rmtree tmp)) (rehearsed m)"
    if made: "\<exists>k. tmp = live @ [''.rollback-rehearsal-'' @ e_tmp E k]" for tmp
  proof (rule leaves_finally)
    obtain k where k: "tmp = live @ [''.rollback-rehearsal-'' @ e_tmp E k]" using made by blast
    have out: "\<not> prefix tmp q" if "P q" for q using P [OF that] k by simp
    have ins: "prefix tmp (e_resolve E (tmp @ [''live'']))" using priv k by (simp add: private_root_def Let_def)
    show "leaves P E (rehearse_in_tmp sha live ws m tmp) (rehearsed m)"
      by (rule leaves_rehearse_in_tmp [OF ins out])
    show "leaves P E (op_rmtree tmp) (\<lambda>_. True)" by (rule leaves_rmtree) (rule out)
  qed
  show ?thesis unfolding rehearse_manifest_apply_rollback_def Let_def
    by (auto simp only: split: if_splits intro!: leaves_raise leaves_bind [OF guard] leaves_bind [OF leaves_mkdtemp]
        leaves_bind [OF core] leaves_bind [OF leaves_file_results] leaves_bind [OF quiet [rule_format]] leaves_return
        rehearsal_ofI)
qed

text \<open>
  C31: a rehearsal never touches the live tree. However \<open>rehearse_manifest_apply_rollback\<close> ends and
  whichever file operation fails, every file outside its temporary directory, the staging files of
  the writer and the report keeps its content: all resolved targets stay inside the private root.
\<close>

theorem rehearsal_live_untouched:
  assumes "private_root (w_env w) live" and "quiet_writer (w_env w) writer"
    and "rehearse_manifest_apply_rollback sha live ws m allowed report t ref writer w = (r, w')"
    and "ordinary_path (w_env w) live ''.rollback-rehearsal-'' (Some report) p"
  shows "file_at w' p = file_at w p"
proof -
  have quiet: "\<forall>rep. leaves (\<lambda>q. q = p) (w_env w) (writer report rep) (\<lambda>_. True)"
    by (rule allI, rule leaves_weaken [of "\<lambda>q. q \<noteq> report \<and> \<not> temp_path (w_env w) q"])
      (use assms(2,4) in \<open>auto simp: quiet_writer_def ordinary_path_def scratch_path_def\<close>)
  from leavesD(2) [OF leaves_rehearsal [where P = "\<lambda>q. q = p" and writer = writer and p = report, OF assms(1) quiet] refl assms(3)] show ?thesis
    using assms(4) by (simp add: ordinary_path_def scratch_path_def)
qed

text \<open>
  C30: a passing rehearsal is complete. When the report's status is \<open>pass\<close>, its file list names
  exactly the changed paths the guard accepted, in manifest order, each verified after the apply and
  after the rollback, and it carries no diagnostics; a rehearsal that failed before preparing every
  file never passes.
\<close>

theorem rehearsal_pass_complete:
  assumes guard: "validate_manifest_apply_guard m allowed = Inr st" and priv: "private_root (w_env w) live"
    and quiet: "quiet_writer (w_env w) writer"
    and run: "rehearse_manifest_apply_rollback sha live ws m allowed path t ref writer w = (Inr report, w')"
    and pass: "dget report ''status'' PyNone = PyStr ''pass''"
  shows "\<exists>files. dget report ''files'' PyNone = PyList (map PyDict files) \<and>
    map (\<lambda>d. dget d ''path'' PyNone) files = map PyStr (g_changed_paths st) \<and>
    (\<forall>d \<in> set files. flag d ''apply_verified'' \<and> flag d ''rollback_verified'') \<and>
    dget report ''diagnostics'' PyNone = PyList []"
proof -
  have "\<forall>rep. leaves (\<lambda>_. False) (w_env w) (writer path rep) (\<lambda>_. True)"
    using quiet unfolding quiet_writer_def by (blast intro: leaves_weaken)
  from leavesD(3) [OF leaves_rehearsal [where P = "\<lambda>_. False" and writer = writer and p = path, OF priv this] refl run refl] guard
  obtain rh files g s where rh: "rehearsed m rh"
    and files: "list_all2 (\<lambda>i d. dget d ''path'' PyNone = PyStr (ai_rel i))
       (filter (\<lambda>i. rh_baseline rh (ai_rel i) \<noteq> None) (rh_prepared rh)) files"
    and report: "report = build_rollback_rehearsal_report m st files g s (rh_diagnostics rh)"
    unfolding rehearsal_of_def by blast
  have ok: "rehearsal_failed files = 0" "filter (\<lambda>t. py_strip t \<noteq> []) (rh_diagnostics rh) = []"
    using pass by (auto simp: report build_rollback_rehearsal_report_def Let_def dget_def split: if_splits)
  then have prep: "list_all2 names_entry (manifest_files m) (rh_prepared rh)"
    and base: "\<forall>i \<in> set (rh_prepared rh). rh_baseline rh (ai_rel i) \<noteq> None"
    using rh by (auto simp: rehearsed_def filter_empty_conv)
  have "filter (\<lambda>i. rh_baseline rh (ai_rel i) \<noteq> None) (rh_prepared rh) = rh_prepared rh" using base by simp
  with files have paths: "map (\<lambda>d. dget d ''path'' PyNone) files = map (\<lambda>i. PyStr (ai_rel i)) (rh_prepared rh)"
    by (simp add: list_all2_conv_all_nth list_eq_iff_nth_eq)
  obtain fs roots where f: "dget m ''files'' (PyList []) = PyList fs"
    and allowed: "list_all2 (entry_allowed roots) fs (g_changed_paths st)"
    using guard by (rule validate_guard_InrD)
  have "map ai_rel (rh_prepared rh) = g_changed_paths st"
    using prep allowed unfolding manifest_files_def f by (auto intro: names_allowed)
  then have "map (\<lambda>d. dget d ''path'' PyNone) files = map PyStr (g_changed_paths st)"
    using paths by (metis (no_types, lifting) list.map_comp comp_apply map_eq_conv)
  moreover have "\<forall>d \<in> set files. flag d ''apply_verified'' \<and> flag d ''rollback_verified''"
    using ok(1) by (auto simp: rehearsal_failed_def filter_empty_conv)
  ultimately show ?thesis using ok(2)
    by (auto simp: report build_rollback_rehearsal_report_def Let_def dget_def py_strs_def)
qed
definition sample_digest :: digest where
  "sample_digest t = ''#'' @ t"

definition sample_rehearsal :: "(nat \<Rightarrow> (string \<times> string option) option) \<Rightarrow> pydict res \<times> world" where
  "sample_rehearsal faults = rehearse_manifest_apply_rollback sample_digest [''v''] [''w''] sample_manifest
     [PyStr ''a'', PyStr ''b''] [''r''] ''now'' '''' write_shadow_apply_report (sample_tree faults)"

lemma sample_private: "private_root (sample_env f) [''v'']"
  by (simp add: private_root_def sample_env_def Let_def)

lemma sample_ordinary_report:
  "ordinary_path (sample_env f) [''v''] ''.rollback-rehearsal-'' (Some [''r'']) [''v'', ''a'']"
  "ordinary_path (sample_env f) [''v''] ''.manifest-plan-'' (Some [''r'']) [''v'', ''a'']"
  using not_temp_component [of "''a''" "sample_env f" "[''v'']"]
  by (auto simp: ordinary_path_def scratch_path_def sample_env_def)

text \<open>A file operation fails in the middle of the rehearsal; the live file is as before.\<close>

theorem rehearsal_live_untouched_witness:
  "file_at (snd (sample_rehearsal (fault_at 12 (Some ''torn'')))) [''v'', ''a''] = Some ''old a''"
proof -
  let ?f = "fault_at 12 (Some ''torn'')"
  obtain r w' where run: "sample_rehearsal ?f = (r, w')" by (cases "sample_rehearsal ?f")
  have e: "w_env (sample_tree ?f) = sample_env ?f" by (simp add: sample_tree_def)
  have "file_at w' [''v'', ''a''] = file_at (sample_tree ?f) [''v'', ''a'']"
    by (rule rehearsal_live_untouched [of _ "[''v'']" write_shadow_apply_report sample_digest "[''w'']" sample_manifest
          "[PyStr ''a'', PyStr ''b'']" "[''r'']" "''now''" "''''" r])
      (use run sample_private default_writer_quiet sample_ordinary_report in \<open>simp_all add: sample_rehearsal_def e\<close>)
  also have "\<dots> = Some ''old a''" by code_simp
  finally show ?thesis by (simp add: run)
qed

theorem rehearsal_pass_complete_witness:
  "\<exists>report files. fst (sample_rehearsal (\<lambda>_. None)) = Inr report \<and>
     dget report ''files'' PyNone = PyList (map PyDict files) \<and>
     map (\<lambda>d. dget d ''path'' PyNone) files = [PyStr ''a'', PyStr ''b'']"
proof -
  let ?f = "(\<lambda>_. None) :: nat \<Rightarrow> (string \<times> string option) option"
  obtain st where st: "validate_manifest_apply_guard sample_manifest [PyStr ''a'', PyStr ''b''] = Inr st"
      "g_changed_paths st = [''a'', ''b'']"
    using sample_guard by blast
  have e: "w_env (sample_tree ?f) = sample_env ?f" by (simp add: sample_tree_def)
  have "(case fst (sample_rehearsal ?f) of Inr report \<Rightarrow> dget report ''status'' PyNone = PyStr ''pass'' | Inl _ \<Rightarrow> False)"
    by code_simp
  then obtain report where r: "fst (sample_rehearsal ?f) = Inr report" "dget report ''status'' PyNone = PyStr ''pass''"
    by (auto split: sum.splits)
  obtain s w' where run: "sample_rehearsal ?f = (s, w')" by (cases "sample_rehearsal ?f")
  have "rehearse_manifest_apply_rollback sample_digest [''v''] [''w''] sample_manifest
     [PyStr ''a'', PyStr ''b''] [''r''] ''now'' '''' write_shadow_apply_report (sample_tree ?f) = (Inr report, w')"
    using run r(1) by (simp add: sample_rehearsal_def)
  from rehearsal_pass_complete [OF st(1) _ _ this r(2)] sample_private default_writer_quiet
  show ?thesis using r(1) st(2) by (auto simp: e)
qed

lemma leaves_plan:
  assumes quiet: "\<forall>rep. leaves P E (writer report rep) (\<lambda>_. True)"
    and out: "\<And>q k. P q \<Longrightarrow> \<not> prefix (live @ [''.manifest-plan-'' @ e_tmp E k]) q"
  shows "leaves P E (plan_manifest_apply_transaction live ws m allowed report t writer)
    (\<lambda>ps. \<forall>st. validate_manifest_apply_guard m allowed = Inr st \<longrightarrow> ps = g_changed_paths st)"
proof -
  have guard: "leaves P E (liftm (checked_guard m allowed)) (\<lambda>st. validate_manifest_apply_guard m allowed = Inr st)"
    by (rule leaves_lift) (auto simp: checked_guard_def split: sum.splits)
  have core: "leaves P E (finallym
      (bindm (prepare_items live ws tmp 0 (manifest_files m)) (\<lambda>prepared.
         bindm (build_shadow_apply_report m st prepared t) (writer report))) (op_rmtree tmp)) (\<lambda>_. True)"
    if made: "\<exists>k. tmp = live @ [''.manifest-plan-'' @ e_tmp E k]" for tmp st
  proof (rule leaves_finally)
    have free: "\<not> prefix tmp q" if "P q" for q using made out [OF that] by auto
    then have "\<not> prepared_file tmp 0 q" if "P q" for q using free that
      unfolding prepared_file_def by fastforce
    note prep = leaves_prepare_items [of P tmp 0, OF this]
    show "leaves P E (bindm (prepare_items live ws tmp 0 (manifest_files m)) (\<lambda>prepared.
         bindm (build_shadow_apply_report m st prepared t) (writer report))) (\<lambda>_. True)"
      by (rule leaves_bind [OF prep], assumption, rule leaves_bind [OF leaves_build_shadow], rule quiet [rule_format])
    show "leaves P E (op_rmtree tmp) (\<lambda>_. True)" by (rule leaves_rmtree) (rule free)
  qed
  show ?thesis unfolding plan_manifest_apply_transaction_def
    by (auto simp only: split: if_splits intro!: leaves_raise leaves_bind [OF guard] leaves_bind [OF leaves_mkdtemp]
        leaves_bind [OF core] leaves_return)
qed

text \<open>
  Planning never touches the live tree. \<open>plan_manifest_apply_transaction\<close> writes only in its
  temporary directory, the staging files of the writer and the report, however it ends; when it
  returns, it returns the guard's changed paths.
\<close>

theorem plan_live_untouched:
  assumes "validate_manifest_apply_guard m allowed = Inr st" and "quiet_writer (w_env w) writer"
    and "plan_manifest_apply_transaction live ws m allowed report t writer w = (r, w')"
    and "ordinary_path (w_env w) live ''.manifest-plan-'' (Some report) p"
  shows "file_at w' p = file_at w p \<and> (\<forall>ps. r = Inr ps \<longrightarrow> ps = g_changed_paths st)"
proof -
  have quiet: "\<forall>rep. leaves (\<lambda>q. q = p) (w_env w) (writer report rep) (\<lambda>_. True)"
    by (rule allI, rule leaves_weaken [of "\<lambda>q. q \<noteq> report \<and> \<not> temp_path (w_env w) q"])
      (use assms(2,4) in \<open>auto simp: quiet_writer_def ordinary_path_def scratch_path_def\<close>)
  from leavesD [OF leaves_plan [where writer = writer and report = report, OF quiet] refl assms(3)] assms(1,4)
  show ?thesis by (simp add: ordinary_path_def scratch_path_def)
qed

theorem plan_live_untouched_witness:
  "file_at (snd (plan_manifest_apply_transaction [''v''] [''w''] sample_manifest [PyStr ''a'', PyStr ''b''] [''r''] ''now''
     write_shadow_apply_report (sample_tree (\<lambda>_. None)))) [''v'', ''a''] = Some ''old a''"
proof -
  let ?f = "(\<lambda>_. None) :: nat \<Rightarrow> (string \<times> string option) option"
  let ?run = "plan_manifest_apply_transaction [''v''] [''w''] sample_manifest [PyStr ''a'', PyStr ''b''] [''r''] ''now''
     write_shadow_apply_report (sample_tree ?f)"
  obtain st where st: "validate_manifest_apply_guard sample_manifest [PyStr ''a'', PyStr ''b''] = Inr st"
    using sample_guard by blast
  have e: "w_env (sample_tree ?f) = sample_env ?f" by (simp add: sample_tree_def)
  have "file_at (snd ?run) [''v'', ''a''] = file_at (sample_tree ?f) [''v'', ''a'']"
    using plan_live_untouched [OF st, of "sample_tree ?f" write_shadow_apply_report "[''v'']" "[''w'']" "[''r'']"
        "''now''" "fst ?run" "snd ?run" "[''v'', ''a'']"] default_writer_quiet sample_ordinary_report by (simp add: e)
  also have "\<dots> = Some ''old a''" by code_simp
  finally show ?thesis .
qed

end
