(* ===== verification/GoalLock.thy ===== *)
theory GoalLock
  imports FileSystem
begin

section \<open>The workspace lock of the goal runtime\<close>

text \<open>
  \<open>mechanism/goal_runtime_lock.py\<close>: a lock file with a JSON payload that names the runner process
  and, once started, its child. The first part models the functions on one observation of the file;
  the second part is the protocol as processes interleave on the shared file: each system call of
  \<open>acquire_workspace_lock\<close>, of the updates, of the release and of the stale cleanup is one step, and
  any process may die between two steps. Signal delivery (\<open>os.kill\<close> with signal 0) is a parameter.
\<close>

subsection \<open>The file and its payload\<close>

text \<open>
  What \<open>json.loads\<close> finds in the file: nothing readable (an empty or torn text, or a value that is
  not an object), or an object. The number tells which creation of the file this is, as the inode
  does: a process that still writes to an unlinked file does not touch its successor.
\<close>

datatype lock_file = NoLock | LockFile (lf_inode: int) (lf_payload: "pydict option")

definition load_payload :: "lock_file \<Rightarrow> pydict" where
  "load_payload f = (case f of LockFile _ (Some d) \<Rightarrow> d | _ \<Rightarrow> [])"

definition int_field :: "pydict \<Rightarrow> string \<Rightarrow> int" where
  "int_field payload field =
     (case dget payload field PyNone of
        PyBool _ \<Rightarrow> 0
      | PyInt n \<Rightarrow> n
      | v \<Rightarrow> (case int_of_text (py_str v) of None \<Rightarrow> 0 | Some n \<Rightarrow> n))"

record lock_owner =
  lo_type :: string
  lo_field :: string
  lo_id :: int

text \<open>The answers of \<open>os.kill(pid, 0)\<close> and \<open>os.killpg(pgid, 0)\<close>.\<close>

datatype probe = Delivered | NoSuchProcess | NotPermitted | ProbeError

definition process_is_running :: "(int \<Rightarrow> probe) \<Rightarrow> int \<Rightarrow> bool" where
  "process_is_running kill pid =
     (if pid \<le> 0 then False
      else case kill pid of NoSuchProcess \<Rightarrow> False | _ \<Rightarrow> True)"

definition process_group_is_running :: "(int \<Rightarrow> probe) option \<Rightarrow> int \<Rightarrow> bool" where
  "process_group_is_running killpg pgid =
     (case killpg of
        None \<Rightarrow> False
      | Some probe \<Rightarrow> if pgid \<le> 0 then False else (case probe pgid of NoSuchProcess \<Rightarrow> False | _ \<Rightarrow> True))"

type_synonym running = "int \<Rightarrow> bool"

definition owner_probes :: "running \<Rightarrow> running \<Rightarrow> (string \<times> string \<times> running) list" where
  "owner_probes pid_runs group_runs =
     [(''child_pgid'', ''child_process_group'', group_runs), (''child_pid'', ''child_process'', pid_runs),
      (''pid'', ''runner_process'', pid_runs)]"

fun first_owner :: "pydict \<Rightarrow> (string \<times> string \<times> running) list \<Rightarrow> lock_owner option" where
  "first_owner payload [] = None"
| "first_owner payload ((field, kind, runs) # rest) =
     (let v = int_field payload field
      in if v > 0 \<and> runs v then Some \<lparr>lo_type = kind, lo_field = field, lo_id = v\<rparr>
         else first_owner payload rest)"

definition active_owner :: "pydict \<Rightarrow> running \<Rightarrow> running \<Rightarrow> lock_owner option" where
  "active_owner payload pid_runs group_runs = first_owner payload (owner_probes pid_runs group_runs)"

subsection \<open>Inspection\<close>

datatype lock_state = Missing | Invalid | Active | Unresolved | Stale

record lock_status =
  ls_status :: lock_state
  ls_active :: bool
  ls_path :: string
  ls_payload :: pydict
  ls_owner :: "lock_owner option"
  ls_reason :: string

definition no_lock_status :: "string \<Rightarrow> lock_status" where
  "no_lock_status path = \<lparr>ls_status = Missing, ls_active = False, ls_path = path, ls_payload = [],
     ls_owner = None, ls_reason = ''lock file is absent''\<rparr>"

text \<open>The verdict on a payload that was read, the second half of \<open>inspect_workspace_lock\<close>.\<close>

definition judge_payload :: "string \<Rightarrow> running \<Rightarrow> running \<Rightarrow> pydict \<Rightarrow> lock_status" where
  "judge_payload path pid_runs group_runs payload =
     (if payload = []
      then \<lparr>ls_status = Invalid, ls_active = True, ls_path = path, ls_payload = [], ls_owner = None,
             ls_reason = ''lock file is unreadable or not a JSON object''\<rparr>
      else case active_owner payload pid_runs group_runs of
        Some owner \<Rightarrow> \<lparr>ls_status = Active, ls_active = True, ls_path = path, ls_payload = payload,
            ls_owner = Some owner,
            ls_reason = ''active '' @ lo_type owner @ '' '' @ int_text (lo_id owner) @
              '' owns the goal runtime workspace''\<rparr>
      | None \<Rightarrow>
          if py_truth (dget payload ''child_registration_pending'' PyNone)
          then \<lparr>ls_status = Unresolved, ls_active = True, ls_path = path, ls_payload = payload, ls_owner = None,
                 ls_reason = ''child registration is incomplete; verify child cleanup before removing the lock''\<rparr>
          else \<lparr>ls_status = Stale, ls_active = False, ls_path = path, ls_payload = payload, ls_owner = None,
                 ls_reason = ''lock file exists but no recorded owner process is alive''\<rparr>)"

definition inspect_workspace_lock :: "string \<Rightarrow> running \<Rightarrow> running \<Rightarrow> lock_file \<Rightarrow> lock_status" where
  "inspect_workspace_lock path pid_runs group_runs f =
     (if f = NoLock then no_lock_status path else judge_payload path pid_runs group_runs (load_payload f))"

definition cleanup_stale_workspace_lock :: "string \<Rightarrow> running \<Rightarrow> running \<Rightarrow> lock_file \<Rightarrow> bool \<times> lock_file" where
  "cleanup_stale_workspace_lock path pid_runs group_runs f =
     (if ls_status (inspect_workspace_lock path pid_runs group_runs f) \<noteq> Stale then (False, f) else (True, NoLock))"

definition resolve_under_vault :: "os_env \<Rightarrow> fpath \<Rightarrow> string \<Rightarrow> fpath res" where
  "resolve_under_vault E vault text =
     (let vault_root = e_resolve E vault;
          resolved = (if py_startswith text ''/'' then e_resolve E (path_parts text)
                      else e_resolve E (vault_root @ path_parts text))
      in if prefix vault_root resolved then Inr resolved
         else Inl (ValueError (''goal runtime lock path must stay under vault: '' @ path_text resolved)))"

subsection \<open>Requests, locks and updates\<close>

record lock_request =
  lr_run_id :: string
  lr_runtime_mode :: string
  lr_started_at :: string
  lr_command_argv :: "string list"

definition lock_token :: "int \<Rightarrow> lock_request \<Rightarrow> string" where
  "lock_token pid r = int_text pid @ '':'' @ lr_run_id r @ '':'' @ lr_started_at r"

definition lock_payload :: "int \<Rightarrow> int \<Rightarrow> lock_request \<Rightarrow> pydict" where
  "lock_payload pid pgid r =
     [(''artifact_kind'', PyStr ''goal_runtime_workspace_lock''),
      (''producer'', PyStr ''ops.scripts.goal_runtime_lock''), (''run_id'', PyStr (lr_run_id r)),
      (''runtime_mode'', PyStr (lr_runtime_mode r)), (''pid'', PyInt pid), (''pgid'', PyInt pgid),
      (''child_pid'', PyInt 0), (''child_pgid'', PyInt 0), (''started_at'', PyStr (lr_started_at r)),
      (''command'', PyStr (py_join '' '' (lr_command_argv r))), (''token'', PyStr (lock_token pid r))]"

definition owns_payload :: "string \<Rightarrow> pydict \<Rightarrow> bool" where
  "owns_payload token payload = (dget payload ''token'' PyNone = PyStr token)"

definition pending_fields :: pydict where
  "pending_fields = [(''child_registration_pending'', PyBool True)]"

definition child_fields :: "int \<Rightarrow> int \<Rightarrow> pydict" where
  "child_fields child_pid child_pgid =
     [(''child_pid'', PyInt child_pid), (''child_pgid'', PyInt child_pgid),
      (''child_registration_pending'', PyBool (child_pid \<le> 0 \<and> child_pgid \<le> 0))]"

subsection \<open>Stopping\<close>

datatype signalled = SignalPid int | SignalGroup int

record stop_result =
  st_status :: string
  st_signaled :: bool
  st_lock :: lock_status
  st_reason :: string

definition ends_with :: "string \<Rightarrow> string \<Rightarrow> bool" where
  "ends_with s t = prefix (rev t) (rev s)"

definition stop_signal ::
  "int \<Rightarrow> int \<Rightarrow> bool \<Rightarrow> lock_status \<Rightarrow> lock_owner \<Rightarrow> stop_result \<times> signalled option" where
  "stop_signal current_pid current_pgid can_signal_group status owner =
     (let answer = (\<lambda>s flag reason. \<lparr>st_status = s, st_signaled = flag, st_lock = status, st_reason = reason\<rparr>);
          sent = answer ''stop_requested'' True
            (''sent SIGTERM to '' @ lo_type owner @ '' '' @ int_text (lo_id owner))
      in if ends_with (lo_type owner) ''process_group''
         then if lo_id owner = current_pgid
              then (answer ''refused'' False ''refusing to signal the current process group'', None)
              else if \<not> can_signal_group
              then (answer ''blocked'' False ''process group signaling is unavailable on this platform'', None)
              else (sent, Some (SignalGroup (lo_id owner)))
         else if lo_id owner = current_pid
              then (answer ''refused'' False ''refusing to signal the current process'', None)
              else (sent, Some (SignalPid (lo_id owner))))"

definition stop_workspace_lock ::
  "string \<Rightarrow> running \<Rightarrow> running \<Rightarrow> int \<Rightarrow> int \<Rightarrow> bool \<Rightarrow> lock_file \<Rightarrow>
   stop_result \<times> signalled option \<times> lock_file" where
  "stop_workspace_lock path pid_runs group_runs current_pid current_pgid can_signal_group f =
     (let status = inspect_workspace_lock path pid_runs group_runs f;
          quiet = (\<lambda>s. \<lparr>st_status = s, st_signaled = False, st_lock = status, st_reason = ls_reason status\<rparr>)
      in if ls_status status \<in> {Missing, Stale}
         then (quiet ''not_running'', None, if ls_status status = Stale then NoLock else f)
         else if ls_status status \<in> {Invalid, Unresolved} then (quiet ''blocked'', None, f)
         else case ls_owner status of
           None \<Rightarrow> (case stop_signal current_pid current_pgid can_signal_group status
                      \<lparr>lo_type = '''', lo_field = '''', lo_id = 0\<rparr> of (r, s) \<Rightarrow> (r, s, f))
         | Some owner \<Rightarrow> (case stop_signal current_pid current_pgid can_signal_group status owner of (r, s) \<Rightarrow> (r, s, f)))"

definition LOCK_ACTIVE_EXIT_CODE :: int where
  "LOCK_ACTIVE_EXIT_CODE = 75"

datatype lock_action = CheckLock bool | ShowStatus | StopLock

text \<open>The exit code of the command and the file it leaves; the flag of \<open>check\<close> is \<open>--cleanup-stale\<close>.\<close>

definition lock_main ::
  "string \<Rightarrow> running \<Rightarrow> running \<Rightarrow> int \<Rightarrow> int \<Rightarrow> bool \<Rightarrow> lock_action \<Rightarrow> lock_file \<Rightarrow>
   int \<times> signalled option \<times> lock_file" where
  "lock_main path pid_runs group_runs me my_group can_signal_group action f =
     (let status = inspect_workspace_lock path pid_runs group_runs f
      in case action of
        ShowStatus \<Rightarrow> (if ls_status status \<noteq> Invalid then 0 else LOCK_ACTIVE_EXIT_CODE, None, f)
      | StopLock \<Rightarrow> (case stop_workspace_lock path pid_runs group_runs me my_group can_signal_group f of
           (r, s, f') \<Rightarrow> (if st_status r \<in> {''not_running'', ''stop_requested''} then 0 else LOCK_ACTIVE_EXIT_CODE, s, f'))
      | CheckLock cleanup_stale \<Rightarrow>
          if ls_status status = Stale \<and> cleanup_stale
          then (0, None, snd (cleanup_stale_workspace_lock path pid_runs group_runs f))
          else if ls_active status then (LOCK_ACTIVE_EXIT_CODE, None, f)
          else (0, None, f))"

subsection \<open>The protocol, one system call at a time\<close>

text \<open>
  How far the owner of the lock is with its child, as the runner's process backend drives it: nothing
  started, the uncertainty recorded, started but not registered, registered.
\<close>

datatype stage = Fresh | Pending | Launched int int | Registered int int

datatype purpose = Acquire | Cleanup

datatype attempt = Opening | Looking | Reading | Probing pydict | Removing pydict

text \<open>
  What an owner is doing: writing the new file, nothing, one of the three calls of
  \<open>_update_workspace_lock\<close> (load and compare the token, truncate, write) on its way to the next stage,
  or one of the two calls of \<open>release_workspace_lock\<close>.
\<close>

datatype activity =
    Creating
  | Resting
  | Loading pydict stage
  | Truncating pydict stage
  | Filling int pydict stage
  | ReleaseLoading
  | ReleaseUnlinking

datatype phase = Idle | Contending purpose attempt | Owning stage activity | Refused string | Finished

definition give_up :: "purpose \<Rightarrow> string \<Rightarrow> phase" where
  "give_up u reason = (case u of
     Acquire \<Rightarrow> Refused (''goal runtime workspace already active: '' @ reason) | Cleanup \<Rightarrow> Finished)"

definition after_removal :: "purpose \<Rightarrow> phase" where
  "after_removal u = (case u of Acquire \<Rightarrow> Contending Acquire Opening | Cleanup \<Rightarrow> Finished)"

text \<open>
  The loop of \<open>acquire_workspace_lock\<close> and, for the other purpose, \<open>cleanup_stale_workspace_lock\<close>:
  the exclusive open, then \<open>exists\<close>, the read, the probes and the unlink of a stale file, which may
  find no file or fail with another \<open>OSError\<close>.
\<close>

fun contend_step :: "running \<Rightarrow> running \<Rightarrow> bool \<Rightarrow> int \<Rightarrow> purpose \<Rightarrow> attempt \<Rightarrow> lock_file \<Rightarrow> phase \<times> lock_file" where
  "contend_step pid_runs group_runs unlink_fails me u Opening f =
     (if f = NoLock then (Owning Fresh Creating, LockFile me None) else (Contending u Looking, f))"
| "contend_step pid_runs group_runs unlink_fails me u Looking f =
     (if f = NoLock then (give_up u (ls_reason (no_lock_status '''')), f) else (Contending u Reading, f))"
| "contend_step pid_runs group_runs unlink_fails me u Reading f = (Contending u (Probing (load_payload f)), f)"
| "contend_step pid_runs group_runs unlink_fails me u (Probing d) f =
     (let s = judge_payload '''' pid_runs group_runs d
      in (if ls_status s = Stale then Contending u (Removing d) else give_up u (ls_reason s), f))"
| "contend_step pid_runs group_runs unlink_fails me u (Removing d) f =
     (if f = NoLock then (after_removal u, f)
      else if unlink_fails then (give_up u ''lock file exists but no recorded owner process is alive'', f)
      else (after_removal u, NoLock))"

fun owner_step :: "string \<Rightarrow> pydict \<Rightarrow> int \<Rightarrow> stage \<Rightarrow> activity \<Rightarrow> lock_file \<Rightarrow> phase \<times> lock_file" where
  "owner_step token payload me st Creating f =
     (Owning st Resting, case f of LockFile n _ \<Rightarrow> if n = me then LockFile n (Some payload) else f | NoLock \<Rightarrow> f)"
| "owner_step token payload me st Resting f = (Owning st Resting, f)"
| "owner_step token payload me st (Loading fs next) f =
     (if owns_payload token (load_payload f)
      then Owning st (Truncating (dupdate (load_payload f) fs) next) else Owning st Resting, f)"
| "owner_step token payload me st (Truncating d next) f =
     (case f of NoLock \<Rightarrow> (Owning st (Filling me d next), LockFile me None)
      | LockFile n _ \<Rightarrow> (Owning st (Filling n d next), LockFile n None))"
| "owner_step token payload me st (Filling n d next) f =
     (Owning next Resting, case f of LockFile m _ \<Rightarrow> if m = n then LockFile m (Some d) else f | NoLock \<Rightarrow> f)"
| "owner_step token payload me st ReleaseLoading f =
     (if owns_payload token (load_payload f) then Owning st ReleaseUnlinking else Finished, f)"
| "owner_step token payload me st ReleaseUnlinking f = (Finished, NoLock)"

subsection \<open>Processes sharing the file\<close>

text \<open>
  The running processes and process groups, the identifiers ever given out (they are not reused), and
  whether a contender has unlinked a file other than the one it had inspected.
\<close>

record lock_system =
  y_file :: lock_file
  y_phase :: "int \<Rightarrow> phase"
  y_live :: "int set"
  y_groups :: "int set"
  y_used :: "int set"
  y_used_groups :: "int set"
  y_stolen :: bool

record lock_params =
  lp_request :: "int \<Rightarrow> lock_request"
  lp_pgid :: "int \<Rightarrow> int"

definition token_of :: "lock_params \<Rightarrow> int \<Rightarrow> string" where
  "token_of P p = lock_token p (lp_request P p)"

definition payload_of :: "lock_params \<Rightarrow> int \<Rightarrow> pydict" where
  "payload_of P p = lock_payload p (lp_pgid P p) (lp_request P p)"

definition set_phase :: "int \<Rightarrow> phase \<Rightarrow> lock_system \<Rightarrow> lock_system" where
  "set_phase p x s = s\<lparr>y_phase := (y_phase s)(p := x)\<rparr>"

definition child_alive :: "lock_system \<Rightarrow> stage \<Rightarrow> bool" where
  "child_alive s st = (case st of
     Launched c g \<Rightarrow> c \<in> y_live s \<or> g > 0 \<and> g \<in> y_groups s
   | Registered c g \<Rightarrow> c \<in> y_live s \<or> g > 0 \<and> g \<in> y_groups s
   | _ \<Rightarrow> False)"

definition steals :: "attempt \<Rightarrow> bool \<Rightarrow> lock_file \<Rightarrow> bool" where
  "steals a unlink_fails f = (case a of
     Removing d \<Rightarrow> \<not> unlink_fails \<and> f \<noteq> NoLock \<and> lf_payload f \<noteq> Some d | _ \<Rightarrow> False)"

inductive lock_step :: "lock_params \<Rightarrow> lock_system \<Rightarrow> lock_system \<Rightarrow> bool" for P where
  start_acquire: "p \<in> y_live s \<Longrightarrow> y_phase s p = Idle \<Longrightarrow>
    lock_step P s (set_phase p (Contending Acquire Opening) s)"
| start_cleanup: "p \<in> y_live s \<Longrightarrow> y_phase s p = Idle \<Longrightarrow>
    lock_step P s (set_phase p (Contending Cleanup Looking) s)"
| contend: "p \<in> y_live s \<Longrightarrow> y_phase s p = Contending u a \<Longrightarrow>
    contend_step (\<lambda>q. q \<in> y_live s) (\<lambda>g. g \<in> y_groups s) b p u a (y_file s) = (x, f) \<Longrightarrow>
    lock_step P s (set_phase p x (s\<lparr>y_file := f, y_stolen := y_stolen s \<or> steals a b (y_file s)\<rparr>))"
| own: "p \<in> y_live s \<Longrightarrow> y_phase s p = Owning st act \<Longrightarrow>
    owner_step (token_of P p) (payload_of P p) p st act (y_file s) = (x, f) \<Longrightarrow>
    lock_step P s (set_phase p x (s\<lparr>y_file := f\<rparr>))"
| mark_pending: "p \<in> y_live s \<Longrightarrow> y_phase s p = Owning Fresh Resting \<Longrightarrow>
    lock_step P s (set_phase p (Owning Fresh (Loading pending_fields Pending)) s)"
| launch: "p \<in> y_live s \<Longrightarrow> y_phase s p = Owning Pending Resting \<Longrightarrow> c > 0 \<Longrightarrow> c \<notin> y_used s \<Longrightarrow>
    g \<ge> 0 \<Longrightarrow> g \<in> y_groups s \<or> g \<notin> y_used_groups s \<Longrightarrow>
    lock_step P s (set_phase p (Owning (Launched c g) Resting)
      (s\<lparr>y_live := insert c (y_live s), y_used := insert c (y_used s),
         y_groups := insert g (y_groups s), y_used_groups := insert g (y_used_groups s)\<rparr>))"
| register_child: "p \<in> y_live s \<Longrightarrow> y_phase s p = Owning (Launched c g) Resting \<Longrightarrow>
    lock_step P s (set_phase p (Owning (Launched c g) (Loading (child_fields c g) (Registered c g))) s)"
| release: "p \<in> y_live s \<Longrightarrow> y_phase s p = Owning st Resting \<Longrightarrow> \<not> child_alive s st \<Longrightarrow>
    lock_step P s (set_phase p (Owning st ReleaseLoading) s)"
| process_end: "lock_step P s (s\<lparr>y_live := y_live s - {q}\<rparr>)"
| group_end: "lock_step P s (s\<lparr>y_groups := y_groups s - {g}\<rparr>)"

text \<open>At the start some processes run and none has touched the lock; a lock file may be left over.\<close>

definition file_ids :: "lock_file \<Rightarrow> string \<Rightarrow> int set" where
  "file_ids f field = (let v = int_field (load_payload f) field in if v > 0 then {v} else {})"

definition lock_start :: "lock_system \<Rightarrow> bool" where
  "lock_start s \<longleftrightarrow> (\<forall>p. y_phase s p = Idle) \<and> \<not> y_stolen s \<and> (\<forall>p \<in> y_live s. p > 0) \<and>
     y_live s \<subseteq> y_used s \<and> y_groups s \<subseteq> y_used_groups s \<and>
     file_ids (y_file s) ''pid'' \<subseteq> y_used s \<and> file_ids (y_file s) ''child_pid'' \<subseteq> y_used s \<and>
     file_ids (y_file s) ''child_pgid'' \<subseteq> y_used_groups s"

inductive lock_reachable :: "lock_params \<Rightarrow> lock_system \<Rightarrow> bool" for P where
  init: "lock_start s \<Longrightarrow> lock_reachable P s"
| step: "lock_reachable P s \<Longrightarrow> lock_step P s s' \<Longrightarrow> lock_reachable P s'"

inductive_cases lock_stepE: "lock_step P s s'"

text \<open>
  A process is engaged while it is in possession of the workspace: it holds the lock and runs, or the
  child it started still runs.
\<close>

definition engaged :: "lock_system \<Rightarrow> int \<Rightarrow> bool" where
  "engaged s p \<longleftrightarrow> (\<exists>st act. y_phase s p = Owning st act \<and> (p \<in> y_live s \<or> child_alive s st))"
subsection \<open>The invariant\<close>

definition known_payload :: "lock_system \<Rightarrow> pydict \<Rightarrow> bool" where
  "known_payload s d \<longleftrightarrow> (int_field d ''pid'' > 0 \<longrightarrow> int_field d ''pid'' \<in> y_used s) \<and>
     (int_field d ''child_pid'' > 0 \<longrightarrow> int_field d ''child_pid'' \<in> y_used s) \<and>
     (int_field d ''child_pgid'' > 0 \<longrightarrow> int_field d ''child_pgid'' \<in> y_used_groups s)"

definition stale_now :: "lock_system \<Rightarrow> pydict \<Rightarrow> bool" where
  "stale_now s d \<longleftrightarrow> ls_status (judge_payload '''' (\<lambda>q. q \<in> y_live s) (\<lambda>g. g \<in> y_groups s) d) = Stale"

text \<open>A payload that records the stage of its owner.\<close>

definition pending :: "pydict \<Rightarrow> bool" where
  "pending d = py_truth (dget d ''child_registration_pending'' PyNone)"

definition records_stage :: "stage \<Rightarrow> pydict \<Rightarrow> bool" where
  "records_stage st d = (case st of Fresh \<Rightarrow> True | Pending \<Rightarrow> pending d | Launched c g \<Rightarrow> pending d
     | Registered c g \<Rightarrow> int_field d ''child_pid'' = c \<and> int_field d ''child_pgid'' = g)"

definition ours :: "lock_params \<Rightarrow> int \<Rightarrow> stage \<Rightarrow> pydict \<Rightarrow> bool" where
  "ours P p st d \<longleftrightarrow> owns_payload (token_of P p) d \<and> int_field d ''pid'' = p \<and> records_stage st d"

definition update_step :: "stage \<Rightarrow> pydict \<Rightarrow> stage \<Rightarrow> bool" where
  "update_step st fs next \<longleftrightarrow> st = Fresh \<and> fs = pending_fields \<and> next = Pending \<or>
     (\<exists>c g. st = Launched c g \<and> fs = child_fields c g \<and> next = Registered c g)"

fun agrees :: "lock_params \<Rightarrow> int \<Rightarrow> stage \<Rightarrow> activity \<Rightarrow> lock_file \<Rightarrow> bool" where
  "agrees P p st Creating f = (f = LockFile p None \<and> st = Fresh)"
| "agrees P p st (Filling n d next) f = (f = LockFile n None \<and> ours P p next d)"
| "agrees P p st (Truncating d next) f = (ours P p next d \<and> (\<exists>n e. f = LockFile n (Some e) \<and> ours P p st e))"
| "agrees P p st (Loading fs next) f = (update_step st fs next \<and> (\<exists>n e. f = LockFile n (Some e) \<and> ours P p st e))"
| "agrees P p st act f = (\<exists>n e. f = LockFile n (Some e) \<and> ours P p st e)"

definition stage_known :: "lock_system \<Rightarrow> stage \<Rightarrow> bool" where
  "stage_known s st = (case st of Launched c g \<Rightarrow> c > 0 \<and> c \<in> y_used s \<and> g \<ge> 0 \<and> g \<in> y_used_groups s
     | Registered c g \<Rightarrow> c > 0 \<and> c \<in> y_used s \<and> g \<ge> 0 \<and> g \<in> y_used_groups s | _ \<Rightarrow> True)"

fun phase_known :: "lock_system \<Rightarrow> phase \<Rightarrow> bool" where
  "phase_known s (Contending u (Probing d)) = known_payload s d"
| "phase_known s (Contending u (Removing d)) = (known_payload s d \<and> stale_now s d)"
| "phase_known s (Owning st (Loading fs next)) = update_step st fs next"
| "phase_known s (Owning st (Truncating d next)) = (known_payload s d \<and> stage_known s next)"
| "phase_known s (Owning st (Filling n d next)) = (known_payload s d \<and> stage_known s next)"
| "phase_known s x = True"

definition store_wf :: "lock_system \<Rightarrow> bool" where
  "store_wf s \<longleftrightarrow> known_payload s (load_payload (y_file s)) \<and> y_live s \<subseteq> y_used s \<and> y_groups s \<subseteq> y_used_groups s \<and>
     (\<forall>p. phase_known s (y_phase s p)) \<and>
     (\<forall>p st act. y_phase s p = Owning st act \<longrightarrow> p > 0 \<and> p \<in> y_used s \<and> stage_known s st)
     \<and> (\<forall>p \<in> y_live s. p > 0)"

definition exclusive :: "lock_params \<Rightarrow> lock_system \<Rightarrow> bool" where
  "exclusive P s \<longleftrightarrow> (\<forall>p q. engaged s p \<longrightarrow> engaged s q \<longrightarrow> p = q) \<and>
     (\<forall>p st act. y_phase s p = Owning st act \<longrightarrow> p \<in> y_live s \<or> child_alive s st \<longrightarrow> agrees P p st act (y_file s))"

lemma dget_dupdate_pending:
  "dget (dupdate d pending_fields) k v = (if k = ''child_registration_pending'' then PyBool True else dget d k v)"
  by (simp add: dupdate_def pending_fields_def dget_def map_of_dset)

lemma dget_dupdate_child:
  "dget (dupdate d (child_fields c g)) k v =
     (if k = ''child_registration_pending'' then PyBool (c \<le> 0 \<and> g \<le> 0)
      else if k = ''child_pgid'' then PyInt g else if k = ''child_pid'' then PyInt c else dget d k v)"
  by (simp add: dupdate_def child_fields_def dget_def map_of_dset)

lemma int_field_payload [simp]:
  "int_field (payload_of P p) ''pid'' = p" "int_field (payload_of P p) ''child_pid'' = 0"
  "int_field (payload_of P p) ''child_pgid'' = 0"
  by (simp_all add: payload_of_def lock_payload_def int_field_def dget_def)

lemma ours_new: "ours P p Fresh (payload_of P p)"
proof -
  have "dget (payload_of P p) ''token'' PyNone = PyStr (token_of P p)"
    by (simp add: payload_of_def lock_payload_def token_of_def dget_def)
  then show ?thesis by (simp add: ours_def owns_payload_def records_stage_def)
qed

lemma ours_update:
  assumes "update_step st fs next" and "ours P p st d"
  shows "ours P p next (dupdate d fs)"
  using assms
  by (auto simp: update_step_def ours_def owns_payload_def records_stage_def pending_def int_field_def
      dget_dupdate_pending dget_dupdate_child)

lemma known_update:
  assumes "update_step st fs next" and "known_payload s d" and "stage_known s st"
  shows "known_payload s (dupdate d fs)"
  using assms
  by (auto simp: update_step_def known_payload_def stage_known_def int_field_def
      dget_dupdate_pending dget_dupdate_child)

text \<open>A payload whose owners are gone names nobody who runs.\<close>

lemma stale_nowD:
  assumes "stale_now s d"
  shows "int_field d ''pid'' > 0 \<Longrightarrow> int_field d ''pid'' \<notin> y_live s"
    and "int_field d ''child_pid'' > 0 \<Longrightarrow> int_field d ''child_pid'' \<notin> y_live s"
    and "int_field d ''child_pgid'' > 0 \<Longrightarrow> int_field d ''child_pgid'' \<notin> y_groups s"
    and "\<not> pending d" and "d \<noteq> []"
  using assms
  by (auto simp: stale_now_def judge_payload_def active_owner_def owner_probes_def Let_def pending_def
      split: if_splits option.splits)

lemma stale_nowI:
  assumes "int_field d ''pid'' > 0 \<Longrightarrow> int_field d ''pid'' \<notin> y_live s"
    and "int_field d ''child_pid'' > 0 \<Longrightarrow> int_field d ''child_pid'' \<notin> y_live s"
    and "int_field d ''child_pgid'' > 0 \<Longrightarrow> int_field d ''child_pgid'' \<notin> y_groups s"
    and "\<not> pending d" and "d \<noteq> []"
  shows "stale_now s d"
  using assms
  by (auto simp: stale_now_def judge_payload_def active_owner_def owner_probes_def Let_def pending_def)

lemma stale_not_engaged:
  assumes wf: "store_wf s" and ex: "exclusive P s" and st: "stale_now s d" and held: "lf_payload (y_file s) = Some d" "y_file s \<noteq> NoLock"
  shows "\<not> engaged s p"
proof
  assume "engaged s p"
  then obtain st act where o: "y_phase s p = Owning st act" and alive: "p \<in> y_live s \<or> child_alive s st"
    by (auto simp: engaged_def)
  obtain n where f: "y_file s = LockFile n (Some d)" using held by (cases "y_file s") auto
  have "agrees P p st act (y_file s)" using ex o alive by (auto simp: exclusive_def)
  then have mine: "ours P p st d" using f by (cases act) auto
  have p: "p > 0" "stage_known s st" using wf o unfolding store_wf_def by blast+
  have "p \<notin> y_live s" using stale_nowD(1) [OF st] mine p by (simp add: ours_def)
  then have "child_alive s st" using alive by simp
  then show False using mine p stale_nowD [OF st]
    by (auto simp: child_alive_def ours_def records_stage_def stage_known_def split: stage.splits)
qed
lemma int_field_Nil [simp]: "int_field [] k = 0"
proof -
  have "int_of_text (py_str PyNone) = None" by code_simp
  then show ?thesis by (simp add: int_field_def dget_def)
qed

lemma phase_known_cong:
  "y_live s' \<subseteq> y_live s \<Longrightarrow> y_groups s' \<subseteq> y_groups s \<Longrightarrow> y_used s \<subseteq> y_used s' \<Longrightarrow>
   y_used_groups s \<subseteq> y_used_groups s' \<Longrightarrow> phase_known s x \<Longrightarrow> phase_known s' x"
proof -
  assume sub: "y_live s' \<subseteq> y_live s" "y_groups s' \<subseteq> y_groups s" "y_used s \<subseteq> y_used s'"
    "y_used_groups s \<subseteq> y_used_groups s'" and known: "phase_known s x"
  have k: "known_payload s d \<Longrightarrow> known_payload s' d" for d using sub by (auto simp: known_payload_def)
  have st: "stale_now s d \<Longrightarrow> stale_now s' d" for d
    by (rule stale_nowI) (use sub in \<open>auto dest: stale_nowD\<close>)
  have sk: "stage_known s x \<Longrightarrow> stage_known s' x" for x using sub by (auto simp: stage_known_def split: stage.splits)
  show ?thesis using known k st sk by (cases "(s, x)" rule: phase_known.cases) auto
qed

lemma contend_step_wf:
  assumes wf: "store_wf s" and p: "p \<in> y_live s" and ph: "y_phase s p = Contending u a"
    and run: "contend_step (\<lambda>q. q \<in> y_live s) (\<lambda>g. g \<in> y_groups s) b p u a (y_file s) = (x, f)"
  shows "phase_known s x \<and> known_payload s (load_payload f) \<and>
    (\<forall>st act. x = Owning st act \<longrightarrow> st = Fresh \<and> act = Creating \<and> a = Opening \<and> y_file s = NoLock \<and> f = LockFile p None) \<and>
    (f \<noteq> y_file s \<longrightarrow> a = Opening \<and> y_file s = NoLock \<and> f = LockFile p None \<and> x = Owning Fresh Creating \<or>
       f = NoLock \<and> (\<exists>d. a = Removing d \<and> stale_now s d \<and> (\<not> steals a b (y_file s) \<longrightarrow> lf_payload (y_file s) = Some d)))"
proof -
  have known: "phase_known s (Contending u a)" using wf ph by (metis store_wf_def)
  have "known_payload s (load_payload (y_file s))" using wf by (simp add: store_wf_def)
  moreover have "known_payload s []" by (simp add: known_payload_def)
  ultimately show ?thesis using run known
    by (cases a; cases u; auto simp: give_up_def after_removal_def load_payload_def stale_now_def Let_def steals_def
        split: if_splits)
qed
lemma stage_update: "update_step st fs nx \<Longrightarrow> stage_known s st \<Longrightarrow> stage_known s nx"
  by (auto simp: update_step_def stage_known_def)

lemma owner_step_agrees:
  assumes ag: "agrees P p st act f"
    and run: "owner_step (token_of P p) (payload_of P p) p st act f = (x, f')"
  shows "(\<exists>st' act'. x = Owning st' act' \<and> agrees P p st' act' f') \<or> x = Finished"
proof (cases act)
  case (Loading fs nx)
  with ag obtain n e where e: "f = LockFile n (Some e)" "ours P p st e" "update_step st fs nx" by auto
  then have "owns_payload (token_of P p) (load_payload f)" by (simp add: ours_def load_payload_def)
  with run Loading e ours_update [OF e(3,2)] show ?thesis by (auto simp: load_payload_def)
qed (use assms ours_new in \<open>auto split: if_splits\<close>)

lemma owner_step_wf:
  assumes wf: "store_wf s" and ph: "y_phase s p = Owning st act"
    and run: "owner_step (token_of P p) (payload_of P p) p st act (y_file s) = (x, f)"
  shows "phase_known s x \<and> known_payload s (load_payload f) \<and>
    (\<forall>st' act'. x = Owning st' act' \<longrightarrow> stage_known s st')"
proof -
  have known: "phase_known s (Owning st act)" and p: "p \<in> y_used s" "stage_known s st"
    and held: "known_payload s (load_payload (y_file s))"
    using wf ph unfolding store_wf_def by metis+
  have new: "known_payload s (payload_of P p)" "known_payload s []" using p by (auto simp: known_payload_def)
  show ?thesis
  proof (cases act)
    case (Loading fs nx)
    then have "update_step st fs nx" using known by simp
    with Loading held p run show ?thesis
      using known_update [of st fs nx s "load_payload (y_file s)"] by (auto dest: stage_update split: if_splits)
  qed (use run known held new p in \<open>auto simp: load_payload_def split: lock_file.splits if_splits\<close>)
qed
lemma view_cong:
  assumes "y_live s' = y_live s" and "y_groups s' = y_groups s" and "y_used s' = y_used s"
    and "y_used_groups s' = y_used_groups s"
  shows "known_payload s' d = known_payload s d" and "stage_known s' st = stage_known s st"
    and "child_alive s' st = child_alive s st" and "phase_known s' x = phase_known s x"
proof -
  show k: "known_payload s' d = known_payload s d" for d using assms by (simp add: known_payload_def)
  show t: "stage_known s' st = stage_known s st" for st using assms by (simp add: stage_known_def split: stage.splits)
  show "child_alive s' st = child_alive s st" using assms by (simp add: child_alive_def split: stage.splits)
  have "stale_now s' d = stale_now s d" for d using assms by (simp add: stale_now_def)
  with k t show "phase_known s' x = phase_known s x" by (cases "(s, x)" rule: phase_known.cases) auto
qed

lemma set_phase_view [simp]:
  "y_file (set_phase p x s) = y_file s" "y_live (set_phase p x s) = y_live s" "y_groups (set_phase p x s) = y_groups s"
  "y_used (set_phase p x s) = y_used s" "y_used_groups (set_phase p x s) = y_used_groups s"
  "y_stolen (set_phase p x s) = y_stolen s" "y_phase (set_phase p x s) q = (if q = p then x else y_phase s q)"
  by (simp_all add: set_phase_def)

lemma store_wf_set:
  assumes wf: "store_wf s" and "known_payload s (load_payload f)" and "phase_known s x"
    and "\<And>st act. x = Owning st act \<Longrightarrow> p > 0 \<and> p \<in> y_used s \<and> stage_known s st"
  shows "store_wf (set_phase p x (s\<lparr>y_file := f, y_stolen := b\<rparr>))"
proof -
  let ?s = "set_phase p x (s\<lparr>y_file := f, y_stolen := b\<rparr>)"
  have v: "y_live ?s = y_live s" "y_groups ?s = y_groups s" "y_used ?s = y_used s" "y_used_groups ?s = y_used_groups s"
    by simp_all
  have "\<forall>q st act. y_phase ?s q = Owning st act \<longrightarrow> q > 0 \<and> q \<in> y_used s \<and> stage_known s st"
    using assms by (auto simp: store_wf_def split: if_splits)
  moreover have "\<forall>q. phase_known s (y_phase ?s q)" using assms by (auto simp: store_wf_def)
  ultimately show ?thesis using wf assms(2) unfolding store_wf_def view_cong [OF v] by simp
qed

lemma exclusive_set:
  assumes "\<And>q. q \<noteq> p \<Longrightarrow> \<not> engaged s q" and "\<And>st act. x = Owning st act \<Longrightarrow> agrees P p st act f"
  shows "exclusive P (set_phase p x (s\<lparr>y_file := f, y_stolen := b\<rparr>))"
proof -
  let ?s = "set_phase p x (s\<lparr>y_file := f, y_stolen := b\<rparr>)"
  have v: "y_live ?s = y_live s" "y_groups ?s = y_groups s" "y_used ?s = y_used s" "y_used_groups ?s = y_used_groups s"
    by simp_all
  have "\<not> engaged ?s q" if "q \<noteq> p" for q using assms(1) [OF that] that by (simp add: engaged_def view_cong [OF v])
  moreover have "agrees P q st act f" if "y_phase ?s q = Owning st act" "q \<in> y_live s \<or> child_alive s st" for q st act
    using that assms by (auto simp: engaged_def split: if_splits)
  ultimately show ?thesis unfolding exclusive_def view_cong [OF v] by (simp add: v) metis
qed

lemma exclusive_leave:
  assumes "exclusive P s" and "\<And>st act. x \<noteq> Owning st act"
  shows "exclusive P (set_phase p x (s\<lparr>y_stolen := b\<rparr>))"
proof -
  let ?s = "set_phase p x (s\<lparr>y_stolen := b\<rparr>)"
  have v: "y_live ?s = y_live s" "y_groups ?s = y_groups s" "y_used ?s = y_used s" "y_used_groups ?s = y_used_groups s"
    by simp_all
  have "engaged s q" if "engaged ?s q" for q
    using that assms(2) by (auto simp: engaged_def view_cong [OF v] split: if_splits)
  moreover have "agrees P q st act (y_file s)" if "y_phase ?s q = Owning st act" "q \<in> y_live s \<or> child_alive s st" for q st act
    using that assms by (auto simp: exclusive_def split: if_splits)
  ultimately show ?thesis using assms(1) unfolding exclusive_def view_cong [OF v] by (simp add: v)
qed

lemma engaged_alone:
  assumes "exclusive P s" and "engaged s p"
  shows "q \<noteq> p \<Longrightarrow> \<not> engaged s q"
  using assms unfolding exclusive_def by blast

lemma free_not_engaged: "exclusive P s \<Longrightarrow> y_file s = NoLock \<Longrightarrow> \<not> engaged s q"
proof
  assume ex: "exclusive P s" "y_file s = NoLock" and "engaged s q"
  then obtain st act where "agrees P q st act NoLock" unfolding engaged_def exclusive_def by metis
  then show False by (cases act) auto
qed

definition lock_inv :: "lock_params \<Rightarrow> lock_system \<Rightarrow> bool" where
  "lock_inv P s \<longleftrightarrow> store_wf s \<and> (\<not> y_stolen s \<longrightarrow> exclusive P s)"

lemma lock_inv_end:
  assumes "lock_inv P s" and s': "s' = s\<lparr>y_live := y_live s - A, y_groups := y_groups s - B\<rparr>"
  shows "lock_inv P s'"
proof -
  have wf: "store_wf s" and ex: "\<not> y_stolen s \<Longrightarrow> exclusive P s" using assms by (auto simp: lock_inv_def)
  have pk: "phase_known s' x" if "phase_known s x" for x
    by (rule phase_known_cong [OF _ _ _ _ that]) (auto simp: s')
  have sk: "stage_known s' st = stage_known s st" and kp: "known_payload s' d = known_payload s d" for st d
    by (simp_all add: s' stage_known_def known_payload_def split: stage.splits)
  have ca: "child_alive s st" if "child_alive s' st" for st using that by (auto simp: child_alive_def s' split: stage.splits)
  have "store_wf s'" using wf pk unfolding store_wf_def sk kp by (auto simp: s')
  moreover have "exclusive P s'" if "\<not> y_stolen s'"
  proof -
    have e: "exclusive P s" using ex that by (simp add: s')
    have "engaged s q" if "engaged s' q" for q using that ca by (auto simp: engaged_def s')
    moreover have "agrees P q st act (y_file s)" if "y_phase s q = Owning st act" "q \<in> y_live s' \<or> child_alive s' st" for q st act
      using that e ca by (auto simp: exclusive_def s')
    ultimately show ?thesis using e unfolding exclusive_def by (simp add: s')
  qed
  ultimately show ?thesis by (simp add: lock_inv_def)
qed
lemma lock_inv_set:
  assumes inv: "lock_inv P s" and "known_payload s (load_payload f)" and "phase_known s x"
    and "\<And>st act. x = Owning st act \<Longrightarrow> p > 0 \<and> p \<in> y_used s \<and> stage_known s st"
    and "y_stolen s \<Longrightarrow> b"
    and "\<not> b \<Longrightarrow> exclusive P s \<Longrightarrow> exclusive P (set_phase p x (s\<lparr>y_file := f, y_stolen := b\<rparr>))"
  shows "lock_inv P (set_phase p x (s\<lparr>y_file := f, y_stolen := b\<rparr>))"
  using assms store_wf_set [of s f x p b] by (auto simp: lock_inv_def)

text \<open>A running owner moves on without touching the file.\<close>

lemma lock_inv_owner:
  assumes inv: "lock_inv P s" and p: "p \<in> y_live s" and ph: "y_phase s p = Owning st act"
    and known: "phase_known s (Owning st act')" and ag: "agrees P p st act (y_file s) \<Longrightarrow> agrees P p st act' (y_file s)"
  shows "lock_inv P (set_phase p (Owning st act') s)"
proof -
  have wf: "store_wf s" using inv by (simp add: lock_inv_def)
  have own: "p > 0 \<and> p \<in> y_used s \<and> stage_known s st" "known_payload s (load_payload (y_file s))"
    using wf ph unfolding store_wf_def by blast+
  have "exclusive P (set_phase p (Owning st act') (s\<lparr>y_file := y_file s, y_stolen := y_stolen s\<rparr>))" if ex: "exclusive P s"
  proof (rule exclusive_set)
    have "engaged s p" using p ph by (auto simp: engaged_def)
    then show "\<not> engaged s q" if "q \<noteq> p" for q using engaged_alone [OF ex] that by blast
    have "agrees P p st act (y_file s)" using ex p ph unfolding exclusive_def by blast
    then show "agrees P p st' a (y_file s)" if "Owning st act' = Owning st' a" for st' a using ag that by simp
  qed
  then have "lock_inv P (set_phase p (Owning st act') (s\<lparr>y_file := y_file s, y_stolen := y_stolen s\<rparr>))"
    using own known by (intro lock_inv_set [OF inv]) auto
  then show ?thesis by simp
qed

lemma lock_inv_contend:
  assumes inv: "lock_inv P s" and p: "p \<in> y_live s" and ph: "y_phase s p = Contending u a"
    and run: "contend_step (\<lambda>q. q \<in> y_live s) (\<lambda>g. g \<in> y_groups s) b p u a (y_file s) = (x, f)"
  shows "lock_inv P (set_phase p x (s\<lparr>y_file := f, y_stolen := y_stolen s \<or> steals a b (y_file s)\<rparr>))"
proof -
  have wf: "store_wf s" using inv by (simp add: lock_inv_def)
  note step = contend_step_wf [OF wf p ph run]
  have pid: "p > 0 \<and> p \<in> y_used s" using wf p by (auto simp: store_wf_def)
  show ?thesis
  proof (rule lock_inv_set [OF inv])
    show "known_payload s (load_payload f)" "phase_known s x" using step by blast+
    show "p > 0 \<and> p \<in> y_used s \<and> stage_known s st" if "x = Owning st act" for st act
      using step pid that by (auto simp: stage_known_def)
    assume ns: "\<not> (y_stolen s \<or> steals a b (y_file s))" and ex: "exclusive P s"
    let ?s = "set_phase p x (s\<lparr>y_file := f, y_stolen := y_stolen s \<or> steals a b (y_file s)\<rparr>)"
    consider "a = Opening" "y_file s = NoLock" "f = LockFile p None" "x = Owning Fresh Creating"
      | d where "f = NoLock" "y_file s \<noteq> NoLock" "a = Removing d" "stale_now s d" "lf_payload (y_file s) = Some d"
      | "f = y_file s" "\<And>st act. x \<noteq> Owning st act"
    proof (cases "f = y_file s")
      case True
      moreover have "x \<noteq> Owning st act" for st act
        using step True by (metis lock_file.distinct(1))
      ultimately show ?thesis using that(3) by blast
    next
      case False
      then show ?thesis using step ns that(1,2) by auto
    qed
    then show "exclusive P ?s"
    proof cases
      case 1
      then show ?thesis using free_not_engaged [OF ex] by (intro exclusive_set) auto
    next
      case 2
      have "x \<noteq> Owning st act" for st act using step 2 by auto
      then show ?thesis using stale_not_engaged [OF wf ex] 2 by (intro exclusive_set) auto
    next
      case 3
      then show ?thesis using exclusive_leave [OF ex, of x p] by simp
    qed
  qed simp
qed

lemma lock_inv_own:
  assumes inv: "lock_inv P s" and p: "p \<in> y_live s" and ph: "y_phase s p = Owning st act"
    and run: "owner_step (token_of P p) (payload_of P p) p st act (y_file s) = (x, f)"
  shows "lock_inv P (set_phase p x (s\<lparr>y_file := f\<rparr>))"
proof -
  have wf: "store_wf s" using inv by (simp add: lock_inv_def)
  note step = owner_step_wf [OF wf ph run]
  have pid: "p > 0 \<and> p \<in> y_used s" using wf ph unfolding store_wf_def by blast
  have ex': "exclusive P (set_phase p x (s\<lparr>y_file := f, y_stolen := y_stolen s\<rparr>))" if ex: "exclusive P s"
  proof (rule exclusive_set)
    have e: "engaged s p" using p ph by (auto simp: engaged_def)
    then show "\<not> engaged s q" if "q \<noteq> p" for q using engaged_alone [OF ex] that by blast
    have "agrees P p st act (y_file s)" using ex p ph unfolding exclusive_def by blast
    from owner_step_agrees [OF this run] show "agrees P p st' act' f" if "x = Owning st' act'" for st' act'
      using that by auto
  qed
  have "lock_inv P (set_phase p x (s\<lparr>y_file := f, y_stolen := y_stolen s\<rparr>))"
    using step pid ex' by (intro lock_inv_set [OF inv]) auto
  then show ?thesis by simp
qed

lemma lock_inv_launch:
  assumes inv: "lock_inv P s" and p: "p \<in> y_live s" and ph: "y_phase s p = Owning Pending Resting"
    and c: "c > 0" "c \<notin> y_used s" and g: "g \<ge> 0" "g \<in> y_groups s \<or> g \<notin> y_used_groups s"
  shows "lock_inv P (set_phase p (Owning (Launched c g) Resting)
      (s\<lparr>y_live := insert c (y_live s), y_used := insert c (y_used s),
         y_groups := insert g (y_groups s), y_used_groups := insert g (y_used_groups s)\<rparr>))" (is "lock_inv P ?s")
proof -
  have wf: "store_wf s" and ex: "\<not> y_stolen s \<Longrightarrow> exclusive P s" using inv by (auto simp: lock_inv_def)
  have stale: "stale_now ?s d" if "known_payload s d" "stale_now s d" for d
    by (rule stale_nowI) (use that c g stale_nowD [OF that(2)] in \<open>auto simp: known_payload_def\<close>)
  have kp: "known_payload ?s d" if "known_payload s d" for d using that by (auto simp: known_payload_def)
  have sk: "stage_known ?s st" if "stage_known s st" for st using that by (auto simp: stage_known_def split: stage.splits)
  have pk: "phase_known ?s x" if "phase_known s x" for x
    using that stale kp sk by (cases "(s, x)" rule: phase_known.cases) auto
  have own: "q > 0 \<and> q \<in> y_used s \<and> stage_known s st" if "y_phase s q = Owning st act" for q st act
    using wf that unfolding store_wf_def by blast
  have "store_wf ?s" unfolding store_wf_def
  proof (intro conjI allI impI ballI)
    show "known_payload ?s (load_payload (y_file ?s))" "y_live ?s \<subseteq> y_used ?s" "y_groups ?s \<subseteq> y_used_groups ?s"
      using wf kp by (auto simp: store_wf_def)
    show "phase_known ?s (y_phase ?s q)" for q using wf pk by (auto simp: store_wf_def)
    fix q st act
    assume "y_phase ?s q = Owning st act"
    then show "q > 0" "q \<in> y_used ?s" "stage_known ?s st"
      using own [of q st act] own [OF ph] sk c g by (auto simp: stage_known_def split: if_splits)
  qed (use wf c in \<open>auto simp: store_wf_def\<close>)
  moreover have "exclusive P ?s" if "\<not> y_stolen ?s"
  proof -
    have e: "exclusive P s" using ex that by simp
    have "engaged s p" using p ph by (auto simp: engaged_def)
    then have alone: "\<not> engaged s q" if "q \<noteq> p" for q using engaged_alone [OF e] that by blast
    have rest: "\<not> (q \<in> y_live ?s \<or> child_alive ?s st)" if q: "q \<noteq> p" "y_phase s q = Owning st act" for q st act
    proof -
      have dead: "q \<notin> y_live s" "\<not> child_alive s st" using alone [OF q(1)] q(2) by (auto simp: engaged_def)
      have "q \<noteq> c" "stage_known s st" using own [OF q(2)] c by auto
      with dead show ?thesis using c g by (auto simp: child_alive_def stage_known_def split: stage.splits)
    qed
    have "agrees P p Pending Resting (y_file s)" using e p ph unfolding exclusive_def by blast
    then have "agrees P p (Launched c g) Resting (y_file s)" by (auto simp: ours_def records_stage_def)
    then show ?thesis using rest unfolding exclusive_def engaged_def by (auto split: if_splits)
  qed
  ultimately show ?thesis by (simp add: lock_inv_def)
qed

lemma lock_inv_step:
  assumes "lock_step P s s'" and inv: "lock_inv P s"
  shows "lock_inv P s'"
  using assms(1)
proof cases
  case (start_acquire p)
  have "lock_inv P (set_phase p (Contending Acquire Opening) (s\<lparr>y_file := y_file s, y_stolen := y_stolen s\<rparr>))"
    using inv exclusive_leave [of P s "Contending Acquire Opening" p]
    by (intro lock_inv_set [OF inv]) (auto simp: lock_inv_def store_wf_def)
  then show ?thesis using start_acquire by simp
next
  case (start_cleanup p)
  have "lock_inv P (set_phase p (Contending Cleanup Looking) (s\<lparr>y_file := y_file s, y_stolen := y_stolen s\<rparr>))"
    using inv exclusive_leave [of P s "Contending Cleanup Looking" p]
    by (intro lock_inv_set [OF inv]) (auto simp: lock_inv_def store_wf_def)
  then show ?thesis using start_cleanup by simp
next
  case contend
  then show ?thesis using lock_inv_contend [OF inv] by simp
next
  case own
  then show ?thesis using lock_inv_own [OF inv] by simp
next
  case (mark_pending p)
  then show ?thesis using lock_inv_owner [OF inv, of p Fresh Resting] by (simp add: update_step_def)
next
  case launch
  then show ?thesis using lock_inv_launch [OF inv] by simp
next
  case (register_child p c g)
  then show ?thesis using lock_inv_owner [OF inv, of p "Launched c g" Resting] by (simp add: update_step_def)
next
  case (release p st)
  then show ?thesis using lock_inv_owner [OF inv, of p st Resting ReleaseLoading] by simp
next
  case (process_end q)
  then show ?thesis using lock_inv_end [OF inv, where s' = s' and A = "{q}" and B = "{}"] by simp
next
  case (group_end g)
  then show ?thesis using lock_inv_end [OF inv, where s' = s' and A = "{}" and B = "{g}"] by simp
qed

lemma lock_inv_start: "lock_start s \<Longrightarrow> lock_inv P s"
  by (auto simp: lock_start_def lock_inv_def store_wf_def exclusive_def engaged_def known_payload_def file_ids_def
      Let_def split: if_splits)

lemma lock_reachable_inv: "lock_reachable P s \<Longrightarrow> lock_inv P s"
  by (induction rule: lock_reachable.induct) (auto intro: lock_inv_start lock_inv_step)
subsection \<open>Runs\<close>

lemma reachable_steps: "(lock_step P)\<^sup>*\<^sup>* s s' \<Longrightarrow> lock_reachable P s \<Longrightarrow> lock_reachable P s'"
  by (induction rule: rtranclp_induct) (auto intro: lock_reachable.step)

lemma step_contend:
  assumes "p \<in> y_live s" and "y_phase s p = Contending u a"
    and "contend_step (\<lambda>q. q \<in> y_live s) (\<lambda>g. g \<in> y_groups s) b p u a (y_file s) = (x, f)"
    and "s' = set_phase p x (s\<lparr>y_file := f, y_stolen := y_stolen s \<or> steals a b (y_file s)\<rparr>)"
  shows "lock_step P s s'"
  unfolding assms(4) using assms(1-3) by (rule lock_step.contend)

lemma set_phase_twice [simp]: "set_phase p x (set_phase p y s) = set_phase p x s"
  by (simp add: set_phase_def)

lemma set_phase_store [simp]:
  "(set_phase p x s)\<lparr>y_file := f\<rparr> = set_phase p x (s\<lparr>y_file := f\<rparr>)"
  "(set_phase p x s)\<lparr>y_stolen := b\<rparr> = set_phase p x (s\<lparr>y_stolen := b\<rparr>)"
  by (simp_all add: set_phase_def)

lemma run_create:
  assumes "p \<in> y_live s" and "y_phase s p = Contending Acquire Opening" and "y_file s = NoLock"
  shows "(lock_step P)\<^sup>*\<^sup>* s (set_phase p (Owning Fresh Resting) (s\<lparr>y_file := LockFile p (Some (payload_of P p))\<rparr>))"
proof -
  let ?s1 = "set_phase p (Owning Fresh Creating) (s\<lparr>y_file := LockFile p None\<rparr>)"
  have "lock_step P s ?s1"
    by (rule step_contend [OF assms(1,2), where b = False]) (use assms in \<open>simp_all add: steals_def\<close>)
  moreover have "lock_step P ?s1 (set_phase p (Owning Fresh Resting) (?s1\<lparr>y_file := LockFile p (Some (payload_of P p))\<rparr>))"
    by (rule lock_step.own [where p = p and st = Fresh and act = Creating]) (use assms in simp_all)
  moreover have "set_phase p (Owning Fresh Resting) (?s1\<lparr>y_file := LockFile p (Some (payload_of P p))\<rparr>) =
      set_phase p (Owning Fresh Resting) (s\<lparr>y_file := LockFile p (Some (payload_of P p))\<rparr>)"
    by (simp add: set_phase_def)
  ultimately show ?thesis by (metis converse_rtranclp_into_rtranclp rtranclp.rtrancl_refl)
qed

lemma run_inspect:
  assumes p: "p \<in> y_live s" and ph: "y_phase s p = Contending Acquire Opening"
    and f: "y_file s = LockFile n (Some d)" and stale: "stale_now s d"
  shows "(lock_step P)\<^sup>*\<^sup>* s (set_phase p (Contending Acquire (Removing d)) s)"
proof -
  let ?at = "\<lambda>a. set_phase p (Contending Acquire a) s"
  have keep: "s\<lparr>y_file := LockFile n (Some d)\<rparr> = s" by (simp add: f [symmetric])
  have 1: "lock_step P s (?at Looking)"
    by (rule step_contend [OF p ph, where b = False and f = "y_file s"]) (use f in \<open>simp_all add: steals_def keep\<close>)
  have 2: "lock_step P (?at Looking) (?at Reading)"
    by (rule step_contend [where p = p and u = Acquire and a = Looking and b = False and f = "y_file s"])
      (use p f in \<open>simp_all add: steals_def keep\<close>)
  have 3: "lock_step P (?at Reading) (?at (Probing d))"
    by (rule step_contend [where p = p and u = Acquire and a = Reading and b = False and f = "y_file s"])
      (use p f in \<open>simp_all add: steals_def keep load_payload_def\<close>)
  have 4: "lock_step P (?at (Probing d)) (?at (Removing d))"
    by (rule step_contend [where p = p and u = Acquire and a = "Probing d" and b = False and f = "y_file s"])
      (use p f stale in \<open>simp_all add: steals_def keep stale_now_def\<close>)
  show ?thesis using 1 2 3 4 by (meson converse_rtranclp_into_rtranclp rtranclp.rtrancl_refl)
qed

lemma step_remove:
  assumes "p \<in> y_live s" and "y_phase s p = Contending Acquire (Removing d)" and "y_file s \<noteq> NoLock"
  shows "lock_step P s (set_phase p (Contending Acquire Opening)
    (s\<lparr>y_file := NoLock, y_stolen := y_stolen s \<or> lf_payload (y_file s) \<noteq> Some d\<rparr>))"
  by (rule step_contend [OF assms(1,2), where b = False]) (use assms in \<open>simp_all add: steals_def after_removal_def\<close>)

definition sample_params :: lock_params where
  "sample_params = \<lparr>lp_request = (\<lambda>p. \<lparr>lr_run_id = ''run'', lr_runtime_mode = ''m'', lr_started_at = ''t'',
     lr_command_argv = [''x'']\<rparr>), lp_pgid = (\<lambda>p. p)\<rparr>"

definition sample_start :: lock_system where
  "sample_start = \<lparr>y_file = NoLock, y_phase = (\<lambda>_. Idle), y_live = {1, 2, 3}, y_groups = {}, y_used = {1, 2, 3},
     y_used_groups = {}, y_stolen = False\<rparr>"

lemma sample_start_ok: "lock_reachable P sample_start"
  by (rule lock_reachable.init)
    (auto simp: lock_start_def sample_start_def file_ids_def Let_def load_payload_def)

text \<open>Process 1 holds the lock.\<close>

definition sample_held :: lock_system where
  "sample_held = set_phase 1 (Owning Fresh Resting) (sample_start\<lparr>y_file := LockFile 1 (Some (payload_of sample_params 1))\<rparr>)"

lemma sample_held_ok: "lock_reachable sample_params sample_held"
proof -
  let ?s = "set_phase 1 (Contending Acquire Opening) sample_start"
  have "lock_step sample_params sample_start ?s" by (rule lock_step.start_acquire) (simp_all add: sample_start_def)
  moreover have "(lock_step sample_params)\<^sup>*\<^sup>* ?s sample_held"
    using run_create [of 1 ?s sample_params] by (simp add: sample_held_def sample_start_def set_phase_def)
  ultimately show ?thesis using reachable_steps [OF _ lock_reachable.step [OF sample_start_ok]] by blast
qed

text \<open>
  C13: the workspace lock excludes. In every reachable state of any number of processes that acquire,
  update, release and clean up the lock, crash at any point and leave children behind, at most one
  process is engaged (holds the lock and runs, or left a running child), unless some contender has
  unlinked a lock file other than the stale one it had inspected.
\<close>

theorem lock_exclusive:
  assumes "lock_reachable P s" and "\<not> y_stolen s" and "engaged s p" and "engaged s q"
  shows "p = q"
  using lock_reachable_inv [OF assms(1)] assms(2-4) unfolding lock_inv_def exclusive_def by blast

theorem lock_exclusive_witness: "engaged sample_held 1 \<and> \<not> engaged sample_held 2"
proof -
  have 1: "engaged sample_held 1" by (simp add: engaged_def sample_held_def sample_start_def)
  have "\<not> y_stolen sample_held" by (simp add: sample_held_def sample_start_def)
  from lock_exclusive [OF sample_held_ok this 1, of 2] 1 show ?thesis by auto
qed
lemma payload_ne: "payload_of P p \<noteq> []"
  by (simp add: payload_of_def lock_payload_def)

text \<open>
  C16: the stale recovery has a race. There is a reachable state, from a free lock, in which two
  running processes both hold the workspace lock: both inspect the same stale file, the first removes
  it and acquires the lock, and the second then removes the new file, which it never inspected.
\<close>

theorem stale_recovery_race:
  "\<exists>s p q. lock_reachable sample_params s \<and> p \<noteq> q \<and> p \<in> y_live s \<and> q \<in> y_live s \<and>
     y_phase s p = Owning Fresh Resting \<and> y_phase s q = Owning Fresh Resting"
proof -
  let ?P = sample_params and ?d = "payload_of sample_params 1"
  let ?dead = "sample_held\<lparr>y_live := y_live sample_held - {1}\<rparr>"
  let ?open = "\<lambda>p s. set_phase p (Contending Acquire Opening) s"
  let ?judged = "\<lambda>p s. set_phase p (Contending Acquire (Removing ?d)) s"
  have pending: "\<not> pending ?d" by (simp add: pending_def payload_of_def lock_payload_def dget_def)
  have stale: "stale_now s ?d" if "1 \<notin> y_live s" for s
    by (rule stale_nowI) (use that pending in \<open>simp_all add: payload_ne\<close>)
  have r1: "lock_reachable ?P ?dead" by (rule lock_reachable.step [OF sample_held_ok lock_step.process_end])
  let ?a = "?open 3 (?open 2 ?dead)"
  have "lock_reachable ?P (?open 2 ?dead)"
    by (rule lock_reachable.step [OF r1 lock_step.start_acquire]) (simp_all add: sample_held_def sample_start_def)
  then have r2: "lock_reachable ?P ?a"
    by (rule lock_reachable.step [OF _ lock_step.start_acquire]) (simp_all add: sample_held_def sample_start_def)
  let ?b = "?judged 2 ?a" and ?c = "?judged 3 (?judged 2 ?a)"
  have "(lock_step ?P)\<^sup>*\<^sup>* ?a ?b"
    by (rule run_inspect [where n = 1]) (simp_all add: stale sample_held_def sample_start_def)
  then have r3: "lock_reachable ?P ?b" by (rule reachable_steps [OF _ r2])
  have "(lock_step ?P)\<^sup>*\<^sup>* ?b ?c"
    by (rule run_inspect [where n = 1]) (simp_all add: stale sample_held_def sample_start_def)
  then have r4: "lock_reachable ?P ?c" by (rule reachable_steps [OF _ r3])
  let ?d1 = "?open 2 (?c\<lparr>y_file := NoLock, y_stolen := y_stolen ?c \<or> lf_payload (y_file ?c) \<noteq> Some ?d\<rparr>)"
  have r5: "lock_reachable ?P ?d1"
    by (rule lock_reachable.step [OF r4 step_remove]) (simp_all add: sample_held_def sample_start_def)
  let ?e = "set_phase 2 (Owning Fresh Resting) (?d1\<lparr>y_file := LockFile 2 (Some (payload_of ?P 2))\<rparr>)"
  have "(lock_step ?P)\<^sup>*\<^sup>* ?d1 ?e"
    by (rule run_create) (simp_all add: sample_held_def sample_start_def)
  then have r6: "lock_reachable ?P ?e" by (rule reachable_steps [OF _ r5])
  let ?f = "?open 3 (?e\<lparr>y_file := NoLock, y_stolen := y_stolen ?e \<or> lf_payload (y_file ?e) \<noteq> Some ?d\<rparr>)"
  have r7: "lock_reachable ?P ?f"
    by (rule lock_reachable.step [OF r6 step_remove]) (simp_all add: sample_held_def sample_start_def)
  let ?g = "set_phase 3 (Owning Fresh Resting) (?f\<lparr>y_file := LockFile 3 (Some (payload_of ?P 3))\<rparr>)"
  have "(lock_step ?P)\<^sup>*\<^sup>* ?f ?g"
    by (rule run_create) (simp_all add: sample_held_def sample_start_def)
  then have "lock_reachable ?P ?g" by (rule reachable_steps [OF _ r7])
  moreover have "2 \<in> y_live ?g \<and> 3 \<in> y_live ?g \<and> y_phase ?g 2 = Owning Fresh Resting \<and> y_phase ?g 3 = Owning Fresh Resting"
    by (simp add: sample_held_def sample_start_def)
  ultimately show ?thesis by (intro exI [of _ ?g] exI [of _ 2] exI [of _ 3]) simp
qed

subsection \<open>One process alone\<close>

text \<open>A process takes its steps undisturbed and every unlink works.\<close>

definition solo_step :: "lock_params \<Rightarrow> running \<Rightarrow> running \<Rightarrow> int \<Rightarrow> phase \<times> lock_file \<Rightarrow> phase \<times> lock_file" where
  "solo_step P pid_runs group_runs p xf =
     (case fst xf of
        Contending u a \<Rightarrow> contend_step pid_runs group_runs False p u a (snd xf)
      | Owning st act \<Rightarrow> owner_step (token_of P p) (payload_of P p) p st act (snd xf)
      | _ \<Rightarrow> xf)"

definition settled_acquire :: "lock_params \<Rightarrow> running \<Rightarrow> running \<Rightarrow> int \<Rightarrow> lock_file \<Rightarrow> phase \<times> lock_file" where
  "settled_acquire P pid_runs group_runs p f =
     (let status = inspect_workspace_lock '''' pid_runs group_runs f
      in if ls_status status \<in> {Missing, Stale} then (Owning Fresh Resting, LockFile p (Some (payload_of P p)))
         else (Refused (''goal runtime workspace already active: '' @ ls_reason status), f))"

text \<open>
  C14: an undisturbed acquisition ends within seven system calls. The loop of
  \<open>acquire_workspace_lock\<close>, run alone, settles: with no lock file or a stale one the process owns the
  lock and the file holds its payload; in every other case it is refused with the reason of the
  inspection and the file is untouched. Further steps change nothing.
\<close>

theorem acquire_settles:
  "(solo_step P pid_runs group_runs p ^^ 7) (Contending Acquire Opening, f) = settled_acquire P pid_runs group_runs p f \<and>
   solo_step P pid_runs group_runs p (settled_acquire P pid_runs group_runs p f) = settled_acquire P pid_runs group_runs p f"
proof -
  let ?s = "solo_step P pid_runs group_runs p"
  have fix1: "?s (Owning Fresh Resting, g) = (Owning Fresh Resting, g)" for g by (simp add: solo_step_def)
  have fix2: "?s (Refused t, g) = (Refused t, g)" for t g by (simp add: solo_step_def)
  have create: "?s (?s (Contending Acquire Opening, NoLock)) = (Owning Fresh Resting, LockFile p (Some (payload_of P p)))"
    by (simp add: solo_step_def)
  show ?thesis
  proof (cases "f = NoLock")
    case True
    then show ?thesis
      by (simp add: eval_nat_numeral create fix1 settled_acquire_def inspect_workspace_lock_def no_lock_status_def)
  next
    case False
    let ?j = "judge_payload '''' pid_runs group_runs (load_payload f)"
    have look: "?s (?s (?s (Contending Acquire Opening, f))) = (Contending Acquire (Probing (load_payload f)), f)"
      using False by (simp add: solo_step_def)
    have probe: "?s (Contending Acquire (Probing (load_payload f)), f) =
        (if ls_status ?j = Stale then (Contending Acquire (Removing (load_payload f)), f)
         else (Refused (''goal runtime workspace already active: '' @ ls_reason ?j), f))"
      by (simp add: solo_step_def Let_def give_up_def)
    have remove: "?s (Contending Acquire (Removing d), f) = (Contending Acquire Opening, NoLock)" for d
      using False by (simp add: solo_step_def after_removal_def)
    have "ls_status ?j \<noteq> Missing" by (simp add: judge_payload_def split: option.splits)
    then show ?thesis using False
      by (simp add: eval_nat_numeral look probe remove create fix1 fix2 settled_acquire_def inspect_workspace_lock_def)
  qed
qed

text \<open>
  C15: stopping is aimed. When \<open>stop_workspace_lock\<close> sends a signal, it goes to the recorded owner the
  inspection found alive: a running process group that is not the caller's own, or a running process
  that is not the caller. The lock file is only removed when it is stale, and then nothing is signalled.
\<close>

theorem stop_signals_owner:
  assumes "stop_workspace_lock path pid_runs group_runs me my_group can_group f = (r, sig, f')"
  shows "(\<forall>t. sig = Some t \<longrightarrow> st_status r = ''stop_requested'' \<and>
      (\<exists>o'. active_owner (load_payload f) pid_runs group_runs = Some o' \<and> lo_id o' > 0 \<and>
        (t = SignalGroup (lo_id o') \<and> lo_id o' \<noteq> my_group \<and> group_runs (lo_id o') \<or>
         t = SignalPid (lo_id o') \<and> lo_id o' \<noteq> me \<and> pid_runs (lo_id o')))) \<and>
    (f' \<noteq> f \<longrightarrow> sig = None \<and> f' = NoLock \<and>
       ls_status (inspect_workspace_lock path pid_runs group_runs f) = Stale)"
proof -
  let ?st = "inspect_workspace_lock path pid_runs group_runs f"
  have kinds: "ends_with ''child_process_group'' ''process_group''" "\<not> ends_with ''child_process'' ''process_group''"
    "\<not> ends_with ''runner_process'' ''process_group''"
    by code_simp+
  show ?thesis
  proof (cases "ls_status ?st = Active")
    case True
    then have ne: "f \<noteq> NoLock" "load_payload f \<noteq> []"
      by (auto simp: inspect_workspace_lock_def judge_payload_def no_lock_status_def split: if_splits)
    with True obtain ow where ow: "active_owner (load_payload f) pid_runs group_runs = Some ow" "ls_owner ?st = Some ow"
      by (auto simp: inspect_workspace_lock_def judge_payload_def split: option.splits if_splits)
    have id: "lo_id ow > 0 \<and> (lo_type ow = ''child_process_group'' \<and> group_runs (lo_id ow) \<or>
        lo_type ow \<in> {''child_process'', ''runner_process''} \<and> pid_runs (lo_id ow))"
      using ow(1) by (auto simp: active_owner_def owner_probes_def Let_def split: if_splits)
    have res: "(r, sig) = stop_signal me my_group can_group ?st ow" "f' = f"
      using assms True ow(2) by (auto simp: stop_workspace_lock_def Let_def split: prod.splits)
    show ?thesis using res id ow(1) kinds by (auto simp: stop_signal_def Let_def split: if_splits)
  next
    case False
    then show ?thesis using assms by (cases "ls_status ?st") (auto simp: stop_workspace_lock_def Let_def)
  qed
qed

theorem stop_signals_owner_witness:
  "fst (snd (stop_workspace_lock ''l'' (\<lambda>p. p = 7) (\<lambda>_. False) 1 1 True
     (LockFile 7 (Some (payload_of sample_params 7))))) = Some (SignalPid 7) \<and> (7 :: int) \<noteq> 1"
proof -
  let ?f = "LockFile 7 (Some (payload_of sample_params 7))"
  let ?run = "stop_workspace_lock ''l'' (\<lambda>p. p = 7) (\<lambda>_. False) 1 1 True ?f"
  have s: "fst (snd ?run) = Some (SignalPid 7)" by code_simp
  obtain r sig f' where run: "?run = (r, sig, f')" by (cases ?run)
  from stop_signals_owner [OF run] s show ?thesis unfolding run by auto
qed

end
