(* ===== verification/CommandRuntime.thy ===== *)
theory CommandRuntime
  imports GateCommon
begin

section \<open>Running a command with a timeout\<close>

text \<open>
  \<open>core/command_runtime.py\<close>: the process of the command, its heartbeats, what happens when its time
  is up and when an error or a signal to the parent interrupts the wait.  The operating system, the
  clock and the callbacks are asked through a trace of calls: an environment answers each call from the
  calls made so far, so that a theorem over all environments covers every behaviour of the child and
  every arrival of a signal.  A loop of the model that has used up its fuel gives \<open>Running\<close>, which no
  \<open>except\<close> clause catches.  The test doubles of the file are left out.
\<close>

subsection \<open>Calls and answers\<close>

datatype signal_value = SIGTERM | SIGKILL | SIGINT

text \<open>What \<open>communicate\<close> hands over; bytes stand for the text that decoding them gives.\<close>

datatype py_output = NoOutput | TextOutput string | BytesOutput string

datatype command_exc =
    TimeoutExpired py_output py_output
  | ProcessLookupError
  | OsError string
  | Interruption signal_value
  | ProcessCleanupError string
  | RequestValueError string
  | OtherError string

text \<open>\<open>except (OSError, ValueError)\<close>\<close>

fun os_or_value_error :: "command_exc \<Rightarrow> bool" where
  "os_or_value_error (OsError _) = True"
| "os_or_value_error ProcessLookupError = True"
| "os_or_value_error (RequestValueError _) = True"
| "os_or_value_error _ = False"

datatype call =
    Clock
  | Start "string list" "(string \<times> string) list option" bool
  | Communicate "string option" real
  | Poll
  | Signal signal_value
  | Heartbeat nat real int
  | Install signal_value
  | Restore signal_value
  | Arrival signal_value
  | Forward signal_value

text \<open>
  The handler that \<open>signal.signal\<close> found installed: a Python callable, one of the two constants, or
  one that was not installed from Python, for which it returns \<open>None\<close>.
\<close>

datatype previous_handler = CallableHandler | SigIgn | SigDfl | ForeignHandler

record process_env =
  pe_nt :: bool
  pe_killpg :: bool
  pe_sigkill :: bool
  pe_environ :: "(string \<times> string) list"
  pe_clock :: "call list \<Rightarrow> command_exc + real"
  pe_start :: "call list \<Rightarrow> command_exc option"
  pe_communicate :: "call list \<Rightarrow> command_exc + (py_output \<times> py_output)"
  pe_poll :: "call list \<Rightarrow> command_exc + int option"
  pe_returncode :: "call list \<Rightarrow> int option"
  pe_signal :: "call list \<Rightarrow> command_exc option"
  pe_heartbeat :: "call list \<Rightarrow> command_exc option"
  pe_install :: "call list \<Rightarrow> command_exc + previous_handler"
  pe_restore :: "call list \<Rightarrow> command_exc option"
  pe_previous :: "call list \<Rightarrow> command_exc option"
  pe_arrives :: "call list \<Rightarrow> signal_value option"
  pe_describe :: "command_exc \<Rightarrow> string"

datatype backend = PosixProcessBackend | WindowsProcessBackend

record command_world =
  cw_calls :: "call list"
  cw_handlers :: "(signal_value \<times> previous_handler) list"
  cw_installed :: "signal_value list"
  cw_attempted :: bool
  cw_heartbeats :: nat
  cw_quiet :: int

subsection \<open>Effects\<close>

datatype 'a outcome = Returned 'a | Raised command_exc | Running

type_synonym 'a act = "command_world \<Rightarrow> 'a outcome \<times> command_world"

definition ret :: "'a \<Rightarrow> 'a act" where
  "ret x = (\<lambda>w. (Returned x, w))"

definition fail :: "command_exc \<Rightarrow> 'a act" where
  "fail x = (\<lambda>w. (Raised x, w))"

definition seq :: "'a act \<Rightarrow> ('a \<Rightarrow> 'b act) \<Rightarrow> 'b act" where
  "seq m f = (\<lambda>w. case m w of
      (Returned x, w') \<Rightarrow> f x w' | (Raised x, w') \<Rightarrow> (Raised x, w') | (Running, w') \<Rightarrow> (Running, w'))"

text \<open>
  \<open>except BaseException as exc\<close>, an \<open>except\<close> clause for some exceptions, and
  \<open>except TimeoutExpired as exc\<close>.
\<close>

definition on_error :: "'a act \<Rightarrow> (command_exc \<Rightarrow> 'a act) \<Rightarrow> 'a act" where
  "on_error m h = (\<lambda>w. case m w of
      (Returned x, w') \<Rightarrow> (Returned x, w') | (Raised x, w') \<Rightarrow> h x w' | (Running, w') \<Rightarrow> (Running, w'))"

definition on_these :: "(command_exc \<Rightarrow> bool) \<Rightarrow> 'a act \<Rightarrow> 'a act \<Rightarrow> 'a act" where
  "on_these caught m h = on_error m (\<lambda>x. if caught x then h else fail x)"

definition on_timeout :: "'a act \<Rightarrow> (py_output \<Rightarrow> py_output \<Rightarrow> 'a act) \<Rightarrow> 'a act" where
  "on_timeout m h = on_error m (\<lambda>x. case x of TimeoutExpired out err \<Rightarrow> h out err | _ \<Rightarrow> fail x)"

definition finally_do :: "'a act \<Rightarrow> unit act \<Rightarrow> 'a act" where
  "finally_do m c = (\<lambda>w. case m w of
      (Running, w') \<Rightarrow> (Running, w')
    | (r, w') \<Rightarrow> (case c w' of
        (Returned _, w'') \<Rightarrow> (r, w'') | (Raised x, w'') \<Rightarrow> (Raised x, w'') | (Running, w'') \<Rightarrow> (Running, w'')))"

definition from_sum :: "command_exc + 'a \<Rightarrow> 'a outcome" where
  "from_sum r = (case r of Inl x \<Rightarrow> Raised x | Inr a \<Rightarrow> Returned a)"

definition from_option :: "command_exc option \<Rightarrow> unit outcome" where
  "from_option r = (case r of Some x \<Rightarrow> Raised x | None \<Rightarrow> Returned ())"

text \<open>One call, outside any signal handler: it is recorded and then answered.\<close>

definition ask :: "call \<Rightarrow> (call list \<Rightarrow> 'a outcome) \<Rightarrow> 'a act" where
  "ask c answer = (\<lambda>w.
     let w' = w\<lparr>cw_calls := cw_calls w @ [c]\<rparr> in (answer (cw_calls w'), w'))"

text \<open>Reading and changing the local state of the supervisor.\<close>

definition look :: "(command_world \<Rightarrow> 'a) \<Rightarrow> 'a act" where
  "look g = (\<lambda>w. (Returned (g w), w))"

definition change :: "(command_world \<Rightarrow> command_world) \<Rightarrow> unit act" where
  "change g = (\<lambda>w. (Returned (), g w))"

subsection \<open>Cleanup and the handlers of the parent's signals\<close>

text \<open>
  Each operation on the process takes the way a single call is made: \<open>ask\<close> inside a handler, and
  \<open>ask_main\<close>, which may be preceded by the arrival of a signal, everywhere else.
\<close>

definition signal_label :: "backend \<Rightarrow> signal_value \<Rightarrow> string" where
  "signal_label b sg = (case b of
      PosixProcessBackend \<Rightarrow> if sg = SIGTERM then ''sigterm'' else ''sigkill''
    | WindowsProcessBackend \<Rightarrow> if sg = SIGTERM then ''terminate'' else ''kill'')"

definition kill_signal :: "process_env \<Rightarrow> signal_value" where
  "kill_signal e = (if pe_sigkill e then SIGKILL else SIGTERM)"

definition send_signal_with ::
  "(call \<Rightarrow> (call list \<Rightarrow> unit outcome) \<Rightarrow> unit act) \<Rightarrow> process_env \<Rightarrow> backend \<Rightarrow> signal_value \<Rightarrow> string act" where
  "send_signal_with call e b sg =
     (if b = PosixProcessBackend \<and> \<not> pe_killpg e then ret ''none''
      else on_these (\<lambda>x. x = ProcessLookupError)
             (seq (call (Signal sg) (\<lambda>t. from_option (pe_signal e t))) (\<lambda>_. ret (signal_label b sg)))
             (ret ''none''))"

text \<open>\<open>except BaseException as exc: failures.append(...)\<close>\<close>

definition attempt_step :: "process_env \<Rightarrow> string \<Rightarrow> 'a act \<Rightarrow> string list act" where
  "attempt_step e what m = on_error (seq m (\<lambda>_. ret [])) (\<lambda>x. ret [what @ '': '' @ pe_describe e x])"

definition cleanup_with ::
  "(call \<Rightarrow> (call list \<Rightarrow> unit outcome) \<Rightarrow> unit act) \<Rightarrow>
   (call \<Rightarrow> (call list \<Rightarrow> (py_output \<times> py_output) outcome) \<Rightarrow> (py_output \<times> py_output) act) \<Rightarrow>
   process_env \<Rightarrow> backend \<Rightarrow> real \<Rightarrow> unit act" where
  "cleanup_with call_unit call_output e b grace =
     seq (attempt_step e ''termination'' (send_signal_with call_unit e b (kill_signal e))) (\<lambda>f1.
     seq (attempt_step e ''reaping/output''
            (call_output (Communicate None grace) (\<lambda>t. from_sum (pe_communicate e t)))) (\<lambda>f2.
     if f1 @ f2 \<noteq> []
     then fail (ProcessCleanupError (''child process cleanup incomplete; '' @ py_join ''; '' (f1 @ f2)))
     else ret ()))"

text \<open>\<open>cleanup_then_forward\<close>: the child is killed and drained, then the previous handler decides.\<close>

definition previous_of :: "signal_value \<Rightarrow> (signal_value \<times> previous_handler) list \<Rightarrow> previous_handler" where
  "previous_of sg hs = (case map_of hs sg of Some p \<Rightarrow> p | None \<Rightarrow> SigDfl)"

definition cleanup_then_forward :: "process_env \<Rightarrow> backend \<Rightarrow> real \<Rightarrow> signal_value \<Rightarrow> unit act" where
  "cleanup_then_forward e b grace sg =
     seq (change (\<lambda>w. w\<lparr>cw_attempted := True\<rparr>)) (\<lambda>_.
     seq (cleanup_with ask ask e b grace) (\<lambda>_.
     seq (look (\<lambda>w. previous_of sg (cw_handlers w))) (\<lambda>p.
       if p = CallableHandler then ask (Forward sg) (\<lambda>t. from_option (pe_previous e t))
       else if p = SigIgn then ret ()
       else fail (Interruption sg))))"

text \<open>A call of the main line: a signal whose handler is installed may arrive before its answer.\<close>

definition arriving :: "process_env \<Rightarrow> call \<Rightarrow> command_world \<Rightarrow> signal_value option" where
  "arriving e c w = (case pe_arrives e (cw_calls w @ [c]) of
     Some sg \<Rightarrow> if sg \<in> set (cw_installed w) then Some sg else None | None \<Rightarrow> None)"

definition ask_main :: "process_env \<Rightarrow> backend \<Rightarrow> real \<Rightarrow> call \<Rightarrow> (call list \<Rightarrow> 'a outcome) \<Rightarrow> 'a act" where
  "ask_main e b grace c answer =
     seq (look (arriving e c)) (\<lambda>arrived. case arrived of
         None \<Rightarrow> ask c answer
       | Some sg \<Rightarrow>
           seq (ask (Arrival sg) (\<lambda>_. Returned ())) (\<lambda>_.
           seq (cleanup_then_forward e b grace sg) (\<lambda>_. ask c answer)))"

definition send_signal :: "process_env \<Rightarrow> backend \<Rightarrow> real \<Rightarrow> signal_value \<Rightarrow> string act" where
  "send_signal e b grace sg = send_signal_with (ask_main e b grace) e b sg"

definition communicate :: "process_env \<Rightarrow> backend \<Rightarrow> real \<Rightarrow> string option \<Rightarrow> real \<Rightarrow> (py_output \<times> py_output) act" where
  "communicate e b grace input seconds =
     ask_main e b grace (Communicate input seconds) (\<lambda>t. from_sum (pe_communicate e t))"

definition monotonic :: "process_env \<Rightarrow> backend \<Rightarrow> real \<Rightarrow> real act" where
  "monotonic e b grace = ask_main e b grace Clock (\<lambda>t. from_sum (pe_clock e t))"

definition cleanup_process_after_error :: "process_env \<Rightarrow> backend \<Rightarrow> real \<Rightarrow> unit act" where
  "cleanup_process_after_error e b grace =
     cleanup_with (ask_main e b grace) (ask_main e b grace) e b grace"

text \<open>\<open>process.poll()\<close>; a process that is gone is read from the recorded return code.\<close>

definition poll_returncode :: "process_env \<Rightarrow> backend \<Rightarrow> real \<Rightarrow> int option act" where
  "poll_returncode e b grace =
     on_these (\<lambda>x. x = ProcessLookupError) (ask_main e b grace Poll (\<lambda>t. from_sum (pe_poll e t)))
       (look (\<lambda>w. pe_returncode e (cw_calls w)))"

subsection \<open>Requests and results\<close>

record run_request =
  rq_argv :: "string list"
  rq_timeout :: int
  rq_input :: "string option"
  rq_backend :: "backend option"
  rq_grace :: real
  rq_env :: "(string \<times> string) list option"
  rq_hermetic :: bool
  rq_interval :: "int option"
  rq_callback :: bool

record run_state =
  rs_request :: run_request
  rs_argv :: "string list"
  rs_backend :: backend
  rs_interval :: "int option"
  rs_latency :: real
  rs_mode :: string

record timed_result =
  tr_args :: "string list"
  tr_returncode :: int
  tr_stdout :: string
  tr_stderr :: string
  tr_timed_out :: bool
  tr_timeout :: int
  tr_reason :: string
  tr_signal :: string
  tr_final :: string
  tr_stdout_received :: bool
  tr_stderr_received :: bool
  tr_latency :: real
  tr_heartbeats :: nat
  tr_interval :: int
  tr_quiet :: int
  tr_mode :: string

definition default_backend :: "process_env \<Rightarrow> backend" where
  "default_backend e = (if pe_nt e then WindowsProcessBackend else PosixProcessBackend)"

definition start_new_session :: "backend \<Rightarrow> bool" where
  "start_new_session b = (b = PosixProcessBackend)"

definition TIMEOUT_RECOVERY_STATES :: "string list" where
  "TIMEOUT_RECOVERY_STATES = [''poll_before_signal'', ''signal_race_recovered'']"

fun normalize_output :: "py_output \<Rightarrow> string" where
  "normalize_output NoOutput = []"
| "normalize_output (TextOutput t) = t"
| "normalize_output (BytesOutput t) = t"

definition validate_run_with_timeout_request :: "run_request \<Rightarrow> command_exc option" where
  "validate_run_with_timeout_request q =
     (if rq_timeout q < 1 then Some (RequestValueError ''timeout_seconds must be >= 1'')
      else case rq_interval q of
        Some i \<Rightarrow> if i < 1 then Some (RequestValueError ''heartbeat_interval_seconds must be >= 1'') else None
      | None \<Rightarrow> None)"

text \<open>The environment of a hermetic command: six variables of the given one, when set, and two constants.\<close>

definition clean_subprocess_env :: "process_env \<Rightarrow> (string \<times> string) list option \<Rightarrow> (string \<times> string) list" where
  "clean_subprocess_env e base =
     (let source = (case base of Some env \<Rightarrow> if env = [] then pe_environ e else env | None \<Rightarrow> pe_environ e);
          names = [''PATH'', ''SystemRoot'', ''WINDIR'', ''COMSPEC'', ''TEMP'', ''TMP''];
          clean = concat (map (\<lambda>name. case map_of source name of
                     Some v \<Rightarrow> if v = [] then [] else [(name, v)] | None \<Rightarrow> []) names)
      in clean @ [(''PYTHONNOUSERSITE'', ''1''), (''PYTHONUTF8'', ''1'')])"

definition looks_like_python_executable :: "string \<Rightarrow> bool" where
  "looks_like_python_executable v =
     (let name = py_lower (path_name v)
      in name \<in> set [''python'', ''python3'', ''py''] \<or> py_startswith name ''python'')"

fun python_minus_s_command :: "string list \<Rightarrow> string list" where
  "python_minus_s_command [] = []"
| "python_minus_s_command (exe # args) =
     (if \<not> looks_like_python_executable exe \<or> ''-S'' \<in> set args then exe # args
      else exe # ''-S'' # args)"

definition result_from_completed_process ::
  "process_env \<Rightarrow> run_state \<Rightarrow> py_output \<Rightarrow> py_output \<Rightarrow> bool \<Rightarrow> string \<Rightarrow> string \<Rightarrow> string \<Rightarrow> command_world \<Rightarrow> timed_result" where
  "result_from_completed_process e st out err timed_out reason sent final w =
     (let stdout = normalize_output out; stderr = normalize_output err;
          rc = pe_returncode e (cw_calls w)
      in \<lparr>tr_args = rs_argv st,
          tr_returncode = (if timed_out then (case rc of Some c \<Rightarrow> if c = 0 then -1 else c | None \<Rightarrow> -1)
                           else (case rc of Some c \<Rightarrow> c | None \<Rightarrow> -1)),
          tr_stdout = stdout, tr_stderr = stderr, tr_timed_out = timed_out,
          tr_timeout = rq_timeout (rs_request st), tr_reason = reason, tr_signal = sent, tr_final = final,
          tr_stdout_received = (out \<noteq> NoOutput), tr_stderr_received = (err \<noteq> NoOutput),
          tr_latency = rs_latency st, tr_heartbeats = cw_heartbeats w,
          tr_interval = (case rs_interval st of Some i \<Rightarrow> i | None \<Rightarrow> 0),
          tr_quiet = (if cw_quiet w = 0 \<and> timed_out \<and> stdout = [] \<and> stderr = []
                      then rq_timeout (rs_request st) else cw_quiet w),
          tr_mode = rs_mode st\<rparr>)"

definition result_of ::
  "process_env \<Rightarrow> run_state \<Rightarrow> py_output \<Rightarrow> py_output \<Rightarrow> bool \<Rightarrow> string \<Rightarrow> string \<Rightarrow> string \<Rightarrow> timed_result act" where
  "result_of e st out err timed_out reason sent final =
     look (result_from_completed_process e st out err timed_out reason sent final)"

definition completed_run_result :: "process_env \<Rightarrow> run_state \<Rightarrow> py_output \<Rightarrow> py_output \<Rightarrow> string \<Rightarrow> timed_result act" where
  "completed_run_result e st out err final = result_of e st out err False ''completed'' ''none'' final"

subsection \<open>Waiting with heartbeats\<close>

text \<open>
  \<open>while next_heartbeat_at <= now: next_heartbeat_at += heartbeat_interval_seconds\<close>.  A validated
  interval is at least one second, the guard is the reason the loop ends.
\<close>

function next_heartbeat :: "int \<Rightarrow> real \<Rightarrow> real \<Rightarrow> real" where
  "next_heartbeat interval now next_at =
     (if 1 \<le> interval \<and> next_at \<le> now then next_heartbeat interval now (next_at + of_int interval) else next_at)"
  by pat_completeness auto

termination
proof (relation "measure (\<lambda>(interval, now, next_at). nat (\<lfloor>now - next_at\<rfloor> + 1))", goal_cases)
  case (2 interval now next_at)
  then have "\<lfloor>now - (next_at + of_int interval)\<rfloor> + 1 \<le> \<lfloor>now - next_at\<rfloor>"
    by linarith
  moreover have "0 \<le> \<lfloor>now - next_at\<rfloor>"
    using 2 by simp
  ultimately show ?case
    by simp
qed simp

declare next_heartbeat.simps [simp del]

definition whole_seconds :: "real \<Rightarrow> int" where
  "whole_seconds x = \<lfloor>max 0 x\<rfloor>"

text \<open>A heartbeat is counted and reported; its callback is the caller's.\<close>

definition beat :: "process_env \<Rightarrow> backend \<Rightarrow> real \<Rightarrow> real \<Rightarrow> real \<Rightarrow> unit act" where
  "beat e b grace begun now =
     seq (change (\<lambda>w. w\<lparr>cw_heartbeats := Suc (cw_heartbeats w), cw_quiet := whole_seconds (now - begun)\<rparr>)) (\<lambda>_.
     seq (look cw_heartbeats) (\<lambda>k.
       ask_main e b grace (Heartbeat k (now - begun) (whole_seconds (now - begun)))
         (\<lambda>t. from_option (pe_heartbeat e t))))"

definition beat_if_due :: "process_env \<Rightarrow> backend \<Rightarrow> real \<Rightarrow> int \<Rightarrow> real \<Rightarrow> real \<Rightarrow> real \<Rightarrow> real act" where
  "beat_if_due e b grace interval begun now next_at =
     (if next_at \<le> now
      then seq (beat e b grace begun now) (\<lambda>_. ret (next_heartbeat interval now next_at))
      else ret next_at)"

definition heartbeat_wait :: "int \<Rightarrow> real \<Rightarrow> real \<Rightarrow> real \<Rightarrow> real" where
  "heartbeat_wait interval remaining now next_at =
     (let w = min remaining (max 0 (next_at - now))
      in if w \<le> 0 then min remaining (of_int interval) else w)"

text \<open>One \<open>communicate\<close> of the loop: its output with the quiet seconds noted, or none in time.\<close>

definition quiet_output :: "process_env \<Rightarrow> backend \<Rightarrow> real \<Rightarrow> real \<Rightarrow> (py_output \<times> py_output) \<Rightarrow> (py_output \<times> py_output) act" where
  "quiet_output e b grace begun r =
     (if normalize_output (fst r) = [] \<and> normalize_output (snd r) = []
      then seq (monotonic e b grace) (\<lambda>now. seq (change (\<lambda>w. w\<lparr>cw_quiet := whole_seconds (now - begun)\<rparr>)) (\<lambda>_. ret r))
      else ret r)"

fun heartbeat_loop ::
  "process_env \<Rightarrow> backend \<Rightarrow> real \<Rightarrow> int \<Rightarrow> real \<Rightarrow> real \<Rightarrow> nat \<Rightarrow> real \<Rightarrow> string option \<Rightarrow> (py_output \<times> py_output) act" where
  "heartbeat_loop e b grace interval begun deadline 0 next_at input = (\<lambda>w. (Running, w))"
| "heartbeat_loop e b grace interval begun deadline (Suc n) next_at input =
     seq (monotonic e b grace) (\<lambda>now.
       if deadline - now \<le> 0 then fail (TimeoutExpired NoOutput NoOutput)
       else on_timeout
         (seq (communicate e b grace input (heartbeat_wait interval (deadline - now) now next_at))
            (quiet_output e b grace begun))
         (\<lambda>out err. seq (monotonic e b grace) (\<lambda>now'.
            seq (beat_if_due e b grace interval begun now' next_at) (\<lambda>next_at'.
              if deadline \<le> now' then fail (TimeoutExpired out err)
              else heartbeat_loop e b grace interval begun deadline n next_at' None))))"

definition communicate_with_optional_heartbeats ::
  "process_env \<Rightarrow> run_state \<Rightarrow> nat \<Rightarrow> (py_output \<times> py_output) act" where
  "communicate_with_optional_heartbeats e st fuel =
     (let q = rs_request st; b = rs_backend st; grace = rq_grace q
      in case rs_interval st of
           Some interval \<Rightarrow>
             if rq_callback q
             then seq (monotonic e b grace) (\<lambda>begun.
                    heartbeat_loop e b grace interval begun (begun + of_int (rq_timeout q)) fuel
                      (begun + of_int interval) (rq_input q))
             else communicate e b grace (rq_input q) (of_int (rq_timeout q))
         | None \<Rightarrow> communicate e b grace (rq_input q) (of_int (rq_timeout q)))"

subsection \<open>When the time is up\<close>

definition ready_output :: "process_env \<Rightarrow> backend \<Rightarrow> real \<Rightarrow> (py_output \<times> py_output) option act" where
  "ready_output e b grace =
     on_timeout (seq (communicate e b grace None 0) (\<lambda>r. ret (Some r))) (\<lambda>_ _. ret None)"

text \<open>Kill after the grace period and drain once more; what was collected is the evidence left.\<close>

definition kill_and_drain :: "process_env \<Rightarrow> backend \<Rightarrow> real \<Rightarrow> string \<Rightarrow> (py_output \<times> py_output \<times> string \<times> string) act" where
  "kill_and_drain e b grace sent =
     seq (send_signal e b grace (kill_signal e)) (\<lambda>killed.
       let sent' = (if killed \<noteq> ''none'' then killed else sent)
       in on_timeout
            (seq (communicate e b grace None grace) (\<lambda>(out, err). ret (out, err, sent', ''drain_after_kill'')))
            (\<lambda>out err. ret (TextOutput (normalize_output out), TextOutput (normalize_output err), sent',
                            ''output_drain_timeout'')))"

definition after_grace :: "process_env \<Rightarrow> backend \<Rightarrow> real \<Rightarrow> string \<Rightarrow> (py_output \<times> py_output \<times> string \<times> string) act" where
  "after_grace e b grace sent =
     seq (poll_returncode e b grace) (\<lambda>rc.
       if rc = None then kill_and_drain e b grace sent
       else seq (ready_output e b grace) (\<lambda>ready. case ready of
              Some (out, err) \<Rightarrow> ret (out, err, sent, ''poll_after_grace'')
            | None \<Rightarrow> kill_and_drain e b grace sent))"

definition terminate_process :: "process_env \<Rightarrow> backend \<Rightarrow> real \<Rightarrow> (py_output \<times> py_output \<times> string \<times> string) act" where
  "terminate_process e b grace =
     seq (send_signal e b grace SIGTERM) (\<lambda>sent.
       on_timeout
         (seq (communicate e b grace None grace) (\<lambda>(out, err). ret (out, err, sent, ''drain_after_signal'')))
         (\<lambda>_ _. after_grace e b grace sent))"

text \<open>The second look: a process that has ended since is drained if its pipes are closed.\<close>

definition recheck_process :: "process_env \<Rightarrow> backend \<Rightarrow> real \<Rightarrow> (py_output \<times> py_output \<times> string \<times> string) act" where
  "recheck_process e b grace =
     seq (poll_returncode e b grace) (\<lambda>rc.
       if rc = None then terminate_process e b grace
       else seq (ready_output e b grace) (\<lambda>ready. case ready of
              Some (out, err) \<Rightarrow> ret (out, err, ''none'', ''poll_before_signal'')
            | None \<Rightarrow> terminate_process e b grace))"

definition finalize_timed_out_process :: "process_env \<Rightarrow> backend \<Rightarrow> real \<Rightarrow> (py_output \<times> py_output \<times> string \<times> string) act" where
  "finalize_timed_out_process e b grace =
     seq (poll_returncode e b grace) (\<lambda>rc.
     seq (ready_output e b grace) (\<lambda>ready. case ready of
         Some (out, err) \<Rightarrow>
           ret (out, err, ''none'', if rc \<noteq> None then ''poll_before_signal'' else ''signal_race_recovered'')
       | None \<Rightarrow> if rc = None then recheck_process e b grace else terminate_process e b grace))"

definition timeout_termination_reason :: "bool \<Rightarrow> string \<Rightarrow> py_output \<Rightarrow> py_output \<Rightarrow> real \<Rightarrow> int \<Rightarrow> string" where
  "timeout_termination_reason timed_out final out err latency timeout =
     (if \<not> timed_out then if final = ''signal_race_recovered'' then ''signal_race_recovered'' else ''completed''
      else if latency \<ge> of_int timeout then ''startup_timeout''
      else if normalize_output out \<noteq> [] \<or> normalize_output err \<noteq> [] then ''timeout_after_output''
      else ''execution_timeout'')"

definition finalized_run_result :: "process_env \<Rightarrow> run_state \<Rightarrow> timed_result act" where
  "finalized_run_result e st =
     seq (finalize_timed_out_process e (rs_backend st) (rq_grace (rs_request st))) (\<lambda>(out, err, sent, final).
       let timed_out = (final \<notin> set TIMEOUT_RECOVERY_STATES)
       in result_of e st out err timed_out
            (timeout_termination_reason timed_out final out err (rs_latency st) (rq_timeout (rs_request st)))
            sent final)"

definition timeout_expired_run_result :: "process_env \<Rightarrow> run_state \<Rightarrow> timed_result act" where
  "timeout_expired_run_result e st =
     (let b = rs_backend st; grace = rq_grace (rs_request st)
      in seq (poll_returncode e b grace) (\<lambda>rc.
           if rc = None then finalized_run_result e st
           else seq (ready_output e b grace) (\<lambda>ready. case ready of
                  Some (out, err) \<Rightarrow> completed_run_result e st out err ''poll_before_signal''
                | None \<Rightarrow> finalized_run_result e st)))"

definition communicate_run_with_timeout :: "process_env \<Rightarrow> run_state \<Rightarrow> nat \<Rightarrow> timed_result act" where
  "communicate_run_with_timeout e st fuel =
     on_timeout
       (seq (communicate_with_optional_heartbeats e st fuel) (\<lambda>(out, err).
          completed_run_result e st out err ''communicate''))
       (\<lambda>_ _. timeout_expired_run_result e st)"

subsection \<open>Starting, supervising and restoring\<close>

definition state_of_request :: "process_env \<Rightarrow> run_request \<Rightarrow> real \<Rightarrow> run_state" where
  "state_of_request e q latency =
     \<lparr>rs_request = q,
      rs_argv = (if rq_hermetic q then python_minus_s_command (rq_argv q) else rq_argv q),
      rs_backend = (case rq_backend q of Some b \<Rightarrow> b | None \<Rightarrow> default_backend e),
      rs_interval = (if rq_callback q \<and> rq_interval q = None then Some (rq_timeout q) else rq_interval q),
      rs_latency = latency,
      rs_mode = (if rq_callback q then ''process_heartbeat'' else ''communicate'')\<rparr>"

definition start_call :: "process_env \<Rightarrow> run_request \<Rightarrow> call" where
  "start_call e q = (let st = state_of_request e q 0
     in Start (rs_argv st) (if rq_hermetic q then Some (clean_subprocess_env e (rq_env q)) else rq_env q)
          (start_new_session (rs_backend st)))"

definition start_run_with_timeout :: "process_env \<Rightarrow> run_request \<Rightarrow> run_state act" where
  "start_run_with_timeout e q =
     (let b = rs_backend (state_of_request e q 0); grace = rq_grace q
      in seq (monotonic e b grace) (\<lambda>launch_start.
         seq (ask_main e b grace (start_call e q) (\<lambda>t. from_option (pe_start e t))) (\<lambda>_.
         on_error
           (seq (monotonic e b grace) (\<lambda>now. ret (state_of_request e q (now - launch_start))))
           (\<lambda>x. seq (cleanup_process_after_error e b grace) (\<lambda>_. fail x)))))"

text \<open>Installing one handler; a refusal leaves the signal alone.\<close>

definition install_handler :: "process_env \<Rightarrow> backend \<Rightarrow> real \<Rightarrow> signal_value \<Rightarrow> unit act" where
  "install_handler e b grace sg =
     on_these os_or_value_error
       (seq (ask_main e b grace (Install sg) (\<lambda>t. from_sum (pe_install e t))) (\<lambda>p.
          change (\<lambda>w. w\<lparr>cw_handlers := cw_handlers w @ [(sg, p)], cw_installed := sg # cw_installed w\<rparr>)))
       (ret ())"

text \<open>
  Restoring one handler: \<open>signal.signal(signum, None)\<close> raises a \<open>TypeError\<close>; \<open>OSError\<close> and
  \<open>ValueError\<close> are passed over.
\<close>

definition restore_handler :: "process_env \<Rightarrow> backend \<Rightarrow> real \<Rightarrow> signal_value \<times> previous_handler \<Rightarrow> unit act" where
  "restore_handler e b grace h =
     on_these os_or_value_error
       (seq (ask_main e b grace (Restore (fst h))
               (\<lambda>t. if snd h = ForeignHandler then Raised (OtherError ''TypeError'')
                    else from_option (pe_restore e t))) (\<lambda>_.
          change (\<lambda>w. w\<lparr>cw_installed := removeAll (fst h) (cw_installed w)\<rparr>)))
       (ret ())"

fun restore_each :: "process_env \<Rightarrow> backend \<Rightarrow> real \<Rightarrow> (signal_value \<times> previous_handler) list \<Rightarrow> unit act" where
  "restore_each e b grace [] = ret ()"
| "restore_each e b grace (h # hs) = seq (restore_handler e b grace h) (\<lambda>_. restore_each e b grace hs)"

definition restore_handlers :: "process_env \<Rightarrow> backend \<Rightarrow> real \<Rightarrow> unit act" where
  "restore_handlers e b grace = seq (look cw_handlers) (restore_each e b grace)"

definition install_parent_signal_cleanup :: "process_env \<Rightarrow> backend \<Rightarrow> real \<Rightarrow> unit act" where
  "install_parent_signal_cleanup e b grace =
     on_error
       (seq (install_handler e b grace SIGTERM) (\<lambda>_. install_handler e b grace SIGINT))
       (\<lambda>x. seq (restore_handlers e b grace) (\<lambda>_. fail x))"

text \<open>
  The supervised part: whatever is raised, the child is cleaned up unless a handler has tried to; the
  handlers are restored last, if installing them succeeded.
\<close>

definition cleanup_unless_attempted :: "process_env \<Rightarrow> run_state \<Rightarrow> command_exc \<Rightarrow> 'a act" where
  "cleanup_unless_attempted e st x =
     seq (look cw_attempted) (\<lambda>attempted.
       if attempted then fail x
       else seq (cleanup_process_after_error e (rs_backend st) (rq_grace (rs_request st))) (\<lambda>_. fail x))"

definition supervise :: "process_env \<Rightarrow> run_state \<Rightarrow> nat \<Rightarrow> timed_result act" where
  "supervise e st fuel =
     (let b = rs_backend st; grace = rq_grace (rs_request st)
      in seq (on_error (install_parent_signal_cleanup e b grace) (cleanup_unless_attempted e st)) (\<lambda>_.
         finally_do
           (on_error (communicate_run_with_timeout e st fuel) (cleanup_unless_attempted e st))
           (restore_handlers e b grace)))"

definition run_with_timeout_request :: "process_env \<Rightarrow> nat \<Rightarrow> run_request \<Rightarrow> timed_result act" where
  "run_with_timeout_request e fuel q =
     (case validate_run_with_timeout_request q of
        Some x \<Rightarrow> fail x
      | None \<Rightarrow> seq (start_run_with_timeout e q) (\<lambda>st. supervise e st fuel))"

definition fresh_world :: command_world where
  "fresh_world = \<lparr>cw_calls = [], cw_handlers = [], cw_installed = [], cw_attempted = False,
     cw_heartbeats = 0, cw_quiet = 0\<rparr>"

end
