(* ===== verification/CommandLogic.thy ===== *)
theory CommandLogic
  imports CommandRuntime
begin

section \<open>Reasoning about supervised commands\<close>

text \<open>
  Triples for the effects of \<open>CommandRuntime\<close>: assertions before an action, after its value and after its
  exception, with one rule per construct, and the locales that say which assertions the operations of the
  supervisor keep.
\<close>

subsection \<open>Reasoning about effects\<close>

text \<open>
  What holds after an action: one assertion for its value, one for its exception.  Running out of fuel
  is the concern of \<open>ends\<close>.
\<close>

definition triple ::
  "(command_world \<Rightarrow> bool) \<Rightarrow> 'a act \<Rightarrow> ('a \<Rightarrow> command_world \<Rightarrow> bool) \<Rightarrow> (command_exc \<Rightarrow> command_world \<Rightarrow> bool) \<Rightarrow> bool" where
  "triple P m Q X \<longleftrightarrow> (\<forall>w. P w \<longrightarrow> (case m w of
      (Returned a, w') \<Rightarrow> Q a w' | (Raised x, w') \<Rightarrow> X x w' | (Running, _) \<Rightarrow> True))"

named_theorems act_rules "rules of the triples of supervised actions"

lemma tripleI:
  assumes "\<And>w a w'. P w \<Longrightarrow> m w = (Returned a, w') \<Longrightarrow> Q a w'"
    and "\<And>w x w'. P w \<Longrightarrow> m w = (Raised x, w') \<Longrightarrow> X x w'"
  shows "triple P m Q X"
  using assms unfolding triple_def by (auto split: prod.splits outcome.splits)

lemma triple_returned: "triple P m Q X \<Longrightarrow> P w \<Longrightarrow> m w = (Returned a, w') \<Longrightarrow> Q a w'"
  unfolding triple_def by fastforce

lemma triple_raised: "triple P m Q X \<Longrightarrow> P w \<Longrightarrow> m w = (Raised x, w') \<Longrightarrow> X x w'"
  unfolding triple_def by fastforce

lemma triple_conseq:
  assumes "triple P m Q X" and "\<And>w. P' w \<Longrightarrow> P w"
    and "\<And>a w. Q a w \<Longrightarrow> Q' a w" and "\<And>x w. X x w \<Longrightarrow> X' x w"
  shows "triple P' m Q' X'"
  using assms unfolding triple_def by (fastforce split: prod.splits outcome.splits)

lemma triple_ret: "(\<And>w. P w \<Longrightarrow> Q a w) \<Longrightarrow> triple P (ret a) Q X"
  by (simp add: triple_def ret_def)

lemma triple_fail: "(\<And>w. P w \<Longrightarrow> X x w) \<Longrightarrow> triple P (fail x) Q X"
  by (simp add: triple_def fail_def)

lemma triple_seq:
  assumes "triple P m R X" and "\<And>a. triple (R a) (f a) Q X"
  shows "triple P (seq m f) Q X"
  using assms unfolding triple_def seq_def by (fastforce split: prod.splits outcome.splits)

lemma triple_on_error:
  assumes "triple P m Q Y" and "\<And>x. triple (Y x) (h x) Q X"
  shows "triple P (on_error m h) Q X"
  using assms unfolding triple_def on_error_def by (fastforce split: prod.splits outcome.splits)

lemma triple_on_timeout:
  assumes "triple P m Q Y" and "\<And>out err. triple (Y (TimeoutExpired out err)) (h out err) Q X"
    and "\<And>x w. Y x w \<Longrightarrow> (\<And>out err. x \<noteq> TimeoutExpired out err) \<Longrightarrow> X x w"
  shows "triple P (on_timeout m h) Q X"
  unfolding on_timeout_def
  by (rule triple_on_error [OF assms(1)])
    (auto split: command_exc.splits intro!: assms(2) triple_fail intro: assms(3))

lemma triple_on_these:
  assumes "triple P m Q Y" and "\<And>x. caught x \<Longrightarrow> triple (Y x) h Q X"
    and "\<And>x w. Y x w \<Longrightarrow> \<not> caught x \<Longrightarrow> X x w"
  shows "triple P (on_these caught m h) Q X"
  unfolding on_these_def
  by (rule triple_on_error [OF assms(1)]) (auto intro!: assms(2) triple_fail intro: assms(3))

lemma triple_look: "(\<And>w. P w \<Longrightarrow> Q (g w) w) \<Longrightarrow> triple P (look g) Q X"
  by (simp add: triple_def look_def)

lemma triple_change: "(\<And>w. P w \<Longrightarrow> Q () (g w)) \<Longrightarrow> triple P (change g) Q X"
  by (simp add: triple_def change_def)

lemma triple_finally:
  assumes "triple P m Q' X'" and "\<And>a. triple (Q' a) c (\<lambda>_. Q a) X" and "\<And>x. triple (X' x) c (\<lambda>_. X x) X"
  shows "triple P (finally_do m c) Q X"
proof (rule tripleI)
  fix w a w' assume p: "P w" and "finally_do m c w = (Returned a, w')"
  then obtain w1 where "m w = (Returned a, w1)" "c w1 = (Returned (), w')"
    by (auto simp: finally_do_def split: prod.splits outcome.splits)
  then show "Q a w'"
    using triple_returned [OF assms(1) p] triple_returned [OF assms(2)] by blast
next
  fix w x w' assume p: "P w" and r: "finally_do m c w = (Raised x, w')"
  obtain o1 w1 where m: "m w = (o1, w1)"
    by force
  show "X x w'"
  proof (cases o1)
    case (Returned a)
    then have "c w1 = (Raised x, w')"
      using r m by (auto simp: finally_do_def split: prod.splits outcome.splits)
    then show ?thesis
      using triple_raised [OF assms(2)] triple_returned [OF assms(1) p] m Returned by blast
  next
    case (Raised y)
    then consider "c w1 = (Raised x, w')" | "x = y" "c w1 = (Returned (), w')"
      using r m by (auto simp: finally_do_def split: prod.splits outcome.splits)
    then show ?thesis
      using triple_raised [OF assms(3)] triple_returned [OF assms(3)] triple_raised [OF assms(1) p] m Raised
      by cases blast+
  next
    case Running
    then show ?thesis
      using r m by (simp add: finally_do_def)
  qed
qed

lemma triple_ask:
  assumes "\<And>w. P w \<Longrightarrow> (case answer (cw_calls w @ [c]) of
      Returned a \<Rightarrow> Q a (w\<lparr>cw_calls := cw_calls w @ [c]\<rparr>)
    | Raised x \<Rightarrow> X x (w\<lparr>cw_calls := cw_calls w @ [c]\<rparr>) | Running \<Rightarrow> True)"
  shows "triple P (ask c answer) Q X"
  using assms by (fastforce simp: triple_def ask_def Let_def split: outcome.splits)

lemma triple_if:
  "(b \<Longrightarrow> triple P m Q X) \<Longrightarrow> (\<not> b \<Longrightarrow> triple P m' Q X) \<Longrightarrow> triple P (if b then m else m') Q X"
  by simp

lemma triple_conj:
  "triple P m Q X \<Longrightarrow> triple P' m Q' X' \<Longrightarrow>
   triple (\<lambda>w. P w \<and> P' w) m (\<lambda>a w. Q a w \<and> Q' a w) (\<lambda>x w. X x w \<and> X' x w)"
  unfolding triple_def by (fastforce split: prod.splits outcome.splits)

lemma triple_true: "triple P m (\<lambda>_ _. True) (\<lambda>_ _. True)"
  unfolding triple_def by (auto split: prod.splits outcome.splits)

lemma triple_option:
  "triple P m Q X \<Longrightarrow> (\<And>x. triple P (f x) Q X) \<Longrightarrow>
   triple P (case r of None \<Rightarrow> m | Some x \<Rightarrow> f x) Q X"
  by (cases r) simp_all

lemma from_sum_value: "from_sum r = Returned a \<longleftrightarrow> r = Inr a"
  by (cases r) (simp_all add: from_sum_def)

text \<open>The value of a call of the main line is an answer of the environment.\<close>

lemma ask_main_value:
  assumes "ask_main e b grace c answer w = (Returned a, w')"
  shows "\<exists>u. cw_calls w' = u @ [c] \<and> answer (u @ [c]) = Returned a"
  using assms
  by (auto simp: ask_main_def seq_def look_def ask_def Let_def split: prod.splits outcome.splits option.splits)

text \<open>A call of the main line: the handler of an arriving signal runs before its answer.\<close>

lemma triple_ask_main:
  assumes "triple P (ask c answer) Q X"
    and "\<And>w sg. P w \<Longrightarrow> R (w\<lparr>cw_calls := cw_calls w @ [Arrival sg]\<rparr>)"
    and "\<And>sg. triple R (cleanup_then_forward e b grace sg) (\<lambda>_. P) X"
  shows "triple P (ask_main e b grace c answer) Q X"
  unfolding ask_main_def
proof (rule triple_seq [OF triple_look [where Q = "\<lambda>_. P"]])
  have "triple P (seq (ask (Arrival sg) (\<lambda>_. Returned ()))
      (\<lambda>_. seq (cleanup_then_forward e b grace sg) (\<lambda>_. ask c answer))) Q X" for sg
    by (rule triple_seq [where R = "\<lambda>_. R"], rule triple_ask, simp add: assms(2),
        rule triple_seq [OF assms(3) assms(1)])
  then show "triple P (case arrived of None \<Rightarrow> ask c answer
      | Some sg \<Rightarrow> seq (ask (Arrival sg) (\<lambda>_. Returned ()))
          (\<lambda>_. seq (cleanup_then_forward e b grace sg) (\<lambda>_. ask c answer))) Q X" for arrived
    using assms(1) by (cases arrived) simp_all
qed

lemma triple_then_fail: "triple P m (\<lambda>_. X x) X \<Longrightarrow> triple P (seq m (\<lambda>_. fail x)) Q X"
  by (rule triple_seq) (auto intro: triple_fail)

lemma seq_Returned: "m w = (Returned a, w') \<Longrightarrow> seq m f w = f a w'"
  by (simp add: seq_def)

lemma triple_const: "triple (\<lambda>_. A) m (\<lambda>_ _. A) (\<lambda>_ _. True)"
  unfolding triple_def by (auto split: prod.splits outcome.splits)

subsection \<open>Assertions that survive the calls\<close>

fun is_cleanup_error :: "command_exc \<Rightarrow> bool" where
  "is_cleanup_error (ProcessCleanupError _) = True"
| "is_cleanup_error _ = False"

definition guards ::
  "(command_world \<Rightarrow> bool) \<Rightarrow> (command_exc \<Rightarrow> command_world \<Rightarrow> bool) \<Rightarrow> 'a act \<Rightarrow> bool" where
  "guards I X m \<longleftrightarrow> triple I m (\<lambda>_. I) X"

lemma guards_ret [act_rules]: "guards I X (ret a)"
  unfolding guards_def by (rule triple_ret)

lemma guards_seq [act_rules]: "guards I X m \<Longrightarrow> (\<And>a. guards I X (f a)) \<Longrightarrow> guards I X (seq m f)"
  unfolding guards_def by (rule triple_seq)

lemma guards_if [act_rules]: "guards I X m \<Longrightarrow> guards I X m' \<Longrightarrow> guards I X (if b then m else m')"
  by simp

lemma guards_option [act_rules]:
  "guards I X m \<Longrightarrow> (\<And>x. guards I X (f x)) \<Longrightarrow> guards I X (case r of None \<Rightarrow> m | Some x \<Rightarrow> f x)"
  by (cases r) simp_all

lemma guards_pair [act_rules]: "(\<And>x y. guards I X (f x y)) \<Longrightarrow> guards I X (case p of (x, y) \<Rightarrow> f x y)"
  by (cases p) simp

lemma guards_look [act_rules]: "guards I X (look g)"
  unfolding guards_def by (rule triple_look)

lemma guards_change: "(\<And>w. I w \<Longrightarrow> I (g w)) \<Longrightarrow> guards I X (change g)"
  unfolding guards_def by (rule triple_change)

lemma guards_answer:
  assumes "guards I X (ask_main e b grace c (\<lambda>t. from_sum (f t)))"
  shows "triple I (ask_main e b grace c (\<lambda>t. from_sum (f t))) (\<lambda>p w. I w \<and> (\<exists>t. f t = Inr p)) X"
proof (rule tripleI)
  fix w p w' assume "I w" and r: "ask_main e b grace c (\<lambda>t. from_sum (f t)) w = (Returned p, w')"
  then show "I w' \<and> (\<exists>t. f t = Inr p)"
    using ask_main_value [OF r] triple_returned [OF assms [unfolded guards_def]]
    by (metis from_sum_value)
qed (use assms triple_raised in \<open>unfold guards_def, blast\<close>)

text \<open>
  An assertion on the supervisor's world, with what an exception leaves: an exception may be raised where
  it holds, and it holds again where one is caught, unless that one reports a failed cleanup.
\<close>

locale supervised =
  fixes e :: process_env
    and I :: "command_world \<Rightarrow> bool"
    and X :: "command_exc \<Rightarrow> command_world \<Rightarrow> bool"
  assumes raising: "I w \<Longrightarrow> X x w"
    and recovering: "X x w \<Longrightarrow> \<not> is_cleanup_error x \<Longrightarrow> I w"
    and calling: "I w \<Longrightarrow> I (w\<lparr>cw_calls := cw_calls w @ [c]\<rparr>)"
    and handling: "guards I X (cleanup_then_forward e b grace sg)"
begin

lemma fail_guards [act_rules]: "guards I X (fail x)"
  unfolding guards_def by (rule triple_fail) (rule raising)

lemma on_timeout_guards [act_rules]:
  assumes "guards I X m" and "\<And>out err. guards I X (h out err)"
  shows "guards I X (on_timeout m h)"
  unfolding guards_def
proof (rule triple_on_timeout [OF assms(1) [unfolded guards_def]])
  show "triple (X (TimeoutExpired out err)) (h out err) (\<lambda>_. I) X" for out err
    by (rule triple_conseq [OF assms(2) [unfolded guards_def]]) (auto dest: recovering)
qed

lemma on_these_guards:
  assumes "guards I X m" and "guards I X h" and "\<And>x. caught x \<Longrightarrow> \<not> is_cleanup_error x"
  shows "guards I X (on_these caught m h)"
  unfolding guards_def
proof (rule triple_on_these [OF assms(1) [unfolded guards_def]])
  show "triple (X x) h (\<lambda>_. I) X" if "caught x" for x
    by (rule triple_conseq [OF assms(2) [unfolded guards_def]]) (use that assms(3) in \<open>auto dest: recovering\<close>)
qed

lemma on_lookup_guards [act_rules]:
  "guards I X m \<Longrightarrow> guards I X h \<Longrightarrow> guards I X (on_these (\<lambda>x. x = ProcessLookupError) m h)"
  by (rule on_these_guards) auto

lemma ask_guards [act_rules]: "guards I X (ask c answer)"
  unfolding guards_def by (rule triple_ask) (auto split: outcome.splits intro: calling raising)

lemma ask_main_guards [act_rules]: "guards I X (ask_main e b grace c answer)"
  unfolding ask_main_def by (intro act_rules handling)

lemma send_signal_guards [act_rules]: "guards I X (send_signal e b grace sg)"
  unfolding send_signal_def send_signal_with_def by (intro act_rules)

lemma communicate_guards [act_rules]: "guards I X (communicate e b grace input s)"
  unfolding communicate_def by (intro act_rules)

lemma monotonic_guards [act_rules]: "guards I X (monotonic e b grace)"
  unfolding monotonic_def by (intro act_rules)

lemma poll_guards [act_rules]: "guards I X (poll_returncode e b grace)"
  unfolding poll_returncode_def by (intro act_rules)

lemma ready_guards [act_rules]: "guards I X (ready_output e b grace)"
  unfolding ready_output_def by (intro act_rules)

lemma finalize_guards [act_rules]: "guards I X (finalize_timed_out_process e b grace)"
  unfolding finalize_timed_out_process_def recheck_process_def terminate_process_def after_grace_def
    kill_and_drain_def Let_def
  by (intro act_rules)

lemma expired_guards [act_rules]: "guards I X (timeout_expired_run_result e st)"
  unfolding timeout_expired_run_result_def finalized_run_result_def completed_run_result_def
    result_of_def Let_def
  by (intro act_rules)

end

locale supervised_beats = supervised +
  assumes beating: "I w \<Longrightarrow> I (w\<lparr>cw_heartbeats := n, cw_quiet := s\<rparr>)"
    and quieting: "I w \<Longrightarrow> I (w\<lparr>cw_quiet := s\<rparr>)"
begin

lemma quiet_output_guards [act_rules]: "guards I X (quiet_output e b grace begun r)"
  unfolding quiet_output_def by (intro act_rules guards_change quieting)

lemma beat_guards [act_rules]: "guards I X (beat_if_due e b grace interval begun now next_at)"
  unfolding beat_if_due_def beat_def by (intro act_rules guards_change beating)

lemma running_guards: "guards I X (\<lambda>w. (Running, w))"
  by (simp add: guards_def triple_def)

lemma loop_guards [act_rules]: "guards I X (heartbeat_loop e b grace interval begun deadline n next_at input)"
  by (induction n arbitrary: next_at input) (simp_all add: running_guards, intro act_rules, assumption)

lemma run_guards [act_rules]: "guards I X (communicate_run_with_timeout e st fuel)"
  unfolding communicate_run_with_timeout_def communicate_with_optional_heartbeats_def
    completed_run_result_def result_of_def Let_def
  by (intro act_rules)

end

lemma on_error_lasts:
  "guards I (\<lambda>_. I) m \<Longrightarrow> (\<And>x. guards I (\<lambda>_. I) (h x)) \<Longrightarrow> guards I (\<lambda>_. I) (on_error m h)"
  unfolding guards_def by (rule triple_on_error)

lemma on_these_lasts:
  "guards I (\<lambda>_. I) m \<Longrightarrow> guards I (\<lambda>_. I) h \<Longrightarrow> guards I (\<lambda>_. I) (on_these caught m h)"
  unfolding guards_def by (rule triple_on_these)

lemma finally_lasts:
  "guards I (\<lambda>_. I) m \<Longrightarrow> guards I (\<lambda>_. I) c \<Longrightarrow> guards I (\<lambda>_. I) (finally_do m c)"
  unfolding guards_def by (rule triple_finally)

lemma fail_lasts: "guards I (\<lambda>_. I) (fail x)"
  unfolding guards_def by (rule triple_fail)


text \<open>
  An assertion about what has happened so far: nothing the supervisor does takes it back, so that it also
  survives every exception.
\<close>

locale lasting_assertion =
  fixes e :: process_env
    and I :: "command_world \<Rightarrow> bool"
  assumes call_lasts: "I w \<Longrightarrow> I (w\<lparr>cw_calls := cw_calls w @ [c]\<rparr>)"
    and attempt_lasts: "I w \<Longrightarrow> I (w\<lparr>cw_attempted := True\<rparr>)"
    and handlers_last: "I w \<Longrightarrow> pe_install e t = Inr p \<Longrightarrow>
      I (w\<lparr>cw_handlers := cw_handlers w @ [(sg, p)], cw_installed := sg # cw_installed w\<rparr>)"
    and installed_lasts: "I w \<Longrightarrow> I (w\<lparr>cw_installed := ss\<rparr>)"
begin

lemma ask_lasts: "guards I (\<lambda>_. I) (ask c answer)"
  unfolding guards_def by (rule triple_ask) (auto split: outcome.splits intro: call_lasts)

lemma cleanup_with_lasts:
  "(\<And>c answer. guards I (\<lambda>_. I) (call_unit c answer)) \<Longrightarrow>
   (\<And>c answer. guards I (\<lambda>_. I) (call_output c answer)) \<Longrightarrow>
   guards I (\<lambda>_. I) (cleanup_with call_unit call_output e b grace)"
  unfolding cleanup_with_def attempt_step_def send_signal_with_def
  by (intro act_rules on_error_lasts on_these_lasts fail_lasts)

lemma handler_lasts: "guards I (\<lambda>_. I) (cleanup_then_forward e b grace sg)"
  unfolding cleanup_then_forward_def
  by (intro act_rules guards_change attempt_lasts cleanup_with_lasts ask_lasts fail_lasts)

end

sublocale lasting_assertion \<subseteq> supervised e I "\<lambda>_. I"
  by unfold_locales (auto intro: call_lasts handler_lasts)

context lasting_assertion
begin

lemma cleanup_lasts [act_rules]: "guards I (\<lambda>_. I) (cleanup_process_after_error e b grace)"
  unfolding cleanup_process_after_error_def by (intro cleanup_with_lasts act_rules)

lemma restore_handler_lasts: "guards I (\<lambda>_. I) (restore_handler e b grace h)"
  unfolding restore_handler_def by (intro act_rules on_these_lasts guards_change installed_lasts)

lemma restore_lasts [act_rules]: "guards I (\<lambda>_. I) (restore_handlers e b grace)"
proof -
  have "guards I (\<lambda>_. I) (restore_each e b grace hs)" for hs
    by (induction hs) (auto intro!: act_rules restore_handler_lasts)
  then show ?thesis
    unfolding restore_handlers_def by (intro act_rules)
qed

lemma install_handler_lasts [act_rules]: "guards I (\<lambda>_. I) (install_handler e b grace sg)"
  unfolding install_handler_def
proof (intro on_these_lasts guards_ret)
  have "triple I (ask_main e b grace (Install sg) (\<lambda>t. from_sum (pe_install e t)))
      (\<lambda>p w. I w \<and> (\<exists>t. pe_install e t = Inr p)) (\<lambda>_. I)"
    using ask_main_guards by (rule guards_answer)
  then show "guards I (\<lambda>_. I) (seq (ask_main e b grace (Install sg) (\<lambda>t. from_sum (pe_install e t)))
      (\<lambda>p. change (\<lambda>w. w\<lparr>cw_handlers := cw_handlers w @ [(sg, p)], cw_installed := sg # cw_installed w\<rparr>)))"
    unfolding guards_def by (rule triple_seq) (auto intro!: triple_change handlers_last)
qed

lemma install_lasts [act_rules]: "guards I (\<lambda>_. I) (install_parent_signal_cleanup e b grace)"
  unfolding install_parent_signal_cleanup_def by (intro act_rules on_error_lasts)

lemma cleanup_unless_lasts [act_rules]: "guards I (\<lambda>_. I) (cleanup_unless_attempted e st x)"
  unfolding cleanup_unless_attempted_def by (intro act_rules)

lemma start_lasts [act_rules]: "guards I (\<lambda>_. I) (start_run_with_timeout e q)"
  unfolding start_run_with_timeout_def Let_def by (intro act_rules on_error_lasts)

lemma supervise_lasts:
  "guards I (\<lambda>_. I) (communicate_run_with_timeout e st fuel) \<Longrightarrow> guards I (\<lambda>_. I) (supervise e st fuel)"
  unfolding supervise_def Let_def by (intro act_rules on_error_lasts finally_lasts)

end

end
