(* ===== verification/CommandSupervision.thy ===== *)
theory CommandSupervision
  imports CommandLogic
begin

section \<open>What a supervised command guarantees\<close>

text \<open>
  The properties of \<open>run_with_timeout\<close>: the child is not left behind by an exception, the run comes back, the
  heartbeats are bounded, and the verdict agrees with the signals sent.
\<close>

subsection \<open>No exception leaves the child behind\<close>

text \<open>Some \<open>communicate\<close> has returned: the pipes of the child are closed and it has been waited for.\<close>

definition drained :: "process_env \<Rightarrow> command_world \<Rightarrow> bool" where
  "drained e w \<longleftrightarrow> (\<exists>u i s v r. cw_calls w = u @ Communicate i s # v \<and>
     pe_communicate e (u @ [Communicate i s]) = Inr r)"

definition native :: "process_env \<Rightarrow> command_world \<Rightarrow> bool" where
  "native e w \<longleftrightarrow> ((\<forall>t. pe_install e t \<noteq> Inr ForeignHandler) \<longrightarrow> ForeignHandler \<notin> snd ` set (cw_handlers w))"

lemma drained_frame [simp]:
  "drained e (w\<lparr>cw_heartbeats := n, cw_quiet := s\<rparr>) = drained e w"
  "drained e (w\<lparr>cw_heartbeats := n\<rparr>) = drained e w"
  "drained e (w\<lparr>cw_quiet := s\<rparr>) = drained e w"
  by (simp_all add: drained_def)

interpretation drained: lasting_assertion e "drained e" for e
  by unfold_locales (auto simp: drained_def, metis append.assoc append_Cons)

interpretation native: lasting_assertion e "native e" for e
  by unfold_locales (auto simp: native_def)

definition settled :: "process_env \<Rightarrow> command_world \<Rightarrow> bool" where
  "settled e w \<longleftrightarrow> (cw_attempted w \<longrightarrow> drained e w)"

definition excused :: "process_env \<Rightarrow> command_exc \<Rightarrow> command_world \<Rightarrow> bool" where
  "excused e x w \<longleftrightarrow> is_cleanup_error x \<or> drained e w"

lemma ask_drains:
  "triple P (ask (Communicate i s) (\<lambda>t. from_sum (pe_communicate e t))) (\<lambda>_. drained e) (\<lambda>_ _. True)"
  by (rule triple_ask) (fastforce simp: drained_def from_sum_def split: outcome.splits sum.splits)

lemma communicate_drains: "triple P (communicate e b grace i s) (\<lambda>_. drained e) (\<lambda>_ _. True)"
  unfolding communicate_def ask_main_def
  by (intro triple_seq [OF triple_true] triple_option ask_drains)

lemma attempt_step_never_raises:
  assumes "triple P m (\<lambda>_. R) (\<lambda>_ _. True)"
  shows "triple P (attempt_step e what m) (\<lambda>f w. f = [] \<longrightarrow> R w) X"
  unfolding attempt_step_def
  by (rule triple_on_error [where Y = "\<lambda>_ _. True"], rule triple_seq [OF assms])
    (auto intro!: triple_ret)

lemma cleanup_with_drains:
  assumes "\<And>P. triple P (call_output (Communicate None grace) (\<lambda>t. from_sum (pe_communicate e t)))
             (\<lambda>_. drained e) (\<lambda>_ _. True)"
  shows "triple P (cleanup_with call_unit call_output e b grace) (\<lambda>_. drained e) (\<lambda>x _. is_cleanup_error x)"
  unfolding cleanup_with_def
  by (rule triple_seq [OF attempt_step_never_raises [where R = "\<lambda>_. True", OF triple_true]],
      rule triple_seq [OF attempt_step_never_raises [OF assms]])
    (auto intro!: triple_if triple_fail triple_ret)

lemma cleanup_drains:
  "triple P (cleanup_process_after_error e b grace) (\<lambda>_. drained e) (\<lambda>x _. is_cleanup_error x)"
  unfolding cleanup_process_after_error_def
  by (rule cleanup_with_drains) (rule communicate_drains [unfolded communicate_def])

lemma handler_drains: "triple P (cleanup_then_forward e b grace sg) (\<lambda>_. drained e) (excused e)"
  unfolding cleanup_then_forward_def
proof (rule triple_seq [OF triple_change], rule TrueI, rule triple_seq)
  have "triple (\<lambda>w. True) (cleanup_with ask ask e b grace) (\<lambda>_. drained e) (\<lambda>x _. is_cleanup_error x)"
    by (rule cleanup_with_drains) (rule ask_drains)
  then show "triple (\<lambda>w. True) (cleanup_with ask ask e b grace) (\<lambda>_. drained e) (excused e)"
    by (rule triple_conseq) (auto simp: excused_def)
next
  have "guards (drained e) (\<lambda>_. drained e)
     (seq (look (\<lambda>w. previous_of sg (cw_handlers w)))
       (\<lambda>p. if p = CallableHandler then ask (Forward sg) (\<lambda>t. from_option (pe_previous e t))
            else if p = SigIgn then ret () else fail (Interruption sg)))"
    by (intro act_rules drained.ask_lasts fail_lasts)
  then show "triple (drained e)
     (seq (look (\<lambda>w. previous_of sg (cw_handlers w)))
       (\<lambda>p. if p = CallableHandler then ask (Forward sg) (\<lambda>t. from_option (pe_previous e t))
            else if p = SigIgn then ret () else fail (Interruption sg)))
     (\<lambda>_. drained e) (excused e)" for a :: unit
    unfolding guards_def by (rule triple_conseq) (auto simp: excused_def)
qed

lemma drained_settled: "drained e w \<Longrightarrow> settled e w"
  by (simp add: settled_def)

interpretation settled: supervised_beats e "\<lambda>w. settled e w \<and> native e w"
  "\<lambda>x w. (is_cleanup_error x \<or> settled e w) \<and> native e w" for e
proof unfold_locales
  fix b grace sg
  show "guards (\<lambda>w. settled e w \<and> native e w) (\<lambda>x w. (is_cleanup_error x \<or> settled e w) \<and> native e w)
     (cleanup_then_forward e b grace sg)"
    unfolding guards_def
    by (rule triple_conseq [OF triple_conj [OF handler_drains [where P = "\<lambda>_. True"]
          native.handler_lasts [unfolded guards_def]]])
      (auto simp: excused_def drained_settled)
qed (auto simp: settled_def native_def intro: drained.call_lasts)


text \<open>
  Restoring is tame when no handler found was installed from outside Python and \<open>signal.signal\<close> raises
  nothing but what \<open>restore\<close> passes over.
\<close>

definition tame_handlers :: "process_env \<Rightarrow> bool" where
  "tame_handlers e \<longleftrightarrow> (\<forall>t. pe_install e t \<noteq> Inr ForeignHandler) \<and>
     (\<forall>t x. pe_restore e t = Some x \<longrightarrow> os_or_value_error x)"

lemma os_or_value_not_cleanup [simp]: "os_or_value_error x \<Longrightarrow> \<not> is_cleanup_error x"
  by (cases x) auto

lemma settled_restore:
  "guards (\<lambda>w. settled e w \<and> native e w) (\<lambda>x w. (is_cleanup_error x \<or> settled e w) \<and> native e w)
     (restore_handlers e b grace)"
proof -
  have "guards (\<lambda>w. settled e w \<and> native e w) (\<lambda>x w. (is_cleanup_error x \<or> settled e w) \<and> native e w)
      (restore_handler e b grace h)" for h
    unfolding restore_handler_def
    by (intro settled.on_these_guards act_rules guards_change)
      (auto simp: settled_def native_def drained_def)
  then have "guards (\<lambda>w. settled e w \<and> native e w) (\<lambda>x w. (is_cleanup_error x \<or> settled e w) \<and> native e w)
      (restore_each e b grace hs)" for hs
    by (induction hs) (auto intro!: act_rules)
  then show ?thesis
    unfolding restore_handlers_def by (intro act_rules)
qed

lemma restore_excused:
  assumes "tame_handlers e"
  shows "triple (native e) (restore_handlers e b grace) (\<lambda>_ _. True) (excused e)"
proof -
  have ask: "triple (\<lambda>_. True) (ask c (\<lambda>t. from_option (pe_restore e t))) (\<lambda>_ _. True)
      (\<lambda>x w. excused e x w \<or> os_or_value_error x)" for c
    using assms by (intro triple_ask) (auto simp: from_option_def tame_handlers_def split: option.splits)
  have main: "triple (\<lambda>_. True) (ask_main e b grace c (\<lambda>t. from_option (pe_restore e t))) (\<lambda>_ _. True)
      (\<lambda>x w. excused e x w \<or> os_or_value_error x)" for c
    by (rule triple_ask_main [OF ask, where R = "\<lambda>_. True"])
      (auto intro: triple_conseq [OF handler_drains])
  have one: "triple (\<lambda>_. True) (restore_handler e b grace h) (\<lambda>_ _. True) (excused e)"
    if "snd h \<noteq> ForeignHandler" for h
    unfolding restore_handler_def
    by (rule triple_on_these, rule triple_seq, use that in \<open>simp only: if_False\<close>, rule main)
      (auto intro: triple_change triple_ret)
  have each: "ForeignHandler \<notin> snd ` set hs \<Longrightarrow>
      triple (\<lambda>_. True) (restore_each e b grace hs) (\<lambda>_ _. True) (excused e)" for hs
    by (induction hs) (auto intro!: triple_ret triple_seq [OF one])
  show ?thesis
    unfolding restore_handlers_def
  proof (rule triple_seq [OF triple_look [where Q = "\<lambda>hs _. ForeignHandler \<notin> snd ` set hs"]])
    show "triple (\<lambda>_. ForeignHandler \<notin> snd ` set hs) (restore_each e b grace hs) (\<lambda>_ _. True) (excused e)" for hs
      using each [of hs] by (auto simp: triple_def)
  qed (use assms in \<open>auto simp: native_def tame_handlers_def\<close>)
qed

lemma cleanup_unless_excused:
  "triple (\<lambda>w. is_cleanup_error x \<or> settled e w) (cleanup_unless_attempted e st x) Q (excused e)"
  unfolding cleanup_unless_attempted_def
proof (rule triple_seq [OF triple_look [where Q = "\<lambda>a w. a \<longrightarrow> excused e x w"]], goal_cases)
  case (2 attempted)
  have "triple (\<lambda>_. True) (seq (cleanup_process_after_error e (rs_backend st) (rq_grace (rs_request st)))
      (\<lambda>_. fail x)) Q (excused e)"
    by (rule triple_then_fail, rule triple_conseq [OF cleanup_drains]) (auto simp: excused_def)
  then show ?case
    by (cases attempted) (auto simp: triple_def fail_def)
qed (auto simp: settled_def excused_def)

lemma restore_then_raise:
  assumes "tame_handlers e"
  shows "triple (\<lambda>w. (is_cleanup_error x \<or> settled e w) \<and> native e w)
    (seq (restore_handlers e b grace) (\<lambda>_. fail x)) Q
    (\<lambda>x w. (is_cleanup_error x \<or> settled e w) \<and> native e w)"
proof (cases "is_cleanup_error x")
  case True
  have "triple (\<lambda>w. native e w \<and> native e w) (restore_handlers e b grace) (\<lambda>_ w. True \<and> native e w)
      (\<lambda>x w. excused e x w \<and> native e w)"
    by (rule triple_conj [OF restore_excused [OF assms] native.restore_lasts [unfolded guards_def]])
  then show ?thesis
    by (intro triple_then_fail, elim triple_conseq) (auto simp: True excused_def drained_settled)
next
  case False
  then show ?thesis
    by (intro triple_then_fail, intro triple_conseq [OF settled_restore [unfolded guards_def]]) auto
qed

lemma install_settled:
  assumes "tame_handlers e"
  shows "guards (\<lambda>w. settled e w \<and> native e w) (\<lambda>x w. (is_cleanup_error x \<or> settled e w) \<and> native e w)
    (install_parent_signal_cleanup e b grace)"
proof -
  have "guards (\<lambda>w. settled e w \<and> native e w) (\<lambda>x w. (is_cleanup_error x \<or> settled e w) \<and> native e w)
      (install_handler e b grace sg)" for sg
    unfolding install_handler_def
  proof (rule settled.on_these_guards)
    show "guards (\<lambda>w. settled e w \<and> native e w) (\<lambda>x w. (is_cleanup_error x \<or> settled e w) \<and> native e w)
      (seq (ask_main e b grace (Install sg) (\<lambda>t. from_sum (pe_install e t)))
        (\<lambda>p. change (\<lambda>w. w\<lparr>cw_handlers := cw_handlers w @ [(sg, p)], cw_installed := sg # cw_installed w\<rparr>)))"
      unfolding guards_def
      by (rule triple_seq [OF guards_answer [OF settled.ask_main_guards]])
        (auto intro!: triple_change simp: settled_def intro: drained.handlers_last native.handlers_last)
  qed (auto intro: act_rules)
  then have "guards (\<lambda>w. settled e w \<and> native e w) (\<lambda>x w. (is_cleanup_error x \<or> settled e w) \<and> native e w)
      (seq (install_handler e b grace SIGTERM) (\<lambda>_. install_handler e b grace SIGINT))"
    by (intro act_rules)
  then show ?thesis
    unfolding install_parent_signal_cleanup_def guards_def
    by (rule triple_on_error) (rule restore_then_raise [OF assms])
qed

lemma supervise_excused:
  assumes "tame_handlers e"
  shows "triple (\<lambda>w. settled e w \<and> native e w) (supervise e st fuel) (\<lambda>_ _. True) (excused e)"
  unfolding supervise_def Let_def
proof (rule triple_seq)
  show "triple (\<lambda>w. settled e w \<and> native e w)
      (on_error (install_parent_signal_cleanup e (rs_backend st) (rq_grace (rs_request st))) (cleanup_unless_attempted e st))
      (\<lambda>_ w. settled e w \<and> native e w) (excused e)"
    by (rule triple_on_error [OF install_settled [OF assms, unfolded guards_def]])
      (rule triple_conseq [OF cleanup_unless_excused], auto)
  have lasting: "triple (\<lambda>w. excused e x w \<and> native e w) (restore_handlers e b grace) (\<lambda>_. excused e x) (excused e)" for x b grace
  proof (cases "is_cleanup_error x")
    case True
    then show ?thesis
      by (intro triple_conseq [OF restore_excused [OF assms]]) (auto simp: excused_def)
  next
    case False
    then show ?thesis
      by (intro triple_conseq [OF drained.restore_lasts [unfolded guards_def]]) (auto simp: excused_def)
  qed
  show "triple (\<lambda>w. settled e w \<and> native e w)
      (finally_do (on_error (communicate_run_with_timeout e st fuel) (cleanup_unless_attempted e st))
        (restore_handlers e (rs_backend st) (rq_grace (rs_request st)))) (\<lambda>_ _. True) (excused e)"
  proof (rule triple_finally)
    show "triple (\<lambda>w. settled e w \<and> native e w)
        (on_error (communicate_run_with_timeout e st fuel) (cleanup_unless_attempted e st))
        (\<lambda>_. native e) (\<lambda>x w. excused e x w \<and> native e w)"
    proof (rule triple_on_error)
      show "triple (\<lambda>w. settled e w \<and> native e w) (communicate_run_with_timeout e st fuel) (\<lambda>_. native e)
          (\<lambda>x w. (is_cleanup_error x \<or> settled e w) \<and> native e w)"
        by (rule triple_conseq [OF settled.run_guards [unfolded guards_def]]) auto
      show "triple (\<lambda>w. (is_cleanup_error x \<or> settled e w) \<and> native e w) (cleanup_unless_attempted e st x)
          (\<lambda>_. native e) (\<lambda>x w. excused e x w \<and> native e w)" for x
        by (rule triple_conseq [OF triple_conj [OF cleanup_unless_excused [where Q = "\<lambda>_ _. True"]
              native.cleanup_unless_lasts [unfolded guards_def]]]) auto
    qed
  qed (rule restore_excused [OF assms], rule lasting)
qed

lemma ask_main_fresh:
  assumes "cw_installed w = []"
  shows "ask_main e b grace c answer w =
    (answer (cw_calls w @ [c]), w\<lparr>cw_calls := cw_calls w @ [c]\<rparr>)"
  using assms by (simp add: ask_main_def arriving_def seq_def look_def ask_def Let_def split: option.splits)

definition launched :: "process_env \<Rightarrow> run_request \<Rightarrow> command_world \<Rightarrow> bool" where
  "launched e q w \<longleftrightarrow> take 2 (cw_calls w) = [Clock, start_call e q] \<and> pe_start e [Clock, start_call e q] = None"

lemma started_excused:
  "triple (\<lambda>w. \<not> cw_attempted w \<and> native e w)
     (on_error (seq (monotonic e b grace) (\<lambda>now. ret (state_of_request e q (now - t0))))
       (\<lambda>x. seq (cleanup_process_after_error e b grace) (\<lambda>_. fail x)))
     (\<lambda>_ w. settled e w \<and> native e w) (excused e)"
proof (rule triple_on_error)
  have "guards (\<lambda>w. settled e w \<and> native e w) (\<lambda>x w. (is_cleanup_error x \<or> settled e w) \<and> native e w)
      (seq (monotonic e b grace) (\<lambda>now. ret (state_of_request e q (now - t0))))"
    by (intro act_rules)
  then show "triple (\<lambda>w. \<not> cw_attempted w \<and> native e w)
      (seq (monotonic e b grace) (\<lambda>now. ret (state_of_request e q (now - t0))))
      (\<lambda>_ w. settled e w \<and> native e w) (\<lambda>_ _. True)"
    unfolding guards_def by (rule triple_conseq) (auto simp: settled_def)
  show "triple (\<lambda>_. True) (seq (cleanup_process_after_error e b grace) (\<lambda>_. fail x))
      (\<lambda>_ w. settled e w \<and> native e w) (excused e)" for x
    by (rule triple_then_fail, rule triple_conseq [OF cleanup_drains]) (auto simp: excused_def)
qed

text \<open>
  C17: Whatever exception a supervised run ends with, once the command has been started either the
  exception is the \<open>ProcessCleanupError\<close> that tells the owner to keep its locks, or the child has been
  drained and reaped, whichever call failed and whenever signals to the parent arrived (handlers of the
  parent were installed from Python and restoring them raises nothing unexpected).
\<close>

theorem exception_leaves_no_child:
  assumes tame: "tame_handlers e"
    and run: "run_with_timeout_request e fuel q fresh_world = (Raised x, w)"
    and launch: "launched e q w"
  shows "excused e x w"
proof -
  let ?b = "rs_backend (state_of_request e q 0)" and ?g = "rq_grace q"
  let ?w1 = "fresh_world\<lparr>cw_calls := [Clock, start_call e q]\<rparr>"
  have clean: "\<not> cw_attempted ?w1 \<and> native e ?w1"
    by (simp add: fresh_world_def native_def)
  have valid: "validate_run_with_timeout_request q = None"
    using run launch by (auto simp: run_with_timeout_request_def fail_def launched_def fresh_world_def split: option.splits)
  then have run': "seq (start_run_with_timeout e q) (\<lambda>st. supervise e st fuel) fresh_world = (Raised x, w)"
    using run by (simp add: run_with_timeout_request_def)
  have first: "monotonic e ?b ?g fresh_world = (from_sum (pe_clock e [Clock]), fresh_world\<lparr>cw_calls := [Clock]\<rparr>)"
    by (simp add: monotonic_def ask_main_fresh fresh_world_def)
  show ?thesis
  proof (cases "pe_clock e [Clock]")
    case (Inl y)
    then have "cw_calls w = [Clock]"
      using run' first by (auto simp: start_run_with_timeout_def seq_def Let_def from_sum_def)
    then show ?thesis
      using launch by (simp add: launched_def)
  next
    case (Inr t0)
    have first': "monotonic e ?b ?g fresh_world = (Returned t0, fresh_world\<lparr>cw_calls := [Clock]\<rparr>)"
      using first Inr by (simp add: from_sum_def)
    have second: "ask_main e ?b ?g (start_call e q) (\<lambda>t. from_option (pe_start e t)) (fresh_world\<lparr>cw_calls := [Clock]\<rparr>) =
        (Returned (), ?w1)"
      using launch by (simp add: ask_main_fresh launched_def from_option_def fresh_world_def)
    have "start_run_with_timeout e q fresh_world =
        on_error (seq (monotonic e ?b ?g) (\<lambda>now. ret (state_of_request e q (now - t0))))
          (\<lambda>x. seq (cleanup_process_after_error e ?b ?g) (\<lambda>_. fail x)) ?w1"
      unfolding start_run_with_timeout_def Let_def
      by (subst seq_Returned, rule first', subst seq_Returned, rule second, rule refl)
    then have "seq (on_error (seq (monotonic e ?b ?g) (\<lambda>now. ret (state_of_request e q (now - t0))))
          (\<lambda>x. seq (cleanup_process_after_error e ?b ?g) (\<lambda>_. fail x))) (\<lambda>st. supervise e st fuel) ?w1 = (Raised x, w)"
      using run' by (simp add: seq_def)
    then show ?thesis
      by (rule triple_raised [OF triple_seq [OF started_excused supervise_excused [OF tame]] clean])
  qed
qed

subsection \<open>The wait ends\<close>

text \<open>
  A steady clock: reading it never fails, it never runs backwards, and a \<open>communicate\<close> that times out
  has waited its seconds; the previous handlers of the parent do not raise a \<open>TimeoutExpired\<close> of their
  own.  \<open>now t\<close> is the reading after the calls \<open>t\<close>.
\<close>

fun is_timeout :: "command_exc \<Rightarrow> bool" where
  "is_timeout (TimeoutExpired _ _) = True"
| "is_timeout _ = False"

definition steady :: "process_env \<Rightarrow> (call list \<Rightarrow> real) \<Rightarrow> bool" where
  "steady e now \<longleftrightarrow> (\<forall>t. pe_clock e t = Inr (now t)) \<and> (\<forall>t c. now t \<le> now (t @ [c])) \<and>
     (\<forall>t i s x. pe_communicate e (t @ [Communicate i s]) = Inl x \<and> is_timeout x \<longrightarrow>
        now t + s \<le> now (t @ [Communicate i s])) \<and>
     (\<forall>t x. pe_previous e t = Some x \<longrightarrow> \<not> is_timeout x)"

definition rounds :: "int \<Rightarrow> int \<Rightarrow> nat" where
  "rounds timeout interval = nat ((timeout + interval - 1) div interval)"

definition ends :: "'a act \<Rightarrow> bool" where
  "ends m \<longleftrightarrow> (\<forall>w. fst (m w) \<noteq> Running)"

named_theorems ends_rules "actions without a loop always end"

lemma ends_ret [ends_rules]: "ends (ret a)" and ends_fail [ends_rules]: "ends (fail x)"
  and ends_look [ends_rules]: "ends (look g)" and ends_change [ends_rules]: "ends (change h)"
  by (simp_all add: ends_def ret_def fail_def look_def change_def)

lemma ends_seq [ends_rules]: "ends m \<Longrightarrow> (\<And>a. ends (f a)) \<Longrightarrow> ends (seq m f)"
  by (auto simp: ends_def seq_def split: prod.splits outcome.splits) (metis fst_conv)+

lemma ends_on_error [ends_rules]: "ends m \<Longrightarrow> (\<And>x. ends (h x)) \<Longrightarrow> ends (on_error m h)"
  by (auto simp: ends_def on_error_def split: prod.splits outcome.splits) (metis fst_conv)+

lemma ends_on_timeout [ends_rules]: "ends m \<Longrightarrow> (\<And>x y. ends (h x y)) \<Longrightarrow> ends (on_timeout m h)"
  unfolding on_timeout_def by (intro ends_rules) (auto split: command_exc.splits intro: ends_rules)

lemma ends_if [ends_rules]: "ends m \<Longrightarrow> ends m' \<Longrightarrow> ends (if b then m else m')"
  by simp

lemma ends_on_these [ends_rules]: "ends m \<Longrightarrow> ends h \<Longrightarrow> ends (on_these caught m h)"
  unfolding on_these_def by (intro ends_rules)

lemma ends_finally [ends_rules]: "ends m \<Longrightarrow> ends c \<Longrightarrow> ends (finally_do m c)"
  by (auto simp: ends_def finally_do_def split: prod.splits outcome.splits) (metis fst_conv)+

lemma ends_option [ends_rules]:
  "ends m \<Longrightarrow> (\<And>x. ends (f x)) \<Longrightarrow> ends (case r of None \<Rightarrow> m | Some x \<Rightarrow> f x)"
  by (cases r) simp_all

lemma ends_pair [ends_rules]: "(\<And>x y. ends (f x y)) \<Longrightarrow> ends (case p of (x, y) \<Rightarrow> f x y)"
  by (cases p) simp

lemma ends_ask:
  "ends (ask c (\<lambda>t. from_sum (g t)))" "ends (ask c (\<lambda>t. from_option (h t)))" "ends (ask c (\<lambda>_. Returned a))"
  by (auto simp: ends_def ask_def Let_def from_sum_def from_option_def split: sum.splits option.splits)

lemma ends_cleanup_with [ends_rules]:
  "(\<And>c h. ends (call_unit c (\<lambda>t. from_option (h t)))) \<Longrightarrow> (\<And>c g. ends (call_output c (\<lambda>t. from_sum (g t)))) \<Longrightarrow>
   ends (cleanup_with call_unit call_output e b grace)"
  unfolding cleanup_with_def attempt_step_def send_signal_with_def by (intro ends_rules)

lemma ends_handler [ends_rules]: "ends (cleanup_then_forward e b grace sg)"
  unfolding cleanup_then_forward_def by (intro ends_rules ends_ask)

lemma ends_ask_main [ends_rules]: "ends (ask c answer) \<Longrightarrow> ends (ask_main e b grace c answer)"
  unfolding ask_main_def by (intro ends_rules ends_ask)

lemma ends_calls [ends_rules]:
  "ends (send_signal e b grace sg)" "ends (communicate e b grace i s)" "ends (monotonic e b grace)"
  "ends (poll_returncode e b grace)" "ends (cleanup_process_after_error e b grace)"
  unfolding send_signal_def send_signal_with_def communicate_def monotonic_def poll_returncode_def
    cleanup_process_after_error_def
  by (intro ends_rules ends_ask)+

lemma ends_expired [ends_rules]: "ends (timeout_expired_run_result e st)"
  unfolding timeout_expired_run_result_def finalized_run_result_def completed_run_result_def result_of_def
    finalize_timed_out_process_def recheck_process_def terminate_process_def after_grace_def
    kill_and_drain_def ready_output_def Let_def
  by (intro ends_rules)

lemma ends_handlers [ends_rules]:
  "ends (install_parent_signal_cleanup e b grace)" "ends (restore_handlers e b grace)"
proof -
  have one: "ends (restore_handler e b grace h)" for h
    unfolding restore_handler_def by (intro ends_rules) (auto simp: if_distrib intro: ends_ask
        simp: ends_def ask_def Let_def from_option_def split: option.splits)
  then have "ends (restore_each e b grace hs)" for hs
    by (induction hs) (auto intro: ends_rules)
  then show "ends (restore_handlers e b grace)"
    unfolding restore_handlers_def by (intro ends_rules)
  then show "ends (install_parent_signal_cleanup e b grace)"
    unfolding install_parent_signal_cleanup_def install_handler_def by (intro ends_rules ends_ask)
qed

lemma ends_start [ends_rules]: "ends (start_run_with_timeout e q)"
  unfolding start_run_with_timeout_def Let_def by (intro ends_rules ends_ask)

lemma ends_supervise:
  "ends (communicate_run_with_timeout e st fuel) \<Longrightarrow> ends (supervise e st fuel)"
  unfolding supervise_def cleanup_unless_attempted_def Let_def by (intro ends_rules)

text \<open>The heartbeat loop ends because of the clock: from here on an action ends from a state.\<close>

definition ends_from :: "(command_world \<Rightarrow> bool) \<Rightarrow> 'a act \<Rightarrow> bool" where
  "ends_from P m \<longleftrightarrow> (\<forall>w. P w \<longrightarrow> fst (m w) \<noteq> Running)"

lemma ends_from_ends: "ends m \<Longrightarrow> ends_from P m"
  by (simp add: ends_def ends_from_def)

lemma ends_from_seq:
  assumes "ends m" and "triple P m R (\<lambda>_ _. True)" and "\<And>a. ends_from (R a) (f a)"
  shows "ends_from P (seq m f)"
  unfolding ends_from_def
proof (intro allI impI)
  fix w assume p: "P w"
  obtain o1 w1 where m: "m w = (o1, w1)" by force
  moreover have "o1 \<noteq> Running"
    using assms(1) m unfolding ends_def by (metis fst_conv)
  ultimately show "fst (seq m f w) \<noteq> Running"
    using assms(3) triple_returned [OF assms(2) p] unfolding ends_from_def
    by (cases o1) (auto simp: seq_def)
qed

lemma ends_from_on_timeout:
  assumes "ends m" and "triple P m (\<lambda>_ _. True) (\<lambda>x w. is_timeout x \<longrightarrow> R w)"
    and "\<And>out err. ends_from R (h out err)"
  shows "ends_from P (on_timeout m h)"
  unfolding ends_from_def
proof (intro allI impI)
  fix w assume p: "P w"
  obtain o1 w1 where m: "m w = (o1, w1)" by force
  moreover have "o1 \<noteq> Running"
    using assms(1) m unfolding ends_def by (metis fst_conv)
  moreover have "fst (h out err w1) \<noteq> Running" if "o1 = Raised (TimeoutExpired out err)" for out err
    using assms(3) triple_raised [OF assms(2) p] m that unfolding ends_from_def by fastforce
  ultimately show "fst (on_timeout m h w) \<noteq> Running"
    by (cases o1) (auto simp: on_timeout_def on_error_def fail_def split: command_exc.splits)
qed

interpretation clock_past: lasting_assertion e "\<lambda>w. steady e now \<longrightarrow> k \<le> now (cw_calls w)" for e now k
  by unfold_locales (auto simp: steady_def intro: order_trans)

interpretation clock_running: supervised_beats e "\<lambda>w. steady e now \<longrightarrow> k \<le> now (cw_calls w)"
  "\<lambda>_ w. steady e now \<longrightarrow> k \<le> now (cw_calls w)" for e now k
  by unfold_locales auto

lemma handler_no_timeout:
  assumes "steady e now"
  shows "triple P (cleanup_then_forward e b grace sg) (\<lambda>_ _. True) (\<lambda>x _. \<not> is_timeout x)"
proof -
  have cleaned: "triple P (cleanup_with ask ask e b grace) (\<lambda>_ _. True) (\<lambda>x _. \<not> is_timeout x)" for P
    by (rule triple_conseq [OF cleanup_with_drains]) (auto intro: ask_drains elim: is_cleanup_error.elims)
  have forwarded: "triple P (ask (Forward sg) (\<lambda>t. from_option (pe_previous e t))) (\<lambda>_ _. True) (\<lambda>x _. \<not> is_timeout x)" for P
    using assms by (intro triple_ask) (auto simp: steady_def from_option_def split: option.splits)
  show ?thesis
    unfolding cleanup_then_forward_def
    by (intro triple_seq [OF triple_change [where Q = "\<lambda>_ _. True"]] triple_seq [OF cleaned]
        triple_seq [OF triple_look [where Q = "\<lambda>_ _. True"]] triple_if forwarded)
      (auto intro: triple_ret triple_fail)
qed

lemma past_handler:
  assumes "steady e now"
  shows "triple (\<lambda>w. k \<le> now (cw_calls w)) (cleanup_then_forward e b grace sg)
    (\<lambda>_ w. k \<le> now (cw_calls w)) (\<lambda>x w. is_timeout x \<longrightarrow> R x w)"
  by (rule triple_conseq [OF triple_conj [OF clock_past.handling [unfolded guards_def, of e now k]
        handler_no_timeout [OF assms, where P = "\<lambda>_. True"]]]) (use assms in auto)

lemma past_arrival:
  "steady e now \<Longrightarrow> k \<le> now (cw_calls w) \<Longrightarrow> k \<le> now (cw_calls (w\<lparr>cw_calls := cw_calls w @ [Arrival sg]\<rparr>))"
  by (simp add: steady_def) (meson order_trans)

lemma monotonic_reads:
  assumes "steady e now"
  shows "triple (\<lambda>w. k \<le> now (cw_calls w)) (monotonic e b grace)
    (\<lambda>v w. k \<le> v \<and> v = now (cw_calls w)) (\<lambda>x w. is_timeout x \<longrightarrow> R x w)"
  unfolding monotonic_def
  by (rule triple_ask_main [OF triple_ask past_arrival past_handler])
    (use assms in \<open>auto simp: steady_def from_sum_def intro: order_trans\<close>)

lemma communicate_waits:
  assumes "steady e now"
  shows "triple (\<lambda>w. k \<le> now (cw_calls w)) (communicate e b grace i s)
    (\<lambda>_ w. k \<le> now (cw_calls w)) (\<lambda>x w. is_timeout x \<longrightarrow> k + s \<le> now (cw_calls w))"
  unfolding communicate_def
proof (rule triple_ask_main [OF triple_ask past_arrival past_handler])
  fix w assume "k \<le> now (cw_calls w)"
  moreover have "now (cw_calls w) \<le> now (cw_calls w @ [Communicate i s])"
    using assms by (simp add: steady_def)
  moreover have "pe_communicate e (cw_calls w @ [Communicate i s]) = Inl x \<Longrightarrow> is_timeout x \<Longrightarrow>
      now (cw_calls w) + s \<le> now (cw_calls w @ [Communicate i s])" for x
    using assms by (auto simp: steady_def)
  ultimately show "case from_sum (pe_communicate e (cw_calls w @ [Communicate i s])) of
        Returned a \<Rightarrow> k \<le> now (cw_calls (w\<lparr>cw_calls := cw_calls w @ [Communicate i s]\<rparr>))
      | Raised x \<Rightarrow> is_timeout x \<longrightarrow> k + s \<le> now (cw_calls (w\<lparr>cw_calls := cw_calls w @ [Communicate i s]\<rparr>))
      | Running \<Rightarrow> True"
    by (auto simp: from_sum_def split: sum.splits)
qed (use assms in auto)

lemma next_heartbeat_after:
  "1 \<le> interval \<Longrightarrow> next_at \<le> t \<Longrightarrow> next_at + of_int interval \<le> next_heartbeat interval t next_at"
proof (induction interval t next_at rule: next_heartbeat.induct)
  case (1 interval t next_at)
  show ?case
  proof (cases "next_at + of_int interval \<le> t")
    case True
    then show ?thesis
      using 1 by (subst next_heartbeat.simps) fastforce
  next
    case False
    then show ?thesis
      using 1 by (simp add: next_heartbeat.simps [of interval t next_at] next_heartbeat.simps [of interval t "next_at + _"])
  qed
qed

lemma wait_reaches_heartbeat:
  "1 \<le> interval \<Longrightarrow> t < deadline \<Longrightarrow> t + heartbeat_wait interval (deadline - t) t next_at \<le> t' \<Longrightarrow> t' < deadline \<Longrightarrow>
   next_at \<le> t' \<and> next_at < deadline"
  by (auto simp: heartbeat_wait_def Let_def min_def max_def split: if_splits)

lemma ends_beat_if_due [ends_rules]: "ends (beat_if_due e b grace interval begun t next_at)"
  unfolding beat_if_due_def beat_def by (intro ends_rules ends_ask)

lemma ends_quiet_output [ends_rules]: "ends (quiet_output e b grace begun r)"
  unfolding quiet_output_def by (intro ends_rules)

lemma beat_if_due_next:
  assumes "1 \<le> interval" and "next_at \<le> t"
  shows "triple P (beat_if_due e b grace interval begun t next_at)
    (\<lambda>v _. next_at + of_int interval \<le> v) (\<lambda>_ _. True)"
  unfolding beat_if_due_def
  using assms by (auto intro!: triple_seq [OF triple_true] triple_ret next_heartbeat_after)

lemma communicate_step_waits:
  assumes "steady e now"
  shows "triple (\<lambda>w. k \<le> now (cw_calls w)) (seq (communicate e b grace input s) (quiet_output e b grace begun))
    (\<lambda>_ _. True) (\<lambda>x w. is_timeout x \<longrightarrow> k + s \<le> now (cw_calls w))"
proof (rule triple_seq [OF communicate_waits [OF assms]])
  have "triple (\<lambda>w. k \<le> now (cw_calls w)) (monotonic e b grace) (\<lambda>_ _. True)
      (\<lambda>x w. is_timeout x \<longrightarrow> k + s \<le> now (cw_calls w))"
    by (rule triple_conseq [OF monotonic_reads [OF assms]]) auto
  then show "triple (\<lambda>w. k \<le> now (cw_calls w)) (quiet_output e b grace begun r) (\<lambda>_ _. True)
      (\<lambda>x w. is_timeout x \<longrightarrow> k + s \<le> now (cw_calls w))" for r
    unfolding quiet_output_def
    by (auto intro!: triple_seq triple_change triple_ret)
qed

lemma heartbeat_loop_ends:
  assumes clock: "steady e now" and interval: "1 \<le> interval"
  shows "1 \<le> n \<Longrightarrow> deadline - next_at \<le> (real n - 1) * of_int interval \<Longrightarrow>
    ends (heartbeat_loop e b grace interval begun deadline n next_at input)"
proof (induction n arbitrary: next_at input)
  case (Suc n)
  let ?body = "\<lambda>t0. on_timeout
       (seq (communicate e b grace input (heartbeat_wait interval (deadline - t0) t0 next_at)) (quiet_output e b grace begun))
       (\<lambda>out err. seq (monotonic e b grace) (\<lambda>t. seq (beat_if_due e b grace interval begun t next_at) (\<lambda>next'.
          if deadline \<le> t then fail (TimeoutExpired out err)
          else heartbeat_loop e b grace interval begun deadline n next' None)))"
  have later: "ends (seq (beat_if_due e b grace interval begun t next_at) (\<lambda>next'.
      if deadline \<le> t then fail (TimeoutExpired out err)
      else heartbeat_loop e b grace interval begun deadline n next' None))"
    if "t0 < deadline" and "t0 + heartbeat_wait interval (deadline - t0) t0 next_at \<le> t" for t0 t out err
  proof (cases "deadline \<le> t")
    case False
    then have due: "next_at \<le> t" "next_at < deadline"
      using wait_reaches_heartbeat [OF interval that] by auto
    then have n: "1 \<le> n"
      using Suc.prems(2) interval by (cases n) auto
    have "ends_from (\<lambda>_. next_at + of_int interval \<le> next')
        (heartbeat_loop e b grace interval begun deadline n next' None)" for next'
    proof (cases "next_at + of_int interval \<le> next'")
      case True
      then have "deadline - next' \<le> (real n - 1) * of_int interval"
        using Suc.prems(2) by (simp add: algebra_simps)
      then show ?thesis
        using Suc.IH n by (blast intro: ends_from_ends)
    qed (simp add: ends_from_def)
    then have "ends_from (\<lambda>_. True) (seq (beat_if_due e b grace interval begun t next_at) (\<lambda>next'.
        heartbeat_loop e b grace interval begun deadline n next' None))"
      by (rule ends_from_seq [OF ends_beat_if_due beat_if_due_next [OF interval due(1)]])
    then show ?thesis
      using False by (simp add: ends_def ends_from_def)
  qed (auto intro: ends_rules)
  have "ends_from (\<lambda>w. t0 \<le> now (cw_calls w)) (?body t0)" if "t0 < deadline" for t0
  proof (rule ends_from_on_timeout [OF _ communicate_step_waits [OF clock]])
    let ?after = "t0 + heartbeat_wait interval (deadline - t0) t0 next_at"
    show "ends_from (\<lambda>w. ?after \<le> now (cw_calls w))
        (seq (monotonic e b grace) (\<lambda>t. seq (beat_if_due e b grace interval begun t next_at) (\<lambda>next'.
          if deadline \<le> t then fail (TimeoutExpired out err)
          else heartbeat_loop e b grace interval begun deadline n next' None)))" for out err
    proof (rule ends_from_seq [where R = "\<lambda>t _. ?after \<le> t"])
      show "triple (\<lambda>w. ?after \<le> now (cw_calls w)) (monotonic e b grace) (\<lambda>t _. ?after \<le> t) (\<lambda>_ _. True)"
        by (rule triple_conseq [OF monotonic_reads [OF clock]]) auto
      show "ends_from (\<lambda>_. ?after \<le> t) (seq (beat_if_due e b grace interval begun t next_at) (\<lambda>next'.
          if deadline \<le> t then fail (TimeoutExpired out err)
          else heartbeat_loop e b grace interval begun deadline n next' None))" for t
        using later [OF that] by (cases "?after \<le> t") (auto simp: ends_from_def ends_def)
    qed (intro ends_rules)
  qed (intro ends_rules)
  then have body: "ends_from (\<lambda>w. t0 \<le> now (cw_calls w))
      (if deadline - t0 \<le> 0 then fail (TimeoutExpired NoOutput NoOutput) else ?body t0)" for t0
    by (cases "deadline - t0 \<le> 0") (auto intro: ends_from_ends ends_rules)
  have reads: "triple (\<lambda>_. True) (monotonic e b grace) (\<lambda>t0 w. t0 \<le> now (cw_calls w)) (\<lambda>_ _. True)"
  proof -
    have "t0 \<le> now (cw_calls w')" if "monotonic e b grace w = (Returned t0, w')" for w t0 w'
      using triple_returned [OF monotonic_reads [OF clock] order_refl that] by simp
    then show ?thesis
      by (intro tripleI) auto
  qed
  have "ends_from (\<lambda>_. True) (seq (monotonic e b grace) (\<lambda>t0.
      if deadline - t0 \<le> 0 then fail (TimeoutExpired NoOutput NoOutput) else ?body t0))"
    by (rule ends_from_seq [OF _ reads body]) (intro ends_rules)
  then show ?case
    by (simp add: ends_def ends_from_def)
qed simp


text \<open>The interval at which heartbeats are due, and how many intervals begin before the timeout.\<close>

definition heartbeat_every :: "run_request \<Rightarrow> int" where
  "heartbeat_every q = (case rq_interval q of Some i \<Rightarrow> i | None \<Rightarrow> rq_timeout q)"

lemma state_of_request_request [simp]: "rs_request (state_of_request e q l) = q"
  by (simp add: state_of_request_def)

lemma valid_request:
  assumes "validate_run_with_timeout_request q = None"
  shows "1 \<le> rq_timeout q" "1 \<le> heartbeat_every q"
  using assms
  by (auto simp: validate_run_with_timeout_request_def heartbeat_every_def split: if_splits option.splits)

lemma rounds_cover:
  assumes "1 \<le> timeout" and "1 \<le> interval"
  shows "1 \<le> rounds timeout interval" and "timeout \<le> int (rounds timeout interval) * interval"
proof -
  have "interval \<le> timeout + interval - 1"
    using assms by simp
  then have pos: "1 \<le> (timeout + interval - 1) div interval"
    using assms by (metis div_self zdiv_mono1 not_one_le_zero zero_less_one_class.zero_le_one linorder_not_less order_less_le_trans int_one_le_iff_zero_less)
  then show "1 \<le> rounds timeout interval"
    by (simp add: rounds_def)
  have "timeout + interval - 1 = (timeout + interval - 1) div interval * interval + (timeout + interval - 1) mod interval"
    by (rule div_mult_mod_eq [symmetric])
  moreover have "(timeout + interval - 1) mod interval < interval"
    using assms by simp
  ultimately have "timeout \<le> (timeout + interval - 1) div interval * interval"
    by linarith
  then show "timeout \<le> int (rounds timeout interval) * interval"
    using pos by (simp add: rounds_def)
qed

lemma start_state:
  "triple P (start_run_with_timeout e q) (\<lambda>st _. \<exists>l. st = state_of_request e q l) (\<lambda>_ _. True)"
  unfolding start_run_with_timeout_def Let_def
  by (intro triple_seq [OF triple_true] triple_on_error [OF triple_seq [OF triple_true triple_ret]] triple_then_fail triple_true)
    auto

lemma communicate_run_ends:
  assumes clock: "steady e now" and valid: "validate_run_with_timeout_request q = None"
    and fuel: "rounds (rq_timeout q) (heartbeat_every q) \<le> fuel"
  shows "ends (communicate_run_with_timeout e (state_of_request e q l) fuel)"
proof -
  let ?st = "state_of_request e q l" and ?i = "heartbeat_every q"
  have interval: "rs_interval ?st = Some i \<Longrightarrow> i = ?i" for i
    by (auto simp: state_of_request_def heartbeat_every_def split: if_splits)
  have cover: "real_of_int (rq_timeout q) \<le> real fuel * of_int ?i"
  proof -
    have "rq_timeout q \<le> int fuel * ?i"
      using rounds_cover(2) [OF valid_request [OF valid]] fuel valid_request(2) [OF valid]
      by (meson mult_right_mono of_nat_le_iff order_trans zero_le_one)
    then show ?thesis
      by (metis of_int_le_iff of_int_mult of_int_of_nat_eq)
  qed
  have "ends (heartbeat_loop e b grace ?i begun (begun + of_int (rq_timeout q)) fuel (begun + of_int ?i) input)"
    for b grace begun input
    using rounds_cover(1) [OF valid_request [OF valid]] fuel cover
    by (intro heartbeat_loop_ends [OF clock valid_request(2) [OF valid]]) (auto simp: algebra_simps)
  then have "ends (communicate_with_optional_heartbeats e ?st fuel)"
    unfolding communicate_with_optional_heartbeats_def Let_def
    using interval by (cases "rs_interval ?st") (auto intro!: ends_rules)
  then show ?thesis
    unfolding communicate_run_with_timeout_def completed_run_result_def result_of_def by (intro ends_rules)
qed

text \<open>
  C18: A supervised run always comes back: under a steady clock, with as many rounds of the heartbeat
  loop as intervals begin before the timeout (or more), it returns a result or raises an exception, whatever
  the child does and whenever signals arrive.
\<close>

theorem run_with_timeout_returns:
  assumes "steady e now"
    and "rounds (rq_timeout q) (heartbeat_every q) \<le> fuel"
  shows "fst (run_with_timeout_request e fuel q w) \<noteq> Running"
proof (cases "validate_run_with_timeout_request q")
  case None
  have "ends_from (\<lambda>_. \<exists>l. st = state_of_request e q l) (supervise e st fuel)" for st
    using ends_supervise [OF communicate_run_ends [OF assms(1) None assms(2)]]
    by (auto simp: ends_from_def ends_def)
  then have "ends_from (\<lambda>_. True) (seq (start_run_with_timeout e q) (\<lambda>st. supervise e st fuel))"
    by (rule ends_from_seq [OF ends_start start_state])
  then show ?thesis
    using None by (simp add: run_with_timeout_request_def ends_from_def)
qed (simp add: run_with_timeout_request_def fail_def)

subsection \<open>How many heartbeats\<close>

interpretation beats: lasting_assertion e "\<lambda>w. J (cw_heartbeats w)" for e J
  by unfold_locales auto

lemma beat_counts:
  "triple (\<lambda>w. J (Suc (cw_heartbeats w))) (beat e b grace begun t) (\<lambda>_ w. J (cw_heartbeats w)) (\<lambda>_ w. J (cw_heartbeats w))"
  unfolding beat_def
  by (rule triple_seq [OF triple_change [where Q = "\<lambda>_ w. J (cw_heartbeats w)"]], simp,
      rule triple_seq [OF triple_look [where Q = "\<lambda>_ w. J (cw_heartbeats w)"]], simp,
      rule beats.ask_main_guards [unfolded guards_def])

text \<open>The loop, with the number of beats so far, the next one due and what is left at the end.\<close>

lemma loop_beats:
  assumes interval: "1 \<le> interval"
  shows "triple
    (\<lambda>w. real (cw_heartbeats w) * of_int interval < timeout \<and> begun + (real (cw_heartbeats w) + 1) * of_int interval \<le> next_at)
    (heartbeat_loop e b grace interval begun (begun + timeout) n next_at input)
    (\<lambda>_ w. real (cw_heartbeats w) * of_int interval < timeout + of_int interval)
    (\<lambda>_ w. real (cw_heartbeats w) * of_int interval < timeout + of_int interval)"
proof (induction n arbitrary: next_at input)
  case 0
  then show ?case
    by (simp add: triple_def)
next
  case (Suc n)
  let ?i = "real_of_int interval"
  let ?J = "\<lambda>k::nat. real k * ?i < timeout \<and> begun + (real k + 1) * ?i \<le> next_at"
  let ?Z = "\<lambda>w. real (cw_heartbeats w) * ?i < timeout + ?i"
  have weaken: "real k * ?i < timeout \<Longrightarrow> real k * ?i < timeout + ?i" for k :: nat
    using interval by auto
  have keep: "triple (\<lambda>w. ?J (cw_heartbeats w)) m (\<lambda>_ w. ?J (cw_heartbeats w)) (\<lambda>_. ?Z)"
    if "guards (\<lambda>w. ?J (cw_heartbeats w)) (\<lambda>_ w. ?J (cw_heartbeats w)) m" for m :: "'x act"
    by (rule triple_conseq [OF that [unfolded guards_def]]) (auto dest: weaken)
  have due: "triple (\<lambda>w. ?J (cw_heartbeats w)) (beat_if_due e b grace interval begun t next_at)
      (\<lambda>next' w. ?Z w \<and> (t < begun + timeout \<longrightarrow> real (cw_heartbeats w) * ?i < timeout \<and>
         begun + (real (cw_heartbeats w) + 1) * ?i \<le> next')) (\<lambda>_. ?Z)" for t
  proof (cases "next_at \<le> t")
    case True
    let ?K = "\<lambda>k::nat. real k * ?i < timeout + ?i \<and> begun + real k * ?i \<le> next_at"
    have "triple (\<lambda>w. ?J (cw_heartbeats w)) (beat e b grace begun t) (\<lambda>_ w. ?K (cw_heartbeats w)) (\<lambda>_. ?Z)"
      by (rule triple_conseq [OF beat_counts [where J = ?K]]) (auto simp: algebra_simps)
    moreover have "triple (\<lambda>w. ?K (cw_heartbeats w)) (ret (next_heartbeat interval t next_at))
        (\<lambda>next' w. ?Z w \<and> (t < begun + timeout \<longrightarrow> real (cw_heartbeats w) * ?i < timeout \<and>
         begun + (real (cw_heartbeats w) + 1) * ?i \<le> next')) (\<lambda>_. ?Z)"
      using next_heartbeat_after [OF interval True] True
      by (intro triple_ret) (auto simp: algebra_simps)
    ultimately show ?thesis
      unfolding beat_if_due_def using True by (auto intro: triple_seq)
  next
    case False
    then show ?thesis
      unfolding beat_if_due_def by (auto intro!: triple_ret dest: weaken)
  qed
  have onward: "triple (\<lambda>w. ?J (cw_heartbeats w))
      (seq (monotonic e b grace) (\<lambda>t. seq (beat_if_due e b grace interval begun t next_at) (\<lambda>next'.
        if begun + timeout \<le> t then fail (TimeoutExpired out err)
        else heartbeat_loop e b grace interval begun (begun + timeout) n next' None))) (\<lambda>_. ?Z) (\<lambda>_. ?Z)" for out err
    by (rule triple_seq [OF keep [OF beats.monotonic_guards]], rule triple_seq [OF due])
      (auto intro!: triple_fail intro: triple_conseq [OF Suc.IH])
  have waited: "triple (\<lambda>w. ?J (cw_heartbeats w))
      (seq (communicate e b grace input s) (quiet_output e b grace begun))
      (\<lambda>_. ?Z) (\<lambda>_ w. ?J (cw_heartbeats w))" for s
  proof -
    have "guards (\<lambda>w. ?J (cw_heartbeats w)) (\<lambda>_ w. ?J (cw_heartbeats w))
        (seq (communicate e b grace input s) (quiet_output e b grace begun))"
      unfolding quiet_output_def by (intro act_rules guards_change) auto
    then show ?thesis
      unfolding guards_def by (rule triple_conseq) (auto dest: weaken)
  qed
  show ?case
    by (simp, rule triple_seq [OF keep [OF beats.monotonic_guards]], rule triple_if,
        rule triple_fail, simp add: weaken, rule triple_on_timeout [OF waited onward]) (auto dest: weaken)
qed

subsection \<open>What a result says\<close>

lemma triple_raises: "triple P m (\<lambda>_ _. False) X \<Longrightarrow> triple P m Q X"
  by (erule triple_conseq) auto

lemma cleanup_unless_raises: "triple P (cleanup_unless_attempted e st x) (\<lambda>_ _. False) (\<lambda>_ _. True)"
  unfolding cleanup_unless_attempted_def
  by (intro triple_seq [OF triple_look [where Q = "\<lambda>_ _. True"]] triple_if triple_then_fail triple_true)
    (auto intro: triple_fail)

text \<open>
  A property of results: an assertion that starting and installing the handlers keep, the supervised wait
  establishing the property from it, and restoring the handlers keeping it.
\<close>

lemma run_result:
  assumes "I fresh_world"
    and start: "triple I (start_run_with_timeout e q) (\<lambda>_. I) (\<lambda>_ _. True)"
    and install: "\<And>b grace. triple I (install_parent_signal_cleanup e b grace) (\<lambda>_. I) (\<lambda>_ _. True)"
    and wait: "\<And>st. validate_run_with_timeout_request q = None \<Longrightarrow> \<exists>l. st = state_of_request e q l \<Longrightarrow>
       triple I (communicate_run_with_timeout e st fuel) R (\<lambda>_ _. True)"
    and restore: "\<And>r b grace. triple (R r) (restore_handlers e b grace) (\<lambda>_. R r) (\<lambda>_ _. True)"
    and run: "run_with_timeout_request e fuel q fresh_world = (Returned r, w)"
  shows "R r w"
proof -
  have valid: "validate_run_with_timeout_request q = None"
    and run': "seq (start_run_with_timeout e q) (\<lambda>st. supervise e st fuel) fresh_world = (Returned r, w)"
    using run by (auto simp: run_with_timeout_request_def fail_def split: option.splits)
  have supervised: "triple (\<lambda>w. I w \<and> (\<exists>l. st = state_of_request e q l)) (supervise e st fuel) R (\<lambda>_ _. True)" for st
  proof (cases "\<exists>l. st = state_of_request e q l")
    case True
    have "triple I (supervise e st fuel) R (\<lambda>_ _. True)"
      unfolding supervise_def Let_def
    proof (rule triple_seq)
      show "triple I (on_error (install_parent_signal_cleanup e (rs_backend st) (rq_grace (rs_request st)))
          (cleanup_unless_attempted e st)) (\<lambda>_. I) (\<lambda>_ _. True)"
        by (rule triple_on_error [OF install]) (rule triple_raises [OF cleanup_unless_raises])
      show "triple I (finally_do (on_error (communicate_run_with_timeout e st fuel) (cleanup_unless_attempted e st))
          (restore_handlers e (rs_backend st) (rq_grace (rs_request st)))) R (\<lambda>_ _. True)"
        by (rule triple_finally [OF triple_on_error [OF wait [OF valid True]
              triple_raises [OF cleanup_unless_raises]] restore]) (rule triple_true)
    qed
    then show ?thesis
      by (rule triple_conseq) auto
  qed (simp add: triple_def)
  have "triple I (seq (start_run_with_timeout e q) (\<lambda>st. supervise e st fuel)) R (\<lambda>_ _. True)"
  proof (rule triple_seq [OF _ supervised])
    show "triple I (start_run_with_timeout e q) (\<lambda>st w. I w \<and> (\<exists>l. st = state_of_request e q l)) (\<lambda>_ _. True)"
      by (rule triple_conseq [OF triple_conj [OF start start_state [where P = "\<lambda>_. True"]]]) simp_all
  qed
  then show ?thesis
    by (rule triple_returned) (rule assms(1), rule run')
qed

lemma few_beats:
  assumes "1 \<le> interval" and "real k * of_int interval < of_int timeout + of_int interval"
  shows "k \<le> rounds timeout interval"
proof -
  have "real_of_int (int k * interval) < real_of_int (timeout + interval)"
    using assms(2) by simp
  then have "int k * interval \<le> timeout + interval - 1"
    by (simp only: of_int_less_iff)
  then have "int k * interval div interval \<le> (timeout + interval - 1) div interval"
    using assms(1) by (intro zdiv_mono1) auto
  then have "int k \<le> (timeout + interval - 1) div interval"
    using assms(1) by simp
  then show ?thesis
    by (simp add: rounds_def le_nat_iff)
qed

lemma result_beats:
  "triple (\<lambda>w. J (cw_heartbeats w)) (result_of e st out err timed_out reason sent final)
     (\<lambda>r _. J (tr_heartbeats r)) X"
  unfolding result_of_def by (rule triple_look) (simp add: result_from_completed_process_def Let_def)

lemma expired_beats:
  "triple (\<lambda>w. J (cw_heartbeats w)) (timeout_expired_run_result e st)
     (\<lambda>r _. J (tr_heartbeats r)) (\<lambda>_ _. True)"
proof -
  have keep: "guards (\<lambda>w. J (cw_heartbeats w)) (\<lambda>_ w. J (cw_heartbeats w)) m \<Longrightarrow>
      triple (\<lambda>w. J (cw_heartbeats w)) m (\<lambda>_ w. J (cw_heartbeats w)) (\<lambda>_ _. True)" for m :: "'x act"
    unfolding guards_def by (erule triple_conseq) auto
  have "triple (\<lambda>w. J (cw_heartbeats w)) (finalized_run_result e st) (\<lambda>r _. J (tr_heartbeats r)) (\<lambda>_ _. True)"
    unfolding finalized_run_result_def Let_def
    by (rule triple_seq [OF keep [OF beats.finalize_guards]]) (auto split: prod.splits intro: result_beats)
  then show ?thesis
    unfolding timeout_expired_run_result_def completed_run_result_def Let_def
    by (intro triple_seq [OF keep [OF beats.poll_guards]] triple_if
          triple_seq [OF keep [OF beats.ready_guards]] triple_option)
      (auto split: prod.splits intro: result_beats)
qed

text \<open>
  The heartbeats a result reports are at most the intervals that begin before the timeout, however
  late the callback and the clock are.
\<close>

theorem heartbeats_bounded:
  assumes run: "run_with_timeout_request e fuel q fresh_world = (Returned r, w)"
  shows "tr_heartbeats r \<le> rounds (rq_timeout q) (heartbeat_every q)"
proof (rule run_result [where I = "\<lambda>w. cw_heartbeats w = 0" and R = "\<lambda>r _. tr_heartbeats r \<le> rounds (rq_timeout q) (heartbeat_every q)", OF _ _ _ _ _ run])
  have keep: "guards (\<lambda>w. J (cw_heartbeats w)) (\<lambda>_ w. J (cw_heartbeats w)) m \<Longrightarrow>
      triple (\<lambda>w. J (cw_heartbeats w)) m (\<lambda>_ w. J (cw_heartbeats w)) (\<lambda>_ _. True)" for J and m :: "'x act"
    unfolding guards_def by (erule triple_conseq) auto
  show "triple (\<lambda>w. cw_heartbeats w = 0) (start_run_with_timeout e q) (\<lambda>_ w. cw_heartbeats w = 0) (\<lambda>_ _. True)"
    by (rule keep [OF beats.start_lasts])
  show "triple (\<lambda>w. cw_heartbeats w = 0) (install_parent_signal_cleanup e b grace) (\<lambda>_ w. cw_heartbeats w = 0) (\<lambda>_ _. True)" for b grace
    by (rule keep [OF beats.install_lasts])
  show "triple (\<lambda>w. cw_heartbeats w = 0) (communicate_run_with_timeout e st fuel)
      (\<lambda>r _. tr_heartbeats r \<le> rounds (rq_timeout q) (heartbeat_every q)) (\<lambda>_ _. True)"
    if valid: "validate_run_with_timeout_request q = None" and st: "\<exists>l. st = state_of_request e q l" for st
  proof -
    let ?i = "heartbeat_every q" and ?T = "real_of_int (rq_timeout q)"
    let ?J = "\<lambda>k::nat. real k * of_int ?i < ?T + of_int ?i"
    note positive = valid_request [OF valid]
    have interval: "rs_interval st = Some i \<Longrightarrow> i = ?i" "rs_request st = q" for i
      using st by (auto simp: state_of_request_def heartbeat_every_def split: if_splits)
    have plain: "triple (\<lambda>w. cw_heartbeats w = 0) (communicate e b g i s) (\<lambda>_ w. ?J (cw_heartbeats w)) (\<lambda>_ w. ?J (cw_heartbeats w))" for b g i s
      by (rule triple_conseq [OF beats.communicate_guards [unfolded guards_def, where J = "\<lambda>k. k = 0"]]) (use positive in auto)
    have looped: "triple (\<lambda>w. cw_heartbeats w = 0) (seq (monotonic e b g) (\<lambda>begun.
        heartbeat_loop e b g ?i begun (begun + ?T) fuel (begun + of_int ?i) input))
        (\<lambda>_ w. ?J (cw_heartbeats w)) (\<lambda>_ w. ?J (cw_heartbeats w))" for b g input
      by (rule triple_seq [OF triple_conseq [OF beats.monotonic_guards [unfolded guards_def, where J = "\<lambda>k. k = 0"]]
            triple_conseq [OF loop_beats [OF positive(2)]]]) (use positive in auto)
    have "triple (\<lambda>w. cw_heartbeats w = 0) (communicate_with_optional_heartbeats e st fuel)
        (\<lambda>_ w. ?J (cw_heartbeats w)) (\<lambda>_ w. ?J (cw_heartbeats w))"
      unfolding communicate_with_optional_heartbeats_def Let_def
      using interval plain looped by (cases "rs_interval st") auto
    then have "triple (\<lambda>w. cw_heartbeats w = 0) (communicate_run_with_timeout e st fuel)
        (\<lambda>r _. ?J (tr_heartbeats r)) (\<lambda>_ _. True)"
      unfolding communicate_run_with_timeout_def completed_run_result_def
      by (intro triple_on_timeout [OF triple_seq])
        (auto split: prod.splits intro: result_beats expired_beats)
    then show ?thesis
      by (rule triple_conseq) (auto intro: few_beats positive)
  qed
qed (auto simp: fresh_world_def triple_def split: prod.splits outcome.splits)

definition TIMEOUT_TERMINATION_REASONS :: "string list" where
  "TIMEOUT_TERMINATION_REASONS = [''execution_timeout'', ''timeout_after_output'', ''startup_timeout'']"

fun is_signal :: "call \<Rightarrow> bool" where
  "is_signal (Signal _) = True"
| "is_signal _ = False"

definition child_signalled :: "command_world \<Rightarrow> bool" where
  "child_signalled w \<longleftrightarrow> (\<exists>c \<in> set (cw_calls w). is_signal c)"

definition unsignalled :: "command_world \<Rightarrow> bool" where
  "unsignalled w \<longleftrightarrow> \<not> child_signalled w"

interpretation child_signalled: lasting_assertion e child_signalled for e
  by unfold_locales (auto simp: child_signalled_def)

text \<open>The parent is left alone; then no call but a signal to the child makes a difference.\<close>

definition undisturbed :: "process_env \<Rightarrow> bool" where
  "undisturbed e \<longleftrightarrow> (\<forall>t. pe_arrives e t = None)"

lemma ask_main_undisturbed: "undisturbed e \<Longrightarrow> ask_main e b grace c answer = ask c answer"
  by (auto simp: undisturbed_def ask_main_def arriving_def seq_def look_def)

lemma ask_unsignalled [act_rules]:
  "\<not> is_signal c \<Longrightarrow> guards unsignalled (\<lambda>_. unsignalled) (ask c answer)"
  unfolding guards_def
  by (rule triple_ask) (auto simp: unsignalled_def child_signalled_def split: outcome.splits)

lemma unsignalled_frame:
  "cw_calls w' = cw_calls w \<Longrightarrow> unsignalled w \<Longrightarrow> unsignalled w'"
  by (simp add: unsignalled_def child_signalled_def)

lemma on_timeout_lasts:
  "guards I (\<lambda>_. I) m \<Longrightarrow> (\<And>x y. guards I (\<lambda>_. I) (h x y)) \<Longrightarrow> guards I (\<lambda>_. I) (on_timeout m h)"
  unfolding on_timeout_def by (rule on_error_lasts) (auto split: command_exc.splits intro: fail_lasts)

lemma unsignalled_calls:
  assumes "undisturbed e"
  shows "guards unsignalled (\<lambda>_. unsignalled) (monotonic e b grace)"
    and "guards unsignalled (\<lambda>_. unsignalled) (communicate e b grace i s)"
    and "guards unsignalled (\<lambda>_. unsignalled) (poll_returncode e b grace)"
    and "guards unsignalled (\<lambda>_. unsignalled) (ready_output e b grace)"
    and "guards unsignalled (\<lambda>_. unsignalled) (install_handler e b grace sg)"
    and "guards unsignalled (\<lambda>_. unsignalled) (restore_handlers e b grace)"
    and "guards unsignalled (\<lambda>_. unsignalled) (beat_if_due e b grace interval begun t next_at)"
    and "guards unsignalled (\<lambda>_. unsignalled) (quiet_output e b grace begun r)"
proof -
  note rules = act_rules fail_lasts on_error_lasts on_these_lasts on_timeout_lasts guards_change
  show clock: "guards unsignalled (\<lambda>_. unsignalled) (monotonic e b grace)"
    and talk: "guards unsignalled (\<lambda>_. unsignalled) (communicate e b grace i s)" for i s
    unfolding monotonic_def communicate_def ask_main_undisturbed [OF assms] by (intro rules; simp)+
  show "guards unsignalled (\<lambda>_. unsignalled) (poll_returncode e b grace)"
    and "guards unsignalled (\<lambda>_. unsignalled) (install_handler e b grace sg)"
    and "guards unsignalled (\<lambda>_. unsignalled) (beat_if_due e b grace interval begun t next_at)"
    unfolding poll_returncode_def install_handler_def beat_if_due_def beat_def ask_main_undisturbed [OF assms]
    by (intro rules; (erule unsignalled_frame [rotated])?; simp)+
  show "guards unsignalled (\<lambda>_. unsignalled) (ready_output e b grace)"
    unfolding ready_output_def by (intro rules talk)
  show "guards unsignalled (\<lambda>_. unsignalled) (quiet_output e b grace begun r)"
    unfolding quiet_output_def by (intro rules clock; erule unsignalled_frame [rotated]; simp)
  have "guards unsignalled (\<lambda>_. unsignalled) (restore_handler e b grace h)" for h
    unfolding restore_handler_def ask_main_undisturbed [OF assms]
    by (intro rules; (erule unsignalled_frame [rotated])?; simp)
  then have "guards unsignalled (\<lambda>_. unsignalled) (restore_each e b grace hs)" for hs
    by (induction hs) (auto intro!: rules)
  then show "guards unsignalled (\<lambda>_. unsignalled) (restore_handlers e b grace)"
    unfolding restore_handlers_def by (intro rules)
qed

definition can_signal :: "process_env \<Rightarrow> backend \<Rightarrow> bool" where
  "can_signal e b \<longleftrightarrow> b = WindowsProcessBackend \<or> pe_killpg e"

lemma send_signal_signals:
  assumes "undisturbed e" and "can_signal e b"
  shows "triple P (send_signal e b grace sg) (\<lambda>_. child_signalled) (\<lambda>_ _. True)"
proof -
  have "triple P (ask (Signal sg) answer) (\<lambda>_. child_signalled) (\<lambda>_. child_signalled)" for answer :: "call list \<Rightarrow> unit outcome"
    by (rule triple_ask) (auto simp: child_signalled_def split: outcome.splits)
  then have "triple P (on_these (\<lambda>x. x = ProcessLookupError)
      (seq (ask (Signal sg) (\<lambda>t. from_option (pe_signal e t))) (\<lambda>_. ret (signal_label b sg))) (ret ''none''))
      (\<lambda>_. child_signalled) (\<lambda>_ _. True)"
    by (intro triple_on_these [where Y = "\<lambda>_. child_signalled"] triple_seq) (auto intro: triple_ret)
  then show ?thesis
    using assms(2) unfolding send_signal_def send_signal_with_def ask_main_undisturbed [OF assms(1)] can_signal_def
    by auto
qed

text \<open>What the finalisation of a process whose time is up says about the signals sent.\<close>

fun finalized :: "py_output \<times> py_output \<times> string \<times> string \<Rightarrow> command_world \<Rightarrow> bool" where
  "finalized (out, err, sent, final) w =
     (if final \<in> set TIMEOUT_RECOVERY_STATES then unsignalled w \<and> sent = ''none'' else child_signalled w)"

lemma signalled_keep:
  "guards child_signalled (\<lambda>_. child_signalled) m \<Longrightarrow> triple child_signalled m (\<lambda>_. child_signalled) (\<lambda>_ _. True)"
  unfolding guards_def by (erule triple_conseq) auto

lemma unsignalled_keep:
  "guards unsignalled (\<lambda>_. unsignalled) m \<Longrightarrow> triple unsignalled m (\<lambda>_. unsignalled) (\<lambda>_ _. True)"
  unfolding guards_def by (erule triple_conseq) auto

lemma kill_finalized: "triple child_signalled (kill_and_drain e b grace sent) finalized (\<lambda>_ _. True)"
  unfolding kill_and_drain_def Let_def
  by (rule triple_seq [OF signalled_keep [OF child_signalled.send_signal_guards]],
      rule triple_on_timeout [where Y = "\<lambda>_. child_signalled", OF triple_seq [OF child_signalled.communicate_guards [unfolded guards_def]]])
    (auto simp: TIMEOUT_RECOVERY_STATES_def intro!: triple_ret)

lemma terminate_finalized:
  assumes "undisturbed e" and "can_signal e b"
  shows "triple P (terminate_process e b grace) finalized (\<lambda>_ _. True)"
proof -
  have "triple child_signalled (after_grace e b grace sent) finalized (\<lambda>_ _. True)" for sent
    unfolding after_grace_def
    by (intro triple_seq [OF signalled_keep [OF child_signalled.poll_guards]] triple_if kill_finalized
          triple_seq [OF signalled_keep [OF child_signalled.ready_guards]] triple_option)
      (auto simp: TIMEOUT_RECOVERY_STATES_def intro!: triple_ret)
  then show ?thesis
    unfolding terminate_process_def
    by (intro triple_seq [OF send_signal_signals [OF assms]]
          triple_on_timeout [where Y = "\<lambda>_. child_signalled", OF triple_seq [OF child_signalled.communicate_guards [unfolded guards_def]]])
      (auto simp: TIMEOUT_RECOVERY_STATES_def intro!: triple_ret)
qed

lemma finalize_finalized:
  assumes "undisturbed e" and "can_signal e b"
  shows "triple unsignalled (finalize_timed_out_process e b grace) finalized (\<lambda>_ _. True)"
proof -
  note poll = triple_seq [OF unsignalled_keep [OF unsignalled_calls(3) [OF assms(1)]]]
    and ready = triple_seq [OF unsignalled_keep [OF unsignalled_calls(4) [OF assms(1)]]]
  have "triple unsignalled (recheck_process e b grace) finalized (\<lambda>_ _. True)"
    unfolding recheck_process_def
    by (intro poll triple_if terminate_finalized [OF assms] ready triple_option)
      (auto simp: TIMEOUT_RECOVERY_STATES_def intro!: triple_ret)
  then show ?thesis
    unfolding finalize_timed_out_process_def
    by (intro poll ready triple_option triple_if terminate_finalized [OF assms])
      (auto simp: TIMEOUT_RECOVERY_STATES_def intro!: triple_ret)
qed

text \<open>
  The verdict of a result agrees with what was done to the child: a timeout means the child was signalled
  and the exit status is not zero; otherwise it ended without being signalled.
\<close>

definition verdict_agrees :: "timed_result \<Rightarrow> command_world \<Rightarrow> bool" where
  "verdict_agrees r w \<longleftrightarrow> (if tr_timed_out r
     then child_signalled w \<and> tr_returncode r \<noteq> 0 \<and> tr_reason r \<in> set TIMEOUT_TERMINATION_REASONS
     else unsignalled w \<and> tr_signal r = ''none'' \<and> tr_reason r \<in> {''completed'', ''signal_race_recovered''})"

lemma completed_agrees: "triple unsignalled (completed_run_result e st out err final) verdict_agrees X"
  unfolding completed_run_result_def result_of_def
  by (rule triple_look) (simp add: verdict_agrees_def result_from_completed_process_def Let_def)

lemma finalized_agrees:
  assumes "undisturbed e" and "can_signal e (rs_backend st)"
  shows "triple unsignalled (finalized_run_result e st) verdict_agrees (\<lambda>_ _. True)"
  unfolding finalized_run_result_def
proof (rule triple_seq [OF finalize_finalized [OF assms]])
  show "triple (finalized a) (case a of (out, err, sent, final) \<Rightarrow>
      let timed_out = final \<notin> set TIMEOUT_RECOVERY_STATES
      in result_of e st out err timed_out
        (timeout_termination_reason timed_out final out err (rs_latency st) (rq_timeout (rs_request st))) sent final)
      verdict_agrees (\<lambda>_ _. True)" for a
    by (cases a) (auto simp: Let_def result_of_def verdict_agrees_def result_from_completed_process_def
        timeout_termination_reason_def TIMEOUT_TERMINATION_REASONS_def intro!: triple_look split: option.splits)
qed

lemma expired_agrees:
  assumes "undisturbed e" and "can_signal e (rs_backend st)"
  shows "triple unsignalled (timeout_expired_run_result e st) verdict_agrees (\<lambda>_ _. True)"
  unfolding timeout_expired_run_result_def Let_def
  by (intro triple_seq [OF unsignalled_keep [OF unsignalled_calls(3) [OF assms(1)]]] triple_if
        finalized_agrees [OF assms] triple_seq [OF unsignalled_keep [OF unsignalled_calls(4) [OF assms(1)]]] triple_option)
    (auto intro: completed_agrees)

lemma wait_unsignalled:
  assumes "undisturbed e"
  shows "guards unsignalled (\<lambda>_. unsignalled) (communicate_with_optional_heartbeats e st fuel)"
proof -
  have loop: "guards unsignalled (\<lambda>_. unsignalled) (heartbeat_loop e b grace interval begun deadline n next_at input)"
    for b grace interval begun deadline n next_at input
  proof (induction n arbitrary: next_at input)
    case (Suc n)
    then show ?case
      by (auto intro!: act_rules fail_lasts on_timeout_lasts unsignalled_calls [OF assms])
  qed (simp add: guards_def triple_def)
  show ?thesis
    unfolding communicate_with_optional_heartbeats_def Let_def
    by (intro act_rules unsignalled_calls [OF assms] loop)
qed

lemma start_unsignalled:
  assumes "undisturbed e"
  shows "triple unsignalled (start_run_with_timeout e q) (\<lambda>_. unsignalled) (\<lambda>_ _. True)"
proof -
  have "guards unsignalled (\<lambda>_. unsignalled) (ask (start_call e q) (\<lambda>t. from_option (pe_start e t)))"
    by (intro act_rules) (simp add: start_call_def Let_def)
  then have "triple unsignalled (ask_main e b grace (start_call e q) (\<lambda>t. from_option (pe_start e t)))
      (\<lambda>_. unsignalled) (\<lambda>_ _. True)" for b grace
    by (simp add: ask_main_undisturbed [OF assms] unsignalled_keep)
  moreover have clock: "triple unsignalled (monotonic e b grace) (\<lambda>_. unsignalled) (\<lambda>_ _. True)" for b grace
    by (rule unsignalled_keep [OF unsignalled_calls(1) [OF assms]])
  moreover have "triple unsignalled (on_error (seq (monotonic e b grace) (\<lambda>now. ret (g now)))
      (\<lambda>x. seq (cleanup_process_after_error e b grace) (\<lambda>_. fail x))) (\<lambda>_. unsignalled) (\<lambda>_ _. True)"
    for b grace and g :: "real \<Rightarrow> run_state"
    by (rule triple_on_error [OF triple_seq [OF clock triple_ret] triple_then_fail [OF triple_true]])
  ultimately show ?thesis
    unfolding start_run_with_timeout_def Let_def by (intro triple_seq)
qed

text \<open>
  C19: When no signal reaches the parent, the verdict of every result agrees with what was done to the
  child: \<open>timed_out\<close> exactly when a termination signal was sent, then never with exit status zero and with a
  timeout reason; otherwise no signal was sent, whatever the races between the deadline and the child's end.
\<close>

theorem timeout_verdict_agrees:
  assumes calm: "undisturbed e"
    and backend: "can_signal e (case rq_backend q of Some b \<Rightarrow> b | None \<Rightarrow> default_backend e)"
    and run: "run_with_timeout_request e fuel q fresh_world = (Returned r, w)"
  shows "verdict_agrees r w"
proof (rule run_result [OF _ start_unsignalled [OF calm] _ _ _ run])
  show "unsignalled fresh_world"
    by (simp add: unsignalled_def child_signalled_def fresh_world_def)
  have "guards unsignalled (\<lambda>_. unsignalled) (install_parent_signal_cleanup e b grace)" for b grace
    unfolding install_parent_signal_cleanup_def
    by (intro on_error_lasts act_rules fail_lasts unsignalled_calls [OF calm])
  then show "triple unsignalled (install_parent_signal_cleanup e b grace) (\<lambda>_. unsignalled) (\<lambda>_ _. True)" for b grace
    by (rule unsignalled_keep)
  show "triple unsignalled (communicate_run_with_timeout e st fuel) verdict_agrees (\<lambda>_ _. True)"
    if "\<exists>l. st = state_of_request e q l" for st
  proof -
    have "can_signal e (rs_backend st)"
      using backend that by (auto simp: state_of_request_def)
    then show ?thesis
      unfolding communicate_run_with_timeout_def
      by (intro triple_on_timeout [where Y = "\<lambda>_. unsignalled", OF triple_seq [OF wait_unsignalled [OF calm, unfolded guards_def]]])
        (auto split: prod.splits intro: completed_agrees expired_agrees [OF calm])
  qed
  show "triple (verdict_agrees r) (restore_handlers e b grace) (\<lambda>_. verdict_agrees r) (\<lambda>_ _. True)" for r b grace
  proof (cases "tr_timed_out r")
    case True
    then show ?thesis
      by (intro triple_conseq [OF triple_conj [OF signalled_keep [OF child_signalled.restore_lasts] triple_const
          [where A = "tr_returncode r \<noteq> 0 \<and> tr_reason r \<in> set TIMEOUT_TERMINATION_REASONS"]]])
        (auto simp: verdict_agrees_def)
  next
    case False
    then show ?thesis
      by (intro triple_conseq [OF triple_conj [OF unsignalled_keep [OF unsignalled_calls(6) [OF calm]] triple_const
          [where A = "tr_signal r = ''none'' \<and> tr_reason r \<in> {''completed'', ''signal_race_recovered''}"]]])
        (auto simp: verdict_agrees_def)
  qed
qed

subsection \<open>A stubborn child\<close>

text \<open>
  A concrete environment: the child ignores SIGTERM and ends when it is killed, a clock that counts the
  seconds waited, default handlers in the parent, and a callback that may fail.
\<close>

fun seconds_of :: "call \<Rightarrow> real" where
  "seconds_of (Communicate _ s) = max 0 s"
| "seconds_of _ = 0"

definition waited :: "call list \<Rightarrow> real" where
  "waited t = sum_list (map seconds_of t)"

fun is_kill :: "call \<Rightarrow> bool" where
  "is_kill (Signal sg) = (sg = SIGKILL)"
| "is_kill _ = False"

definition stubborn :: "command_exc option \<Rightarrow> process_env" where
  "stubborn callback_fails =
     \<lparr>pe_nt = False, pe_killpg = True, pe_sigkill = True, pe_environ = [],
      pe_clock = (\<lambda>t. Inr (waited t)), pe_start = (\<lambda>_. None),
      pe_communicate = (\<lambda>t. if list_ex is_kill t then Inr (TextOutput ''bye'', TextOutput [])
                            else Inl (TimeoutExpired NoOutput NoOutput)),
      pe_poll = (\<lambda>t. Inr (if list_ex is_kill t then Some (-9) else None)),
      pe_returncode = (\<lambda>t. if list_ex is_kill t then Some (-9) else None),
      pe_signal = (\<lambda>_. None), pe_heartbeat = (\<lambda>_. callback_fails),
      pe_install = (\<lambda>_. Inr SigDfl), pe_restore = (\<lambda>_. None), pe_previous = (\<lambda>_. None),
      pe_arrives = (\<lambda>_. None), pe_describe = (\<lambda>_. ''error'')\<rparr>"

definition demo_request :: run_request where
  "demo_request = \<lparr>rq_argv = [''python'', ''job.py''], rq_timeout = 3, rq_input = None, rq_backend = None,
     rq_grace = 2, rq_env = None, rq_hermetic = True, rq_interval = Some 2, rq_callback = True\<rparr>"

lemma seconds_nonneg [simp]: "0 \<le> seconds_of c"
  by (cases c) auto

lemma stubborn_steady: "steady (stubborn c) waited"
  by (auto simp: steady_def stubborn_def waited_def)

lemma stubborn_times_out:
  "case run_with_timeout_request (stubborn None) 2 demo_request fresh_world of
     (Returned r, w) \<Rightarrow> tr_timed_out r \<and> tr_final r = ''drain_after_kill'' \<and> tr_heartbeats r = 1 | _ \<Rightarrow> False"
  by code_simp

lemma stubborn_result:
  obtains r w where "run_with_timeout_request (stubborn None) 2 demo_request fresh_world = (Returned r, w)"
    "tr_timed_out r" "tr_final r = ''drain_after_kill''" "tr_heartbeats r = 1"
  using stubborn_times_out by (auto split: prod.splits outcome.splits)

lemma stubborn_fails:
  "case run_with_timeout_request (stubborn (Some (OtherError ''callback''))) 2 demo_request fresh_world of
     (Raised x, w) \<Rightarrow> x = OtherError ''callback'' \<and>
       take 2 (cw_calls w) = [Clock, start_call (stubborn (Some (OtherError ''callback''))) demo_request] | _ \<Rightarrow> False"
  by code_simp

theorem timeout_verdict_agrees_witness:
  "\<exists>r w. run_with_timeout_request (stubborn None) 2 demo_request fresh_world = (Returned r, w) \<and>
     tr_timed_out r \<and> verdict_agrees r w"
proof -
  obtain r w where r: "run_with_timeout_request (stubborn None) 2 demo_request fresh_world = (Returned r, w)" "tr_timed_out r"
    by (rule stubborn_result)
  moreover have "verdict_agrees r w"
    by (rule timeout_verdict_agrees [OF _ _ r(1)])
      (simp_all add: undisturbed_def can_signal_def stubborn_def demo_request_def)
  ultimately show ?thesis
    by blast
qed

theorem run_with_timeout_returns_witness:
  "fst (run_with_timeout_request (stubborn None) 2 demo_request fresh_world) \<noteq> Running"
  by (rule run_with_timeout_returns [OF stubborn_steady])
    (simp add: rounds_def heartbeat_every_def demo_request_def)

theorem heartbeats_bounded_witness:
  "\<exists>r w. run_with_timeout_request (stubborn None) 2 demo_request fresh_world = (Returned r, w) \<and>
     tr_heartbeats r = 1 \<and> tr_heartbeats r \<le> rounds 3 2"
proof -
  obtain r w where r: "run_with_timeout_request (stubborn None) 2 demo_request fresh_world = (Returned r, w)" "tr_heartbeats r = 1"
    by (rule stubborn_result)
  then show ?thesis
    using heartbeats_bounded [OF r(1)] by (auto simp: heartbeat_every_def demo_request_def)
qed

theorem exception_leaves_no_child_witness:
  "\<exists>x w. run_with_timeout_request (stubborn (Some (OtherError ''callback''))) 2 demo_request fresh_world = (Raised x, w) \<and>
     \<not> is_cleanup_error x \<and> drained (stubborn (Some (OtherError ''callback''))) w"
proof -
  let ?e = "stubborn (Some (OtherError ''callback''))"
  obtain x w where x: "run_with_timeout_request ?e 2 demo_request fresh_world = (Raised x, w)" "x = OtherError ''callback''"
      "take 2 (cw_calls w) = [Clock, start_call ?e demo_request]"
    using stubborn_fails by (auto split: prod.splits outcome.splits)
  have "excused ?e x w"
    by (rule exception_leaves_no_child [OF _ x(1)]) (simp_all add: tame_handlers_def launched_def stubborn_def x(3) [unfolded stubborn_def])
  then show ?thesis
    using x by (auto simp: excused_def)
qed

end
