(* ===== verification/AutoImproveQueue.thy ===== *)
theory AutoImproveQueue
  imports GateCommon
begin

section \<open>The proposal queue and the taxonomy of failures\<close>

text \<open>
  The pure parts of the auto-improve loop: reading loosely typed JSON
  (\<open>mechanism/auto_improve_value_runtime.py\<close>), the queue of runnable proposals
  (\<open>auto_improve_queue_runtime.py\<close>), what a failed attempt counts as
  (\<open>failure_taxonomy_runtime.py\<close>) and the decision it leaves for the next run
  (\<open>auto_improve_next_run_decision_runtime.py\<close>). \<open>sha256\<close> is a parameter.
\<close>

subsection \<open>Loosely typed values\<close>

text \<open>\<open>_int_value\<close>, \<open>_list_text\<close>, \<open>_mapping_value\<close>.\<close>

fun int_value :: "pyval \<Rightarrow> int \<Rightarrow> int" where
  "int_value (PyInt n) dflt = n"
| "int_value (PyStr s) dflt = (case int_of_text s of Some n \<Rightarrow> n | None \<Rightarrow> dflt)"
| "int_value _ dflt = dflt"

definition text_entries :: "pyval list \<Rightarrow> string list" where
  "text_entries xs = filter (\<lambda>t. t \<noteq> []) (map str_strip xs)"

fun list_texts :: "pyval \<Rightarrow> string list" where
  "list_texts (PyList xs) = text_entries xs"
| "list_texts _ = []"

definition mapping_value :: "pydict \<Rightarrow> string \<Rightarrow> pydict" where
  "mapping_value payload k = the_dict (dget payload k PyNone)"

definition text_field :: "pydict \<Rightarrow> string \<Rightarrow> string" where
  "text_field d k = str_strip (dget d k (PyStr ''''))"

subsection \<open>The queue\<close>

definition proposal_priority :: "pydict \<Rightarrow> int res" where
  "proposal_priority p =
     (let t = str_strip (dget p ''priority'' (PyInt 0));
          digits = (if py_startswith t ''-'' then drop 1 t else t)
      in if py_isdigit digits then py_int (PyStr t) else Inr 0)"

definition normalized_blockers :: "pydict \<Rightarrow> string list res" where
  "normalized_blockers p =
     bindr (py_iter (py_or (dget p ''blocked_by'' (PyList [])) (PyList []))) (\<lambda>xs. Inr (text_entries xs))"

definition is_recent_log_overlap_queue_unblock :: "pydict \<Rightarrow> string \<Rightarrow> bool" where
  "is_recent_log_overlap_queue_unblock p pid =
     (text_field p ''family'' = ''queue_unblock'' \<and>
      text_field p ''failure_mode'' = ''recent_log_overlap_queue_blocked'' \<and>
      py_startswith pid ''recent_log_overlap_queue_blocked__'')"

fun as_proposal :: "pyval \<Rightarrow> pydict res" where
  "as_proposal (PyDict d) = Inr d"
| "as_proposal _ = Inl AttributeError"

text \<open>Which proposal of the report is runnable without any exception for a blocker.\<close>

definition standard_runnable :: "string list \<Rightarrow> string list \<Rightarrow> pyval \<Rightarrow> bool res" where
  "standard_runnable attempted quarantined v =
     bindr (as_proposal v) (\<lambda>p. let pid = text_field p ''proposal_id'' in
       if pid = [] \<or> pid \<in> set attempted \<or> pid \<in> set quarantined then Inr False
       else bindr (normalized_blockers p) (\<lambda>bs. Inr (bs = [])))"

definition standard_runnable_proposals :: "pyval list \<Rightarrow> string list \<Rightarrow> string list \<Rightarrow> pyval list res" where
  "standard_runnable_proposals ps attempted quarantined = filterr (standard_runnable attempted quarantined) ps"

text \<open>The blockers that stay, given whether the unblocking proposal may pass its own blocker.\<close>

definition remaining_blockers :: "bool \<Rightarrow> pydict \<Rightarrow> string \<Rightarrow> string list \<Rightarrow> string list" where
  "remaining_blockers unblock p pid bs =
     filter (\<lambda>b. \<not> (unblock \<and> b = ''recent_log_overlap'' \<and> is_recent_log_overlap_queue_unblock p pid)) bs"

definition queue_item :: "bool \<Rightarrow> string list \<Rightarrow> string list \<Rightarrow> pyval \<Rightarrow> pydict option res" where
  "queue_item unblock attempted quarantined v =
     bindr (as_proposal v) (\<lambda>p. let pid = text_field p ''proposal_id'' in
       if pid = [] then Inr None
       else bindr (normalized_blockers p) (\<lambda>bs.
         if remaining_blockers unblock p pid bs \<noteq> [] \<or> pid \<in> set attempted \<or> pid \<in> set quarantined
         then Inr None
         else bindr (proposal_priority p) (\<lambda>n.
           Inr (Some (dset ''blocked_by'' (PyList [])
                  (dset ''priority'' (PyInt n) (dset ''proposal_id'' (PyStr pid) p)))))))"

definition item_id :: "pydict \<Rightarrow> string" where
  "item_id p = the_str (dget p ''proposal_id'' PyNone)"

definition item_priority :: "pydict \<Rightarrow> int" where
  "item_priority p = int_value (dget p ''priority'' PyNone) 0"

definition queue_key :: "pydict \<Rightarrow> int \<times> string" where
  "queue_key p = (- item_priority p, item_id p)"

definition build_proposal_queue :: "pydict \<Rightarrow> string list \<Rightarrow> string list \<Rightarrow> pydict list res" where
  "build_proposal_queue report attempted quarantined =
     bindr (ditem report ''proposals'') (\<lambda>v.
     bindr (py_iter v) (\<lambda>ps.
     bindr (standard_runnable_proposals ps attempted quarantined) (\<lambda>standard.
     bindr (mapr (queue_item (standard = []) attempted quarantined) ps) (\<lambda>items.
       Inr (sort_key queue_key (List.map_filter (\<lambda>x. x) items))))))"

definition select_next_proposal ::
  "pydict \<Rightarrow> string list \<Rightarrow> string list \<Rightarrow> (pydict option \<times> string list) res" where
  "select_next_proposal report attempted quarantined =
     bindr (build_proposal_queue report attempted quarantined) (\<lambda>runnable.
       Inr (case runnable of [] \<Rightarrow> None | p # _ \<Rightarrow> Some p, map item_id runnable))"

subsection \<open>What a failure counts as\<close>

definition GENERATED_EVIDENCE_SETTLE_REQUIRED :: string where
  "GENERATED_EVIDENCE_SETTLE_REQUIRED = ''generated_evidence_settle_required''"

definition ACTIONABLE_FAILURE_TAXONOMIES :: "string list" where
  "ACTIONABLE_FAILURE_TAXONOMIES =
     [''discarded'', ''hold'', ''mutation_failed'', ''repo_health_blocked'', ''review_blocked'',
      ''scope_blocked'', ''validation_blocked'']"

definition ACTIONABLE_PROMOTION_CHECK_FAILURE_TAXONOMIES :: "string list" where
  "ACTIONABLE_PROMOTION_CHECK_FAILURE_TAXONOMIES =
     [''primary_target_scope'', ''primary_target_exists'', ''report_consistency'',
      ''run_ledger_target_coverage'', ''mechanism_report_primary_targets'',
      ''changed_files_manifest_declared_targets'', ''changed_files_manifest_scope'',
      ''changed_files_manifest_allowed_apply_roots'', ''changed_files_manifest_nonempty'',
      ''changed_files_manifest_primary_targets_touched'', ''behavior_delta_presence'',
      ''candidate_lint_pass'', ''candidate_eval_pass'', ''eval_score_improves'',
      ''lint_non_regression'', ''lint_improves'', ''structural_complexity_non_regression'',
      ''structural_complexity_improves'', ''tests_non_regression'', ''tests_increase'',
      ''complexity_profile_score'', ''risk_flags'', ''equal_score_secondary_eligibility'']"

definition LEGACY_PROMOTION_REASON_CODES :: "string list" where
  "LEGACY_PROMOTION_REASON_CODES = ['''', ''legacy_promotion_report'', ''unknown'', ''none'']"

definition EQUAL_SCORE_SECONDARY_AXIS_BLOCKER_CHECK_IDS :: "string list" where
  "EQUAL_SCORE_SECONDARY_AXIS_BLOCKER_CHECK_IDS =
     [''lint_non_regression'', ''structural_complexity_non_regression'', ''tests_non_regression'',
      ''lint_improves'', ''structural_complexity_improves'', ''tests_increase'',
      ''complexity_profile_score'', ''risk_flags'']"

definition is_retryable_failure_taxonomy :: "string \<Rightarrow> bool" where
  "is_retryable_failure_taxonomy t = (t = ''executor_usage_limited'')"

definition is_settle_failure_taxonomy :: "string \<Rightarrow> bool" where
  "is_settle_failure_taxonomy t = (t = GENERATED_EVIDENCE_SETTLE_REQUIRED)"

definition is_budget_consuming_failure_taxonomy :: "string \<Rightarrow> bool" where
  "is_budget_consuming_failure_taxonomy t = (\<not> (is_retryable_failure_taxonomy t \<or> is_settle_failure_taxonomy t))"

definition is_actionable_repair_failure_taxonomy :: "string \<Rightarrow> bool" where
  "is_actionable_repair_failure_taxonomy t =
     (t \<in> set ACTIONABLE_FAILURE_TAXONOMIES \<or> t \<in> set ACTIONABLE_PROMOTION_CHECK_FAILURE_TAXONOMIES)"

text \<open>\<open>for role in roles: if p(role): return role\<close>, with what follows the loop.\<close>

definition first_role :: "(string \<Rightarrow> bool) \<Rightarrow> string list \<Rightarrow> string \<Rightarrow> string" where
  "first_role p roles dflt = (case find p roles of Some r \<Rightarrow> r | None \<Rightarrow> dflt)"

definition blocking_role_for_failure_taxonomy :: "string \<Rightarrow> string list \<Rightarrow> string" where
  "blocking_role_for_failure_taxonomy t roles =
     (if t = ''review_blocked'' then ''reviewer''
      else if t = ''validation_blocked''
      then first_role (\<lambda>r. r = ''validator'' \<or> py_endswith r ''auditor'') roles ''validator''
      else if t = ''mutation_failed''
      then first_role (\<lambda>r. r \<notin> {''reviewer'', ''validator''} \<and> \<not> py_endswith r ''auditor'') roles ''''
      else if t = ''repo_health_blocked'' \<or> t = GENERATED_EVIDENCE_SETTLE_REQUIRED then ''repo_health''
      else if t = ''scope_blocked'' then ''scope''
      else if t \<in> {''discarded'', ''hold''} \<or> t \<in> set ACTIONABLE_PROMOTION_CHECK_FAILURE_TAXONOMIES
      then ''promotion_gate''
      else '''')"

definition decision_from_payload :: "(string \<Rightarrow> string) \<Rightarrow> pydict \<Rightarrow> bool \<Rightarrow> string res" where
  "decision_from_payload digest16 payload require_record =
     bindr (decision_record_from_payload digest16 payload require_record)
       (\<lambda>r. bindr (ditem r ''decision'') (\<lambda>d. Inr (py_str d)))"

text \<open>\<open>except PromotionDecisionRegistryError: pass\<close>; another exception goes on.\<close>

definition or_registry_error :: "'a option res \<Rightarrow> 'a option res \<Rightarrow> 'a option res" where
  "or_registry_error m k = (case m of
      Inl (PromotionDecisionRegistryError _) \<Rightarrow> k | Inl e \<Rightarrow> Inl e | Inr x \<Rightarrow> Inr x)"

definition decision_record_from_source :: "(string \<Rightarrow> string) \<Rightarrow> pyval \<Rightarrow> pydict option res \<Rightarrow> pydict option res" where
  "decision_record_from_source digest16 source continue = (case source of
      PyDict d \<Rightarrow>
        or_registry_error (bindr (decision_record_from_report digest16 d False) (\<lambda>r. Inr (Some r)))
          (or_registry_error (bindr (decision_record_from_payload digest16 d False) (\<lambda>r. Inr (Some r))) continue)
    | _ \<Rightarrow> continue)"

definition decision_record_from_failure_result :: "(string \<Rightarrow> string) \<Rightarrow> pyval \<Rightarrow> pydict option res" where
  "decision_record_from_failure_result digest16 result = (case result of
      PyDict d \<Rightarrow> decision_record_from_source digest16 (dget d ''promotion_report'' PyNone)
                    (decision_record_from_source digest16 (PyDict d) (Inr None))
    | _ \<Rightarrow> Inr None)"

text \<open>The first check of the promotion report that failed.\<close>

definition failed_check :: "pyval \<Rightarrow> string option" where
  "failed_check v = (case v of
      PyDict c \<Rightarrow> if text_field c ''id'' \<noteq> [] \<and> py_upper (text_field c ''status'') = ''FAIL''
                  then Some (text_field c ''id'') else None
    | _ \<Rightarrow> None)"

definition promotion_check_failure_taxonomy :: "pyval \<Rightarrow> string" where
  "promotion_check_failure_taxonomy result = (case result of
      PyDict d \<Rightarrow>
        (let report = (case dget d ''promotion_report'' PyNone of PyDict r \<Rightarrow> r | _ \<Rightarrow> d)
         in case List.map_filter failed_check (the_list (dget report ''checks'' PyNone)) of
              [] \<Rightarrow> '''' | c # _ \<Rightarrow> c)
    | _ \<Rightarrow> '''')"

definition failure_taxonomy_from_outcome ::
  "(string \<Rightarrow> string) \<Rightarrow> string \<Rightarrow> pyval \<Rightarrow> string \<Rightarrow> string res" where
  "failure_taxonomy_from_outcome digest16 outcome result override =
     (if py_strip override \<noteq> [] then Inr (py_strip override)
      else let t = py_strip outcome in
        if t \<noteq> ''discarded'' then Inr t
        else bindr (decision_record_from_failure_result digest16 result) (\<lambda>rec.
          let code = (case rec of Some r \<Rightarrow> text_field r ''reason_code'' | None \<Rightarrow> '''');
              check = promotion_check_failure_taxonomy result
          in Inr (if code \<notin> set LEGACY_PROMOTION_REASON_CODES then code
                  else if check \<noteq> [] then check else t)))"

text \<open>The same for an iteration's telemetry, which has the record and the evidence of a discard.\<close>

definition failure_taxonomy_from_iteration ::
  "string \<Rightarrow> pydict option \<Rightarrow> pydict option \<Rightarrow> string \<Rightarrow> string res" where
  "failure_taxonomy_from_iteration outcome rec evidence result_taxonomy =
     (let t = py_lower (py_strip outcome) in
      if t = ''promoted'' then Inr ''''
      else if result_taxonomy \<noteq> [] then Inr result_taxonomy
      else if t \<noteq> ''discarded'' then Inr t
      else bindr (case evidence of
             Some ev \<Rightarrow> bindr (py_iter (dget ev ''blocking_check_ids'' (PyList []))) (\<lambda>xs. Inr (text_entries xs))
           | None \<Rightarrow> Inr []) (\<lambda>ids.
        let code = (case rec of Some r \<Rightarrow> text_field r ''reason_code'' | None \<Rightarrow> '''');
            supported = (ids = [] \<or> code \<in> set ids \<or>
              code = ''equal_score_secondary_eligibility'' \<and>
              list_all (\<lambda>i. i \<in> set EQUAL_SCORE_SECONDARY_AXIS_BLOCKER_CHECK_IDS) ids)
        in Inr (if code \<notin> set LEGACY_PROMOTION_REASON_CODES \<and> supported then code
                else case ids of i # _ \<Rightarrow> i | [] \<Rightarrow> t)))"

subsection \<open>The decision a failure leaves for the next run\<close>

definition decision_shape :: "string \<Rightarrow> string list \<Rightarrow> string \<times> string \<times> string \<times> string" where
  "decision_shape t primary_targets =
     (if is_retryable_failure_taxonomy t
      then (''ignore_retryable'', ''wait_for_executor_capacity'', ''closed'',
            ''Failure is executor capacity related, so it should not become a repair proposal.'')
      else if is_settle_failure_taxonomy t
      then (''choose_alternative'', ''select_alternative_proposal'', ''closed'',
            ''Failure requires generated evidence/currentness settle outside the repair queue.'')
      else if primary_targets = []
      then (''choose_alternative'', ''select_alternative_proposal'', ''closed'',
            ''Failure has no bounded primary target, so the next run should select other queued work.'')
      else if is_actionable_repair_failure_taxonomy t
      then (''carry_forward'', ''repair_failure'', ''open'',
            ''Failure is actionable and target-bounded, so it should become the next repair candidate.'')
      else (''choose_alternative'', ''select_alternative_proposal'', ''closed'',
            ''Failure taxonomy is not recognized as actionable next-run repair evidence.''))"

text \<open>\<open>re.sub(r"[^a-z0-9]+", "-", text.lower()).strip("-")\<close>\<close>

definition lower_slug_char :: "char \<Rightarrow> bool" where
  "lower_slug_char c = (let n = (of_char c :: nat) in (97 \<le> n \<and> n \<le> 122) \<or> (48 \<le> n \<and> n \<le> 57))"

fun lower_slug_sub :: "bool \<Rightarrow> string \<Rightarrow> string" where
  "lower_slug_sub in_run [] = []"
| "lower_slug_sub in_run (c # cs) =
     (if lower_slug_char c then c # lower_slug_sub False cs
      else if in_run then lower_slug_sub True cs
      else CHR ''-'' # lower_slug_sub True cs)"

definition lower_slug :: "string \<Rightarrow> string" where
  "lower_slug s = strip_dashes (lower_slug_sub False (py_lower s))"

definition slug_or_unknown :: "string \<Rightarrow> string" where
  "slug_or_unknown s = (if lower_slug s = [] then ''unknown'' else lower_slug s)"

text \<open>\<open>target.rsplit("/", 1)[-1].rsplit(".", 1)[0]\<close>\<close>

definition after_last :: "char \<Rightarrow> string \<Rightarrow> string" where
  "after_last c s = rev (takeWhile (\<lambda>x. x \<noteq> c) (rev s))"

definition before_last :: "char \<Rightarrow> string \<Rightarrow> string" where
  "before_last c s = (if c \<in> set s then rev (tl (dropWhile (\<lambda>x. x \<noteq> c) (rev s))) else s)"

definition target_slug :: "string list \<Rightarrow> string" where
  "target_slug targets =
     slug_or_unknown (py_join ''-'' (map (\<lambda>t. before_last (CHR ''.'') (after_last slash t)) targets))"

definition next_run_failure_repair_proposal_id :: "string list \<Rightarrow> string \<Rightarrow> string" where
  "next_run_failure_repair_proposal_id targets t =
     ''next_run_failure_repair__'' @ target_slug targets @ ''__'' @ slug_or_unknown t"

definition next_run_decision_id :: "(string \<Rightarrow> string) \<Rightarrow> string \<Rightarrow> string \<Rightarrow> string \<Rightarrow> string \<Rightarrow> string" where
  "next_run_decision_id digest16 session_id run_id proposal_id t =
     ''next-run-decision:'' @ slug_or_unknown run_id @ '':'' @
     digest16 (py_join ''|'' [session_id, run_id, proposal_id, t])"

definition proposal_tier :: "pyval \<Rightarrow> string" where
  "proposal_tier v = (let t = py_strip (str_or_empty v) in if t \<in> {''core'', ''supporting''} then t else ''supporting'')"

fun positive_int :: "pyval \<Rightarrow> int" where
  "positive_int (PyInt n) = max 1 n"
| "positive_int (PyStr s) = (case int_of_text s of Some n \<Rightarrow> max 1 n | None \<Rightarrow> 1)"
| "positive_int _ = 1"

text \<open>What an executed proposal came to: \<open>ExecutionOutcome\<close>.\<close>

record execution_outcome =
  eo_outcome :: string
  eo_failures :: int
  eo_result :: "pydict option"
  eo_quarantine :: bool

definition is_terminal_success :: "execution_outcome \<Rightarrow> bool" where
  "is_terminal_success o1 = (eo_outcome o1 = ''promoted'')"

definition iteration_status :: "execution_outcome \<Rightarrow> string" where
  "iteration_status o1 = (if is_terminal_success o1 then ''complete'' else ''blocked'')"

definition result_value :: "execution_outcome \<Rightarrow> pyval" where
  "result_value o1 = (case eo_result o1 of Some d \<Rightarrow> PyDict d | None \<Rightarrow> PyNone)"

text \<open>The decision of a result; without a valid record of it, the text the result carries.\<close>

definition result_decision :: "(string \<Rightarrow> string) \<Rightarrow> pydict \<Rightarrow> string res" where
  "result_decision digest16 d = (case decision_from_payload digest16 d False of
      Inl (PromotionDecisionRegistryError _) \<Rightarrow> Inr (py_str (dget d ''decision'' (PyStr '''')))
    | r \<Rightarrow> r)"

definition outcome_decision :: "(string \<Rightarrow> string) \<Rightarrow> execution_outcome \<Rightarrow> string res" where
  "outcome_decision digest16 o1 =
     (case eo_result o1 of None \<Rightarrow> Inr '''' | Some d \<Rightarrow> result_decision digest16 d)"

definition iteration_record :: "(string \<Rightarrow> string) \<Rightarrow> execution_outcome \<Rightarrow> int \<Rightarrow> string \<Rightarrow> string \<Rightarrow> pydict res" where
  "iteration_record digest16 o1 index proposal_id run_id =
     bindr (outcome_decision digest16 o1) (\<lambda>d.
       Inr [(''index'', PyInt index), (''proposal_id'', PyStr proposal_id), (''run_id'', PyStr run_id),
            (''status'', PyStr (iteration_status o1)), (''outcome'', PyStr (eo_outcome o1)),
            (''decision'', PyStr d)])"

record next_run_request =
  nr_session_id :: string
  nr_iteration :: int
  nr_run_id :: string
  nr_proposal :: pydict
  nr_outcome :: execution_outcome
  nr_roles :: "string list"
  nr_scope_freeze :: string
  nr_routing_reports :: "string list"
  nr_telemetry :: string
  nr_now :: string
  nr_executor_reports :: "string list"
  nr_blocking_role :: string
  nr_override :: string

definition next_run_evidence :: "next_run_request \<Rightarrow> string list" where
  "next_run_evidence q =
     dedupe_from {} (filter (\<lambda>p. p \<noteq> [])
       ([nr_telemetry q, nr_scope_freeze q] @ nr_routing_reports q @
        filter (\<lambda>t. t \<noteq> []) (map py_strip (nr_executor_reports q)) @
        (case eo_result (nr_outcome q) of
           Some d \<Rightarrow> if d = [] then [] else [''runs/'' @ nr_run_id q @ ''/promotion-report.json'']
         | None \<Rightarrow> [])))"

definition build_next_run_decision :: "(string \<Rightarrow> string) \<Rightarrow> next_run_request \<Rightarrow> pydict option res" where
  "build_next_run_decision digest16 q =
     bindr (failure_taxonomy_from_outcome digest16 (eo_outcome (nr_outcome q)) (result_value (nr_outcome q))
              (nr_override q)) (\<lambda>t.
     if t = [] \<or> is_terminal_success (nr_outcome q) then Inr None
     else
       let p = nr_proposal q;
           targets = list_texts (dget p ''primary_targets'' PyNone);
           pid = text_field p ''proposal_id'';
           role = py_strip (nr_blocking_role q)
       in case decision_shape t targets of (verdict, action, status, reason) \<Rightarrow>
          Inr (Some
            [(''decision_id'', PyStr (next_run_decision_id digest16 (nr_session_id q) (nr_run_id q) pid t)),
             (''observed_at'', PyStr (nr_now q)),
             (''session_id'', PyStr (nr_session_id q)),
             (''iteration'', PyInt (max 1 (nr_iteration q))),
             (''source_run_id'', PyStr (nr_run_id q)),
             (''proposal_id'', PyStr pid),
             (''source_candidate_id'', PyStr (text_field p ''source_candidate_id'')),
             (''target_proposal_id'', PyStr (if verdict = ''carry_forward''
                then next_run_failure_repair_proposal_id targets t else '''')),
             (''proposal_family'', PyStr (text_field p ''family'')),
             (''proposal_tier'', PyStr (proposal_tier (dget p ''tier'' PyNone))),
             (''failure_taxonomy'', PyStr t),
             (''blocking_role'', PyStr (if role \<noteq> [] then role
                else blocking_role_for_failure_taxonomy t (nr_roles q))),
             (''decision'', PyStr verdict),
             (''next_run_action'', PyStr action),
             (''status'', PyStr status),
             (''reason'', PyStr reason),
             (''quarantined_source_proposal'', PyBool (eo_quarantine (nr_outcome q))),
             (''primary_targets'', py_strs targets),
             (''supporting_targets'', py_strs (list_texts (dget p ''supporting_targets'' PyNone))),
             (''must_change_tests'', py_strs (list_texts (dget p ''must_change_tests'' PyNone))),
             (''evidence_paths'', py_strs (next_run_evidence q))]))"

text \<open>\<open>normalize_next_run_decisions\<close>, one entry.\<close>

definition normalized_next_run_decision :: "pydict \<Rightarrow> pydict" where
  "normalized_next_run_decision d =
     (let t = (\<lambda>k. (k, PyStr (text_field d k))); l = (\<lambda>k. (k, py_strs (list_texts (dget d k PyNone))))
      in [t ''decision_id'', t ''observed_at'', t ''session_id'',
          (''iteration'', PyInt (positive_int (dget d ''iteration'' (PyInt 1)))),
          t ''source_run_id'', t ''proposal_id'', t ''source_candidate_id'', t ''target_proposal_id'',
          t ''proposal_family'', (''proposal_tier'', PyStr (proposal_tier (dget d ''proposal_tier'' PyNone))),
          t ''failure_taxonomy'', t ''blocking_role'', t ''decision'', t ''next_run_action'',
          t ''status'', t ''reason'',
          (''quarantined_source_proposal'', PyBool (py_truth (dget d ''quarantined_source_proposal'' (PyBool False)))),
          l ''primary_targets'', l ''supporting_targets'', l ''must_change_tests'', l ''evidence_paths''])"

fun normalize_next_run_decisions :: "pyval \<Rightarrow> pyval list" where
  "normalize_next_run_decisions (PyList xs) =
     map (\<lambda>v. PyDict (normalized_next_run_decision (the_dict v))) (filter is_dict xs)"
| "normalize_next_run_decisions _ = []"

subsection \<open>What the queue selects\<close>

lemma queue_item_Some:
  assumes "queue_item unblock attempted quarantined v = Inr (Some p)"
  shows "dget p ''proposal_id'' PyNone = PyStr (item_id p)" and "item_id p \<noteq> []"
    and "item_id p = text_field (the_dict v) ''proposal_id''"
    and "item_id p \<notin> set attempted" and "item_id p \<notin> set quarantined"
    and "\<exists>bs. normalized_blockers (the_dict v) = Inr bs \<and>
           remaining_blockers unblock (the_dict v) (item_id p) bs = []"
    and "proposal_priority (the_dict v) = Inr (item_priority p)"
proof -
  obtain d where v: "v = PyDict d" and pid: "text_field d ''proposal_id'' \<noteq> []"
    using assms by (cases v) (auto simp: queue_item_def Let_def split: if_splits)
  define pid where "pid = text_field d ''proposal_id''"
  from assms v pid obtain bs n where bs: "normalized_blockers d = Inr bs"
    and free: "remaining_blockers unblock d pid bs = []" and att: "pid \<notin> set attempted" "pid \<notin> set quarantined"
    and n: "proposal_priority d = Inr n"
    and p: "p = dset ''blocked_by'' (PyList []) (dset ''priority'' (PyInt n) (dset ''proposal_id'' (PyStr pid) d))"
    by (auto simp: queue_item_def Let_def bindr_eq_Inr pid_def split: if_splits)
  have id: "item_id p = pid" by (simp add: p item_id_def)
  show "dget p ''proposal_id'' PyNone = PyStr (item_id p)" by (simp add: p item_id_def)
  show "item_id p \<noteq> []" using pid id by (simp add: pid_def)
  show "item_id p = text_field (the_dict v) ''proposal_id''" using id v by (simp add: pid_def)
  show "item_id p \<notin> set attempted" "item_id p \<notin> set quarantined" using att id by simp_all
  show "\<exists>bs. normalized_blockers (the_dict v) = Inr bs \<and>
          remaining_blockers unblock (the_dict v) (item_id p) bs = []" using bs free id v by simp
  show "proposal_priority (the_dict v) = Inr (item_priority p)" using n v by (simp add: p item_priority_def)
qed

lemma map_filter_id: "set (List.map_filter (\<lambda>x. x) xs) = {y. Some y \<in> set xs}"
  by (auto simp: List.map_filter_def image_iff) (metis option.sel)

lemma build_proposal_queueE:
  assumes "build_proposal_queue report attempted quarantined = Inr queue"
  obtains v ps standard items where "ditem report ''proposals'' = Inr v" and "py_iter v = Inr ps"
    and "standard_runnable_proposals ps attempted quarantined = Inr standard"
    and "mapr (queue_item (standard = []) attempted quarantined) ps = Inr items"
    and "queue = sort_key queue_key (List.map_filter (\<lambda>x. x) items)"
  using assms by (auto simp: build_proposal_queue_def bindr_eq_Inr)

lemma build_proposal_queue_in:
  assumes "build_proposal_queue report attempted quarantined = Inr queue" and "p \<in> set queue"
  shows "\<exists>unblock v. queue_item unblock attempted quarantined v = Inr (Some p)"
  using assms(1)
proof (rule build_proposal_queueE)
  fix v ps standard items
  assume m: "mapr (queue_item (standard = []) attempted quarantined) ps = Inr items"
    and q: "queue = sort_key queue_key (List.map_filter (\<lambda>x. x) items)"
  have "Some p \<in> set items" using assms(2) q by (simp add: map_filter_id)
  from mapr_Inr_out[OF m this] show ?thesis by blast
qed

lemma select_next_proposal_Some:
  assumes "select_next_proposal report attempted quarantined = Inr (Some p, ids)"
  shows "dget p ''proposal_id'' PyNone = PyStr (item_id p)" and "item_id p \<noteq> []"
    and "item_id p \<notin> set attempted" and "item_id p \<notin> set quarantined"
proof -
  from assms obtain queue where queue: "build_proposal_queue report attempted quarantined = Inr queue"
    and "Some p = (case queue of [] \<Rightarrow> None | p # _ \<Rightarrow> Some p)"
    by (auto simp: select_next_proposal_def bindr_eq_Inr)
  then obtain ps where "build_proposal_queue report attempted quarantined = Inr (p # ps)"
    by (cases queue) auto
  from build_proposal_queue_in[OF this, of p] obtain unblock v
    where "queue_item unblock attempted quarantined v = Inr (Some p)" by auto
  from queue_item_Some[OF this] show "dget p ''proposal_id'' PyNone = PyStr (item_id p)" "item_id p \<noteq> []"
    "item_id p \<notin> set attempted" "item_id p \<notin> set quarantined" by blast+
qed

text \<open>
  C25: what \<open>select_next_proposal\<close> answers is the best of the runnable proposals: with no selection no
  proposal of the report is runnable, and a selected one is runnable with its identifier, priority and
  blockers those of an entry of the report, neither attempted nor quarantined, and no runnable
  entry has a higher priority, or the same priority and an earlier identifier.
\<close>

theorem select_next_proposal_best:
  assumes "ditem report ''proposals'' = Inr (PyList ps)"
    and "select_next_proposal report attempted quarantined = Inr (selected, ids)"
  shows "\<exists>unblock. (unblock \<longleftrightarrow> standard_runnable_proposals ps attempted quarantined = Inr []) \<and>
    (case selected of
      None \<Rightarrow> (\<forall>v \<in> set ps. queue_item unblock attempted quarantined v = Inr None)
    | Some p \<Rightarrow> item_id p \<noteq> [] \<and> item_id p \<notin> set attempted \<and> item_id p \<notin> set quarantined \<and>
        (\<exists>d. PyDict d \<in> set ps \<and> text_field d ''proposal_id'' = item_id p \<and>
             proposal_priority d = Inr (item_priority p) \<and>
             (\<exists>bs. normalized_blockers d = Inr bs \<and>
                   remaining_blockers unblock d (item_id p) bs = [])) \<and>
        (\<forall>v \<in> set ps. \<forall>q. queue_item unblock attempted quarantined v = Inr (Some q) \<longrightarrow>
           item_priority q < item_priority p \<or>
           item_priority q = item_priority p \<and> item_id p \<le> item_id q))"
proof -
  from assms(2) obtain queue where queue: "build_proposal_queue report attempted quarantined = Inr queue"
    and sel: "selected = (case queue of [] \<Rightarrow> None | p # _ \<Rightarrow> Some p)"
    by (auto simp: select_next_proposal_def bindr_eq_Inr)
  from queue obtain standard items where
    std: "standard_runnable_proposals ps attempted quarantined = Inr standard" and
    items: "mapr (queue_item (standard = []) attempted quarantined) ps = Inr items" and
    q: "queue = sort_key queue_key (List.map_filter (\<lambda>x. x) items)"
    by (rule build_proposal_queueE) (use assms(1) in auto)
  let ?u = "standard = []"
  have member: "q' \<in> set queue \<longleftrightarrow> (\<exists>v \<in> set ps. queue_item ?u attempted quarantined v = Inr (Some q'))" for q'
    using mapr_Inr_out[OF items, of "Some q'"] mapr_Inr_in[OF items]
    by (auto simp: q map_filter_id) (metis Inr_inject)
  show ?thesis
  proof (intro exI conjI)
    show "?u \<longleftrightarrow> standard_runnable_proposals ps attempted quarantined = Inr []" using std by auto
    show "case selected of
      None \<Rightarrow> (\<forall>v \<in> set ps. queue_item ?u attempted quarantined v = Inr None)
    | Some p \<Rightarrow> item_id p \<noteq> [] \<and> item_id p \<notin> set attempted \<and> item_id p \<notin> set quarantined \<and>
        (\<exists>d. PyDict d \<in> set ps \<and> text_field d ''proposal_id'' = item_id p \<and>
             proposal_priority d = Inr (item_priority p) \<and>
             (\<exists>bs. normalized_blockers d = Inr bs \<and>
                   remaining_blockers ?u d (item_id p) bs = [])) \<and>
        (\<forall>v \<in> set ps. \<forall>q. queue_item ?u attempted quarantined v = Inr (Some q) \<longrightarrow>
           item_priority q < item_priority p \<or>
           item_priority q = item_priority p \<and> item_id p \<le> item_id q)"
    proof (cases queue)
      case Nil
      have "queue_item ?u attempted quarantined v = Inr None" if "v \<in> set ps" for v
        using mapr_Inr_in[OF items that] member that Nil by (metis list.set_intros(1) list.set(1) not_None_eq empty_iff)
      then show ?thesis using Nil sel by simp
    next
      case (Cons p rest)
      then obtain v where v: "v \<in> set ps" and vi: "queue_item ?u attempted quarantined v = Inr (Some p)"
        using member[of p] by auto
      obtain d where vd: "v = PyDict d" using vi by (cases v) (auto simp: queue_item_def)
      have sorted: "sorted (map queue_key queue)" by (simp add: q)
      have best: "queue_key p \<le> queue_key q'" if "q' \<in> set queue" for q'
        using sorted that Cons by auto
      have "item_priority q' < item_priority p \<or> item_priority q' = item_priority p \<and> item_id p \<le> item_id q'"
        if "v' \<in> set ps" "queue_item ?u attempted quarantined v' = Inr (Some q')" for v' q'
      proof -
        have "q' \<in> set queue" using member that by blast
        from best[OF this] show ?thesis by (auto simp: queue_key_def)
      qed
      then show ?thesis using queue_item_Some[OF vi[unfolded vd]] v[unfolded vd] Cons sel by auto
    qed
  qed
qed

theorem select_next_proposal_best_witness:
  "select_next_proposal [(''proposals'', PyList
       [PyDict [(''proposal_id'', PyStr ''a''), (''priority'', PyStr '' 3'')],
        PyDict [(''proposal_id'', PyStr ''c''), (''priority'', PyInt 9), (''blocked_by'', PyList [PyStr ''x''])],
        PyDict [(''proposal_id'', PyStr ''b''), (''priority'', PyInt 7)]])] [''d''] [] =
     Inr (Some [(''proposal_id'', PyStr ''b''), (''priority'', PyInt 7), (''blocked_by'', PyList [])], [''b'', ''a'']) \<and>
   item_id [(''proposal_id'', PyStr ''b''), (''priority'', PyInt 7), (''blocked_by'', PyList [])] \<notin> set [''d'']"
proof -
  let ?ps = "[PyDict [(''proposal_id'', PyStr ''a''), (''priority'', PyStr '' 3'')],
        PyDict [(''proposal_id'', PyStr ''c''), (''priority'', PyInt 9), (''blocked_by'', PyList [PyStr ''x''])],
        PyDict [(''proposal_id'', PyStr ''b''), (''priority'', PyInt 7)]]"
  let ?r = "[(''proposals'', PyList ?ps)]"
  have run: "select_next_proposal ?r [''d''] [] = Inr (Some
      [(''proposal_id'', PyStr ''b''), (''priority'', PyInt 7), (''blocked_by'', PyList [])], [''b'', ''a''])"
    by code_simp
  have report: "ditem ?r ''proposals'' = Inr (PyList ?ps)" by (simp add: ditem_def)
  from select_next_proposal_best[OF report run]
  have "item_id [(''proposal_id'', PyStr ''b''), (''priority'', PyInt 7), (''blocked_by'', PyList [])] \<notin> set [''d'']"
    by auto
  then show ?thesis using run by simp
qed

subsection \<open>A stored decision keeps its normal form\<close>

lemma text_items_strs: "text_entries (map PyStr (text_entries xs)) = text_entries xs"
  by (induction xs) (auto simp: text_entries_def str_strip_def)

lemma list_texts_stable: "list_texts (py_strs (list_texts v)) = list_texts v"
  by (cases v) (simp_all add: py_strs_def text_items_strs text_entries_def[of "[]"])

lemma positive_int_stable: "positive_int (PyInt (positive_int v)) = positive_int v"
  by (cases v rule: positive_int.cases) (auto split: option.splits)

lemma proposal_tier_stable: "proposal_tier (PyStr (proposal_tier v)) = proposal_tier v"
proof -
  define t where "t = proposal_tier v"
  have "t = ''core'' \<or> t = ''supporting''" by (auto simp: t_def proposal_tier_def Let_def)
  moreover have "proposal_tier (PyStr ''core'') = ''core''" "proposal_tier (PyStr ''supporting'') = ''supporting''"
    by code_simp+
  ultimately show ?thesis unfolding t_def[symmetric] by auto
qed

lemma strip_str_strip: "py_strip (str_strip v) = str_strip v"
  by (simp add: str_strip_def)

lemma max_positive_int: "max 1 (positive_int v) = positive_int v"
  using positive_int_stable[of v] by simp

lemma normalized_next_run_decision_stable:
  "normalized_next_run_decision (normalized_next_run_decision d) = normalized_next_run_decision d"
  by (simp add: normalized_next_run_decision_def Let_def text_field_def dget_def
      list_texts_stable max_positive_int proposal_tier_stable strip_str_strip)

lemma normalize_next_run_decisions_stable:
  "normalize_next_run_decisions (PyList (normalize_next_run_decisions v)) = normalize_next_run_decisions v"
  by (cases v) (simp_all add: normalized_next_run_decision_stable filter_map o_def)

lemma selected_text_field:
  assumes "select_next_proposal report attempted quarantined = Inr (Some p, ids)"
  shows "text_field p ''proposal_id'' = item_id p"
proof -
  from assms obtain queue where queue: "build_proposal_queue report attempted quarantined = Inr queue"
    and "Some p = (case queue of [] \<Rightarrow> None | p # _ \<Rightarrow> Some p)"
    by (auto simp: select_next_proposal_def bindr_eq_Inr)
  then have "p \<in> set queue" by (cases queue) auto
  from build_proposal_queue_in[OF queue this] obtain unblock v
    where item: "queue_item unblock attempted quarantined v = Inr (Some p)" by auto
  then have "py_strip (item_id p) = item_id p"
    using queue_item_Some(3)[OF item] by (simp add: text_field_def strip_str_strip)
  then show ?thesis
    using select_next_proposal_Some(1)[OF assms]
    by (auto simp: text_field_def dget_def split: option.splits)
qed

end
