(* ===== verification/AutoImproveOutcome.thy ===== *)
theory AutoImproveOutcome
  imports AutoImproveQueue JsonText
begin

section \<open>What an attempt of the auto-improve loop comes to\<close>

text \<open>
  The judgement of one attempt (\<open>mechanism/auto_improve_outcome_runtime.py\<close>), the state a session
  keeps between iterations and the conditions on which its loop stops
  (\<open>auto_improve_loop_decision_runtime.py\<close>), the update of that state
  (\<open>_update_session_loop_state\<close> of \<open>auto_improve_iteration_persistence_runtime.py\<close>), and the class of
  a finished session (\<open>auto_improve_session_completion_runtime.py\<close>). A session is the JSON object
  the runtime keeps it as. A timestamp is an argument: the reading a function makes of the clock.
\<close>

subsection \<open>Reports of the executors\<close>

text \<open>
  The files of a run as the judgement reads them: a report (missing, not JSON, or a value), the text
  of an artifact that is a file, and the answer of \<open>usage_limit_flag_for_artifact\<close>.
\<close>

record run_files =
  rf_report :: "string \<Rightarrow> (pyval res) option"
  rf_text :: "string \<Rightarrow> string option"
  rf_usage_flag :: "string \<Rightarrow> bool"

definition run_rel :: "string \<Rightarrow> string \<Rightarrow> string" where
  "run_rel run_id name = ''runs/'' @ run_id @ ''/'' @ name"

definition role_report_path :: "string \<Rightarrow> string \<Rightarrow> string" where
  "role_report_path run_id role = run_rel run_id (role @ ''-executor-report.json'')"

text \<open>\<open>str.isalnum() or "_"\<close>, for the \<open>\b\<close> of the pattern.\<close>

definition word_char :: "char \<Rightarrow> bool" where
  "word_char c = (let n = (of_char c :: nat) in
     (48 \<le> n \<and> n \<le> 57) \<or> (65 \<le> n \<and> n \<le> 90) \<or> n = 95 \<or> (97 \<le> n \<and> n \<le> 122) \<or>
     n \<in> {170, 178, 179, 181, 185, 186, 188, 189, 190} \<or>
     (192 \<le> n \<and> n \<noteq> 215 \<and> n \<noteq> 247))"

definition word_ends :: "string \<Rightarrow> bool" where
  "word_ends rest = (case rest of [] \<Rightarrow> True | c # _ \<Rightarrow> \<not> word_char c)"

text \<open>
  \<open>_USAGE_LIMIT_STDERR_RE\<close> at one position: spaces, an optional \<open>ERROR:\<close> and one of four phrases.
  The search tries it after the start of the text and after each line feed.
\<close>

definition usage_limit_phrase :: "string \<Rightarrow> bool" where
  "usage_limit_phrase t =
     (py_startswith t ''you've hit your usage limit'' \<or> py_startswith t ''you have hit your usage limit'' \<or>
      list_ex (\<lambda>p. py_startswith t p \<and> word_ends (drop (length p) t))
        [''usage limit'', ''upgrade to pro'', ''try again at''])"

definition usage_limit_at :: "string \<Rightarrow> bool" where
  "usage_limit_at s =
     (let t = dropWhile py_isspace (py_lower s) in
      usage_limit_phrase t \<or>
      py_startswith t ''error:'' \<and> usage_limit_phrase (dropWhile py_isspace (drop 6 t)))"

fun usage_limit_search :: "bool \<Rightarrow> string \<Rightarrow> bool" where
  "usage_limit_search line_start [] = False"
| "usage_limit_search line_start (c # cs) =
     (line_start \<and> usage_limit_at (c # cs) \<or> usage_limit_search (c = CHR 0x0A) cs)"

definition read_report_artifact_text :: "run_files \<Rightarrow> pydict \<Rightarrow> string \<Rightarrow> string" where
  "read_report_artifact_text files report k = (case dget report ''artifacts'' (PyDict []) of
      PyDict artifacts \<Rightarrow>
        (let rel = text_field artifacts k in
         if rel = [] \<or> py_startswith rel [slash] then ''''
         else case rf_text files rel of Some t \<Rightarrow> t | None \<Rightarrow> '''')
    | _ \<Rightarrow> '''')"

definition notes_report_usage_limit :: "pydict \<Rightarrow> bool" where
  "notes_report_usage_limit report = (case dget report ''diagnostics'' (PyDict []) of
      PyDict diagnostics \<Rightarrow> (case dget diagnostics ''notes'' (PyList []) of
          PyList notes \<Rightarrow>
            (let combined = py_lower (py_join [CHR 0x0A] (map py_str notes)) in
             sublist ''executor_usage_limited'' combined \<or>
             sublist ''codex exec blocked by usage limit'' combined)
        | _ \<Rightarrow> False)
    | _ \<Rightarrow> False)"

definition executor_report_has_usage_limit :: "run_files \<Rightarrow> pydict \<Rightarrow> bool" where
  "executor_report_has_usage_limit files report =
     (if notes_report_usage_limit report then True
      else case dget report ''result'' PyNone of
        PyDict result \<Rightarrow>
          (let code = dget result ''returncode'' PyNone in
           if py_eq_int code 0 \<or> code = PyStr ''0'' then False
           else (case dget report ''artifacts'' (PyDict []) of
                   PyDict artifacts \<Rightarrow> rf_usage_flag files (text_field artifacts ''stderr'') | _ \<Rightarrow> False) \<or>
                usage_limit_search True (read_report_artifact_text files report ''stderr''))
      | _ \<Rightarrow> False)"

text \<open>The first report that did not pass decides.\<close>

fun detect_executor_failure :: "run_files \<Rightarrow> string \<Rightarrow> string list \<Rightarrow> string res" where
  "detect_executor_failure files run_id [] = Inr ''mutation_failed''"
| "detect_executor_failure files run_id (role # roles) =
     (case rf_report files (role_report_path run_id role) of
        None \<Rightarrow> detect_executor_failure files run_id roles
      | Some loaded \<Rightarrow> bindr loaded (\<lambda>v. case v of
          PyDict report \<Rightarrow>
            if dget report ''status'' PyNone = PyStr ''pass'' then detect_executor_failure files run_id roles
            else if executor_report_has_usage_limit files report then Inr ''executor_usage_limited''
            else if role = ''reviewer'' then Inr ''review_blocked''
            else if role = ''validator'' \<or> py_endswith role ''auditor'' then Inr ''validation_blocked''
            else Inr ''mutation_failed''
        | _ \<Rightarrow> Inl AttributeError))"

subsection \<open>Evaluation\<close>

definition evaluate_scope_blocked :: "int \<Rightarrow> execution_outcome" where
  "evaluate_scope_blocked failures =
     \<lparr>eo_outcome = ''scope_blocked'', eo_failures = failures + 1, eo_result = None, eo_quarantine = True\<rparr>"

definition evaluate_experiment_error :: "int \<Rightarrow> execution_outcome" where
  "evaluate_experiment_error failures =
     \<lparr>eo_outcome = ''repo_health_blocked'', eo_failures = failures + 1, eo_result = None, eo_quarantine = True\<rparr>"

definition is_retryable_outcome :: "string \<Rightarrow> bool" where
  "is_retryable_outcome t = (t = ''executor_usage_limited'')"

definition evaluate_mutation_error ::
  "run_files \<Rightarrow> string \<Rightarrow> string list \<Rightarrow> string list \<Rightarrow> int \<Rightarrow> execution_outcome res" where
  "evaluate_mutation_error files run_id roles quarantine_outcomes failures =
     bindr (detect_executor_failure files run_id roles) (\<lambda>t. Inr
       \<lparr>eo_outcome = t,
        eo_failures = (if is_retryable_outcome t then failures else failures + 1),
        eo_result = None,
        eo_quarantine = (\<not> is_retryable_outcome t \<and> t \<in> set quarantine_outcomes)\<rparr>)"

text \<open>The outcome and the finality that the registry gives a decision, if it knows it.\<close>

definition registry_outcome :: "string \<Rightarrow> (string \<times> bool) res" where
  "registry_outcome d =
     (case bindr (decision_outcome d) (\<lambda>t. bindr (decision_is_terminal d) (\<lambda>b. Inr (t, b))) of
        Inl (PromotionDecisionRegistryError _) \<Rightarrow> Inr ('''', False)
      | r \<Rightarrow> r)"

text \<open>An experiment that ended without a decision of the registry.\<close>

definition evaluate_undecided_result :: "pydict \<Rightarrow> int \<Rightarrow> execution_outcome" where
  "evaluate_undecided_result result failures =
     (case dget result ''repo_health'' (PyDict []) of
        PyDict health \<Rightarrow>
          if \<not> py_truth (dget health ''passed'' (PyBool True))
          then let t = text_field result ''failure_taxonomy'' in
            if t \<noteq> [] \<and> \<not> is_budget_consuming_failure_taxonomy t
            then \<lparr>eo_outcome = t, eo_failures = failures, eo_result = Some result, eo_quarantine = False\<rparr>
            else \<lparr>eo_outcome = ''repo_health_blocked'', eo_failures = failures + 1, eo_result = Some result,
                  eo_quarantine = True\<rparr>
          else \<lparr>eo_outcome = ''hold'', eo_failures = failures + 1, eo_result = Some result, eo_quarantine = False\<rparr>
      | _ \<Rightarrow> \<lparr>eo_outcome = ''hold'', eo_failures = failures + 1, eo_result = Some result, eo_quarantine = False\<rparr>)"

definition evaluate_experiment_result :: "(string \<Rightarrow> string) \<Rightarrow> pydict \<Rightarrow> int \<Rightarrow> execution_outcome res" where
  "evaluate_experiment_result digest16 result failures =
     bindr (result_decision digest16 result) (\<lambda>d.
     bindr (registry_outcome d) (\<lambda>(t, terminal).
       Inr (if terminal
            then \<lparr>eo_outcome = t, eo_failures = (if t = ''promoted'' then 0 else failures + 1),
                  eo_result = Some result, eo_quarantine = False\<rparr>
            else if t \<noteq> []
            then \<lparr>eo_outcome = t, eo_failures = failures + 1, eo_result = Some result, eo_quarantine = False\<rparr>
            else evaluate_undecided_result result failures)))"

text \<open>
  What the run of an experiment came to: its result, its two errors that are caught, or another error.
  \<open>evaluate_execution_outcome\<close> and \<open>apply_execution_outcome\<close>.
\<close>

definition judge_experiment ::
  "(string \<Rightarrow> string) \<Rightarrow> run_files \<Rightarrow> string \<Rightarrow> string list \<Rightarrow> string list \<Rightarrow> int \<Rightarrow> pydict res \<Rightarrow>
   execution_outcome res" where
  "judge_experiment digest16 files run_id roles quarantine_outcomes failures r = (case r of
      Inl (RunMechanismExperimentMutationError _) \<Rightarrow>
        evaluate_mutation_error files run_id roles quarantine_outcomes failures
    | Inl e \<Rightarrow> if is_experiment_error e then Inr (evaluate_experiment_error failures) else Inl e
    | Inr result \<Rightarrow> evaluate_experiment_result digest16 result failures)"

subsection \<open>The state of a session between iterations\<close>

definition REPEATED_BLOCKER_THRESHOLD :: int where
  "REPEATED_BLOCKER_THRESHOLD = 2"

definition is_generic_reason :: "string \<Rightarrow> bool" where
  "is_generic_reason reason = (reason = ''discarded'')"

definition REMEDIATION_BACKLOG_REPORT :: string where
  "REMEDIATION_BACKLOG_REPORT = ''ops/reports/remediation-backlog.json''"

type_synonym counts = "(string \<times> int) list"

definition count_value :: "counts \<Rightarrow> pyval" where
  "count_value cs = PyDict (map (\<lambda>(k, n). (k, PyInt n)) cs)"

definition loop_state_record ::
  "int \<Rightarrow> string \<Rightarrow> string \<Rightarrow> string \<Rightarrow> string \<Rightarrow> counts \<Rightarrow> bool \<Rightarrow> string \<Rightarrow> string \<Rightarrow> string \<Rightarrow> pydict" where
  "loop_state_record failures outcome dcn run_id reason cs stopped stop_text path now =
     [(''consecutive_failures'', PyInt failures), (''last_outcome'', PyStr outcome),
      (''last_decision'', PyStr dcn), (''last_run_id'', PyStr run_id),
      (''last_blocking_reason'', PyStr reason), (''blocking_reason_counts'', count_value cs),
      (''repeated_blocker_stop'', PyBool stopped), (''repeated_blocker_reason'', PyStr stop_text),
      (''remediation_backlog_path'', PyStr path), (''updated_at'', PyStr now)]"

definition empty_loop_state :: "string \<Rightarrow> pydict" where
  "empty_loop_state now = loop_state_record 0 '''' '''' '''' '''' [] False '''' REMEDIATION_BACKLOG_REPORT now"

definition session_iterations :: "pydict \<Rightarrow> pyval list res" where
  "session_iterations session = py_iter (dget session ''iterations'' (PyList []))"

text \<open>\<open>str(iteration.get("failure_taxonomy", "")).strip() or outcome\<close>\<close>

definition iteration_reason :: "pydict \<Rightarrow> string" where
  "iteration_reason it =
     (let t = text_field it ''failure_taxonomy'' in if t = [] then text_field it ''outcome'' else t)"

definition add_count :: "counts \<Rightarrow> string \<Rightarrow> counts" where
  "add_count cs reason = dset reason (dget cs reason 0 + 1) cs"

definition count_iteration :: "counts \<Rightarrow> pyval \<Rightarrow> counts" where
  "count_iteration cs v = (case v of
      PyDict it \<Rightarrow>
        (let outcome = text_field it ''outcome'' in
         if outcome = [] \<or> outcome = ''promoted'' then cs else add_count cs (iteration_reason it))
    | _ \<Rightarrow> cs)"

definition blocking_reason_counts_from_iterations :: "pydict \<Rightarrow> counts res" where
  "blocking_reason_counts_from_iterations session =
     bindr (session_iterations session) (\<lambda>its. Inr (foldl count_iteration [] its))"

definition normalize_count :: "counts \<Rightarrow> string \<times> pyval \<Rightarrow> counts" where
  "normalize_count cs kv =
     (let reason = py_strip (fst kv) in
      if reason = [] then cs else dset reason (max 0 (int_value (snd kv) 0)) cs)"

fun normalize_blocking_reason_counts :: "pyval \<Rightarrow> counts" where
  "normalize_blocking_reason_counts (PyDict d) = foldl normalize_count [] d"
| "normalize_blocking_reason_counts _ = []"

definition should_prefer_reconstructed_blocking_counts :: "counts \<Rightarrow> counts \<Rightarrow> bool" where
  "should_prefer_reconstructed_blocking_counts existing reconstructed =
     (reconstructed \<noteq> [] \<and> list_ex (\<lambda>kv. is_generic_reason (fst kv)) existing \<and>
      list_ex (\<lambda>kv. \<not> is_generic_reason (fst kv)) reconstructed)"

text \<open>\<open>_reconstructed_loop_state\<close>: the failures in a row, the counts and the state after each iteration.\<close>

definition reconstruct_step ::
  "string \<Rightarrow> int \<times> counts \<times> pydict \<Rightarrow> pyval \<Rightarrow> int \<times> counts \<times> pydict" where
  "reconstruct_step now acc v = (case acc of (failures, cs, state) \<Rightarrow> (case v of
      PyDict it \<Rightarrow>
        (let outcome = text_field it ''outcome'';
             promoted = (outcome = ''promoted'');
             failures' = (if promoted then 0 else if outcome \<noteq> [] then failures + 1 else failures);
             cs' = (if promoted \<or> outcome = [] then cs else add_count cs (iteration_reason it));
             reason = (if promoted \<or> outcome = [] then '''' else iteration_reason it)
         in (failures', cs',
             loop_state_record failures' outcome (text_field it ''decision'') (text_field it ''run_id'')
               reason cs' False '''' REMEDIATION_BACKLOG_REPORT now))
    | _ \<Rightarrow> (failures, cs, state)))"

definition reconstructed_loop_state :: "pydict \<Rightarrow> string \<Rightarrow> pydict res" where
  "reconstructed_loop_state session now =
     bindr (session_iterations session) (\<lambda>its.
       Inr (snd (snd (foldl (reconstruct_step now) (0, [], empty_loop_state now) its))))"

definition or_text :: "string \<Rightarrow> string \<Rightarrow> string" where
  "or_text t dflt = (if t = [] then dflt else t)"

definition normalize_loop_state :: "pydict \<Rightarrow> string \<Rightarrow> pydict res" where
  "normalize_loop_state session now = (case dget session ''loop_state'' PyNone of
      PyDict existing \<Rightarrow>
        bindr (reconstructed_loop_state session now) (\<lambda>rebuilt.
          let rebuilt_counts = normalize_blocking_reason_counts (dget rebuilt ''blocking_reason_counts'' PyNone);
              existing_counts = normalize_blocking_reason_counts (dget existing ''blocking_reason_counts'' PyNone);
              prefer = should_prefer_reconstructed_blocking_counts existing_counts rebuilt_counts;
              cs = (if prefer \<or> existing_counts = [] then rebuilt_counts else existing_counts);
              last_reason = text_field (if prefer then rebuilt else existing) ''last_blocking_reason'';
              repeated = text_field existing ''repeated_blocker_reason'';
              repeated' = (if is_generic_reason repeated \<and> last_reason \<noteq> [] \<and> \<not> is_generic_reason last_reason
                           then last_reason else repeated)
          in Inr (loop_state_record (max 0 (int_value (dget existing ''consecutive_failures'' PyNone) 0))
               (text_field existing ''last_outcome'') (text_field existing ''last_decision'')
               (text_field existing ''last_run_id'') last_reason cs
               (py_truth (dget existing ''repeated_blocker_stop'' (PyBool False))) repeated'
               (or_text (str_strip (dget existing ''remediation_backlog_path'' (PyStr REMEDIATION_BACKLOG_REPORT)))
                 REMEDIATION_BACKLOG_REPORT)
               (or_text (text_field existing ''updated_at'') now)))
    | _ \<Rightarrow> reconstructed_loop_state session now)"

definition ensure_session_loop_state :: "pydict \<Rightarrow> string \<Rightarrow> pydict res" where
  "ensure_session_loop_state session now =
     bindr (normalize_loop_state session now) (\<lambda>s. Inr (dset ''loop_state'' (PyDict s) session))"

subsection \<open>The conditions on which the loop stops\<close>

definition is_open_repeat_backlog_item :: "pydict \<Rightarrow> bool" where
  "is_open_repeat_backlog_item it =
     (py_lower (text_field it ''status'') = ''open'' \<and>
      (text_field it ''severity'' = ''blocks_repeat'' \<or>
       text_field it ''item_type'' \<in> {''repeated_auto_improve_blocker'', ''repeated_negative_lesson''}))"

definition open_repeat_backlog_items :: "pydict \<Rightarrow> pydict list" where
  "open_repeat_backlog_items report =
     sort_key (\<lambda>it. (text_field it ''item_id'', text_field it ''blocker_id''))
       (filter is_open_repeat_backlog_item
         (map the_dict (filter is_dict (the_list (dget report ''items'' PyNone)))))"

definition backlog_item_reason :: "pydict \<Rightarrow> string" where
  "backlog_item_reason it =
     or_text (text_field it ''blocker_id'') (or_text (text_field it ''item_id'') (text_field it ''item_type''))"

definition open_repeat_backlog_blocker_reason :: "pydict \<Rightarrow> string" where
  "open_repeat_backlog_blocker_reason report =
     (case find (\<lambda>t. t \<noteq> []) (map backlog_item_reason (open_repeat_backlog_items report)) of
        Some t \<Rightarrow> t | None \<Rightarrow> '''')"

definition proposal_repairs_repeat_backlog :: "pydict option \<Rightarrow> bool" where
  "proposal_repairs_repeat_backlog proposal = (case proposal of None \<Rightarrow> False
    | Some p \<Rightarrow> list_texts (dget p ''blocked_by'' PyNone) = [] \<and>
        (text_field p ''family'' = ''next_run_failure_repair'' \<or>
         text_field p ''failure_mode'' = ''next_run_failure_repair'' \<or>
         py_startswith (text_field p ''proposal_id'') ''next_run_failure_repair__''))"

definition repeated_blocker_reason :: "pydict \<Rightarrow> string res" where
  "repeated_blocker_reason session =
     (let cs = normalize_blocking_reason_counts
                 (dget (mapping_value session ''loop_state'') ''blocking_reason_counts'' PyNone)
      in bindr (if cs = [] then blocking_reason_counts_from_iterations session else Inr cs) (\<lambda>cs'.
        Inr (case find (\<lambda>kv. snd kv \<ge> REPEATED_BLOCKER_THRESHOLD) (sort_key fst cs') of
               Some kv \<Rightarrow> fst kv | None \<Rightarrow> '''')))"

definition mark_repeated_blocker_stop :: "pydict \<Rightarrow> string \<Rightarrow> string \<Rightarrow> pydict res" where
  "mark_repeated_blocker_stop session reason now =
     bindr (normalize_loop_state session now) (\<lambda>state.
       let cs = normalize_blocking_reason_counts (dget state ''blocking_reason_counts'' PyNone);
           cs' = dset reason (max (dget cs reason 0) REPEATED_BLOCKER_THRESHOLD) cs
       in Inr (dset ''loop_state'' (PyDict
            (dset ''remediation_backlog_path'' (PyStr REMEDIATION_BACKLOG_REPORT)
            (dset ''repeated_blocker_reason'' (PyStr reason)
            (dset ''repeated_blocker_stop'' (PyBool True)
            (dset ''blocking_reason_counts'' (count_value cs') state))))) session))"

definition budget_item :: "pydict \<Rightarrow> string \<Rightarrow> int res" where
  "budget_item session k = bindr (ditem session ''budget'') (\<lambda>b. bindr (py_item b k) py_as_int)"

definition iteration_count :: "pydict \<Rightarrow> int res" where
  "iteration_count session = py_len (dget session ''iterations'' (PyList []))"

subsection \<open>Recording an iteration\<close>

text \<open>The counts that the update of the state keeps: only integers, unlike the normalisation.\<close>

definition keep_count :: "counts \<Rightarrow> string \<times> pyval \<Rightarrow> counts" where
  "keep_count cs kv =
     (let reason = py_strip (fst kv) in
      case snd kv of PyInt n \<Rightarrow> if reason = [] then cs else dset reason (max 0 n) cs | _ \<Rightarrow> cs)"

definition update_session_loop_state ::
  "pydict \<Rightarrow> string \<Rightarrow> execution_outcome \<Rightarrow> string \<Rightarrow> int \<Rightarrow> string \<Rightarrow> string \<Rightarrow> pydict" where
  "update_session_loop_state session run_id o1 dcn failures taxonomy now =
     (let outcome = py_strip (eo_outcome o1);
          terminal = is_terminal_success o1;
          reason = or_text (py_strip taxonomy) outcome;
          existing = mapping_value session ''loop_state'';
          cs = foldl keep_count [] (the_dict (dget existing ''blocking_reason_counts'' PyNone));
          cs' = (if reason \<noteq> [] \<and> \<not> terminal then add_count cs reason else cs)
      in dset ''loop_state'' (PyDict (loop_state_record (max 0 failures) outcome (py_strip dcn) run_id
            (if terminal then '''' else reason) cs'
            (py_truth (dget existing ''repeated_blocker_stop'' (PyBool False)))
            (text_field existing ''repeated_blocker_reason'')
            (or_text (str_strip (dget existing ''remediation_backlog_path'' (PyStr REMEDIATION_BACKLOG_REPORT)))
              REMEDIATION_BACKLOG_REPORT) now)) session)"

subsection \<open>The class of a finished session\<close>

definition last_iteration_was_promoted :: "pydict \<Rightarrow> bool" where
  "last_iteration_was_promoted session = (case dget session ''iterations'' PyNone of
      PyList its \<Rightarrow> (case rev its of
          PyDict it # _ \<Rightarrow> text_field it ''decision'' = ''PROMOTE'' \<or> text_field it ''outcome'' = ''promoted'' \<or>
                           text_field it ''status'' = ''promoted''
        | _ \<Rightarrow> False)
    | _ \<Rightarrow> False)"

definition completion_class_for_session :: "pydict \<Rightarrow> string \<Rightarrow> string" where
  "completion_class_for_session session reason =
     (if reason = ''proposal_budget_exhausted'' \<and> last_iteration_was_promoted session
      then ''bounded_success_after_promotion''
      else if reason \<in> {''proposal_budget_exhausted'', ''queue_exhausted'', ''time_budget_exhausted'',
                        ''failure_budget_exhausted'', GENERATED_EVIDENCE_SETTLE_REQUIRED} then reason
      else if reason = ''repeated_blocker_backlog_required'' then ''blocked_repair_required''
      else ''stopped'')"

section \<open>The start of a session\<close>

text \<open>
  \<open>auto_improve_session_start_runtime.py\<close>: the budgets of a session and the goal contract that bounds
  them, and \<open>auto_improve_learning_preflight_runtime.py\<close>: whether the learning gate lets it start.
\<close>

subsection \<open>Budgets\<close>

record budget_request =
  br_max_proposals :: pyval
  br_max_minutes :: pyval
  br_max_consecutive_failures :: pyval

fun positive_budget :: "pyval \<Rightarrow> int option" where
  "positive_budget (PyInt n) = (if n < 1 then None else Some n)"
| "positive_budget _ = None"

definition resolve_budget_value :: "string \<Rightarrow> pyval \<Rightarrow> pyval \<Rightarrow> int res" where
  "resolve_budget_value name v dflt =
     (case positive_budget (if v = PyNone then dflt else v) of
        Some n \<Rightarrow> Inr n
      | None \<Rightarrow> Inl (AutoImproveUsageError (name @ '' must be an integer greater than or equal to 1'')))"

definition int_or :: "int \<Rightarrow> int \<Rightarrow> int" where
  "int_or n m = (if n \<noteq> 0 then n else m)"

definition budget_record :: "int \<Rightarrow> int \<Rightarrow> int \<Rightarrow> pydict" where
  "budget_record proposals minutes failures =
     [(''max_proposals'', PyInt proposals), (''max_minutes'', PyInt minutes),
      (''max_consecutive_failures'', PyInt failures)]"

definition resumed_default :: "pydict \<Rightarrow> pydict \<Rightarrow> string \<Rightarrow> pyval" where
  "resumed_default budget defaults k =
     PyInt (int_or (int_value (dget budget k PyNone) 0) (int_value (dget defaults k PyNone) 0))"

definition resolve_budgets ::
  "(string \<Rightarrow> pyval res) \<Rightarrow> budget_request \<Rightarrow> pydict res" where
  "resolve_budgets dflt r =
     bindr (bindr (dflt ''max_proposals'')
       (resolve_budget_value ''max_proposals'' (br_max_proposals r))) (\<lambda>p.
     bindr (bindr (dflt ''max_minutes'')
       (resolve_budget_value ''max_minutes'' (br_max_minutes r))) (\<lambda>m.
     bindr (bindr (dflt ''max_consecutive_failures'')
       (resolve_budget_value ''max_consecutive_failures'' (br_max_consecutive_failures r))) (\<lambda>f.
       Inr (budget_record p m f))))"

definition apply_resume_budget_overrides :: "pydict \<Rightarrow> pydict \<Rightarrow> budget_request \<Rightarrow> pydict res" where
  "apply_resume_budget_overrides session auto_policy r =
     (let budget = mapping_value session ''budget''; defaults = mapping_value auto_policy ''defaults''
      in bindr (resolve_budgets (\<lambda>k. Inr (resumed_default budget defaults k)) r) (\<lambda>b.
           Inr (dset ''budget'' (PyDict b) session)))"

subsection \<open>The goal contract\<close>

definition positive_contract_int :: "pydict \<Rightarrow> string \<Rightarrow> string \<Rightarrow> int res" where
  "positive_contract_int payload k scope =
     (case positive_budget (dget payload k PyNone) of
        Some n \<Rightarrow> Inr n
      | None \<Rightarrow> Inl (AutoImproveUsageError
          (''goal contract '' @ scope @ ''.'' @ k @ '' must be an integer >= 1'')))"

text \<open>\<open>semantic_goal_contract_payload\<close> and its digest; \<open>sha256\<close> is a parameter.\<close>

definition is_envelope_property :: "pyval \<Rightarrow> bool" where
  "is_envelope_property v = (case v of
      PyDict p \<Rightarrow> text_field p ''name'' = ''urn:openai:artifact-envelope'' | _ \<Rightarrow> False)"

definition dremove :: "string \<Rightarrow> pydict \<Rightarrow> pydict" where
  "dremove k d = filter (\<lambda>kv. fst kv \<noteq> k) d"

definition semantic_goal_contract_payload :: "pydict \<Rightarrow> pydict" where
  "semantic_goal_contract_payload contract = (case dget contract ''metadata'' PyNone of
      PyDict meta \<Rightarrow>
        (let meta' = (case dget meta ''properties'' PyNone of
               PyList ps \<Rightarrow>
                 (let kept = filter (\<lambda>p. \<not> is_envelope_property p) ps
                  in if kept \<noteq> [] then dset ''properties'' (PyList kept) meta else dremove ''properties'' meta)
             | _ \<Rightarrow> meta)
         in if meta' = [] then dremove ''metadata'' contract else dset ''metadata'' (PyDict meta') contract)
    | _ \<Rightarrow> contract)"

definition semantic_goal_contract_digest :: "(string \<Rightarrow> string) \<Rightarrow> pydict \<Rightarrow> string" where
  "semantic_goal_contract_digest sha256 contract =
     sha256 (json_canonical (PyDict (semantic_goal_contract_payload contract)))"

definition contract_policy :: "pydict \<Rightarrow> string \<Rightarrow> pydict" where
  "contract_policy contract k = mapping_value (mapping_value contract ''execution_policy'') k"

definition goal_contract_snapshot :: "(string \<Rightarrow> string) \<Rightarrow> string \<Rightarrow> string \<Rightarrow> pydict \<Rightarrow> pydict res" where
  "goal_contract_snapshot sha256 path requested contract =
     (let budgets = mapping_value contract ''budgets'';
          runtime = mapping_value contract ''runtime'';
          guard = mapping_value contract ''promotion_guard''
      in bindr (positive_contract_int budgets ''max_wall_clock_seconds'' ''budgets'') (\<lambda>wall.
         bindr (positive_contract_int runtime ''max_unattended_seconds'' ''runtime'') (\<lambda>unattended.
         bindr (positive_contract_int budgets ''max_proposals'' ''budgets'') (\<lambda>proposals.
         bindr (positive_contract_int budgets ''max_consecutive_failures'' ''budgets'') (\<lambda>failures.
         Inr [(''path'', PyStr path), (''requested_path'', PyStr requested),
              (''contract_sha256'', PyStr (semantic_goal_contract_digest sha256 contract)),
              (''contract_id'', PyStr (text_field contract ''contract_id'')),
              (''status'', PyStr (text_field contract ''status'')),
              (''runtime_mode'', PyStr (text_field runtime ''mode'')),
              (''max_wall_clock_seconds'', PyInt wall), (''max_unattended_seconds'', PyInt unattended),
              (''max_proposals'', PyInt proposals), (''max_consecutive_failures'', PyInt failures),
              (''can_promote_result'', PyBool (py_truth (dget guard ''can_promote_result'' (PyBool False)))),
              (''promotion_blockers'', py_strs (list_texts (dget guard ''promotion_blockers'' PyNone))),
              (''execution_policy'', PyDict
                 [(''learning_uncertain'', PyDict (contract_policy contract ''learning_uncertain'')),
                  (''post_promote_maintenance'', PyDict (contract_policy contract ''post_promote_maintenance''))])])))))"

definition exceeds_text :: "string \<Rightarrow> int \<Rightarrow> int \<Rightarrow> string" where
  "exceeds_text name requested allowed =
     name @ '' exceeds goal contract budget: requested '' @ int_text requested @
     '', contract allows '' @ int_text allowed"

definition validate_goal_contract_budget :: "pydict \<Rightarrow> pydict \<Rightarrow> unit res" where
  "validate_goal_contract_budget session snapshot =
     (let budget = mapping_value session ''budget''
      in bindr (positive_contract_int budget ''max_proposals'' ''session.budget'') (\<lambda>proposals.
         bindr (positive_contract_int budget ''max_minutes'' ''session.budget'') (\<lambda>minutes.
         bindr (positive_contract_int budget ''max_consecutive_failures'' ''session.budget'') (\<lambda>failures.
         bindr (positive_contract_int snapshot ''max_proposals'' ''snapshot'') (\<lambda>c_proposals.
         bindr (positive_contract_int snapshot ''max_consecutive_failures'' ''snapshot'') (\<lambda>c_failures.
         bindr (positive_contract_int snapshot ''max_wall_clock_seconds'' ''snapshot'') (\<lambda>wall.
         bindr (positive_contract_int snapshot ''max_unattended_seconds'' ''snapshot'') (\<lambda>unattended.
         let seconds = min wall unattended in
         if proposals > c_proposals
         then Inl (AutoImproveUsageError (exceeds_text ''max_proposals'' proposals c_proposals))
         else if failures > c_failures
         then Inl (AutoImproveUsageError (exceeds_text ''max_consecutive_failures'' failures c_failures))
         else if minutes * 60 > seconds
         then Inl (AutoImproveUsageError
           (''max_minutes exceeds goal contract budget: requested '' @ int_text minutes @
            ''m, contract allows '' @ int_text (seconds div 60) @ ''m ('' @ int_text seconds @ ''s)''))
         else Inr ()))))))))"

definition session_goal_contract_path :: "pydict \<Rightarrow> string" where
  "session_goal_contract_path session =
     (let contract = mapping_value session ''goal_contract''
      in py_strip (str_or_empty (py_or (dget contract ''requested_path'' PyNone) (dget contract ''path'' PyNone))))"

definition MAINTENANCE_ACTION_RUNNER_ACTION :: string where
  "MAINTENANCE_ACTION_RUNNER_ACTION = ''resume_session_with_additional_proposal_budget''"

definition session_allows_maintenance_action_budget_increment :: "pydict \<Rightarrow> pydict \<Rightarrow> pydict \<Rightarrow> bool" where
  "session_allows_maintenance_action_budget_increment session existing snapshot =
     (let action = mapping_value (mapping_value session ''maintenance'') ''queue_action'';
          increment = int_value (dget action ''proposal_budget_increment'' PyNone) 0;
          existing_max = int_value (dget existing ''max_proposals'' PyNone) 0;
          snapshot_max = int_value (dget snapshot ''max_proposals'' PyNone) 0;
          session_max = int_value (dget (mapping_value session ''budget'') ''max_proposals'' PyNone) 0
      in text_field action ''status'' = ''action_required'' \<and>
         text_field action ''runner_action'' = MAINTENANCE_ACTION_RUNNER_ACTION \<and>
         text_field session ''stop_reason'' = ''proposal_budget_exhausted'' \<and>
         increment \<ge> 1 \<and> existing_max > 0 \<and> session_max > existing_max \<and>
         snapshot_max = session_max \<and> session_max \<le> existing_max + increment)"

definition same_when_both :: "pydict \<Rightarrow> pydict \<Rightarrow> string \<Rightarrow> bool" where
  "same_when_both existing snapshot k =
     (let a = text_field existing k; b = text_field snapshot k in a = [] \<or> b = [] \<or> a = b)"

definition budget_not_raised :: "pydict \<Rightarrow> pydict \<Rightarrow> string \<Rightarrow> bool" where
  "budget_not_raised existing snapshot k =
     (let a = int_value (dget existing k PyNone) 0; b = int_value (dget snapshot k PyNone) 0
      in \<not> (a > 0 \<and> b > a))"

definition compatible_goal_contract_refresh :: "pydict \<Rightarrow> pydict \<Rightarrow> bool \<Rightarrow> bool" where
  "compatible_goal_contract_refresh existing snapshot allow =
     (list_all (same_when_both existing snapshot) [''contract_id'', ''runtime_mode'', ''path''] \<and>
      list_all (\<lambda>k. k = ''max_proposals'' \<and> allow \<or> budget_not_raised existing snapshot k)
        [''max_wall_clock_seconds'', ''max_unattended_seconds'', ''max_proposals'',
         ''max_consecutive_failures''])"

text \<open>\<open>_attach_goal_contract_snapshot\<close>, with the snapshot that was loaded.\<close>

definition attach_goal_contract_snapshot :: "pydict \<Rightarrow> pydict \<Rightarrow> pydict res" where
  "attach_goal_contract_snapshot session snapshot =
     bindr (validate_goal_contract_budget session snapshot) (\<lambda>_.
       let existing = mapping_value session ''goal_contract'';
           digest = text_field existing ''contract_sha256'';
           allow = session_allows_maintenance_action_budget_increment session existing snapshot
       in bindr (ditem snapshot ''contract_sha256'') (\<lambda>sha.
            if digest \<noteq> [] \<and> PyStr digest \<noteq> sha \<and> \<not> compatible_goal_contract_refresh existing snapshot allow
            then Inl (AutoImproveUsageError
              (''resume goal contract digest mismatch: '' @ digest @ '' != '' @ py_str sha))
            else Inr (dset ''goal_contract'' (PyDict snapshot) session)))"

subsection \<open>Starting and resuming\<close>

record session_request =
  sq_session_id :: "string option"
  sq_resume :: "string option"
  sq_contract_path :: "string option"
  sq_budgets :: budget_request
  sq_executor :: "string option"
  sq_artifact_class :: string
  sq_allow_learning_uncertain :: bool
  sq_maintain_until_budget :: bool
  sq_maintenance_interval :: pyval
  sq_post_promote_cycles :: pyval

definition validate_auto_improve_request :: "pydict \<Rightarrow> string \<Rightarrow> string option \<Rightarrow> pyval res" where
  "validate_auto_improve_request auto_policy artifact_class executor =
     bindr (ditem auto_policy ''artifact_class'') (\<lambda>cls.
     if PyStr artifact_class \<noteq> cls
     then Inl (AutoImproveUsageError (''unsupported artifact class: '' @ artifact_class))
     else bindr (if str_truth executor then Inr (PyStr (the executor))
                 else bindr (ditem auto_policy ''defaults'') (\<lambda>d. py_item d ''executor'')) (\<lambda>requested.
     bindr (ditem auto_policy ''allowed_executors'') (\<lambda>v. bindr (py_iter v) (\<lambda>allowed.
     if requested \<notin> set allowed
     then Inl (AutoImproveUsageError (''unsupported executor: '' @ py_str requested @
            ''; allowed executors: '' @ py_join '', '' (py_sorted_set (map the_str allowed))))
     else Inr requested))))"

definition validate_resume_executor :: "pydict \<Rightarrow> string option \<Rightarrow> pyval list \<Rightarrow> unit res" where
  "validate_resume_executor session executor allowed =
     bindr (py_get (dget session ''executor'' (PyDict [])) ''name'' (PyStr '''')) (\<lambda>v.
       let name = str_strip v in
       if PyStr name \<notin> set allowed
       then Inl (AutoImproveUsageError (''unsupported executor in resumed session: '' @ name @
              ''; allowed executors: '' @ py_join '', '' (py_sorted_set (map the_str allowed))))
       else (case executor of
         Some x \<Rightarrow> if x \<noteq> name
           then Inl (AutoImproveUsageError (''resume executor mismatch: '' @ x @ '' != '' @ name)) else Inr ()
       | None \<Rightarrow> Inr ()))"

text \<open>A method of \<open>str\<close> on a value that need not be one; \<open>text.rstrip("/")\<close>.\<close>

fun py_text :: "pyval \<Rightarrow> string res" where
  "py_text (PyStr s) = Inr s"
| "py_text _ = Inl AttributeError"

definition rstrip_slash :: "string \<Rightarrow> string" where
  "rstrip_slash s = rev (dropWhile (\<lambda>c. c = slash) (rev s))"

definition AUTO_IMPROVE_SESSION_SCHEMA :: string where
  "AUTO_IMPROVE_SESSION_SCHEMA = ''ops/schemas/auto-improve-session.schema.json''"

definition empty_learning_summary :: pydict where
  "empty_learning_summary =
     [(''attempt_count'', PyInt 0), (''rework_count'', PyInt 0), (''rollback_signal_count'', PyInt 0),
      (''defect_escape_pair_count'', PyInt 0), (''session_context_status'', PyStr ''no_iterations''),
      (''evidence_gaps'', py_strs [''session.iterations is empty'', ''session.run_ids is empty''])]"

definition new_auto_improve_session ::
  "pydict \<Rightarrow> pydict \<Rightarrow> string \<Rightarrow> string \<Rightarrow> budget_request \<Rightarrow> pyval \<Rightarrow> string \<Rightarrow> pydict res" where
  "new_auto_improve_session auto_policy policy policy_path session_id r executor now =
     bindr (ditem policy ''version'') (\<lambda>version.
     bindr (resolve_budgets (\<lambda>k. bindr (ditem auto_policy ''defaults'') (\<lambda>d. py_item d k)) r) (\<lambda>budget.
     bindr (bindr (ditem auto_policy ''session_reports_dir'') py_text) (\<lambda>dir.
       Inr [(''$schema'', PyStr AUTO_IMPROVE_SESSION_SCHEMA), (''session_id'', PyStr session_id),
            (''generated_at'', PyStr now),
            (''policy'', PyDict [(''path'', PyStr policy_path), (''version'', version)]),
            (''status'', PyStr ''running''), (''budget'', PyDict budget),
            (''executor'', PyDict [(''name'', executor)]),
            (''attempted_proposal_ids'', PyList []), (''quarantined_proposal_ids'', PyList []),
            (''run_ids'', PyList []), (''iterations'', PyList []), (''next_run_decisions'', PyList []),
            (''learning_summary'', PyDict empty_learning_summary),
            (''loop_state'', PyDict (empty_loop_state now)), (''queue_snapshot'', PyList []),
            (''stop_reason'', PyStr ''running''),
            (''path'', PyStr (rstrip_slash dir @ ''/'' @ session_id @ ''.json''))])))"

text \<open>
  The decisions of an earlier session of this name are carried over; a report that cannot be read is as
  good as none.
\<close>

definition carry_forward_next_run_decisions :: "pydict res \<Rightarrow> pydict \<Rightarrow> pydict res" where
  "carry_forward_next_run_decisions previous session = (case previous of
      Inl (AutoImproveUsageError _) \<Rightarrow> Inr session
    | Inl e \<Rightarrow> if is_os_error e \<or> is_value_error e then Inr session else Inl e
    | Inr report \<Rightarrow>
        (let ds = normalize_next_run_decisions (dget report ''next_run_decisions'' PyNone)
         in Inr (if ds \<noteq> [] then dset ''next_run_decisions'' (PyList ds) session else session)))"

text \<open>\<open>"auto-improve-" + re.sub(r"[^0-9a-z]+", "-", now.lower()).strip("-")\<close>\<close>

definition new_session_id :: "string \<Rightarrow> string" where
  "new_session_id now = ''auto-improve-'' @ lower_slug now"

text \<open>
  \<open>_start_auto_improve_session\<close>, given the policy, the reports it may load (by session identifier) and
  the contract snapshot (by path): the session with its identifier and the path of its contract, resumed
  or new, and then the policy of the loop, the session and its identifier.
\<close>

definition resumed_session ::
  "pydict \<Rightarrow> (string \<Rightarrow> pydict res) \<Rightarrow> string \<Rightarrow> session_request \<Rightarrow> (pydict \<times> string \<times> string) res" where
  "resumed_session auto_policy load_session now r =
     bindr (load_session (the (sq_resume r))) (\<lambda>loaded.
     bindr (apply_resume_budget_overrides loaded auto_policy (sq_budgets r)) (\<lambda>s1.
     bindr (ensure_session_loop_state s1 now) (\<lambda>s2.
     bindr (bindr (ditem auto_policy ''allowed_executors'') py_iter) (\<lambda>allowed.
     bindr (validate_resume_executor s2 (sq_executor r) allowed) (\<lambda>_.
       Inr (s2, the (sq_resume r), str_or (sq_contract_path r) (session_goal_contract_path s2)))))))"

definition fresh_session ::
  "pydict \<Rightarrow> pydict \<Rightarrow> string \<Rightarrow> pyval \<Rightarrow> (string \<Rightarrow> pydict res) \<Rightarrow> string \<Rightarrow> session_request \<Rightarrow>
   (pydict \<times> string \<times> string) res" where
  "fresh_session auto_policy policy policy_path executor load_session now r =
     (let sid = str_or (sq_session_id r) (new_session_id now) in
      bindr (new_auto_improve_session auto_policy policy policy_path sid (sq_budgets r) executor now) (\<lambda>s1.
      bindr (carry_forward_next_run_decisions (load_session sid) s1) (\<lambda>s2.
        Inr (s2, sid, str_or (sq_contract_path r) ''''))))"

definition start_auto_improve_session ::
  "pydict \<Rightarrow> string \<Rightarrow> (string \<Rightarrow> pydict res) \<Rightarrow> (string \<Rightarrow> pydict res) \<Rightarrow> string \<Rightarrow> session_request \<Rightarrow>
   (pydict \<times> pydict \<times> string) res" where
  "start_auto_improve_session policy policy_path load_session load_snapshot now r =
     bindr (ditem policy ''auto_improve_policy'') (\<lambda>v. bindr (py_dict v) (\<lambda>auto_policy.
     bindr (validate_auto_improve_request auto_policy (sq_artifact_class r) (sq_executor r)) (\<lambda>executor.
     bindr (if str_truth (sq_resume r) then resumed_session auto_policy load_session now r
            else fresh_session auto_policy policy policy_path executor load_session now r)
       (\<lambda>(session, sid, contract_path).
     bindr (if contract_path = [] then Inr session
            else bindr (load_snapshot contract_path) (attach_goal_contract_snapshot session)) (\<lambda>session'.
       Inr (auto_policy, session', sid))))))"

subsection \<open>The learning gate\<close>

record learning_decision =
  ld_review_required :: bool
  ld_blocked :: bool
  ld_mode :: pydict
  ld_next_step :: string

text \<open>A list or a dictionary cannot be looked up in a set.\<close>

fun unhashable :: "pyval \<Rightarrow> bool" where
  "unhashable (PyList _) = True"
| "unhashable (PyDict _) = True"
| "unhashable _ = False"

definition learning_review_required :: "pydict \<Rightarrow> bool res" where
  "learning_review_required report = (case dget report ''learning_readiness'' PyNone of
      PyDict learning \<Rightarrow>
        (let effect = dget learning ''gate_effect'' PyNone in
         if unhashable effect then Inl TypeError
         else Inr (effect = PyStr ''operator_review_required'' \<or> effect = PyStr ''review_required''))
    | _ \<Rightarrow> Inr False)"

definition policy_authorizes_learning_uncertain :: "pydict \<Rightarrow> bool" where
  "policy_authorizes_learning_uncertain p =
     (dget p ''allow_bounded_trial'' PyNone = PyBool True \<and>
      dget p ''requires_explicit_authorization'' PyNone = PyBool True \<and>
      text_field p ''authorization_source'' = ''codex_goal_contract'')"

definition session_learning_policy :: "pydict \<Rightarrow> pydict" where
  "session_learning_policy session =
     mapping_value (mapping_value (mapping_value session ''goal_contract'') ''execution_policy'')
       ''learning_uncertain''"

definition learning_review_required_message :: "pydict \<Rightarrow> string" where
  "learning_review_required_message report =
     or_text (text_field (mapping_value report ''learning_readiness'') ''recommended_next_step'')
       (''Auto-improve learning readiness requires explicit review before execution. '' @
        ''Rerun with --allow-learning-uncertain only for a bounded trial.'')"

definition build_learning_preflight_decision :: "pydict \<Rightarrow> pydict \<Rightarrow> bool \<Rightarrow> learning_decision res" where
  "build_learning_preflight_decision session report allow =
     bindr (learning_review_required report) (\<lambda>review.
      let p = session_learning_policy session;
          authorized = policy_authorizes_learning_uncertain p;
          effective = (allow \<or> authorized);
          source = (if allow then ''command_flag''
                    else if authorized then text_field p ''authorization_source'' else '''')
      in Inr \<lparr>ld_review_required = review, ld_blocked = (review \<and> \<not> effective),
          ld_mode =
            [(''allow_learning_uncertain'', PyBool effective),
             (''bounded_trial'', PyBool (review \<and> effective)),
             (''authorization_source'', PyStr source), (''contract_authorized'', PyBool authorized),
             (''command_flag'', PyStr (or_text (text_field p ''command_flag'')
                (if allow then ''--allow-learning-uncertain'' else '''')))],
          ld_next_step = (if review \<and> \<not> effective then learning_review_required_message report else '''')\<rparr>)"

definition apply_learning_preflight_session_fields ::
  "pydict \<Rightarrow> learning_decision \<Rightarrow> string list \<Rightarrow> pydict \<Rightarrow> pydict" where
  "apply_learning_preflight_session_fields session ld queue readiness =
     dset ''pre_run_readiness'' (PyDict readiness)
     (dset ''learning_mode'' (PyDict (ld_mode ld))
     (dset ''queue_snapshot'' (py_strs queue)
     (dset ''stop_reason'' (PyStr (if ld_blocked ld then ''learning_review_required'' else ''running''))
     (dset ''status'' (PyStr (if ld_blocked ld then ''blocked'' else ''running'')) session))))"

subsection \<open>A contract bounds the session it is attached to\<close>

definition ai_int_field :: "pydict \<Rightarrow> string \<Rightarrow> int" where
  "ai_int_field d k = int_value (dget d k PyNone) 0"

lemma positive_budget_Some: "positive_budget v = Some n \<longleftrightarrow> v = PyInt n \<and> 1 \<le> n"
  by (cases v) auto

lemma positive_contract_int_Inr:
  "positive_contract_int d k scope = Inr n \<Longrightarrow> ai_int_field d k = n \<and> 1 \<le> n"
  by (auto simp: positive_contract_int_def ai_int_field_def positive_budget_Some split: option.splits)

lemma resolve_budget_value_Inr: "resolve_budget_value name v dflt = Inr n \<Longrightarrow> 1 \<le> n"
  by (auto simp: resolve_budget_value_def positive_budget_Some split: option.splits)

lemma resolve_budgets_Inr:
  "resolve_budgets dflt r = Inr b \<Longrightarrow> \<exists>p m f. 1 \<le> p \<and> 1 \<le> m \<and> 1 \<le> f \<and> b = budget_record p m f"
  by (auto simp: resolve_budgets_def bindr_eq_Inr dest: resolve_budget_value_Inr)

lemma validate_goal_contract_budget_Inr:
  assumes "validate_goal_contract_budget session snapshot = Inr u"
  shows "ai_int_field (mapping_value session ''budget'') ''max_proposals'' \<le> ai_int_field snapshot ''max_proposals''"
    and "ai_int_field (mapping_value session ''budget'') ''max_consecutive_failures'' \<le>
         ai_int_field snapshot ''max_consecutive_failures''"
    and "ai_int_field (mapping_value session ''budget'') ''max_minutes'' * 60 \<le>
         min (ai_int_field snapshot ''max_wall_clock_seconds'') (ai_int_field snapshot ''max_unattended_seconds'')"
  using assms
  by (auto simp: validate_goal_contract_budget_def bindr_eq_Inr Let_def not_less
      dest!: positive_contract_int_Inr split: if_splits)

lemma compatible_refresh_bounds:
  assumes "compatible_goal_contract_refresh existing snapshot allow"
    and "k \<in> {''max_wall_clock_seconds'', ''max_unattended_seconds'', ''max_proposals'',
              ''max_consecutive_failures''}"
    and "ai_int_field existing k > 0"
  shows "ai_int_field snapshot k \<le> ai_int_field existing k \<or> k = ''max_proposals'' \<and> allow"
proof -
  have "k \<in> set [''max_wall_clock_seconds'', ''max_unattended_seconds'', ''max_proposals'',
         ''max_consecutive_failures'']"
    using assms(2) by (simp only: list.set)
  then have "k = ''max_proposals'' \<and> allow \<or> budget_not_raised existing snapshot k"
    using assms(1) unfolding compatible_goal_contract_refresh_def list_all_iff by blast
  then show ?thesis
    using assms(3) unfolding budget_not_raised_def ai_int_field_def Let_def by linarith
qed

lemma increment_bounds:
  assumes "session_allows_maintenance_action_budget_increment session existing snapshot"
  shows "ai_int_field snapshot ''max_proposals'' \<le> ai_int_field existing ''max_proposals'' +
    ai_int_field (mapping_value (mapping_value session ''maintenance'') ''queue_action'') ''proposal_budget_increment''"
  using assms by (simp add: session_allows_maintenance_action_budget_increment_def ai_int_field_def Let_def)

lemma mapping_value_dset: "k \<noteq> k' \<Longrightarrow> mapping_value (dset k v d) k' = mapping_value d k'"
  by (simp add: mapping_value_def)

text \<open>
  C24: a session that has a goal contract attached keeps inside it: its proposals, failures and minutes
  do not exceed the contract, and a contract that differs from the one attached before raises none of
  the four budgets of the earlier one, save \<open>max_proposals\<close> by the increment that the recorded
  maintenance action of the session allows.
\<close>

theorem attached_contract_bounds_session:
  assumes "attach_goal_contract_snapshot session snapshot = Inr session'"
  shows "mapping_value session' ''goal_contract'' = snapshot \<and>
    (let budget = mapping_value session' ''budget''; before = mapping_value session ''goal_contract'' in
     ai_int_field budget ''max_proposals'' \<le> ai_int_field snapshot ''max_proposals'' \<and>
     ai_int_field budget ''max_consecutive_failures'' \<le> ai_int_field snapshot ''max_consecutive_failures'' \<and>
     ai_int_field budget ''max_minutes'' * 60 \<le>
       min (ai_int_field snapshot ''max_wall_clock_seconds'') (ai_int_field snapshot ''max_unattended_seconds'') \<and>
     (text_field before ''contract_sha256'' \<noteq> [] \<longrightarrow>
      dget snapshot ''contract_sha256'' PyNone \<noteq> PyStr (text_field before ''contract_sha256'') \<longrightarrow>
      (\<forall>k \<in> {''max_wall_clock_seconds'', ''max_unattended_seconds'', ''max_proposals'',
             ''max_consecutive_failures''}.
         ai_int_field before k > 0 \<longrightarrow>
         ai_int_field snapshot k \<le> ai_int_field before k + (if k = ''max_proposals'' then
           max 0 (ai_int_field (mapping_value (mapping_value session ''maintenance'') ''queue_action'')
                    ''proposal_budget_increment'') else 0))))"
proof -
  let ?before = "mapping_value session ''goal_contract''"
  let ?allow = "session_allows_maintenance_action_budget_increment session ?before snapshot"
  from assms obtain sha where valid: "validate_goal_contract_budget session snapshot = Inr ()"
    and sha: "map_of snapshot ''contract_sha256'' = Some sha"
    and ok: "text_field ?before ''contract_sha256'' = [] \<or>
      PyStr (text_field ?before ''contract_sha256'') = sha \<or>
      compatible_goal_contract_refresh ?before snapshot ?allow"
    and s': "session' = dset ''goal_contract'' (PyDict snapshot) session"
    by (auto simp: attach_goal_contract_snapshot_def bindr_eq_Inr Let_def ditem_eq_Inr split: if_splits)
  have budget: "mapping_value session' ''budget'' = mapping_value session ''budget''"
    and attached: "mapping_value session' ''goal_contract'' = snapshot"
    by (simp_all add: s' mapping_value_def)
  have "ai_int_field snapshot k \<le> ai_int_field ?before k + (if k = ''max_proposals'' then
           max 0 (ai_int_field (mapping_value (mapping_value session ''maintenance'') ''queue_action'')
                    ''proposal_budget_increment'') else 0)"
    if "text_field ?before ''contract_sha256'' \<noteq> []"
      "dget snapshot ''contract_sha256'' PyNone \<noteq> PyStr (text_field ?before ''contract_sha256'')"
      "k \<in> {''max_wall_clock_seconds'', ''max_unattended_seconds'', ''max_proposals'',
             ''max_consecutive_failures''}" "ai_int_field ?before k > 0" for k
  proof -
    have "compatible_goal_contract_refresh ?before snapshot ?allow"
      using ok that(1,2) sha by (auto simp: dget_def)
    from compatible_refresh_bounds[OF this that(3,4)] increment_bounds show ?thesis
      by (cases "k = ''max_proposals''") fastforce+
  qed
  note rest = this
  show ?thesis
    unfolding Let_def budget attached
    by (intro conjI impI ballI refl validate_goal_contract_budget_Inr[OF valid]) (rule rest)
qed

theorem attached_contract_bounds_session_witness:
  "ai_int_field (mapping_value (dset ''goal_contract'' (PyDict
       [(''contract_sha256'', PyStr ''new''), (''max_wall_clock_seconds'', PyInt 600),
        (''max_unattended_seconds'', PyInt 900), (''max_proposals'', PyInt 3),
        (''max_consecutive_failures'', PyInt 2)])
      [(''stop_reason'', PyStr ''proposal_budget_exhausted''),
       (''budget'', PyDict (budget_record 3 10 2)),
       (''maintenance'', PyDict [(''queue_action'', PyDict [(''status'', PyStr ''action_required''),
          (''runner_action'', PyStr ''resume_session_with_additional_proposal_budget''),
          (''proposal_budget_increment'', PyInt 1)])]),
       (''goal_contract'', PyDict [(''contract_sha256'', PyStr ''old''), (''max_proposals'', PyInt 2)])])
      ''budget'') ''max_proposals'' \<le> (3 :: int)"
proof -
  let ?snapshot = "[(''contract_sha256'', PyStr ''new''), (''max_wall_clock_seconds'', PyInt 600),
        (''max_unattended_seconds'', PyInt 900), (''max_proposals'', PyInt 3),
        (''max_consecutive_failures'', PyInt 2)]"
  let ?session = "[(''stop_reason'', PyStr ''proposal_budget_exhausted''),
       (''budget'', PyDict (budget_record 3 10 2)),
       (''maintenance'', PyDict [(''queue_action'', PyDict [(''status'', PyStr ''action_required''),
          (''runner_action'', PyStr ''resume_session_with_additional_proposal_budget''),
          (''proposal_budget_increment'', PyInt 1)])]),
       (''goal_contract'', PyDict [(''contract_sha256'', PyStr ''old''), (''max_proposals'', PyInt 2)])]"
  have "attach_goal_contract_snapshot ?session ?snapshot =
      Inr (dset ''goal_contract'' (PyDict ?snapshot) ?session)"
    by code_simp
  from attached_contract_bounds_session[OF this] show ?thesis
    by (simp add: Let_def ai_int_field_def dget_def)
qed

end
