(* ===== verification/AutoImproveMaintenance.thy ===== *)
theory AutoImproveMaintenance
  imports AutoImproveOutcome
begin

section \<open>Maintenance after the last promotion\<close>

text \<open>
  \<open>mechanism/auto_improve_maintenance_decision_runtime.py\<close>, with
  \<open>auto_improve_promotion_stop_runtime.py\<close> and \<open>_auto_improve_maintenance_completion_runtime.py\<close>: when
  a session that has used up its proposals goes on to refresh its reports, what a refresh records about
  the queue, when the refreshing ends, and the plan to resume the session for a proposal that waits.
\<close>

subsection \<open>Eligibility\<close>

definition resolve_maintenance_interval :: "pyval \<Rightarrow> int res" where
  "resolve_maintenance_interval v =
     (case positive_budget (if v = PyNone then PyInt 300 else v) of
        Some n \<Rightarrow> Inr n
      | None \<Rightarrow> Inl (AutoImproveUsageError
          ''maintenance_interval_seconds must be an integer greater than or equal to 1''))"

definition resolve_post_promote_maintenance_cycles :: "pyval \<Rightarrow> int res" where
  "resolve_post_promote_maintenance_cycles v =
     (case (if v = PyNone then PyInt 1 else v) of
        PyInt n \<Rightarrow> if n < 0 then Inl (AutoImproveUsageError
          ''post_promote_maintenance_cycles must be an integer greater than or equal to 0'') else Inr n
      | _ \<Rightarrow> Inl (AutoImproveUsageError
          ''post_promote_maintenance_cycles must be an integer greater than or equal to 0''))"

fun last_mapping_outcome :: "pyval list \<Rightarrow> string" where
  "last_mapping_outcome [] = ''''"
| "last_mapping_outcome (PyDict it # _) = text_field it ''outcome''"
| "last_mapping_outcome (_ # rest) = last_mapping_outcome rest"

definition last_iteration_outcome :: "pydict \<Rightarrow> string" where
  "last_iteration_outcome session =
     last_mapping_outcome (rev (the_list (dget session ''iterations'' PyNone)))"

definition maintenance_cycle_count :: "pydict \<Rightarrow> int" where
  "maintenance_cycle_count session =
     int_value (dget (mapping_value session ''maintenance'') ''cycle_count'' PyNone) 0"

record maintenance_eligibility =
  me_should_run :: bool
  me_reason :: string
  me_interval :: int
  me_max_cycles :: "int option"
  me_stop_reason :: "string option"
  me_post_promote_cycles :: int

definition not_eligible :: "string \<Rightarrow> string option \<Rightarrow> int \<Rightarrow> maintenance_eligibility" where
  "not_eligible reason stop cycles =
     \<lparr>me_should_run = False, me_reason = reason, me_interval = 300, me_max_cycles = None,
      me_stop_reason = stop, me_post_promote_cycles = cycles\<rparr>"

definition maintenance_run_eligibility ::
  "bool \<Rightarrow> pyval \<Rightarrow> pyval \<Rightarrow> int \<Rightarrow> string \<Rightarrow> string \<Rightarrow> int \<Rightarrow> int \<Rightarrow> maintenance_eligibility res" where
  "maintenance_run_eligibility until_budget cycles interval new_iterations reason last_outcome elapsed target =
     bindr (resolve_post_promote_maintenance_cycles cycles) (\<lambda>n.
     if \<not> until_budget \<and> n = 0 then Inr (not_eligible ''post_promote_maintenance_disabled'' None n)
     else if \<not> until_budget \<and> cycles = PyNone \<and> new_iterations \<le> 0
     then Inr (not_eligible ''default_post_promote_without_new_iteration'' None n)
     else if reason \<noteq> ''proposal_budget_exhausted''
     then Inr (not_eligible ''stop_reason_not_proposal_budget_exhausted'' None n)
     else if last_outcome \<noteq> ''promoted'' then Inr (not_eligible ''last_iteration_not_promoted'' None n)
     else if elapsed \<ge> target
     then Inr (not_eligible ''time_budget_already_exhausted'' (Some ''time_budget_exhausted'') n)
     else bindr (resolve_maintenance_interval interval) (\<lambda>s.
       Inr \<lparr>me_should_run = True, me_reason = ''eligible'', me_interval = s,
            me_max_cycles = (if until_budget then None else Some n), me_stop_reason = None,
            me_post_promote_cycles = n\<rparr>))"

text \<open>\<open>promotion_maintenance_stop_decision\<close>: the same decision, for a session.\<close>

definition promotion_maintenance_stop_decision ::
  "pydict \<Rightarrow> session_request \<Rightarrow> int \<Rightarrow> string \<Rightarrow> int \<Rightarrow> int \<Rightarrow> maintenance_eligibility res" where
  "promotion_maintenance_stop_decision session r new_iterations reason elapsed target =
     maintenance_run_eligibility (sq_maintain_until_budget r) (sq_post_promote_cycles r)
       (sq_maintenance_interval r) new_iterations reason (last_iteration_outcome session) elapsed target"

subsection \<open>The cycles\<close>

definition expected_maintenance_cycle_count :: "int \<Rightarrow> int \<Rightarrow> int \<Rightarrow> int" where
  "expected_maintenance_cycle_count start target interval =
     (if start \<ge> target then 0 else (target - start + interval - 1) div interval + 1)"

definition initial_maintenance_payload :: "string \<Rightarrow> int \<Rightarrow> int \<Rightarrow> int \<Rightarrow> int option \<Rightarrow> pydict" where
  "initial_maintenance_payload started_at target start interval max_cycles =
     (case (case max_cycles of
          None \<Rightarrow> (expected_maintenance_cycle_count start target interval, ''time_budget'')
        | Some n \<Rightarrow> (n, ''post_promote_cycle_limit'')) of (expected, condition) \<Rightarrow>
      [(''mode'', PyStr ''proposal_budget_runtime_maintenance''), (''status'', PyStr ''running''),
       (''started_at'', PyStr started_at), (''completed_at'', PyStr ''''),
       (''target_elapsed_seconds'', PyInt target), (''target_cycle_count'', PyInt expected),
       (''completion_condition'', PyStr condition), (''started_elapsed_seconds'', PyInt start),
       (''interval_seconds'', PyInt interval), (''expected_min_cycle_count'', PyInt expected),
       (''cycle_count'', PyInt 0), (''meaningful_cycle_count'', PyInt 0),
       (''stable_queue_snapshot_count'', PyInt 0), (''stable_queue_snapshot'', PyList []),
       (''queue_action'', PyDict [(''status'', PyStr ''none''), (''reason'', PyStr ''''),
          (''proposal_ids'', PyList []), (''recommended_next_step'', PyStr '''')]),
       (''last_cycle_elapsed_seconds'', PyInt 0), (''stop_reason'', PyStr ''running''),
       (''cycles'', PyList [])])"

definition STABLE_MAINTENANCE_QUEUE_THRESHOLD :: int where
  "STABLE_MAINTENANCE_QUEUE_THRESHOLD = 2"

definition maintenance_terminal_completion_condition ::
  "pydict \<Rightarrow> string \<Rightarrow> int option \<Rightarrow> int \<Rightarrow> int \<Rightarrow> string option" where
  "maintenance_terminal_completion_condition session dflt max_cycles elapsed target =
     (let maintenance = mapping_value session ''maintenance'';
          stable = int_value (dget maintenance ''stable_queue_snapshot_count'' PyNone) 0;
          snapshot = list_texts (dget maintenance ''stable_queue_snapshot'' PyNone);
          cycles = maintenance_cycle_count session
      in if stable \<ge> STABLE_MAINTENANCE_QUEUE_THRESHOLD \<and>
            (snapshot \<noteq> [] \<or> cycles \<ge> STABLE_MAINTENANCE_QUEUE_THRESHOLD)
         then Some ''stable_queue_snapshot''
         else if (case max_cycles of Some n \<Rightarrow> cycles \<ge> n | None \<Rightarrow> False) then Some dflt
         else if elapsed \<ge> target then Some dflt
         else None)"

definition maintenance_completion_stop_reason :: "string \<Rightarrow> string" where
  "maintenance_completion_stop_reason condition =
     (if condition = ''stable_queue_snapshot'' then ''stable_queue_snapshot''
      else if condition = ''post_promote_cycle_limit'' then ''post_promote_cycle_limit_reached''
      else ''time_budget_reached'')"

definition MAINTENANCE_ACTION_RESUME_TARGET :: string where
  "MAINTENANCE_ACTION_RESUME_TARGET = ''auto-improve-goal-maintenance-action''"

definition queue_action_record ::
  "string \<Rightarrow> string \<Rightarrow> string list \<Rightarrow> string \<Rightarrow> int \<Rightarrow> string \<Rightarrow> string \<Rightarrow> pydict" where
  "queue_action_record status reason ids action increment target step =
     [(''status'', PyStr status), (''reason'', PyStr reason), (''proposal_ids'', py_strs ids),
      (''runner_action'', PyStr action), (''proposal_budget_increment'', PyInt increment),
      (''resume_target'', PyStr target), (''recommended_next_step'', PyStr step)]"

definition maintenance_queue_action :: "string list \<Rightarrow> pydict" where
  "maintenance_queue_action queue =
     (if queue = []
      then queue_action_record ''none'' ''queue_empty'' [] ''none'' 0 ''''
        ''Refresh auto-improve readiness and inspect queue remediations.''
      else if list_all (\<lambda>t. py_startswith t ''recent_log_overlap_queue_blocked__'') queue
      then queue_action_record ''action_required'' ''recent_log_overlap_queue_blocked'' queue
        MAINTENANCE_ACTION_RUNNER_ACTION 1 MAINTENANCE_ACTION_RESUME_TARGET
        (''Run make '' @ MAINTENANCE_ACTION_RESUME_TARGET @ '' so the generated '' @
         ''recent-log-overlap queue-unblock proposal can run instead of '' @
         ''repeating maintenance refreshes.'')
      else queue_action_record ''action_required'' ''stable_runnable_queue'' queue
        MAINTENANCE_ACTION_RUNNER_ACTION 1 MAINTENANCE_ACTION_RESUME_TARGET
        (''Run make '' @ MAINTENANCE_ACTION_RESUME_TARGET @ '' so the stable queued '' @
         ''proposal can run with one additional proposal budget slot.''))"

definition maintenance_cycle_queue_metadata :: "pyval list \<Rightarrow> string list \<Rightarrow> int \<Rightarrow> pydict" where
  "maintenance_cycle_queue_metadata cycles queue runnable =
     (let prev = (case rev cycles of PyDict d # _ \<Rightarrow> d | _ \<Rightarrow> []);
          prev_queue = list_texts (dget prev ''queue_snapshot'' PyNone);
          prev_runnable = int_value (dget prev ''runnable_proposal_count'' PyNone) (-1);
          changed = (prev = [] \<or> queue \<noteq> prev_queue);
          stable = (if prev \<noteq> [] \<and> \<not> changed
                    then int_value (dget prev ''stable_queue_snapshot_count'' PyNone) 1 + 1 else 1);
          reasons = (if prev = [] then [''post_promote_observation''] else []) @
                    (if changed \<and> prev \<noteq> [] then [''queue_snapshot_changed''] else []) @
                    (if prev_runnable \<noteq> runnable \<and> prev \<noteq> [] then [''runnable_proposal_count_changed''] else [])
      in [(''queue_snapshot_changed'', PyBool changed), (''stable_queue_snapshot_count'', PyInt stable),
          (''meaningful'', PyBool (reasons \<noteq> [])), (''meaningful_reasons'', py_strs reasons),
          (''queue_action'', PyDict (maintenance_queue_action queue))])"

subsection \<open>Completion\<close>

definition maintenance_already_reached_completion :: "pydict \<Rightarrow> string \<Rightarrow> pydict" where
  "maintenance_already_reached_completion session now =
     dset ''stop_reason'' (PyStr ''time_budget_already_reached'')
     (dset ''completed_at'' (PyStr now)
     (dset ''status'' (PyStr ''complete'') (mapping_value session ''maintenance'')))"

definition maintenance_completion :: "pydict \<Rightarrow> string \<Rightarrow> string \<Rightarrow> int \<Rightarrow> pydict \<times> string option" where
  "maintenance_completion session condition now last_elapsed =
     (let reason = maintenance_completion_stop_reason condition in
      (dset ''last_cycle_elapsed_seconds'' (PyInt last_elapsed)
       (dset ''stop_reason'' (PyStr reason)
       (dset ''completion_condition'' (PyStr condition)
       (dset ''completed_at'' (PyStr now)
       (dset ''status'' (PyStr ''complete'') (mapping_value session ''maintenance''))))),
       if reason = ''time_budget_reached'' then Some ''time_budget_exhausted'' else None))"

subsection \<open>The plan to resume\<close>

definition maintenance_action_queue_payload :: "pydict \<Rightarrow> pydict" where
  "maintenance_action_queue_payload maintenance =
     (let payload = dupdate (queue_action_record ''none'' '''' [] ''none'' 0 '''' '''')
                      (mapping_value maintenance ''queue_action'')
      in if is_list (dget payload ''proposal_ids'' PyNone) then payload
         else dset ''proposal_ids'' (PyList []) payload)"

definition selected_proposal_record :: "string \<Rightarrow> string \<Rightarrow> string \<Rightarrow> pydict" where
  "selected_proposal_record pid family mode =
     [(''proposal_id'', PyStr pid), (''family'', PyStr family), (''failure_mode'', PyStr mode)]"

definition maintenance_action_base_plan :: "string \<Rightarrow> int \<Rightarrow> int \<Rightarrow> pydict \<Rightarrow> pydict" where
  "maintenance_action_base_plan session_id budget iterations action =
     [(''artifact_kind'', PyStr ''goal_runtime_maintenance_action_plan''),
      (''producer'', PyStr ''ops.scripts.auto_improve_runtime''), (''session_id'', PyStr session_id),
      (''status'', PyStr ''attention''), (''current_max_proposals'', PyInt budget),
      (''current_iteration_count'', PyInt iterations), (''next_max_proposals'', PyInt budget),
      (''queue_action'', PyDict action),
      (''selected_proposal'', PyDict (selected_proposal_record '''' '''' '''')),
      (''blockers'', PyList []), (''recommended_next_action'', PyStr ''''),
      (''decisions'', PyDict [(''can_resume'', PyBool False), (''requires_budget_increment'', PyBool False)])]"

definition queue_empty_after_recorded_attempts :: "pydict \<Rightarrow> pydict \<Rightarrow> bool" where
  "queue_empty_after_recorded_attempts session action =
     (text_field action ''status'' = ''none'' \<and> text_field action ''reason'' = ''queue_empty'' \<and>
      (list_texts (dget session ''attempted_proposal_ids'' PyNone) \<noteq> [] \<or>
       list_texts (dget session ''quarantined_proposal_ids'' PyNone) \<noteq> []))"

definition block_maintenance_action_plan :: "pydict \<Rightarrow> string \<Rightarrow> string \<Rightarrow> pydict" where
  "block_maintenance_action_plan base blocker step =
     dset ''recommended_next_action'' (PyStr step) (dset ''blockers'' (py_strs [blocker]) base)"

definition block_missing_mutation_proposal_report :: "pydict \<Rightarrow> pydict" where
  "block_missing_mutation_proposal_report base =
     block_maintenance_action_plan base ''mutation proposal report is missing or invalid''
       (''Run make mutation-proposal or make goal-runtime-between-run-settle, '' @
        ''then rerun the maintenance action.'')"

definition block_no_runnable_proposal :: "pydict \<Rightarrow> pydict" where
  "block_no_runnable_proposal base =
     block_maintenance_action_plan base ''no unattempted runnable proposal is available''
       (''Refresh mutation proposals and readiness. If the queue remains blocked, '' @
        ''the maintenance action cannot complete by adding proposal budget alone.'')"

definition selected_maintenance_proposal :: "pydict \<Rightarrow> pyval list \<Rightarrow> (pydict option \<times> string list) res" where
  "selected_maintenance_proposal session ps =
     select_next_proposal [(''proposals'', PyList ps)]
       (list_texts (dget session ''attempted_proposal_ids'' PyNone))
       (list_texts (dget session ''quarantined_proposal_ids'' PyNone))"

definition proposal_refreshes_stale_maintenance_queue :: "pydict \<Rightarrow> bool" where
  "proposal_refreshes_stale_maintenance_queue p =
     (list_texts (dget p ''blocked_by'' PyNone) = [] \<and>
      (proposal_repairs_repeat_backlog (Some p) \<or>
       is_recent_log_overlap_queue_unblock p (text_field p ''proposal_id'')))"

definition refresh_stale_queue_action :: "pydict \<Rightarrow> string \<Rightarrow> string list \<Rightarrow> int \<Rightarrow> pydict option" where
  "refresh_stale_queue_action selected pid queue increment =
     (if pid \<in> set queue \<and> proposal_refreshes_stale_maintenance_queue selected
      then Some (dset ''proposal_budget_increment'' (PyInt increment) (maintenance_queue_action queue))
      else None)"

definition complete_maintenance_action_plan ::
  "pydict \<Rightarrow> pydict \<Rightarrow> string \<Rightarrow> int \<Rightarrow> int \<Rightarrow> int \<Rightarrow> string list \<Rightarrow> pydict" where
  "complete_maintenance_action_plan base selected pid budget iterations increment queue =
     (let budget' = max (budget + increment) (iterations + 1) in dupdate base
       [(''status'', PyStr ''pass''), (''next_max_proposals'', PyInt budget'),
        (''selected_proposal'', PyDict (selected_proposal_record pid (text_field selected ''family'')
           (text_field selected ''failure_mode''))),
        (''recommended_next_action'', PyStr (''Run make '' @ MAINTENANCE_ACTION_RESUME_TARGET @
           '' with GOAL_MAX_PROPOSALS='' @ int_text budget' @ ''.'')),
        (''decisions'', PyDict [(''can_resume'', PyBool True),
           (''requires_budget_increment'', PyBool (budget' > budget))]),
        (''actionable_queue_snapshot'', py_strs queue)])"

text \<open>No action is required: a pass, unless the queue is empty and nothing else can run.\<close>

definition plan_without_action :: "pydict \<Rightarrow> pydict \<Rightarrow> pydict \<Rightarrow> pydict \<Rightarrow> pydict res" where
  "plan_without_action session action report base =
     (let pass = dset ''recommended_next_action'' (PyStr ''No maintenance queue action requires a resume.'')
                   (dset ''status'' (PyStr ''pass'') base)
      in if queue_empty_after_recorded_attempts session action
         then (case dget report ''proposals'' PyNone of
             PyList ps \<Rightarrow> bindr (selected_maintenance_proposal session ps) (\<lambda>(selected, queue).
               Inr (if selected = None then block_no_runnable_proposal base else pass))
           | _ \<Rightarrow> Inr (block_missing_mutation_proposal_report base))
         else Inr pass)"

text \<open>The rest of \<open>build_maintenance_action_resume_plan\<close> once the queue has been asked.\<close>

definition plan_for_selection ::
  "pydict \<Rightarrow> int \<Rightarrow> int \<Rightarrow> int \<Rightarrow> pydict \<Rightarrow> pydict option \<times> string list \<Rightarrow> pydict" where
  "plan_for_selection action increment budget iterations base selection =
     (case selection of
        (None, queue) \<Rightarrow> block_no_runnable_proposal base
      | (Some p, queue) \<Rightarrow>
          (let pid = text_field p ''proposal_id'';
               ids = list_texts (dget action ''proposal_ids'' PyNone);
               finish = (\<lambda>pl. complete_maintenance_action_plan pl p pid budget iterations increment queue)
           in if ids \<noteq> [] \<and> pid \<notin> set ids
              then (case refresh_stale_queue_action p pid queue increment of
                  None \<Rightarrow> block_maintenance_action_plan base
                    ''selected proposal is not in the maintenance action queue''
                    (''Run make goal-runtime-between-run-settle so readiness and mutation proposal '' @
                     ''queue evidence converge, then rerun the maintenance action.'')
                | Some refreshed \<Rightarrow> finish (dset ''queue_action'' (PyDict refreshed) base))
              else finish base))"

definition plan_with_action :: "pydict \<Rightarrow> pydict \<Rightarrow> pydict \<Rightarrow> int \<Rightarrow> int \<Rightarrow> pydict \<Rightarrow> pydict res" where
  "plan_with_action session action report budget iterations base =
     (let increment = int_value (dget action ''proposal_budget_increment'' PyNone) 0 in
      if text_field action ''runner_action'' \<noteq> MAINTENANCE_ACTION_RUNNER_ACTION
      then Inr (block_maintenance_action_plan base ''maintenance queue action has no executable runner action''
             ''Refresh maintenance evidence, then rerun maintenance action planning.'')
      else if increment < 1
      then Inr (block_maintenance_action_plan base
             ''maintenance queue action has invalid proposal budget increment''
             (''Refresh maintenance evidence so queue_action.proposal_budget_increment '' @
              ''declares the explicit resume budget increase.''))
      else (case dget report ''proposals'' PyNone of
          PyList ps \<Rightarrow> bindr (selected_maintenance_proposal session ps) (\<lambda>selection.
            Inr (plan_for_selection action increment budget iterations base selection))
        | _ \<Rightarrow> Inr (block_missing_mutation_proposal_report base)))"

definition build_maintenance_action_resume_plan :: "pydict \<Rightarrow> string \<Rightarrow> pydict \<Rightarrow> pydict res" where
  "build_maintenance_action_resume_plan session session_id report =
     (let action = maintenance_action_queue_payload (mapping_value session ''maintenance'');
          budget = int_value (dget (mapping_value session ''budget'') ''max_proposals'' PyNone) 0;
          iterations = int (length (the_list (dget session ''iterations'' PyNone)));
          base = maintenance_action_base_plan session_id budget iterations action
      in if text_field action ''status'' \<noteq> ''action_required''
         then plan_without_action session action report base
         else plan_with_action session action report budget iterations base)"

subsection \<open>What a plan to resume promises\<close>

lemma dget_dupdate_other: "k \<notin> fst ` set e \<Longrightarrow> dget (dupdate d e) k v = dget d k v"
  by (induction e arbitrary: d) (auto simp: dupdate_def)

lemma mapping_value_dset_eq:
  "mapping_value (dset k v d) k' = (if k' = k then the_dict v else mapping_value d k')"
  by (simp add: mapping_value_def)

lemma base_plan_cannot_resume:
  "dget (mapping_value (maintenance_action_base_plan sid budget iterations action) ''decisions'')
     ''can_resume'' PyNone = PyBool False"
  by (simp add: maintenance_action_base_plan_def mapping_value_def dget_def)

lemma blocked_plan_decisions:
  "mapping_value (block_maintenance_action_plan base blocker step) ''decisions'' = mapping_value base ''decisions''"
  by (simp add: block_maintenance_action_plan_def mapping_value_dset_eq)

lemma plan_without_action_cannot_resume:
  assumes "plan_without_action session action report base = Inr p"
  shows "mapping_value p ''decisions'' = mapping_value base ''decisions''"
  using assms
  by (auto simp: plan_without_action_def Let_def block_missing_mutation_proposal_report_def
      block_no_runnable_proposal_def blocked_plan_decisions bindr_eq_Inr mapping_value_dset_eq
      split: if_splits pyval.splits)

text \<open>The plan of an action: blocked, or complete for the selected proposal.\<close>

lemma plan_for_selection_cases:
  assumes "mapping_value (plan_for_selection action increment budget iterations base selection) ''decisions'' \<noteq>
           mapping_value base ''decisions''"
  obtains selected queue base' where "selection = (Some selected, queue)"
    and "plan_for_selection action increment budget iterations base selection =
         complete_maintenance_action_plan base' selected (text_field selected ''proposal_id'') budget iterations
           increment queue"
proof (cases selection)
  case (Pair sel queue)
  show ?thesis
  proof (cases sel)
    case None
    with assms Pair show ?thesis
      by (simp add: plan_for_selection_def block_no_runnable_proposal_def blocked_plan_decisions)
  next
    case (Some q)
    with assms Pair show ?thesis
      using that[of q queue] by (auto simp: plan_for_selection_def Let_def blocked_plan_decisions
          split: if_splits option.splits)
  qed
qed

lemma plan_with_action_selects:
  assumes p: "plan_with_action session action report budget iterations base = Inr p"
    and "mapping_value p ''decisions'' \<noteq> mapping_value base ''decisions''"
  shows "int_value (dget action ''proposal_budget_increment'' PyNone) 0 \<ge> 1 \<and>
    (\<exists>ps selection. selected_maintenance_proposal session ps = Inr selection \<and>
       p = plan_for_selection action (int_value (dget action ''proposal_budget_increment'' PyNone) 0)
             budget iterations base selection)"
  using assms
  by (auto simp: plan_with_action_def Let_def block_missing_mutation_proposal_report_def
      blocked_plan_decisions bindr_eq_Inr split: if_splits pyval.splits)

lemma completed_plan_fields:
  fixes base selected pid budget iterations increment queue
  defines "p \<equiv> complete_maintenance_action_plan base selected pid budget iterations increment queue"
  shows "dget p ''next_max_proposals'' PyNone = PyInt (max (budget + increment) (iterations + 1))"
    and "text_field (mapping_value p ''selected_proposal'') ''proposal_id'' = py_strip pid"
  by (simp_all add: p_def complete_maintenance_action_plan_def Let_def dupdate_def mapping_value_def
      selected_proposal_record_def text_field_def dget_def[of "[_, _, _]"])

text \<open>
  C26: a plan that lets a session resume selects a proposal that the session has neither attempted nor
  quarantined, and raises \<open>max_proposals\<close> above its present value and above the iterations already
  done, so that the resumed session has a slot for it.
\<close>

theorem resume_plan_has_a_slot:
  assumes "build_maintenance_action_resume_plan session sid report = Inr p"
    and "dget (mapping_value p ''decisions'') ''can_resume'' PyNone = PyBool True"
  shows "(let pid = text_field (mapping_value p ''selected_proposal'') ''proposal_id'' in
      pid \<noteq> [] \<and> pid \<notin> set (list_texts (dget session ''attempted_proposal_ids'' PyNone)) \<and>
      pid \<notin> set (list_texts (dget session ''quarantined_proposal_ids'' PyNone)) \<and>
      ai_int_field p ''next_max_proposals'' > ai_int_field (mapping_value session ''budget'') ''max_proposals'' \<and>
      ai_int_field p ''next_max_proposals'' > int (length (the_list (dget session ''iterations'' PyNone))))"
proof -
  let ?action = "maintenance_action_queue_payload (mapping_value session ''maintenance'')"
  let ?budget = "int_value (dget (mapping_value session ''budget'') ''max_proposals'' PyNone) 0"
  let ?its = "int (length (the_list (dget session ''iterations'' PyNone)))"
  let ?base = "maintenance_action_base_plan sid ?budget ?its ?action"
  have no: "mapping_value p ''decisions'' \<noteq> mapping_value ?base ''decisions''"
    using assms(2) base_plan_cannot_resume[of sid ?budget ?its ?action] by auto
  then have "plan_with_action session ?action report ?budget ?its ?base = Inr p"
    using assms(1) plan_without_action_cannot_resume
    by (auto simp: build_maintenance_action_resume_plan_def Let_def split: if_splits)
  from plan_with_action_selects[OF this no] obtain ps selection
    where inc: "int_value (dget ?action ''proposal_budget_increment'' PyNone) 0 \<ge> 1"
    and asked: "selected_maintenance_proposal session ps = Inr selection"
    and p: "p = plan_for_selection ?action (int_value (dget ?action ''proposal_budget_increment'' PyNone) 0)
             ?budget ?its ?base selection" by blast
  from no[unfolded p] obtain selected queue base' where selection: "selection = (Some selected, queue)"
    and "plan_for_selection ?action (int_value (dget ?action ''proposal_budget_increment'' PyNone) 0)
             ?budget ?its ?base selection =
         complete_maintenance_action_plan base' selected (text_field selected ''proposal_id'') ?budget ?its
           (int_value (dget ?action ''proposal_budget_increment'' PyNone) 0) queue"
    by (rule plan_for_selection_cases)
  note completed = p[unfolded this(2)]
  note sel = asked[unfolded selected_maintenance_proposal_def selection]
    have "text_field (mapping_value p ''selected_proposal'') ''proposal_id'' = item_id selected"
      using completed_plan_fields(2)[of base' selected "text_field selected ''proposal_id''"] completed
        selected_text_field[OF sel] strip_str_strip by (simp add: text_field_def)
    moreover have "ai_int_field p ''next_max_proposals'' = max (?budget +
        int_value (dget ?action ''proposal_budget_increment'' PyNone) 0) (?its + 1)"
      using completed_plan_fields(1) completed by (simp add: ai_int_field_def)
    ultimately show ?thesis
      using select_next_proposal_Some(2-4)[OF sel] inc by (simp add: Let_def ai_int_field_def less_max_iff_disj)
qed

theorem resume_plan_has_a_slot_witness:
  "ai_int_field (the_dict (case build_maintenance_action_resume_plan
       [(''budget'', PyDict (budget_record 1 10 2)), (''iterations'', PyList [PyDict []]),
        (''attempted_proposal_ids'', PyList [PyStr ''a'']),
        (''maintenance'', PyDict [(''queue_action'', PyDict (maintenance_queue_action [''b'']))])] ''s''
       [(''proposals'', PyList [PyDict [(''proposal_id'', PyStr ''a'')], PyDict [(''proposal_id'', PyStr ''b'')]])] of
     Inr p \<Rightarrow> PyDict p | Inl _ \<Rightarrow> PyNone)) ''next_max_proposals'' > 1"
proof -
  let ?session = "[(''budget'', PyDict (budget_record 1 10 2)), (''iterations'', PyList [PyDict []]),
        (''attempted_proposal_ids'', PyList [PyStr ''a'']),
        (''maintenance'', PyDict [(''queue_action'', PyDict (maintenance_queue_action [''b'']))])]"
  let ?report = "[(''proposals'', PyList [PyDict [(''proposal_id'', PyStr ''a'')], PyDict [(''proposal_id'', PyStr ''b'')]])]"
  have resumes: "(case build_maintenance_action_resume_plan ?session ''s'' ?report of
      Inl _ \<Rightarrow> False
    | Inr p \<Rightarrow> dget (mapping_value p ''decisions'') ''can_resume'' PyNone = PyBool True)"
    by code_simp
  then obtain p where p: "build_maintenance_action_resume_plan ?session ''s'' ?report = Inr p"
    and "dget (mapping_value p ''decisions'') ''can_resume'' PyNone = PyBool True"
    by (auto split: sum.splits)
  from resume_plan_has_a_slot[OF this] have "ai_int_field p ''next_max_proposals'' >
      ai_int_field (mapping_value ?session ''budget'') ''max_proposals''"
    by (simp only: Let_def)
  also have "ai_int_field (mapping_value ?session ''budget'') ''max_proposals'' = 1" by code_simp
  finally show ?thesis using p by simp
qed

end
