(* ===== verification/AutoImproveLoop.thy ===== *)
theory AutoImproveLoop
  imports AutoImproveMaintenance
begin

section \<open>The auto-improve loop\<close>

text \<open>
  \<open>run_auto_improve_session\<close> of \<open>mechanism/auto_improve_runtime.py\<close> with
  \<open>auto_improve_iteration_runtime.py\<close>, \<open>auto_improve_route_scaffold_runtime.py\<close>,
  \<open>auto_improve_execute_runtime.py\<close> and \<open>persist_iteration_phase\<close>: one session from its start to its
  completion, with its iterations and its maintenance. What the loop asks of the other parts of the
  program and of the world is a call, recorded in a trace; an environment answers each call from the
  trace so far, so a theorem over all environments covers every report, experiment, clock and failure.
  The measured durations and the fields of the runtime events are left out. The maintenance loop takes
  fuel; \<open>None\<close> is the answer of a loop that has used it up.
\<close>

subsection \<open>Calls\<close>

datatype ai_call =
    Now
  | Clock
  | LoadBacklog
  | BuildReports
  | BuildReadiness
  | ListRuns
  | MakeRunDir string
  | BuildScopeFreeze string string
  | WriteScopeFreeze string
  | RouteRole string string
  | ScaffoldRun string string
  | LedgerEvent string string
  | RuntimeEvent string string
  | RunExperiment string string
  | WriteTelemetry string string
  | WriteFingerprint string
  | WriteSession pydict
  | WriteTrends
  | WriteMetrics
  | SleepFor int

text \<open>
  The answers. \<open>BuildReports\<close> builds and writes the mechanism review and the mutation proposals,
  \<open>BuildReadiness\<close> the readiness report, with the path it is written to. \<open>ae_files\<close> and \<open>ae_json\<close> read
  files, and \<open>ae_runs\<close> names the directories under \<open>runs/\<close>.
\<close>

record ai_env =
  ae_now :: "ai_call list \<Rightarrow> string"
  ae_clock :: "ai_call list \<Rightarrow> real"
  ae_backlog :: "ai_call list \<Rightarrow> pydict res"
  ae_reports :: "ai_call list \<Rightarrow> (pydict \<times> pydict) res"
  ae_readiness :: "ai_call list \<Rightarrow> (pydict \<times> string) res"
  ae_runs :: "ai_call list \<Rightarrow> string list"
  ae_scope :: "ai_call list \<Rightarrow> pydict res"
  ae_path :: "ai_call list \<Rightarrow> string res"
  ae_route :: "ai_call list \<Rightarrow> (pydict \<times> string) res"
  ae_experiment :: "ai_call list \<Rightarrow> pydict res"
  ae_effect :: "ai_call list \<Rightarrow> py_exc option"
  ae_files :: "ai_call list \<Rightarrow> run_files"
  ae_json :: "ai_call list \<Rightarrow> string \<Rightarrow> pyval"
  ae_digest16 :: "string \<Rightarrow> string"
  ae_digest10 :: "string \<Rightarrow> string"

text \<open>The session and the local state of the loop, \<open>AutoImproveLoopState\<close>.\<close>

record ai_world =
  aw_calls :: "ai_call list"
  aw_session :: pydict
  aw_attempted :: "string list"
  aw_quarantined :: "string list"
  aw_failures :: int
  aw_stop :: string
  aw_start :: real
  aw_repair :: bool

type_synonym 'a ai = "ai_world \<Rightarrow> 'a res \<times> ai_world"

definition pure_ai :: "'a res \<Rightarrow> 'a ai" where
  "pure_ai r = (\<lambda>w. (r, w))"

definition bind_ai :: "'a ai \<Rightarrow> ('a \<Rightarrow> 'b ai) \<Rightarrow> 'b ai" where
  "bind_ai m f = (\<lambda>w. case m w of (Inl x, w') \<Rightarrow> (Inl x, w') | (Inr a, w') \<Rightarrow> f a w')"

definition look_ai :: "(ai_world \<Rightarrow> 'a) \<Rightarrow> 'a ai" where
  "look_ai g = (\<lambda>w. (Inr (g w), w))"

definition change_ai :: "(ai_world \<Rightarrow> ai_world) \<Rightarrow> unit ai" where
  "change_ai g = (\<lambda>w. (Inr (), g w))"

definition call_ai :: "ai_call \<Rightarrow> (ai_call list \<Rightarrow> 'a res) \<Rightarrow> 'a ai" where
  "call_ai c answer = (\<lambda>w. (answer (aw_calls w @ [c]), w\<lparr>aw_calls := aw_calls w @ [c]\<rparr>))"

definition effect_ai :: "ai_env \<Rightarrow> ai_call \<Rightarrow> unit ai" where
  "effect_ai e c = call_ai c (\<lambda>cs. case ae_effect e cs of Some x \<Rightarrow> Inl x | None \<Rightarrow> Inr ())"

definition now_ai :: "ai_env \<Rightarrow> string ai" where
  "now_ai e = call_ai Now (\<lambda>cs. Inr (ae_now e cs))"

definition clock_ai :: "ai_env \<Rightarrow> real ai" where
  "clock_ai e = call_ai Clock (\<lambda>cs. Inr (ae_clock e cs))"

text \<open>A computation on the session that gives its new value, with an answer and without one.\<close>

definition session_step :: "(pydict \<Rightarrow> (pydict \<times> 'a) res) \<Rightarrow> 'a ai" where
  "session_step f = (\<lambda>w. case f (aw_session w) of
      Inl x \<Rightarrow> (Inl x, w) | Inr (s, a) \<Rightarrow> (Inr a, w\<lparr>aw_session := s\<rparr>))"

definition update_session :: "(pydict \<Rightarrow> pydict res) \<Rightarrow> unit ai" where
  "update_session f = session_step (\<lambda>s. bindr (f s) (\<lambda>s'. Inr (s', ())))"

definition write_session :: "ai_env \<Rightarrow> unit ai" where
  "write_session e = bind_ai (look_ai aw_session) (\<lambda>s. effect_ai e (WriteSession s))"

subsection \<open>Identifiers of runs\<close>

definition run_slug :: "string \<Rightarrow> string" where
  "run_slug t = or_text (take 48 (lower_slug t)) ''proposal''"

text \<open>\<open>json.dumps(..., sort_keys=True, separators=(",", ":"))\<close>, all in ASCII.\<close>

definition ascii_char :: "char \<Rightarrow> string" where
  "ascii_char c = (let n = (of_char c :: nat) in
     if n < 127 then [c] else [CHR 0x5C] @ ''u00'' @ [hex_digit (n div 16), hex_digit (n mod 16)])"

definition json_ascii :: "pyval \<Rightarrow> string" where
  "json_ascii v = concat (map ascii_char (json_canonical v))"

definition proposal_identity_slug :: "ai_env \<Rightarrow> pydict \<Rightarrow> string" where
  "proposal_identity_slug e p =
     (let pid = text_field p ''proposal_id'';
          identity = (if pid \<noteq> [] then pid else json_ascii (PyDict
            [(''primary_targets'', dget p ''primary_targets'' (PyList [])),
             (''supporting_targets'', dget p ''supporting_targets'' (PyList []))]));
          prefix = (if pid \<noteq> [] then strip_dashes (take 32 (run_slug pid)) else ''proposal'')
      in or_text prefix ''proposal'' @ ''-'' @ ae_digest10 e identity)"

definition pad2 :: "int \<Rightarrow> string" where
  "pad2 n = (if 0 \<le> n \<and> n < 10 then ''0'' @ int_text n else int_text n)"

text \<open>\<open>value[0]\<close>\<close>

definition py_first :: "pyval \<Rightarrow> pyval res" where
  "py_first v = (case v of
      PyList (x # _) \<Rightarrow> Inr x | PyList [] \<Rightarrow> Inl IndexError
    | PyStr (c # _) \<Rightarrow> Inr (PyStr [c]) | PyStr [] \<Rightarrow> Inl IndexError
    | PyDict _ \<Rightarrow> Inl (KeyError ''0'') | _ \<Rightarrow> Inl TypeError)"

definition build_run_id :: "ai_env \<Rightarrow> string \<Rightarrow> int \<Rightarrow> pydict \<Rightarrow> string res" where
  "build_run_id e sid iteration p =
     bindr (bindr (ditem p ''primary_targets'') py_first) (\<lambda>t. case t of
        PyStr path \<Rightarrow> Inr (sid @ ''-run-'' @ pad2 iteration @ ''-'' @ run_slug (path_stem path) @ ''-'' @
                       proposal_identity_slug e p)
      | _ \<Rightarrow> Inl TypeError)"

definition run_id_candidate :: "string \<Rightarrow> nat \<Rightarrow> string" where
  "run_id_candidate base n = base @ ''-attempt-'' @ pad2 (int n)"

text \<open>
  The search of \<open>_unique_run_id\<close>, over the numbers among which one is free: the attempts have different
  names, so one more of them than there are names in use is enough.
\<close>

definition unique_run_id :: "string list \<Rightarrow> string \<Rightarrow> string" where
  "unique_run_id taken base =
     (if base \<notin> set taken then base
      else case find (\<lambda>n. run_id_candidate base n \<notin> set taken) [2..<length taken + 3] of
        Some n \<Rightarrow> run_id_candidate base n | None \<Rightarrow> base)"

definition session_append :: "string \<Rightarrow> pyval \<Rightarrow> pydict \<Rightarrow> pydict res" where
  "session_append k v session = bindr (ditem session k) (\<lambda>old. case old of
      PyList xs \<Rightarrow> Inr (dset k (PyList (xs @ [v])) session) | _ \<Rightarrow> Inl AttributeError)"

definition insert_id :: "string \<Rightarrow> string list \<Rightarrow> string list" where
  "insert_id x xs = (if x \<in> set xs then xs else xs @ [x])"

definition sorted_ids :: "string list \<Rightarrow> pyval" where
  "sorted_ids xs = py_strs (py_sorted_set xs)"

subsection \<open>Selecting a proposal and routing its run\<close>

definition build_reports :: "ai_env \<Rightarrow> (pydict \<times> pydict) ai" where
  "build_reports e = call_ai BuildReports (ae_reports e)"

definition build_readiness :: "ai_env \<Rightarrow> (pydict \<times> string) ai" where
  "build_readiness e = call_ai BuildReadiness (ae_readiness e)"

definition refresh_select_phase :: "ai_env \<Rightarrow> (pydict option \<times> string list) ai" where
  "refresh_select_phase e =
     bind_ai (build_reports e) (\<lambda>(review, proposals).
     bind_ai (build_readiness e) (\<lambda>_.
     bind_ai (look_ai (\<lambda>w. (aw_attempted w, aw_quarantined w))) (\<lambda>(attempted, quarantined).
       pure_ai (select_next_proposal proposals attempted quarantined))))"

definition session_run_ids :: "pydict \<Rightarrow> string list res" where
  "session_run_ids session =
     bindr (py_iter (dget session ''run_ids'' (PyList []))) (\<lambda>xs. Inr (text_entries xs))"

definition record_selected_proposal :: "ai_env \<Rightarrow> string \<Rightarrow> int \<Rightarrow> pydict \<Rightarrow> string ai" where
  "record_selected_proposal e sid iteration p =
     bind_ai (pure_ai (build_run_id e sid iteration p)) (\<lambda>base.
     bind_ai (look_ai aw_session) (\<lambda>s.
     bind_ai (pure_ai (session_run_ids s)) (\<lambda>used.
     bind_ai (call_ai ListRuns (\<lambda>cs. Inr (ae_runs e cs))) (\<lambda>dirs.
     let run_id = unique_run_id (used @ dirs) base in
     bind_ai (effect_ai e (MakeRunDir run_id)) (\<lambda>_.
     bind_ai (pure_ai (bindr (ditem p ''proposal_id'') py_text)) (\<lambda>pid.
     bind_ai (change_ai (\<lambda>w. w\<lparr>aw_attempted := insert_id pid (aw_attempted w)\<rparr>)) (\<lambda>_.
     bind_ai (look_ai aw_attempted) (\<lambda>attempted.
     bind_ai (update_session (\<lambda>s. Inr (dset ''attempted_proposal_ids'' (sorted_ids attempted) s))) (\<lambda>_.
     bind_ai (update_session (session_append ''run_ids'' (PyStr run_id))) (\<lambda>_.
       pure_ai (Inr run_id)))))))))))"

text \<open>\<open>RouteScaffoldPhaseResult\<close>, without the measured durations.\<close>

record route_scaffold =
  rs_run_id :: string
  rs_scope :: pydict
  rs_scope_rel :: string
  rs_roles :: "string list"
  rs_routing :: "string list"

text \<open>The inputs of the selector must be there; \<open>value in container\<close> for the score band.\<close>

definition routing_selector_inputs :: "pydict \<Rightarrow> pyval list res" where
  "routing_selector_inputs scope =
     bindr (ditem scope ''inputs'') (\<lambda>inputs.
     bindr (py_item inputs ''primary_targets'') (\<lambda>p.
     bindr (py_item inputs ''supporting_targets'') (\<lambda>s.
     bindr (ditem scope ''resolution'') (\<lambda>resolution.
     bindr (py_item resolution ''test_files'') (\<lambda>t.
     bindr (py_item resolution ''risk_flags'') (\<lambda>r. Inr [p, s, t, r]))))))"

definition value_in :: "pyval \<Rightarrow> pyval \<Rightarrow> bool res" where
  "value_in v container = (case container of
      PyList xs \<Rightarrow> Inr (v \<in> set xs)
    | _ \<Rightarrow> (case v of PyStr s \<Rightarrow> py_contains container s | _ \<Rightarrow> Inl TypeError))"

definition reviewer_needed :: "pydict \<Rightarrow> pydict \<Rightarrow> pydict \<Rightarrow> bool res" where
  "reviewer_needed policy scope worker_report =
     bindr (bindr (ditem scope ''dispatch'') (\<lambda>d. py_item d ''reviewer'')) (\<lambda>v.
     if py_truth v then Inr True
     else bindr (bindr (ditem worker_report ''routing_decision'') (\<lambda>d. py_item d ''score_band'')) (\<lambda>band.
       bindr (bindr (ditem policy ''auto_improve_policy'')
                (\<lambda>v. py_items v [''scope_resolution'', ''reviewer_score_bands''])) (value_in band)))"

definition route_role :: "ai_env \<Rightarrow> string \<Rightarrow> string \<Rightarrow> (pydict \<times> string) ai" where
  "route_role e run_id role = call_ai (RouteRole run_id role) (ae_route e)"

fun route_roles :: "ai_env \<Rightarrow> string \<Rightarrow> string list \<Rightarrow> string list ai" where
  "route_roles e run_id [] = pure_ai (Inr [])"
| "route_roles e run_id (role # roles) =
     bind_ai (route_role e run_id role) (\<lambda>(report, rel).
     bind_ai (route_roles e run_id roles) (\<lambda>rels. pure_ai (Inr (rel # rels))))"

text \<open>The roles after the worker: a reviewer, a validator and the auditors, as the scope dispatches them.\<close>

definition route_scope_roles :: "ai_env \<Rightarrow> pydict \<Rightarrow> string \<Rightarrow> pydict \<Rightarrow> (string list \<times> string list) ai" where
  "route_scope_roles e policy run_id scope =
     bind_ai (pure_ai (routing_selector_inputs scope)) (\<lambda>_.
     bind_ai (route_role e run_id ''worker'') (\<lambda>(worker_report, worker_rel).
     bind_ai (pure_ai (reviewer_needed policy scope worker_report)) (\<lambda>review.
     let reviewers = (if review then [''reviewer''] else []) in
     bind_ai (route_roles e run_id reviewers) (\<lambda>review_rels.
     bind_ai (pure_ai (bindr (ditem scope ''dispatch'') (\<lambda>d. py_item d ''validator''))) (\<lambda>v.
     let validators = (if py_truth v then [''validator''] else []) in
     bind_ai (route_roles e run_id validators) (\<lambda>validate_rels.
     bind_ai (pure_ai (bindr (bindr (ditem scope ''dispatch'') (\<lambda>d. py_item d ''auditors'')) py_iter)) (\<lambda>xs.
     let auditors = map py_str xs in
     bind_ai (route_roles e run_id auditors) (\<lambda>audit_rels.
       pure_ai (Inr (''worker'' # reviewers @ validators @ auditors,
                     worker_rel # review_rels @ validate_rels @ audit_rels))))))))))"

definition route_scaffold_phase :: "ai_env \<Rightarrow> pydict \<Rightarrow> string \<Rightarrow> pydict \<Rightarrow> route_scaffold ai" where
  "route_scaffold_phase e policy run_id p =
     bind_ai (call_ai (BuildScopeFreeze run_id (item_id p)) (ae_scope e)) (\<lambda>scope.
     bind_ai (call_ai (WriteScopeFreeze run_id) (ae_path e)) (\<lambda>rel.
     bind_ai (route_scope_roles e policy run_id scope) (\<lambda>(roles, rels).
     bind_ai (pure_ai (bindr (ditem scope ''resolution'') (\<lambda>r. py_item r ''test_files''))) (\<lambda>_.
     bind_ai (pure_ai (ditem p ''proposal_id'')) (\<lambda>_.
     bind_ai (effect_ai e (ScaffoldRun run_id (item_id p))) (\<lambda>_.
     bind_ai (pure_ai (ditem scope ''status'')) (\<lambda>_.
     bind_ai (effect_ai e (LedgerEvent run_id ''scope_frozen'')) (\<lambda>_.
     bind_ai (effect_ai e (LedgerEvent run_id ''subagent_routed'')) (\<lambda>_.
       pure_ai (Inr \<lparr>rs_run_id = run_id, rs_scope = scope, rs_scope_rel = rel, rs_roles = roles,
                     rs_routing = rels\<rparr>))))))))))"

subsection \<open>Running and judging the experiment\<close>

text \<open>The arguments of the experiment that the scope must provide.\<close>

definition experiment_arguments :: "pydict \<Rightarrow> pydict \<Rightarrow> unit res" where
  "experiment_arguments scope p =
     (let inputs = mapping_value scope ''inputs'' in
      bindr (py_iter (dget inputs ''primary_targets'' (PyList []))) (\<lambda>_.
      bindr (py_iter (dget inputs ''supporting_targets'' (PyList []))) (\<lambda>_.
      bindr (bindr (ditem scope ''resolution'') (\<lambda>r. py_item r ''test_files'')) (\<lambda>_.
      bindr (ditem p ''proposal_id'') (\<lambda>_. Inr ())))))"

text \<open>An experiment as a value: its result or the error it raised.\<close>

definition run_full_experiment :: "ai_env \<Rightarrow> route_scaffold \<Rightarrow> pydict \<Rightarrow> (pydict res) ai" where
  "run_full_experiment e rs p = (case experiment_arguments (rs_scope rs) p of
      Inl x \<Rightarrow> pure_ai (Inr (Inl x))
    | Inr _ \<Rightarrow> call_ai (RunExperiment (rs_run_id rs) (item_id p)) (\<lambda>cs. Inr (ae_experiment e cs)))"

definition evaluate_execution_outcome ::
  "ai_env \<Rightarrow> string list \<Rightarrow> route_scaffold \<Rightarrow> pydict \<Rightarrow> execution_outcome ai" where
  "evaluate_execution_outcome e quarantine_outcomes rs p =
     bind_ai (look_ai aw_failures) (\<lambda>failures.
     bind_ai (pure_ai (ditem (rs_scope rs) ''status'')) (\<lambda>status.
     if status = PyStr ''blocked'' then pure_ai (Inr (evaluate_scope_blocked failures))
     else bind_ai (run_full_experiment e rs p) (\<lambda>r.
       bind_ai (look_ai (\<lambda>w. ae_files e (aw_calls w))) (\<lambda>files.
         pure_ai (judge_experiment (ae_digest16 e) files (rs_run_id rs) (rs_roles rs) quarantine_outcomes
           failures r)))))"

subsection \<open>Recording it\<close>

definition apply_execution_outcome :: "string \<Rightarrow> execution_outcome \<Rightarrow> int ai" where
  "apply_execution_outcome pid o1 =
     bind_ai (if eo_quarantine o1
        then bind_ai (change_ai (\<lambda>w. w\<lparr>aw_quarantined := insert_id pid (aw_quarantined w)\<rparr>)) (\<lambda>_.
             bind_ai (look_ai aw_quarantined) (\<lambda>quarantined.
               update_session (\<lambda>s. Inr (dset ''quarantined_proposal_ids'' (sorted_ids quarantined) s))))
        else pure_ai (Inr ())) (\<lambda>_. pure_ai (Inr (eo_failures o1)))"

definition executor_report_rels :: "(string \<Rightarrow> pyval) \<Rightarrow> string \<Rightarrow> string list \<Rightarrow> string list" where
  "executor_report_rels json run_id roles = filter (\<lambda>rel. is_dict (json rel)) (map (role_report_path run_id) roles)"

text \<open>The role of the first report that did not pass; without a role, the one its name carries.\<close>

definition role_of_report :: "string \<Rightarrow> string" where
  "role_of_report rel =
     (let name = after_last slash rel; ending = ''-executor-report.json'' in
      if py_endswith name ending then take (length name - length ending) name else '''')"

fun blocking_role_from_reports :: "(string \<Rightarrow> pyval) \<Rightarrow> string list \<Rightarrow> string" where
  "blocking_role_from_reports json [] = ''''"
| "blocking_role_from_reports json (rel # rels) = (case json rel of
      PyDict payload \<Rightarrow>
        (let status = py_lower (text_field payload ''status'') in
         if status \<noteq> [] \<and> status \<noteq> ''pass'' then or_text (text_field payload ''role'') (role_of_report rel)
         else blocking_role_from_reports json rels)
    | _ \<Rightarrow> blocking_role_from_reports json rels)"

text \<open>\<open>session.setdefault("next_run_decisions", []).append(decision)\<close>\<close>

definition append_decision :: "pydict option \<Rightarrow> pydict \<Rightarrow> pydict res" where
  "append_decision d session = (case d of
      None \<Rightarrow> Inr session
    | Some x \<Rightarrow> session_append ''next_run_decisions'' (PyDict x)
        (if dhas session ''next_run_decisions'' then session
         else dset ''next_run_decisions'' (PyList []) session))"

definition iteration_entry ::
  "(string \<Rightarrow> string) \<Rightarrow> execution_outcome \<Rightarrow> int \<Rightarrow> string \<Rightarrow> string \<Rightarrow> string \<Rightarrow> pydict res" where
  "iteration_entry digest16 o1 index pid run_id taxonomy =
     bindr (iteration_record digest16 o1 index pid run_id) (\<lambda>r.
       Inr (if taxonomy = [] then r else dset ''failure_taxonomy'' (PyStr taxonomy) r))"

definition persist_iteration_phase ::
  "ai_env \<Rightarrow> string \<Rightarrow> int \<Rightarrow> pydict \<Rightarrow> route_scaffold \<Rightarrow> execution_outcome \<Rightarrow> int ai" where
  "persist_iteration_phase e sid iteration p rs o1 =
     bind_ai (pure_ai (bindr (ditem p ''proposal_id'') py_text)) (\<lambda>pid.
     bind_ai (apply_execution_outcome pid o1) (\<lambda>failures.
     bind_ai (call_ai (WriteTelemetry (rs_run_id rs) (eo_outcome o1)) (ae_path e)) (\<lambda>telemetry.
     bind_ai (effect_ai e (WriteFingerprint (rs_run_id rs))) (\<lambda>_.
     bind_ai (look_ai (\<lambda>w. ae_json e (aw_calls w))) (\<lambda>json.
     let reports = executor_report_rels json (rs_run_id rs) (rs_roles rs);
         taxonomy = text_field (the_dict (json telemetry)) ''failure_taxonomy'' in
     bind_ai (pure_ai (iteration_entry (ae_digest16 e) o1 iteration pid (rs_run_id rs) taxonomy)) (\<lambda>r.
     bind_ai (update_session (session_append ''iterations'' (PyDict r))) (\<lambda>_.
     bind_ai (now_ai e) (\<lambda>now.
     bind_ai (pure_ai (build_next_run_decision (ae_digest16 e)
        \<lparr>nr_session_id = sid, nr_iteration = iteration, nr_run_id = rs_run_id rs, nr_proposal = p,
         nr_outcome = o1, nr_roles = rs_roles rs, nr_scope_freeze = rs_scope_rel rs,
         nr_routing_reports = rs_routing rs, nr_telemetry = telemetry, nr_now = now,
         nr_executor_reports = reports, nr_blocking_role = blocking_role_from_reports json reports,
         nr_override = taxonomy\<rparr>)) (\<lambda>d.
     bind_ai (update_session (append_decision d)) (\<lambda>_.
     bind_ai (pure_ai (outcome_decision (ae_digest16 e) o1)) (\<lambda>dcn.
     bind_ai (update_session (\<lambda>s. Inr (update_session_loop_state s (rs_run_id rs) o1 dcn failures taxonomy now))) (\<lambda>_.
     bind_ai (write_session e) (\<lambda>_.
       pure_ai (Inr failures))))))))))))))"

subsection \<open>One iteration\<close>

text \<open>What an iteration does with its outcome: a reason to stop, or \<open>None\<close> to go on.\<close>

definition stop_after_outcome :: "pydict \<Rightarrow> execution_outcome \<Rightarrow> int \<Rightarrow> string option res" where
  "stop_after_outcome session o1 failures =
     (if eo_outcome o1 = ''executor_usage_limited'' then Inr (Some ''executor_usage_limited'')
      else if eo_outcome o1 = GENERATED_EVIDENCE_SETTLE_REQUIRED then Inr (Some GENERATED_EVIDENCE_SETTLE_REQUIRED)
      else if is_terminal_success o1 then Inr None
      else bindr (budget_item session ''max_consecutive_failures'') (\<lambda>n.
        Inr (if failures \<ge> n then Some ''failure_budget_exhausted'' else None)))"

definition finish_iteration :: "int \<Rightarrow> string option \<Rightarrow> bool ai" where
  "finish_iteration failures stop =
     bind_ai (change_ai (\<lambda>w. w\<lparr>aw_failures := failures,
        aw_stop := (case stop of Some t \<Rightarrow> t | None \<Rightarrow> aw_stop w)\<rparr>)) (\<lambda>_.
       pure_ai (Inr (stop = None)))"

definition attempt_proposal ::
  "ai_env \<Rightarrow> pydict \<Rightarrow> string list \<Rightarrow> string \<Rightarrow> int \<Rightarrow> pydict \<Rightarrow> bool ai" where
  "attempt_proposal e policy quarantine_outcomes sid iteration p =
     bind_ai (record_selected_proposal e sid iteration p) (\<lambda>run_id.
     bind_ai (route_scaffold_phase e policy run_id p) (\<lambda>rs.
     bind_ai (effect_ai e (RuntimeEvent ''route_scaffold'' (text_field (rs_scope rs) ''status''))) (\<lambda>_.
     bind_ai (evaluate_execution_outcome e quarantine_outcomes rs p) (\<lambda>o1.
     bind_ai (persist_iteration_phase e sid iteration p rs o1) (\<lambda>failures.
     bind_ai (look_ai aw_session) (\<lambda>s.
     bind_ai (pure_ai (stop_after_outcome s o1 failures)) (\<lambda>stop.
       finish_iteration failures stop)))))))"

definition run_auto_improve_iteration ::
  "ai_env \<Rightarrow> pydict \<Rightarrow> string list \<Rightarrow> string \<Rightarrow> int \<Rightarrow> bool ai" where
  "run_auto_improve_iteration e policy quarantine_outcomes sid iteration =
     bind_ai (look_ai aw_session) (\<lambda>s.
     bind_ai (pure_ai (bindr (ditem s ''executor'') (\<lambda>x. py_item x ''name''))) (\<lambda>_.
     bind_ai (refresh_select_phase e) (\<lambda>(selected, queue).
     bind_ai (update_session (\<lambda>s. Inr (dset ''queue_snapshot'' (py_strs queue) s))) (\<lambda>_.
     case selected of
       None \<Rightarrow> bind_ai (look_ai aw_failures) (\<lambda>failures. finish_iteration failures (Some ''queue_exhausted''))
     | Some p \<Rightarrow> attempt_proposal e policy quarantine_outcomes sid iteration p))))"

subsection \<open>Stopping\<close>

definition stop_for_blocker :: "ai_env \<Rightarrow> string \<Rightarrow> (string option) ai" where
  "stop_for_blocker e reason =
     bind_ai (now_ai e) (\<lambda>now.
     bind_ai (update_session (\<lambda>s. mark_repeated_blocker_stop s reason now)) (\<lambda>_.
       pure_ai (Inr (Some ''repeated_blocker_backlog_required''))))"

text \<open>The reason of the open backlog, asked for only when the check applies.\<close>

definition open_backlog_reason :: "ai_env \<Rightarrow> bool \<Rightarrow> string ai" where
  "open_backlog_reason e check =
     bind_ai (look_ai aw_repair) (\<lambda>repair.
     if check \<and> \<not> repair
     then bind_ai (call_ai LoadBacklog (ae_backlog e)) (\<lambda>r.
       pure_ai (Inr (open_repeat_backlog_blocker_reason r)))
     else pure_ai (Inr ''''))"

definition stop_reason_before_iteration :: "ai_env \<Rightarrow> bool \<Rightarrow> (string option) ai" where
  "stop_reason_before_iteration e check =
     bind_ai (look_ai aw_session) (\<lambda>s.
     bind_ai (pure_ai (repeated_blocker_reason s)) (\<lambda>repeated.
     if repeated \<noteq> [] then stop_for_blocker e repeated
     else bind_ai (open_backlog_reason e check) (\<lambda>backlog.
     if backlog \<noteq> [] then stop_for_blocker e backlog
     else bind_ai (pure_ai (iteration_count s)) (\<lambda>done_count.
     bind_ai (pure_ai (budget_item s ''max_proposals'')) (\<lambda>proposals.
     if done_count \<ge> proposals then pure_ai (Inr (Some ''proposal_budget_exhausted''))
     else bind_ai (clock_ai e) (\<lambda>now.
     bind_ai (look_ai aw_start) (\<lambda>start.
     bind_ai (pure_ai (budget_item s ''max_minutes'')) (\<lambda>minutes.
     if now - start > of_int (minutes * 60) then pure_ai (Inr (Some ''time_budget_exhausted''))
     else bind_ai (look_ai aw_failures) (\<lambda>failures.
     bind_ai (pure_ai (budget_item s ''max_consecutive_failures'')) (\<lambda>n.
       pure_ai (Inr (if failures \<ge> n then Some ''failure_budget_exhausted'' else None))))))))))))"

definition stop_reason_after_loop :: "ai_env \<Rightarrow> string ai" where
  "stop_reason_after_loop e =
     bind_ai (look_ai aw_session) (\<lambda>s.
     bind_ai (pure_ai (repeated_blocker_reason s)) (\<lambda>repeated.
     if repeated \<noteq> []
     then bind_ai (stop_for_blocker e repeated) (\<lambda>_. pure_ai (Inr ''repeated_blocker_backlog_required''))
     else bind_ai (open_backlog_reason e True) (\<lambda>backlog.
     if backlog \<noteq> []
     then bind_ai (stop_for_blocker e backlog) (\<lambda>_. pure_ai (Inr ''repeated_blocker_backlog_required''))
     else bind_ai (look_ai aw_stop) (\<lambda>stop.
     if stop \<noteq> ''queue_exhausted'' then pure_ai (Inr stop)
     else bind_ai (pure_ai (iteration_count s)) (\<lambda>done_count.
     bind_ai (pure_ai (budget_item s ''max_proposals'')) (\<lambda>proposals.
       pure_ai (Inr (if done_count \<ge> proposals then ''proposal_budget_exhausted'' else stop))))))))"

text \<open>The iterations \<open>first\<close> to \<open>max_proposals\<close>.\<close>

fun run_iterations :: "ai_env \<Rightarrow> pydict \<Rightarrow> string list \<Rightarrow> string \<Rightarrow> int list \<Rightarrow> unit ai" where
  "run_iterations e policy quarantine_outcomes sid [] = pure_ai (Inr ())"
| "run_iterations e policy quarantine_outcomes sid (i # is) =
     bind_ai (stop_reason_before_iteration e True) (\<lambda>stop. case stop of
       Some t \<Rightarrow> change_ai (\<lambda>w. w\<lparr>aw_stop := t\<rparr>)
     | None \<Rightarrow> bind_ai (run_auto_improve_iteration e policy quarantine_outcomes sid i) (\<lambda>go.
         if go then run_iterations e policy quarantine_outcomes sid is else pure_ai (Inr ())))"

subsection \<open>The learning gate of a session\<close>

definition record_pre_run_selected_proposal :: "pydict \<Rightarrow> pydict \<Rightarrow> (pydict \<times> bool) res" where
  "record_pre_run_selected_proposal session proposals =
     bindr (select_next_proposal proposals (list_texts (dget session ''attempted_proposal_ids'' PyNone))
             (list_texts (dget session ''quarantined_proposal_ids'' PyNone))) (\<lambda>(selected, queue).
       let repair = proposal_repairs_repeat_backlog selected;
           t = (\<lambda>k. PyStr (case selected of Some p \<Rightarrow> text_field p k | None \<Rightarrow> ''''));
           entry = [(''proposal_id'', t ''proposal_id''), (''family'', t ''family''),
             (''failure_mode'', t ''failure_mode''),
             (''blocked_by'', py_strs (case selected of
                Some p \<Rightarrow> list_texts (dget p ''blocked_by'' PyNone) | None \<Rightarrow> [])),
             (''repeat_backlog_repair'', PyBool repair)]
       in Inr (dset ''metadata'' (PyDict (dset ''pre_run_selected_proposal'' (PyDict entry)
                 (mapping_value session ''metadata''))) session, repair))"

definition pre_run_readiness_snapshot :: "pydict \<Rightarrow> string \<Rightarrow> pydict" where
  "pre_run_readiness_snapshot report path =
     (let execution = mapping_value report ''execution_readiness'';
          learning = mapping_value report ''learning_readiness'';
          queue = mapping_value report ''queue'';
          metrics = mapping_value learning ''metrics''
      in [(''report'', PyStr path), (''generated_at'', PyStr (text_field report ''generated_at'')),
          (''execution_status'', PyStr (text_field execution ''status'')),
          (''learning_status'', PyStr (text_field learning ''status'')),
          (''learning_gate_effect'', PyStr (text_field learning ''gate_effect'')),
          (''runnable_proposal_count'', PyInt (int_value (dget queue ''runnable_proposal_count'' PyNone) 0)),
          (''session_reports_considered'',
             PyInt (int_value (dget metrics ''session_reports_considered'' PyNone) 0))])"

definition readiness_queue_snapshot :: "pydict \<Rightarrow> string list" where
  "readiness_queue_snapshot report =
     list_texts (dget (mapping_value report ''queue'') ''runnable_proposal_ids'' PyNone)"

definition readiness_runnable_proposal_count :: "pydict \<Rightarrow> int" where
  "readiness_runnable_proposal_count report =
     int_value (dget (mapping_value report ''queue'') ''runnable_proposal_count'' PyNone) 0"

definition preflight_learning_gate :: "ai_env \<Rightarrow> bool \<Rightarrow> bool ai" where
  "preflight_learning_gate e allow =
     bind_ai (build_reports e) (\<lambda>(review, proposals).
     bind_ai (build_readiness e) (\<lambda>(readiness, path).
     bind_ai (session_step (\<lambda>s. record_pre_run_selected_proposal s proposals)) (\<lambda>repair.
     bind_ai (look_ai aw_session) (\<lambda>s.
     bind_ai (pure_ai (build_learning_preflight_decision s readiness allow)) (\<lambda>ld.
     bind_ai (update_session (\<lambda>s. Inr (apply_learning_preflight_session_fields s ld
        (readiness_queue_snapshot readiness) (pre_run_readiness_snapshot readiness path)))) (\<lambda>_.
     if ld_blocked ld
     then bind_ai (update_session (\<lambda>s. Inr (dset ''status'' (PyStr ''blocked'') s))) (\<lambda>_.
          bind_ai (write_session e) (\<lambda>_.
          bind_ai (effect_ai e (RuntimeEvent ''preflight'' ''learning_review_required'')) (\<lambda>_.
            pure_ai (Inl (AutoImproveLearningReviewRequiredError (ld_next_step ld))))))
     else bind_ai (write_session e) (\<lambda>_. pure_ai (Inr repair))))))))"

subsection \<open>Maintenance\<close>

definition py_trunc :: "real \<Rightarrow> int" where
  "py_trunc x = (if x < 0 then \<lceil>x\<rceil> else \<lfloor>x\<rfloor>)"

text \<open>\<open>round(x)\<close>: halves go to the even neighbour.\<close>

definition py_round :: "real \<Rightarrow> int" where
  "py_round x = (let f = \<lfloor>x\<rfloor>; d = x - of_int f in
     if d < 1 / 2 \<or> d = 1 / 2 \<and> even f then f else f + 1)"

definition elapsed_ai :: "ai_env \<Rightarrow> int ai" where
  "elapsed_ai e = bind_ai (clock_ai e) (\<lambda>now. bind_ai (look_ai aw_start) (\<lambda>start.
     pure_ai (Inr (py_trunc (now - start)))))"

definition MAINTENANCE_WORK_ITEMS :: "string list" where
  "MAINTENANCE_WORK_ITEMS = [''mechanism_review_report'', ''mutation_proposal_report'',
     ''auto_improve_readiness_report'', ''auto_improve_session_report'']"

definition maintenance_cycle_record ::
  "int \<Rightarrow> string \<Rightarrow> int \<Rightarrow> int \<Rightarrow> int \<Rightarrow> string \<Rightarrow> string \<Rightarrow> int \<Rightarrow> string list \<Rightarrow> pydict \<Rightarrow> pydict" where
  "maintenance_cycle_record index now started elapsed duration readiness session_report runnable queue metadata =
     dupdate [(''index'', PyInt index), (''observed_at'', PyStr now),
       (''cycle_started_elapsed_seconds'', PyInt started), (''elapsed_seconds'', PyInt elapsed),
       (''duration_ms'', PyInt duration), (''status'', PyStr ''pass''),
       (''work_items'', py_strs MAINTENANCE_WORK_ITEMS),
       (''mechanism_review_report'', PyStr ''ops/reports/mechanism-review-candidates.json''),
       (''mutation_proposal_report'', PyStr ''ops/reports/mutation-proposals.json''),
       (''readiness_report'', PyStr readiness), (''session_report'', PyStr session_report),
       (''runnable_proposal_count'', PyInt runnable), (''queue_snapshot'', py_strs queue)] metadata"

definition is_meaningful_cycle :: "pyval \<Rightarrow> bool" where
  "is_meaningful_cycle v = (case v of PyDict d \<Rightarrow> py_truth (dget d ''meaningful'' (PyBool False)) | _ \<Rightarrow> False)"

definition maintenance_after_cycle :: "pydict \<Rightarrow> pyval list \<Rightarrow> pydict \<Rightarrow> string \<Rightarrow> int \<Rightarrow> pydict" where
  "maintenance_after_cycle maintenance cycles latest now elapsed = dupdate maintenance
     [(''status'', PyStr ''running''), (''cycles'', PyList cycles),
      (''cycle_count'', PyInt (int (length cycles))),
      (''meaningful_cycle_count'', PyInt (int (length (filter is_meaningful_cycle cycles)))),
      (''stable_queue_snapshot_count'', PyInt (int_value (dget latest ''stable_queue_snapshot_count'' PyNone) 0)),
      (''stable_queue_snapshot'', py_strs (list_texts (dget latest ''queue_snapshot'' PyNone))),
      (''queue_action'', PyDict (mapping_value latest ''queue_action'')),
      (''completed_at'', PyStr now), (''last_cycle_elapsed_seconds'', PyInt elapsed)]"

definition touch_loop_state :: "string \<Rightarrow> pydict \<Rightarrow> pydict res" where
  "touch_loop_state now session = bindr (normalize_loop_state session now) (\<lambda>s.
     Inr (dset ''loop_state'' (PyDict (dset ''updated_at'' (PyStr now) s)) session))"

definition add_maintenance_cycle ::
  "int \<Rightarrow> string \<Rightarrow> int \<Rightarrow> int \<Rightarrow> int \<Rightarrow> string \<Rightarrow> pydict \<Rightarrow> pydict \<Rightarrow> pydict" where
  "add_maintenance_cycle index now started elapsed duration path readiness session =
     (let maintenance = mapping_value session ''maintenance'';
          cycles = the_list (dget maintenance ''cycles'' PyNone);
          queue = readiness_queue_snapshot readiness;
          runnable = readiness_runnable_proposal_count readiness;
          latest = maintenance_cycle_record index now started elapsed duration path
            (py_str (dget session ''path'' (PyStr ''''))) runnable queue
            (maintenance_cycle_queue_metadata cycles queue runnable)
      in dset ''maintenance'' (PyDict (maintenance_after_cycle maintenance (cycles @ [PyDict latest]) latest now
           elapsed)) session)"

definition record_maintenance_cycle :: "ai_env \<Rightarrow> int \<Rightarrow> int \<Rightarrow> unit ai" where
  "record_maintenance_cycle e index started =
     bind_ai (clock_ai e) (\<lambda>t0.
     bind_ai (build_reports e) (\<lambda>_.
     bind_ai (build_readiness e) (\<lambda>(readiness, path).
     bind_ai (update_session (\<lambda>s. Inr (dset ''queue_snapshot'' (py_strs (readiness_queue_snapshot readiness)) s))) (\<lambda>_.
     bind_ai (now_ai e) (\<lambda>now.
     bind_ai (update_session (touch_loop_state now)) (\<lambda>_.
     bind_ai (elapsed_ai e) (\<lambda>elapsed.
     bind_ai (clock_ai e) (\<lambda>t1.
     bind_ai (update_session (\<lambda>s. Inr (add_maintenance_cycle index now started elapsed
        (py_round ((t1 - t0) * 1000)) path readiness s))) (\<lambda>_.
     bind_ai (write_session e) (\<lambda>_.
       effect_ai e (RuntimeEvent ''proposal_budget_maintenance'' ''cycle_pass'')))))))))))"

text \<open>\<open>while True\<close>, with fuel: the completion condition, or \<open>None\<close> when the fuel is used up.\<close>

fun maintenance_loop :: "ai_env \<Rightarrow> int \<Rightarrow> int option \<Rightarrow> int \<Rightarrow> string \<Rightarrow> nat \<Rightarrow> (string option) ai" where
  "maintenance_loop e interval max_cycles target condition 0 = pure_ai (Inr None)"
| "maintenance_loop e interval max_cycles target condition (Suc fuel) =
     bind_ai (elapsed_ai e) (\<lambda>started.
     bind_ai (look_ai (\<lambda>w. maintenance_cycle_count (aw_session w))) (\<lambda>n.
     bind_ai (record_maintenance_cycle e (n + 1) started) (\<lambda>_.
     bind_ai (elapsed_ai e) (\<lambda>elapsed.
     bind_ai (look_ai aw_session) (\<lambda>s.
     case maintenance_terminal_completion_condition s condition max_cycles elapsed target of
       Some t \<Rightarrow> pure_ai (Inr (Some t))
     | None \<Rightarrow> bind_ai (effect_ai e (SleepFor (min interval (target - elapsed)))) (\<lambda>_.
         maintenance_loop e interval max_cycles target condition fuel))))))"

definition complete_maintenance :: "ai_env \<Rightarrow> string \<Rightarrow> unit ai" where
  "complete_maintenance e condition =
     bind_ai (now_ai e) (\<lambda>now.
     bind_ai (elapsed_ai e) (\<lambda>last_elapsed.
     bind_ai (session_step (\<lambda>s. case maintenance_completion s condition now last_elapsed of
        (maintenance, stop) \<Rightarrow> Inr (dset ''maintenance'' (PyDict maintenance) s, stop))) (\<lambda>stop.
     bind_ai (change_ai (\<lambda>w. w\<lparr>aw_stop := (case stop of Some t \<Rightarrow> t | None \<Rightarrow> aw_stop w)\<rparr>)) (\<lambda>_.
       write_session e))))"

definition run_proposal_budget_maintenance :: "ai_env \<Rightarrow> int \<Rightarrow> int option \<Rightarrow> nat \<Rightarrow> (unit option) ai" where
  "run_proposal_budget_maintenance e interval max_cycles fuel =
     bind_ai (look_ai aw_session) (\<lambda>s.
     bind_ai (pure_ai (budget_item s ''max_minutes'')) (\<lambda>minutes.
     let target = minutes * 60 in
     bind_ai (elapsed_ai e) (\<lambda>start.
     bind_ai (now_ai e) (\<lambda>now.
     let payload = initial_maintenance_payload now target start interval max_cycles in
     bind_ai (update_session (\<lambda>s. Inr (dset ''maintenance'' (PyDict payload) s))) (\<lambda>_.
     bind_ai (write_session e) (\<lambda>_.
     if int_value (dget payload ''expected_min_cycle_count'' PyNone) 0 = 0
     then bind_ai (now_ai e) (\<lambda>now'.
          bind_ai (update_session (\<lambda>s. Inr (dset ''maintenance''
             (PyDict (maintenance_already_reached_completion s now')) s))) (\<lambda>_.
          bind_ai (write_session e) (\<lambda>_. pure_ai (Inr (Some ())))))
     else bind_ai (maintenance_loop e interval max_cycles target
              (text_field payload ''completion_condition'') fuel) (\<lambda>r. case r of
            None \<Rightarrow> pure_ai (Inr None)
          | Some condition \<Rightarrow> bind_ai (complete_maintenance e condition) (\<lambda>_. pure_ai (Inr (Some ()))))))))))"

definition maybe_run_proposal_budget_maintenance ::
  "ai_env \<Rightarrow> session_request \<Rightarrow> int \<Rightarrow> nat \<Rightarrow> (unit option) ai" where
  "maybe_run_proposal_budget_maintenance e r new_iterations fuel =
     bind_ai (elapsed_ai e) (\<lambda>elapsed.
     bind_ai (look_ai aw_session) (\<lambda>s.
     bind_ai (pure_ai (budget_item s ''max_minutes'')) (\<lambda>minutes.
     bind_ai (look_ai aw_stop) (\<lambda>stop.
     bind_ai (pure_ai (promotion_maintenance_stop_decision s r new_iterations stop elapsed (minutes * 60))) (\<lambda>d.
     case me_stop_reason d of
       Some t \<Rightarrow> bind_ai (change_ai (\<lambda>w. w\<lparr>aw_stop := t\<rparr>)) (\<lambda>_. pure_ai (Inr (Some ())))
     | None \<Rightarrow> if me_should_run d
         then run_proposal_budget_maintenance e (me_interval d) (me_max_cycles d) fuel
         else pure_ai (Inr (Some ())))))))"

subsection \<open>A session\<close>

definition complete_auto_improve_session :: "ai_env \<Rightarrow> string \<Rightarrow> pydict ai" where
  "complete_auto_improve_session e sid =
     bind_ai (look_ai aw_stop) (\<lambda>stop.
     bind_ai (update_session (\<lambda>s. Inr (dset ''stop_reason'' (PyStr stop) (dset ''status'' (PyStr ''complete'') s)))) (\<lambda>_.
     bind_ai (look_ai (\<lambda>w. completion_class_for_session (aw_session w) stop)) (\<lambda>cls.
     bind_ai (update_session (\<lambda>s. Inr (dset ''completion_class'' (PyStr cls) s))) (\<lambda>_.
     bind_ai (write_session e) (\<lambda>_.
     bind_ai (call_ai WriteTrends (ae_path e)) (\<lambda>trends.
     bind_ai (call_ai WriteMetrics (ae_path e)) (\<lambda>metrics.
     bind_ai (look_ai aw_session) (\<lambda>s.
     bind_ai (pure_ai (ditem s ''path'')) (\<lambda>path.
     bind_ai (pure_ai (bindr (ditem s ''iterations'') py_len)) (\<lambda>n.
     bind_ai (pure_ai (ditem s ''run_ids'')) (\<lambda>run_ids.
       pure_ai (Inr
         [(''session_id'', PyStr sid), (''session_report'', path),
          (''routing_provenance_aggregate'',
             PyStr (''ops/reports/routing-provenance-aggregates/'' @ sid @ ''.json'')),
          (''promotion_decision_trends'', PyStr trends), (''outcome_metrics'', PyStr metrics),
          (''iterations'', PyInt n), (''stop_reason'', PyStr stop), (''completion_class'', PyStr cls),
          (''run_ids'', run_ids)]))))))))))))"

text \<open>
  The identifiers a session holds, as a set of texts. An entry that is not a text is refused here; the
  code refuses it when it next sorts the set.
\<close>

definition id_set :: "pydict \<Rightarrow> string \<Rightarrow> string list res" where
  "id_set session k = bindr (bindr (ditem session k) py_iter) (\<lambda>xs.
     if list_all is_str xs then Inr (remdups (map the_str xs)) else Inl TypeError)"

definition initial_loop_state :: "ai_env \<Rightarrow> unit ai" where
  "initial_loop_state e =
     bind_ai (look_ai aw_session) (\<lambda>s.
     bind_ai (pure_ai (id_set s ''attempted_proposal_ids'')) (\<lambda>attempted.
     bind_ai (pure_ai (id_set s ''quarantined_proposal_ids'')) (\<lambda>quarantined.
     bind_ai (pure_ai (py_get (dget s ''loop_state'' (PyDict [])) ''consecutive_failures'' PyNone)) (\<lambda>failures.
     bind_ai (clock_ai e) (\<lambda>start.
       change_ai (\<lambda>w. w\<lparr>aw_attempted := attempted, aw_quarantined := quarantined,
         aw_failures := max 0 (int_value failures 0), aw_stop := ''queue_exhausted'', aw_start := start,
         aw_repair := False\<rparr>))))))"

definition quarantine_outcomes_of :: "pydict \<Rightarrow> string list res" where
  "quarantine_outcomes_of auto_policy =
     bindr (bindr (bindr (ditem auto_policy ''quarantine'') (\<lambda>q. py_item q ''pre_promotion_failure_outcomes''))
       py_iter) (\<lambda>xs. Inr (map the_str (filter is_str xs)))"

text \<open>The gate of the session, unless it stops at once.\<close>

definition open_session :: "ai_env \<Rightarrow> bool \<Rightarrow> unit ai" where
  "open_session e allow =
     bind_ai (stop_reason_before_iteration e False) (\<lambda>stop. case stop of
       Some t \<Rightarrow> change_ai (\<lambda>w. w\<lparr>aw_stop := t\<rparr>)
     | None \<Rightarrow> bind_ai (preflight_learning_gate e allow) (\<lambda>repair. change_ai (\<lambda>w. w\<lparr>aw_repair := repair\<rparr>)))"

definition session_iteration_total :: "pydict \<Rightarrow> int res" where
  "session_iteration_total s = bindr (ditem s ''iterations'') py_len"

text \<open>What \<open>run_auto_improve_session\<close> does after the last iteration, and from the start of the loop.\<close>

definition close_session :: "ai_env \<Rightarrow> string \<Rightarrow> session_request \<Rightarrow> int \<Rightarrow> nat \<Rightarrow> (pydict option) ai" where
  "close_session e sid r n0 fuel =
     bind_ai (stop_reason_after_loop e) (\<lambda>stop.
     bind_ai (change_ai (\<lambda>w. w\<lparr>aw_stop := stop\<rparr>)) (\<lambda>_.
     bind_ai (look_ai aw_session) (\<lambda>s.
     bind_ai (pure_ai (session_iteration_total s)) (\<lambda>n1.
     bind_ai (maybe_run_proposal_budget_maintenance e r (n1 - n0) fuel) (\<lambda>m. case m of
       None \<Rightarrow> pure_ai (Inr None)
     | Some _ \<Rightarrow>
         bind_ai (complete_auto_improve_session e sid) (\<lambda>result.
         bind_ai (effect_ai e (RuntimeEvent ''complete'' (text_field result ''stop_reason''))) (\<lambda>_.
           pure_ai (Inr (Some result)))))))))"

definition run_session ::
  "ai_env \<Rightarrow> pydict \<Rightarrow> pydict \<Rightarrow> string \<Rightarrow> session_request \<Rightarrow> nat \<Rightarrow> (pydict option) ai" where
  "run_session e policy auto_policy sid r fuel =
     bind_ai (initial_loop_state e) (\<lambda>_.
     bind_ai (pure_ai (quarantine_outcomes_of auto_policy)) (\<lambda>quarantine_outcomes.
     bind_ai (open_session e (sq_allow_learning_uncertain r)) (\<lambda>_.
     bind_ai (look_ai aw_session) (\<lambda>s.
     bind_ai (pure_ai (session_iteration_total s)) (\<lambda>n0.
     bind_ai (pure_ai (budget_item s ''max_proposals'')) (\<lambda>budget.
     bind_ai (run_iterations e policy quarantine_outcomes sid [n0 + 1..budget]) (\<lambda>_.
       close_session e sid r n0 fuel)))))))"

text \<open>The world before the session is started.\<close>

definition new_world :: ai_world where
  "new_world = \<lparr>aw_calls = [], aw_session = [], aw_attempted = [], aw_quarantined = [], aw_failures = 0,
     aw_stop = '''', aw_start = 0, aw_repair = False\<rparr>"

definition run_auto_improve_session ::
  "ai_env \<Rightarrow> pydict \<Rightarrow> string \<Rightarrow> (string \<Rightarrow> pydict res) \<Rightarrow> (string \<Rightarrow> pydict res) \<Rightarrow> session_request \<Rightarrow> nat \<Rightarrow>
   (pydict option) ai" where
  "run_auto_improve_session e policy policy_path load_session load_snapshot r fuel =
     bind_ai (now_ai e) (\<lambda>now.
     bind_ai (pure_ai (start_auto_improve_session policy policy_path load_session load_snapshot now r))
       (\<lambda>(auto_policy, session, sid).
     bind_ai (update_session (\<lambda>_. Inr session)) (\<lambda>_.
       run_session e policy auto_policy sid r fuel)))"

section \<open>What every session keeps to\<close>

subsection \<open>Steady steps\<close>

text \<open>
  An attempt is a scope that is frozen for a proposal. A steady step attempts nothing, keeps the
  loop's record of attempts, its failures and its start, and some keys of the session.
\<close>

fun attempt_of :: "ai_call \<Rightarrow> (string \<times> string) option" where
  "attempt_of (BuildScopeFreeze run_id pid) = Some (run_id, pid)"
| "attempt_of _ = None"

definition attempts :: "ai_call list \<Rightarrow> (string \<times> string) list" where
  "attempts cs = List.map_filter attempt_of cs"

lemma attempts_simps [simp]:
  "attempts [] = []"
  "attempts (c # cs) = (case attempt_of c of Some a \<Rightarrow> [a] | None \<Rightarrow> []) @ attempts cs"
  by (simp_all add: attempts_def List.map_filter_def split: option.splits)

lemma attempts_append [simp]: "attempts (cs @ ds) = attempts cs @ attempts ds"
  by (simp add: attempts_def List.map_filter_def)

definition steady_step :: "string set \<Rightarrow> ai_world \<Rightarrow> ai_world \<Rightarrow> bool" where
  "steady_step K w w' \<longleftrightarrow>
     (\<exists>cs. aw_calls w' = aw_calls w @ cs \<and> attempts cs = []) \<and>
     aw_attempted w' = aw_attempted w \<and> aw_failures w' = aw_failures w \<and> aw_start w' = aw_start w \<and>
     (\<forall>k \<in> K. map_of (aw_session w') k = map_of (aw_session w) k)"

definition quiet :: "string set \<Rightarrow> 'a ai \<Rightarrow> bool" where
  "quiet K m \<longleftrightarrow> (\<forall>w. steady_step K w (snd (m w)))"

named_theorems steady_rules "actions that are quiet"

lemma steady_step_refl: "steady_step K w w"
  by (simp add: steady_step_def)

lemma steady_step_trans: "steady_step K u v \<Longrightarrow> steady_step K v w \<Longrightarrow> steady_step K u w"
  by (auto simp: steady_step_def)

lemma steadyD: "quiet K m \<Longrightarrow> m w = (r, w') \<Longrightarrow> steady_step K w w'"
  unfolding quiet_def by (metis snd_conv)

lemma steady_pure [steady_rules]: "quiet K (pure_ai r)"
  by (simp add: quiet_def pure_ai_def steady_step_refl)

lemma steady_look [steady_rules]: "quiet K (look_ai g)"
  by (simp add: quiet_def look_ai_def steady_step_refl)

lemma steady_bind [steady_rules]: "quiet K m \<Longrightarrow> (\<And>x. quiet K (f x)) \<Longrightarrow> quiet K (bind_ai m f)"
  unfolding quiet_def bind_ai_def
  by (auto split: prod.split sum.split) (metis snd_conv steady_step_trans)+

lemma steady_call [steady_rules]: "attempt_of c = None \<Longrightarrow> quiet K (call_ai c answer)"
  by (simp add: quiet_def call_ai_def steady_step_def)

lemma steady_effect [steady_rules]: "attempt_of c = None \<Longrightarrow> quiet K (effect_ai e c)"
  by (simp add: effect_ai_def steady_call)

lemma steady_session_step [steady_rules]:
  "(\<And>s s' a k. f s = Inr (s', a) \<Longrightarrow> k \<in> K \<Longrightarrow> map_of s' k = map_of s k) \<Longrightarrow> quiet K (session_step f)"
  by (auto simp: quiet_def session_step_def steady_step_def split: sum.split)

lemma steady_update [steady_rules]:
  "(\<And>s s' k. f s = Inr s' \<Longrightarrow> k \<in> K \<Longrightarrow> map_of s' k = map_of s k) \<Longrightarrow> quiet K (update_session f)"
  unfolding update_session_def by (rule steady_session_step) (auto simp: bindr_eq_Inr)

lemma steady_change [steady_rules]:
  "(\<And>w. steady_step K w (g w)) \<Longrightarrow> quiet K (change_ai g)"
  by (simp add: quiet_def change_ai_def)

lemma steady_if [steady_rules]: "quiet K m \<Longrightarrow> quiet K m' \<Longrightarrow> quiet K (if b then m else m')"
  by simp

lemma steady_prod [steady_rules]: "(\<And>a b. quiet K (f a b)) \<Longrightarrow> quiet K (case x of (a, b) \<Rightarrow> f a b)"
  by (simp split: prod.split)

lemma steady_option [steady_rules]:
  "quiet K m \<Longrightarrow> (\<And>a. quiet K (f a)) \<Longrightarrow> quiet K (case x of None \<Rightarrow> m | Some a \<Rightarrow> f a)"
  by (simp split: option.split)

lemma steady_let [steady_rules]: "quiet K (f x) \<Longrightarrow> quiet K (Let x f)"
  by simp

lemma steady_now [steady_rules]: "quiet K (now_ai e)"
  by (simp add: now_ai_def steady_call)

lemma steady_clock [steady_rules]: "quiet K (clock_ai e)"
  by (simp add: clock_ai_def steady_call)

lemma steady_elapsed [steady_rules]: "quiet K (elapsed_ai e)"
  unfolding elapsed_ai_def by (intro steady_rules)

lemma steady_write [steady_rules]: "quiet K (write_session e)"
  unfolding write_session_def by (intro steady_rules) simp

lemma steady_stop: "steady_step K w (w\<lparr>aw_stop := t, aw_repair := b\<rparr>)"
  by (simp add: steady_step_def)

abbreviation budget_key :: "string set" where
  "budget_key \<equiv> {''budget''}"

abbreviation loop_keys :: "string set" where
  "loop_keys \<equiv> {''budget'', ''iterations''}"

lemma steady_mono: "quiet K m \<Longrightarrow> L \<subseteq> K \<Longrightarrow> quiet L m"
  by (auto simp: quiet_def steady_step_def)

lemma steady_budget: "quiet loop_keys m \<Longrightarrow> quiet budget_key m"
  by (rule steady_mono) auto

lemma session_append_map_of:
  "session_append k v s = Inr s' \<Longrightarrow> k' \<noteq> k \<Longrightarrow> map_of s' k' = map_of s k'"
  unfolding session_append_def bindr_eq_Inr
  by (elim exE conjE) (auto simp: map_of_dset split: pyval.split_asm)

lemma mark_map_of:
  "mark_repeated_blocker_stop s reason now = Inr s' \<Longrightarrow> k' \<noteq> ''loop_state'' \<Longrightarrow> map_of s' k' = map_of s k'"
  by (auto simp: mark_repeated_blocker_stop_def bindr_eq_Inr map_of_dset Let_def)

lemmas keeps_budget =
  session_append_map_of[where k' = "''budget''"] mark_map_of[where k' = "''budget''"]

lemmas keeps_loop_keys = keeps_budget mark_map_of[where k' = "''iterations''"]

lemma steady_refresh [steady_rules]: "quiet K (refresh_select_phase e)"
  unfolding refresh_select_phase_def build_reports_def build_readiness_def
  by (intro steady_rules) simp_all

lemma steady_route_roles [steady_rules]: "quiet K (route_roles e run_id roles)"
  by (induction roles) (auto simp: route_role_def intro!: steady_rules)

lemma steady_route_scope [steady_rules]: "quiet K (route_scope_roles e policy run_id scope)"
  unfolding route_scope_roles_def route_role_def by (intro steady_rules) simp_all

lemma steady_experiment [steady_rules]: "quiet K (run_full_experiment e rs p)"
  by (auto simp: run_full_experiment_def split: sum.split intro!: steady_rules)

lemma steady_evaluate [steady_rules]: "quiet K (evaluate_execution_outcome e qs rs p)"
  unfolding evaluate_execution_outcome_def by (intro steady_rules)

lemma steady_quarantine: "steady_step K w (w\<lparr>aw_quarantined := qs\<rparr>)"
  by (simp add: steady_step_def)

lemma steady_apply [steady_rules]: "quiet loop_keys (apply_execution_outcome pid o1)"
  unfolding apply_execution_outcome_def
  by (intro steady_rules steady_quarantine) (auto simp: map_of_dset)

lemma append_decision_map_of:
  "append_decision d s = Inr s' \<Longrightarrow> k' \<noteq> ''next_run_decisions'' \<Longrightarrow> map_of s' k' = map_of s k'"
  by (auto simp: append_decision_def map_of_dset dest!: session_append_map_of split: option.splits if_splits)

lemma steady_persist [steady_rules]: "quiet budget_key (persist_iteration_phase e sid i p rs o1)"
  unfolding persist_iteration_phase_def
  by (intro steady_rules steady_budget[OF steady_apply])
    (auto simp: map_of_dset update_session_loop_state_def Let_def
      dest: keeps_budget append_decision_map_of[where k' = "''budget''"])

lemma steady_stop_for_blocker [steady_rules]: "quiet loop_keys (stop_for_blocker e reason)"
  unfolding stop_for_blocker_def by (intro steady_rules) (auto dest: keeps_loop_keys)

lemma steady_backlog [steady_rules]: "quiet K (open_backlog_reason e check)"
  unfolding open_backlog_reason_def by (intro steady_rules) simp

lemma steady_stop_before [steady_rules]: "quiet loop_keys (stop_reason_before_iteration e check)"
  unfolding stop_reason_before_iteration_def by (intro steady_rules)

lemma steady_stop_after [steady_rules]: "quiet loop_keys (stop_reason_after_loop e)"
  unfolding stop_reason_after_loop_def by (intro steady_rules)

lemma record_pre_run_map_of:
  "record_pre_run_selected_proposal s ps = Inr (s', b) \<Longrightarrow> k \<noteq> ''metadata'' \<Longrightarrow> map_of s' k = map_of s k"
  by (auto simp: record_pre_run_selected_proposal_def bindr_eq_Inr Let_def map_of_dset)

lemma steady_preflight [steady_rules]: "quiet loop_keys (preflight_learning_gate e allow)"
  unfolding preflight_learning_gate_def build_reports_def build_readiness_def
  by (intro steady_rules)
    (auto simp: map_of_dset apply_learning_preflight_session_fields_def dest: record_pre_run_map_of[where k = "''budget''"]
        record_pre_run_map_of[where k = "''iterations''"])

lemma steady_open [steady_rules]: "quiet loop_keys (open_session e allow)"
  unfolding open_session_def by (intro steady_rules) (simp_all add: steady_step_def)

subsection \<open>Maintenance is steady\<close>

lemma steady_cycle [steady_rules]: "quiet loop_keys (record_maintenance_cycle e i started)"
  unfolding record_maintenance_cycle_def build_reports_def build_readiness_def
  by (intro steady_rules)
    (auto simp: map_of_dset touch_loop_state_def add_maintenance_cycle_def Let_def bindr_eq_Inr)

lemma steady_maintenance_loop [steady_rules]:
  "quiet loop_keys (maintenance_loop e interval max_cycles target condition fuel)"
  by (induction fuel) (auto intro!: steady_rules)

lemma steady_complete_maintenance [steady_rules]: "quiet loop_keys (complete_maintenance e condition)"
  unfolding complete_maintenance_def
  by (intro steady_rules) (auto simp: map_of_dset steady_step_def maintenance_completion_def Let_def)

lemma steady_maintenance [steady_rules]:
  "quiet loop_keys (run_proposal_budget_maintenance e interval max_cycles fuel)"
  unfolding run_proposal_budget_maintenance_def by (intro steady_rules) (auto simp: map_of_dset)

lemma steady_maybe_maintenance [steady_rules]:
  "quiet loop_keys (maybe_run_proposal_budget_maintenance e r n fuel)"
  unfolding maybe_run_proposal_budget_maintenance_def by (intro steady_rules) (simp add: steady_step_def)

lemma steady_complete [steady_rules]: "quiet loop_keys (complete_auto_improve_session e sid)"
  unfolding complete_auto_improve_session_def by (intro steady_rules) (auto simp: map_of_dset)

subsection \<open>One iteration attempts at most one new proposal\<close>

lemma bind_aiE:
  assumes "bind_ai m f w = (r, w')"
  obtains (raised) x where "m w = (Inl x, w')" and "r = Inl x"
  | (returned) a w1 where "m w = (Inr a, w1)" and "f a w1 = (r, w')"
  using assms by (auto simp: bind_ai_def split: prod.splits sum.splits)

lemma pure_run: "pure_ai r w = (r, w)"
  by (simp add: pure_ai_def)

lemma bind_look: "bind_ai (look_ai g) f w = f (g w) w"
  by (simp add: bind_ai_def look_ai_def)

lemma bind_change: "bind_ai (change_ai g) f w = f () (g w)"
  by (simp add: bind_ai_def change_ai_def)

lemma bind_update:
  "bind_ai (update_session (\<lambda>s. Inr (g s))) f w = f () (w\<lparr>aw_session := g (aw_session w)\<rparr>)"
  by (simp add: bind_ai_def update_session_def session_step_def)

definition gives :: "('a \<Rightarrow> bool) \<Rightarrow> 'a ai \<Rightarrow> bool" where
  "gives Q m \<longleftrightarrow> (\<forall>w a w'. m w = (Inr a, w') \<longrightarrow> Q a)"

lemma givesD: "gives Q m \<Longrightarrow> m w = (Inr a, w') \<Longrightarrow> Q a"
  by (auto simp: gives_def)

lemma gives_bind: "gives P m \<Longrightarrow> (\<And>a. P a \<Longrightarrow> gives Q (f a)) \<Longrightarrow> gives Q (bind_ai m f)"
  unfolding gives_def by (metis bind_aiE Inl_Inr_False prod.inject)

lemma gives_any: "gives (\<lambda>_. True) m"
  by (simp add: gives_def)

lemma gives_pure: "(\<And>a. r = Inr a \<Longrightarrow> Q a) \<Longrightarrow> gives Q (pure_ai r)"
  by (auto simp: gives_def pure_ai_def)

lemma gives_apply: "gives (\<lambda>f. f = eo_failures o1) (apply_execution_outcome pid o1)"
  unfolding apply_execution_outcome_def by (rule gives_bind[OF gives_any]) (auto intro: gives_pure)

lemma gives_persist: "gives (\<lambda>f. f = eo_failures o1) (persist_iteration_phase e sid i p rs o1)"
  unfolding persist_iteration_phase_def Let_def
  by (rule gives_bind[OF gives_any], rule gives_bind[OF gives_apply], (rule gives_bind[OF gives_any])+)
    (auto intro: gives_pure)

lemma judged_failures:
  "judge_experiment digest16 files rid roles qs n r = Inr o1 \<Longrightarrow> eo_failures o1 \<le> max 0 (n + 1)"
  by (auto simp: judge_experiment_def evaluate_mutation_error_def evaluate_experiment_error_def
      evaluate_experiment_result_def evaluate_undecided_result_def bindr_eq_Inr Let_def
      split: sum.splits py_exc.splits if_splits pyval.splits)

lemma evaluate_failures:
  assumes "evaluate_execution_outcome e qs rs p w = (Inr o1, w')"
  shows "eo_failures o1 \<le> max 0 (aw_failures w + 1)"
proof -
  from assms have "gives (\<lambda>o1. eo_failures o1 \<le> max 0 (aw_failures w + 1))
      (bind_ai (pure_ai (ditem (rs_scope rs) ''status'')) (\<lambda>status.
     if status = PyStr ''blocked'' then pure_ai (Inr (evaluate_scope_blocked (aw_failures w)))
     else bind_ai (run_full_experiment e rs p) (\<lambda>r.
       bind_ai (look_ai (\<lambda>w. ae_files e (aw_calls w))) (\<lambda>files.
         pure_ai (judge_experiment (ae_digest16 e) files (rs_run_id rs) (rs_roles rs) qs
           (aw_failures w) r)))))"
    by (intro gives_bind[OF gives_any]) (auto intro!: gives_pure gives_bind[OF gives_any]
        dest: judged_failures simp: evaluate_scope_blocked_def)
  from givesD[OF this, of w] assms show ?thesis
    by (simp add: evaluate_execution_outcome_def bind_look)
qed

text \<open>Recording the selected proposal adds it, and nothing else, to the attempted ones.\<close>

definition recording_step :: "string \<Rightarrow> ai_world \<Rightarrow> ai_world \<Rightarrow> bool" where
  "recording_step pid w w' \<longleftrightarrow>
     (\<exists>cs. aw_calls w' = aw_calls w @ cs \<and> attempts cs = []) \<and>
     set (aw_attempted w) \<subseteq> set (aw_attempted w') \<and>
     aw_failures w' = aw_failures w \<and> aw_start w' = aw_start w \<and>
     map_of (aw_session w') ''budget'' = map_of (aw_session w) ''budget''"

lemma steady_recording: "steady_step budget_key w w' \<Longrightarrow> recording_step pid w w'"
  by (auto simp: steady_step_def recording_step_def)

lemma recording_trans: "recording_step pid u v \<Longrightarrow> recording_step pid v w \<Longrightarrow> recording_step pid u w"
  by (auto simp: recording_step_def)

lemma record_selected_step:
  assumes id: "dget p ''proposal_id'' PyNone = PyStr (item_id p)"
    and run: "record_selected_proposal e sid i p w = (r, w')"
  shows "recording_step (item_id p) w w' \<and> (\<forall>x. r = Inr x \<longrightarrow> item_id p \<in> set (aw_attempted w'))"
proof -
  have pid: "bindr (ditem p ''proposal_id'') py_text = Inr (item_id p)"
    using id by (auto simp: dget_def ditem_def split: option.splits)
  define late where "late run_id = bind_ai (look_ai aw_attempted) (\<lambda>attempted.
     bind_ai (update_session (\<lambda>s. Inr (dset ''attempted_proposal_ids'' (sorted_ids attempted) s))) (\<lambda>_.
     bind_ai (update_session (session_append ''run_ids'' (PyStr run_id))) (\<lambda>_.
       pure_ai (Inr run_id))))" for run_id :: string
  have late: "quiet budget_key (late x)" for x
    unfolding late_def by (intro steady_rules) (auto simp: map_of_dset dest: keeps_budget)
  define early where "early = bind_ai (pure_ai (build_run_id e sid i p)) (\<lambda>base.
     bind_ai (look_ai aw_session) (\<lambda>s.
     bind_ai (pure_ai (session_run_ids s)) (\<lambda>used.
     bind_ai (call_ai ListRuns (\<lambda>cs. Inr (ae_runs e cs))) (\<lambda>dirs.
     bind_ai (effect_ai e (MakeRunDir (unique_run_id (used @ dirs) base))) (\<lambda>_.
       pure_ai (Inr (unique_run_id (used @ dirs) base)))))))"
  have early: "quiet budget_key early" unfolding early_def by (intro steady_rules) simp_all
  have "record_selected_proposal e sid i p w = bind_ai early (\<lambda>run_id.
      bind_ai (change_ai (\<lambda>w. w\<lparr>aw_attempted := insert_id (item_id p) (aw_attempted w)\<rparr>)) (\<lambda>_. late run_id)) w"
    unfolding record_selected_proposal_def early_def late_def Let_def
    by (simp add: pid bind_ai_def pure_ai_def split: prod.split sum.split)
  with run have "bind_ai early (\<lambda>run_id.
      bind_ai (change_ai (\<lambda>w. w\<lparr>aw_attempted := insert_id (item_id p) (aw_attempted w)\<rparr>)) (\<lambda>_. late run_id)) w
      = (r, w')" by simp
  then show ?thesis
  proof (cases rule: bind_aiE)
    case (raised x)
    then show ?thesis using steady_recording[OF steadyD[OF early]] by auto
  next
    case (returned rid w1)
    define w2 where "w2 = w1\<lparr>aw_attempted := insert_id (item_id p) (aw_attempted w1)\<rparr>"
    have "late rid w2 = (r, w')"
      using returned(2) by (simp add: bind_change w2_def)
    note l = steadyD[OF late this]
    have "recording_step (item_id p) w1 w2" "item_id p \<in> set (aw_attempted w2)"
      by (auto simp: recording_step_def w2_def insert_id_def)
    moreover have "recording_step (item_id p) w w1" "recording_step (item_id p) w2 w'"
      using steady_recording[OF steadyD[OF early returned(1)]] steady_recording[OF l] by blast+
    moreover have "aw_attempted w' = aw_attempted w2" using l by (simp add: steady_step_def)
    ultimately show ?thesis by (metis recording_trans)
  qed
qed

lemma route_scaffold_step:
  assumes "route_scaffold_phase e policy run_id p w = (r, w')"
  shows "\<exists>cs. aw_calls w' = aw_calls w @ BuildScopeFreeze run_id (item_id p) # cs \<and> attempts cs = [] \<and>
     aw_attempted w' = aw_attempted w \<and> aw_failures w' = aw_failures w \<and> aw_start w' = aw_start w \<and>
     map_of (aw_session w') ''budget'' = map_of (aw_session w) ''budget''"
proof -
  let ?w1 = "w\<lparr>aw_calls := aw_calls w @ [BuildScopeFreeze run_id (item_id p)]\<rparr>"
  define rest where "rest scope =
     bind_ai (call_ai (WriteScopeFreeze run_id) (ae_path e)) (\<lambda>rel.
     bind_ai (route_scope_roles e policy run_id scope) (\<lambda>(roles, rels).
     bind_ai (pure_ai (bindr (ditem scope ''resolution'') (\<lambda>r. py_item r ''test_files''))) (\<lambda>_.
     bind_ai (pure_ai (ditem p ''proposal_id'')) (\<lambda>_.
     bind_ai (effect_ai e (ScaffoldRun run_id (item_id p))) (\<lambda>_.
     bind_ai (pure_ai (ditem scope ''status'')) (\<lambda>_.
     bind_ai (effect_ai e (LedgerEvent run_id ''scope_frozen'')) (\<lambda>_.
     bind_ai (effect_ai e (LedgerEvent run_id ''subagent_routed'')) (\<lambda>_.
       pure_ai (Inr \<lparr>rs_run_id = run_id, rs_scope = scope, rs_scope_rel = rel, rs_roles = roles,
                     rs_routing = rels\<rparr>)))))))))" for scope
  have rest: "quiet budget_key (rest scope)" for scope
    unfolding rest_def by (intro steady_rules) simp_all
  have "r' = r \<and> w'' = w' \<Longrightarrow> ?thesis" if "steady_step budget_key ?w1 w'" for r' w''
    using that by (auto simp: steady_step_def)
  moreover have "steady_step budget_key ?w1 w'"
    using assms steadyD[OF rest]
    unfolding route_scaffold_phase_def rest_def[symmetric]
    by (auto simp: call_ai_def steady_step_refl elim!: bind_aiE)
  ultimately show ?thesis by blast
qed

definition proposal_step :: "ai_world \<Rightarrow> ai_world \<Rightarrow> bool" where
  "proposal_step w w' \<longleftrightarrow>
     aw_start w' = aw_start w \<and> map_of (aw_session w') ''budget'' = map_of (aw_session w) ''budget'' \<and>
     set (aw_attempted w) \<subseteq> set (aw_attempted w') \<and> aw_failures w' \<le> max 0 (aw_failures w + 1) \<and>
     (\<exists>cs. aw_calls w' = aw_calls w @ cs \<and>
       (attempts cs = [] \<or>
        (\<exists>u rid pid v. cs = u @ BuildScopeFreeze rid pid # v \<and> attempts u = [] \<and> attempts v = [] \<and>
           pid \<notin> set (aw_attempted w) \<and> pid \<in> set (aw_attempted w'))))"

lemma recording_attempt_step: "recording_step pid w w' \<Longrightarrow> proposal_step w w'"
  by (auto simp: recording_step_def proposal_step_def)

lemma steady_attempt_step: "steady_step budget_key w w' \<Longrightarrow> proposal_step w w'"
  by (rule recording_attempt_step, rule steady_recording)

lemma steady_then_attempt: "steady_step budget_key u v \<Longrightarrow> proposal_step v w \<Longrightarrow> proposal_step u w"
  unfolding proposal_step_def steady_step_def
  by (elim conjE exE disjE) (simp_all, metis append_assoc attempts_append append_Nil)

text \<open>What follows the scaffold of a run: steady, up to the failures that the iteration records.\<close>

definition judged_step :: "ai_world \<Rightarrow> ai_world \<Rightarrow> bool" where
  "judged_step w w' \<longleftrightarrow>
     (\<exists>cs. aw_calls w' = aw_calls w @ cs \<and> attempts cs = []) \<and> aw_attempted w' = aw_attempted w \<and>
     aw_failures w' \<le> max 0 (aw_failures w + 1) \<and> aw_start w' = aw_start w \<and>
     map_of (aw_session w') ''budget'' = map_of (aw_session w) ''budget''"

lemma steady_judged: "steady_step budget_key w w' \<Longrightarrow> judged_step w w'"
  by (auto simp: steady_step_def judged_step_def)

lemma judged_after_scaffold:
  assumes "bind_ai (effect_ai e (RuntimeEvent a b)) (\<lambda>_.
     bind_ai (evaluate_execution_outcome e qs rs p) (\<lambda>o1.
     bind_ai (persist_iteration_phase e sid i p rs o1) (\<lambda>failures.
     bind_ai (look_ai aw_session) (\<lambda>s.
     bind_ai (pure_ai (stop_after_outcome s o1 failures)) (\<lambda>stop.
       finish_iteration failures stop))))) w = (r, w')"
  shows "judged_step w w'"
proof -
  have event: "quiet budget_key (effect_ai e (RuntimeEvent a b))" by (rule steady_effect) simp
  show ?thesis
    using assms
proof (cases rule: bind_aiE)
  case (raised x)
  then show ?thesis using steadyD[OF event] steady_judged by blast
next
  case (returned u w1)
  have s1: "steady_step budget_key w w1" by (rule steadyD[OF event returned(1)])
  from returned(2) show ?thesis
  proof (cases rule: bind_aiE)
    case (raised x)
    then show ?thesis
      using steady_step_trans[OF s1 steadyD[OF steady_evaluate]] steady_judged by blast
  next
    case (returned o1 w2)
    have s2: "steady_step budget_key w w2"
      by (rule steady_step_trans[OF s1 steadyD[OF steady_evaluate returned(1)]])
    have f: "eo_failures o1 \<le> max 0 (aw_failures w + 1)"
      using evaluate_failures[OF returned(1)] s1 by (simp add: steady_step_def)
    from returned(2) show ?thesis
    proof (cases rule: bind_aiE)
      case (raised x)
      then show ?thesis
        using steady_step_trans[OF s2 steadyD[OF steady_persist]] steady_judged by blast
    next
      case (returned failures w3)
      have s3: "steady_step budget_key w w3"
        by (rule steady_step_trans[OF s2 steadyD[OF steady_persist returned(1)]])
      have "failures = eo_failures o1" by (rule givesD[OF gives_persist returned(1)])
      with f have failures: "failures \<le> max 0 (aw_failures w + 1)" by simp
      from returned(2) have "bind_ai (pure_ai (stop_after_outcome (aw_session w3) o1 failures))
          (finish_iteration failures) w3 = (r, w')"
        by (simp add: bind_look)
      then show ?thesis
      proof (cases rule: bind_aiE)
        case (raised x)
        then have "w' = w3" by (simp add: pure_ai_def)
        with s3 show ?thesis by (simp add: steady_judged)
      next
        case (returned stop w4)
        then have "w' = w3\<lparr>aw_failures := failures, aw_stop := case stop of Some t \<Rightarrow> t | None \<Rightarrow> aw_stop w3\<rparr>"
          by (auto simp: pure_ai_def finish_iteration_def bind_change)
        with s3 failures show ?thesis by (auto simp: judged_step_def steady_step_def)
      qed
    qed
  qed
qed
qed

lemma attempt_proposal_step:
  assumes id: "dget p ''proposal_id'' PyNone = PyStr (item_id p)" and new: "item_id p \<notin> set (aw_attempted w)"
    and run: "attempt_proposal e policy qs sid i p w = (r, w')"
  shows "proposal_step w w'"
  using run unfolding attempt_proposal_def
proof (cases rule: bind_aiE)
  case (raised x)
  then show ?thesis using record_selected_step[OF id] recording_attempt_step by blast
next
  case (returned run_id w1)
  have s1: "recording_step (item_id p) w w1" and mem: "item_id p \<in> set (aw_attempted w1)"
    using record_selected_step[OF id returned(1)] by auto
  from s1 obtain u where u: "aw_calls w1 = aw_calls w @ u" "attempts u = []"
    by (auto simp: recording_step_def)
  have attempt: "proposal_step w w''"
    if "aw_calls w'' = aw_calls w1 @ BuildScopeFreeze run_id (item_id p) # cs" "attempts cs = []"
      "aw_attempted w'' = aw_attempted w1" "aw_failures w'' \<le> max 0 (aw_failures w1 + 1)"
      "aw_start w'' = aw_start w1" "map_of (aw_session w'') ''budget'' = map_of (aw_session w1) ''budget''"
    for w'' cs
  proof -
    have "aw_calls w'' = aw_calls w @ (u @ BuildScopeFreeze run_id (item_id p) # cs)" using that u by simp
    then show ?thesis
      unfolding proposal_step_def using that s1 u mem new by (auto simp: recording_step_def)
  qed
  from returned(2) show ?thesis
  proof (cases rule: bind_aiE)
    case (raised x)
    from route_scaffold_step[OF this(1)] show ?thesis by (auto intro: attempt)
  next
    case (returned rs w2)
    from route_scaffold_step[OF this(1)] obtain cs where
      cs: "aw_calls w2 = aw_calls w1 @ BuildScopeFreeze run_id (item_id p) # cs" "attempts cs = []"
        "aw_attempted w2 = aw_attempted w1" "aw_failures w2 = aw_failures w1" "aw_start w2 = aw_start w1"
        "map_of (aw_session w2) ''budget'' = map_of (aw_session w1) ''budget''" by blast
    from judged_after_scaffold[OF returned(2)] obtain cs' where
      "aw_calls w' = aw_calls w2 @ cs'" "attempts cs' = []" "aw_attempted w' = aw_attempted w2"
      "aw_failures w' \<le> max 0 (aw_failures w2 + 1)" "aw_start w' = aw_start w2"
      "map_of (aw_session w') ''budget'' = map_of (aw_session w2) ''budget''"
      by (auto simp: judged_step_def)
    with cs show ?thesis by (intro attempt[of w' "cs @ cs'"]) simp_all
  qed
qed

lemma refresh_select_Some:
  assumes "refresh_select_phase e w = (Inr (Some p, queue), w')"
  shows "dget p ''proposal_id'' PyNone = PyStr (item_id p) \<and> item_id p \<notin> set (aw_attempted w)"
proof -
  have "\<exists>proposals. select_next_proposal proposals (aw_attempted w) (aw_quarantined w) = Inr (Some p, queue)"
    using assms unfolding refresh_select_phase_def build_reports_def build_readiness_def
    by (auto simp: look_ai_def pure_ai_def call_ai_def elim!: bind_aiE)
  then show ?thesis using select_next_proposal_Some(1,3) by blast
qed

lemma run_iteration_step:
  assumes "run_auto_improve_iteration e policy qs sid i w = (r, w')"
  shows "proposal_step w w'"
proof -
  let ?check = "pure_ai (bindr (ditem (aw_session w) ''executor'') (\<lambda>x. py_item x ''name'')) :: pyval ai"
  from assms have "bind_ai ?check (\<lambda>_. bind_ai (refresh_select_phase e) (\<lambda>(selected, queue).
     bind_ai (update_session (\<lambda>s. Inr (dset ''queue_snapshot'' (py_strs queue) s))) (\<lambda>_.
     case selected of
       None \<Rightarrow> bind_ai (look_ai aw_failures) (\<lambda>failures. finish_iteration failures (Some ''queue_exhausted''))
     | Some p \<Rightarrow> attempt_proposal e policy qs sid i p))) w = (r, w')"
    by (simp add: run_auto_improve_iteration_def bind_look)
  then show ?thesis
  proof (cases rule: bind_aiE)
    case (raised x)
    then show ?thesis using steadyD[OF steady_pure] steady_attempt_step by blast
  next
    case (returned a w1)
    then have w1: "w1 = w" by (simp add: pure_ai_def)
    from returned(2)[unfolded w1] show ?thesis
    proof (cases rule: bind_aiE)
      case (raised x)
      then show ?thesis using steadyD[OF steady_refresh] steady_attempt_step by blast
    next
      case (returned sq w2)
      obtain selected queue where sq: "sq = (selected, queue)" by force
      define w3 where "w3 = w2\<lparr>aw_session := dset ''queue_snapshot'' (py_strs queue) (aw_session w2)\<rparr>"
      have s3: "steady_step budget_key w w3"
        using steadyD[OF steady_refresh returned(1), of budget_key]
        by (auto simp: steady_step_def w3_def map_of_dset)
      from returned(2) have rest: "(case selected of
           None \<Rightarrow> bind_ai (look_ai aw_failures) (\<lambda>failures. finish_iteration failures (Some ''queue_exhausted''))
         | Some p \<Rightarrow> attempt_proposal e policy qs sid i p) w3 = (r, w')"
        by (simp add: sq bind_update w3_def)
      show ?thesis
      proof (cases selected)
        case None
        with rest have "proposal_step w3 w'"
          by (auto simp: bind_look finish_iteration_def bind_change pure_ai_def proposal_step_def)
        with s3 show ?thesis by (rule steady_then_attempt)
      next
        case (Some p)
        have "dget p ''proposal_id'' PyNone = PyStr (item_id p)" "item_id p \<notin> set (aw_attempted w3)"
          using refresh_select_Some[of e w p queue w2] returned(1) sq Some s3 by (auto simp: steady_step_def)
        moreover have "attempt_proposal e policy qs sid i p w3 = (r, w')" using rest Some by simp
        ultimately have "proposal_step w3 w'" by (rule attempt_proposal_step)
        with s3 show ?thesis by (rule steady_then_attempt)
      qed
    qed
  qed
qed

subsection \<open>The loop\<close>

lemma bind_pure: "bind_ai (pure_ai r) f w = (case r of Inl x \<Rightarrow> (Inl x, w) | Inr a \<Rightarrow> f a w)"
  by (simp add: bind_ai_def pure_ai_def split: sum.split)

definition session_budget :: "ai_world \<Rightarrow> int \<Rightarrow> int \<Rightarrow> int \<Rightarrow> bool" where
  "session_budget w p m f \<longleftrightarrow> map_of (aw_session w) ''budget'' = Some (PyDict (budget_record p m f))"

lemma budget_items:
  assumes "session_budget w p m f"
  shows "budget_item (aw_session w) ''max_proposals'' = Inr p"
    and "budget_item (aw_session w) ''max_minutes'' = Inr m"
    and "budget_item (aw_session w) ''max_consecutive_failures'' = Inr f"
  using assms by (simp_all add: session_budget_def budget_item_def ditem_def budget_record_def)

text \<open>When nothing stops the loop, the clock has just been read within the minutes of the budget.\<close>

lemma stop_before_None:
  assumes b: "session_budget w p m f"
    and run: "stop_reason_before_iteration e c w = (Inr None, w')"
  shows "(\<exists>u. aw_calls w' = u @ [Clock] \<and> ae_clock e (u @ [Clock]) - aw_start w' \<le> of_int (m * 60)) \<and>
    aw_failures w' < f \<and> (\<exists>n. iteration_count (aw_session w) = Inr n \<and> n < p) \<and>
    repeated_blocker_reason (aw_session w) = Inr '''' \<and> aw_session w' = aw_session w"
proof -
  define late where "late = bind_ai (clock_ai e) (\<lambda>now.
     bind_ai (look_ai aw_start) (\<lambda>start.
     bind_ai (pure_ai (Inr m :: int res)) (\<lambda>minutes.
     if now - start > of_int (minutes * 60) then pure_ai (Inr (Some ''time_budget_exhausted''))
     else bind_ai (look_ai aw_failures) (\<lambda>failures.
     bind_ai (pure_ai (Inr f :: int res)) (\<lambda>n.
       pure_ai (Inr (if failures \<ge> n then Some ''failure_budget_exhausted'' else None)))))))"
  have late: "(\<exists>u. aw_calls w'' = u @ [Clock] \<and> ae_clock e (u @ [Clock]) - aw_start w'' \<le> of_int (m * 60)) \<and>
      aw_failures w'' < f \<and> aw_session w'' = aw_session w1" if "late w1 = (Inr None, w'')" for w1 w''
    using that unfolding late_def
    by (auto simp: clock_ai_def call_ai_def bind_ai_def look_ai_def pure_ai_def split: if_splits)
  from run obtain repeated where rep: "repeated_blocker_reason (aw_session w) = Inr repeated"
    by (cases "repeated_blocker_reason (aw_session w)")
      (auto simp: stop_reason_before_iteration_def bind_look bind_pure)
  have never: "stop_for_blocker e x w1 \<noteq> (Inr None, w2)" for x w1 w2
    by (auto simp: stop_for_blocker_def bind_ai_def pure_ai_def split: prod.splits sum.splits)
  with run rep have empty: "repeated = ''''"
    by (auto simp: stop_reason_before_iteration_def bind_look bind_pure split: if_splits)
  with run rep have "bind_ai (open_backlog_reason e c) (\<lambda>backlog.
     if backlog \<noteq> [] then stop_for_blocker e backlog
     else bind_ai (pure_ai (iteration_count (aw_session w))) (\<lambda>done_count.
     bind_ai (pure_ai (Inr p)) (\<lambda>proposals.
     if done_count \<ge> proposals then pure_ai (Inr (Some ''proposal_budget_exhausted'')) else late))) w
     = (Inr None, w')"
    unfolding late_def budget_items[OF b, symmetric]
    by (simp add: stop_reason_before_iteration_def bind_look bind_pure)
  then obtain backlog w1 where backlog: "open_backlog_reason e c w = (Inr backlog, w1)"
    and rest: "(if backlog \<noteq> [] then stop_for_blocker e backlog
     else bind_ai (pure_ai (iteration_count (aw_session w))) (\<lambda>done_count.
     bind_ai (pure_ai (Inr p)) (\<lambda>proposals.
     if done_count \<ge> proposals then pure_ai (Inr (Some ''proposal_budget_exhausted'')) else late))) w1
     = (Inr None, w')"
    by (auto elim!: bind_aiE)
  have same: "aw_session w1 = aw_session w"
    using backlog by (auto simp: open_backlog_reason_def bind_look pure_ai_def call_ai_def split: if_splits elim!: bind_aiE)
  from rest never have "bind_ai (pure_ai (iteration_count (aw_session w))) (\<lambda>done_count.
     bind_ai (pure_ai (Inr p)) (\<lambda>proposals.
     if done_count \<ge> proposals then pure_ai (Inr (Some ''proposal_budget_exhausted'')) else late)) w1
     = (Inr None, w')" by (auto split: if_splits)
  then obtain n where count: "iteration_count (aw_session w) = Inr n"
    and "(if n \<ge> p then pure_ai (Inr (Some ''proposal_budget_exhausted'')) else late) w1 = (Inr None, w')"
    by (auto simp: bind_pure split: sum.splits)
  then have n: "iteration_count (aw_session w) = Inr n" "n < p" "late w1 = (Inr None, w')"
    by (auto simp: pure_ai_def split: if_splits)
  from late[OF n(3)] n rep empty same show ?thesis by auto
qed

text \<open>Every attempt of a trace follows a reading of the clock, made since the attempt before it.\<close>

definition timed_attempts :: "ai_env \<Rightarrow> real \<Rightarrow> ai_call list \<Rightarrow> bool" where
  "timed_attempts e deadline cs \<longleftrightarrow> (\<forall>u rid pid v. cs = u @ BuildScopeFreeze rid pid # v \<longrightarrow>
     (\<exists>u1 u2. u = u1 @ Clock # u2 \<and> attempts u2 = [] \<and> ae_clock e (u1 @ [Clock]) \<le> deadline))"

lemma timed_attempts_quiet:
  assumes "timed_attempts e deadline cs" and "attempts ds = []"
  shows "timed_attempts e deadline (cs @ ds)"
  unfolding timed_attempts_def
proof (intro allI impI)
  fix u rid pid v assume eq: "cs @ ds = u @ BuildScopeFreeze rid pid # v"
  have "\<not> (\<exists>x. ds = x @ BuildScopeFreeze rid pid # v)" using assms(2) by auto
  with eq obtain v' where "cs = u @ BuildScopeFreeze rid pid # v'"
    by (auto simp: append_eq_append_conv2 append_eq_Cons_conv)
  with assms(1) show "\<exists>u1 u2. u = u1 @ Clock # u2 \<and> attempts u2 = [] \<and> ae_clock e (u1 @ [Clock]) \<le> deadline"
    by (auto simp: timed_attempts_def)
qed

lemma timed_attempts_add:
  assumes "timed_attempts e deadline (cs @ [Clock])" and "ae_clock e (cs @ [Clock]) \<le> deadline"
    and "attempts u = []" and "attempts v = []"
  shows "timed_attempts e deadline (cs @ Clock # u @ BuildScopeFreeze rid pid # v)"
  unfolding timed_attempts_def
proof (intro allI impI)
  fix x r q y assume eq: "cs @ Clock # u @ BuildScopeFreeze rid pid # v = x @ BuildScopeFreeze r q # y"
  have quiet: "timed_attempts e deadline (cs @ Clock # u)"
    using timed_attempts_quiet[OF assms(1,3)] by simp
  consider v' where "cs @ Clock # u = x @ BuildScopeFreeze r q # v'" | "x = cs @ Clock # u"
    | x' where "v = x' @ BuildScopeFreeze r q # y"
    using eq by (auto simp: append_eq_append_conv2 append_eq_Cons_conv Cons_eq_append_conv)
  then show "\<exists>u1 u2. x = u1 @ Clock # u2 \<and> attempts u2 = [] \<and> ae_clock e (u1 @ [Clock]) \<le> deadline"
  proof cases
    case 1
    then show ?thesis using quiet by (auto simp: timed_attempts_def)
  next
    case 2
    then show ?thesis using assms(2,3) by blast
  next
    case 3
    then show ?thesis using assms(4) by simp
  qed
qed

definition within_budgets :: "ai_env \<Rightarrow> int \<Rightarrow> int \<Rightarrow> int \<Rightarrow> nat \<Rightarrow> ai_world \<Rightarrow> ai_world \<Rightarrow> bool" where
  "within_budgets e p m f n w w' \<longleftrightarrow>
     aw_start w' = aw_start w \<and> session_budget w' p m f \<and>
     set (aw_attempted w) \<subseteq> set (aw_attempted w') \<and> aw_failures w' \<le> max (aw_failures w) f \<and>
     (\<exists>cs. aw_calls w' = aw_calls w @ cs \<and> length (attempts cs) \<le> n \<and> distinct (map snd (attempts cs)) \<and>
        set (map snd (attempts cs)) \<inter> set (aw_attempted w) = {} \<and>
        set (map snd (attempts cs)) \<subseteq> set (aw_attempted w')) \<and>
     timed_attempts e (aw_start w + of_int (m * 60)) (aw_calls w')"

lemma session_budget_cong:
  "map_of (aw_session w') ''budget'' = map_of (aw_session w) ''budget'' \<Longrightarrow> session_budget w p m f \<Longrightarrow>
   session_budget w' p m f"
  by (simp add: session_budget_def)

lemma steady_within:
  assumes "session_budget w p m f" and "timed_attempts e (aw_start w + of_int (m * 60)) (aw_calls w)"
    and s: "steady_step budget_key w w'"
  shows "within_budgets e p m f n w w'"
proof -
  obtain cs where "aw_calls w' = aw_calls w @ cs" "attempts cs = []" using s by (auto simp: steady_step_def)
  then show ?thesis
    using assms timed_attempts_quiet[OF assms(2), of cs]
    by (auto simp: within_budgets_def steady_step_def session_budget_def)
qed

lemma within_trans:
  assumes "within_budgets e p m f n u v" and "within_budgets e p m f k v w"
  shows "within_budgets e p m f (n + k) u w"
proof -
  obtain cs ds where "aw_calls v = aw_calls u @ cs" "length (attempts cs) \<le> n" "distinct (map snd (attempts cs))"
    "set (map snd (attempts cs)) \<inter> set (aw_attempted u) = {}"
    "set (map snd (attempts cs)) \<subseteq> set (aw_attempted v)"
    and "aw_calls w = aw_calls v @ ds" "length (attempts ds) \<le> k" "distinct (map snd (attempts ds))"
    "set (map snd (attempts ds)) \<inter> set (aw_attempted v) = {}"
    "set (map snd (attempts ds)) \<subseteq> set (aw_attempted w)"
    using assms unfolding within_budgets_def by blast
  moreover have "set (aw_attempted u) \<subseteq> set (aw_attempted v)" "set (aw_attempted v) \<subseteq> set (aw_attempted w)"
    using assms by (auto simp: within_budgets_def)
  ultimately have "aw_calls w = aw_calls u @ (cs @ ds) \<and> length (attempts (cs @ ds)) \<le> n + k \<and>
      distinct (map snd (attempts (cs @ ds))) \<and> set (map snd (attempts (cs @ ds))) \<inter> set (aw_attempted u) = {} \<and>
      set (map snd (attempts (cs @ ds))) \<subseteq> set (aw_attempted w)"
    unfolding attempts_append map_append set_append length_append distinct_append
    by (intro conjI) (blast | linarith | simp)+
  then show ?thesis using assms by (auto simp: within_budgets_def)
qed

text \<open>An iteration right after the check that let it start.\<close>

lemma iteration_within:
  assumes b: "session_budget w p m f" and f: "1 \<le> f" and few: "aw_failures w < f"
    and t: "timed_attempts e (aw_start w + of_int (m * 60)) (aw_calls w)"
    and u: "aw_calls w = u @ [Clock]" "ae_clock e (u @ [Clock]) - aw_start w \<le> of_int (m * 60)"
    and step: "proposal_step w w'"
  shows "within_budgets e p m f 1 w w'"
proof -
  from step obtain cs where cs: "aw_calls w' = aw_calls w @ cs"
    and cases: "attempts cs = [] \<or> (\<exists>x rid pid v. cs = x @ BuildScopeFreeze rid pid # v \<and> attempts x = [] \<and>
         attempts v = [] \<and> pid \<notin> set (aw_attempted w) \<and> pid \<in> set (aw_attempted w'))"
    unfolding proposal_step_def by blast
  have rest: "aw_start w' = aw_start w \<and> session_budget w' p m f \<and> set (aw_attempted w) \<subseteq> set (aw_attempted w') \<and>
      aw_failures w' \<le> max (aw_failures w) f"
    using step b few f by (auto simp: proposal_step_def session_budget_def)
  from cases show ?thesis
  proof
    assume quiet: "attempts cs = []"
    then show ?thesis using rest cs timed_attempts_quiet[OF t quiet] by (auto simp: within_budgets_def)
  next
    assume "\<exists>x rid pid v. cs = x @ BuildScopeFreeze rid pid # v \<and> attempts x = [] \<and>
         attempts v = [] \<and> pid \<notin> set (aw_attempted w) \<and> pid \<in> set (aw_attempted w')"
    then obtain x rid pid v where c: "cs = x @ BuildScopeFreeze rid pid # v" "attempts x = []" "attempts v = []"
      and new: "pid \<notin> set (aw_attempted w)" "pid \<in> set (aw_attempted w')" by blast
    have one: "attempts cs = [(rid, pid)]" using c by simp
    have "timed_attempts e (aw_start w + of_int (m * 60)) (aw_calls w @ cs)"
      using timed_attempts_add[OF t[unfolded u(1)] _ c(2,3)] u c(1) by simp
    then show ?thesis using rest cs one new by (auto simp: within_budgets_def)
  qed
qed

lemma run_iterations_within:
  assumes "session_budget w p m f" and "1 \<le> f"
    and "timed_attempts e (aw_start w + of_int (m * 60)) (aw_calls w)"
    and "run_iterations e policy qs sid is w = (r, w')"
  shows "within_budgets e p m f (length is) w w'"
  using assms
proof (induction "is" arbitrary: w)
  case Nil
  then show ?case by (auto simp: pure_ai_def intro: steady_within steady_step_refl)
next
  case (Cons i "is")
  from Cons.prems(4) have "bind_ai (stop_reason_before_iteration e True) (\<lambda>stop. case stop of
       Some t \<Rightarrow> change_ai (\<lambda>w. w\<lparr>aw_stop := t\<rparr>)
     | None \<Rightarrow> bind_ai (run_auto_improve_iteration e policy qs sid i) (\<lambda>go.
         if go then run_iterations e policy qs sid is else pure_ai (Inr ()))) w = (r, w')" by simp
  then show ?case
  proof (cases rule: bind_aiE)
    case (raised x)
    show ?thesis
      by (rule steady_within[OF Cons.prems(1,3) steadyD[OF steady_budget[OF steady_stop_before] raised(1)]])
  next
    case (returned stop w1)
    note s1 = steadyD[OF steady_budget[OF steady_stop_before] returned(1)]
    show ?thesis
    proof (cases stop)
      case (Some t)
      with returned(2) have "w' = w1\<lparr>aw_stop := t\<rparr>" by (auto simp: change_ai_def)
      with s1 have "steady_step budget_key w w'" by (simp add: steady_step_def)
      then show ?thesis by (rule steady_within[OF Cons.prems(1,3)])
    next
      case None
      note first = steady_within[OF Cons.prems(1,3) s1, where n = 0]
      then have b1: "session_budget w1 p m f"
        and t1: "timed_attempts e (aw_start w1 + of_int (m * 60)) (aw_calls w1)"
        by (auto simp: within_budgets_def)
      from stop_before_None[OF Cons.prems(1)] returned(1) None obtain u
        where u: "aw_calls w1 = u @ [Clock]" "ae_clock e (u @ [Clock]) - aw_start w1 \<le> of_int (m * 60)"
          and few: "aw_failures w1 < f" by blast
      note iter = iteration_within[OF b1 Cons.prems(2) few t1 u run_iteration_step]
      from returned(2) None have "bind_ai (run_auto_improve_iteration e policy qs sid i) (\<lambda>go.
         if go then run_iterations e policy qs sid is else pure_ai (Inr ())) w1 = (r, w')" by simp
      then have "within_budgets e p m f (Suc (length is)) w1 w'"
      proof (cases rule: bind_aiE)
        case (raised x)
        from iter[OF raised(1)] show ?thesis by (auto simp: within_budgets_def)
      next
        case (returned go w2)
        note one = iter[OF returned(1)]
        show ?thesis
        proof (cases go)
          case True
          with returned(2) have "run_iterations e policy qs sid is w2 = (r, w')" by simp
          moreover have "session_budget w2 p m f" "timed_attempts e (aw_start w2 + of_int (m * 60)) (aw_calls w2)"
            using one by (auto simp: within_budgets_def)
          ultimately have "within_budgets e p m f (length is) w2 w'" using Cons.IH Cons.prems(2) by blast
          from within_trans[OF one this] show ?thesis by simp
        next
          case False
          with returned(2) have "w' = w2" by (simp add: pure_ai_def)
          with one show ?thesis by (auto simp: within_budgets_def)
        qed
      qed
      from within_trans[OF first this] show ?thesis by simp
    qed
  qed
qed

subsection \<open>A session from its start\<close>

lemma steady_close [steady_rules]: "quiet loop_keys (close_session e sid r n0 fuel)"
  unfolding close_session_def by (intro steady_rules) (simp_all add: steady_step_def)

lemma started_budget:
  assumes "start_auto_improve_session policy path loads snaps now r = Inr (ap, s, sid)"
  shows "\<exists>p m f. map_of s ''budget'' = Some (PyDict (budget_record p m f)) \<and> 1 \<le> p \<and> 1 \<le> m \<and> 1 \<le> f"
proof -
  define ok where "ok s \<longleftrightarrow> (\<exists>p m f. map_of s ''budget'' = Some (PyDict (budget_record p m f)) \<and>
      1 \<le> p \<and> 1 \<le> m \<and> 1 \<le> f)" for s
  have resumed: "ok s2" if "apply_resume_budget_overrides s0 ap b = Inr s1" "ensure_session_loop_state s1 now = Inr s2"
    for s0 ap b s1 s2
    using that resolve_budgets_Inr unfolding ok_def apply_resume_budget_overrides_def ensure_session_loop_state_def
    by (fastforce simp: bindr_eq_Inr map_of_dset Let_def)
  have new: "ok s2" if "new_auto_improve_session ap policy path i b x now = Inr s1"
      "carry_forward_next_run_decisions prev s1 = Inr s2" for ap i b x s1 prev s2
  proof -
    have "ok s1" using that(1) resolve_budgets_Inr unfolding ok_def new_auto_improve_session_def
      by (fastforce simp: bindr_eq_Inr)
    moreover have "map_of s2 ''budget'' = map_of s1 ''budget''"
      using that(2) by (auto simp: carry_forward_next_run_decisions_def map_of_dset Let_def
          split: sum.splits py_exc.splits if_splits)
    ultimately show ?thesis by (simp add: ok_def)
  qed
  have attached: "ok s2" if "attach_goal_contract_snapshot s1 snap = Inr s2" "ok s1" for s1 snap s2
  proof -
    have "map_of s2 ''budget'' = map_of s1 ''budget''"
      using that(1) by (auto simp: attach_goal_contract_snapshot_def bindr_eq_Inr Let_def map_of_dset split: if_splits)
    with that(2) show ?thesis by (simp add: ok_def)
  qed
  have chosen: "ok s1" if "(if b then resumed_session ap loads now r
      else fresh_session ap policy path x loads now r) = Inr (s1, i, cp)" for b ap x s1 i cp
    using that by (auto simp: resumed_session_def fresh_session_def Let_def bindr_eq_Inr
        split: if_splits dest: resumed new)
  from assms obtain ap' x b s1 cp where "(if b then resumed_session ap' loads now r
      else fresh_session ap' policy path x loads now r) = Inr (s1, sid, cp)"
    and s: "(if cp = [] then Inr s1 else bindr (snaps cp) (attach_goal_contract_snapshot s1)) = (Inr s :: pydict res)"
    unfolding start_auto_improve_session_def bindr_eq_Inr by (auto simp: bindr_eq_Inr[of "if _ then _ else _"])
  from chosen[OF this(1)] s have "ok s" by (auto simp: bindr_eq_Inr split: if_splits dest: attached)
  then show ?thesis by (simp add: ok_def)
qed

lemma id_set_member:
  assumes "id_set s k = Inr xs" and "PyStr x \<in> set (the_list (dget s k PyNone))"
  shows "x \<in> set xs"
proof -
  from assms(2) obtain ys where ys: "dget s k PyNone = PyList ys" "PyStr x \<in> set ys"
    by (cases "dget s k PyNone") auto
  then have "map_of s k = Some (PyList ys)" by (auto simp: dget_def split: option.splits)
  then show ?thesis using assms(1) ys(2)
    by (force simp: id_set_def ditem_def bindr_eq_Inr split: if_splits)
qed

lemma initial_state_step:
  assumes "initial_loop_state e w = (r, w')"
  shows "(\<exists>cs. aw_calls w' = aw_calls w @ cs \<and> attempts cs = []) \<and> aw_session w' = aw_session w \<and>
    aw_failures w' \<le> max (aw_failures w)
      (max 0 (int_value (dget (mapping_value (aw_session w) ''loop_state'') ''consecutive_failures'' PyNone) 0)) \<and>
    (\<forall>u pid. r = Inr u \<longrightarrow> PyStr pid \<in> set (the_list (dget (aw_session w) ''attempted_proposal_ids'' PyNone)) \<longrightarrow>
       pid \<in> set (aw_attempted w'))"
proof -
  let ?s = "aw_session w"
  have state: "mapping_value ?s ''loop_state'' = d" if "dget ?s ''loop_state'' (PyDict []) = PyDict d" for d
    using that by (auto simp: mapping_value_def dget_def split: option.splits)
  show ?thesis
    using assms unfolding initial_loop_state_def bind_look
    by (auto simp: bind_pure clock_ai_def call_ai_def change_ai_def pure_ai_def state id_set_member
        split: sum.splits elim!: bind_aiE py_get.elims)
qed

lemma bind_now:
  "bind_ai (now_ai e) f w = f (ae_now e (aw_calls w @ [Now])) (w\<lparr>aw_calls := aw_calls w @ [Now]\<rparr>)"
  by (simp add: bind_ai_def now_ai_def call_ai_def)

lemma timed_quiet: "attempts cs = [] \<Longrightarrow> timed_attempts e d cs"
  by (auto simp: timed_attempts_def)

text \<open>What holds of a session at every moment: \<open>A\<close> are the proposals attempted before it.\<close>

definition session_bounds ::
  "ai_env \<Rightarrow> int \<Rightarrow> int \<Rightarrow> int \<Rightarrow> int \<Rightarrow> nat \<Rightarrow> string set \<Rightarrow> ai_world \<Rightarrow> bool" where
  "session_bounds e p m f b k A w \<longleftrightarrow> session_budget w p m f \<and>
     timed_attempts e (aw_start w + of_int (m * 60)) (aw_calls w) \<and> aw_failures w \<le> max b f \<and>
     length (attempts (aw_calls w)) \<le> k \<and> distinct (map snd (attempts (aw_calls w))) \<and>
     (\<forall>a \<in> set (attempts (aw_calls w)). snd a \<notin> A)"

lemma steady_bounds:
  "session_bounds e p m f b k A w \<Longrightarrow> steady_step budget_key w w' \<Longrightarrow> session_bounds e p m f b k A w'"
  using timed_attempts_quiet by (auto simp: session_bounds_def steady_step_def session_budget_def)

lemma steady_keys_bounds:
  "session_bounds e p m f b k A w \<Longrightarrow> steady_step loop_keys w w' \<Longrightarrow> session_bounds e p m f b k A w'"
  by (erule steady_bounds) (simp add: steady_step_def)

lemma iterations_bounds:
  assumes f: "1 \<le> f" and s: "session_bounds e p m f b k A w" and none: "attempts (aw_calls w) = []"
    and A: "A \<subseteq> set (aw_attempted w)" and "length is \<le> k"
    and run: "run_iterations e policy qs sid is w = (r, w')"
  shows "session_bounds e p m f b k A w'"
proof -
  have "within_budgets e p m f (length is) w w'"
    using run_iterations_within[OF _ f _ run] s by (simp add: session_bounds_def)
  then obtain cs where cs: "aw_calls w' = aw_calls w @ cs" "length (attempts cs) \<le> length is"
      "distinct (map snd (attempts cs))" "set (map snd (attempts cs)) \<inter> set (aw_attempted w) = {}"
    and rest: "aw_start w' = aw_start w" "session_budget w' p m f" "aw_failures w' \<le> max (aw_failures w) f"
      "timed_attempts e (aw_start w + of_int (m * 60)) (aw_calls w')"
    unfolding within_budgets_def by blast
  from cs(4) A have "\<forall>a \<in> set (attempts cs). snd a \<notin> A" by auto
  then show ?thesis using cs(1-3) rest s none assms(5) by (auto simp: session_bounds_def)
qed

lemma run_session_bounds:
  assumes b: "session_budget w p m f" and f: "1 \<le> f" and none: "attempts (aw_calls w) = []"
    and run: "run_session e policy ap sid r fuel w = (res, w')"
  defines "A \<equiv> {pid. PyStr pid \<in> set (the_list (dget (aw_session w) ''attempted_proposal_ids'' PyNone))}"
    and "h \<equiv> max (aw_failures w)
      (max 0 (int_value (dget (mapping_value (aw_session w) ''loop_state'') ''consecutive_failures'' PyNone) 0))"
    and "k \<equiv> (case session_iteration_total (aw_session w) of Inr n \<Rightarrow> nat (p - n) | Inl _ \<Rightarrow> 0)"
  shows "session_bounds e p m f h k A w'"
  using run unfolding run_session_def
proof (cases rule: bind_aiE)
  case (raised x)
  then show ?thesis
    using initial_state_step[OF raised(1)] b none
    by (auto simp: session_bounds_def session_budget_def timed_quiet h_def)
next
  case (returned u w1)
  note init = initial_state_step[OF returned(1)]
  have s1: "session_bounds e p m f h k A w1" and none1: "attempts (aw_calls w1) = []"
    and A1: "A \<subseteq> set (aw_attempted w1)" and same: "aw_session w1 = aw_session w"
    using init b none by (auto simp: session_bounds_def session_budget_def timed_quiet h_def A_def)
  from returned(2) show ?thesis
  proof (cases rule: bind_aiE)
    case (raised x)
    then show ?thesis using s1 by (simp add: pure_ai_def)
  next
    case (returned qs w1')
    then have "w1' = w1" by (simp add: pure_ai_def)
    from returned(2)[unfolded this] show ?thesis
    proof (cases rule: bind_aiE)
      case (raised x)
      from steady_keys_bounds[OF s1 steadyD[OF steady_open raised(1)]] show ?thesis .
    next
      case (returned v w2)
      note st = steadyD[OF steady_open returned(1)]
      have s2: "session_bounds e p m f h k A w2" by (rule steady_keys_bounds[OF s1 st])
      have none2: "attempts (aw_calls w2) = []" and A2: "A \<subseteq> set (aw_attempted w2)"
        and total: "session_iteration_total (aw_session w2) = session_iteration_total (aw_session w)"
        using st none1 A1 same by (auto simp: steady_step_def session_iteration_total_def ditem_def)
      have budget: "budget_item (aw_session w2) ''max_proposals'' = Inr p"
        using s2 budget_items(1) by (auto simp: session_bounds_def)
      show ?thesis
      proof (cases "session_iteration_total (aw_session w)")
        case (Inl x)
        with returned(2) total have "w' = w2" by (simp add: bind_look bind_pure)
        then show ?thesis using s2 by simp
      next
        case (Inr n)
        with returned(2) total budget have
          "bind_ai (run_iterations e policy qs sid [n + 1..p]) (\<lambda>_. close_session e sid r n fuel) w2 = (res, w')"
          by (simp add: bind_look bind_pure)
        then show ?thesis
        proof (cases rule: bind_aiE)
          case (raised x)
          show ?thesis
            by (rule iterations_bounds[OF f s2 none2 A2 _ raised(1)]) (simp add: k_def Inr)
        next
          case (returned y w3)
          have "session_bounds e p m f h k A w3"
            by (rule iterations_bounds[OF f s2 none2 A2 _ returned(1)]) (simp add: k_def Inr)
          from steady_keys_bounds[OF this steadyD[OF steady_close returned(2)]] show ?thesis .
        qed
      qed
    qed
  qed
qed

lemma started_session_bounds:
  assumes start: "start_auto_improve_session policy path loads snaps (ae_now e [Now]) r = Inr (ap, s, sid)"
    and run: "run_auto_improve_session e policy path loads snaps r fuel new_world = (res, w')"
    and b: "map_of s ''budget'' = Some (PyDict (budget_record p m f))" and f: "1 \<le> f"
  shows "session_bounds e p m f
    (max 0 (int_value (dget (mapping_value s ''loop_state'') ''consecutive_failures'' PyNone) 0))
    (case session_iteration_total s of Inr n \<Rightarrow> nat (p - n) | Inl _ \<Rightarrow> 0)
    {pid. PyStr pid \<in> set (the_list (dget s ''attempted_proposal_ids'' PyNone))} w'"
proof -
  define w where "w = new_world\<lparr>aw_calls := [Now], aw_session := s\<rparr>"
  have "run_session e policy ap sid r fuel w = (res, w')"
    using run start
    by (simp add: run_auto_improve_session_def bind_now bind_pure
        bind_update new_world_def w_def)
  moreover have "session_budget w p m f" using b by (simp add: session_budget_def w_def)
  ultimately show ?thesis
    using run_session_bounds[of w p m f e policy ap sid r fuel res w'] f
    by (simp add: w_def new_world_def)
qed

text \<open>
  C20: a session attempts every proposal at most once: the proposals it freezes a scope for, whatever
  its reports, experiments and errors, are different from each other and from those that the session
  it resumes had attempted.
\<close>

theorem session_attempts_each_proposal_once:
  assumes "start_auto_improve_session policy path loads snaps (ae_now e [Now]) r = Inr (ap, s, sid)"
    and "run_auto_improve_session e policy path loads snaps r fuel new_world = (res, w')"
  shows "distinct (map snd (attempts (aw_calls w')) @ remdups
    [pid. PyStr pid \<leftarrow> the_list (dget s ''attempted_proposal_ids'' PyNone)])"
proof -
  obtain p m f where b: "map_of s ''budget'' = Some (PyDict (budget_record p m f))" "1 \<le> f"
    using started_budget[OF assms(1)] by blast
  from started_session_bounds[OF assms b] show ?thesis
    by (auto simp: session_bounds_def)
qed

text \<open>
  C21: a session stays within its budgets: it attempts at most the proposals that its budget leaves
  beyond the iterations already done, it freezes a scope only after a reading of the clock within its
  minutes that was made since the attempt before, and its failures in a row never pass the larger of
  their number at the start and the budget.
\<close>

theorem session_attempts_within_budgets:
  assumes "start_auto_improve_session policy path loads snaps (ae_now e [Now]) r = Inr (ap, s, sid)"
    and "run_auto_improve_session e policy path loads snaps r fuel new_world = (res, w')"
    and "session_iteration_total s = Inr n"
  shows "\<exists>p m f. map_of s ''budget'' = Some (PyDict (budget_record p m f)) \<and>
    int (length (attempts (aw_calls w'))) \<le> max 0 (p - n) \<and>
    timed_attempts e (aw_start w' + of_int (m * 60)) (aw_calls w') \<and>
    aw_failures w' \<le> max (int_value (dget (mapping_value s ''loop_state'') ''consecutive_failures'' PyNone) 0) f"
proof -
  obtain p m f where b: "map_of s ''budget'' = Some (PyDict (budget_record p m f))" "1 \<le> f"
    using started_budget[OF assms(1)] by blast
  from started_session_bounds[OF assms(1,2) b] b assms(3) show ?thesis
    by (intro exI[of _ p] exI[of _ m] exI[of _ f]) (auto simp: session_bounds_def)
qed

subsection \<open>A session of two proposals\<close>

text \<open>The seconds a call sleeps.\<close>

definition sleep_of :: "ai_call \<Rightarrow> real" where
  "sleep_of c = (case c of SleepFor s \<Rightarrow> of_int s | _ \<Rightarrow> 0)"

text \<open>An environment whose experiments are held, for the witnesses.\<close>

definition loop_policy :: pydict where
  "loop_policy = [(''version'', PyInt 1), (''auto_improve_policy'', PyDict
     [(''artifact_class'', PyStr ''system_mechanism''),
      (''defaults'', PyDict [(''executor'', PyStr ''codex_exec''), (''max_proposals'', PyInt 2),
         (''max_minutes'', PyInt 10), (''max_consecutive_failures'', PyInt 3)]),
      (''allowed_executors'', PyList [PyStr ''codex_exec'']),
      (''session_reports_dir'', PyStr ''ops/reports/auto-improve-sessions''),
      (''quarantine'', PyDict [(''pre_promotion_failure_outcomes'', PyList [PyStr ''mutation_failed''])]),
      (''scope_resolution'', PyDict [(''reviewer_score_bands'', PyList [])])])]"

definition loop_request :: session_request where
  "loop_request = \<lparr>sq_session_id = Some ''s'', sq_resume = None, sq_contract_path = None,
     sq_budgets = \<lparr>br_max_proposals = PyInt 1, br_max_minutes = PyNone, br_max_consecutive_failures = PyNone\<rparr>,
     sq_executor = None, sq_artifact_class = ''system_mechanism'', sq_allow_learning_uncertain = False,
     sq_maintain_until_budget = False, sq_maintenance_interval = PyNone, sq_post_promote_cycles = PyNone\<rparr>"

definition sample_proposal :: "string \<Rightarrow> pyval" where
  "sample_proposal pid = PyDict [(''proposal_id'', PyStr pid), (''primary_targets'', PyList [PyStr ''ops/a.py''])]"

definition loop_env :: ai_env where
  "loop_env = \<lparr>
     ae_now = (\<lambda>_. ''2026-01-01T00:00:00Z''), ae_clock = (\<lambda>cs. sum_list (map (\<lambda>c. max 0 (sleep_of c)) cs)), ae_backlog = (\<lambda>_. Inr []),
     ae_reports = (\<lambda>_. Inr ([], [(''proposals'', PyList [sample_proposal ''a'', sample_proposal ''b''])])),
     ae_readiness = (\<lambda>_. Inr ([], ''r.json'')), ae_runs = (\<lambda>_. []),
     ae_scope = (\<lambda>_. Inr [(''status'', PyStr ''ready''),
        (''inputs'', PyDict [(''primary_targets'', PyList []), (''supporting_targets'', PyList [])]),
        (''resolution'', PyDict [(''test_files'', PyList []), (''risk_flags'', PyList [])]),
        (''dispatch'', PyDict [(''reviewer'', PyBool True), (''validator'', PyBool False), (''auditors'', PyList [])])]),
     ae_path = (\<lambda>_. Inr ''p.json''), ae_route = (\<lambda>_. Inr ([], ''q.json'')),
     ae_experiment = (\<lambda>_. Inr [(''repo_health'', PyDict [])]), ae_effect = (\<lambda>_. None),
     ae_files = (\<lambda>_. \<lparr>rf_report = (\<lambda>_. None), rf_text = (\<lambda>_. None), rf_usage_flag = (\<lambda>_. False)\<rparr>),
     ae_json = (\<lambda>_ _. PyNone), ae_digest16 = (\<lambda>_. ''0123456789abcdef''), ae_digest10 = (\<lambda>t. t)\<rparr>"

text \<open>The same world, but no scope can be frozen: the session ends with the error of its first attempt.\<close>

definition full_disk_env :: ai_env where
  "full_disk_env = loop_env\<lparr>ae_scope := (\<lambda>_. Inl (OSError ''no space left''))\<rparr>"

definition sample_session :: "ai_env \<Rightarrow> nat \<Rightarrow> (pydict option) res \<times> ai_world" where
  "sample_session e fuel = run_auto_improve_session e loop_policy ''p'' (\<lambda>_. Inl (OSError ''missing''))
     (\<lambda>_. Inl (OSError ''missing'')) loop_request fuel new_world"

lemma sample_starts:
  "start_auto_improve_session loop_policy ''p'' (\<lambda>_. Inl (OSError ''missing''))
     (\<lambda>_. Inl (OSError ''missing'')) (ae_now loop_env [Now]) loop_request =
   Inr (the_dict (snd (loop_policy ! 1)),
     [(''$schema'', PyStr AUTO_IMPROVE_SESSION_SCHEMA), (''session_id'', PyStr ''s''),
      (''generated_at'', PyStr ''2026-01-01T00:00:00Z''),
      (''policy'', PyDict [(''path'', PyStr ''p''), (''version'', PyInt 1)]),
      (''status'', PyStr ''running''), (''budget'', PyDict (budget_record 1 10 3)),
      (''executor'', PyDict [(''name'', PyStr ''codex_exec'')]),
      (''attempted_proposal_ids'', PyList []), (''quarantined_proposal_ids'', PyList []),
      (''run_ids'', PyList []), (''iterations'', PyList []), (''next_run_decisions'', PyList []),
      (''learning_summary'', PyDict empty_learning_summary),
      (''loop_state'', PyDict (empty_loop_state ''2026-01-01T00:00:00Z'')), (''queue_snapshot'', PyList []),
      (''stop_reason'', PyStr ''running''), (''path'', PyStr ''ops/reports/auto-improve-sessions/s.json'')], ''s'')"
  by code_simp

text \<open>The stages of that session, evaluated one by one.\<close>

definition stage_started :: ai_world where
  "stage_started = new_world\<lparr>aw_calls := [Now], aw_session :=
     [(''$schema'', PyStr AUTO_IMPROVE_SESSION_SCHEMA), (''session_id'', PyStr ''s''),
      (''generated_at'', PyStr ''2026-01-01T00:00:00Z''),
      (''policy'', PyDict [(''path'', PyStr ''p''), (''version'', PyInt 1)]),
      (''status'', PyStr ''running''), (''budget'', PyDict (budget_record 1 10 3)),
      (''executor'', PyDict [(''name'', PyStr ''codex_exec'')]),
      (''attempted_proposal_ids'', PyList []), (''quarantined_proposal_ids'', PyList []),
      (''run_ids'', PyList []), (''iterations'', PyList []), (''next_run_decisions'', PyList []),
      (''learning_summary'', PyDict empty_learning_summary),
      (''loop_state'', PyDict (empty_loop_state ''2026-01-01T00:00:00Z'')), (''queue_snapshot'', PyList []),
      (''stop_reason'', PyStr ''running''), (''path'', PyStr ''ops/reports/auto-improve-sessions/s.json'')]\<rparr>"

definition stage_ready :: ai_world where
  "stage_ready = snd (initial_loop_state full_disk_env stage_started)"

definition stage_opened :: ai_world where
  "stage_opened = snd (open_session full_disk_env False stage_ready)"

lemma stage_ready_ok: "fst (initial_loop_state full_disk_env stage_started) = Inr ()"
  by code_simp

lemma stage_opened_ok: "fst (open_session full_disk_env False stage_ready) = Inr ()"
  by code_simp

lemma stage_opened_counts:
  "session_iteration_total (aw_session stage_opened) = Inr 0"
  "budget_item (aw_session stage_opened) ''max_proposals'' = Inr 1"
  by code_simp+

definition stage_checked :: ai_world where
  "stage_checked = snd (stop_reason_before_iteration full_disk_env True stage_opened)"

definition stage_selected :: ai_world where
  "stage_selected = snd (refresh_select_phase full_disk_env stage_checked)"

definition stage_queued :: ai_world where
  "stage_queued = stage_selected\<lparr>aw_session :=
     dset ''queue_snapshot'' (py_strs [''a'', ''b'']) (aw_session stage_selected)\<rparr>"

definition sample_item :: pydict where
  "sample_item = [(''proposal_id'', PyStr ''a''), (''primary_targets'', PyList [PyStr ''ops/a.py'']),
     (''priority'', PyInt 0), (''blocked_by'', PyList [])]"

definition stage_recorded :: ai_world where
  "stage_recorded = snd (record_selected_proposal full_disk_env ''s'' 1 sample_item stage_queued)"

lemma stage_checked_ok: "fst (stop_reason_before_iteration full_disk_env True stage_opened) = Inr None"
  by code_simp

lemma stage_executor:
  "bindr (ditem (aw_session stage_checked) ''executor'') (\<lambda>x. py_item x ''name'') = Inr (PyStr ''codex_exec'')"
  by code_simp

lemma stage_selected_ok:
  "fst (refresh_select_phase full_disk_env stage_checked) = Inr (Some sample_item, [''a'', ''b''])"
  by code_simp

lemma stage_recorded_ok:
  "fst (record_selected_proposal full_disk_env ''s'' 1 sample_item stage_queued) = Inr ''s-run-01-a-a-a''"
  by code_simp

lemma stage_recorded_quiet: "attempts (aw_calls stage_recorded) = []"
  by code_simp

lemma stage_started_is:
  "bind_ai (now_ai full_disk_env) (\<lambda>now.
     bind_ai (pure_ai (start_auto_improve_session loop_policy ''p'' (\<lambda>_. Inl (OSError ''missing''))
       (\<lambda>_. Inl (OSError ''missing'')) now loop_request)) (\<lambda>(auto_policy, session, sid).
     bind_ai (update_session (\<lambda>_. Inr session)) (\<lambda>_. f auto_policy sid))) new_world =
   f (the_dict (snd (loop_policy ! 1))) ''s'' stage_started"
  using sample_starts
  by (simp add: full_disk_env_def bind_now bind_pure bind_update new_world_def stage_started_def)

lemma sample_outcomes: "quarantine_outcomes_of (the_dict (snd (loop_policy ! 1))) = Inr [''mutation_failed'']"
  by code_simp

lemma bind_step: "fst (f w) = Inr a \<Longrightarrow> bind_ai f g w = g a (snd (f w))"
  by (cases "f w") (simp add: bind_ai_def)

lemma bind_raised: "f w = (Inl x, w') \<Longrightarrow> bind_ai f g w = (Inl x, w')"
  by (simp add: bind_ai_def)

lemma sample_scaffold:
  "route_scaffold_phase full_disk_env loop_policy run_id p w =
     (Inl (OSError ''no space left''), w\<lparr>aw_calls := aw_calls w @ [BuildScopeFreeze run_id (item_id p)]\<rparr>)"
  by (simp add: route_scaffold_phase_def bind_ai_def call_ai_def full_disk_env_def)

definition stage_failed :: ai_world where
  "stage_failed = stage_recorded\<lparr>aw_calls := aw_calls stage_recorded @ [BuildScopeFreeze ''s-run-01-a-a-a'' ''a'']\<rparr>"

lemma sample_iteration:
  "run_auto_improve_iteration full_disk_env loop_policy qs ''s'' 1 stage_checked =
     (Inl (OSError ''no space left''), stage_failed)"
proof -
  have "run_auto_improve_iteration full_disk_env loop_policy qs ''s'' 1 stage_checked =
      attempt_proposal full_disk_env loop_policy qs ''s'' 1 sample_item stage_queued"
    unfolding run_auto_improve_iteration_def
    by (simp add: bind_look bind_pure stage_executor bind_step[where f = "refresh_select_phase full_disk_env", OF stage_selected_ok] bind_update
        flip: stage_selected_def stage_queued_def)
  also have "\<dots> = (Inl (OSError ''no space left''), stage_failed)"
    unfolding attempt_proposal_def bind_step[where f = "record_selected_proposal full_disk_env ''s'' 1 sample_item", OF stage_recorded_ok] stage_recorded_def[symmetric]
    by (simp add: bind_ai_def sample_scaffold stage_failed_def) (simp add: sample_item_def item_id_def dget_def)
  finally show ?thesis .
qed

lemma sample_run:
  "sample_session full_disk_env 0 = (Inl (OSError ''no space left''), stage_failed)"
proof -
  have "sample_session full_disk_env 0 = run_session full_disk_env loop_policy (the_dict (snd (loop_policy ! 1))) ''s''
      loop_request 0 stage_started"
    unfolding sample_session_def run_auto_improve_session_def by (rule stage_started_is)
  also have "\<dots> = bind_ai (run_iterations full_disk_env loop_policy [''mutation_failed''] ''s'' [1])
      (\<lambda>_. close_session full_disk_env ''s'' loop_request 0 0) stage_opened"
    unfolding run_session_def bind_step[where f = "initial_loop_state full_disk_env", OF stage_ready_ok] bind_pure sample_outcomes
      stage_ready_def[symmetric]
    using stage_opened_ok stage_opened_counts
    by (simp add: loop_request_def bind_step bind_look bind_pure flip: stage_opened_def)
  also have "\<dots> = (Inl (OSError ''no space left''), stage_failed)"
  proof (rule bind_raised)
    show "run_iterations full_disk_env loop_policy [''mutation_failed''] ''s'' [1] stage_opened =
        (Inl (OSError ''no space left''), stage_failed)"
      by (simp add: bind_step[where f = "stop_reason_before_iteration full_disk_env True", OF stage_checked_ok]
          bind_raised[where f = "run_auto_improve_iteration full_disk_env loop_policy [''mutation_failed''] ''s'' 1",
          OF sample_iteration] flip: stage_checked_def)
  qed
  finally show ?thesis .
qed

lemma sample_first_attempt:
  "attempts (aw_calls (snd (sample_session full_disk_env 0))) = [(''s-run-01-a-a-a'', ''a'')]"
  by (simp add: sample_run stage_failed_def stage_recorded_quiet)

lemma full_disk_now: "ae_now full_disk_env = ae_now loop_env"
  by (simp add: full_disk_env_def)

theorem session_attempts_each_proposal_once_witness:
  "map snd (attempts (aw_calls (snd (sample_session full_disk_env 0)))) = [''a''] \<and>
   distinct (map snd (attempts (aw_calls (snd (sample_session loop_env 1)))))"
  using session_attempts_each_proposal_once[OF sample_starts, of 1 "fst (sample_session loop_env 1)"
      "snd (sample_session loop_env 1)"] sample_first_attempt
  by (simp add: sample_session_def)

theorem session_attempts_within_budgets_witness:
  "length (attempts (aw_calls (snd (sample_session loop_env 1)))) \<le> 1"
  using session_attempts_within_budgets[OF sample_starts, of 1 "fst (sample_session loop_env 1)"
      "snd (sample_session loop_env 1)" 0]
  by (simp add: sample_session_def session_iteration_total_def ditem_def budget_record_def)

subsection \<open>Every session ends\<close>

text \<open>The clock does not go back, and it advances by at least the seconds that are slept.\<close>

definition advancing_clock :: "ai_env \<Rightarrow> bool" where
  "advancing_clock e \<longleftrightarrow> (\<forall>cs c. ae_clock e (cs @ [c]) \<ge> ae_clock e cs + max 0 (sleep_of c))"

lemma advancing_mono: "advancing_clock e \<Longrightarrow> ae_clock e cs \<le> ae_clock e (cs @ ds)"
proof (induction ds rule: rev_induct)
  case (snoc d ds)
  then have "ae_clock e (cs @ ds) \<le> ae_clock e ((cs @ ds) @ [d])"
    unfolding advancing_clock_def by (smt (verit, best))
  with snoc show ?case by simp
qed simp

definition clock_runs :: "ai_env \<Rightarrow> ai_world \<Rightarrow> bool" where
  "clock_runs e w \<longleftrightarrow> aw_start w \<le> ae_clock e (aw_calls w)"

definition time_of :: "ai_env \<Rightarrow> ai_world \<Rightarrow> int" where
  "time_of e w = \<lfloor>ae_clock e (aw_calls w) - aw_start w\<rfloor>"

lemma later:
  assumes "advancing_clock e" and "aw_calls w' = aw_calls w @ cs" and "aw_start w' = aw_start w" and "clock_runs e w"
  shows "clock_runs e w' \<and> time_of e w \<le> time_of e w'"
  using advancing_mono[OF assms(1), of "aw_calls w" cs] assms(2-4)
  by (auto simp: clock_runs_def time_of_def intro: floor_mono)

lemma steady_later:
  "advancing_clock e \<Longrightarrow> steady_step K w w' \<Longrightarrow> clock_runs e w \<Longrightarrow>
   clock_runs e w' \<and> time_of e w \<le> time_of e w'"
  using later by (auto simp: steady_step_def)

lemma elapsed_reads:
  assumes "advancing_clock e" and "clock_runs e w" and "elapsed_ai e w = (r, w')"
  shows "r = Inr (time_of e w') \<and> clock_runs e w' \<and> time_of e w \<le> time_of e w'"
proof -
  have w': "w' = w\<lparr>aw_calls := aw_calls w @ [Clock]\<rparr>" and
    r: "r = Inr (py_trunc (ae_clock e (aw_calls w @ [Clock]) - aw_start w))"
    using assms(3) by (auto simp: elapsed_ai_def clock_ai_def call_ai_def bind_ai_def look_ai_def pure_ai_def)
  have l: "clock_runs e w' \<and> time_of e w \<le> time_of e w'" using later[OF assms(1) _ _ assms(2)] w' by simp
  then have "py_trunc (ae_clock e (aw_calls w @ [Clock]) - aw_start w) = time_of e w'"
    by (auto simp: py_trunc_def time_of_def clock_runs_def w')
  with r l show ?thesis by simp
qed

lemma sleep_advances:
  assumes "advancing_clock e" and "clock_runs e w" and "effect_ai e (SleepFor s) w = (r, w')"
  shows "clock_runs e w' \<and> time_of e w + s \<le> time_of e w'"
proof -
  have w': "w' = w\<lparr>aw_calls := aw_calls w @ [SleepFor s]\<rparr>"
    using assms(3) by (simp add: effect_ai_def call_ai_def)
  have c: "ae_clock e (aw_calls w @ [SleepFor s]) \<ge> ae_clock e (aw_calls w) + max 0 (of_int s)"
    using assms(1) unfolding advancing_clock_def by (metis sleep_of_def ai_call.case(20))
  then have "\<lfloor>ae_clock e (aw_calls w) - aw_start w + of_int s\<rfloor> \<le>
      \<lfloor>ae_clock e (aw_calls w @ [SleepFor s]) - aw_start w\<rfloor>"
    by (intro floor_mono) linarith
  then show ?thesis using c assms(2) by (auto simp: w' clock_runs_def time_of_def)
qed

lemma terminal_by_time:
  "maintenance_terminal_completion_condition s condition max_cycles elapsed target = None \<Longrightarrow> elapsed < target"
  by (auto simp: maintenance_terminal_completion_condition_def Let_def split: if_splits)

text \<open>A round of the loop that goes on has not reached the target, and the next one starts later.\<close>

lemma maintenance_round:
  assumes clock: "advancing_clock e" and runs: "clock_runs e w"
    and loop: "maintenance_loop e interval max_cycles target condition (Suc n) w = (Inr None, w')"
  shows "\<exists>w1. clock_runs e w1 \<and> maintenance_loop e interval max_cycles target condition n w1 = (Inr None, w') \<and>
    time_of e w < target \<and> (target \<le> time_of e w1 \<or> time_of e w + interval \<le> time_of e w1)"
proof -
  from loop[unfolded maintenance_loop.simps] show ?thesis
  proof (cases rule: bind_aiE)
    case (returned started a1)
    note e1 = elapsed_reads[OF clock runs returned(1)]
    from returned(2)[unfolded bind_look] show ?thesis
    proof (cases rule: bind_aiE)
      case (returned u a2)
      note e2 = steady_later[OF clock steadyD[OF steady_cycle returned(1)]]
      from returned(2) show ?thesis
      proof (cases rule: bind_aiE)
        case (returned elapsed a3)
        have a3: "elapsed = time_of e a3" "clock_runs e a3" "time_of e w \<le> time_of e a3"
          using elapsed_reads[OF clock _ returned(1)] e1 e2 by auto
        from returned(2) have
          go: "maintenance_terminal_completion_condition (aw_session a3) condition max_cycles elapsed target = None"
          and rest: "bind_ai (effect_ai e (SleepFor (min interval (target - elapsed))))
            (\<lambda>_. maintenance_loop e interval max_cycles target condition n) a3 = (Inr None, w')"
          by (auto simp: bind_look pure_ai_def split: option.splits)
        have less: "elapsed < target" by (rule terminal_by_time[OF go])
        from rest show ?thesis
        proof (cases rule: bind_aiE)
          case (returned v a4)
          from sleep_advances[OF clock a3(2) returned(1)] returned(2) a3 less show ?thesis
            by (intro exI[of _ a4]) (auto simp: min_def split: if_splits)
        qed simp
      qed simp
    qed simp
  qed simp
qed

lemma maintenance_loop_ends:
  assumes "advancing_clock e" and "0 \<le> interval" and "clock_runs e w"
    and "target \<le> time_of e w + int n * interval"
  shows "maintenance_loop e interval max_cycles target condition (Suc n) w \<noteq> (Inr None, w')"
  using assms(3,4)
proof (induction n arbitrary: w)
  case (0 w)
  then show ?case using maintenance_round[OF assms(1) 0(1)] by fastforce
next
  case (Suc n w)
  show ?case
  proof
    assume "maintenance_loop e interval max_cycles target condition (Suc (Suc n)) w = (Inr None, w')"
    from maintenance_round[OF assms(1) Suc.prems(1) this] obtain w1 where w1: "clock_runs e w1"
      "maintenance_loop e interval max_cycles target condition (Suc n) w1 = (Inr None, w')"
      "target \<le> time_of e w1 \<or> time_of e w + interval \<le> time_of e w1" by blast
    have "target \<le> time_of e w1 + int n * interval"
      using w1(3) Suc.prems(2) assms(2)
      by (auto simp: algebra_simps intro: order_trans[of target "time_of e w1"])
    from Suc.IH[OF w1(1) this] w1(2) show False by simp
  qed
qed

lemma expected_cycles_enough:
  assumes "1 \<le> interval" and "start < target"
  shows "target \<le> start + (expected_maintenance_cycle_count start target interval - 1) * interval"
proof -
  let ?q = "(target - start + interval - 1) div interval"
  have "?q * interval + (target - start + interval - 1) mod interval = target - start + interval - 1"
    by simp
  moreover have "(target - start + interval - 1) mod interval < interval" using assms(1) by simp
  ultimately have "target - start \<le> ?q * interval" by linarith
  then show ?thesis using assms by (simp add: expected_maintenance_cycle_count_def)
qed

lemma maintenance_reaches_loop:
  assumes minutes: "budget_item (aw_session w) ''max_minutes'' = Inr m"
    and run: "run_proposal_budget_maintenance e interval max_cycles fuel w = (Inr None, w')"
  obtains a1 start a5 condition where "elapsed_ai e w = (Inr start, a1)" and "steady_step loop_keys a1 a5"
    and "maintenance_loop e interval max_cycles (m * 60) condition fuel a5 = (Inr None, w')"
proof -
  from run[unfolded run_proposal_budget_maintenance_def bind_look minutes bind_pure sum.case Let_def]
  show ?thesis
  proof (cases rule: bind_aiE)
    case (returned start a1)
    let ?cs = "aw_calls a1 @ [Now]"
    let ?payload = "initial_maintenance_payload (ae_now e ?cs) (m * 60) start interval max_cycles"
    let ?a3 = "a1\<lparr>aw_calls := ?cs, aw_session := dset ''maintenance'' (PyDict ?payload) (aw_session a1)\<rparr>"
    have s3: "steady_step loop_keys a1 ?a3" by (simp add: steady_step_def map_of_dset)
    from returned(2)[unfolded bind_now bind_update] show ?thesis
    proof (cases rule: bind_aiE)
      case (returned u a5)
      have s5: "steady_step loop_keys a1 a5"
        using steady_step_trans[OF s3 steadyD[OF steady_write]] returned(1) by simp
      from returned(2) obtain r a6 where
        "maintenance_loop e interval max_cycles (m * 60) (text_field ?payload ''completion_condition'') fuel a5 = (Inr r, a6)"
        "(case r of None \<Rightarrow> pure_ai (Inr None)
          | Some condition \<Rightarrow> bind_ai (complete_maintenance e condition) (\<lambda>_. pure_ai (Inr (Some ())))) a6 = (Inr None, w')"
        by (auto simp: bind_now bind_update pure_run split: if_splits elim!: bind_aiE)
      then show ?thesis
        using that[OF \<open>elapsed_ai e w = (Inr start, a1)\<close> s5]
        by (auto simp: pure_run split: option.splits elim!: bind_aiE)
    qed simp
  qed simp
qed

lemma maintenance_ends:
  assumes clock: "advancing_clock e" and runs: "clock_runs e w" and i: "1 \<le> interval"
    and minutes: "budget_item (aw_session w) ''max_minutes'' = Inr m"
    and fuel: "expected_maintenance_cycle_count (time_of e w) (m * 60) interval \<le> int fuel" "0 < fuel"
  shows "run_proposal_budget_maintenance e interval max_cycles fuel w \<noteq> (Inr None, w')"
proof
  obtain n where n: "fuel = Suc n" using fuel(2) by (cases fuel) auto
  assume "run_proposal_budget_maintenance e interval max_cycles fuel w = (Inr None, w')"
  then obtain a1 start a5 condition where
    e1: "elapsed_ai e w = (Inr start, a1)" and st: "steady_step loop_keys a1 a5"
    and loop: "maintenance_loop e interval max_cycles (m * 60) condition fuel a5 = (Inr None, w')"
    by (rule maintenance_reaches_loop[OF minutes])
  have runs5: "clock_runs e a5" and "time_of e w \<le> time_of e a5"
    using elapsed_reads[OF clock runs e1] steady_later[OF clock st] by auto
  moreover have "m * 60 \<le> time_of e w + int n * interval"
  proof (cases "time_of e w < m * 60")
    case True
    have "(expected_maintenance_cycle_count (time_of e w) (m * 60) interval - 1) * interval \<le> int n * interval"
      using fuel(1) i n by (intro mult_right_mono) auto
    with expected_cycles_enough[OF i True] show ?thesis by linarith
  next
    case False
    then show ?thesis using i by (smt (verit) mult_nonneg_nonneg of_nat_0_le_iff)
  qed
  ultimately have "m * 60 \<le> time_of e a5 + int n * interval" by linarith
  from maintenance_loop_ends[OF clock _ runs5 this] loop i n show False by simp
qed

lemma maybe_maintenance_ends:
  assumes clock: "advancing_clock e" and runs: "clock_runs e w"
    and minutes: "budget_item (aw_session w) ''max_minutes'' = Inr m"
    and late: "0 \<le> time_of e w" and fuel: "m * 60 < int fuel"  "0 < fuel"
  shows "maybe_run_proposal_budget_maintenance e r n fuel w \<noteq> (Inr None, w')"
proof
  assume "maybe_run_proposal_budget_maintenance e r n fuel w = (Inr None, w')"
  from this[unfolded maybe_run_proposal_budget_maintenance_def] show False
  proof (cases rule: bind_aiE)
    case (returned elapsed a1)
    note e1 = elapsed_reads[OF clock runs returned(1)]
    have same: "aw_session a1 = aw_session w"
      using returned(1) by (auto simp: elapsed_ai_def clock_ai_def call_ai_def bind_ai_def look_ai_def pure_ai_def)
    from returned(2) obtain d where
      d: "promotion_maintenance_stop_decision (aw_session a1) r n (aw_stop a1) elapsed (m * 60) = Inr d"
      and go: "run_proposal_budget_maintenance e (me_interval d) (me_max_cycles d) fuel a1 = (Inr None, w')"
      by (auto simp: bind_look bind_pure same minutes bind_change pure_run
          split: sum.splits option.splits if_splits)
    have i: "1 \<le> me_interval d"
      using d by (auto simp: promotion_maintenance_stop_decision_def maintenance_run_eligibility_def
          not_eligible_def resolve_maintenance_interval_def positive_budget_Some bindr_eq_Inr
          split: if_splits option.splits)
    have "expected_maintenance_cycle_count (time_of e a1) (m * 60) (me_interval d) \<le> int fuel"
    proof (cases "time_of e a1 < m * 60")
      case True
      let ?x = "m * 60 - time_of e a1"
      have "0 \<le> (?x - 1) * (me_interval d - 1)" using True i by (intro mult_nonneg_nonneg) auto
      then have "?x + me_interval d - 1 \<le> ?x * me_interval d" by (simp add: algebra_simps)
      from zdiv_mono1[OF this, of "me_interval d"] i
      have "(?x + me_interval d - 1) div me_interval d \<le> ?x" by simp
      with True e1 late fuel show ?thesis by (simp add: expected_maintenance_cycle_count_def)
    next
      case False
      then show ?thesis by (simp add: expected_maintenance_cycle_count_def)
    qed
    from maintenance_ends[OF clock _ i _ this fuel(2)] e1 go same minutes show False by simp
  qed simp
qed

lemma clock_runs_time: "clock_runs e w \<Longrightarrow> 0 \<le> time_of e w"
  by (simp add: clock_runs_def time_of_def)

lemma close_session_ends:
  assumes clock: "advancing_clock e" and runs: "clock_runs e w" and b: "session_budget w p m f"
    and fuel: "m * 60 < int fuel" "0 < fuel"
  shows "close_session e sid r n0 fuel w \<noteq> (Inr None, w')"
proof
  assume "close_session e sid r n0 fuel w = (Inr None, w')"
  from this[unfolded close_session_def] show False
  proof (cases rule: bind_aiE)
    case (returned stop a1)
    note s1 = steadyD[OF steady_stop_after returned(1)]
    let ?a2 = "a1\<lparr>aw_stop := stop\<rparr>"
    have s2: "steady_step loop_keys w ?a2" using s1 by (simp add: steady_step_def)
    have runs2: "clock_runs e ?a2" using steady_later[OF clock s2 runs] by simp
    have b2: "session_budget ?a2 p m f" using b s2 by (simp add: session_budget_def steady_step_def)
    from returned(2)[unfolded bind_change bind_look] obtain n1 where
      "bind_ai (maybe_run_proposal_budget_maintenance e r (n1 - n0) fuel) (\<lambda>m. case m of
         None \<Rightarrow> pure_ai (Inr None)
       | Some _ \<Rightarrow>
         bind_ai (complete_auto_improve_session e sid) (\<lambda>result.
         bind_ai (effect_ai e (RuntimeEvent ''complete'' (text_field result ''stop_reason''))) (\<lambda>_.
           pure_ai (Inr (Some result))))) ?a2 = (Inr None, w')"
      by (auto simp: bind_pure split: sum.splits)
    then show False
    proof (cases rule: bind_aiE)
      case (returned x a3)
      have "x \<noteq> None"
        using maybe_maintenance_ends[OF clock runs2 budget_items(2)[OF b2] clock_runs_time[OF runs2] fuel]
          returned(1) by (cases x) auto
      with returned(2) show False by (auto simp: pure_run elim!: bind_aiE)
    qed simp
  qed simp
qed

lemma initial_clock:
  assumes "initial_loop_state e w = (Inr u, w')"
  shows "clock_runs e w'"
  using assms unfolding initial_loop_state_def bind_look
  by (auto simp: bind_pure clock_ai_def call_ai_def change_ai_def clock_runs_def split: sum.splits elim!: bind_aiE)

lemma run_session_ends:
  assumes clock: "advancing_clock e" and b: "session_budget w p m f" and f: "1 \<le> f" "1 \<le> m"
    and none: "attempts (aw_calls w) = []" and fuel: "m * 60 < int fuel"
  shows "run_session e policy ap sid r fuel w \<noteq> (Inr None, w')"
proof
  assume "run_session e policy ap sid r fuel w = (Inr None, w')"
  from this[unfolded run_session_def] show False
  proof (cases rule: bind_aiE)
    case (returned u w1)
    note runs1 = initial_clock[OF returned(1)]
    note init = initial_state_step[OF returned(1)]
    have b1: "session_budget w1 p m f" using b init by (simp add: session_budget_def)
    from returned(2) obtain qs where "bind_ai (open_session e (sq_allow_learning_uncertain r)) (\<lambda>_.
     bind_ai (look_ai aw_session) (\<lambda>s.
     bind_ai (pure_ai (session_iteration_total s)) (\<lambda>n0.
     bind_ai (pure_ai (budget_item s ''max_proposals'')) (\<lambda>budget.
     bind_ai (run_iterations e policy qs sid [n0 + 1..budget]) (\<lambda>_.
       close_session e sid r n0 fuel))))) w1 = (Inr None, w')"
      by (auto simp: bind_pure split: sum.splits)
    then show False
    proof (cases rule: bind_aiE)
      case (returned v w2)
      note s2 = steadyD[OF steady_open returned(1)]
      have runs2: "clock_runs e w2" using steady_later[OF clock s2 runs1] by simp
      have b2: "session_budget w2 p m f" using b1 s2 by (simp add: session_budget_def steady_step_def)
      have "attempts (aw_calls w2) = []" using s2 init none by (auto simp: steady_step_def)
      then have t2: "timed_attempts e (aw_start w2 + of_int (m * 60)) (aw_calls w2)" by (rule timed_quiet)
      from returned(2) budget_items(1)[OF b2] obtain n0 where
        "bind_ai (run_iterations e policy qs sid [n0 + 1..p]) (\<lambda>_. close_session e sid r n0 fuel) w2 = (Inr None, w')"
        by (auto simp: bind_look bind_pure split: sum.splits)
      then show False
      proof (cases rule: bind_aiE)
        case (returned y w3)
        note wi = run_iterations_within[OF b2 f(1) t2 returned(1)]
        then obtain cs where "aw_calls w3 = aw_calls w2 @ cs" "aw_start w3 = aw_start w2" "session_budget w3 p m f"
          by (auto simp: within_budgets_def)
        with close_session_ends[OF clock _ _ fuel, of w3 p f sid r n0 w'] returned(2) later[OF clock _ _ runs2] fuel f(2)
        show False by force
      qed simp
    qed simp
  qed simp
qed

text \<open>
  C22: a session ends: when the clock advances while the loop sleeps, the maintenance of a session reaches
  its completion within the seconds of the budget, so that with fuel for them the session gives a
  result or an error.
\<close>

theorem session_ends:
  assumes "advancing_clock e"
    and "start_auto_improve_session policy path loads snaps (ae_now e [Now]) r = Inr (ap, s, sid)"
    and "60 * ai_int_field (mapping_value s ''budget'') ''max_minutes'' < int fuel"
  shows "\<exists>w'. (\<exists>x. run_auto_improve_session e policy path loads snaps r fuel new_world = (Inl x, w')) \<or>
    (\<exists>result. run_auto_improve_session e policy path loads snaps r fuel new_world = (Inr (Some result), w'))"
proof -
  obtain p m f where b: "map_of s ''budget'' = Some (PyDict (budget_record p m f))" "1 \<le> m" "1 \<le> f"
    using started_budget[OF assms(2)] by blast
  define w where "w = new_world\<lparr>aw_calls := [Now], aw_session := s\<rparr>"
  have eq: "run_auto_improve_session e policy path loads snaps r fuel new_world = run_session e policy ap sid r fuel w"
    using assms(2)
    by (simp add: run_auto_improve_session_def bind_now bind_pure bind_update new_world_def w_def)
  have "session_budget w p m f" using b by (simp add: session_budget_def w_def)
  moreover have "m * 60 < int fuel"
    using assms(3) b(1) by (simp add: ai_int_field_def mapping_value_def dget_def budget_record_def)
  ultimately have "run_session e policy ap sid r fuel w \<noteq> (Inr None, w')" for w'
    using run_session_ends[OF assms(1)] b by (simp add: w_def)
  then show ?thesis
    unfolding eq by (metis not_None_eq obj_sumE surj_pair)
qed

lemma sample_clock: "advancing_clock loop_env" "advancing_clock full_disk_env"
  by (simp_all add: advancing_clock_def loop_env_def full_disk_env_def)

theorem session_ends_witness:
  "\<exists>w'. (\<exists>x. sample_session loop_env 601 = (Inl x, w')) \<or>
    (\<exists>result. sample_session loop_env 601 = (Inr (Some result), w'))"
  unfolding sample_session_def
  by (rule session_ends[OF sample_clock(1) sample_starts])
    (simp add: ai_int_field_def mapping_value_def dget_def budget_record_def)

subsection \<open>A repeated blocker stays one\<close>

definition counts_wf :: "counts \<Rightarrow> bool" where
  "counts_wf cs \<longleftrightarrow> distinct (map fst cs) \<and> (\<forall>k \<in> fst ` set cs. k \<noteq> [] \<and> py_strip k = k)"

lemma counts_wf_Nil: "counts_wf []"
  by (simp add: counts_wf_def)

lemma counts_wf_dset: "counts_wf cs \<Longrightarrow> k \<noteq> [] \<Longrightarrow> py_strip k = k \<Longrightarrow> counts_wf (dset k n cs)"
  by (auto simp: counts_wf_def dset_def distinct_update dom_update)

lemma normalize_count_wf: "counts_wf cs \<Longrightarrow> counts_wf (normalize_count cs kv)"
  by (auto simp: normalize_count_def Let_def intro: counts_wf_dset)

lemma foldl_wf: "(\<And>cs x. counts_wf cs \<Longrightarrow> counts_wf (f cs x)) \<Longrightarrow> counts_wf cs \<Longrightarrow> counts_wf (foldl f cs xs)"
  by (induction xs arbitrary: cs) auto

lemma normalized_counts_wf: "counts_wf (normalize_blocking_reason_counts v)"
  by (cases v) (auto intro: foldl_wf normalize_count_wf counts_wf_Nil)

lemma count_iteration_wf: "counts_wf cs \<Longrightarrow> counts_wf (count_iteration cs v)"
  by (auto simp: count_iteration_def add_count_def iteration_reason_def Let_def text_field_def strip_str_strip
      split: pyval.split intro!: counts_wf_dset)

lemma normalize_fresh:
  "k \<notin> fst ` set cs \<Longrightarrow> k \<noteq> [] \<Longrightarrow> py_strip k = k \<Longrightarrow> normalize_count cs (k, PyInt n) = cs @ [(k, max 0 n)]"
  by (induction cs) (auto simp: normalize_count_def dset_def Let_def)

lemma normalize_wf_counts:
  assumes "counts_wf (cs @ ds)"
  shows "foldl normalize_count cs (map (\<lambda>(k, n). (k, PyInt n)) ds) = cs @ map (\<lambda>(k, n). (k, max 0 n)) ds"
  using assms
proof (induction ds arbitrary: cs)
  case (Cons d ds)
  obtain k n where d: "d = (k, n)" by force
  have "normalize_count cs (k, PyInt n) = cs @ [(k, max 0 n)]"
    using Cons.prems d by (intro normalize_fresh) (auto simp: counts_wf_def)
  moreover have "counts_wf ((cs @ [(k, max 0 n)]) @ ds)" using Cons.prems d by (auto simp: counts_wf_def)
  ultimately show ?case using Cons.IH d by simp
qed simp

lemma normalize_count_value:
  "counts_wf cs \<Longrightarrow> normalize_blocking_reason_counts (count_value cs) = map (\<lambda>(k, n). (k, max 0 n)) cs"
  using normalize_wf_counts[of "[]" cs] by (simp add: count_value_def)

lemma find_in: "find P xs = Some x \<Longrightarrow> x \<in> set xs"
  by (induction xs) (auto split: if_splits)

lemma iteration_counts_wf: "blocking_reason_counts_from_iterations s = Inr cs \<Longrightarrow> counts_wf cs"
  by (auto simp: blocking_reason_counts_from_iterations_def bindr_eq_Inr
      intro: foldl_wf count_iteration_wf counts_wf_Nil)

lemma repeated_reason_wf:
  assumes "repeated_blocker_reason s = Inr reason" and "reason \<noteq> []"
  shows "py_strip reason = reason"
proof -
  let ?v = "dget (mapping_value s ''loop_state'') ''blocking_reason_counts'' PyNone"
  from assms(1) obtain cs where cs: "(if normalize_blocking_reason_counts ?v = []
      then blocking_reason_counts_from_iterations s else Inr (normalize_blocking_reason_counts ?v)) = Inr cs"
    and reason: "reason = (case find (\<lambda>kv. snd kv \<ge> REPEATED_BLOCKER_THRESHOLD) (sort_key fst cs) of
               Some kv \<Rightarrow> fst kv | None \<Rightarrow> '''')"
    by (auto simp: repeated_blocker_reason_def Let_def bindr_eq_Inr)
  have wf: "counts_wf cs"
    using cs normalized_counts_wf[of ?v] iteration_counts_wf[of s cs] by (simp split: if_splits)
  from reason assms(2) obtain kv where "find (\<lambda>kv. snd kv \<ge> REPEATED_BLOCKER_THRESHOLD) (sort_key fst cs) = Some kv"
    and "reason = fst kv" by (auto split: option.splits)
  moreover from this(1) have "kv \<in> set cs" by (auto dest!: find_in)
  ultimately show ?thesis using wf by (auto simp: counts_wf_def)
qed

lemma repeated_reason_exists:
  assumes "counts_wf cs" and "kv \<in> set cs" and "snd kv \<ge> REPEATED_BLOCKER_THRESHOLD"
  shows "(case find (\<lambda>kv. snd kv \<ge> REPEATED_BLOCKER_THRESHOLD) (sort_key fst cs) of
           Some kv \<Rightarrow> fst kv | None \<Rightarrow> '''') \<noteq> []"
proof (cases "find (\<lambda>kv. snd kv \<ge> REPEATED_BLOCKER_THRESHOLD) (sort_key fst cs)")
  case None
  then show ?thesis using assms(2,3) by (cases kv) (auto simp: find_None_iff)
next
  case (Some kv')
  then have "kv' \<in> set cs" by (auto dest!: find_in)
  then show ?thesis using Some assms(1) by (auto simp: counts_wf_def)
qed

lemma marked_reason_repeats:
  assumes mark: "mark_repeated_blocker_stop s reason now = Inr s'" and r: "reason \<noteq> []" "py_strip reason = reason"
  shows "\<exists>x. repeated_blocker_reason s' = Inr x \<and> x \<noteq> []"
proof -
  from mark obtain state where s': "s' = dset ''loop_state'' (PyDict
            (dset ''remediation_backlog_path'' (PyStr REMEDIATION_BACKLOG_REPORT)
            (dset ''repeated_blocker_reason'' (PyStr reason)
            (dset ''repeated_blocker_stop'' (PyBool True)
            (dset ''blocking_reason_counts'' (count_value (dset reason
               (max (dget (normalize_blocking_reason_counts (dget state ''blocking_reason_counts'' PyNone)) reason 0)
                 REPEATED_BLOCKER_THRESHOLD)
               (normalize_blocking_reason_counts (dget state ''blocking_reason_counts'' PyNone)))) state))))) s"
    by (auto simp: mark_repeated_blocker_stop_def bindr_eq_Inr Let_def)
  define cs where "cs = normalize_blocking_reason_counts (dget state ''blocking_reason_counts'' PyNone)"
  define n where "n = max (dget cs reason 0) REPEATED_BLOCKER_THRESHOLD"
  have wf: "counts_wf (dset reason n cs)"
    using r normalized_counts_wf by (auto simp: cs_def intro: counts_wf_dset)
  let ?norm = "map (\<lambda>(k, n). (k, max 0 n)) (dset reason n cs)"
  have read: "normalize_blocking_reason_counts
      (dget (mapping_value s' ''loop_state'') ''blocking_reason_counts'' PyNone) = ?norm"
    unfolding s' cs_def[symmetric] n_def[symmetric]
    by (simp add: mapping_value_dset_eq normalize_count_value[OF wf])
  have "(reason, n) \<in> set (dset reason n cs)"
    by (metis dset_def map_of_SomeD map_of_dset fun_upd_same)
  then have mem: "(reason, max 0 n) \<in> set ?norm" by force
  have "counts_wf ?norm" using wf by (auto simp: counts_wf_def o_def case_prod_unfold image_image)
  from repeated_reason_exists[OF this mem] have
    "(case find (\<lambda>kv. snd kv \<ge> REPEATED_BLOCKER_THRESHOLD) (sort_key fst ?norm) of
           Some kv \<Rightarrow> fst kv | None \<Rightarrow> '''') \<noteq> []"
    by (simp add: n_def)
  moreover have "?norm \<noteq> []" using mem by auto
  ultimately show ?thesis by (simp add: repeated_blocker_reason_def read Let_def)
qed

subsection \<open>The loop is entered through the learning gate\<close>

text \<open>A readiness report, read before any attempt, that lets the session go on.\<close>

definition gate_passed :: "ai_env \<Rightarrow> pydict \<Rightarrow> bool \<Rightarrow> ai_call list \<Rightarrow> bool" where
  "gate_passed e session allow cs \<longleftrightarrow> (\<exists>u v report path. cs = u @ BuildReadiness # v \<and> attempts u = [] \<and>
     ae_readiness e (u @ [BuildReadiness]) = Inr (report, path) \<and>
     (learning_review_required report = Inr False \<or> allow \<or>
      policy_authorizes_learning_uncertain (session_learning_policy session)))"

lemma gate_passed_append: "gate_passed e s allow cs \<Longrightarrow> gate_passed e s allow (cs @ ds)"
  unfolding gate_passed_def by (metis append.assoc append_Cons)

lemma session_learning_policy_cong:
  "map_of s' ''goal_contract'' = map_of s ''goal_contract'' \<Longrightarrow>
   session_learning_policy s' = session_learning_policy s"
  by (simp add: session_learning_policy_def mapping_value_def dget_def)

lemma bind_call:
  "bind_ai (call_ai c answer) f w = (case answer (aw_calls w @ [c]) of
     Inl x \<Rightarrow> (Inl x, w\<lparr>aw_calls := aw_calls w @ [c]\<rparr>)
   | Inr a \<Rightarrow> f a (w\<lparr>aw_calls := aw_calls w @ [c]\<rparr>))"
  by (simp add: bind_ai_def call_ai_def split: sum.split)

lemma bind_session_step:
  "bind_ai (session_step g) f w = (case g (aw_session w) of
     Inl x \<Rightarrow> (Inl x, w) | Inr (s, a) \<Rightarrow> f a (w\<lparr>aw_session := s\<rparr>))"
  by (simp add: bind_ai_def session_step_def split: sum.split)

lemma preflight_passes:
  assumes none: "attempts (aw_calls w) = []" and run: "preflight_learning_gate e allow w = (Inr repair, w')"
  shows "gate_passed e (aw_session w) allow (aw_calls w')"
proof -
  let ?c1 = "aw_calls w @ [BuildReports]" and ?c2 = "aw_calls w @ [BuildReports, BuildReadiness]"
  from run obtain review proposals report path s1 b ld w1 where
    report: "ae_readiness e ?c2 = Inr (report, path)" and
    s1: "record_pre_run_selected_proposal (aw_session w) proposals = Inr (s1, b)" and
    ld: "build_learning_preflight_decision s1 report allow = Inr ld" and
    ok: "\<not> ld_blocked ld" and calls: "aw_calls w' = ?c2 @ w1"
    unfolding preflight_learning_gate_def build_reports_def build_readiness_def
    by (auto simp: session_step_def look_ai_def update_session_def write_session_def effect_ai_def
        call_ai_def pure_run split: sum.splits prod.splits if_splits option.splits elim!: bind_aiE)
  have policy: "session_learning_policy s1 = session_learning_policy (aw_session w)"
    by (rule session_learning_policy_cong) (rule record_pre_run_map_of[OF s1], simp)
  from ld ok policy have "learning_review_required report = Inr False \<or> allow \<or>
      policy_authorizes_learning_uncertain (session_learning_policy (aw_session w))"
    by (auto simp: build_learning_preflight_decision_def bindr_eq_Inr Let_def)
  then show ?thesis
    unfolding gate_passed_def using report calls none
    by (intro exI[of _ ?c1] exI[of _ w1] exI[of _ report] exI[of _ path]) simp
qed

text \<open>A check that stops the session before its gate stops it again before its first iteration.\<close>

lemma stop_for_blocker_marks:
  assumes "stop_for_blocker e reason w = (Inr x, w')" and "reason \<noteq> []" and "py_strip reason = reason"
  shows "\<exists>y. repeated_blocker_reason (aw_session w') = Inr y \<and> y \<noteq> []"
  using assms marked_reason_repeats unfolding stop_for_blocker_def
  by (auto simp: now_ai_def call_ai_def update_session_def session_step_def pure_run bindr_eq_Inr
      split: sum.splits elim!: bind_aiE)

lemma stop_again:
  assumes clock: "advancing_clock e" and runs: "clock_runs e w" and b: "session_budget w p m f"
    and first: "stop_reason_before_iteration e False w = (Inr (Some t), w1)"
    and second: "stop_reason_before_iteration e True (w1\<lparr>aw_stop := t\<rparr>) = (Inr None, w2)"
  shows False
proof -
  note st = steadyD[OF steady_stop_before first]
  have b1: "session_budget (w1\<lparr>aw_stop := t\<rparr>) p m f" using b st by (simp add: session_budget_def steady_step_def)
  from stop_before_None[OF b1 second] obtain u n where
    u: "aw_calls w2 = u @ [Clock]" "ae_clock e (u @ [Clock]) - aw_start w2 \<le> of_int (m * 60)"
    and few: "aw_failures w2 < f" and count: "iteration_count (aw_session w1) = Inr n" "n < p"
    and fine: "repeated_blocker_reason (aw_session w1) = Inr ''''"
    by auto
  have w2: "aw_failures w2 = aw_failures w" "aw_start w2 = aw_start w"
    using st steadyD[OF steady_stop_before second] by (simp_all add: steady_step_def)
  obtain v where v: "aw_calls w2 = aw_calls w1 @ v"
    using steadyD[OF steady_stop_before second] by (auto simp: steady_step_def)
  have early: "ae_clock e (aw_calls w1) - aw_start w \<le> of_int (m * 60)"
    using u w2 v advancing_mono[OF clock, of "aw_calls w1" v] by simp
  have same: "iteration_count (aw_session w) = iteration_count (aw_session w1)"
    using st by (simp add: steady_step_def iteration_count_def dget_def)
  from first obtain repeated where rep: "repeated_blocker_reason (aw_session w) = Inr repeated"
    by (cases "repeated_blocker_reason (aw_session w)")
      (auto simp: stop_reason_before_iteration_def bind_look bind_pure)
  show False
  proof (cases "repeated = []")
    case False
    with first rep have "stop_for_blocker e repeated w = (Inr (Some t), w1)"
      by (simp add: stop_reason_before_iteration_def bind_look bind_pure)
    from stop_for_blocker_marks[OF this False repeated_reason_wf[OF rep False]] fine show False by simp
  next
    case True
    from first few count early budget_items[OF b] show False
      unfolding stop_reason_before_iteration_def bind_look rep bind_pure same w2
      by (auto simp: True open_backlog_reason_def look_ai_def bind_look bind_pure pure_run clock_ai_def call_ai_def
          split: if_splits elim!: bind_aiE)
  qed
qed

text \<open>The gate keeps the contract of the session until it is asked.\<close>

lemma stop_before_contract:
  "stop_reason_before_iteration e c w = (r, w') \<Longrightarrow>
   map_of (aw_session w') ''goal_contract'' = map_of (aw_session w) ''goal_contract''"
proof -
  assume run: "stop_reason_before_iteration e c w = (r, w')"
  have "quiet {''goal_contract''} (stop_for_blocker e x)" for x
    unfolding stop_for_blocker_def by (intro steady_rules) (auto dest: mark_map_of[where k' = "''goal_contract''"])
  then have "quiet {''goal_contract''} (stop_reason_before_iteration e c)"
    unfolding stop_reason_before_iteration_def by (intro steady_rules)
  from steadyD[OF this run] show ?thesis by (simp add: steady_step_def)
qed

lemma no_iterations:
  "stop_reason_before_iteration e True w = (r, w1) \<Longrightarrow> r \<noteq> Inr None \<Longrightarrow>
   run_iterations e policy qs sid is w = (r', w') \<Longrightarrow> steady_step budget_key w w'"
proof (cases "is")
  case (Cons i js)
  assume first: "stop_reason_before_iteration e True w = (r, w1)" and go: "r \<noteq> Inr None"
    and run: "run_iterations e policy qs sid is w = (r', w')"
  note st = steadyD[OF steady_budget[OF steady_stop_before] first]
  have "w' = w1 \<or> (\<exists>t. w' = w1\<lparr>aw_stop := t\<rparr>)"
    using run first go Cons by (auto simp: bind_ai_def change_ai_def split: sum.splits option.splits)
  then show ?thesis using st by (auto simp: steady_step_def)
qed (simp_all add: pure_run steady_step_refl)

lemma rest_of_session:
  assumes "bind_ai (look_ai aw_session) (\<lambda>s.
     bind_ai (pure_ai (session_iteration_total s)) (\<lambda>n0.
     bind_ai (pure_ai (budget_item s ''max_proposals'')) (\<lambda>budget.
     bind_ai (run_iterations e policy qs sid [n0 + 1..budget]) (\<lambda>_.
       close_session e sid r n0 fuel)))) w = (res, w')"
  shows "w' = w \<or> (\<exists>is r' w3. run_iterations e policy qs sid is w = (r', w3) \<and> steady_step loop_keys w3 w')"
proof (cases "\<exists>n b. session_iteration_total (aw_session w) = Inr n \<and>
    budget_item (aw_session w) ''max_proposals'' = Inr b")
  case False
  then show ?thesis using assms by (auto simp: bind_look bind_pure split: sum.splits)
next
  case True
  then obtain n b where "session_iteration_total (aw_session w) = Inr n"
    "budget_item (aw_session w) ''max_proposals'' = Inr b" by blast
  with assms have "bind_ai (run_iterations e policy qs sid [n + 1..b]) (\<lambda>_. close_session e sid r n fuel) w
      = (res, w')" by (simp add: bind_look bind_pure)
  then show ?thesis
  proof (cases rule: bind_aiE)
    case (raised x)
    then show ?thesis using steady_step_refl by blast
  next
    case (returned u w3)
    then show ?thesis using steadyD[OF steady_close returned(2)] by blast
  qed
qed

lemma run_session_gate:
  assumes clock: "advancing_clock e" and b: "session_budget w p m f" and f: "1 \<le> f" and none: "attempts (aw_calls w) = []"
    and run: "run_session e policy ap sid r fuel w = (res, w')"
    and tried: "attempts (aw_calls w') \<noteq> []"
  shows "gate_passed e (aw_session w) (sq_allow_learning_uncertain r) (aw_calls w')"
  using run unfolding run_session_def
proof (cases rule: bind_aiE)
  case (raised x)
  then show ?thesis using initial_state_step[OF raised(1)] none tried by auto
next
  case (returned u w1)
  note runs1 = initial_clock[OF returned(1)]
  note init = initial_state_step[OF returned(1)]
  have b1: "session_budget w1 p m f" using b init by (simp add: session_budget_def)
  have none1: "attempts (aw_calls w1) = []" using init none by auto
  from returned(2) show ?thesis
  proof (cases rule: bind_aiE)
    case (raised x)
    then show ?thesis using none1 tried by (simp add: pure_run)
  next
    case (returned qs w1')
    then have "w1' = w1" by (simp add: pure_run)
    from returned(2)[unfolded this] show ?thesis
    proof (cases rule: bind_aiE)
      case (raised x)
      then show ?thesis using steadyD[OF steady_open raised(1)] none1 tried by (auto simp: steady_step_def)
    next
      case (returned v w2)
      note opened = returned
      note st = steadyD[OF steady_open returned(1)]
      have none2: "attempts (aw_calls w2) = []" using st none1 by (auto simp: steady_step_def)
      have b2: "session_budget w2 p m f" using b1 st by (simp add: session_budget_def steady_step_def)
      from returned(1)[unfolded open_session_def] show ?thesis
      proof (cases rule: bind_aiE)
        case (returned stop a1)
        note s1 = steadyD[OF steady_stop_before returned(1)]
        show ?thesis
        proof (cases stop)
          case None
          from returned(2) None obtain repair a2 where
            "preflight_learning_gate e (sq_allow_learning_uncertain r) a1 = (Inr repair, a2)"
            and w2: "w2 = a2\<lparr>aw_repair := repair\<rparr>"
            by (auto simp: change_ai_def elim!: bind_aiE)
          moreover have "attempts (aw_calls a1) = []" using s1 none1 by (auto simp: steady_step_def)
          ultimately have "gate_passed e (aw_session a1) (sq_allow_learning_uncertain r) (aw_calls w2)"
            using preflight_passes by simp
          moreover have "session_learning_policy (aw_session a1) = session_learning_policy (aw_session w)"
            using stop_before_contract[OF returned(1)] init by (intro session_learning_policy_cong) simp
          ultimately have "gate_passed e (aw_session w) (sq_allow_learning_uncertain r) (aw_calls w2)"
            by (simp add: gate_passed_def)
          moreover obtain cs where "aw_calls w' = aw_calls w2 @ cs"
          proof (cases "w' = w2")
            case False
            then obtain js r' w3 where it: "run_iterations e policy qs sid js w2 = (r', w3)"
              and "steady_step loop_keys w3 w'" using rest_of_session[OF opened(2)] by blast
            with run_iterations_within[OF b2 f timed_quiet[OF none2] it] that show ?thesis
              by (auto simp: within_budgets_def steady_step_def)
          qed (use that in simp)
          ultimately show ?thesis by (simp add: gate_passed_append)
        next
          case (Some t)
          with returned have w2: "w2 = a1\<lparr>aw_stop := t\<rparr>"
            and first: "stop_reason_before_iteration e False w1 = (Inr (Some t), a1)"
            by (auto simp: change_ai_def)
          have "attempts (aw_calls w') = []"
          proof (cases "w' = w2")
            case False
            then obtain js r' w3 where it: "run_iterations e policy qs sid js w2 = (r', w3)"
              and close: "steady_step loop_keys w3 w'" using rest_of_session[OF opened(2)] by blast
            obtain r2 a2 where check: "stop_reason_before_iteration e True w2 = (r2, a2)" by force
            have "r2 \<noteq> Inr None" using stop_again[OF clock runs1 b1 first] check w2 by blast
            from no_iterations[OF check this it] close none2 show ?thesis by (auto simp: steady_step_def)
          qed (use none2 in simp)
          then show ?thesis using tried by simp
        qed
      qed simp
    qed
  qed
qed

text \<open>
  C23: no attempt without the learning gate: a session that freezes a scope has before that read a
  readiness report that requires no review of the learning, or it is allowed to run without one by its
  request or by its goal contract. The session that is stopped before the gate is stopped for good: its
  first check before an iteration finds the same reason.
\<close>

theorem attempts_pass_the_learning_gate:
  assumes "advancing_clock e"
    and "start_auto_improve_session policy path loads snaps (ae_now e [Now]) r = Inr (ap, s, sid)"
    and "run_auto_improve_session e policy path loads snaps r fuel new_world = (res, w')"
    and "attempts (aw_calls w') \<noteq> []"
  shows "gate_passed e s (sq_allow_learning_uncertain r) (aw_calls w')"
proof -
  obtain p m f where b: "map_of s ''budget'' = Some (PyDict (budget_record p m f))" "1 \<le> f"
    using started_budget[OF assms(2)] by blast
  define w where "w = new_world\<lparr>aw_calls := [Now], aw_session := s\<rparr>"
  have "run_session e policy ap sid r fuel w = (res, w')"
    using assms(2,3)
    by (simp add: run_auto_improve_session_def bind_now bind_pure bind_update new_world_def w_def)
  moreover have "session_budget w p m f" using b by (simp add: session_budget_def w_def)
  ultimately show ?thesis
    using run_session_gate[OF assms(1) _ b(2) _ _ assms(4), of w p m policy ap sid r fuel res]
    by (simp add: w_def)
qed

theorem attempts_pass_the_learning_gate_witness:
  "\<exists>s. gate_passed full_disk_env s False (aw_calls (snd (sample_session full_disk_env 0)))"
proof -
  have "attempts (aw_calls (snd (sample_session full_disk_env 0))) \<noteq> []"
    by (simp add: sample_first_attempt)
  from attempts_pass_the_learning_gate[OF sample_clock(2) sample_starts[folded full_disk_now],
      of 0 "fst (sample_session full_disk_env 0)", OF _ this]
  show ?thesis by (auto simp: sample_session_def loop_request_def)
qed

end
