(* ===== verification/SystemLog.thy ===== *)
theory SystemLog
  imports PyText
begin

section \<open>The system log\<close>

text \<open>
  \<open>mechanism/finalize_run_log_runtime.py\<close> appends the entry of a finalised run to the system log and
  names it by an anchor; \<open>mechanism/planning_gate_phase_checks_runtime.py\<close> finds the entry again. Each
  of the two has its own \<open>slugify_heading\<close>: the theory shows that they agree on every heading whose
  only white space is the space.
\<close>

subsection \<open>Text\<close>

text \<open>\<open>str.isalnum\<close> on the alphabet, which is also \<open>\w\<close> without the underscore.\<close>

definition py_isalnum :: "char \<Rightarrow> bool" where
  "py_isalnum c = (let n = (of_char c :: nat) in
     (48 \<le> n \<and> n \<le> 57) \<or> (65 \<le> n \<and> n \<le> 90) \<or> (97 \<le> n \<and> n \<le> 122) \<or>
     n \<in> {170, 178, 179, 181, 185, 186, 188, 189, 190} \<or> (192 \<le> n \<and> n \<noteq> 215 \<and> n \<noteq> 247))"

text \<open>\<open>str.strip(chars)\<close> and \<open>str.lstrip(chars)\<close> as predicates on characters, \<open>str.rstrip()\<close>.\<close>

definition lstrip_of :: "(char \<Rightarrow> bool) \<Rightarrow> string \<Rightarrow> string" where
  "lstrip_of p s = dropWhile p s"

definition strip_of :: "(char \<Rightarrow> bool) \<Rightarrow> string \<Rightarrow> string" where
  "strip_of p s = rev (dropWhile p (rev (dropWhile p s)))"

definition py_rstrip :: "string \<Rightarrow> string" where
  "py_rstrip s = rev (dropWhile py_isspace (rev s))"

text \<open>\<open>re.sub(r"[...]+", c, s)\<close>: every run of a class of characters becomes one character.\<close>

function squeeze :: "(char \<Rightarrow> bool) \<Rightarrow> char \<Rightarrow> string \<Rightarrow> string" where
  "squeeze p c [] = []"
| "squeeze p c (x # xs) = (if p x then c # squeeze p c (dropWhile p xs) else x # squeeze p c xs)"
  by pat_completeness auto
termination
  by (relation "measure (\<lambda>(p, c, s). length s)") (auto simp: le_imp_less_Suc length_dropWhile_le)

text \<open>\<open>str.split()\<close>.\<close>

function py_words :: "string \<Rightarrow> string list" where
  "py_words [] = []"
| "py_words (x # xs) =
     (if py_isspace x then py_words xs
      else (x # takeWhile (\<lambda>c. \<not> py_isspace c) xs) # py_words (dropWhile (\<lambda>c. \<not> py_isspace c) xs))"
  by pat_completeness auto
termination
  by (relation "measure length") (auto simp: le_imp_less_Suc length_dropWhile_le)

text \<open>\<open>slug.replace("--", "-")\<close>, once and as long as \<open>"--"\<close> is in the text.\<close>

definition dash :: char where "dash = CHR ''-''"

fun halve_dashes :: "string \<Rightarrow> string" where
  "halve_dashes (a # b # s) = (if a = dash \<and> b = dash then dash # halve_dashes s else a # halve_dashes (b # s))"
| "halve_dashes s = s"

fun double_dash :: "string \<Rightarrow> bool" where
  "double_dash (a # b # s) = (a = dash \<and> b = dash \<or> double_dash (b # s))"
| "double_dash s = False"

lemma halve_shorter: "double_dash s \<Longrightarrow> length (halve_dashes s) < length s"
proof (induction s rule: halve_dashes.induct)
  case (1 a b s)
  have "length (halve_dashes t) \<le> length t" for t by (induction t rule: halve_dashes.induct) auto
  with 1 show ?case by (auto simp: le_imp_less_Suc le_SucI split: if_splits)
qed simp_all

function single_dashes :: "string \<Rightarrow> string" where
  "single_dashes s = (if double_dash s then single_dashes (halve_dashes s) else s)"
  by pat_completeness auto
termination
  by (relation "measure length") (auto simp: halve_shorter)

declare single_dashes.simps [simp del]

text \<open>\<open>text.splitlines()\<close> of a text read from a file, where a carriage return is never followed by a line feed.\<close>

definition line_break :: "char \<Rightarrow> bool" where
  "line_break c = (let n = (of_char c :: nat) in (10 \<le> n \<and> n \<le> 13) \<or> (28 \<le> n \<and> n \<le> 30) \<or> n = 133)"

fun py_splitlines :: "string \<Rightarrow> string list" where
  "py_splitlines [] = []"
| "py_splitlines (c # cs) =
     (if line_break c then [] # py_splitlines cs
      else (case py_splitlines cs of [] \<Rightarrow> [[c]] | l # ls \<Rightarrow> (c # l) # ls))"

subsection \<open>The two slugs\<close>

definition slug_brackets :: "string \<Rightarrow> string" where
  "slug_brackets text = filter (\<lambda>c. c \<noteq> CHR ''['' \<and> c \<noteq> CHR '']'') (py_lower (py_strip text))"

definition slugify_heading :: "string \<Rightarrow> string" where
  "slugify_heading text =
     (let words = filter (\<lambda>c. py_isalnum c \<or> c = CHR ''_'' \<or> py_isspace c \<or> c = dash) (slug_brackets text)
      in strip_of (\<lambda>c. c = dash) (squeeze (\<lambda>c. c = dash) dash (squeeze py_isspace dash words)))"

definition gate_slugify_heading :: "string \<Rightarrow> string" where
  "gate_slugify_heading text =
     (let words = filter (\<lambda>c. py_isalnum c \<or> c = CHR '' '' \<or> c = dash \<or> c = CHR ''_'') (slug_brackets text)
      in strip_of (\<lambda>c. c = dash) (single_dashes (py_join [dash] (py_words words))))"

text \<open>Headings whose only white space is the space.\<close>

definition plain_spaces :: "string \<Rightarrow> bool" where
  "plain_spaces s = list_all (\<lambda>c. py_isspace c \<longrightarrow> c = CHR '' '') s"

subsection \<open>The slugs agree\<close>

lemma dropWhile_or: "dropWhile (\<lambda>x. p x \<or> q x) (dropWhile q ys) = dropWhile (\<lambda>x. p x \<or> q x) ys"
  by (induction ys) auto

lemma drop_squeeze:
  assumes "p c"
  shows "dropWhile p (squeeze q c ys) = squeeze q c (dropWhile (\<lambda>x. p x \<or> q x) ys)"
proof (induction "length ys" arbitrary: ys rule: less_induct)
  case less
  show ?case
  proof (cases ys)
    case (Cons x xs)
    with less[of xs] less[of "dropWhile q xs"] assms show ?thesis
      by (auto simp: dropWhile_or le_imp_less_Suc length_dropWhile_le)
  qed simp
qed

lemma squeeze_squeeze:
  assumes "p c"
  shows "squeeze p c (squeeze q c s) = squeeze (\<lambda>x. p x \<or> q x) c s"
proof (induction "length s" arbitrary: s rule: less_induct)
  case less
  show ?case
  proof (cases s)
    case (Cons x xs)
    have "dropWhile p (squeeze q c (dropWhile q xs)) = squeeze q c (dropWhile (\<lambda>x. p x \<or> q x) xs)"
      by (simp add: drop_squeeze[where p = p and c = c, OF assms] dropWhile_or)
    moreover have "squeeze p c (squeeze q c (dropWhile (\<lambda>x. p x \<or> q x) xs)) =
        squeeze (\<lambda>x. p x \<or> q x) c (dropWhile (\<lambda>x. p x \<or> q x) xs)"
      using less[of "dropWhile (\<lambda>x. p x \<or> q x) xs"] Cons by (simp add: le_imp_less_Suc length_dropWhile_le)
    ultimately show ?thesis
      using less[of xs] Cons assms by (auto simp: drop_squeeze[where p = p and c = c, OF assms] dropWhile_or)
  qed simp
qed

lemma squeeze_halve: "squeeze (\<lambda>c. c = dash) dash (halve_dashes s) = squeeze (\<lambda>c. c = dash) dash s"
proof -
  have drop: "dropWhile (\<lambda>c. c = dash) (halve_dashes s) = halve_dashes (dropWhile (\<lambda>c. c = dash) s)" for s
    by (induction s rule: halve_dashes.induct) auto
  show ?thesis
  proof (induction "length s" arbitrary: s rule: less_induct)
    case less
    show ?case
    proof (cases s rule: halve_dashes.cases)
      case (1 a b t)
      have "squeeze (\<lambda>c. c = dash) dash (halve_dashes (dropWhile (\<lambda>c. c = dash) t)) =
          squeeze (\<lambda>c. c = dash) dash (dropWhile (\<lambda>c. c = dash) t)"
        using less[of "dropWhile (\<lambda>c. c = dash) t"] 1 by (simp add: le_imp_less_Suc le_SucI length_dropWhile_le)
      then show ?thesis using less[of "b # t"] 1 by (auto simp: drop)
    qed simp_all
  qed
qed

lemma squeeze_single: "\<not> double_dash s \<Longrightarrow> squeeze (\<lambda>c. c = dash) dash s = s"
proof (induction s rule: double_dash.induct)
  case (1 a b s)
  then show ?case by (cases "a = dash") auto
qed auto

lemma single_dashes_squeeze: "single_dashes s = squeeze (\<lambda>c. c = dash) dash s"
proof (induction s rule: single_dashes.induct)
  case (1 s)
  then show ?case by (subst single_dashes.simps) (auto simp: squeeze_halve squeeze_single)
qed

text \<open>The words of a text, joined by dashes, are its stripped form with every run of spaces a dash.\<close>

lemma words_drop: "py_words (dropWhile py_isspace s) = py_words s"
  by (induction s) auto

lemma words_Nil: "py_words s = [] \<longleftrightarrow> dropWhile py_isspace s = []"
  by (induction s rule: py_words.induct) auto

lemma squeeze_append: "list_all (\<lambda>x. \<not> p x) w \<Longrightarrow> squeeze p c (w @ t) = w @ squeeze p c t"
  by (induction w) auto

lemma takeWhile_none: "list_all (\<lambda>x. \<not> p x) (takeWhile (\<lambda>x. \<not> p x) s)"
  by (induction s) auto

lemma rstrip_append: "py_rstrip t \<noteq> [] \<Longrightarrow> py_rstrip (a @ t) = a @ py_rstrip t"
  by (simp add: py_rstrip_def dropWhile_append) (metis dropWhile_eq_Nil_conv)

lemma rstrip_Nil: "py_rstrip t = [] \<longleftrightarrow> dropWhile py_isspace t = []"
  by (simp add: py_rstrip_def)

lemma rstrip_spaces: "py_rstrip t = [] \<Longrightarrow> py_rstrip (a @ t) = py_rstrip a"
  by (simp add: py_rstrip_def dropWhile_append)

lemma rstrip_word: "list_all (\<lambda>x. \<not> py_isspace x) w \<Longrightarrow> py_rstrip w = w"
  by (induction w rule: rev_induct) (simp_all add: py_rstrip_def)

lemma spaces_first:
  assumes "dropWhile p (dropWhile (\<lambda>c. \<not> p c) xs) \<noteq> []"
  shows "\<exists>r. dropWhile (\<lambda>c. \<not> p c) xs = r @ dropWhile p (dropWhile (\<lambda>c. \<not> p c) xs) \<and> list_all p r \<and> r \<noteq> []"
  using assms
proof (induction xs)
  case (Cons x xs)
  show ?case
  proof (cases "p x")
    case True
    have "x # xs = (x # takeWhile p xs) @ dropWhile p xs" by simp
    moreover have "list_all p (x # takeWhile p xs)" using True by (auto simp: list_all_iff dest: set_takeWhileD)
    ultimately show ?thesis using True by (intro exI[of _ "x # takeWhile p xs"]) simp
  qed (use Cons in simp)
qed simp

lemma squeeze_run:
  assumes "list_all p r" and "r \<noteq> []" and "dropWhile p t = t"
  shows "squeeze p c (r @ t) = c # squeeze p c t"
  using assms by (cases r) (auto simp: list_all_iff)

lemma rstrip_head: "dropWhile py_isspace t = t \<Longrightarrow> dropWhile py_isspace (py_rstrip t) = py_rstrip t"
  by (metis dropWhile_rev_dropWhile py_rstrip_def)

lemma words_join_rstrip:
  "dropWhile py_isspace s = s \<Longrightarrow> py_join [dash] (py_words s) = squeeze py_isspace dash (py_rstrip s)"
proof (induction "length s" arbitrary: s rule: less_induct)
  case less
  show ?case
  proof (cases s)
    case (Cons x xs)
    with less.prems have x: "\<not> py_isspace x" by (metis hd_dropWhile_not)
    define w where "w = x # takeWhile (\<lambda>c. \<not> py_isspace c) xs"
    define rest where "rest = dropWhile (\<lambda>c. \<not> py_isspace c) xs"
    define t where "t = dropWhile py_isspace rest"
    have s: "s = w @ rest" using Cons by (simp add: w_def rest_def)
    have w: "list_all (\<lambda>c. \<not> py_isspace c) w" using x takeWhile_none by (simp add: w_def)
    have words: "py_words s = w # py_words t" using Cons x by (simp add: words_drop w_def rest_def t_def)
    have idem: "dropWhile py_isspace t = t" by (simp add: t_def dropWhile_idem)
    show ?thesis
    proof (cases "t = []")
      case True
      then have "py_rstrip rest = []" by (simp only: rstrip_Nil t_def)
      then have "py_rstrip s = w" unfolding s by (simp only: rstrip_spaces rstrip_word[OF w])
      then show ?thesis using words True squeeze_append[OF w, of dash "[]"] by simp
    next
      case False
      have "length t \<le> length rest" "length rest \<le> length xs" unfolding t_def rest_def
        by (rule length_dropWhile_le)+
      then have "length t < length s" using Cons by simp
      then have IH: "py_join [dash] (py_words t) = squeeze py_isspace dash (py_rstrip t)"
        using less.hyps idem by simp
      have nt: "py_rstrip t \<noteq> []" using False idem by (simp add: rstrip_Nil)
      obtain r where run: "rest = r @ t" "list_all py_isspace r" "r \<noteq> []"
        using spaces_first[of py_isspace xs] False by (auto simp: rest_def t_def)
      have "py_rstrip s = w @ r @ py_rstrip t"
        using rstrip_append[OF nt, of "w @ r"] s run(1) by simp
      then have "squeeze py_isspace dash (py_rstrip s) = w @ dash # squeeze py_isspace dash (py_rstrip t)"
        by (simp only: squeeze_append[OF w] squeeze_run[OF run(2,3) rstrip_head[OF idem]])
      moreover have "py_words t \<noteq> []" using False idem by (simp add: words_Nil)
      ultimately show ?thesis using words IH by (cases "py_words t") simp_all
    qed
  qed (simp add: py_rstrip_def)
qed

lemma words_join: "py_join [dash] (py_words s) = squeeze py_isspace dash (py_strip s)"
  using words_join_rstrip[of "dropWhile py_isspace s"]
  by (simp add: words_drop dropWhile_idem py_strip_def py_rstrip_def)

text \<open>Stripping the separators before or after the runs of them became dashes.\<close>

lemma squeeze_snoc:
  "squeeze p c (s @ [x]) =
     (if p x then (if s \<noteq> [] \<and> p (last s) then squeeze p c s else squeeze p c s @ [c]) else squeeze p c s @ [x])"
proof (induction "length s" arbitrary: s rule: less_induct)
  case less
  show ?case
  proof (cases s)
    case (Cons y ys)
    show ?thesis
    proof (cases "p y")
      case True
      show ?thesis
      proof (cases "dropWhile p ys")
        case Nil
        then have "list_all p ys" by (simp add: list_all_iff)
        then have "p (last (y # ys))" using True by (auto simp: list_all_iff)
        moreover have "dropWhile p (ys @ [x]) = dropWhile p [x]"
          using Nil by (simp add: dropWhile_append2)
        moreover have "squeeze p c (dropWhile p ys) = []" by (simp only: Nil squeeze.simps)
        ultimately show ?thesis using Cons True by simp
      next
        case (Cons z zs)
        then have "\<not> (\<forall>w \<in> set ys. p w)" by (metis dropWhile_eq_Nil_conv list.distinct(1))
        then have drop: "dropWhile p (ys @ [x]) = (z # zs) @ [x]" using Cons by (simp add: dropWhile_append)
        have "length (z # zs) \<le> length ys" using Cons length_dropWhile_le[of p ys] by simp
        with less[of "z # zs"] \<open>s = y # ys\<close> have
          "squeeze p c ((z # zs) @ [x]) = (if p x then (if p (last (z # zs)) then squeeze p c (z # zs)
             else squeeze p c (z # zs) @ [c]) else squeeze p c (z # zs) @ [x])" by simp
        moreover have "last ys = last (z # zs)" "ys \<noteq> []"
          using Cons by (metis last_appendR list.distinct(1) takeWhile_dropWhile_id, auto)
        ultimately show ?thesis using \<open>s = y # ys\<close> True drop Cons by simp
      qed
    next
      case False
      with less[of ys] Cons show ?thesis by auto
    qed
  qed simp
qed

lemma squeeze_rev: "squeeze p c (rev s) = rev (squeeze p c s)"
proof (induction "length s" arbitrary: s rule: less_induct)
  case less
  show ?case
  proof (cases s)
    case (Cons y ys)
    show ?thesis
    proof (cases "p y")
      case True
      have "squeeze p c (rev ys) = rev (squeeze p c ys)" using less[of ys] Cons by simp
      then show ?thesis using Cons True squeeze_snoc[of p c "rev ys" y] by (cases ys) (auto simp: last_rev)
    qed (use less[of ys] Cons in \<open>simp add: squeeze_snoc\<close>)
  qed simp
qed

lemma strip_squeeze:
  assumes "p c"
  shows "strip_of p (squeeze (\<lambda>x. p x \<or> q x) c s) = squeeze (\<lambda>x. p x \<or> q x) c (strip_of (\<lambda>x. p x \<or> q x) s)"
proof -
  let ?r = "\<lambda>x. p x \<or> q x"
  have drop: "dropWhile p (squeeze ?r c t) = squeeze ?r c (dropWhile ?r t)" for t
    using drop_squeeze[where p = p and c = c and q = ?r, OF assms] by (simp add: disj_left_commute disj_comms)
  show ?thesis unfolding strip_of_def drop by (simp only: drop squeeze_rev[symmetric])
qed

lemma strip_of_weaker:
  assumes "\<And>x. p x \<Longrightarrow> q x"
  shows "strip_of q (strip_of p s) = strip_of q s"
proof -
  have swap: "dropWhile q (rev (dropWhile p (rev u))) = rev (dropWhile p (rev (dropWhile q u)))" for u
    by (induction u rule: rev_induct) (use assms in \<open>auto simp: dropWhile_append iffD2[OF dropWhile_eq_Nil_conv]\<close>)
  have weaker: "dropWhile q (dropWhile p t) = dropWhile q t" for t
    by (induction t) (use assms in auto)
  show ?thesis by (simp add: strip_of_def swap weaker)
qed

lemma plain_lower: "plain_spaces s \<Longrightarrow> plain_spaces (py_lower s)"
proof -
  have "py_isspace (lower_char c) \<Longrightarrow> lower_char c = c" for c
    by (auto simp: py_isspace_def lower_char_def Let_def)
  then show "plain_spaces s \<Longrightarrow> plain_spaces (py_lower s)"
    unfolding plain_spaces_def py_lower_def list_all_iff by (metis imageE set_map)
qed

lemma set_py_strip: "set (py_strip s) \<subseteq> set s"
  by (auto simp: py_strip_def dest!: set_dropWhileD)

lemma plain_brackets:
  assumes "plain_spaces text"
  shows "plain_spaces (slug_brackets text)"
proof -
  have "plain_spaces (py_strip text)" using assms set_py_strip by (fastforce simp: plain_spaces_def list_all_iff)
  then show ?thesis using plain_lower by (auto simp: slug_brackets_def plain_spaces_def list_all_iff)
qed

lemma slugs_agree:
  assumes "plain_spaces text"
  shows "gate_slugify_heading text = slugify_heading text"
proof -
  have "py_isspace c = (c = CHR '' '')" if "c \<in> set (slug_brackets text)" for c
    using plain_brackets[OF assms] that by (auto simp: plain_spaces_def list_all_iff py_isspace_def Let_def)
  then have words: "filter (\<lambda>c. py_isalnum c \<or> c = CHR '' '' \<or> c = dash \<or> c = CHR ''_'') (slug_brackets text) =
      filter (\<lambda>c. py_isalnum c \<or> c = CHR ''_'' \<or> py_isspace c \<or> c = dash) (slug_brackets text)"
    by (intro filter_cong refl) auto
  have strip: "strip_of (\<lambda>c. c = dash) (squeeze (\<lambda>c. c = dash) dash (squeeze py_isspace dash (py_strip s))) =
      strip_of (\<lambda>c. c = dash) (squeeze (\<lambda>c. c = dash) dash (squeeze py_isspace dash s))" for s
    by (simp add: squeeze_squeeze strip_squeeze strip_of_weaker[of py_isspace] flip: strip_of_def[of py_isspace, folded py_strip_def])
  show ?thesis
    by (simp add: gate_slugify_heading_def slugify_heading_def Let_def words single_dashes_squeeze words_join strip)
qed

subsection \<open>The entry of a finalised run\<close>

definition ordered_unique :: "string list \<Rightarrow> string list" where
  "ordered_unique values = dedupe_from {} values"

definition newline :: string where "newline = [CHR 0x0A]"

text \<open>The entry as Markdown, with the anchor of its heading.\<close>

definition log_heading :: "string \<Rightarrow> string \<Rightarrow> string \<Rightarrow> string" where
  "log_heading local_ts run_id dcn =
     ''['' @ local_ts @ ''] improve | Finalize mechanism run '' @ run_id @ '' ('' @ dcn @ '')''"

definition build_log_entry_markdown ::
  "string \<Rightarrow> string \<Rightarrow> string \<Rightarrow> string list \<Rightarrow> string \<Rightarrow> string \<Rightarrow> string \<Rightarrow> string \<times> string" where
  "build_log_entry_markdown run_id dcn summary artifacts promotion_rel ledger_rel local_ts =
     (let heading = log_heading local_ts run_id dcn;
          listed = ordered_unique (promotion_rel # ledger_rel # artifacts);
          lines = map (\<lambda>a. ''- `'' @ a @ ''`'') listed
      in (''## '' @ heading @ newline @ newline @ ''### Summary'' @ newline @ summary @ newline @ newline @
          ''### Artifacts'' @ newline @ py_join newline lines @ newline @ newline @
          ''### Consequence'' @ newline @ ''- Decision: `'' @ dcn @ ''`'' @ newline @
          ''- Promotion report log status is now recorded.'' @ newline @
          ''- This run is available as historical input for mechanism review and mutation proposal.'' @ newline,
          slugify_heading heading))"

definition log_text_with_appended_entry :: "string \<Rightarrow> string \<Rightarrow> string" where
  "log_text_with_appended_entry existing entry =
     (if py_rstrip existing \<noteq> []
      then py_rstrip existing @ newline @ ''---'' @ newline @ newline @ py_strip entry @ newline
      else py_strip entry @ newline)"

definition entry_ref_of :: "string \<Rightarrow> string \<Rightarrow> string" where
  "entry_ref_of page anchor = page @ ''#'' @ anchor"

text \<open>
  Whether a text has a heading with an anchor, in the words of the finaliser and of the planning gate;
  \<open>text.split("#", 1)\<close>.
\<close>

definition has_heading :: "(string \<Rightarrow> string) \<Rightarrow> string \<Rightarrow> string \<Rightarrow> bool" where
  "has_heading slug text anchor = list_ex (\<lambda>line. py_startswith line ''#'' \<and>
     slug (py_strip (lstrip_of (\<lambda>c. c = CHR ''#'' \<or> c = CHR '' '') line)) = anchor) (py_splitlines text)"

definition split_anchor :: "string \<Rightarrow> string \<times> string" where
  "split_anchor ref = (takeWhile (\<lambda>c. c \<noteq> CHR ''#'') ref, drop 1 (dropWhile (\<lambda>c. c \<noteq> CHR ''#'') ref))"

lemma splitlines_break: "line_break c \<Longrightarrow> py_splitlines (c # s) = [] # py_splitlines s"
  by simp

text \<open>Translating the newlines of a text adds or removes empty lines only.\<close>

definition same_lines :: "string list \<Rightarrow> string list \<Rightarrow> bool" where
  "same_lines xs ys \<longleftrightarrow> take 1 xs = take 1 ys \<and> set xs - {[]} = set ys - {[]}"

lemma same_lines_break: "set xs - {[]} = set ys - {[]} \<Longrightarrow> same_lines ([] # xs) ([] # ys)"
  by (auto simp: same_lines_def)

lemma same_lines_char:
  assumes "\<not> line_break c" and "same_lines (py_splitlines s) (py_splitlines t)"
    and "set (tl (py_splitlines s)) - {[]} = set (tl (py_splitlines t)) - {[]}"
  shows "same_lines (py_splitlines (c # s)) (py_splitlines (c # t))"
  using assms by (cases "py_splitlines s"; cases "py_splitlines t") (auto simp: same_lines_def)

lemma splitlines_newlines:
  "same_lines (py_splitlines (universal_newlines s)) (py_splitlines s) \<and>
     set (tl (py_splitlines (universal_newlines s))) - {[]} = set (tl (py_splitlines s)) - {[]}"
proof (induction s rule: universal_newlines.induct)
  case (1 c d s)
  have breaks: "line_break (CHR 0x0D)" "line_break (CHR 0x0A)" by (simp_all add: line_break_def)
  show ?case
  proof (cases "c = CHR 0x0D \<and> d = CHR 0x0A")
    case True
    note ih = "1.IH"(1) [OF True]
    have un: "universal_newlines (c # d # s) = CHR 0x0A # universal_newlines s" using True by simp
    have lines: "py_splitlines (c # d # s) = [] # [] # py_splitlines s" using True breaks by simp
    have tr: "py_splitlines (CHR 0x0A # universal_newlines s) = [] # py_splitlines (universal_newlines s)"
      using breaks by simp
    show ?thesis unfolding un lines tr using ih by (auto simp: same_lines_def)
  next
    case False
    let ?c = "if c = CHR 0x0D then CHR 0x0A else c"
    note ih = "1.IH"(2) [OF False]
    have un: "universal_newlines (c # d # s) = ?c # universal_newlines (d # s)" using False by auto
    show ?thesis
    proof (cases "line_break c")
      case True
      then have "line_break ?c" using breaks by simp
      then have tr: "py_splitlines (?c # universal_newlines (d # s)) = [] # py_splitlines (universal_newlines (d # s))"
        by (rule splitlines_break)
      have lines: "py_splitlines (c # d # s) = [] # py_splitlines (d # s)" using True by (rule splitlines_break)
      have "set (py_splitlines (universal_newlines (d # s))) - {[]} = set (py_splitlines (d # s)) - {[]}"
        using ih by (simp add: same_lines_def)
      then show ?thesis unfolding un tr lines by (simp add: same_lines_break)
    next
      case nb: False
      then have c: "?c = c" using breaks by auto
      have tl: "set (tl (py_splitlines (c # t))) = set (tl (py_splitlines t))" for t
        using nb by (cases "py_splitlines t") simp_all
      show ?thesis unfolding un c tl using same_lines_char [OF nb] ih by blast
    qed
  qed
qed (simp_all add: line_break_def same_lines_def)

lemma has_heading_newlines [simp]:
  "has_heading slug (universal_newlines t) anchor = has_heading slug t anchor"
proof -
  have lines: "set (py_splitlines (universal_newlines t)) - {[]} = set (py_splitlines t) - {[]}"
    using splitlines_newlines [of t] by (simp add: same_lines_def)
  have empty: "\<not> py_startswith [] ''#''" by (simp add: py_startswith_def)
  define P where "P line \<longleftrightarrow> py_startswith line ''#'' \<and>
      slug (py_strip (lstrip_of (\<lambda>c. c = CHR ''#'' \<or> c = CHR '' '') line)) = anchor" for line
  have "has_heading slug s anchor \<longleftrightarrow> (\<exists>line \<in> set (py_splitlines s) - {[]}. P line)" for s
    unfolding has_heading_def list_ex_iff P_def using empty by blast
  then show ?thesis by (simp only: lines)
qed

text \<open>A text all of whose headings have plain spaces: the two slugs find the same anchors in it.\<close>

definition plain_headings :: "string \<Rightarrow> bool" where
  "plain_headings text = list_all (\<lambda>line. py_startswith line ''#'' \<longrightarrow> plain_spaces line) (py_splitlines text)"

lemma plain_headings_agree:
  assumes "plain_headings text"
  shows "has_heading gate_slugify_heading text anchor = has_heading slugify_heading text anchor"
proof -
  let ?heading = "\<lambda>line. py_strip (lstrip_of (\<lambda>c. c = CHR ''#'' \<or> c = CHR '' '') line)"
  have "set (?heading line) \<subseteq> set line" for line
  proof -
    have "set (lstrip_of P line) \<subseteq> set line" for P by (auto simp: lstrip_of_def dest: set_dropWhileD)
    with set_py_strip show ?thesis by (rule subset_trans)
  qed
  then have "plain_spaces (?heading line)" if "plain_spaces line" for line
    using that unfolding plain_spaces_def list_all_iff by blast
  then have "gate_slugify_heading (?heading line) = slugify_heading (?heading line)"
    if "line \<in> set (py_splitlines text)" "py_startswith line ''#''" for line
    using assms that slugs_agree unfolding plain_headings_def list_all_iff by blast
  then show ?thesis unfolding has_heading_def list_ex_iff by (intro bex_cong conj_cong refl) (simp only:)
qed

subsection \<open>The appended entry is found\<close>

lemma splitlines_line:
  assumes "list_all (\<lambda>c. \<not> line_break c) line"
  shows "line \<in> set (py_splitlines (a @ newline @ line @ newline @ b))"
    and "line \<in> set (py_splitlines (line @ newline @ b))"
proof -
  have break: "line_break (CHR 0x0A)" by (simp add: line_break_def)
  have first: "py_splitlines (w @ newline @ b) = w # py_splitlines b"
    if "list_all (\<lambda>c. \<not> line_break c) w" for w
    using that break by (induction w) (auto simp: newline_def)
  then show "line \<in> set (py_splitlines (line @ newline @ b))" using assms by simp
  have "\<exists>l ls. py_splitlines (a @ newline @ line @ newline @ b) = l # ls \<and> line \<in> set ls"
    by (induction a) (use break first[OF assms] in \<open>auto simp: newline_def\<close>)
  then show "line \<in> set (py_splitlines (a @ newline @ line @ newline @ b))" by auto
qed

lemma line_break_space: "line_break c \<Longrightarrow> py_isspace c"
  by (auto simp: line_break_def py_isspace_def Let_def)

lemma plain_no_break: "plain_spaces s \<Longrightarrow> list_all (\<lambda>c. \<not> line_break c) s"
proof -
  have "\<not> line_break (CHR '' '')" by (simp add: line_break_def)
  then show "plain_spaces s \<Longrightarrow> list_all (\<lambda>c. \<not> line_break c) s"
    using line_break_space by (auto simp: plain_spaces_def list_all_iff)
qed

lemma plain_append: "plain_spaces (a @ b) \<longleftrightarrow> plain_spaces a \<and> plain_spaces b"
  by (simp add: plain_spaces_def)

lemma strip_entry:
  assumes "\<not> py_isspace x" and "\<not> py_isspace y"
  shows "py_strip (x # s @ y # t) = x # s @ py_rstrip (y # t)"
proof -
  have "py_rstrip (y # t) \<noteq> []" using assms(2) by (simp add: rstrip_Nil)
  then have "py_rstrip ((x # s) @ y # t) = (x # s) @ py_rstrip (y # t)" by (rule rstrip_append)
  then show ?thesis using assms(1) by (simp add: py_strip_def py_rstrip_def)
qed

text \<open>
  Once the entry of a run is appended, the planning gate finds the anchor that the finaliser recorded,
  whatever the log held before.
\<close>

lemma appended_entry_found:
  assumes "plain_spaces local_ts" and "plain_spaces run_id" and "plain_spaces dcn"
    and entry: "build_log_entry_markdown run_id dcn summary artifacts prel lrel local_ts = (entry, anchor)"
  shows "has_heading gate_slugify_heading (log_text_with_appended_entry existing entry) anchor"
    and "has_heading slugify_heading (log_text_with_appended_entry existing entry) anchor"
proof -
  let ?heading = "log_heading local_ts run_id dcn"
  have plain: "plain_spaces ?heading"
    using assms(1-3) by (simp add: log_heading_def plain_append) (simp add: plain_spaces_def py_isspace_def)
  have anchor: "anchor = slugify_heading ?heading"
    using entry by (auto simp: build_log_entry_markdown_def Let_def)
  obtain u where e: "entry = (''## '' @ ?heading) @ newline @ newline @ ''### Summary'' @ u"
    using entry by (auto simp: build_log_entry_markdown_def Let_def)
  define rest where "rest = newline @ py_rstrip (''### Summary'' @ u)"
  have strip: "py_strip entry = (''## '' @ ?heading) @ newline @ rest"
    unfolding e rest_def
    using strip_entry[of "CHR ''#''" "CHR ''#''" "''# '' @ ?heading @ newline @ newline" "''## Summary'' @ u"]
    by (simp add: py_isspace_def)
  have line: "''## '' @ ?heading \<in> set (py_splitlines (log_text_with_appended_entry existing entry))"
  proof -
    have nb: "list_all (\<lambda>c. \<not> line_break c) (''## '' @ ?heading)"
      using plain_no_break[OF plain] by (simp add: line_break_def)
    show ?thesis
      using splitlines_line(2)[OF nb, of "rest @ newline"]
        splitlines_line(1)[OF nb, of "py_rstrip existing @ newline @ ''---'' @ newline" "rest @ newline"]
      by (simp add: log_text_with_appended_entry_def strip)
  qed
  have "lstrip_of (\<lambda>c. c = CHR ''#'' \<or> c = CHR '' '') (''## '' @ ?heading) = ?heading"
    by (simp add: lstrip_of_def log_heading_def)
  moreover have "py_strip ?heading = ?heading"
    by (simp add: py_strip_def log_heading_def py_isspace_def)
  ultimately show "has_heading gate_slugify_heading (log_text_with_appended_entry existing entry) anchor"
    and "has_heading slugify_heading (log_text_with_appended_entry existing entry) anchor"
    using line unfolding has_heading_def list_ex_iff anchor slugs_agree[OF plain, symmetric]
    by (auto simp: py_startswith_def slugs_agree[OF plain] intro!: bexI[OF _ line])
qed

lemma split_entry_ref: "CHR ''#'' \<notin> set page \<Longrightarrow> split_anchor (entry_ref_of page anchor) = (page, anchor)"
  by (auto simp: split_anchor_def entry_ref_of_def takeWhile_append dropWhile_append)

end
