(* ===== verification/PlanningGate.thy ===== *)
theory PlanningGate
  imports RunValidation FileSystem SystemLog
begin

section \<open>The planning gate of a run directory\<close>

text \<open>
  \<open>mechanism/planning_gate_*_runtime.py\<close> and \<open>core/starter_bundle_runtime.py\<close>: the gate reads the
  artifacts of a run directory, validates each against its schema, checks that they agree on the run id
  and on the inputs of the promotion report, classifies the phase of the run and checks what the phase
  requires. The gate only reads, so it is a function of a snapshot of the files. The JSON and YAML
  parsers, the schema validators and the symbolic links of the machine are parameters.
\<close>

subsection \<open>The environment and paths\<close>

text \<open>What reading a path gives: nothing there, an exception of the read, or the text.\<close>

type_synonym disk = "fpath \<Rightarrow> string res option"

definition disk_of :: "world \<Rightarrow> disk" where
  "disk_of w p = (if p = [] then Some (Inl (is_a_directory p))
     else (case node_of w p of
        None \<Rightarrow> None
      | Some DirNode \<Rightarrow> Some (Inl (is_a_directory p))
      | Some (FileNode t) \<Rightarrow> Some (Inr t)))"

text \<open>
  \<open>pe_schema\<close> is \<open>load_schema_with_vault_override\<close> followed by the validator of the schema: the
  messages of the violations.
\<close>

record plan_env =
  pe_vault :: fpath
  pe_resolve :: "fpath \<Rightarrow> fpath"
  pe_link :: "fpath \<Rightarrow> bool"
  pe_json :: "string \<Rightarrow> string + pyval"
  pe_yaml :: "string \<Rightarrow> string + pyval"
  pe_schema :: "string \<Rightarrow> (pyval \<Rightarrow> string list) res"

text \<open>\<open>vault / rel\<close>: an absolute right operand replaces the left one.\<close>

definition path_parts :: "string \<Rightarrow> fpath" where
  "path_parts s = filter (\<lambda>p. p \<noteq> [] \<and> p \<noteq> ''.'') (py_split slash s)"

definition path_join :: "fpath \<Rightarrow> string \<Rightarrow> fpath" where
  "path_join base rel = (if py_startswith rel ''/'' then path_parts rel else base @ path_parts rel)"

definition vault_file :: "plan_env \<Rightarrow> string \<Rightarrow> fpath" where
  "vault_file env rel = pe_resolve env (path_join (pe_vault env) rel)"

definition posix_rel :: "fpath \<Rightarrow> string" where
  "posix_rel p = (if p = [] then ''.'' else py_join ''/'' p)"

text \<open>\<open>stable_report_path\<close> on absolute paths.\<close>

definition path_has_symlink_between :: "plan_env \<Rightarrow> fpath \<Rightarrow> bool" where
  "path_has_symlink_between env p =
     list_ex (pe_link env) (map (\<lambda>n. take n p) [Suc (length (pe_vault env))..<Suc (length p)])"

definition fast_relative_report_path :: "plan_env \<Rightarrow> fpath \<Rightarrow> string option" where
  "fast_relative_report_path env p =
     (if \<not> prefix (pe_vault env) p then None
      else (case normalize_repo_path_text (Some (posix_rel (drop (length (pe_vault env)) p))) of
              None \<Rightarrow> None
            | Some n \<Rightarrow>
                if n = ''..'' \<or> py_startswith n ''../'' \<or> path_has_symlink_between env p then None
                else Some n))"

definition stable_report_path :: "plan_env \<Rightarrow> fpath \<Rightarrow> string" where
  "stable_report_path env p =
     (case fast_relative_report_path env p of
        Some n \<Rightarrow> n
      | None \<Rightarrow>
          (let v = pe_resolve env (pe_vault env); q = pe_resolve env p
           in if prefix v q then posix_rel (drop (length v) q) else unslash_backslash (path_text q)))"

subsection \<open>Starter bundles\<close>

record starter_bundle_def =
  sb_name :: string
  sb_path :: string
  sb_phase :: string
  sb_placeholders :: "(string \<times> string list) list"

definition dict_items :: "pyval \<Rightarrow> pydict res" where
  "dict_items v = (case v of PyDict d \<Rightarrow> Inr d | _ \<Rightarrow> Inl AttributeError)"

definition normalize_path_value :: "pyval \<Rightarrow> string option" where
  "normalize_path_value v =
     (case v of PyNone \<Rightarrow> None | _ \<Rightarrow> normalize_repo_path_text (Some (py_str v)))"

definition placeholder_paths :: "string \<times> pyval \<Rightarrow> (string \<times> string list) res" where
  "placeholder_paths kv =
     bindr (py_iter (snd kv)) (\<lambda>vs. Inr (fst kv, dedupe_from {} (List.map_filter normalize_path_value vs)))"

definition starter_bundle_entry :: "string \<times> pyval \<Rightarrow> starter_bundle_def res" where
  "starter_bundle_entry kv =
     bindr (py_get (snd kv) ''path'' PyNone) (\<lambda>raw_path.
       case normalize_path_value raw_path of
         None \<Rightarrow> Inl (ValueError (''starter_bundles.'' @ fst kv @ ''.path must not be empty''))
       | Some p \<Rightarrow>
           bindr (py_get (snd kv) ''promotion_report_input_placeholders'' (PyDict [])) (\<lambda>raw.
           bindr (dict_items raw) (\<lambda>ph.
           bindr (mapr placeholder_paths ph) (\<lambda>placeholders.
           bindr (py_get (snd kv) ''phase'' (PyStr ''starter'')) (\<lambda>phase.
             Inr \<lparr>sb_name = fst kv, sb_path = p, sb_phase = py_str phase, sb_placeholders = placeholders\<rparr>)))))"

definition starter_bundle_registry :: "pydict \<Rightarrow> starter_bundle_def list res" where
  "starter_bundle_registry policy =
     bindr (dict_items (dget policy ''starter_bundles'' (PyDict []))) (mapr starter_bundle_entry)"

definition starter_bundle :: "pydict \<Rightarrow> string \<Rightarrow> starter_bundle_def res" where
  "starter_bundle policy name =
     bindr (starter_bundle_registry policy) (\<lambda>registry.
       case find (\<lambda>b. sb_name b = name) registry of
         Some b \<Rightarrow> Inr b
       | None \<Rightarrow> Inl (ValueError (''unknown starter bundle: '' @ name)))"

definition starter_bundle_path :: "plan_env \<Rightarrow> pydict \<Rightarrow> string \<Rightarrow> fpath res" where
  "starter_bundle_path env policy name =
     bindr (starter_bundle policy name) (\<lambda>b.
       Inr (if py_startswith (sb_path b) ''/'' then path_parts (sb_path b) else vault_file env (sb_path b)))"

definition starter_bundle_for_artifact_dir :: "pydict \<Rightarrow> string \<Rightarrow> starter_bundle_def option res" where
  "starter_bundle_for_artifact_dir policy dir_report =
     (case normalize_repo_path_text (Some dir_report) of
        None \<Rightarrow> Inr None
      | Some d \<Rightarrow> bindr (starter_bundle_registry policy) (\<lambda>registry. Inr (find (\<lambda>b. sb_path b = d) registry)))"

definition allowed_promotion_input_paths :: "starter_bundle_def option \<Rightarrow> string \<Rightarrow> string \<Rightarrow> string list" where
  "allowed_promotion_input_paths bundle input_name expected =
     (case bundle of
        None \<Rightarrow> [expected]
      | Some b \<Rightarrow> dedupe_from {} (expected # dget (sb_placeholders b) input_name []))"

subsection \<open>Loading and validating artifacts\<close>

definition PLANNING_GATE_REQUIRED_ARTIFACT_SCHEMAS :: "(string \<times> string) list" where
  "PLANNING_GATE_REQUIRED_ARTIFACT_SCHEMAS =
     [(''seed.yaml'', ''ops/schemas/seed.schema.json''),
      (''planning-validation.json'', ''ops/schemas/planning-validation.schema.json''),
      (''run-ledger.json'', ''ops/schemas/run-ledger.schema.json'')]"

definition PLANNING_GATE_OPTIONAL_ARTIFACT_SCHEMAS :: "(string \<times> string) list" where
  "PLANNING_GATE_OPTIONAL_ARTIFACT_SCHEMAS =
     [(''promotion-report.json'', ''ops/schemas/promotion-report.schema.json''),
      (''proposal-snapshot.json'', ''ops/schemas/proposal-snapshot.schema.json''),
      (''improvement-observations.json'', ''ops/schemas/improvement-observations.schema.json''),
      (''changed-files-manifest.json'', ''ops/schemas/changed-files-manifest.schema.json''),
      (''candidate-changed-files-snapshot.json'', ''ops/schemas/candidate-changed-files-snapshot.schema.json''),
      (''shadow-apply-report.json'', ''ops/schemas/shadow-apply-report.schema.json''),
      (''rollback-rehearsal-report.json'', ''ops/schemas/rollback-rehearsal-report.schema.json''),
      (''behavior-delta.json'', ''ops/schemas/behavior-delta.schema.json''),
      (''structural-complexity-budget.json'', ''ops/schemas/structural-complexity-budget-report.schema.json''),
      (''same-session-repair-context.json'', ''ops/schemas/same-session-repair-context.schema.json''),
      (''baseline-mechanism-contract-eval.json'', ''ops/schemas/eval-report.schema.json''),
      (''candidate-mechanism-contract-eval.json'', ''ops/schemas/eval-report.schema.json'')]"

definition COMPLETED_MECHANISM_INPUT_SCHEMAS :: "(string \<times> string) list" where
  "COMPLETED_MECHANISM_INPUT_SCHEMAS =
     [(''baseline_eval_report'', ''ops/schemas/eval-report.schema.json''),
      (''candidate_eval_report'', ''ops/schemas/eval-report.schema.json''),
      (''baseline_lint_report'', ''ops/schemas/lint-report.schema.json''),
      (''candidate_lint_report'', ''ops/schemas/lint-report.schema.json''),
      (''baseline_mechanism_report'', ''ops/schemas/mechanism-assessment-report.schema.json''),
      (''candidate_mechanism_report'', ''ops/schemas/mechanism-assessment-report.schema.json''),
      (''changed_files_manifest'', ''ops/schemas/changed-files-manifest.schema.json'')]"

definition OPTIONAL_COMPLETED_MECHANISM_INPUT_SCHEMAS :: "(string \<times> string) list" where
  "OPTIONAL_COMPLETED_MECHANISM_INPUT_SCHEMAS =
     [(''behavior_delta'', ''ops/schemas/behavior-delta.schema.json''),
      (''baseline_mechanism_contract_eval_report'', ''ops/schemas/eval-report.schema.json''),
      (''candidate_mechanism_contract_eval_report'', ''ops/schemas/eval-report.schema.json'')]"

record artifact_result =
  ar_artifact :: string
  ar_schema :: string
  ar_pass :: bool
  ar_errors :: "string list"
  ar_data :: "pydict option"

definition artifact_result_without_data :: "artifact_result \<Rightarrow> pydict" where
  "artifact_result_without_data r =
     [(''artifact'', PyStr (ar_artifact r)), (''schema'', PyStr (ar_schema r)),
      (''pass'', PyBool (ar_pass r)), (''errors'', py_strs (ar_errors r))]"

definition is_yaml_file :: "fpath \<Rightarrow> bool" where
  "is_yaml_file p = (p \<noteq> [] \<and> py_endswith (last p) ''.yaml'' \<and> last p \<noteq> ''.yaml'')"

definition path_name :: "fpath \<Rightarrow> string" where
  "path_name p = (if p = [] then [] else last p)"

text \<open>\<open>load_artifact\<close>; the left value is the text of its \<open>ArtifactLoadError\<close>.\<close>

definition load_artifact :: "plan_env \<Rightarrow> disk \<Rightarrow> fpath \<Rightarrow> string + pydict" where
  "load_artifact env disk p =
     (case disk p of
        None \<Rightarrow> Inl (''unable to read '' @ path_name p @ '': '' @ os_error_text (no_such_file p))
      | Some (Inl e) \<Rightarrow>
          Inl (''unable to read '' @ path_name p @ '': '' @ (if is_os_error e then os_error_text e else exc_text e))
      | Some (Inr text) \<Rightarrow>
          (case (if is_yaml_file p then pe_yaml env text else pe_json env text) of
             Inl msg \<Rightarrow> Inl (''unable to parse '' @ path_name p @ '': '' @ msg)
           | Inr (PyDict d) \<Rightarrow> Inr d
           | Inr _ \<Rightarrow> Inl (path_name p @ '' root must be an object'')))"

definition load_and_validate_reported_json_artifact ::
  "plan_env \<Rightarrow> disk \<Rightarrow> string \<Rightarrow> string \<Rightarrow> (string + pydict) res" where
  "load_and_validate_reported_json_artifact env disk rel schema_rel =
     (let p = vault_file env rel
      in if disk p = None then Inr (Inl (''missing artifact: '' @ rel))
         else bindr (pe_schema env schema_rel) (\<lambda>schema.
           case load_artifact env disk p of
             Inl msg \<Rightarrow> Inr (Inl (''failed to load artifact '' @ rel @ '': '' @ msg))
           | Inr data \<Rightarrow>
               (case schema (PyDict data) of
                  [] \<Rightarrow> Inr (Inr data)
                | e # es \<Rightarrow> Inr (Inl (''schema validation failed for '' @ rel @ '': '' @ e)))))"

definition validate_artifact ::
  "plan_env \<Rightarrow> disk \<Rightarrow> fpath \<Rightarrow> string \<Rightarrow> string \<Rightarrow> artifact_result res" where
  "validate_artifact env disk dir name schema_rel =
     (let p = dir @ [name];
          result = (\<lambda>ok errs data. \<lparr>ar_artifact = name, ar_schema = schema_rel, ar_pass = ok,
             ar_errors = errs, ar_data = data\<rparr>)
      in if disk p = None then Inr (result False [''missing artifact: '' @ name] None)
         else bindr (pe_schema env schema_rel) (\<lambda>schema.
           case load_artifact env disk p of
             Inl msg \<Rightarrow> Inr (result False [''failed to load artifact: '' @ msg] None)
           | Inr data \<Rightarrow>
               (let errors = schema (PyDict data) in Inr (result (errors = []) errors (Some data)))))"

definition validate_optional_artifact ::
  "plan_env \<Rightarrow> disk \<Rightarrow> fpath \<Rightarrow> string \<Rightarrow> string \<Rightarrow> artifact_result option res" where
  "validate_optional_artifact env disk dir name schema_rel =
     (if disk (dir @ [name]) = None then Inr None
      else bindr (validate_artifact env disk dir name schema_rel) (\<lambda>r. Inr (Some r)))"

text \<open>The results in order, and the data of the artifacts that pass.\<close>

definition required_results :: "plan_env \<Rightarrow> disk \<Rightarrow> fpath \<Rightarrow> artifact_result list res" where
  "required_results env disk dir =
     mapr (\<lambda>(name, schema). validate_artifact env disk dir name schema) PLANNING_GATE_REQUIRED_ARTIFACT_SCHEMAS"

definition optional_results :: "plan_env \<Rightarrow> disk \<Rightarrow> fpath \<Rightarrow> artifact_result list res" where
  "optional_results env disk dir =
     bindr (mapr (\<lambda>(name, schema). validate_optional_artifact env disk dir name schema)
              PLANNING_GATE_OPTIONAL_ARTIFACT_SCHEMAS)
       (\<lambda>rs. Inr (List.map_filter (\<lambda>r. r) rs))"

definition passed_data :: "artifact_result list \<Rightarrow> (string \<times> pydict) list" where
  "passed_data rs = List.map_filter (\<lambda>r.
     if ar_pass r then map_option (Pair (ar_artifact r)) (ar_data r) else None) rs"

definition load_validated_artifacts ::
  "plan_env \<Rightarrow> disk \<Rightarrow> fpath \<Rightarrow> (pydict list \<times> (string \<times> pydict) list) res" where
  "load_validated_artifacts env disk dir =
     bindr (required_results env disk dir) (\<lambda>required.
     bindr (optional_results env disk dir) (\<lambda>optional.
       Inr (map artifact_result_without_data (required @ optional), passed_data (required @ optional))))"

subsection \<open>The phase of a run\<close>

record phase_state =
  ps_dir_report :: string
  ps_phase :: string
  ps_promotion_report :: pydict
  ps_run_ledger :: pydict
  ps_planning_validation :: "pydict option"

definition classify_mechanism_phase :: "starter_bundle_def option \<Rightarrow> pydict \<Rightarrow> pydict \<Rightarrow> string" where
  "classify_mechanism_phase bundle promotion ledger =
     (case bundle of
        Some b \<Rightarrow> sb_phase b
      | None \<Rightarrow>
          (if dget promotion ''artifact_class'' PyNone \<noteq> PyStr ''system_mechanism'' then ''starter''
           else if dget ledger ''status'' PyNone = PyStr ''complete'' then ''mechanism_finalized''
           else if dget ledger ''status'' PyNone = PyStr ''ready'' then ''mechanism_evaluated''
           else ''mechanism_in_progress''))"

definition mechanism_phase_state ::
  "string \<Rightarrow> (string \<times> pydict) list \<Rightarrow> starter_bundle_def option \<Rightarrow> phase_state option" where
  "mechanism_phase_state dir_report loaded bundle =
     (case (map_of loaded ''promotion-report.json'', map_of loaded ''run-ledger.json'') of
        (Some promotion, Some ledger) \<Rightarrow>
          Some \<lparr>ps_dir_report = dir_report, ps_phase = classify_mechanism_phase bundle promotion ledger,
                ps_promotion_report = promotion, ps_run_ledger = ledger,
                ps_planning_validation = map_of loaded ''planning-validation.json''\<rparr>
      | _ \<Rightarrow> None)"

definition mechanism_phase ::
  "string \<Rightarrow> (string \<times> pydict) list \<Rightarrow> starter_bundle_def option \<Rightarrow> string" where
  "mechanism_phase dir_report loaded bundle =
     (case mechanism_phase_state dir_report loaded bundle of Some st \<Rightarrow> ps_phase st | None \<Rightarrow> ''starter'')"

definition placeholder_mechanism_bundle :: "pydict \<Rightarrow> artifact_bundle res" where
  "placeholder_mechanism_bundle ledger =
     normalize_mechanism_artifact_bundle
       (map (\<lambda>f. (f, PyDict [])) (butlast BUNDLE_FIELDS) @ [(''run_ledger_report'', PyDict ledger)])"

subsection \<open>The inputs of a completed run\<close>

record input_loads =
  local_input_failures :: "string list"
  input_validation_failures :: "string list"
  loaded_input_artifacts :: "(string \<times> pydict) list"

record completed_inputs =
  ci_loads :: input_loads
  bundle_for_phase_checks :: artifact_bundle

definition inputs_ready :: "completed_inputs \<Rightarrow> bool" where
  "inputs_ready c = (input_validation_failures (ci_loads c) = [])"

text \<open>One round of the two loops; a required input that is not given is a failure.\<close>

definition input_rel_path :: "pyval \<Rightarrow> string \<Rightarrow> string option" where
  "input_rel_path inputs key =
     (case inputs of
        PyDict d \<Rightarrow> (case dget d key PyNone of PyStr s \<Rightarrow> if py_strip s = [] then None else Some s | _ \<Rightarrow> None)
      | _ \<Rightarrow> None)"

definition load_input ::
  "plan_env \<Rightarrow> disk \<Rightarrow> string \<Rightarrow> pyval \<Rightarrow> input_loads \<Rightarrow> bool \<times> string \<times> string \<Rightarrow> input_loads res" where
  "load_input env disk dir_report inputs st spec =
     (let key = fst (snd spec)
      in case input_rel_path inputs key of
           None \<Rightarrow> Inr (if fst spec
             then st\<lparr>input_validation_failures := input_validation_failures st @ [''missing inputs.'' @ key]\<rparr>
             else st)
         | Some rel \<Rightarrow>
             (let st1 = (if py_startswith rel (dir_report @ ''/'') then st
                else st\<lparr>local_input_failures := local_input_failures st @ [key @ ''='' @ rel]\<rparr>)
              in bindr (load_and_validate_reported_json_artifact env disk rel (snd (snd spec))) (\<lambda>loaded.
                   Inr (case loaded of
                          Inl detail \<Rightarrow>
                            st1\<lparr>input_validation_failures := input_validation_failures st1 @ [detail]\<rparr>
                        | Inr data \<Rightarrow>
                            st1\<lparr>loaded_input_artifacts := dset key data (loaded_input_artifacts st1)\<rparr>))))"

definition INPUT_SPECS :: "(bool \<times> string \<times> string) list" where
  "INPUT_SPECS = map (Pair True) COMPLETED_MECHANISM_INPUT_SCHEMAS @
     map (Pair False) OPTIONAL_COMPLETED_MECHANISM_INPUT_SCHEMAS"

definition no_loads :: input_loads where
  "no_loads = \<lparr>local_input_failures = [], input_validation_failures = [], loaded_input_artifacts = []\<rparr>"

definition phase_bundle :: "(string \<times> pydict) list \<Rightarrow> pydict \<Rightarrow> artifact_bundle res" where
  "phase_bundle loaded ledger =
     bindr (ditem loaded ''changed_files_manifest'') (\<lambda>manifest.
       normalize_mechanism_artifact_bundle
         (dset ''run_ledger_report'' (PyDict ledger)
           (dset ''changed_files_manifest_report'' (PyDict manifest)
             (map (\<lambda>(k, d). (k, PyDict d)) loaded))))"

definition load_completed_mechanism_inputs :: "plan_env \<Rightarrow> disk \<Rightarrow> phase_state \<Rightarrow> completed_inputs res" where
  "load_completed_mechanism_inputs env disk st =
     bindr (foldr_res (load_input env disk (ps_dir_report st)
              (dget (ps_promotion_report st) ''inputs'' (PyDict []))) no_loads INPUT_SPECS) (\<lambda>loads.
     bindr (if input_validation_failures loads = []
            then phase_bundle (loaded_input_artifacts loads) (ps_run_ledger st)
            else placeholder_mechanism_bundle (ps_run_ledger st)) (\<lambda>bundle.
       Inr \<lparr>ci_loads = loads, bundle_for_phase_checks = bundle\<rparr>))"

subsection \<open>Checks of a phase\<close>

definition validation_check :: "string \<Rightarrow> bool \<Rightarrow> pyval \<Rightarrow> pydict" where
  "validation_check check passed detail =
     [(''check'', PyStr check), (''pass'', PyBool passed), (''detail'', detail)]"

definition completed_mechanism_phase_checks :: "phase_state \<Rightarrow> completed_inputs \<Rightarrow> pydict list res" where
  "completed_mechanism_phase_checks st ci =
     (let loads = ci_loads ci; bundle = bundle_for_phase_checks ci; ready = inputs_ready ci in
      bindr (build_event_sequence_phase_checks bundle (ps_phase st)) (\<lambda>events.
      bindr (build_test_surface_phase_check bundle ready) (\<lambda>surface.
      bindr (build_manifest_alignment_phase_check bundle ready) (\<lambda>alignment.
      bindr (build_changed_files_scope_phase_check bundle ready) (\<lambda>scope.
        Inr (events @
          [validation_check ''mechanism_run_inputs_local'' (local_input_failures loads = [])
             (PyStr (if local_input_failures loads = []
               then ''all baseline/candidate report inputs stay under the same run directory''
               else py_join ''; '' (local_input_failures loads))),
           validation_check ''mechanism_run_inputs_complete'' (input_validation_failures loads = [])
             (PyStr (if input_validation_failures loads = []
               then ''baseline/candidate eval, lint, mechanism, changed-files manifest, and policy-conditioned behavior-delta artifacts are schema-valid''
               else py_join ''; '' (input_validation_failures loads))),
           surface, alignment, scope]))))))"

definition system_log_contains_entry_ref :: "plan_env \<Rightarrow> disk \<Rightarrow> string \<Rightarrow> bool res" where
  "system_log_contains_entry_ref env disk ref =
     (if CHR ''#'' \<notin> set ref then Inr False
      else (case disk (vault_file env (fst (split_anchor ref))) of
              None \<Rightarrow> Inr False
            | Some (Inl e) \<Rightarrow> Inl e
            | Some (Inr text) \<Rightarrow> Inr (has_heading gate_slugify_heading (universal_newlines text)
                (snd (split_anchor ref)))))"

definition log_recorded :: "plan_env \<Rightarrow> disk \<Rightarrow> pyval \<Rightarrow> bool res" where
  "log_recorded env disk entry =
     (case entry of
        PyDict d \<Rightarrow>
          (if dget d ''required'' PyNone = PyBool True
           then (case dget d ''entry_ref'' PyNone of
                   PyStr ref \<Rightarrow>
                     (if dget d ''status'' PyNone = PyStr ''recorded'' \<and> ref \<noteq> []
                      then system_log_contains_entry_ref env disk ref else Inr False)
                 | _ \<Rightarrow> Inr False)
           else if dget d ''required'' PyNone = PyBool False
           then Inr (dget d ''status'' PyNone = PyStr ''not_required'' \<and>
                     \<not> py_truth (dget d ''entry_ref'' PyNone))
           else Inr False)
      | _ \<Rightarrow> Inr False)"

definition FINALIZED_NEXT_ACTION :: string where
  "FINALIZED_NEXT_ACTION =
     ''Use this finalized run as future history input for mechanism_review and mutation_proposal.''"

definition finalized_only_phase_checks :: "plan_env \<Rightarrow> disk \<Rightarrow> phase_state \<Rightarrow> pydict list res" where
  "finalized_only_phase_checks env disk st =
     bindr (log_recorded env disk (dget (ps_promotion_report st) ''log'' (PyDict []))) (\<lambda>recorded.
     bindr (py_iter (dget (ps_run_ledger st) ''events'' (PyList []))) (\<lambda>events.
       let finalized = list_ex (\<lambda>e. is_dict e \<and> dget (the_dict e) ''type'' PyNone = PyStr ''finalized'') events;
           current = (case ps_planning_validation st of
              Some v \<Rightarrow> dget v ''status'' PyNone = PyStr ''PASS'' \<and>
                dget v ''next_action'' PyNone = PyStr FINALIZED_NEXT_ACTION
            | None \<Rightarrow> False)
       in Inr
        [validation_check ''mechanism_run_log_recorded'' recorded
           (PyStr (if recorded then ''promotion log state is finalized and consistent with current log policy''
             else ''complete mechanism run requires either a recorded log entry with a resolvable entry_ref or log.status=not_required when log.required=false'')),
         validation_check ''mechanism_run_finalized_event_present'' finalized
           (PyStr (if finalized then ''run-ledger includes a finalized event''
             else ''complete mechanism run should append a finalized event to run-ledger.json'')),
         validation_check ''mechanism_run_planning_validation_current'' current
           (PyStr (if current then ''planning-validation.json reflects the finalized mechanism run state''
             else ''complete mechanism run should refresh planning-validation.json to the finalized PASS snapshot''))]))"

definition mechanism_phase_checks :: "plan_env \<Rightarrow> disk \<Rightarrow> phase_state option \<Rightarrow> pydict list res" where
  "mechanism_phase_checks env disk phase =
     (case phase of
        None \<Rightarrow> Inr []
      | Some st \<Rightarrow>
          (if ps_phase st \<noteq> ''mechanism_evaluated'' \<and> ps_phase st \<noteq> ''mechanism_finalized'' then Inr []
           else bindr (load_completed_mechanism_inputs env disk st) (\<lambda>ci.
                bindr (completed_mechanism_phase_checks st ci) (\<lambda>checks.
                  if ps_phase st = ''mechanism_finalized''
                  then bindr (finalized_only_phase_checks env disk st) (\<lambda>more. Inr (checks @ more))
                  else Inr checks))))"

subsection \<open>Checks across the artifacts and the report\<close>

text \<open>The values of a set of hashable objects: more than one, or an unhashable one.\<close>

definition hashable :: "pyval \<Rightarrow> bool" where
  "hashable v = (\<not> is_dict v \<and> \<not> is_list v)"

definition several_values :: "pyval list \<Rightarrow> bool" where
  "several_values vs = (case vs of [] \<Rightarrow> False | v # rest \<Rightarrow> \<not> list_all (py_eq_scalar v) rest)"

definition artifact_run_ids :: "(string \<times> pydict) list \<Rightarrow> pydict" where
  "artifact_run_ids loaded =
     map (\<lambda>(name, d). (name, dget d ''run_id'' PyNone)) (filter (\<lambda>(name, d). dhas d ''run_id'') loaded)"

definition run_id_alignment_checks :: "(string \<times> pydict) list \<Rightarrow> (pydict list \<times> pydict) res" where
  "run_id_alignment_checks loaded =
     (let ids = artifact_run_ids loaded
      in if \<not> list_all hashable (map snd ids) then Inl TypeError
         else Inr ([validation_check ''run_id_alignment''
                (\<not> several_values (map snd ids) \<and>
                 length PLANNING_GATE_REQUIRED_ARTIFACT_SCHEMAS \<le> length ids) (PyDict ids)], ids))"

definition alignment_check ::
  "string \<Rightarrow> starter_bundle_def option \<Rightarrow> pydict \<Rightarrow> string \<times> string \<times> string \<Rightarrow> pydict" where
  "alignment_check dir_report bundle inputs spec =
     (case spec of (input_key, check_name, artifact_name) \<Rightarrow>
        let expected = dir_report @ ''/'' @ artifact_name;
            actual = (case dget inputs input_key (PyStr '''') of PyStr s \<Rightarrow> s | _ \<Rightarrow> '''');
            allowed = allowed_promotion_input_paths bundle input_key expected
        in validation_check check_name (actual \<in> set allowed)
             (PyDict [(''expected'', PyStr expected), (''actual'', PyStr actual),
                      (''allowed'', py_strs (py_sorted_set allowed))]))"

definition mechanism_promotion_input_alignment_checks ::
  "string \<Rightarrow> (string \<times> pydict) list \<Rightarrow> starter_bundle_def option \<Rightarrow> pydict list" where
  "mechanism_promotion_input_alignment_checks dir_report loaded bundle =
     (case map_of loaded ''promotion-report.json'' of
        None \<Rightarrow> []
      | Some report \<Rightarrow>
          (if dget report ''artifact_class'' PyNone \<noteq> PyStr ''system_mechanism'' then []
           else (let inputs = (case dget report ''inputs'' PyNone of PyDict d \<Rightarrow> d | _ \<Rightarrow> []);
                     specs =
                       [(''run_ledger'', ''mechanism_promotion_run_ledger_alignment'', ''run-ledger.json''),
                        (''changed_files_manifest'', ''mechanism_promotion_changed_files_manifest_alignment'',
                         ''changed-files-manifest.json'')] @
                       (if dhas inputs ''behavior_delta'' \<or> dhas loaded ''behavior-delta.json''
                        then [(''behavior_delta'', ''mechanism_promotion_behavior_delta_alignment'',
                               ''behavior-delta.json'')]
                        else [])
                 in map (alignment_check dir_report bundle inputs) specs)))"

definition item_pass :: "pydict \<Rightarrow> bool" where
  "item_pass item = py_truth (dget item ''pass'' PyNone)"

definition build_planning_validation_report ::
  "string \<Rightarrow> string \<Rightarrow> string \<Rightarrow> pydict list \<Rightarrow> pydict list \<Rightarrow> pydict list \<Rightarrow> pydict" where
  "build_planning_validation_report dir_report generated_at phase artifacts cross phase_checks =
     (let ok = list_all item_pass artifacts \<and> list_all item_pass cross \<and> list_all item_pass phase_checks
      in [(''artifact_dir'', PyStr dir_report), (''generated_at'', PyStr generated_at),
          (''phase'', PyStr phase), (''status'', PyStr (if ok then ''pass'' else ''fail'')),
          (''artifacts'', PyList (map PyDict artifacts)), (''cross_checks'', PyList (map PyDict cross)),
          (''phase_checks'', PyList (map PyDict phase_checks))])"

text \<open>The event of \<open>append_planning_validation_event\<close>; the event log adds the clock and the duration.\<close>

record planning_event =
  pv_phase :: string
  pv_decision :: string
  pv_artifact_path :: string
  pv_run_id :: string
  pv_policy_version :: pyval

definition planning_validation_event ::
  "string \<Rightarrow> string \<Rightarrow> string \<Rightarrow> pydict \<Rightarrow> pyval \<Rightarrow> planning_event option" where
  "planning_validation_event phase verdict dir_report run_ids version =
     (if \<not> py_startswith dir_report ''runs/'' then None
      else (let ids = remdups (filter (\<lambda>s. s \<noteq> []) (map py_strip (map the_str (filter is_str (map snd run_ids)))))
            in Some \<lparr>pv_phase = phase, pv_decision = verdict, pv_artifact_path = dir_report,
                     pv_run_id = (case ids of [i] \<Rightarrow> i | _ \<Rightarrow> ''''), pv_policy_version = version\<rparr>))"

definition validate_run_dir ::
  "plan_env \<Rightarrow> disk \<Rightarrow> string \<Rightarrow> pydict \<Rightarrow> fpath \<Rightarrow> (pydict \<times> planning_event option) res" where
  "validate_run_dir env disk now policy dir =
     (let dir_report = stable_report_path env dir in
      bindr (starter_bundle_for_artifact_dir policy dir_report) (\<lambda>bundle.
      bindr (load_validated_artifacts env disk dir) (\<lambda>(artifacts, loaded).
      bindr (run_id_alignment_checks loaded) (\<lambda>(id_checks, run_ids).
      let cross = id_checks @ mechanism_promotion_input_alignment_checks dir_report loaded bundle;
          st = mechanism_phase_state dir_report loaded bundle;
          phase = (case st of Some s \<Rightarrow> ps_phase s | None \<Rightarrow> ''starter'')
      in bindr (mechanism_phase_checks env disk st) (\<lambda>checks.
           let report = build_planning_validation_report dir_report now phase artifacts cross checks
           in Inr (report,
                (if bundle = None
                 then planning_validation_event phase (the_str (dget report ''status'' PyNone)) dir_report
                        run_ids (dget policy ''version'' PyNone)
                 else None)))))))"

subsection \<open>Accepted artifacts\<close>

text \<open>An artifact that is there, loads to a document and satisfies its schema.\<close>

definition accepted :: "plan_env \<Rightarrow> disk \<Rightarrow> fpath \<Rightarrow> string \<Rightarrow> pydict \<Rightarrow> bool" where
  "accepted env disk p schema_rel d \<longleftrightarrow> disk p \<noteq> None \<and> load_artifact env disk p = Inr d \<and>
     (\<exists>schema. pe_schema env schema_rel = Inr schema \<and> schema (PyDict d) = [])"

definition document :: "plan_env \<Rightarrow> disk \<Rightarrow> fpath \<Rightarrow> pydict" where
  "document env disk p = (case load_artifact env disk p of Inr d \<Rightarrow> d | Inl _ \<Rightarrow> [])"

definition documents :: "plan_env \<Rightarrow> disk \<Rightarrow> fpath \<Rightarrow> (string \<times> string) list \<Rightarrow> (string \<times> pydict) list" where
  "documents env disk dir specs = map (\<lambda>(name, s). (name, document env disk (dir @ [name]))) specs"

definition present_specs :: "disk \<Rightarrow> fpath \<Rightarrow> (string \<times> string) list \<Rightarrow> (string \<times> string) list" where
  "present_specs disk dir specs = filter (\<lambda>(name, s). disk (dir @ [name]) \<noteq> None) specs"

definition gate_specs :: "disk \<Rightarrow> fpath \<Rightarrow> (string \<times> string) list" where
  "gate_specs disk dir = PLANNING_GATE_REQUIRED_ARTIFACT_SCHEMAS @
     present_specs disk dir PLANNING_GATE_OPTIONAL_ARTIFACT_SCHEMAS"

definition all_accepted :: "plan_env \<Rightarrow> disk \<Rightarrow> fpath \<Rightarrow> (string \<times> string) list \<Rightarrow> bool" where
  "all_accepted env disk dir specs \<longleftrightarrow>
     (\<forall>(name, s) \<in> set specs. accepted env disk (dir @ [name]) s (document env disk (dir @ [name])))"

lemma accepted_document: "accepted env disk p s d \<Longrightarrow> d = document env disk p"
  by (simp add: accepted_def document_def)

definition pass_result :: "plan_env \<Rightarrow> disk \<Rightarrow> fpath \<Rightarrow> string \<Rightarrow> string \<Rightarrow> artifact_result" where
  "pass_result env disk dir name s = \<lparr>ar_artifact = name, ar_schema = s, ar_pass = True, ar_errors = [],
     ar_data = Some (document env disk (dir @ [name]))\<rparr>"

lemma validate_artifact_pass:
  assumes "validate_artifact env disk dir name s = Inr r" and "ar_pass r"
  shows "accepted env disk (dir @ [name]) s (document env disk (dir @ [name])) \<and>
    r = pass_result env disk dir name s"
  using assms
  by (auto simp: validate_artifact_def accepted_def document_def pass_result_def Let_def bindr_eq_Inr
      split: if_splits sum.splits)

lemma validate_artifact_accepted:
  assumes "accepted env disk (dir @ [name]) s (document env disk (dir @ [name]))"
  shows "validate_artifact env disk dir name s = Inr (pass_result env disk dir name s)"
proof -
  define d where "d = document env disk (dir @ [name])"
  have "load_artifact env disk (dir @ [name]) = Inr d" using assms by (simp add: accepted_def d_def)
  then show ?thesis
    using assms unfolding pass_result_def d_def [symmetric]
    by (auto simp: validate_artifact_def accepted_def Let_def)
qed

lemma pass_result_fields [simp]:
  "ar_pass (pass_result env disk dir name s)" "ar_artifact (pass_result env disk dir name s) = name"
  "ar_data (pass_result env disk dir name s) = Some (document env disk (dir @ [name]))"
  by (simp_all add: pass_result_def)

lemma item_pass_result [simp]: "item_pass (artifact_result_without_data r) = ar_pass r"
  by (simp add: item_pass_def artifact_result_without_data_def dget_def)

lemma required_pass:
  assumes "mapr (\<lambda>(name, s). validate_artifact env disk dir name s) specs = Inr rs" and "list_all ar_pass rs"
  shows "all_accepted env disk dir specs \<and> passed_data rs = documents env disk dir specs"
  using assms
proof (induction specs arbitrary: rs)
  case (Cons spec specs)
  obtain name s where spec: "spec = (name, s)" by (cases spec)
  obtain r rest where r: "validate_artifact env disk dir name s = Inr r"
    and rest: "mapr (\<lambda>(name, s). validate_artifact env disk dir name s) specs = Inr rest" and rs: "rs = r # rest"
    using Cons.prems(1) spec by (auto simp: bindr_eq_Inr)
  then show ?case
    using Cons.IH [OF rest] validate_artifact_pass [OF r] Cons.prems(2) spec
    by (auto simp: all_accepted_def passed_data_def documents_def List.map_filter_simps)
qed (simp add: all_accepted_def passed_data_def documents_def List.map_filter_simps)

lemma optional_pass:
  assumes "mapr (\<lambda>(name, s). validate_optional_artifact env disk dir name s) specs = Inr rs"
    and "list_all ar_pass (List.map_filter (\<lambda>r. r) rs)"
  shows "all_accepted env disk dir (present_specs disk dir specs) \<and>
    passed_data (List.map_filter (\<lambda>r. r) rs) = documents env disk dir (present_specs disk dir specs)"
  using assms
proof (induction specs arbitrary: rs)
  case (Cons spec specs)
  obtain name s where spec: "spec = (name, s)" by (cases spec)
  obtain r rest where r: "validate_optional_artifact env disk dir name s = Inr r"
    and rest: "mapr (\<lambda>(name, s). validate_optional_artifact env disk dir name s) specs = Inr rest"
    and rs: "rs = r # rest"
    using Cons.prems(1) spec by (auto simp: bindr_eq_Inr)
  show ?case
  proof (cases "disk (dir @ [name])")
    case None
    then show ?thesis
      using Cons.IH [OF rest] r Cons.prems(2) spec rs
      by (auto simp: validate_optional_artifact_def present_specs_def List.map_filter_simps)
  next
    case (Some x)
    then obtain a where a: "validate_artifact env disk dir name s = Inr a" and "r = Some a"
      using r by (auto simp: validate_optional_artifact_def bindr_eq_Inr)
    then show ?thesis
      using Cons.IH [OF rest] validate_artifact_pass [OF a] Cons.prems(2) spec rs Some
      by (auto simp: all_accepted_def passed_data_def documents_def present_specs_def List.map_filter_simps)
  qed
qed (simp add: all_accepted_def passed_data_def documents_def present_specs_def List.map_filter_simps)

lemma required_accepted:
  assumes "all_accepted env disk dir specs"
  shows "\<exists>rs. mapr (\<lambda>(name, s). validate_artifact env disk dir name s) specs = Inr rs \<and> list_all ar_pass rs"
  using assms
  by (induction specs) (auto simp: all_accepted_def validate_artifact_accepted)

lemma optional_accepted:
  assumes "all_accepted env disk dir (present_specs disk dir specs)"
  shows "\<exists>rs. mapr (\<lambda>(name, s). validate_optional_artifact env disk dir name s) specs = Inr rs \<and>
    list_all ar_pass (List.map_filter (\<lambda>r. r) rs)"
  using assms
  by (induction specs)
    (auto simp: all_accepted_def present_specs_def validate_optional_artifact_def validate_artifact_accepted
      List.map_filter_simps split: if_splits)

lemma load_validated_pass:
  assumes "load_validated_artifacts env disk dir = Inr (arts, loaded)" and "list_all item_pass arts"
  shows "all_accepted env disk dir (gate_specs disk dir) \<and> loaded = documents env disk dir (gate_specs disk dir)"
proof -
  obtain rs os where r: "mapr (\<lambda>(name, s). validate_artifact env disk dir name s)
        PLANNING_GATE_REQUIRED_ARTIFACT_SCHEMAS = Inr rs"
    and o: "mapr (\<lambda>(name, s). validate_optional_artifact env disk dir name s)
        PLANNING_GATE_OPTIONAL_ARTIFACT_SCHEMAS = Inr os"
    and arts: "arts = map artifact_result_without_data (rs @ List.map_filter (\<lambda>r. r) os)"
    and loaded: "loaded = passed_data (rs @ List.map_filter (\<lambda>r. r) os)"
    using assms(1)
    by (auto simp: load_validated_artifacts_def required_results_def optional_results_def bindr_eq_Inr)
  have "list_all ar_pass rs" "list_all ar_pass (List.map_filter (\<lambda>r. r) os)"
    using assms(2) unfolding arts list_all_iff set_map set_append by (metis UnCI imageI item_pass_result)+
  then show ?thesis
    using required_pass [OF r] optional_pass [OF o] loaded
    by (auto simp: gate_specs_def all_accepted_def documents_def passed_data_def List.map_filter_def)
qed

lemma load_validated_accepted:
  assumes "all_accepted env disk dir (gate_specs disk dir)"
  shows "\<exists>arts. load_validated_artifacts env disk dir = Inr (arts, documents env disk dir (gate_specs disk dir)) \<and>
    list_all item_pass arts"
proof -
  have 1: "all_accepted env disk dir PLANNING_GATE_REQUIRED_ARTIFACT_SCHEMAS"
    and 2: "all_accepted env disk dir (present_specs disk dir PLANNING_GATE_OPTIONAL_ARTIFACT_SCHEMAS)"
    using assms by (auto simp: gate_specs_def all_accepted_def)
  obtain rs os where r: "mapr (\<lambda>(name, s). validate_artifact env disk dir name s)
        PLANNING_GATE_REQUIRED_ARTIFACT_SCHEMAS = Inr rs" "list_all ar_pass rs"
    and o: "mapr (\<lambda>(name, s). validate_optional_artifact env disk dir name s)
        PLANNING_GATE_OPTIONAL_ARTIFACT_SCHEMAS = Inr os" "list_all ar_pass (List.map_filter (\<lambda>r. r) os)"
    using required_accepted [OF 1] optional_accepted [OF 2] by blast
  have "load_validated_artifacts env disk dir =
      Inr (map artifact_result_without_data (rs @ List.map_filter (\<lambda>r. r) os),
           passed_data (rs @ List.map_filter (\<lambda>r. r) os))"
    by (simp add: load_validated_artifacts_def required_results_def optional_results_def r(1) o(1))
  moreover have "list_all item_pass (map artifact_result_without_data (rs @ List.map_filter (\<lambda>r. r) os))"
    using r(2) o(2) by (auto simp: list_all_iff)
  ultimately show ?thesis using load_validated_pass by metis
qed

subsection \<open>A passing report\<close>

definition report_passes :: "pydict \<Rightarrow> string \<Rightarrow> bool" where
  "report_passes report phase \<longleftrightarrow> dget report ''status'' PyNone = PyStr ''pass'' \<and>
     dget report ''phase'' PyNone = PyStr phase"

lemma built_report_passes:
  "report_passes (build_planning_validation_report dir_report now phase arts cross checks) phase' \<longleftrightarrow>
     phase' = phase \<and> list_all item_pass arts \<and> list_all item_pass cross \<and> list_all item_pass checks"
  by (auto simp: report_passes_def build_planning_validation_report_def dget_def)

lemma gate_pass_cases:
  assumes run: "validate_run_dir env disk now policy dir = Inr (report, event)" and ok: "report_passes report phase"
  defines "dir_report \<equiv> stable_report_path env dir" and "docs \<equiv> documents env disk dir (gate_specs disk dir)"
  obtains sb id_checks ids checks where
    "starter_bundle_for_artifact_dir policy dir_report = Inr sb"
    "all_accepted env disk dir (gate_specs disk dir)"
    "run_id_alignment_checks docs = Inr (id_checks, ids)" "list_all item_pass id_checks"
    "list_all item_pass (mechanism_promotion_input_alignment_checks dir_report docs sb)"
    "phase = mechanism_phase dir_report docs sb"
    "mechanism_phase_checks env disk (mechanism_phase_state dir_report docs sb) = Inr checks"
    "list_all item_pass checks"
proof -
  note run' = run [unfolded validate_run_dir_def Let_def, folded dir_report_def]
  obtain sb arts loaded id_checks ids checks where b: "starter_bundle_for_artifact_dir policy dir_report = Inr sb"
    and l: "load_validated_artifacts env disk dir = Inr (arts, loaded)"
    and i: "run_id_alignment_checks loaded = Inr (id_checks, ids)"
    and c: "mechanism_phase_checks env disk (mechanism_phase_state dir_report loaded sb) = Inr checks"
    and rep: "report = build_planning_validation_report dir_report now
        (mechanism_phase dir_report loaded sb) arts
        (id_checks @ mechanism_promotion_input_alignment_checks dir_report loaded sb) checks"
    using run' by (auto simp: bindr_eq_Inr mechanism_phase_def split: prod.splits)
  note p = ok [unfolded rep built_report_passes]
  have "loaded = docs" "all_accepted env disk dir (gate_specs disk dir)"
    using load_validated_pass [OF l] p by (simp_all add: docs_def)
  with b i c p show ?thesis using that by auto
qed

lemma gate_passes:
  fixes env disk dir
  defines "dir_report \<equiv> stable_report_path env dir" and "docs \<equiv> documents env disk dir (gate_specs disk dir)"
  assumes "starter_bundle_for_artifact_dir policy dir_report = Inr bundle"
    and acc: "all_accepted env disk dir (gate_specs disk dir)"
    and "run_id_alignment_checks docs = Inr (id_checks, ids)" and "list_all item_pass id_checks"
    and "list_all item_pass (mechanism_promotion_input_alignment_checks dir_report docs bundle)"
    and "mechanism_phase_checks env disk (mechanism_phase_state dir_report docs bundle) = Inr checks"
    and "list_all item_pass checks"
  shows "\<exists>report event. validate_run_dir env disk now policy dir = Inr (report, event) \<and>
    report_passes report (mechanism_phase dir_report docs bundle)"
proof -
  obtain arts where "load_validated_artifacts env disk dir = Inr (arts, docs)" and "list_all item_pass arts"
    using load_validated_accepted [OF acc] by (auto simp: docs_def)
  with assms show ?thesis
    by (simp add: validate_run_dir_def Let_def built_report_passes mechanism_phase_def)
qed

subsection \<open>What passing checks say\<close>

definition sound_inputs :: "artifact_bundle \<Rightarrow> bool \<Rightarrow> bool" where
  "sound_inputs b ready \<longleftrightarrow> (\<exists>c. build_test_surface_phase_check b ready = Inr c \<and> item_pass c) \<and>
     (\<exists>c. build_manifest_alignment_phase_check b ready = Inr c \<and> item_pass c) \<and>
     (\<exists>c. build_changed_files_scope_phase_check b ready = Inr c \<and> item_pass c)"

lemma sound_inputs_ledger [simp]: "sound_inputs (b\<lparr>run_ledger_report := l\<rparr>) ready = sound_inputs b ready"
proof -
  have "manifest_declared_targets (b\<lparr>run_ledger_report := l\<rparr>) = manifest_declared_targets b"
    "candidate_declared_targets (b\<lparr>run_ledger_report := l\<rparr>) = candidate_declared_targets b"
    "changed_file_paths (b\<lparr>run_ledger_report := l\<rparr>) = changed_file_paths b"
    by (simp_all add: manifest_declared_targets_def candidate_declared_targets_def changed_file_paths_def)
  then show ?thesis
    by (simp add: sound_inputs_def build_test_surface_phase_check_def build_manifest_alignment_phase_check_def
        build_changed_files_scope_phase_check_def changed_files_scope_state_def)
qed

definition canonical_events :: "pydict \<Rightarrow> string \<Rightarrow> bool" where
  "canonical_events ledger phase \<longleftrightarrow> (\<exists>es. event_sequence_state ledger phase = Inr es \<and>
     missing_event_types es = [] \<and> order_pass es \<and> terminal_pass es)"

lemma item_pass_check [simp]:
  "item_pass (validation_check name b detail) = b" "item_pass (mechanism_phase_check name b text) = b"
  by (simp_all add: item_pass_def validation_check_def mechanism_phase_check_def dget_def)

lemma event_checks_pass_iff:
  "(\<exists>cs. build_event_sequence_phase_checks b phase = Inr cs \<and> list_all item_pass cs) \<longleftrightarrow>
     canonical_events (run_ledger_report b) phase"
proof (cases "event_sequence_state (run_ledger_report b) phase")
  case (Inr es)
  then show ?thesis
    by (simp add: build_event_sequence_phase_checks_def canonical_events_def Let_def)
qed (simp add: build_event_sequence_phase_checks_def canonical_events_def)

lemma completed_checks_pass_iff:
  "(\<exists>checks. completed_mechanism_phase_checks st ci = Inr checks \<and> list_all item_pass checks) \<longleftrightarrow>
     canonical_events (run_ledger_report (bundle_for_phase_checks ci)) (ps_phase st) \<and>
     local_input_failures (ci_loads ci) = [] \<and> input_validation_failures (ci_loads ci) = [] \<and>
     sound_inputs (bundle_for_phase_checks ci) (inputs_ready ci)"
proof -
  define ev su al sc where "ev = build_event_sequence_phase_checks (bundle_for_phase_checks ci) (ps_phase st)"
    and "su = build_test_surface_phase_check (bundle_for_phase_checks ci) (inputs_ready ci)"
    and "al = build_manifest_alignment_phase_check (bundle_for_phase_checks ci) (inputs_ready ci)"
    and "sc = build_changed_files_scope_phase_check (bundle_for_phase_checks ci) (inputs_ready ci)"
  show ?thesis
    unfolding event_checks_pass_iff [symmetric] sound_inputs_def completed_mechanism_phase_checks_def Let_def
      ev_def [symmetric] su_def [symmetric] al_def [symmetric] sc_def [symmetric]
    by (auto simp: bindr_eq_Inr)
qed

lemma none_missing:
  assumes "filter (\<lambda>t. t \<in> set xs) ys = xs"
  shows "filter (\<lambda>t. t \<notin> set ys) xs = []"
proof -
  have "set (filter (\<lambda>t. t \<in> set xs) ys) \<subseteq> set ys" by (rule filter_is_subset)
  then have "set xs \<subseteq> set ys" unfolding assms .
  then show ?thesis unfolding filter_empty_conv by blast
qed

lemma canonical_evaluated:
  "canonical_events ledger ''mechanism_evaluated'' \<longleftrightarrow>
     (\<exists>events. py_iter (dget ledger ''events'' (PyList [])) = Inr events \<and>
        filter (\<lambda>t. t \<in> set MECHANISM_EVALUATED_EVENT_SEQUENCE) (str_fields ''type'' events) =
          MECHANISM_EVALUATED_EVENT_SEQUENCE \<and> ''finalized'' \<notin> set (str_fields ''type'' events))"
  (is "?l \<longleftrightarrow> ?r")
proof -
  have "MECHANISM_EVALUATED_EVENT_SEQUENCE \<noteq> []"
    "last MECHANISM_EVALUATED_EVENT_SEQUENCE = ''promotion_evaluated''" by code_simp+
  then show ?thesis
    by (auto simp: canonical_events_def event_sequence_state_def MECHANISM_EVENT_SEQUENCE_BY_PHASE_def
        MECHANISM_TERMINAL_EVENT_BY_PHASE_def ditem_def bindr_eq_Inr Let_def none_missing)
qed

lemma canonical_finalized:
  "canonical_events ledger ''mechanism_finalized'' \<longleftrightarrow>
     (\<exists>events. py_iter (dget ledger ''events'' (PyList [])) = Inr events \<and>
        filter (\<lambda>t. t \<in> set MECHANISM_FINALIZED_EVENT_SEQUENCE) (str_fields ''type'' events) =
          MECHANISM_FINALIZED_EVENT_SEQUENCE)"
proof -
  have "MECHANISM_FINALIZED_EVENT_SEQUENCE \<noteq> []" "last MECHANISM_FINALIZED_EVENT_SEQUENCE = ''finalized''"
    by code_simp+
  then show ?thesis
    by (auto simp: canonical_events_def event_sequence_state_def MECHANISM_EVENT_SEQUENCE_BY_PHASE_def
        MECHANISM_TERMINAL_EVENT_BY_PHASE_def ditem_def bindr_eq_Inr Let_def none_missing)
qed

lemma finalizing_keeps_order:
  assumes "canonical_events ledger ''mechanism_evaluated''"
    and "dget ledger ''events'' (PyList []) = PyList es"
    and "dget ledger' ''events'' (PyList []) = PyList (es @ [PyDict e])"
    and "dget e ''type'' PyNone = PyStr ''finalized''"
  shows "canonical_events ledger' ''mechanism_finalized''"
proof -
  have obs: "filter (\<lambda>t. t \<in> set MECHANISM_EVALUATED_EVENT_SEQUENCE) (str_fields ''type'' es) =
        MECHANISM_EVALUATED_EVENT_SEQUENCE" "''finalized'' \<notin> set (str_fields ''type'' es)"
    using assms(1,2) by (auto simp: canonical_evaluated)
  then have "filter (\<lambda>t. t \<in> set MECHANISM_FINALIZED_EVENT_SEQUENCE) (str_fields ''type'' es) =
      MECHANISM_EVALUATED_EVENT_SEQUENCE"
    unfolding MECHANISM_FINALIZED_EVENT_SEQUENCE_def
    by (subst filter_cong [OF refl, where Q = "\<lambda>t. t \<in> set MECHANISM_EVALUATED_EVENT_SEQUENCE"]) auto
  then show ?thesis
    using assms(3,4)
    by (simp add: canonical_finalized str_fields_def) (simp add: MECHANISM_FINALIZED_EVENT_SEQUENCE_def)
qed

subsection \<open>The loaded inputs\<close>

lemma load_input_cases:
  assumes "load_input env disk d inputs st (req, key, schema) = Inr st'"
  obtains (absent) "input_rel_path inputs key = None"
      "st' = (if req then st\<lparr>input_validation_failures := input_validation_failures st @ [''missing inputs.'' @ key]\<rparr>
              else st)"
  | (given) rel outcome where "input_rel_path inputs key = Some rel"
      "load_and_validate_reported_json_artifact env disk rel schema = Inr outcome"
      "local_input_failures st' = local_input_failures st @
         (if py_startswith rel (d @ ''/'') then [] else [key @ ''='' @ rel])"
      "input_validation_failures st' = input_validation_failures st @ (case outcome of Inl t \<Rightarrow> [t] | Inr _ \<Rightarrow> [])"
proof (cases "input_rel_path inputs key")
  case None
  then show ?thesis using assms by (auto simp: load_input_def intro: absent)
next
  case (Some rel)
  then obtain outcome where o: "load_and_validate_reported_json_artifact env disk rel schema = Inr outcome"
    using assms by (auto simp: load_input_def Let_def bindr_eq_Inr)
  show ?thesis
    by (rule given [OF Some o]) (use assms Some o in \<open>auto simp: load_input_def Let_def split: sum.splits if_splits\<close>)
qed

lemma load_input_grows:
  assumes "load_input env disk d inputs st spec = Inr st'"
  shows "\<exists>xs ys. local_input_failures st' = local_input_failures st @ xs \<and>
    input_validation_failures st' = input_validation_failures st @ ys"
proof -
  obtain req key schema where "spec = (req, key, schema)" by (cases spec)
  with assms have "load_input env disk d inputs st (req, key, schema) = Inr st'" by simp
  then show ?thesis by (cases rule: load_input_cases) auto
qed

lemma loads_grow:
  assumes "foldr_res (load_input env disk d inputs) st specs = Inr st'"
  shows "\<exists>xs ys. local_input_failures st' = local_input_failures st @ xs \<and>
    input_validation_failures st' = input_validation_failures st @ ys"
  using assms
proof (induction specs arbitrary: st)
  case (Cons spec specs)
  then obtain s where "load_input env disk d inputs st spec = Inr s"
    and "foldr_res (load_input env disk d inputs) s specs = Inr st'" by (auto simp: bindr_eq_Inr)
  then show ?case using Cons.IH load_input_grows by (metis append.assoc)
qed auto

lemma load_reported_accepted:
  "load_and_validate_reported_json_artifact env disk rel s = Inr (Inr data) \<longleftrightarrow>
     accepted env disk (vault_file env rel) s data"
  by (cases "load_artifact env disk (vault_file env rel)"; cases "pe_schema env s")
    (auto simp: load_and_validate_reported_json_artifact_def accepted_def Let_def split: list.splits)

text \<open>Loads without a failure: every required input is named, lies in the run directory and is accepted.\<close>

lemma loads_clean:
  assumes "foldr_res (load_input env disk d inputs) st specs = Inr st'"
    and "local_input_failures st' = []" and "input_validation_failures st' = []"
    and "(True, key, schema) \<in> set specs"
  shows "\<exists>rel data. input_rel_path inputs key = Some rel \<and> py_startswith rel (d @ ''/'') \<and>
    accepted env disk (vault_file env rel) schema data"
  using assms
proof (induction specs arbitrary: st)
  case (Cons spec specs)
  then obtain s where s: "load_input env disk d inputs st spec = Inr s"
    and rest: "foldr_res (load_input env disk d inputs) s specs = Inr st'" by (auto simp: bindr_eq_Inr)
  have clean: "local_input_failures s = []" "input_validation_failures s = []"
    using loads_grow [OF rest] Cons.prems(2,3) by auto
  show ?case
  proof (cases "spec = (True, key, schema)")
    case True
    with s have "load_input env disk d inputs st (True, key, schema) = Inr s" by simp
    then show ?thesis
    proof (cases rule: load_input_cases)
      case (given rel outcome)
      then obtain data where "outcome = Inr data" using clean by (cases outcome) auto
      then show ?thesis
        using given clean load_reported_accepted [of env disk rel schema data]
        by (auto split: if_splits)
    qed (use clean in simp)
  next
    case False
    then show ?thesis using Cons.IH [OF rest Cons.prems(2,3)] Cons.prems(4) by auto
  qed
qed simp

lemma normalize_bundle_ledger:
  assumes "normalize_mechanism_artifact_bundle (dset ''run_ledger_report'' (PyDict l) raw) = Inr b"
  shows "run_ledger_report b = l \<and>
    normalize_mechanism_artifact_bundle (dset ''run_ledger_report'' (PyDict l') raw) = Inr (b\<lparr>run_ledger_report := l'\<rparr>)"
proof -
  define F where "F = BUNDLE_FIELDS"
  have same: "filter (\<lambda>f. \<not> is_dict (dget (dset ''run_ledger_report'' (PyDict l') raw) f PyNone)) F =
      filter (\<lambda>f. \<not> is_dict (dget (dset ''run_ledger_report'' (PyDict l) raw) f PyNone)) F"
    by (rule filter_cong) simp_all
  have none: "filter (\<lambda>f. \<not> is_dict (dget (dset ''run_ledger_report'' (PyDict l) raw) f PyNone)) F = []"
  proof (rule ccontr)
    assume "filter (\<lambda>f. \<not> is_dict (dget (dset ''run_ledger_report'' (PyDict l) raw) f PyNone)) F \<noteq> []"
    with assms show False
      unfolding normalize_mechanism_artifact_bundle_def Let_def F_def [symmetric]
      by (simp only: simp_thms if_True sum.distinct)
  qed
  show ?thesis
    using assms unfolding normalize_mechanism_artifact_bundle_def Let_def F_def [symmetric] same none by auto
qed

lemma phase_bundle_ledger:
  assumes "phase_bundle loaded ledger = Inr b"
  shows "run_ledger_report b = ledger" and "phase_bundle loaded ledger' = Inr (b\<lparr>run_ledger_report := ledger'\<rparr>)"
  using assms normalize_bundle_ledger by (auto simp: phase_bundle_def bindr_eq_Inr)

lemma map_of_documents:
  "map_of (documents env disk dir specs) name =
     (if name \<in> fst ` set specs then Some (document env disk (dir @ [name])) else None)"
  by (induction specs) (auto simp: documents_def)

lemma phase_checks_loads:
  assumes "mechanism_phase_checks env disk (Some st) = Inr checks" and "list_all item_pass checks"
    and "ps_phase st = ''mechanism_evaluated'' \<or> ps_phase st = ''mechanism_finalized''"
  obtains loads b where
    "foldr_res (load_input env disk (ps_dir_report st) (dget (ps_promotion_report st) ''inputs'' (PyDict [])))
       no_loads INPUT_SPECS = Inr loads"
    "local_input_failures loads = []" "input_validation_failures loads = []"
    "phase_bundle (loaded_input_artifacts loads) (ps_run_ledger st) = Inr b" "sound_inputs b True"
    "canonical_events (ps_run_ledger st) (ps_phase st)"
    "ps_phase st = ''mechanism_finalized'' \<Longrightarrow>
       \<exists>more. finalized_only_phase_checks env disk st = Inr more \<and> list_all item_pass more"
proof -
  obtain ci base where ci: "load_completed_mechanism_inputs env disk st = Inr ci"
    and base: "completed_mechanism_phase_checks st ci = Inr base" "list_all item_pass base"
    and more: "ps_phase st = ''mechanism_finalized'' \<Longrightarrow>
       \<exists>more. finalized_only_phase_checks env disk st = Inr more \<and> list_all item_pass more"
    using assms by (auto simp: mechanism_phase_checks_def bindr_eq_Inr)
  have pass: "canonical_events (run_ledger_report (bundle_for_phase_checks ci)) (ps_phase st)"
    "local_input_failures (ci_loads ci) = []" "input_validation_failures (ci_loads ci) = []"
    "sound_inputs (bundle_for_phase_checks ci) (inputs_ready ci)"
    using base completed_checks_pass_iff by blast+
  with ci have "phase_bundle (loaded_input_artifacts (ci_loads ci)) (ps_run_ledger st) = Inr (bundle_for_phase_checks ci)"
    and "foldr_res (load_input env disk (ps_dir_report st)
      (dget (ps_promotion_report st) ''inputs'' (PyDict []))) no_loads INPUT_SPECS = Inr (ci_loads ci)"
    by (auto simp: load_completed_mechanism_inputs_def bindr_eq_Inr)
  with pass more phase_bundle_ledger(1) show ?thesis
    by (intro that [of "ci_loads ci" "bundle_for_phase_checks ci"]) (auto simp: inputs_ready_def)
qed

subsection \<open>Properties\<close>

text \<open>A log page and an anchor that one of its headings carries.\<close>

definition anchor_resolves :: "plan_env \<Rightarrow> disk \<Rightarrow> string \<Rightarrow> bool" where
  "anchor_resolves env disk ref \<longleftrightarrow> (\<exists>text. disk (vault_file env (fst (split_anchor ref))) = Some (Inr text) \<and>
     has_heading gate_slugify_heading text (snd (split_anchor ref)))"

definition log_settled :: "plan_env \<Rightarrow> disk \<Rightarrow> pyval \<Rightarrow> bool" where
  "log_settled env disk entry \<longleftrightarrow> (\<exists>d. entry = PyDict d \<and>
     ((dget d ''required'' PyNone = PyBool True \<and> dget d ''status'' PyNone = PyStr ''recorded'' \<and>
       (\<exists>ref. dget d ''entry_ref'' PyNone = PyStr ref \<and> anchor_resolves env disk ref)) \<or>
      (dget d ''required'' PyNone = PyBool False \<and> dget d ''status'' PyNone = PyStr ''not_required'')))"

lemma log_recorded_settled: "log_recorded env disk entry = Inr True \<Longrightarrow> log_settled env disk entry"
  by (auto simp: log_recorded_def log_settled_def anchor_resolves_def system_log_contains_entry_ref_def
      split: pyval.splits if_splits option.splits sum.splits)

definition agreed_run_id :: "plan_env \<Rightarrow> disk \<Rightarrow> fpath \<Rightarrow> pyval \<Rightarrow> bool" where
  "agreed_run_id env disk dir v \<longleftrightarrow> (\<forall>(name, s) \<in> set (gate_specs disk dir).
     let d = document env disk (dir @ [name])
     in dhas d ''run_id'' \<longrightarrow> v = dget d ''run_id'' PyNone \<or> py_eq_scalar v (dget d ''run_id'' PyNone))"

lemma aligned_run_ids:
  assumes "run_id_alignment_checks (documents env disk dir (gate_specs disk dir)) = Inr (checks, ids)"
    and "list_all item_pass checks"
  shows "\<exists>v. agreed_run_id env disk dir v"
proof -
  let ?ids = "artifact_run_ids (documents env disk dir (gate_specs disk dir))"
  have ok: "\<not> several_values (map snd ?ids)" "3 \<le> length ?ids"
    using assms by (auto simp: run_id_alignment_checks_def Let_def PLANNING_GATE_REQUIRED_ARTIFACT_SCHEMAS_def
        split: if_splits)
  then obtain v rest where v: "map snd ?ids = v # rest" by (cases "map snd ?ids") auto
  have in_ids: "dget (document env disk (dir @ [name])) ''run_id'' PyNone \<in> set (map snd ?ids)"
    if "(name, s) \<in> set (gate_specs disk dir)" and "dhas (document env disk (dir @ [name])) ''run_id''" for name s
    using that by (force simp: artifact_run_ids_def documents_def)
  have "list_all (py_eq_scalar v) rest" using ok(1) unfolding v by (simp add: several_values_def)
  then have "agreed_run_id env disk dir v"
    using in_ids unfolding v agreed_run_id_def list_all_iff by (fastforce simp: Let_def)
  then show ?thesis ..
qed

text \<open>
  C11: a run directory that the planning gate passes as finalised is complete. Its seed, planning
  validation and ledger satisfy their schemas, and the run ids that they carry are one; the ledger's canonical events are the
  finalised sequence; every required input of the promotion report lies in the run directory and
  satisfies its schema; the planning validation is the finalised one; and the log entry is recorded
  under an anchor that a heading of the log carries, or none is required.
\<close>

theorem finalized_gate_sound:
  assumes run: "validate_run_dir env disk now policy dir = Inr (report, event)"
    and ok: "report_passes report ''mechanism_finalized''"
    and plain: "starter_bundle_for_artifact_dir policy (stable_report_path env dir) = Inr None"
  shows "all_accepted env disk dir PLANNING_GATE_REQUIRED_ARTIFACT_SCHEMAS \<and>
    (\<exists>v. agreed_run_id env disk dir v) \<and>
    (\<exists>es. py_iter (dget (document env disk (dir @ [''run-ledger.json''])) ''events'' (PyList [])) = Inr es \<and>
       filter (\<lambda>t. t \<in> set MECHANISM_FINALIZED_EVENT_SEQUENCE) (str_fields ''type'' es) =
         MECHANISM_FINALIZED_EVENT_SEQUENCE) \<and>
    (let promotion = document env disk (dir @ [''promotion-report.json'']);
         planning = document env disk (dir @ [''planning-validation.json''])
     in log_settled env disk (dget promotion ''log'' (PyDict [])) \<and>
        dget planning ''status'' PyNone = PyStr ''PASS'' \<and>
        dget planning ''next_action'' PyNone = PyStr FINALIZED_NEXT_ACTION \<and>
        (\<forall>(key, schema) \<in> set COMPLETED_MECHANISM_INPUT_SCHEMAS. \<exists>rel data.
           input_rel_path (dget promotion ''inputs'' (PyDict [])) key = Some rel \<and>
           py_startswith rel (stable_report_path env dir @ ''/'') \<and>
           accepted env disk (vault_file env rel) schema data))"
  using run ok
proof (cases rule: gate_pass_cases)
  case (1 sb id_checks ids checks)
  let ?docs = "documents env disk dir (gate_specs disk dir)" and ?dr = "stable_report_path env dir"
  have sb: "sb = None" using 1(1) plain by simp
  obtain st where st: "mechanism_phase_state ?dr ?docs None = Some st" and phase: "ps_phase st = ''mechanism_finalized''"
    using 1(6) sb by (auto simp: mechanism_phase_def split: option.splits)
  have ps: "ps_promotion_report st = document env disk (dir @ [''promotion-report.json''])"
    "ps_run_ledger st = document env disk (dir @ [''run-ledger.json''])" "ps_dir_report st = ?dr"
    "ps_planning_validation st = Some (document env disk (dir @ [''planning-validation.json'']))"
    using st by (auto simp: mechanism_phase_state_def map_of_documents gate_specs_def
        PLANNING_GATE_REQUIRED_ARTIFACT_SCHEMAS_def split: option.splits if_splits)
  show ?thesis
  proof (cases rule: phase_checks_loads [OF 1(7) [unfolded sb st] 1(8) disjI2 [OF phase]])
    case loads: (1 loads b)
    have "\<exists>more. finalized_only_phase_checks env disk st = Inr more \<and> list_all item_pass more"
      by (rule loads(7) [OF phase])
    then have fin: "log_settled env disk (dget (ps_promotion_report st) ''log'' (PyDict []))"
      "dget (document env disk (dir @ [''planning-validation.json''])) ''status'' PyNone = PyStr ''PASS''"
      "dget (document env disk (dir @ [''planning-validation.json''])) ''next_action'' PyNone = PyStr FINALIZED_NEXT_ACTION"
      using log_recorded_settled by (auto simp: finalized_only_phase_checks_def bindr_eq_Inr Let_def ps(4))
    have inputs: "\<exists>rel data. input_rel_path (dget (ps_promotion_report st) ''inputs'' (PyDict [])) key = Some rel \<and>
        py_startswith rel (?dr @ ''/'') \<and> accepted env disk (vault_file env rel) schema data"
      if "(key, schema) \<in> set COMPLETED_MECHANISM_INPUT_SCHEMAS" for key schema
      using loads_clean [OF loads(1-3), of key schema] that ps(3) by (auto simp: INPUT_SPECS_def)
    have req: "all_accepted env disk dir PLANNING_GATE_REQUIRED_ARTIFACT_SCHEMAS"
      using 1(2) by (auto simp: gate_specs_def all_accepted_def)
    show ?thesis
      using req aligned_run_ids [OF 1(3,4)] loads(6) fin inputs
      unfolding phase canonical_finalized ps by (auto simp: Let_def)
  qed
qed

text \<open>A finalised run of the witnesses: short texts stand for the documents they parse to.\<close>

definition sample_ledger :: "string \<Rightarrow> string list \<Rightarrow> pydict" where
  "sample_ledger st types = [(''run_id'', PyStr ''r1''), (''status'', PyStr st),
     (''events'', PyList (map (\<lambda>t. PyDict [(''type'', PyStr t)]) types))]"

definition sample_inputs :: pydict where
  "sample_inputs = [(''baseline_eval_report'', PyStr ''runs/r1/e.json''), (''candidate_eval_report'', PyStr ''runs/r1/e.json''),
     (''baseline_lint_report'', PyStr ''runs/r1/e.json''), (''candidate_lint_report'', PyStr ''runs/r1/e.json''),
     (''baseline_mechanism_report'', PyStr ''runs/r1/m.json''), (''candidate_mechanism_report'', PyStr ''runs/r1/m.json''),
     (''changed_files_manifest'', PyStr ''runs/r1/changed-files-manifest.json''),
     (''run_ledger'', PyStr ''runs/r1/run-ledger.json'')]"

definition sample_promotion :: "pydict \<Rightarrow> pydict \<Rightarrow> pydict" where
  "sample_promotion entry rest = [(''artifact_class'', PyStr ''system_mechanism''), (''run_id'', PyStr ''r1''),
     (''log'', PyDict entry), (''inputs'', PyDict sample_inputs)] @ rest"

definition sample_manifest :: pydict where
  "sample_manifest = [(''run_id'', PyStr ''r1''), (''files'', PyList [PyDict [(''path'', PyStr ''src/a.py'')]]),
     (''declared_targets'', PyDict [(''primary_targets'', PyList [PyStr ''src/a.py'']),
        (''test_files'', PyList [PyStr ''t.py''])])]"

definition sample_mechanism :: pydict where
  "sample_mechanism = [(''primary_targets'', PyList [PyStr ''src/a.py'']), (''test_files'', PyList [PyStr ''t.py'']),
     (''structural_metrics'', PyDict [(''test_case_count'', PyInt 1)])]"

definition sample_nodes :: "(fpath \<times> node) list" where
  "sample_nodes = map (\<lambda>(n, t). ([''v'', ''runs'', ''r1'', n], FileNode t))
     [(''seed.yaml'', ''S''), (''planning-validation.json'', ''V''), (''run-ledger.json'', ''L''),
      (''promotion-report.json'', ''P''), (''changed-files-manifest.json'', ''M''), (''e.json'', ''E''), (''m.json'', ''R'')] @
     [([''v'', ''log.md''], FileNode ''# x''), ([''v'', ''runs'', ''r1''], DirNode), ([''v'', ''runs''], DirNode),
      ([''v''], DirNode)]"

definition sample_texts :: "pydict \<Rightarrow> pydict \<Rightarrow> pydict \<Rightarrow> (string \<times> pydict) list" where
  "sample_texts ledger promotion planning = [(''S'', []), (''V'', planning), (''L'', ledger), (''P'', promotion),
     (''M'', sample_manifest), (''E'', []), (''R'', sample_mechanism)]"

definition sample_gate :: "(string \<times> pydict) list \<Rightarrow> plan_env" where
  "sample_gate texts = (let parse = (\<lambda>t. case map_of texts t of Some d \<Rightarrow> Inr (PyDict d) | None \<Rightarrow> Inl ''bad'')
     in \<lparr>pe_vault = [''v''], pe_resolve = (\<lambda>p. p), pe_link = (\<lambda>_. False), pe_json = parse, pe_yaml = parse,
         pe_schema = (\<lambda>_. Inr (\<lambda>_. []))\<rparr>)"

definition sample_disk :: disk where
  "sample_disk p = (case map_of sample_nodes p of Some (FileNode t) \<Rightarrow> Some (Inr t) | _ \<Rightarrow> None)"

definition finalized_sample :: plan_env where
  "finalized_sample = sample_gate (sample_texts
     (sample_ledger ''complete'' MECHANISM_FINALIZED_EVENT_SEQUENCE)
     (sample_promotion [(''required'', PyBool True), (''status'', PyStr ''recorded''), (''entry_ref'', PyStr ''log.md#x'')] [])
     [(''run_id'', PyStr ''r1''), (''status'', PyStr ''PASS''), (''next_action'', PyStr FINALIZED_NEXT_ACTION)])"

theorem finalized_gate_sound_witness:
  "log_settled finalized_sample sample_disk (PyDict [(''required'', PyBool True), (''status'', PyStr ''recorded''),
      (''entry_ref'', PyStr ''log.md#x'')])"
proof -
  let ?dir = "[''v'', ''runs'', ''r1'']"
  have pass: "case validate_run_dir finalized_sample sample_disk ''now'' [] ?dir of
      Inr (report, event) \<Rightarrow> dget report ''status'' PyNone = PyStr ''pass'' \<and>
        dget report ''phase'' PyNone = PyStr ''mechanism_finalized'' | Inl e \<Rightarrow> False"
    by code_simp
  then obtain report event where run: "validate_run_dir finalized_sample sample_disk ''now'' [] ?dir = Inr (report, event)"
    and ok: "report_passes report ''mechanism_finalized''"
    by (auto simp: report_passes_def split: sum.splits prod.splits)
  have plain: "starter_bundle_for_artifact_dir [] (stable_report_path finalized_sample ?dir) = Inr None"
    and doc: "dget (document finalized_sample sample_disk (?dir @ [''promotion-report.json''])) ''log'' (PyDict []) =
      PyDict [(''required'', PyBool True), (''status'', PyStr ''recorded''), (''entry_ref'', PyStr ''log.md#x'')]"
    by code_simp+
  show ?thesis
    using finalized_gate_sound [OF run ok plain] unfolding doc Let_def by blast
qed

end
