(* ===== verification/FinalizeRun.thy ===== *)
theory FinalizeRun
  imports PlanningGate AtomicFiles MechanismState
begin

section \<open>Finalising a mechanism run\<close>

text \<open>
  \<open>mechanism/finalize_run_*_runtime.py\<close>: the finaliser reads the promotion report and the ledger of a
  run, checks that the decision may be finalised, appends an entry to the system log and the missing
  events to the ledger, and writes the report, the ledger, the planning validation and the log in one
  atomic update. Errors are the subclasses of \<open>FinalizeRunError\<close>.
\<close>

subsection \<open>The environment\<close>

text \<open>
  The clock's two timestamps, \<open>load_schema\<close> with its validator, the position text of a JSON decode
  error, the digest behind a decision id and the writer of the artifact fingerprint.
\<close>

record fin_env = plan_env +
  fe_local_ts :: string
  fe_utc_ts :: string
  fe_load_schema :: "string \<Rightarrow> (pyval \<Rightarrow> string list) res"
  fe_json_position :: "string \<Rightarrow> string"
  fe_digest16 :: "string \<Rightarrow> string"
  fe_write_fingerprint :: "string \<Rightarrow> string io"

definition PROMOTION_REPORT_SCHEMA :: string where
  "PROMOTION_REPORT_SCHEMA = ''ops/schemas/promotion-report.schema.json''"

definition PLANNING_VALIDATION_SCHEMA :: string where
  "PLANNING_VALIDATION_SCHEMA = ''ops/schemas/planning-validation.schema.json''"

definition fin_vault_file :: "fin_env \<Rightarrow> string \<Rightarrow> fpath" where
  "fin_vault_file env rel = vault_file (plan_env.truncate env) rel"

subsection \<open>Loading and validating\<close>

text \<open>
  The decoder \<open>pe_json\<close> is applied to the text as it is stored: JSON text holds no raw carriage return
  or line feed inside a string, so that \<open>json.loads\<close> returns the same for the translated text.
\<close>

definition read_json :: "fin_env \<Rightarrow> fpath \<Rightarrow> pyval io" where
  "read_json env p = (\<lambda>w. case op_read p w of
      (Inl e, w') \<Rightarrow>
        (case e of
           FileNotFoundError _ \<Rightarrow> (Inl (FinalizeRunArtifactMissingError (''missing artifact: '' @ path_text p)), w')
         | _ \<Rightarrow>
           (if is_os_error e
            then (Inl (FinalizeRunArtifactDecodeError
                    (''failed to read JSON artifact '' @ path_text p @ '': '' @ os_error_text e)), w')
            else (Inl e, w')))
    | (Inr text, w') \<Rightarrow>
        (case pe_json env text of
           Inr v \<Rightarrow> (Inr v, w')
         | Inl _ \<Rightarrow> (Inl (FinalizeRunArtifactDecodeError (''failed to decode JSON artifact '' @ path_text p @
             '': '' @ fe_json_position env text)), w')))"

definition validate_or_raise :: "pyval \<Rightarrow> (pyval \<Rightarrow> string list) \<Rightarrow> string \<Rightarrow> unit res" where
  "validate_or_raise data schema context =
     (let errors = schema data
      in if errors = [] then Inr () else Inl (ValueError (context @ '': '' @ py_join ''; '' errors)))"

text \<open>The two \<open>except\<close> clauses around schema loading and validation.\<close>

definition schema_clauses :: "(string \<Rightarrow> string) \<Rightarrow> 'a res \<Rightarrow> 'a res" where
  "schema_clauses missing r =
     (case r of
        Inr x \<Rightarrow> Inr x
      | Inl e \<Rightarrow>
          (case e of
             FileNotFoundError t \<Rightarrow> Inl (FinalizeRunArtifactSchemaError (missing t))
           | _ \<Rightarrow> if is_value_error e then Inl (FinalizeRunArtifactSchemaError (exc_text e)) else Inl e))"

definition validate_payload :: "fin_env \<Rightarrow> pyval \<Rightarrow> string \<Rightarrow> string \<Rightarrow> unit res" where
  "validate_payload env payload schema_rel context =
     bindr (fe_load_schema env schema_rel) (\<lambda>schema. validate_or_raise payload schema context)"

definition load_validated_json :: "fin_env \<Rightarrow> fpath \<Rightarrow> string \<Rightarrow> string \<Rightarrow> pyval io" where
  "load_validated_json env p schema_rel context =
     bindm (read_json env p) (\<lambda>payload.
     bindm (liftm (schema_clauses (\<lambda>_. ''missing schema: '' @ schema_rel)
              (validate_payload env payload schema_rel context))) (\<lambda>_.
       returnm payload))"

definition validate_finalize_payloads :: "fin_env \<Rightarrow> pydict \<Rightarrow> pydict \<Rightarrow> pydict \<Rightarrow> unit res" where
  "validate_finalize_payloads env report ledger planning =
     schema_clauses (\<lambda>t. ''missing schema: '' @ t)
       (bindr (validate_payload env (PyDict report) PROMOTION_REPORT_SCHEMA
                 ''finalized promotion report schema validation failed'') (\<lambda>_.
        bindr (validate_payload env (PyDict ledger) RUN_LEDGER_SCHEMA
                 ''finalized run-ledger schema validation failed'') (\<lambda>_.
          validate_payload env (PyDict planning) PLANNING_VALIDATION_SCHEMA
                 ''finalized planning-validation schema validation failed'')))"

subsection \<open>Whether a run may be finalised\<close>

definition finalize_allowed :: "(string \<Rightarrow> string) \<Rightarrow> pydict \<Rightarrow> pydict res" where
  "finalize_allowed digest16 report =
     bindr (case decision_record_from_report digest16 report True of
              Inl (PromotionDecisionRegistryError t) \<Rightarrow> Inl (FinalizeRunUsageError t)
            | r \<Rightarrow> r) (\<lambda>record.
     bindr (if py_truth (dget record ''finalizable'' PyNone) then Inr ()
            else bindr (py_iter (dget record ''finalize_blockers'' (PyList []))) (\<lambda>blockers.
                 bindr (ditem record ''decision'') (\<lambda>dv.
                   let texts = py_join '', '' (map py_str blockers)
                   in Inl (FinalizeRunUsageError (''cannot finalize promotion decision '' @ py_str dv @ '': '' @
                        (if texts \<noteq> [] then texts else ''decision_not_finalizable'')))))) (\<lambda>_.
     bindr (py_get (dget report ''signoff'' (PyDict [])) ''required'' PyNone) (\<lambda>required.
     bindr (if py_truth required
            then py_get (dget report ''signoff'' (PyDict [])) ''status'' PyNone
            else Inr (PyStr ''approved'')) (\<lambda>status.
       if status \<noteq> PyStr ''approved''
       then Inl (FinalizeRunUsageError ''required signoff must be approved before finalization'')
       else Inr record))))"

subsection \<open>The system log\<close>

record fin_log_state =
  fl_required :: bool
  fl_entry_ref :: string
  fl_log_path :: "fpath option"
  fl_final_log_text :: "string option"

definition system_log_has_anchor :: "fpath \<Rightarrow> string \<Rightarrow> bool io" where
  "system_log_has_anchor p ref =
     (if CHR ''#'' \<notin> set ref then returnm False
      else bindm (path_exists p) (\<lambda>present.
        if \<not> present then returnm False
        else bindm (read_text p) (\<lambda>text. returnm (has_heading slugify_heading text (snd (split_anchor ref))))))"

definition existing_log_text :: "fpath \<Rightarrow> string option io" where
  "existing_log_text p = bindm (path_exists p) (\<lambda>present.
     if \<not> present then returnm None
     else bindm (catch_os (read_text p) (\<lambda>e. raisem (FinalizeRunWriteError (os_error_text e))))
            (\<lambda>text. returnm (Some text)))"

definition nonempty_strings :: "pyval list \<Rightarrow> string list" where
  "nonempty_strings vs = filter (\<lambda>s. s \<noteq> []) (map the_str (filter is_str vs))"

definition log_artifacts_for_finalized_run :: "fin_env \<Rightarrow> pydict \<Rightarrow> string \<Rightarrow> string \<Rightarrow> string list io" where
  "log_artifacts_for_finalized_run env report promotion_rel ledger_rel =
     (let inputs = dget report ''inputs'' (PyDict []);
          manifest = (if is_dict inputs then dget (the_dict inputs) ''changed_files_manifest'' PyNone else PyNone)
      in case nonempty_strings [manifest] of
           rel # _ \<Rightarrow>
             bindm (load_validated_json env (fin_vault_file env rel) CHANGED_FILES_MANIFEST_SCHEMA
                      (''schema validation failed for '' @ rel)) (\<lambda>loaded.
             bindm (liftm (py_get loaded ''files'' (PyList []))) (\<lambda>files.
               returnm (ordered_unique (promotion_rel # ledger_rel # rel #
                 (if is_list files
                  then nonempty_strings (map (\<lambda>f. dget (the_dict f) ''path'' PyNone) (filter is_dict (the_list files)))
                  else [])))))
         | [] \<Rightarrow>
             bindm (liftm (py_iter (dget report ''primary_targets'' (PyList [])))) (\<lambda>primary.
             bindm (liftm (py_iter (dget report ''supporting_targets'' (PyList [])))) (\<lambda>supporting.
               returnm (ordered_unique (promotion_rel # ledger_rel # nonempty_strings (primary @ supporting))))))"

definition recorded_log_state :: "fpath \<Rightarrow> string \<Rightarrow> fin_log_state io" where
  "recorded_log_state log_path ref =
     bindm (system_log_has_anchor log_path ref) (\<lambda>found.
       if \<not> found
       then raisem (FinalizeRunUsageError
              ''promotion report claims log is recorded, but entry_ref is missing from system-log'')
       else returnm \<lparr>fl_required = True, fl_entry_ref = ref, fl_log_path = Some log_path,
                     fl_final_log_text = None\<rparr>)"

definition appended_log_state ::
  "fin_env \<Rightarrow> pydict \<Rightarrow> string \<Rightarrow> string \<Rightarrow> string \<Rightarrow> string \<Rightarrow> string \<Rightarrow> fpath \<Rightarrow> fin_log_state io" where
  "appended_log_state env report run_id dcn promotion_rel ledger_rel page log_path =
     bindm (log_artifacts_for_finalized_run env report promotion_rel ledger_rel) (\<lambda>artifacts.
     bindm (liftm (ditem report ''summary'')) (\<lambda>summary.
     case build_log_entry_markdown run_id dcn (py_str summary) artifacts promotion_rel ledger_rel
            (fe_local_ts env) of
       (entry, anchor) \<Rightarrow>
         bindm (existing_log_text log_path) (\<lambda>existing.
           returnm \<lparr>fl_required = True, fl_entry_ref = entry_ref_of page anchor, fl_log_path = Some log_path,
             fl_final_log_text = Some (log_text_with_appended_entry
               (case existing of Some t \<Rightarrow> t | None \<Rightarrow> '''') entry)\<rparr>)))"

definition resolve_finalize_log_state ::
  "fin_env \<Rightarrow> pydict \<Rightarrow> string \<Rightarrow> string \<Rightarrow> string \<Rightarrow> string \<Rightarrow> fin_log_state io" where
  "resolve_finalize_log_state env report run_id dcn promotion_rel ledger_rel =
     (case dget report ''log'' (PyDict []) of
        PyDict entry \<Rightarrow>
          (if \<not> py_truth (dget entry ''required'' PyNone)
           then returnm \<lparr>fl_required = False, fl_entry_ref = '''', fl_log_path = None, fl_final_log_text = None\<rparr>
           else (case nonempty_strings [dget entry ''page'' PyNone] of
                   [] \<Rightarrow> raisem (FinalizeRunUsageError ''promotion report log.page is missing'')
                 | page # _ \<Rightarrow>
                     (case (if dget entry ''status'' PyNone = PyStr ''recorded''
                            then nonempty_strings [dget entry ''entry_ref'' PyNone] else []) of
                        ref # _ \<Rightarrow> recorded_log_state (fin_vault_file env page) ref
                      | [] \<Rightarrow> appended_log_state env report run_id dcn promotion_rel ledger_rel page
                                (fin_vault_file env page))))
      | _ \<Rightarrow> raisem (FinalizeRunUsageError ''promotion report log must be an object''))"

subsection \<open>The documents of a finalised run\<close>

definition planning_check :: "string \<Rightarrow> string \<Rightarrow> string list \<Rightarrow> pyval" where
  "planning_check check_id detail required =
     PyDict [(''id'', PyStr check_id), (''status'', PyStr ''PASS''), (''detail'', PyStr detail),
             (''required_artifacts'', py_strs required)]"

definition build_planning_validation_payload ::
  "string \<Rightarrow> string \<Rightarrow> pydict \<Rightarrow> bool \<Rightarrow> string \<Rightarrow> pydict" where
  "build_planning_validation_payload run_id dcn signoff log_required ref =
     [(''$schema'', PyStr PLANNING_VALIDATION_SCHEMA), (''run_id'', PyStr run_id), (''status'', PyStr ''PASS''),
      (''summary'', PyStr (''Mechanism run '' @ run_id @ '' is finalized with decision '' @ dcn @
         ''; baseline/candidate artifacts, promotion report, and run-ledger are now aligned.'')),
      (''checks'', PyList
        [planning_check ''mechanism_artifacts_complete''
           ''baseline/candidate eval, lint, and mechanism assessment artifacts are present under the same run directory.''
           [''run-ledger.json'', ''promotion-report.json'', ''baseline-eval.json'', ''candidate-eval.json'',
            ''baseline-lint.json'', ''candidate-lint.json'', ''baseline-mechanism-assessment.json'',
            ''candidate-mechanism-assessment.json''],
         planning_check ''promotion_decision_finalized''
           (''promotion gate decision is finalized as `'' @ dcn @ ''` and persisted in `promotion-report.json`.'')
           [''promotion-report.json'', ''run-ledger.json''],
         planning_check ''system_log_finalization''
           (if log_required then ''append-only log entry was recorded at `'' @ ref @ ''`.''
            else ''current policy does not require a system/system-log.md append for this finalized run.'')
           [''promotion-report.json'', ''run-ledger.json'']]),
      (''open_questions'', PyList []),
      (''signoff'', PyDict
        [(''required'', PyBool (py_truth (dget signoff ''required'' PyNone))),
         (''status'', dget signoff ''status'' (PyStr '''')), (''by'', dget signoff ''by'' (PyStr '''')),
         (''ts'', dget signoff ''ts'' (PyStr ''''))]),
      (''next_action'', PyStr FINALIZED_NEXT_ACTION)]"

text \<open>\<open>ledger["events"].append(event)\<close>.\<close>

definition append_event :: "pydict \<Rightarrow> pyval \<Rightarrow> pydict res" where
  "append_event ledger event =
     bindr (ditem ledger ''events'') (\<lambda>events.
       case events of
         PyList es \<Rightarrow> Inr (dset ''events'' (PyList (es @ [event])) ledger)
       | _ \<Rightarrow> Inl AttributeError)"

definition ledger_event ::
  "string \<Rightarrow> string \<Rightarrow> string \<Rightarrow> string list \<Rightarrow> pyval \<Rightarrow> pydict \<Rightarrow> pydict" where
  "ledger_event utc event_type summary artifacts dv decision_event =
     [(''ts'', PyStr utc), (''type'', PyStr event_type), (''summary'', PyStr summary),
      (''artifacts'', py_strs artifacts), (''decision'', dv), (''decision_event'', PyDict decision_event)]"

definition dict_event_types :: "pyval list \<Rightarrow> pyval list" where
  "dict_event_types events = map (\<lambda>e. dget (the_dict e) ''type'' PyNone) (filter is_dict events)"

definition with_promotion_event ::
  "string \<Rightarrow> pyval list \<Rightarrow> pydict \<Rightarrow> pyval \<Rightarrow> string \<Rightarrow> string \<Rightarrow> pydict \<Rightarrow> pydict \<Rightarrow> pydict res" where
  "with_promotion_event utc types record dv run_id promotion_rel report ledger =
     (if PyStr ''promotion_evaluated'' \<in> set types then Inr ledger
      else bindr (dict_items (dget report ''inputs'' (PyDict []))) (\<lambda>inputs.
           bindr (decision_event_from_record record (Some ''promotion_evaluated'') (Some utc)) (\<lambda>event.
             append_event ledger (PyDict (ledger_event utc ''promotion_evaluated''
               (''Promotion gate finalized decision '' @ py_str dv @ '' for '' @ run_id @ ''.'')
               (promotion_rel # nonempty_strings (map snd (sort_key fst inputs))) dv event)))))"

definition with_finalized_event ::
  "string \<Rightarrow> pyval list \<Rightarrow> pydict \<Rightarrow> bool \<Rightarrow> pydict \<Rightarrow> string \<Rightarrow> string \<Rightarrow> pydict \<Rightarrow> pydict res" where
  "with_finalized_event utc types record log_required report_log promotion_rel ledger_rel ledger =
     (if PyStr ''finalized'' \<in> set types then Inr ledger
      else bindr (if log_required
                  then bindr (ditem report_log ''page'') (\<lambda>page. Inr [py_str page]) else Inr []) (\<lambda>pages.
           bindr (decision_event_from_record record (Some ''finalized'') (Some utc)) (\<lambda>event.
             append_event ledger (PyDict (ledger_event utc ''finalized''
               ''Recorded the finalized mechanism run in system-log and persisted the promotion report.''
               (promotion_rel # ledger_rel # pages) (PyStr ''complete'') event)))))"

record fin_outputs =
  fo_report :: pydict
  fo_ledger :: pydict
  fo_planning_validation :: pydict
  fo_decision :: pyval
  fo_decision_record :: pydict
  fo_log_state :: fin_log_state

text \<open>The pure part of \<open>build_finalize_run_outputs\<close>, once the log state is known.\<close>

definition finalized_report :: "pydict \<Rightarrow> fin_log_state \<Rightarrow> pydict \<Rightarrow> pydict" where
  "finalized_report report st report_log =
     dset ''next_action'' (PyStr ''Persist the finalized run artifacts and use them as future history inputs.'')
       (dset ''log'' (PyDict (dset ''entry_ref'' (PyStr (fl_entry_ref st))
          (dset ''status'' (PyStr (if fl_required st then ''recorded'' else ''not_required'')) report_log))) report)"

definition finalize_outputs_of ::
  "fin_env \<Rightarrow> string \<Rightarrow> pydict \<Rightarrow> pydict \<Rightarrow> string \<Rightarrow> string \<Rightarrow> pydict \<Rightarrow> pyval \<Rightarrow> fin_log_state \<Rightarrow> fin_outputs res" where
  "finalize_outputs_of env run_id report ledger promotion_rel ledger_rel record dv st =
     (case dget report ''log'' (PyDict []) of
        PyDict report_log \<Rightarrow>
          (let utc = fe_utc_ts env; report' = finalized_report report st report_log in
           bindr (py_iter (dget ledger ''events'' (PyList []))) (\<lambda>events.
           bindr (with_promotion_event utc (dict_event_types events) record dv run_id promotion_rel report' ledger)
             (\<lambda>ledger1.
           bindr (with_finalized_event utc (dict_event_types events) record (fl_required st) report_log
                    promotion_rel ledger_rel ledger1) (\<lambda>ledger2.
           bindr (dict_items (dget report' ''signoff'' (PyDict []))) (\<lambda>signoff.
             Inr \<lparr>fo_report = report', fo_ledger = dset ''status'' (PyStr ''complete'') ledger2,
                  fo_planning_validation = build_planning_validation_payload run_id (py_str dv) signoff
                    (fl_required st) (fl_entry_ref st),
                  fo_decision = dv, fo_decision_record = record, fo_log_state = st\<rparr>)))))
      | _ \<Rightarrow> Inl (FinalizeRunUsageError ''promotion report log must be an object''))"

definition build_finalize_run_outputs ::
  "fin_env \<Rightarrow> string \<Rightarrow> pydict \<Rightarrow> pydict \<Rightarrow> string \<Rightarrow> string \<Rightarrow> fin_outputs io" where
  "build_finalize_run_outputs env run_id report ledger promotion_rel ledger_rel =
     bindm (liftm (finalize_allowed (fe_digest16 env) report)) (\<lambda>record.
     bindm (liftm (ditem record ''decision'')) (\<lambda>dv.
     bindm (resolve_finalize_log_state env report run_id (py_str dv) promotion_rel ledger_rel) (\<lambda>st.
       liftm (finalize_outputs_of env run_id report ledger promotion_rel ledger_rel record dv st))))"

subsection \<open>Writing\<close>

definition finalize_updates :: "fpath \<Rightarrow> fpath \<Rightarrow> fpath \<Rightarrow> fin_outputs \<Rightarrow> text_update list" where
  "finalize_updates promotion ledger planning out =
     [\<lparr>u_path = promotion, u_text = json_indented (fo_report out)\<rparr>,
      \<lparr>u_path = ledger, u_text = json_indented (fo_ledger out)\<rparr>,
      \<lparr>u_path = planning, u_text = json_indented (fo_planning_validation out)\<rparr>] @
     (case (fl_final_log_text (fo_log_state out), fl_log_path (fo_log_state out)) of
        (Some text, Some p) \<Rightarrow> [\<lparr>u_path = p, u_text = text\<rparr>]
      | _ \<Rightarrow> [])"

definition write_finalize_atomic_updates :: "text_update list \<Rightarrow> unit io" where
  "write_finalize_atomic_updates updates =
     catch_os (atomic_multi_write updates) (\<lambda>e. raisem (FinalizeRunWriteError (os_error_text e)))"

definition run_file :: "string \<Rightarrow> string \<Rightarrow> string" where
  "run_file run_id name = ''runs/'' @ run_id @ ''/'' @ name"

definition require_run_id :: "string \<Rightarrow> string \<Rightarrow> pyval \<Rightarrow> unit res" where
  "require_run_id what run_id payload =
     bindr (py_item payload ''run_id'') (\<lambda>v.
       if v \<noteq> PyStr run_id
       then Inl (FinalizeRunUsageError (what @ '' run_id mismatch: expected '' @ run_id @ '', got '' @ py_str v))
       else Inr ())"

definition given_path :: "string option \<Rightarrow> string \<Rightarrow> string \<Rightarrow> string" where
  "given_path arg run_id name =
     (case arg of Some s \<Rightarrow> (if s \<noteq> [] then s else run_file run_id name) | None \<Rightarrow> run_file run_id name)"

text \<open>The part of \<open>finalize_run\<close> up to the validated documents: it only reads.\<close>

definition finalize_prepare :: "fin_env \<Rightarrow> string \<Rightarrow> string \<Rightarrow> string \<Rightarrow> fin_outputs io" where
  "finalize_prepare env run_id promotion_rel ledger_rel =
     bindm (load_validated_json env (fin_vault_file env promotion_rel) PROMOTION_REPORT_SCHEMA
              (''schema validation failed for '' @ promotion_rel)) (\<lambda>report.
     bindm (load_validated_json env (fin_vault_file env ledger_rel) RUN_LEDGER_SCHEMA
              (''schema validation failed for '' @ ledger_rel)) (\<lambda>ledger.
     bindm (liftm (require_run_id ''promotion report'' run_id report)) (\<lambda>_.
     bindm (liftm (require_run_id ''run-ledger'' run_id ledger)) (\<lambda>_.
     bindm (build_finalize_run_outputs env run_id (the_dict report) (the_dict ledger)
              promotion_rel ledger_rel) (\<lambda>out.
     bindm (liftm (validate_finalize_payloads env (fo_report out) (fo_ledger out)
              (fo_planning_validation out))) (\<lambda>_.
       returnm out))))))"

text \<open>
  \<open>build_atomic_text_updates\<close> runs when the updates are built, before the \<open>try\<close> of the writer, and again
  inside \<open>atomic_multi_write\<close>.
\<close>

definition finalize_summary ::
  "fin_env \<Rightarrow> string \<Rightarrow> fpath \<Rightarrow> fpath \<Rightarrow> fpath \<Rightarrow> fin_outputs \<Rightarrow> string \<Rightarrow> pydict" where
  "finalize_summary env run_id promotion_path ledger_path planning_path out fingerprint =
     (let report_path = stable_report_path (plan_env.truncate env) in
     [(''run_id'', PyStr run_id), (''decision'', fo_decision out),
      (''decision_record'', PyDict (fo_decision_record out)),
      (''promotion_report'', PyStr (report_path promotion_path)), (''run_ledger'', PyStr (report_path ledger_path)),
      (''planning_validation'', PyStr (report_path planning_path)),
      (''run_artifact_fingerprint'', PyStr fingerprint),
      (''log_entry_ref'', PyStr (fl_entry_ref (fo_log_state out)))])"

definition finalize_run ::
  "fin_env \<Rightarrow> string \<Rightarrow> string option \<Rightarrow> string option \<Rightarrow> (fin_outputs \<times> pydict) io" where
  "finalize_run env run_id promotion_rel_arg ledger_rel_arg =
     (let promotion_rel = given_path promotion_rel_arg run_id ''promotion-report.json'';
          ledger_rel = given_path ledger_rel_arg run_id ''run-ledger.json'';
          promotion_path = fin_vault_file env promotion_rel;
          ledger_path = fin_vault_file env ledger_rel;
          planning_path = fin_vault_file env (run_file run_id ''planning-validation.json'')
      in bindm (finalize_prepare env run_id promotion_rel ledger_rel) (\<lambda>out.
         bindm (build_atomic_text_updates (finalize_updates promotion_path ledger_path planning_path out))
           (\<lambda>updates.
         bindm (write_finalize_atomic_updates updates) (\<lambda>_.
         bindm (fe_write_fingerprint env run_id) (\<lambda>fingerprint.
           returnm (out, finalize_summary env run_id promotion_path ledger_path planning_path out fingerprint))))))"

subsection \<open>Reading changes nothing\<close>

abbreviation reads_only :: "'a io \<Rightarrow> bool" where
  "reads_only m \<equiv> \<forall>E. leaves (\<lambda>_. True) E m (\<lambda>_. True)"

lemma reads_bind: "reads_only m \<Longrightarrow> (\<And>x. reads_only (f x)) \<Longrightarrow> reads_only (bindm m f)"
  by (blast intro: leaves_bind)

lemma reads_basic [intro]:
  "reads_only (returnm x)" "reads_only (raisem e)" "reads_only (liftm r)" "reads_only (op_read p)"
  "reads_only (path_exists p)"
  by (auto intro: leaves_return leaves_raise leaves_lift leaves_read leaves_exists)

lemma reads_read_json [intro]: "reads_only (read_json env p)"
proof (intro allI leavesI)
  fix E w r w' assume w: "w_env w = E" and run: "read_json env p w = (r, w')"
  obtain r1 w1 where 1: "op_read p w = (r1, w1)" by (cases "op_read p w")
  then have "w' = w1" using run by (auto simp: read_json_def split: sum.splits py_exc.splits if_splits)
  then show "w_env w' = E \<and> (\<forall>p. True \<longrightarrow> file_at w' p = file_at w p) \<and> (\<forall>x. r = Inr x \<longrightarrow> True)"
    using leavesD(1,2) [OF reads_basic(4) [rule_format] w 1] by simp
qed

lemma reads_load [intro]: "reads_only (load_validated_json env p schema_rel context)"
  unfolding load_validated_json_def by (intro reads_bind reads_read_json reads_basic)

lemma reads_existing [intro]: "reads_only (existing_log_text p)"
  unfolding existing_log_text_def
  by (auto intro!: leaves_bind [where R = "\<lambda>_. True"] leaves_return leaves_exists leaves_catch
      leaves_read_text leaves_raise)

lemma reads_log_state [intro]: "reads_only (resolve_finalize_log_state env report run_id dcn prel lrel)"
proof -
  have artifacts: "reads_only (log_artifacts_for_finalized_run env report prel lrel)"
    unfolding log_artifacts_for_finalized_run_def Let_def
    by (auto split: list.splits intro!: leaves_bind [where R = "\<lambda>_. True"] leaves_return leaves_lift
        reads_load [rule_format])
  have recorded: "reads_only (recorded_log_state p ref)" for p ref
    unfolding recorded_log_state_def system_log_has_anchor_def
    by (auto intro!: leaves_bind [where R = "\<lambda>_. True"] leaves_return leaves_raise leaves_exists leaves_read_text)
  have appended: "reads_only (appended_log_state env report run_id dcn prel lrel page p)" for page p
    unfolding appended_log_state_def
    by (auto split: prod.splits intro!: leaves_bind [where R = "\<lambda>_. True"] leaves_return leaves_lift
        artifacts [rule_format] reads_existing [rule_format])
  show ?thesis
    unfolding resolve_finalize_log_state_def
    using recorded appended
    by (auto split: pyval.splits list.splits intro!: leaves_return leaves_raise)
qed

lemma reads_prepare: "reads_only (finalize_prepare env run_id prel lrel)"
  unfolding finalize_prepare_def build_finalize_run_outputs_def
  by (intro reads_bind reads_load reads_log_state reads_basic)

subsection \<open>What the writer raises\<close>

lemma run_log_only_os:
  assumes "\<And>x. only_os (act x)" and "run_log act xs done0 w = (Inr (Some e, done), w')"
  shows "is_os_error e"
  using assms(2)
proof (induction xs arbitrary: done0 w)
  case (Cons x xs)
  obtain r w1 where 1: "act x w = (r, w1)" by (cases "act x w")
  then show ?case using Cons assms(1) [of x] by (cases r) (force simp: only_os_def)+
qed simp

lemma only_os_cleanup: "only_os (cleanup_updates us)"
  unfolding cleanup_updates_def cleanup_staged_file_def
  by (induction us) (auto intro: only_os_combinators only_os_ops)

lemma only_os_settle: "(\<And>e. err = Some e \<Longrightarrow> is_os_error e) \<Longrightarrow> only_os (settle_write err cs ps)"
proof -
  have undo: "only_os (undo_all restore_update update_label us)" for us
    unfolding only_os_def by (metis undo_updates_returns Pair_inject sum.distinct(1))
  have raise: "only_os (raisem (FilesystemTransactionError t))" for t
    by (simp add: only_os_def)
  show "(\<And>e. err = Some e \<Longrightarrow> is_os_error e) \<Longrightarrow> only_os (settle_write err cs ps)"
    unfolding settle_write_def
    by (cases err) (auto intro!: only_os_combinators(1-3) only_os_cleanup undo raise)
qed

lemma only_os_write_staged: "only_os (write_staged ss)"
proof -
  have os: "only_os (stage_atomic_text (ws_path s) (ws_text s))" "only_os (commit_update u)" for s u
    unfolding commit_update_def by (rule only_os_stage, blast)
  show ?thesis
    unfolding only_os_def write_staged_def
  proof (intro allI impI, elim bindm_Inl)
    fix w e w' assume "run_log (\<lambda>s. stage_atomic_text (ws_path s) (ws_text s)) ss [] w = (Inl e, w')"
    then show "is_os_error e"
      using run_log_returns [of "\<lambda>s. stage_atomic_text (ws_path s) (ws_text s)" ss "[]" w] by auto
  next
    fix w e w' x w1
    assume 1: "run_log (\<lambda>s. stage_atomic_text (ws_path s) (ws_text s)) ss [] w = (Inr x, w1)"
      and rest: "(case x of (None, staged) \<Rightarrow> bindm (run_log commit_update staged [])
           (\<lambda>(err', committed). settle_write err' (map fst committed) (drop (length committed) staged))
         | (Some e, staged) \<Rightarrow> settle_write (Some e) [] staged) w1 = (Inl e, w')"
    obtain err staged where x: "x = (err, staged)" by (cases x)
    show "is_os_error e"
    proof (cases err)
      case (Some e1)
      have "is_os_error e1" using run_log_only_os [OF os(1) 1 [unfolded x Some]] .
      then show ?thesis using rest x Some only_os_settle [of "Some e1" "[]" staged] by (auto simp: only_os_def)
    next
      case None
      obtain err' committed w2 where 2: "run_log commit_update staged [] w1 = (Inr (err', committed), w2)"
        by (metis run_log_returns)
      have "only_os (settle_write err' (map fst committed) (drop (length committed) staged))"
        by (rule only_os_settle) (use run_log_only_os [where act = commit_update, OF os(2)] 2 in blast)
      with 2 show ?thesis using rest x None 2 by (auto simp: only_os_def bindm_def)
    qed
  qed
qed

lemma write_finalize_error:
  assumes "write_finalize_atomic_updates us w = (Inl e, w')"
  shows "\<exists>t. e = FinalizeRunWriteError t"
proof -
  have read: "only_os (op_read p)" for p
    unfolding op_read_def
    by (auto simp: only_os_def step_io_def atomic_io_def no_such_file_def is_a_directory_def Let_def
        split: option.splits node.splits if_splits)
  have "only_os (write_state_of u)" for u
    unfolding write_state_of_def existing_text_or_none_def read_text_def
    by (auto intro!: only_os_combinators only_os_ops read)
  then have states: "only_os (mapm write_state_of us)" for us
    by (induction us) (auto intro!: only_os_combinators)
  have build: "only_os (build_atomic_text_updates us)"
    by (auto simp: only_os_def build_atomic_text_updates_def Let_def split: if_splits)
  have "only_os (atomic_multi_write us)"
    unfolding atomic_multi_write_def
    by (intro only_os_combinators(2) build states only_os_write_staged)
  then show ?thesis
    using assms by (auto simp: write_finalize_atomic_updates_def catch_os_def only_os_def raisem_def
        split: prod.splits sum.splits if_splits)
qed

subsection \<open>Refusals and results\<close>

fun is_refusal :: "py_exc \<Rightarrow> bool" where
  "is_refusal (FinalizeRunUsageError _) = True"
| "is_refusal (FinalizeRunArtifactMissingError _) = True"
| "is_refusal (FinalizeRunArtifactDecodeError _) = True"
| "is_refusal (FinalizeRunArtifactSchemaError _) = True"
| "is_refusal _ = False"

lemma finalize_returned:
  assumes run: "finalize_run env run_id prel lrel w = (Inr (out, s), w')"
    and us: "us = finalize_updates (fin_vault_file env (given_path prel run_id ''promotion-report.json''))
      (fin_vault_file env (given_path lrel run_id ''run-ledger.json''))
      (fin_vault_file env (run_file run_id ''planning-validation.json'')) out"
    and plain: "\<forall>u \<in> set us. \<not> temp_path (w_env w) (u_path u) \<and> u_path u \<notin> F"
    and fingerprint: "\<And>E. leaves (\<lambda>p. p \<notin> F) E (fe_write_fingerprint env run_id) (\<lambda>_. True)"
  shows "\<exists>w1. finalize_prepare env run_id (given_path prel run_id ''promotion-report.json'')
      (given_path lrel run_id ''run-ledger.json'') w = (Inr out, w1)"
    and "distinct (map u_path us)"
    and "\<forall>u \<in> set us. file_at w' (u_path u) = Some (u_text u)"
    and "\<not> temp_path (w_env w) p \<Longrightarrow> p \<notin> F \<Longrightarrow> p \<notin> u_path ` set us \<Longrightarrow> file_at w' p = file_at w p"
proof -
  note us' = us [symmetric]
  obtain w1 vs w2 w3 f where 1: "finalize_prepare env run_id (given_path prel run_id ''promotion-report.json'')
      (given_path lrel run_id ''run-ledger.json'') w = (Inr out, w1)"
    and 2: "build_atomic_text_updates us w1 = (Inr vs, w2)"
    and 3: "write_finalize_atomic_updates vs w2 = (Inr (), w3)"
    and 4: "fe_write_fingerprint env run_id w3 = (Inr f, w')"
    using run unfolding finalize_run_def Let_def us by (auto elim!: bindm_Inr)
  show "\<exists>w1. finalize_prepare env run_id (given_path prel run_id ''promotion-report.json'')
      (given_path lrel run_id ''run-ledger.json'') w = (Inr out, w1)" using 1 by blast
  note d1 = leavesD [OF reads_prepare [rule_format] refl 1]
  note b = build_updates_Inr [OF 2]
  have multi: "atomic_multi_write us w1 = (Inr (), w3)"
    using 3 b by (auto simp: write_finalize_atomic_updates_def catch_os_def raisem_def
        split: prod.splits sum.splits if_splits)
  have plain1: "\<forall>u \<in> set us. \<not> temp_path (w_env w1) (u_path u)" using plain d1(1) by simp
  note d2 = leavesD [OF leaves_multi_write [OF plain1] refl multi]
  note d3 = leavesD [OF fingerprint d2(1) 4]
  show "distinct (map u_path us)" using b by blast
  show "\<forall>u \<in> set us. file_at w' (u_path u) = Some (u_text u)"
    using multi_write_returns [OF multi plain1] d3(2) plain by simp
  show "\<not> temp_path (w_env w) p \<Longrightarrow> p \<notin> F \<Longrightarrow> p \<notin> u_path ` set us \<Longrightarrow> file_at w' p = file_at w p"
    using d1(1,2) d2(2) d3(2) by simp
qed

subsection \<open>What a prepared finalisation is\<close>

lemma truncate_fields [simp]:
  "pe_vault (plan_env.truncate env) = pe_vault env" "pe_resolve (plan_env.truncate env) = pe_resolve env"
  "pe_json (plan_env.truncate env) = pe_json env" "pe_schema (plan_env.truncate env) = pe_schema env"
  by (simp_all add: plan_env.truncate_def)

lemma liftm_Inr: "liftm r w = (Inr x, w') \<longleftrightarrow> r = Inr x \<and> w' = w"
  by (auto simp: liftm_def)

lemma read_json_Inr:
  assumes "read_json env p w = (Inr v, w')"
  shows "\<exists>t. file_at w p = Some t \<and> pe_json env t = Inr v"
  using assms read_Inr [of p w]
  by (fastforce simp: read_json_def split: prod.splits sum.splits py_exc.splits if_splits)

lemma load_validated_Inr:
  assumes "load_validated_json env p s context w = (Inr v, w')"
  shows "\<exists>t. file_at w p = Some t \<and> pe_json env t = Inr v" and "file_at w' q = file_at w q"
proof -
  obtain w1 where "read_json env p w = (Inr v, w1)"
    using assms by (auto simp: load_validated_json_def liftm_Inr elim!: bindm_Inr)
  then show "\<exists>t. file_at w p = Some t \<and> pe_json env t = Inr v" by (rule read_json_Inr)
  show "file_at w' q = file_at w q"
    using leavesD(2) [OF reads_load [rule_format] refl assms] by simp
qed

lemma require_run_id_Inr: "require_run_id what run_id v = Inr () \<longleftrightarrow> (\<exists>d. v = PyDict d \<and> map_of d ''run_id'' = Some (PyStr run_id))"
  by (cases v) (auto simp: require_run_id_def bindr_eq_Inr ditem_eq_Inr)

lemma prepare_cases:
  assumes "finalize_prepare env run_id prel lrel w = (Inr out, w')"
  obtains rt report lt ledger drec dv st v v' where
    "file_at w (fin_vault_file env prel) = Some rt" "pe_json env rt = Inr (PyDict report)"
    "file_at w (fin_vault_file env lrel) = Some lt" "pe_json env lt = Inr (PyDict ledger)"
    "map_of report ''run_id'' = Some (PyStr run_id)" "map_of ledger ''run_id'' = Some (PyStr run_id)"
    "resolve_finalize_log_state env report run_id (py_str dv) prel lrel v = (Inr st, v')"
    "finalize_outputs_of env run_id report ledger prel lrel drec dv st = Inr out"
    "validate_finalize_payloads env (fo_report out) (fo_ledger out) (fo_planning_validation out) = Inr ()"
    "\<forall>q. file_at v q = file_at w q"
proof -
  obtain r w1 l w2 out' where r: "load_validated_json env (fin_vault_file env prel) PROMOTION_REPORT_SCHEMA
        (''schema validation failed for '' @ prel) w = (Inr r, w1)"
    and l: "load_validated_json env (fin_vault_file env lrel) RUN_LEDGER_SCHEMA
        (''schema validation failed for '' @ lrel) w1 = (Inr l, w2)"
    and ids: "require_run_id ''promotion report'' run_id r = Inr ()" "require_run_id ''run-ledger'' run_id l = Inr ()"
    and o: "\<exists>w3. build_finalize_run_outputs env run_id (the_dict r) (the_dict l) prel lrel w2 = (Inr out', w3)"
    and p: "validate_finalize_payloads env (fo_report out') (fo_ledger out') (fo_planning_validation out') = Inr ()"
    and out: "out' = out"
    using assms unfolding finalize_prepare_def by (auto simp: liftm_Inr elim!: bindm_Inr)
  obtain report ledger where d: "r = PyDict report" "l = PyDict ledger"
    "map_of report ''run_id'' = Some (PyStr run_id)" "map_of ledger ''run_id'' = Some (PyStr run_id)"
    using ids by (auto simp: require_run_id_Inr)
  obtain drec dv st v' where st: "resolve_finalize_log_state env report run_id (py_str dv) prel lrel w2 = (Inr st, v')"
    "finalize_outputs_of env run_id report ledger prel lrel drec dv st = Inr out"
    using o unfolding out build_finalize_run_outputs_def d the_dict.simps
    by (auto simp: liftm_Inr elim!: bindm_Inr)
  show ?thesis
    using that load_validated_Inr(1) [OF r] load_validated_Inr(1) [OF l] load_validated_Inr(2) [OF r]
      load_validated_Inr(2) [OF l] d st p out by metis
qed

lemma payload_valid:
  assumes "validate_finalize_payloads env report ledger planning = Inr ()"
  shows "\<exists>s. fe_load_schema env PROMOTION_REPORT_SCHEMA = Inr s \<and> s (PyDict report) = []"
    and "\<exists>s. fe_load_schema env RUN_LEDGER_SCHEMA = Inr s \<and> s (PyDict ledger) = []"
    and "\<exists>s. fe_load_schema env PLANNING_VALIDATION_SCHEMA = Inr s \<and> s (PyDict planning) = []"
proof -
  have clauses: "schema_clauses missing r = Inr x \<longleftrightarrow> r = Inr x" for missing and r :: "unit res" and x
    by (cases r) (auto simp: schema_clauses_def split: py_exc.splits)
  have valid: "validate_payload env payload rel msg = Inr () \<longleftrightarrow>
      (\<exists>s. fe_load_schema env rel = Inr s \<and> s payload = [])" for payload rel msg
    by (auto simp: validate_payload_def validate_or_raise_def Let_def bindr_eq_Inr)
  show "\<exists>s. fe_load_schema env PROMOTION_REPORT_SCHEMA = Inr s \<and> s (PyDict report) = []"
    and "\<exists>s. fe_load_schema env RUN_LEDGER_SCHEMA = Inr s \<and> s (PyDict ledger) = []"
    and "\<exists>s. fe_load_schema env PLANNING_VALIDATION_SCHEMA = Inr s \<and> s (PyDict planning) = []"
    using assms unfolding validate_finalize_payloads_def clauses by (simp_all add: bindr_eq_Inr valid)
qed

text \<open>The log state of a run whose log is still pending.\<close>

lemma pending_log_state:
  assumes run: "resolve_finalize_log_state env report run_id dcn prel lrel v = (Inr st, v')"
    and entry: "dget report ''log'' (PyDict []) = PyDict entry"
    and pending: "dget entry ''status'' PyNone \<noteq> PyStr ''recorded'' \<or>
      nonempty_strings [dget entry ''entry_ref'' PyNone] = []"
  shows "\<not> py_truth (dget entry ''required'' PyNone) \<and> \<not> fl_required st \<and> fl_entry_ref st = [] \<and>
       fl_final_log_text st = None \<or>
     (\<exists>page summary artifacts markdown anchor existing. py_truth (dget entry ''required'' PyNone) \<and>
       dget entry ''page'' PyNone = PyStr page \<and> fl_required st \<and>
       fl_entry_ref st = entry_ref_of page anchor \<and> fl_log_path st = Some (fin_vault_file env page) \<and>
       build_log_entry_markdown run_id dcn summary artifacts prel lrel (fe_local_ts env) = (markdown, anchor) \<and>
       fl_final_log_text st = Some (log_text_with_appended_entry existing markdown))"
proof (cases "py_truth (dget entry ''required'' PyNone)")
  case False
  then show ?thesis using run entry by (auto simp: resolve_finalize_log_state_def)
next
  case True
  then obtain page where page: "nonempty_strings [dget entry ''page'' PyNone] = [page]"
    using run entry pending
    by (auto simp: resolve_finalize_log_state_def nonempty_strings_def split: list.splits if_splits)
  then have "dget entry ''page'' PyNone = PyStr page"
    by (auto simp: nonempty_strings_def is_str_iff split: if_splits)
  moreover have "appended_log_state env report run_id dcn prel lrel page (fin_vault_file env page) v = (Inr st, v')"
    using run True page entry pending
    by (cases "dget entry ''status'' PyNone = PyStr ''recorded''") (simp_all add: resolve_finalize_log_state_def)
  then obtain artifacts summary markdown anchor existing where
    "build_log_entry_markdown run_id dcn (py_str summary) artifacts prel lrel (fe_local_ts env) = (markdown, anchor)"
    "st = \<lparr>fl_required = True, fl_entry_ref = entry_ref_of page anchor, fl_log_path = Some (fin_vault_file env page),
       fl_final_log_text = Some (log_text_with_appended_entry existing markdown)\<rparr>"
    unfolding appended_log_state_def
    by (auto simp: liftm_Inr elim!: bindm_Inr split: prod.splits)
  ultimately show ?thesis
    by (intro disjI2 exI [of _ page] exI [of _ "py_str summary"] exI [of _ artifacts] exI [of _ markdown]
        exI [of _ anchor] exI [of _ existing]) (simp add: True)
qed

text \<open>The documents when the ledger has been evaluated and not finalised.\<close>

lemma dict_event_types_str: "PyStr t \<in> set (dict_event_types es) \<longleftrightarrow> t \<in> set (str_fields ''type'' es)"
proof
  assume "PyStr t \<in> set (dict_event_types es)"
  then obtain e where "e \<in> set es" "is_dict e" "dget (the_dict e) ''type'' PyNone = PyStr t"
    by (auto simp: dict_event_types_def)
  then show "t \<in> set (str_fields ''type'' es)"
    using str_fields_in [of "the_dict e" es "''type''" t] by (auto simp: is_dict_iff)
next
  assume "t \<in> set (str_fields ''type'' es)"
  then obtain v where v: "v \<in> set (dict_event_types es)" "is_str v" "t = the_str v"
    by (auto simp: str_fields_def dict_event_types_def)
  then have "v = PyStr t" by (auto simp: is_str_iff)
  with v(1) show "PyStr t \<in> set (dict_event_types es)" by simp
qed

lemma append_event_Inr:
  assumes "append_event ledger event = Inr ledger'"
  shows "\<exists>es. dget ledger ''events'' (PyList []) = PyList es \<and>
    ledger' = dset ''events'' (PyList (es @ [event])) ledger"
proof -
  obtain v where v: "map_of ledger ''events'' = Some v"
    using assms by (auto simp: append_event_def bindr_eq_Inr ditem_eq_Inr)
  then show ?thesis
    using assms by (cases v) (auto simp: append_event_def ditem_def dget_def)
qed

lemma evaluated_outputs:
  assumes out: "finalize_outputs_of env run_id report ledger prel lrel drec dv st = Inr out"
    and entry: "dget report ''log'' (PyDict []) = PyDict entry"
    and canon: "canonical_events ledger ''mechanism_evaluated''"
  obtains es e signoff where
    "dget ledger ''events'' (PyList []) = PyList es" "dget e ''type'' PyNone = PyStr ''finalized''"
    "fo_report out = finalized_report report st entry" "fo_log_state out = st" "fo_decision out = dv"
    "fo_ledger out = dset ''status'' (PyStr ''complete'') (dset ''events'' (PyList (es @ [PyDict e])) ledger)"
    "fo_planning_validation out = build_planning_validation_payload run_id (py_str dv) signoff
       (fl_required st) (fl_entry_ref st)"
proof -
  obtain events where ev: "py_iter (dget ledger ''events'' (PyList [])) = Inr events"
    and pe: "''promotion_evaluated'' \<in> set (str_fields ''type'' events)"
    and nf: "''finalized'' \<notin> set (str_fields ''type'' events)"
  proof -
    from canon obtain events where "py_iter (dget ledger ''events'' (PyList [])) = Inr events"
      and f: "filter (\<lambda>t. t \<in> set MECHANISM_EVALUATED_EVENT_SEQUENCE) (str_fields ''type'' events) =
        MECHANISM_EVALUATED_EVENT_SEQUENCE" and "''finalized'' \<notin> set (str_fields ''type'' events)"
      by (auto simp: canonical_evaluated)
    moreover have m: "''promotion_evaluated'' \<in> set (filter (\<lambda>t. t \<in> set MECHANISM_EVALUATED_EVENT_SEQUENCE)
        (str_fields ''type'' events))"
      unfolding f by (simp add: MECHANISM_EVALUATED_EVENT_SEQUENCE_def)
    ultimately show ?thesis using that subsetD [OF filter_is_subset m] by blast
  qed
  have types: "PyStr ''promotion_evaluated'' \<in> set (dict_event_types events)"
    "PyStr ''finalized'' \<notin> set (dict_event_types events)"
    using pe nf by (simp_all add: dict_event_types_str)
  from out entry ev types obtain ledger2 signoff event pages where
    l2: "append_event ledger (PyDict (ledger_event (fe_utc_ts env) ''finalized''
       ''Recorded the finalized mechanism run in system-log and persisted the promotion report.''
       (prel # lrel # pages) (PyStr ''complete'') event)) = Inr ledger2"
    and o: "out = \<lparr>fo_report = finalized_report report st entry,
        fo_ledger = dset ''status'' (PyStr ''complete'') ledger2,
        fo_planning_validation = build_planning_validation_payload run_id (py_str dv) signoff
          (fl_required st) (fl_entry_ref st),
        fo_decision = dv, fo_decision_record = drec, fo_log_state = st\<rparr>"
    by (auto simp: finalize_outputs_of_def Let_def bindr_eq_Inr with_promotion_event_def with_finalized_event_def)
  from append_event_Inr [OF l2] obtain es where es: "dget ledger ''events'' (PyList []) = PyList es"
    and l2': "ledger2 = dset ''events'' (PyList (es @ [PyDict (ledger_event (fe_utc_ts env) ''finalized''
       ''Recorded the finalized mechanism run in system-log and persisted the promotion report.''
       (prel # lrel # pages) (PyStr ''complete'') event)])) ledger" by blast
  show ?thesis
    by (rule that [where e = "ledger_event (fe_utc_ts env) ''finalized''
       ''Recorded the finalized mechanism run in system-log and persisted the promotion report.''
       (prel # lrel # pages) (PyStr ''complete'') event" and signoff = signoff])
      (use es l2' o in \<open>simp_all add: ledger_event_def\<close>, simp add: dget_def)
qed

subsection \<open>The gate on two snapshots\<close>

lemma load_artifact_cong: "disk' p = disk p \<Longrightarrow> load_artifact env disk' p = load_artifact env disk p"
  by (simp add: load_artifact_def)

lemma document_cong: "disk' p = disk p \<Longrightarrow> document env disk' p = document env disk p"
  by (simp add: document_def load_artifact_cong [of disk' p disk])

lemma accepted_cong: "disk' p = disk p \<Longrightarrow> accepted env disk' p s d \<longleftrightarrow> accepted env disk p s d"
  by (simp add: accepted_def load_artifact_cong [of disk' p disk])

definition input_paths :: "plan_env \<Rightarrow> pyval \<Rightarrow> fpath set" where
  "input_paths env inputs = {vault_file env rel | key schema req rel.
     (req, key, schema) \<in> set INPUT_SPECS \<and> input_rel_path inputs key = Some rel}"

lemma load_input_cong:
  assumes "\<And>p. p \<in> input_paths env inputs \<Longrightarrow> disk' p = disk p" and "spec \<in> set INPUT_SPECS"
  shows "load_input env disk' d inputs st spec = load_input env disk d inputs st spec"
proof -
  obtain req key schema where spec: "spec = (req, key, schema)" by (cases spec)
  have "load_and_validate_reported_json_artifact env disk' rel schema =
      load_and_validate_reported_json_artifact env disk rel schema" if "input_rel_path inputs key = Some rel" for rel
  proof -
    have "vault_file env rel \<in> input_paths env inputs"
      using that assms(2) spec by (auto simp: input_paths_def)
    then have "disk' (vault_file env rel) = disk (vault_file env rel)" by (rule assms(1))
    then show ?thesis
      by (simp add: load_and_validate_reported_json_artifact_def Let_def
          load_artifact_cong [of disk' "vault_file env rel" disk])
  qed
  then show ?thesis by (auto simp: spec load_input_def split: option.splits)
qed

lemma load_inputs_cong:
  assumes "\<And>p. p \<in> input_paths env inputs \<Longrightarrow> disk' p = disk p" and "set specs \<subseteq> set INPUT_SPECS"
  shows "foldr_res (load_input env disk' d inputs) st specs = foldr_res (load_input env disk d inputs) st specs"
  using assms(2)
proof (induction specs arbitrary: st)
  case (Cons spec specs)
  then have "load_input env disk' d inputs st spec = load_input env disk d inputs st spec"
    using load_input_cong [OF assms(1)] by simp
  with Cons show ?case by (simp cong: bindr_cong)
qed simp

lemma disk_same:
  assumes "file_at w' p = file_at w p" and "node_of w p \<noteq> Some DirNode" and "node_of w' p \<noteq> Some DirNode"
  shows "disk_of w' p = disk_of w p"
  using assms by (auto simp: disk_of_def file_at_def split: option.splits node.splits)

lemma disk_file: "file_at w p = Some t \<Longrightarrow> p \<noteq> [] \<Longrightarrow> disk_of w p = Some (Inr t)"
  by (auto simp: disk_of_def file_at_def split: option.splits node.splits)

lemma load_json_document:
  assumes "disk p = Some (Inr t)" and "pe_json env t = Inr (PyDict d)" and "\<not> is_yaml_file p"
  shows "load_artifact env disk p = Inr d" and "document env disk p = d"
  using assms by (simp_all add: load_artifact_def document_def)

text \<open>All run ids are the same text, and the required artifacts carry it.\<close>

lemma run_ids_align:
  assumes "\<And>name d. (name, d) \<in> set docs \<Longrightarrow> dhas d ''run_id'' \<Longrightarrow> dget d ''run_id'' PyNone = PyStr run_id"
    and "3 \<le> length (filter (\<lambda>(name, d). dhas d ''run_id'') docs)"
  shows "\<exists>checks ids. run_id_alignment_checks docs = Inr (checks, ids) \<and> list_all item_pass checks"
proof -
  have all: "\<forall>v \<in> set (map snd (artifact_run_ids docs)). v = PyStr run_id"
    using assms(1) by (auto simp: artifact_run_ids_def)
  then have "list_all hashable (map snd (artifact_run_ids docs))"
    unfolding list_all_iff by (auto simp: hashable_def)
  moreover have "\<not> several_values (map snd (artifact_run_ids docs))"
  proof (cases "map snd (artifact_run_ids docs)")
    case (Cons v rest)
    then have "v = PyStr run_id" "\<forall>x \<in> set rest. x = PyStr run_id" using all unfolding Cons by auto
    then have "list_all (py_eq_scalar v) rest" by (auto simp: list_all_iff py_eq_scalar_def split: option.splits)
    then show ?thesis unfolding Cons by (simp add: several_values_def)
  qed (simp add: several_values_def)
  ultimately show ?thesis
    using assms(2) by (simp add: run_id_alignment_checks_def Let_def artifact_run_ids_def
        PLANNING_GATE_REQUIRED_ARTIFACT_SCHEMAS_def)
qed

lemma run_ids_aligned:
  assumes "run_id_alignment_checks docs = Inr (checks, ids)" and "list_all item_pass checks"
    and "(name0, d0) \<in> set docs" and "map_of d0 ''run_id'' = Some (PyStr run_id)"
  shows "(name, d) \<in> set docs \<Longrightarrow> dhas d ''run_id'' \<Longrightarrow> dget d ''run_id'' PyNone = PyStr run_id"
    and "3 \<le> length (filter (\<lambda>(name, d). dhas d ''run_id'') docs)"
proof -
  let ?vs = "map snd (artifact_run_ids docs)"
  have ok: "\<not> several_values ?vs" "3 \<le> length (artifact_run_ids docs)"
    using assms(1,2) by (auto simp: run_id_alignment_checks_def Let_def
        PLANNING_GATE_REQUIRED_ARTIFACT_SCHEMAS_def split: if_splits)
  then show "3 \<le> length (filter (\<lambda>(name, d). dhas d ''run_id'') docs)"
    by (simp add: artifact_run_ids_def)
  obtain v rest where v: "?vs = v # rest" using ok(2) by (cases ?vs) auto
  have same: "list_all (py_eq_scalar v) rest" using ok(1) unfolding v by (simp add: several_values_def)
  have in_vs: "dget d ''run_id'' PyNone \<in> set ?vs" if "(name, d) \<in> set docs" "dhas d ''run_id''" for name d
    using that by (force simp: artifact_run_ids_def)
  have "PyStr run_id \<in> set ?vs"
    using in_vs [OF assms(3)] assms(4) by (simp add: dhas_def dget_def)
  then have "v = PyStr run_id"
    using same unfolding v list_all_iff by (cases v) (auto simp: py_eq_scalar_def split: option.splits)
  then have "\<forall>x \<in> set ?vs. x = PyStr run_id"
    using same unfolding v list_all_iff by (auto simp: py_eq_scalar_def)
  then show "(name, d) \<in> set docs \<Longrightarrow> dhas d ''run_id'' \<Longrightarrow> dget d ''run_id'' PyNone = PyStr run_id"
    using in_vs by blast
qed

lemma length_filter_mono: "(\<And>x. x \<in> set xs \<Longrightarrow> P x \<Longrightarrow> Q x) \<Longrightarrow> length (filter P xs) \<le> length (filter Q xs)"
  by (induction xs) auto

subsection \<open>A finalised run passes the gate\<close>

text \<open>
  The log entry of a promotion report that waits for its finalisation or needs none, the paths the gate
  reads in a run directory, and the paths the finaliser writes.
\<close>

definition pending_entry :: "pydict \<Rightarrow> bool" where
  "pending_entry promotion \<longleftrightarrow> (\<exists>entry b. dget promotion ''log'' (PyDict []) = PyDict entry \<and>
     dget entry ''required'' PyNone = PyBool b \<and>
     (dget entry ''status'' PyNone \<noteq> PyStr ''recorded'' \<or>
      nonempty_strings [dget entry ''entry_ref'' PyNone] = []) \<and>
     (\<forall>page. dget entry ''page'' PyNone = PyStr page \<longrightarrow> CHR ''#'' \<notin> set page))"

definition FINALIZED_NAMES :: "string list" where
  "FINALIZED_NAMES = [''promotion-report.json'', ''run-ledger.json'', ''planning-validation.json'']"

definition artifact_paths :: "fpath \<Rightarrow> fpath set" where
  "artifact_paths dir = (\<lambda>(name, s). dir @ [name]) `
     set (PLANNING_GATE_REQUIRED_ARTIFACT_SCHEMAS @ PLANNING_GATE_OPTIONAL_ARTIFACT_SCHEMAS)"

definition run_updates :: "fpath \<Rightarrow> fin_outputs \<Rightarrow> text_update list" where
  "run_updates dir out = finalize_updates (dir @ [''promotion-report.json'']) (dir @ [''run-ledger.json''])
     (dir @ [''planning-validation.json'']) out"

definition written_paths :: "fpath \<Rightarrow> fin_outputs \<Rightarrow> fpath set" where
  "written_paths dir out = u_path ` set (run_updates dir out)"

text \<open>
  A log entry that is recorded already: the reference names the page of the report, whose headings have
  plain spaces, and nothing the finalisation writes is that page.
\<close>

definition recorded_entry ::
  "fin_env \<Rightarrow> fpath \<Rightarrow> fin_outputs \<Rightarrow> fpath set \<Rightarrow> world \<Rightarrow> pydict \<Rightarrow> bool" where
  "recorded_entry env dir out F w promotion \<longleftrightarrow> (\<exists>entry page ref. dget promotion ''log'' (PyDict []) = PyDict entry \<and>
     dget entry ''required'' PyNone = PyBool True \<and> dget entry ''status'' PyNone = PyStr ''recorded'' \<and>
     dget entry ''page'' PyNone = PyStr page \<and> dget entry ''entry_ref'' PyNone = PyStr ref \<and>
     ref \<noteq> [] \<and> fst (split_anchor ref) = page \<and>
     fin_vault_file env page \<notin> {[]} \<union> F \<union> written_paths dir out \<and>
     \<not> temp_path (w_env w) (fin_vault_file env page) \<and>
     (\<forall>t. file_at w (fin_vault_file env page) = Some t \<longrightarrow> plain_headings t))"

lemma run_updates_docs:
  "\<lparr>u_path = dir @ [''promotion-report.json''], u_text = json_indented (fo_report out)\<rparr> \<in> set (run_updates dir out)"
  "\<lparr>u_path = dir @ [''run-ledger.json''], u_text = json_indented (fo_ledger out)\<rparr> \<in> set (run_updates dir out)"
  "\<lparr>u_path = dir @ [''planning-validation.json''], u_text = json_indented (fo_planning_validation out)\<rparr>
     \<in> set (run_updates dir out)"
  by (simp_all add: run_updates_def finalize_updates_def)

text \<open>What the final snapshot holds, for a run whose finalisation returned.\<close>

definition finalized_snapshot ::
  "fin_env \<Rightarrow> disk \<Rightarrow> disk \<Rightarrow> fpath \<Rightarrow> pyval \<Rightarrow> fin_outputs \<Rightarrow> bool" where
  "finalized_snapshot env disk disk' dir inputs out \<longleftrightarrow>
     (\<forall>u \<in> set (run_updates dir out). disk' (u_path u) = Some (Inr (u_text u))) \<and>
     (\<forall>p \<in> artifact_paths dir. p \<notin> (\<lambda>n. dir @ [n]) ` set FINALIZED_NAMES \<longrightarrow> disk' p = disk p) \<and>
     (\<forall>p \<in> input_paths (plan_env.truncate env) inputs. disk' p = disk p)"

lemma log_settled_after:
  assumes st: "resolve_finalize_log_state env report run_id dcn prel lrel v = (Inr st, v')"
    and pending: "pending_entry report"
    and plain: "plain_spaces (fe_local_ts env)" "plain_spaces run_id" "plain_spaces dcn"
    and entry: "dget report ''log'' (PyDict []) = PyDict entry"
    and written: "\<And>p t. fl_log_path st = Some p \<Longrightarrow> fl_final_log_text st = Some t \<Longrightarrow> disk' p = Some (Inr t)"
  shows "log_recorded (plan_env.truncate env) disk'
    (dget (finalized_report report st entry) ''log'' (PyDict [])) = Inr True"
proof -
  from pending entry obtain b where e: "dget entry ''required'' PyNone = PyBool b"
    "dget entry ''status'' PyNone \<noteq> PyStr ''recorded'' \<or>
      nonempty_strings [dget entry ''entry_ref'' PyNone] = []"
    "\<And>page. dget entry ''page'' PyNone = PyStr page \<Longrightarrow> CHR ''#'' \<notin> set page"
    by (auto simp: pending_entry_def)
  from pending_log_state [OF st entry e(2)] show ?thesis
  proof (elim disjE exE conjE)
    assume "\<not> py_truth (dget entry ''required'' PyNone)" and "\<not> fl_required st" and "fl_entry_ref st = []"
    then show ?thesis using e(1) by (simp add: finalized_report_def log_recorded_def)
  next
    fix page summary artifacts markdown anchor existing
    assume page: "dget entry ''page'' PyNone = PyStr page" and req: "fl_required st"
      and ref: "fl_entry_ref st = entry_ref_of page anchor" and path: "fl_log_path st = Some (fin_vault_file env page)"
      and md: "build_log_entry_markdown run_id dcn summary artifacts prel lrel (fe_local_ts env) = (markdown, anchor)"
      and final: "fl_final_log_text st = Some (log_text_with_appended_entry existing markdown)"
    have split: "split_anchor (fl_entry_ref st) = (page, anchor)"
      unfolding ref by (rule split_entry_ref [OF e(3) [OF page]])
    have ne: "fl_entry_ref st \<noteq> []" "CHR ''#'' \<in> set (fl_entry_ref st)"
      unfolding ref by (simp_all add: entry_ref_of_def)
    have "disk' (vault_file (plan_env.truncate env) page) = Some (Inr (log_text_with_appended_entry existing markdown))"
      using written [OF path final] by (simp add: fin_vault_file_def)
    then have "system_log_contains_entry_ref (plan_env.truncate env) disk' (fl_entry_ref st) = Inr True"
      using appended_entry_found(1) [OF plain md] ne split by (simp add: system_log_contains_entry_ref_def)
    moreover have "b" using e(1) req pending_log_state [OF st entry e(2)] by auto
    ultimately show ?thesis using e(1) req ne by (simp add: finalized_report_def log_recorded_def)
  qed
qed

lemma recorded_log_found:
  assumes "recorded_log_state p ref v = (Inr st, v')"
  obtains t where "file_at v p = Some t" "has_heading slugify_heading t (snd (split_anchor ref))"
    "CHR ''#'' \<in> set ref" "st = \<lparr>fl_required = True, fl_entry_ref = ref, fl_log_path = Some p, fl_final_log_text = None\<rparr>"
proof -
  obtain found v1 where 1: "system_log_has_anchor p ref v = (Inr found, v1)"
    and 2: "(if \<not> found then raisem (FinalizeRunUsageError
              ''promotion report claims log is recorded, but entry_ref is missing from system-log'')
       else returnm \<lparr>fl_required = True, fl_entry_ref = ref, fl_log_path = Some p, fl_final_log_text = None\<rparr>) v1 = (Inr st, v')"
    using assms unfolding recorded_log_state_def by (rule bindm_Inr)
  have found: found and st: "st = \<lparr>fl_required = True, fl_entry_ref = ref, fl_log_path = Some p, fl_final_log_text = None\<rparr>"
    using 2 by (auto split: if_splits)
  have hash: "CHR ''#'' \<in> set ref" using 1 found by (auto simp: system_log_has_anchor_def split: if_splits)
  from 1 found hash obtain present v2 where 3: "path_exists p v = (Inr present, v2)"
    and 4: "(if \<not> present then returnm False
      else bindm (read_text p) (\<lambda>text. returnm (has_heading slugify_heading text (snd (split_anchor ref))))) v2 = (Inr True, v1)"
    by (auto simp: system_log_has_anchor_def elim!: bindm_Inr)
  have keep: "file_at v2 p = file_at v p"
    by (rule leavesD(2) [OF leaves_exists refl 3]) simp
  obtain body v3 where "read_text p v2 = (Inr body, v3)" "has_heading slugify_heading body (snd (split_anchor ref))"
    using 4 by (auto elim!: bindm_Inr split: if_splits)
  note found = this
  then obtain t where "file_at v2 p = Some t" "body = universal_newlines t"
    using read_text_Inr [of p v2 body v3 p] by auto
  with found show ?thesis using that keep hash st by simp
qed

lemma log_settled_recorded:
  assumes st: "resolve_finalize_log_state env report run_id dcn prel lrel v = (Inr st, v')"
    and entry: "dget report ''log'' (PyDict []) = PyDict entry"
    and e: "dget entry ''required'' PyNone = PyBool True" "dget entry ''status'' PyNone = PyStr ''recorded''"
      "dget entry ''page'' PyNone = PyStr page" "dget entry ''entry_ref'' PyNone = PyStr ref" "ref \<noteq> []"
      "fst (split_anchor ref) = page"
    and kept: "\<And>t. file_at v (fin_vault_file env page) = Some t \<Longrightarrow>
      plain_headings t \<and> disk' (fin_vault_file env page) = Some (Inr t)"
  shows "log_recorded (plan_env.truncate env) disk'
    (dget (finalized_report report st entry) ''log'' (PyDict [])) = Inr True"
proof -
  have "recorded_log_state (fin_vault_file env page) ref v = (Inr st, v')"
    using st entry e by (cases "page = []") (auto simp: resolve_finalize_log_state_def nonempty_strings_def)
  then obtain t where t: "file_at v (fin_vault_file env page) = Some t"
      "has_heading slugify_heading t (snd (split_anchor ref))" "CHR ''#'' \<in> set ref"
      "fl_required st" "fl_entry_ref st = ref"
    by (rule recorded_log_found) simp
  have "has_heading gate_slugify_heading t (snd (split_anchor ref))"
    using t(2) kept [OF t(1)] by (simp add: plain_headings_agree)
  then have "system_log_contains_entry_ref (plan_env.truncate env) disk' ref = Inr True"
    using t(3) kept [OF t(1)] e(6) by (simp add: system_log_contains_entry_ref_def fin_vault_file_def)
  then show ?thesis using e(1,5) t(4,5) by (simp add: finalized_report_def log_recorded_def)
qed

text \<open>The inputs and the class of the promotion report stay; the run ids of the documents agree.\<close>

lemma finalized_report_keeps:
  "k \<noteq> ''log'' \<Longrightarrow> k \<noteq> ''next_action'' \<Longrightarrow> dget (finalized_report report st entry) k d = dget report k d"
  "map_of (finalized_report report st entry) ''run_id'' = map_of report ''run_id''"
  by (simp_all add: finalized_report_def map_of_dset)

lemma planning_payload_fields:
  "map_of (build_planning_validation_payload run_id dcn signoff req ref) ''run_id'' = Some (PyStr run_id)"
  "dget (build_planning_validation_payload run_id dcn signoff req ref) ''status'' PyNone = PyStr ''PASS''"
  "dget (build_planning_validation_payload run_id dcn signoff req ref) ''next_action'' PyNone = PyStr FINALIZED_NEXT_ACTION"
  by (simp_all add: build_planning_validation_payload_def dget_def)

text \<open>
  Nothing interferes with a finalisation: the documents lie in the run directory, the paths the gate reads
  and the finaliser writes are no directories, no staging files and not the fingerprint, and the log is
  none of the artifacts or inputs of the run.
\<close>

definition undisturbed ::
  "fin_env \<Rightarrow> string \<Rightarrow> fpath \<Rightarrow> pyval \<Rightarrow> fin_outputs \<Rightarrow> fpath set \<Rightarrow> world \<Rightarrow> world \<Rightarrow> bool" where
  "undisturbed env run_id dir inputs out F w w' \<longleftrightarrow>
     (\<forall>name \<in> set FINALIZED_NAMES. fin_vault_file env (run_file run_id name) = dir @ [name]) \<and>
     (\<forall>p \<in> artifact_paths dir \<union> input_paths (plan_env.truncate env) inputs \<union> written_paths dir out.
        p \<noteq> [] \<and> \<not> temp_path (w_env w) p \<and> p \<notin> F \<and> node_of w p \<noteq> Some DirNode \<and> node_of w' p \<noteq> Some DirNode) \<and>
     artifact_paths dir \<inter> written_paths dir out \<subseteq> (\<lambda>n. dir @ [n]) ` set FINALIZED_NAMES \<and>
     input_paths (plan_env.truncate env) inputs \<inter> written_paths dir out = {}"

lemma snapshot_after:
  assumes run: "finalize_run env run_id None None w = (Inr (out, s), w')"
    and quiet: "undisturbed env run_id dir inputs out F w w'"
    and fingerprint: "\<And>E. leaves (\<lambda>p. p \<notin> F) E (fe_write_fingerprint env run_id) (\<lambda>_. True)"
  shows "finalized_snapshot env (disk_of w) (disk_of w') dir inputs out"
    and "\<exists>w1. finalize_prepare env run_id (run_file run_id ''promotion-report.json'')
      (run_file run_id ''run-ledger.json'') w = (Inr out, w1)"
    and "\<not> temp_path (w_env w) p \<Longrightarrow> p \<notin> F \<Longrightarrow> p \<notin> written_paths dir out \<Longrightarrow> file_at w' p = file_at w p"
proof -
  have place: "fin_vault_file env (run_file run_id ''promotion-report.json'') = dir @ [''promotion-report.json'']"
    "fin_vault_file env (run_file run_id ''run-ledger.json'') = dir @ [''run-ledger.json'']"
    "fin_vault_file env (run_file run_id ''planning-validation.json'') = dir @ [''planning-validation.json'']"
    using quiet by (auto simp: undisturbed_def FINALIZED_NAMES_def)
  have still: "p \<noteq> [] \<and> \<not> temp_path (w_env w) p \<and> p \<notin> F \<and> node_of w p \<noteq> Some DirNode \<and> node_of w' p \<noteq> Some DirNode"
    if "p \<in> artifact_paths dir \<union> input_paths (plan_env.truncate env) inputs \<union> written_paths dir out" for p
    using quiet that unfolding undisturbed_def by blast
  have us: "run_updates dir out = finalize_updates
      (fin_vault_file env (given_path None run_id ''promotion-report.json''))
      (fin_vault_file env (given_path None run_id ''run-ledger.json''))
      (fin_vault_file env (run_file run_id ''planning-validation.json'')) out"
    by (simp add: run_updates_def given_path_def place)
  have plain: "\<forall>u \<in> set (run_updates dir out). \<not> temp_path (w_env w) (u_path u) \<and> u_path u \<notin> F"
    using still by (auto simp: written_paths_def)
  note returned = finalize_returned [OF run us plain fingerprint]
  show "\<exists>w1. finalize_prepare env run_id (run_file run_id ''promotion-report.json'')
      (run_file run_id ''run-ledger.json'') w = (Inr out, w1)"
    using returned(1) by (simp add: given_path_def)
  show "\<not> temp_path (w_env w) p \<Longrightarrow> p \<notin> F \<Longrightarrow> p \<notin> written_paths dir out \<Longrightarrow> file_at w' p = file_at w p"
    using returned(4) [of p] by (simp add: written_paths_def)
  have same: "disk_of w' p = disk_of w p"
    if "p \<in> artifact_paths dir \<union> input_paths (plan_env.truncate env) inputs" and "p \<notin> written_paths dir out" for p
    by (rule disk_same) (use returned(4) [of p] still [of p] that in \<open>auto simp: written_paths_def\<close>)
  have new: "disk_of w' (u_path u) = Some (Inr (u_text u))" if "u \<in> set (run_updates dir out)" for u
    by (rule disk_file) (use returned(3) that still [of "u_path u"] in \<open>auto simp: written_paths_def\<close>)
  have "p \<notin> written_paths dir out"
    if "p \<in> artifact_paths dir" "p \<notin> (\<lambda>n. dir @ [n]) ` set FINALIZED_NAMES" for p
    using quiet that unfolding undisturbed_def by blast
  moreover have "p \<notin> written_paths dir out" if "p \<in> input_paths (plan_env.truncate env) inputs" for p
    using quiet that unfolding undisturbed_def by blast
  ultimately show "finalized_snapshot env (disk_of w) (disk_of w') dir inputs out"
    unfolding finalized_snapshot_def using same new by blast
qed

lemma finalized_schemas:
  assumes "(name, s) \<in> set (PLANNING_GATE_REQUIRED_ARTIFACT_SCHEMAS @ PLANNING_GATE_OPTIONAL_ARTIFACT_SCHEMAS)"
    and "name \<in> set FINALIZED_NAMES"
  shows "(name, s) = (''promotion-report.json'', PROMOTION_REPORT_SCHEMA) \<or>
    (name, s) = (''run-ledger.json'', RUN_LEDGER_SCHEMA) \<or>
    (name, s) = (''planning-validation.json'', PLANNING_VALIDATION_SCHEMA)"
proof -
  have "list_all (\<lambda>(name, s). name \<in> set FINALIZED_NAMES \<longrightarrow>
      (name, s) = (''promotion-report.json'', PROMOTION_REPORT_SCHEMA) \<or>
      (name, s) = (''run-ledger.json'', RUN_LEDGER_SCHEMA) \<or>
      (name, s) = (''planning-validation.json'', PLANNING_VALIDATION_SCHEMA))
    (PLANNING_GATE_REQUIRED_ARTIFACT_SCHEMAS @ PLANNING_GATE_OPTIONAL_ARTIFACT_SCHEMAS)"
    by code_simp
  then show ?thesis using assms unfolding list_all_iff by blast
qed

text \<open>The finalised documents are accepted and the other artifacts are as before.\<close>

lemma accepted_after:
  fixes env disk disk' dir out
  defines "penv \<equiv> plan_env.truncate env"
  assumes before: "all_accepted penv disk dir (gate_specs disk dir)"
    and promotion: "disk (dir @ [''promotion-report.json'']) \<noteq> None"
    and snap: "finalized_snapshot env disk disk' dir inputs out"
    and valid: "validate_finalize_payloads env (fo_report out) (fo_ledger out) (fo_planning_validation out) = Inr ()"
    and schemas: "\<And>rel s. fe_load_schema env rel = Inr s \<Longrightarrow> pe_schema env rel = Inr s"
    and parse: "\<forall>d \<in> {fo_report out, fo_ledger out, fo_planning_validation out}.
      pe_json env (json_indented d) = Inr (PyDict d)"
  shows "gate_specs disk' dir = gate_specs disk dir"
    and "all_accepted penv disk' dir (gate_specs disk dir)"
    and "document penv disk' (dir @ [''promotion-report.json'']) = fo_report out"
    and "document penv disk' (dir @ [''run-ledger.json'']) = fo_ledger out"
    and "document penv disk' (dir @ [''planning-validation.json'']) = fo_planning_validation out"
    and "(name, s) \<in> set (gate_specs disk dir) \<Longrightarrow> name \<notin> set FINALIZED_NAMES \<Longrightarrow>
      document penv disk' (dir @ [name]) = document penv disk (dir @ [name])"
proof -
  have new: "disk' (dir @ [''promotion-report.json'']) = Some (Inr (json_indented (fo_report out)))"
    "disk' (dir @ [''run-ledger.json'']) = Some (Inr (json_indented (fo_ledger out)))"
    "disk' (dir @ [''planning-validation.json'']) = Some (Inr (json_indented (fo_planning_validation out)))"
    using bspec [OF conjunct1 [OF snap [unfolded finalized_snapshot_def]] run_updates_docs(1)]
      bspec [OF conjunct1 [OF snap [unfolded finalized_snapshot_def]] run_updates_docs(2)]
      bspec [OF conjunct1 [OF snap [unfolded finalized_snapshot_def]] run_updates_docs(3)] by simp_all
  have old: "disk' (dir @ [name]) = disk (dir @ [name])"
    if "(name, s) \<in> set (PLANNING_GATE_REQUIRED_ARTIFACT_SCHEMAS @ PLANNING_GATE_OPTIONAL_ARTIFACT_SCHEMAS)"
      and "name \<notin> set FINALIZED_NAMES" for name s
  proof -
    have "dir @ [name] \<in> artifact_paths dir" unfolding artifact_paths_def using that(1) by force
    then show ?thesis using snap that(2) unfolding finalized_snapshot_def by auto
  qed
  have "present_specs disk' dir PLANNING_GATE_OPTIONAL_ARTIFACT_SCHEMAS =
      present_specs disk dir PLANNING_GATE_OPTIONAL_ARTIFACT_SCHEMAS"
    unfolding present_specs_def
  proof (rule filter_cong [OF refl], clarify)
    fix name s assume o: "(name, s) \<in> set PLANNING_GATE_OPTIONAL_ARTIFACT_SCHEMAS"
    show "(disk' (dir @ [name]) \<noteq> None) = (disk (dir @ [name]) \<noteq> None)"
    proof (cases "name \<in> set FINALIZED_NAMES")
      case True
      then have "name = ''promotion-report.json''"
        using o by (auto simp: FINALIZED_NAMES_def PLANNING_GATE_OPTIONAL_ARTIFACT_SCHEMAS_def)
      then show ?thesis using promotion new(1) by simp
    next
      case False
      then show ?thesis using old [of name s] o by simp
    qed
  qed
  then show specs: "gate_specs disk' dir = gate_specs disk dir" by (simp add: gate_specs_def)
  have yaml: "\<not> is_yaml_file (dir @ [n])" if "n \<in> set FINALIZED_NAMES" for n
    using that by (auto simp: FINALIZED_NAMES_def is_yaml_file_def py_endswith_def)
  have doc1: "load_artifact penv disk' (dir @ [''promotion-report.json'']) = Inr (fo_report out)"
    by (rule load_json_document(1) [where disk = disk', OF new(1)])
      (use parse yaml [of "''promotion-report.json''"] in \<open>simp_all add: penv_def FINALIZED_NAMES_def\<close>)
  have doc2: "load_artifact penv disk' (dir @ [''run-ledger.json'']) = Inr (fo_ledger out)"
    by (rule load_json_document(1) [where disk = disk', OF new(2)])
      (use parse yaml [of "''run-ledger.json''"] in \<open>simp_all add: penv_def FINALIZED_NAMES_def\<close>)
  have doc3: "load_artifact penv disk' (dir @ [''planning-validation.json'']) = Inr (fo_planning_validation out)"
    by (rule load_json_document(1) [where disk = disk', OF new(3)])
      (use parse yaml [of "''planning-validation.json''"] in \<open>simp_all add: penv_def FINALIZED_NAMES_def\<close>)
  note doc = doc1 doc2 doc3
  from doc show docs: "document penv disk' (dir @ [''promotion-report.json'']) = fo_report out"
    "document penv disk' (dir @ [''run-ledger.json'']) = fo_ledger out"
    "document penv disk' (dir @ [''planning-validation.json'']) = fo_planning_validation out"
    by (simp_all add: document_def)
  have sub: "set (gate_specs disk dir) \<subseteq>
      set (PLANNING_GATE_REQUIRED_ARTIFACT_SCHEMAS @ PLANNING_GATE_OPTIONAL_ARTIFACT_SCHEMAS)"
    by (auto simp: gate_specs_def present_specs_def)
  show same: "document penv disk' (dir @ [name]) = document penv disk (dir @ [name])"
    if "(name, s) \<in> set (gate_specs disk dir)" and "name \<notin> set FINALIZED_NAMES" for name s
    using old [of name s] that sub by (intro document_cong) blast
  have three: "accepted penv disk' (dir @ [''promotion-report.json'']) PROMOTION_REPORT_SCHEMA (fo_report out)"
    "accepted penv disk' (dir @ [''run-ledger.json'']) RUN_LEDGER_SCHEMA (fo_ledger out)"
    "accepted penv disk' (dir @ [''planning-validation.json'']) PLANNING_VALIDATION_SCHEMA (fo_planning_validation out)"
    unfolding accepted_def using payload_valid [OF valid] new doc schemas by (auto simp: penv_def)
  show "all_accepted penv disk' dir (gate_specs disk dir)"
    unfolding all_accepted_def
  proof clarify
    fix name s assume n: "(name, s) \<in> set (gate_specs disk dir)"
    show "accepted penv disk' (dir @ [name]) s (document penv disk' (dir @ [name]))"
    proof (cases "name \<in> set FINALIZED_NAMES")
      case True
      from finalized_schemas [OF subsetD [OF sub n] this] three docs show ?thesis
        by (elim disjE) simp_all
    next
      case False
      then show ?thesis
        using bspec [OF before [unfolded all_accepted_def] n] same [OF n False] old [of name s] n sub
          accepted_cong [of disk' "dir @ [name]" disk penv s] by auto
    qed
  qed
qed

text \<open>The checks of the finalised phase, on the documents the finaliser wrote.\<close>

lemma finalized_checks_pass:
  assumes loads: "foldr_res (load_input env disk dr inputs) no_loads INPUT_SPECS = Inr loads"
      "local_input_failures loads = []" "input_validation_failures loads = []"
    and same: "\<And>p. p \<in> input_paths env inputs \<Longrightarrow> disk' p = disk p"
    and inputs: "dget report ''inputs'' (PyDict []) = inputs"
    and b: "phase_bundle (loaded_input_artifacts loads) ledger0 = Inr b" "sound_inputs b True"
    and canon: "canonical_events ledger ''mechanism_finalized''"
    and events: "dget ledger ''events'' (PyList []) = PyList (es @ [PyDict e])" "dget e ''type'' PyNone = PyStr ''finalized''"
    and recorded: "log_recorded env disk' (dget report ''log'' (PyDict [])) = Inr True"
    and planning: "dget planning ''status'' PyNone = PyStr ''PASS''"
      "dget planning ''next_action'' PyNone = PyStr FINALIZED_NEXT_ACTION"
  shows "\<exists>checks. mechanism_phase_checks env disk' (Some \<lparr>ps_dir_report = dr, ps_phase = ''mechanism_finalized'',
      ps_promotion_report = report, ps_run_ledger = ledger, ps_planning_validation = Some planning\<rparr>) = Inr checks \<and>
    list_all item_pass checks"
proof -
  define st where "st = \<lparr>ps_dir_report = dr, ps_phase = ''mechanism_finalized'',
      ps_promotion_report = report, ps_run_ledger = ledger, ps_planning_validation = Some planning\<rparr>"
  define ci where "ci = \<lparr>ci_loads = loads, bundle_for_phase_checks = b\<lparr>run_ledger_report := ledger\<rparr>\<rparr>"
  have ci: "load_completed_mechanism_inputs env disk' st = Inr ci"
    using loads(1,3) inputs phase_bundle_ledger(2) [OF b(1)]
    by (simp add: load_completed_mechanism_inputs_def st_def ci_def load_inputs_cong [of env inputs disk' disk, OF same subset_refl])
  obtain base where base: "completed_mechanism_phase_checks st ci = Inr base" "list_all item_pass base"
    using completed_checks_pass_iff [of st ci] loads(2,3) b(2) canon
    by (auto simp: st_def ci_def inputs_ready_def)
  obtain more where "finalized_only_phase_checks env disk' st = Inr more" "list_all item_pass more"
    using recorded events planning by (simp add: finalized_only_phase_checks_def st_def Let_def)
  with ci base have "mechanism_phase_checks env disk' (Some st) = Inr (base @ more)" "list_all item_pass (base @ more)"
    by (simp_all add: mechanism_phase_checks_def) (simp add: st_def)
  then show ?thesis unfolding st_def by blast
qed

text \<open>The run ids of the new documents agree.\<close>

lemma finalized_ids_pass:
  fixes env disk disk' dir
  defines "specs \<equiv> gate_specs disk dir"
  assumes ids: "run_id_alignment_checks (documents env disk dir specs) = Inr (checks, ids)" "list_all item_pass checks"
    and ledger: "map_of (document env disk (dir @ [''run-ledger.json''])) ''run_id'' = Some (PyStr run_id)"
    and new: "\<And>name. name \<in> set FINALIZED_NAMES \<Longrightarrow>
      map_of (document env disk' (dir @ [name])) ''run_id'' = Some (PyStr run_id)"
    and old: "\<And>name s. (name, s) \<in> set specs \<Longrightarrow> name \<notin> set FINALIZED_NAMES \<Longrightarrow>
      document env disk' (dir @ [name]) = document env disk (dir @ [name])"
  shows "\<exists>checks ids. run_id_alignment_checks (documents env disk' dir specs) = Inr (checks, ids) \<and>
    list_all item_pass checks"
proof (rule run_ids_align)
  have "(''run-ledger.json'', document env disk (dir @ [''run-ledger.json''])) \<in> set (documents env disk dir specs)"
    by (force simp: documents_def specs_def gate_specs_def PLANNING_GATE_REQUIRED_ARTIFACT_SCHEMAS_def)
  note before = run_ids_aligned [OF ids this ledger]
  fix name d assume n: "(name, d) \<in> set (documents env disk' dir specs)" "dhas d ''run_id''"
  then obtain s where s: "(name, s) \<in> set specs" and d: "d = document env disk' (dir @ [name])"
    by (auto simp: documents_def)
  show "dget d ''run_id'' PyNone = PyStr run_id"
  proof (cases "name \<in> set FINALIZED_NAMES")
    case True
    then show ?thesis using new d by (simp add: dget_def)
  next
    case False
    have "(name, d) \<in> set (documents env disk dir specs)"
      using s old [OF s False] d by (force simp: documents_def)
    then show ?thesis using before(1) n(2) by blast
  qed
next
  have "(''run-ledger.json'', document env disk (dir @ [''run-ledger.json''])) \<in> set (documents env disk dir specs)"
    by (force simp: documents_def specs_def gate_specs_def PLANNING_GATE_REQUIRED_ARTIFACT_SCHEMAS_def)
  from run_ids_aligned(2) [OF ids this ledger]
  have "3 \<le> length (filter (\<lambda>(name, s). dhas (document env disk (dir @ [name])) ''run_id'') specs)"
    by (simp add: documents_def filter_map comp_def case_prod_unfold)
  also have "\<dots> \<le> length (filter (\<lambda>(name, s). dhas (document env disk' (dir @ [name])) ''run_id'') specs)"
  proof (rule length_filter_mono, clarify)
    fix name s assume "(name, s) \<in> set specs" and "dhas (document env disk (dir @ [name])) ''run_id''"
    then show "dhas (document env disk' (dir @ [name])) ''run_id''"
      using new [of name] old [of name s] by (cases "name \<in> set FINALIZED_NAMES") (simp_all add: dhas_def)
  qed
  finally show "3 \<le> length (filter (\<lambda>(name, d). dhas d ''run_id'') (documents env disk' dir specs))"
    by (simp add: documents_def filter_map comp_def case_prod_unfold)
qed

lemma alignment_kept:
  assumes "map_of loaded ''promotion-report.json'' = Some report" "map_of loaded' ''promotion-report.json'' = Some report'"
    and "dget report' ''artifact_class'' PyNone = dget report ''artifact_class'' PyNone"
    and "dget report' ''inputs'' PyNone = dget report ''inputs'' PyNone"
    and "dhas loaded' ''behavior-delta.json'' = dhas loaded ''behavior-delta.json''"
  shows "mechanism_promotion_input_alignment_checks dr loaded' sb = mechanism_promotion_input_alignment_checks dr loaded sb"
  using assms by (simp add: mechanism_promotion_input_alignment_checks_def)

text \<open>What the gate saw before a finalisation.\<close>

lemma evaluated_gate:
  fixes env :: plan_env and disk :: disk and dir :: fpath
  defines "docs \<equiv> documents env disk dir (gate_specs disk dir)"
    and "promotion \<equiv> document env disk (dir @ [''promotion-report.json''])"
    and "ledger \<equiv> document env disk (dir @ [''run-ledger.json''])" and "dr \<equiv> stable_report_path env dir"
  assumes run: "validate_run_dir env disk now policy dir = Inr (report, event)"
    and ok: "report_passes report ''mechanism_evaluated''"
    and plain: "starter_bundle_for_artifact_dir policy dr = Inr None"
  obtains checks ids loads b where
    "all_accepted env disk dir (gate_specs disk dir)" "''promotion-report.json'' \<in> fst ` set (gate_specs disk dir)"
    "run_id_alignment_checks docs = Inr (checks, ids)" "list_all item_pass checks"
    "list_all item_pass (mechanism_promotion_input_alignment_checks dr docs None)"
    "dget promotion ''artifact_class'' PyNone = PyStr ''system_mechanism''"
    "foldr_res (load_input env disk dr (dget promotion ''inputs'' (PyDict []))) no_loads INPUT_SPECS = Inr loads"
    "local_input_failures loads = []" "input_validation_failures loads = []"
    "phase_bundle (loaded_input_artifacts loads) ledger = Inr b" "sound_inputs b True"
    "canonical_events ledger ''mechanism_evaluated''"
  using run ok
proof (cases rule: gate_pass_cases)
  case (1 sb checks ids phase_checks)
  have sb: "sb = None" using 1(1) plain by (simp add: dr_def)
  obtain st where st: "mechanism_phase_state dr docs None = Some st" and phase: "ps_phase st = ''mechanism_evaluated''"
    using 1(6) sb by (auto simp: mechanism_phase_def dr_def docs_def split: option.splits)
  have ps: "ps_promotion_report st = promotion" "ps_run_ledger st = ledger" "ps_dir_report st = dr"
    "''promotion-report.json'' \<in> fst ` set (gate_specs disk dir)"
    "ps_phase st = classify_mechanism_phase None promotion ledger"
    using st by (auto simp: mechanism_phase_state_def docs_def promotion_def ledger_def map_of_documents
        split: option.splits if_splits)
  have cls: "dget promotion ''artifact_class'' PyNone = PyStr ''system_mechanism''"
    using phase ps(5) by (auto simp: classify_mechanism_phase_def split: if_splits)
  have c: "mechanism_phase_checks env disk (Some st) = Inr phase_checks"
    using 1(7) sb st by (simp add: docs_def dr_def)
  show ?thesis
    by (rule phase_checks_loads [OF c 1(8) disjI1 [OF phase]])
      (rule that, use 1(2-5) sb ps cls phase in \<open>auto simp: docs_def dr_def\<close>)
qed

text \<open>The log entry of the finalised report is the one the gate finds.\<close>

lemma log_entry_settled:
  assumes st: "resolve_finalize_log_state env report run_id dcn prel lrel v = (Inr st, v')"
    and v: "\<forall>q. file_at v q = file_at w q"
    and entry: "dget report ''log'' (PyDict []) = PyDict entry"
    and ready: "pending_entry report \<or> recorded_entry env dir out F w report"
    and texts: "plain_spaces (fe_local_ts env)" "plain_spaces run_id" "plain_spaces dcn"
    and out: "fo_log_state out = st"
    and snap: "finalized_snapshot env (disk_of w) (disk_of w') dir inputs out"
    and kept: "\<And>p. \<not> temp_path (w_env w) p \<Longrightarrow> p \<notin> F \<Longrightarrow> p \<notin> written_paths dir out \<Longrightarrow> file_at w' p = file_at w p"
  shows "log_recorded (plan_env.truncate env) (disk_of w')
    (dget (finalized_report report st entry) ''log'' (PyDict [])) = Inr True"
  using ready
proof
  assume pending: "pending_entry report"
  show ?thesis
  proof (rule log_settled_after [OF st pending texts entry])
    fix p t assume "fl_log_path st = Some p" and "fl_final_log_text st = Some t"
    then have "\<lparr>u_path = p, u_text = t\<rparr> \<in> set (run_updates dir out)"
      by (simp add: run_updates_def finalize_updates_def out)
    then show "disk_of w' p = Some (Inr t)" using snap unfolding finalized_snapshot_def by fastforce
  qed
next
  assume "recorded_entry env dir out F w report"
  then obtain page ref where e: "dget entry ''required'' PyNone = PyBool True"
      "dget entry ''status'' PyNone = PyStr ''recorded''" "dget entry ''page'' PyNone = PyStr page"
      "dget entry ''entry_ref'' PyNone = PyStr ref" "ref \<noteq> []" "fst (split_anchor ref) = page"
    and page: "fin_vault_file env page \<notin> {[]} \<union> F \<union> written_paths dir out"
      "\<not> temp_path (w_env w) (fin_vault_file env page)"
      "\<And>t. file_at w (fin_vault_file env page) = Some t \<Longrightarrow> plain_headings t"
    using entry by (auto simp: recorded_entry_def)
  have "file_at w' (fin_vault_file env page) = file_at w (fin_vault_file env page)"
    by (rule kept) (use page in auto)
  then have same: "plain_headings t \<and> disk_of w' (fin_vault_file env page) = Some (Inr t)"
    if "file_at v (fin_vault_file env page) = Some t" for t
    using that v page disk_file [of w'] by simp
  show ?thesis by (rule log_settled_recorded [OF st entry e]) (rule same)
qed

text \<open>The gate passes the documents of a finalised run, when it passed those of the evaluated one.\<close>

lemma finalized_documents_pass:
  fixes env disk dir policy
  defines "E \<equiv> plan_env.truncate env" and "dr \<equiv> stable_report_path (plan_env.truncate env) dir"
    and "specs \<equiv> gate_specs disk dir"
  assumes acc: "all_accepted E disk dir specs" and present: "''promotion-report.json'' \<in> fst ` set specs"
    and ids: "run_id_alignment_checks (documents E disk dir specs) = Inr (checks, ids)" "list_all item_pass checks"
    and align: "list_all item_pass (mechanism_promotion_input_alignment_checks dr (documents E disk dir specs) None)"
    and cls: "dget report ''artifact_class'' PyNone = PyStr ''system_mechanism''"
    and loads: "foldr_res (load_input E disk dr (dget report ''inputs'' (PyDict []))) no_loads INPUT_SPECS = Inr loads"
      "local_input_failures loads = []" "input_validation_failures loads = []"
    and b: "phase_bundle (loaded_input_artifacts loads) ledger = Inr b" "sound_inputs b True"
    and canon: "canonical_events ledger ''mechanism_evaluated''"
    and plain: "starter_bundle_for_artifact_dir policy dr = Inr None"
    and docs: "document E disk (dir @ [''promotion-report.json'']) = report"
      "document E disk (dir @ [''run-ledger.json'']) = ledger" "disk (dir @ [''promotion-report.json'']) \<noteq> None"
    and run_ids: "map_of report ''run_id'' = Some (PyStr run_id)" "map_of ledger ''run_id'' = Some (PyStr run_id)"
    and snap: "finalized_snapshot env disk disk' dir (dget report ''inputs'' (PyDict [])) out"
    and valid: "validate_finalize_payloads env (fo_report out) (fo_ledger out) (fo_planning_validation out) = Inr ()"
    and schemas: "\<And>rel s. fe_load_schema env rel = Inr s \<Longrightarrow> pe_schema env rel = Inr s"
    and parse: "\<forall>d \<in> {fo_report out, fo_ledger out, fo_planning_validation out}.
      pe_json env (json_indented d) = Inr (PyDict d)"
    and o: "dget ledger ''events'' (PyList []) = PyList es" "dget e ''type'' PyNone = PyStr ''finalized''"
      "fo_report out = finalized_report report st entry"
      "fo_ledger out = dset ''status'' (PyStr ''complete'') (dset ''events'' (PyList (es @ [PyDict e])) ledger)"
      "fo_planning_validation out = build_planning_validation_payload run_id dcn signoff req ref"
    and recorded: "log_recorded E disk' (dget (fo_report out) ''log'' (PyDict [])) = Inr True"
  shows "\<exists>report' event'. validate_run_dir E disk' now policy dir = Inr (report', event') \<and>
    report_passes report' ''mechanism_finalized''"
proof -
  note after = accepted_after [OF acc [unfolded E_def specs_def] docs(3) snap valid schemas parse, folded E_def specs_def]
  have new_ids: "map_of (document E disk' (dir @ [name])) ''run_id'' = Some (PyStr run_id)"
    if "name \<in> set FINALIZED_NAMES" for name
    using that run_ids unfolding FINALIZED_NAMES_def
    by (auto simp: after(3-5) o(3-5) finalized_report_keeps planning_payload_fields map_of_dset)
  have old: "document E disk' (dir @ [name]) = document E disk (dir @ [name])"
    if "(name, s) \<in> set specs" and "name \<notin> set FINALIZED_NAMES" for name s
    by (rule after(6)) (use that in blast)+
  have "\<exists>cs is. run_id_alignment_checks (documents E disk' dir specs) = Inr (cs, is) \<and> list_all item_pass cs"
    unfolding specs_def
    by (rule finalized_ids_pass [OF ids [unfolded specs_def] run_ids(2) [folded docs(2)]])
      (erule new_ids, erule old [unfolded specs_def], assumption)
  then obtain checks' ids' where
    ids': "run_id_alignment_checks (documents E disk' dir specs) = Inr (checks', ids')" "list_all item_pass checks'"
    by blast
  have names: "''promotion-report.json'' \<in> fst ` set specs" "''run-ledger.json'' \<in> fst ` set specs"
    "''planning-validation.json'' \<in> fst ` set specs"
    using present by (simp_all add: specs_def gate_specs_def PLANNING_GATE_REQUIRED_ARTIFACT_SCHEMAS_def)
  have align': "mechanism_promotion_input_alignment_checks dr (documents E disk' dir specs) None =
      mechanism_promotion_input_alignment_checks dr (documents E disk dir specs) None"
    by (rule alignment_kept [where report = report and report' = "fo_report out"])
      (use names in \<open>simp_all add: map_of_documents after(3) docs(1) o(3) finalized_report_keeps dhas_def\<close>)
  have state: "mechanism_phase_state dr (documents E disk' dir specs) None =
      Some \<lparr>ps_dir_report = dr, ps_phase = ''mechanism_finalized'', ps_promotion_report = fo_report out,
        ps_run_ledger = fo_ledger out, ps_planning_validation = Some (fo_planning_validation out)\<rparr>"
    using names cls
    by (simp add: mechanism_phase_state_def map_of_documents after(3-5) classify_mechanism_phase_def o(3,4)
        finalized_report_keeps)
  obtain checks2 where "mechanism_phase_checks E disk' (mechanism_phase_state dr
      (documents E disk' dir specs) None) = Inr checks2" "list_all item_pass checks2"
    unfolding state
    using finalized_checks_pass [OF loads _ _ b _ _ o(2) recorded, of "fo_ledger out" es "fo_planning_validation out"]
      snap finalizing_keeps_order [OF canon o(1) _ o(2), of "fo_ledger out"]
    by (auto simp: finalized_snapshot_def o(3-5) finalized_report_keeps planning_payload_fields E_def)
  note checks2 = this
  have specs': "gate_specs disk' dir = specs" and acc': "all_accepted E disk' dir specs"
    by (rule after(1), assumption, rule after(2), assumption)
  have "mechanism_phase dr (documents E disk' dir specs) None = ''mechanism_finalized''"
    by (simp add: mechanism_phase_def state)
  then show ?thesis
    using gate_passes [where disk = disk' and dir = dir, unfolded specs', folded E_def,
        OF plain [unfolded dr_def, folded E_def] acc' ids' align [folded align', unfolded dr_def, folded E_def]
          checks2 [unfolded dr_def, folded E_def]]
    by (simp add: dr_def E_def)
qed

text \<open>
  C10: finalising a run keeps the planning gate. When the gate passed the run as evaluated and the finaliser
  returns, the gate passes the directory as finalised: the events are the finalised sequence, the log entry
  is found under the recorded anchor, the run ids and the inputs still agree. It is stated for a run that no
  starter bundle covers, whose log entry is either not yet recorded (or not required), on a page without a
  number sign in its name, or recorded already under a reference that names the page of the report, all of
  whose headings have plain spaces only. The time stamp, run id and decision of a new entry have plain spaces
  only as white space, and nothing interferes: the documents lie in the run directory, the files involved are
  no directories, staging files or fingerprint, and the log page is none of the artifacts or inputs. The
  finaliser's schemas are those of the gate, and the decoder reads back the written documents. For a recorded
  reference that names another page than the report does, the statement is false: see below.
\<close>

theorem finalisation_keeps_gate:
  assumes run: "finalize_run env run_id None None w = (Inr (out, s), w')"
    and gate: "validate_run_dir (plan_env.truncate env) (disk_of w) now policy dir = Inr (report, event)"
      "report_passes report ''mechanism_evaluated''"
    and plain: "starter_bundle_for_artifact_dir policy (stable_report_path (plan_env.truncate env) dir) = Inr None"
    and promotion: "promotion = document (plan_env.truncate env) (disk_of w) (dir @ [''promotion-report.json''])"
    and entry_ready: "pending_entry promotion \<or> recorded_entry env dir out F w promotion"
    and texts: "plain_spaces (fe_local_ts env)" "plain_spaces run_id" "plain_spaces (py_str (fo_decision out))"
    and quiet: "undisturbed env run_id dir (dget promotion ''inputs'' (PyDict [])) out F w w'"
    and fingerprint: "\<And>E. leaves (\<lambda>p. p \<notin> F) E (fe_write_fingerprint env run_id) (\<lambda>_. True)"
    and schemas: "\<And>rel s. fe_load_schema env rel = Inr s \<Longrightarrow> pe_schema env rel = Inr s"
    and parse: "\<forall>d \<in> {fo_report out, fo_ledger out, fo_planning_validation out}.
      pe_json env (json_indented d) = Inr (PyDict d)"
  shows "\<exists>report' event'. validate_run_dir (plan_env.truncate env) (disk_of w') now' policy dir = Inr (report', event') \<and>
    report_passes report' ''mechanism_finalized''"
proof (rule evaluated_gate [OF gate plain, folded promotion])
  let ?env = "plan_env.truncate env" and ?disk = "disk_of w" and ?disk' = "disk_of w'"
  let ?dr = "stable_report_path ?env dir" and ?specs = "gate_specs (disk_of w) dir"
  fix checks ids loads b
  assume acc: "all_accepted ?env ?disk dir ?specs" and present: "''promotion-report.json'' \<in> fst ` set ?specs"
    and ids: "run_id_alignment_checks (documents ?env ?disk dir ?specs) = Inr (checks, ids)" "list_all item_pass checks"
    and align: "list_all item_pass (mechanism_promotion_input_alignment_checks ?dr (documents ?env ?disk dir ?specs) None)"
    and cls: "dget promotion ''artifact_class'' PyNone = PyStr ''system_mechanism''"
    and loads: "foldr_res (load_input ?env ?disk ?dr (dget promotion ''inputs'' (PyDict []))) no_loads INPUT_SPECS = Inr loads"
      "local_input_failures loads = []" "input_validation_failures loads = []"
    and b: "phase_bundle (loaded_input_artifacts loads) (document ?env ?disk (dir @ [''run-ledger.json''])) = Inr b"
      "sound_inputs b True"
    and canon: "canonical_events (document ?env ?disk (dir @ [''run-ledger.json''])) ''mechanism_evaluated''"
  note snap = snapshot_after(1) [OF run quiet fingerprint]
  from snapshot_after(2) [OF run quiet fingerprint] obtain w1 where
    prep: "finalize_prepare env run_id (run_file run_id ''promotion-report.json'')
      (run_file run_id ''run-ledger.json'') w = (Inr out, w1)" ..
  have place: "fin_vault_file env (run_file run_id ''promotion-report.json'') = dir @ [''promotion-report.json'']"
    "fin_vault_file env (run_file run_id ''run-ledger.json'') = dir @ [''run-ledger.json'']"
    using quiet by (auto simp: undisturbed_def FINALIZED_NAMES_def)
  obtain rt report0 lt ledger0 drec dv st v v' where
    r: "file_at w (dir @ [''promotion-report.json'']) = Some rt" "pe_json env rt = Inr (PyDict report0)"
    and l: "file_at w (dir @ [''run-ledger.json'']) = Some lt" "pe_json env lt = Inr (PyDict ledger0)"
    and run_ids: "map_of report0 ''run_id'' = Some (PyStr run_id)" "map_of ledger0 ''run_id'' = Some (PyStr run_id)"
    and st: "resolve_finalize_log_state env report0 run_id (py_str dv) (run_file run_id ''promotion-report.json'')
        (run_file run_id ''run-ledger.json'') v = (Inr st, v')"
    and outs: "finalize_outputs_of env run_id report0 ledger0 (run_file run_id ''promotion-report.json'')
        (run_file run_id ''run-ledger.json'') drec dv st = Inr out"
    and valid: "validate_finalize_payloads env (fo_report out) (fo_ledger out) (fo_planning_validation out) = Inr ()"
    and v: "\<forall>q. file_at v q = file_at w q"
    by (rule prepare_cases [OF prep, unfolded place])
  have docs: "promotion = report0" "document ?env ?disk (dir @ [''run-ledger.json'']) = ledger0"
    unfolding promotion
    using load_json_document(2) [where disk = ?disk, OF disk_file [OF r(1)]]
      load_json_document(2) [where disk = ?disk, OF disk_file [OF l(1)]] r(2) l(2)
    by (simp_all add: is_yaml_file_def py_endswith_def)
  obtain entry where entry: "dget report0 ''log'' (PyDict []) = PyDict entry"
    using entry_ready by (auto simp: pending_entry_def recorded_entry_def docs)
  obtain es e signoff where o: "dget ledger0 ''events'' (PyList []) = PyList es"
    "dget e ''type'' PyNone = PyStr ''finalized''" "fo_report out = finalized_report report0 st entry"
    "fo_log_state out = st" "fo_decision out = dv"
    "fo_ledger out = dset ''status'' (PyStr ''complete'') (dset ''events'' (PyList (es @ [PyDict e])) ledger0)"
    "fo_planning_validation out = build_planning_validation_payload run_id (py_str dv) signoff
       (fl_required st) (fl_entry_ref st)"
    by (rule evaluated_outputs [OF outs entry canon [unfolded docs]])
  have present': "?disk (dir @ [''promotion-report.json'']) \<noteq> None" using disk_file [OF r(1)] by simp
  have recorded: "log_recorded ?env ?disk' (dget (fo_report out) ''log'' (PyDict [])) = Inr True"
    unfolding o(3)
    by (rule log_entry_settled [OF st v entry entry_ready [unfolded docs(1)] texts(1,2) texts(3) [unfolded o(5)] o(4) snap
          snapshot_after(3) [OF run quiet fingerprint]])
  show ?thesis
    by (rule finalized_documents_pass [OF acc present ids align cls [unfolded docs(1)] loads [unfolded docs(1)]
          b [unfolded docs(2)] canon [unfolded docs(2)] plain promotion [symmetric, unfolded docs(1)] docs(2) present'
          run_ids snap [unfolded docs(1)] valid schemas parse o(1,2,3,6,7) recorded])
qed

text \<open>A run that waits for its finalisation; the parser knows the documents of the run and the new ones.\<close>

definition sample_record :: pydict where
  "sample_record = (case record_from_proposal (\<lambda>s. ''d'')
      \<lparr>subject_id = ''r1'', subject_kind = ''system_mechanism'', decision = ''PROMOTE'', policy_version = PyInt 1,
       source_rule = ''rule'', source_pass = ''pass'', actor = ''gate'', reason_code = ''ok'', reason_detail = ''ok'',
       evidence_refs = [], decided_at = ''t'', effective_at = ''t''\<rparr> (PyDict []) of Inr r \<Rightarrow> r | Inl _ \<Rightarrow> [])"

definition pending_sample :: pydict where
  "pending_sample = sample_promotion [(''required'', PyBool True), (''page'', PyStr ''log.md''),
       (''status'', PyStr ''pending''), (''entry_ref'', PyStr '''')]
     [(''decision'', PyStr ''PROMOTE''), (''decision_record'', PyDict sample_record), (''summary'', PyStr ''s''),
      (''signoff'', PyDict [(''required'', PyBool False), (''status'', PyStr ''not_required'')])]"

definition evaluated_texts :: "(string \<times> pydict) list" where
  "evaluated_texts = sample_texts (sample_ledger ''ready'' MECHANISM_EVALUATED_EVENT_SEQUENCE) pending_sample
     [(''run_id'', PyStr ''r1''), (''status'', PyStr ''PENDING'')]"

definition sample_fin_env :: "(string \<times> pydict) list \<Rightarrow> fin_env" where
  "sample_fin_env texts = plan_env.extend (sample_gate (evaluated_texts @ texts))
     (fin_env.fields ''2026-01-01 10:00'' ''2026-01-01T10:00:00Z'' (\<lambda>_. Inr (\<lambda>_. [])) (\<lambda>_. ''line 1 column 1'')
        (\<lambda>s. ''d'') (\<lambda>_. returnm ''fingerprint.json''))"

definition evaluated_world :: world where
  "evaluated_world = \<lparr>w_nodes = sample_nodes, w_clock = 0, w_env = sample_env (\<lambda>_. None)\<rparr>"

definition sample_fin_out :: fin_outputs where
  "sample_fin_out = (case finalize_prepare (sample_fin_env []) ''r1'' ''runs/r1/promotion-report.json''
     ''runs/r1/run-ledger.json'' evaluated_world of (Inr out, _) \<Rightarrow> out)"

definition finalized_texts :: "(string \<times> pydict) list" where
  "finalized_texts = map (\<lambda>d. (json_indented d, d))
     [fo_report sample_fin_out, fo_ledger sample_fin_out, fo_planning_validation sample_fin_out]"

lemma sample_json:
  fixes a b c :: string and A B C :: pydict
  assumes "1 < length a" "1 < length b" "1 < length c" "distinct [a, b, c]"
  defines "env \<equiv> sample_fin_env [(a, A), (b, B), (c, C)]"
  shows "pe_json env a = Inr (PyDict A)" "pe_json env b = Inr (PyDict B)" "pe_json env c = Inr (PyDict C)"
proof -
  have "t \<noteq> [x]" if "1 < length t" for t :: string and x using that by auto
  then show "pe_json env a = Inr (PyDict A)" "pe_json env b = Inr (PyDict B)" "pe_json env c = Inr (PyDict C)"
    using assms(1-4)
    by (auto simp: env_def sample_fin_env_def plan_env.defs fin_env.defs sample_gate_def evaluated_texts_def sample_texts_def Let_def)
qed

lemma sample_prepared:
  "case finalize_prepare (sample_fin_env [(a, A), (b, B), (c, C)]) ''r1'' ''runs/r1/promotion-report.json''
     ''runs/r1/run-ledger.json'' evaluated_world of
     (Inr out, w) \<Rightarrow> out = sample_fin_out \<and> w_nodes w = sample_nodes \<and> w_clock w = 4 \<and>
       map (\<lambda>d. fst (hd d)) [fo_report out, fo_ledger out, fo_planning_validation out] =
         [''artifact_class'', ''run_id'', ''$schema''] \<and>
       fo_report out \<noteq> [] \<and> fo_ledger out \<noteq> [] \<and> fo_planning_validation out \<noteq> [] \<and>
       fl_log_path (fo_log_state out) = Some [''v'', ''log.md''] \<and> fl_final_log_text (fo_log_state out) \<noteq> None \<and>
       plain_spaces (py_str (fo_decision out))
   | _ \<Rightarrow> False"
  by code_simp

lemma json_indented_head:
  assumes "d \<noteq> []"
  shows "\<exists>t. json_indented d = ''{'' @ json_line 2 @ json_string (fst (hd d)) @ '': '' @ t"
proof -
  obtain kv rest where d: "d = kv # rest" using assms by (cases d) auto
  show ?thesis
    unfolding d json_indented_def
    by (cases rest) (auto simp: json_items_def json_wrap_def json_colon_def numeral_2_eq_2)
qed

text \<open>The three new documents differ in their first keys, so their texts differ.\<close>

lemma sample_texts_distinct:
  assumes "map (\<lambda>d. fst (hd d)) [x, y, z] = [''artifact_class'', ''run_id'', ''$schema'']" and "x \<noteq> []" "y \<noteq> []" "z \<noteq> []"
  shows "distinct [json_indented x, json_indented y, json_indented z]" and
    "1 < length (json_indented x)" "1 < length (json_indented y)" "1 < length (json_indented z)"
proof -
  obtain t u v where "json_indented x = ''{'' @ json_line 2 @ json_string ''artifact_class'' @ '': '' @ t"
    "json_indented y = ''{'' @ json_line 2 @ json_string ''run_id'' @ '': '' @ u"
    "json_indented z = ''{'' @ json_line 2 @ json_string ''$schema'' @ '': '' @ v"
    using json_indented_head assms by fastforce
  then show "distinct [json_indented x, json_indented y, json_indented z]" and
    "1 < length (json_indented x)" "1 < length (json_indented y)" "1 < length (json_indented z)"
    by (simp_all add: json_string_def json_char_def json_line_def)
qed

lemma sample_written:
  "case write_finalize_atomic_updates
     [\<lparr>u_path = [''v'', ''runs'', ''r1'', ''promotion-report.json''], u_text = a\<rparr>,
      \<lparr>u_path = [''v'', ''runs'', ''r1'', ''run-ledger.json''], u_text = b\<rparr>,
      \<lparr>u_path = [''v'', ''runs'', ''r1'', ''planning-validation.json''], u_text = c\<rparr>,
      \<lparr>u_path = [''v'', ''log.md''], u_text = d\<rparr>] (evaluated_world\<lparr>w_clock := 4\<rparr>) of
     (Inr _, w) \<Rightarrow> filter (\<lambda>(p, n). n = DirNode) (w_nodes w) = filter (\<lambda>(p, n). n = DirNode) sample_nodes
   | _ \<Rightarrow> False"
  by code_simp

text \<open>The run of the witness: the finaliser returns and nothing interferes.\<close>

definition final_env :: fin_env where
  "final_env = sample_fin_env finalized_texts"

lemma sample_finalized:
  obtains s w' d where "finalize_run final_env ''r1'' None None evaluated_world = (Inr (sample_fin_out, s), w')"
    "\<forall>p. node_of w' p = Some DirNode \<longrightarrow> (p, DirNode) \<in> set sample_nodes"
    "run_updates [''v'', ''runs'', ''r1''] sample_fin_out =
       [\<lparr>u_path = [''v'', ''runs'', ''r1'', ''promotion-report.json''], u_text = json_indented (fo_report sample_fin_out)\<rparr>,
        \<lparr>u_path = [''v'', ''runs'', ''r1'', ''run-ledger.json''], u_text = json_indented (fo_ledger sample_fin_out)\<rparr>,
        \<lparr>u_path = [''v'', ''runs'', ''r1'', ''planning-validation.json''],
          u_text = json_indented (fo_planning_validation sample_fin_out)\<rparr>,
        \<lparr>u_path = [''v'', ''log.md''], u_text = d\<rparr>]"
    "\<forall>d \<in> {fo_report sample_fin_out, fo_ledger sample_fin_out, fo_planning_validation sample_fin_out}.
       pe_json final_env (json_indented d) = Inr (PyDict d)"
    "plain_spaces (py_str (fo_decision sample_fin_out))"
proof -
  have env: "final_env = sample_fin_env [(json_indented (fo_report sample_fin_out), fo_report sample_fin_out),
      (json_indented (fo_ledger sample_fin_out), fo_ledger sample_fin_out),
      (json_indented (fo_planning_validation sample_fin_out), fo_planning_validation sample_fin_out)]"
    by (simp add: final_env_def finalized_texts_def)
  obtain out w1 where prep: "finalize_prepare final_env ''r1'' ''runs/r1/promotion-report.json''
     ''runs/r1/run-ledger.json'' evaluated_world = (Inr out, w1)"
    and out: "out = sample_fin_out" and w1: "w_nodes w1 = sample_nodes" "w_clock w1 = 4"
    and heads: "map (\<lambda>d. fst (hd d)) [fo_report out, fo_ledger out, fo_planning_validation out] =
         [''artifact_class'', ''run_id'', ''$schema'']"
      "fo_report out \<noteq> []" "fo_ledger out \<noteq> []" "fo_planning_validation out \<noteq> []"
    and logged: "fl_log_path (fo_log_state out) = Some [''v'', ''log.md'']" "fl_final_log_text (fo_log_state out) \<noteq> None"
    and dcn: "plain_spaces (py_str (fo_decision out))"
    using sample_prepared [of "json_indented (fo_report sample_fin_out)" "fo_report sample_fin_out"
        "json_indented (fo_ledger sample_fin_out)" "fo_ledger sample_fin_out"
        "json_indented (fo_planning_validation sample_fin_out)" "fo_planning_validation sample_fin_out"]
    unfolding env [symmetric] by (auto split: prod.splits sum.splits)
  have world: "w1 = evaluated_world\<lparr>w_clock := 4\<rparr>"
    using leavesD(1) [OF reads_prepare [rule_format] refl prep] w1 by (simp add: evaluated_world_def)
  note texts = sample_texts_distinct [OF heads, unfolded out]
  obtain d where d: "fl_final_log_text (fo_log_state sample_fin_out) = Some d" using logged out by auto
  have place: "fin_vault_file final_env (run_file ''r1'' name) = [''v'', ''runs'', ''r1'', name]"
    if "name \<in> set FINALIZED_NAMES" for name
    using that unfolding env FINALIZED_NAMES_def
    by (auto simp: fin_vault_file_def vault_file_def path_join_def path_parts_def run_file_def sample_fin_env_def
        plan_env.defs fin_env.defs sample_gate_def Let_def py_startswith_def slash_def)
  define us where "us = run_updates [''v'', ''runs'', ''r1''] sample_fin_out"
  have us: "us =
       [\<lparr>u_path = [''v'', ''runs'', ''r1'', ''promotion-report.json''], u_text = json_indented (fo_report sample_fin_out)\<rparr>,
        \<lparr>u_path = [''v'', ''runs'', ''r1'', ''run-ledger.json''], u_text = json_indented (fo_ledger sample_fin_out)\<rparr>,
        \<lparr>u_path = [''v'', ''runs'', ''r1'', ''planning-validation.json''],
          u_text = json_indented (fo_planning_validation sample_fin_out)\<rparr>,
        \<lparr>u_path = [''v'', ''log.md''], u_text = d\<rparr>]"
    using d logged out by (simp add: us_def run_updates_def finalize_updates_def)
  obtain w2 where wr: "write_finalize_atomic_updates us w1 = (Inr (), w2)"
    and dirs: "filter (\<lambda>(p, n). n = DirNode) (w_nodes w2) = filter (\<lambda>(p, n). n = DirNode) sample_nodes"
    using sample_written [of "json_indented (fo_report sample_fin_out)" "json_indented (fo_ledger sample_fin_out)"
        "json_indented (fo_planning_validation sample_fin_out)" d] unfolding us world by (auto split: prod.splits sum.splits)
  have "build_atomic_text_updates us w1 = (Inr us, w1)"
    using wr by (auto simp: write_finalize_atomic_updates_def atomic_multi_write_def build_atomic_text_updates_def
        bindm_def catch_os_def raisem_def Let_def split: if_splits)
  moreover have "finalize_updates [''v'', ''runs'', ''r1'', ''promotion-report.json''] [''v'', ''runs'', ''r1'', ''run-ledger.json'']
      [''v'', ''runs'', ''r1'', ''planning-validation.json''] sample_fin_out = us"
    by (simp add: us_def run_updates_def)
  moreover have "fe_write_fingerprint final_env ''r1'' w2 = (Inr ''fingerprint.json'', w2)"
    by (simp add: env sample_fin_env_def plan_env.defs fin_env.defs)
  ultimately have "\<exists>s. finalize_run final_env ''r1'' None None evaluated_world = (Inr (sample_fin_out, s), w2)"
    using prep out wr place
    by (simp add: finalize_run_def given_path_def run_file_def Let_def bindm_def FINALIZED_NAMES_def)
  moreover have "(p, DirNode) \<in> set sample_nodes" if "node_of w2 p = Some DirNode" for p
  proof -
    have "(p, DirNode) \<in> set (filter (\<lambda>(p, n). n = DirNode) (w_nodes w2))"
      using that by (auto simp: node_of_def dest: map_of_SomeD)
    then show ?thesis unfolding dirs by simp
  qed
  moreover have "\<forall>d \<in> {fo_report sample_fin_out, fo_ledger sample_fin_out, fo_planning_validation sample_fin_out}.
       pe_json final_env (json_indented d) = Inr (PyDict d)"
    unfolding env using sample_json [OF texts(2-4) texts(1)] by blast
  ultimately show ?thesis using that us dcn out unfolding us_def by metis
qed

lemma sample_before:
  "(case validate_run_dir (plan_env.truncate (sample_fin_env [(a, A), (b, B), (c, C)])) (disk_of evaluated_world) ''now'' []
      [''v'', ''runs'', ''r1''] of
     Inr (report, event) \<Rightarrow> dget report ''status'' PyNone = PyStr ''pass'' \<and>
       dget report ''phase'' PyNone = PyStr ''mechanism_evaluated''
   | Inl e \<Rightarrow> False)"
  "starter_bundle_for_artifact_dir [] (stable_report_path (plan_env.truncate (sample_fin_env [(a, A), (b, B), (c, C)]))
     [''v'', ''runs'', ''r1'']) = Inr None"
  "document (plan_env.truncate (sample_fin_env [(a, A), (b, B), (c, C)])) (disk_of evaluated_world)
     [''v'', ''runs'', ''r1'', ''promotion-report.json''] = pending_sample"
  by code_simp+

lemma sample_inputs_paths:
  "input_paths (plan_env.truncate (sample_fin_env texts)) (PyDict sample_inputs) \<subseteq>
     (\<lambda>n. [''v'', ''runs'', ''r1'', n]) ` {''e.json'', ''m.json'', ''changed-files-manifest.json''}"
proof
  fix p assume "p \<in> input_paths (plan_env.truncate (sample_fin_env texts)) (PyDict sample_inputs)"
  then obtain key rel where p: "p = vault_file (plan_env.truncate (sample_fin_env texts)) rel"
    and rel: "input_rel_path (PyDict sample_inputs) key = Some rel" and key: "key \<in> fst ` snd ` set INPUT_SPECS"
    by (force simp: input_paths_def)
  have "list_all (\<lambda>k. case input_rel_path (PyDict sample_inputs) k of None \<Rightarrow> True | Some r \<Rightarrow>
      r \<in> {''runs/r1/e.json'', ''runs/r1/m.json'', ''runs/r1/changed-files-manifest.json''}) (map (fst \<circ> snd) INPUT_SPECS)"
    by code_simp
  then have "rel \<in> {''runs/r1/e.json'', ''runs/r1/m.json'', ''runs/r1/changed-files-manifest.json''}"
    using rel key by (fastforce simp: list_all_iff)
  moreover have "vault_file (plan_env.truncate (sample_fin_env texts)) rel =
      (if py_startswith rel ''/'' then path_parts rel else ''v'' # path_parts rel)"
    by (simp add: vault_file_def path_join_def sample_fin_env_def plan_env.defs fin_env.defs sample_gate_def Let_def)
  moreover have "path_parts ''runs/r1/e.json'' = [''runs'', ''r1'', ''e.json'']"
    "path_parts ''runs/r1/m.json'' = [''runs'', ''r1'', ''m.json'']"
    "path_parts ''runs/r1/changed-files-manifest.json'' = [''runs'', ''r1'', ''changed-files-manifest.json'']"
    by code_simp+
  ultimately show "p \<in> (\<lambda>n. [''v'', ''runs'', ''r1'', n]) `
      {''e.json'', ''m.json'', ''changed-files-manifest.json''}"
    unfolding p by (auto simp: py_startswith_def)
qed

theorem finalisation_keeps_gate_witness:
  "case finalize_run final_env ''r1'' None None evaluated_world of
     (Inr _, w') \<Rightarrow> \<exists>report event. validate_run_dir (plan_env.truncate final_env) (disk_of w') ''later'' []
         [''v'', ''runs'', ''r1''] = Inr (report, event) \<and> report_passes report ''mechanism_finalized''
   | (Inl _, w') \<Rightarrow> False"
proof (rule sample_finalized)
  let ?dir = "[''v'', ''runs'', ''r1'']" and ?env = "plan_env.truncate final_env"
  fix s w' d
  assume run: "finalize_run final_env ''r1'' None None evaluated_world = (Inr (sample_fin_out, s), w')"
    and dirs: "\<forall>p. node_of w' p = Some DirNode \<longrightarrow> (p, DirNode) \<in> set sample_nodes"
    and us: "run_updates ?dir sample_fin_out =
       [\<lparr>u_path = [''v'', ''runs'', ''r1'', ''promotion-report.json''], u_text = json_indented (fo_report sample_fin_out)\<rparr>,
        \<lparr>u_path = [''v'', ''runs'', ''r1'', ''run-ledger.json''], u_text = json_indented (fo_ledger sample_fin_out)\<rparr>,
        \<lparr>u_path = [''v'', ''runs'', ''r1'', ''planning-validation.json''], u_text = json_indented (fo_planning_validation sample_fin_out)\<rparr>,
        \<lparr>u_path = [''v'', ''log.md''], u_text = d\<rparr>]"
    and parse: "\<forall>d \<in> {fo_report sample_fin_out, fo_ledger sample_fin_out, fo_planning_validation sample_fin_out}.
       pe_json final_env (json_indented d) = Inr (PyDict d)"
    and dcn: "plain_spaces (py_str (fo_decision sample_fin_out))"
  have env: "final_env = sample_fin_env [(json_indented (fo_report sample_fin_out), fo_report sample_fin_out),
      (json_indented (fo_ledger sample_fin_out), fo_ledger sample_fin_out),
      (json_indented (fo_planning_validation sample_fin_out), fo_planning_validation sample_fin_out)]"
    by (simp add: final_env_def finalized_texts_def)
  note sample = sample_before [where a = "json_indented (fo_report sample_fin_out)" and A = "fo_report sample_fin_out"
      and b = "json_indented (fo_ledger sample_fin_out)" and B = "fo_ledger sample_fin_out"
      and c = "json_indented (fo_planning_validation sample_fin_out)" and C = "fo_planning_validation sample_fin_out",
      folded env]
  obtain report event where before: "validate_run_dir ?env (disk_of evaluated_world) ''now'' [] ?dir = Inr (report, event)"
    and pass: "report_passes report ''mechanism_evaluated''"
    using sample(1) unfolding report_passes_def by (auto split: sum.splits prod.splits)
  have promotion: "pending_sample = document ?env (disk_of evaluated_world) (?dir @ [''promotion-report.json''])"
    using sample(3) by simp
  have pending: "pending_entry pending_sample"
    by (auto simp: pending_entry_def pending_sample_def sample_promotion_def dget_def)
  have inputs: "dget pending_sample ''inputs'' (PyDict []) = PyDict sample_inputs"
    by (simp add: pending_sample_def sample_promotion_def dget_def)
  have texts: "plain_spaces (fe_local_ts final_env)" "plain_spaces ''r1''"
    by (simp_all add: env sample_fin_env_def plan_env.defs fin_env.defs plain_spaces_def py_isspace_def)
  have written: "written_paths ?dir sample_fin_out = {?dir @ [''promotion-report.json''], ?dir @ [''run-ledger.json''],
      ?dir @ [''planning-validation.json''], [''v'', ''log.md'']}"
    by (auto simp: written_paths_def us)
  have names: "\<exists>n. p = ?dir @ [n] \<and> last n \<noteq> CHR ''p''" if "p \<in> artifact_paths ?dir" for p
    using that by (auto simp: artifact_paths_def PLANNING_GATE_REQUIRED_ARTIFACT_SCHEMAS_def
        PLANNING_GATE_OPTIONAL_ARTIFACT_SCHEMAS_def)
  have given: "input_paths ?env (PyDict sample_inputs) \<subseteq>
      (\<lambda>n. ?dir @ [n]) ` {''e.json'', ''m.json'', ''changed-files-manifest.json''}"
    unfolding env using sample_inputs_paths by simp
  have dir_nodes: "{p. (p, DirNode) \<in> set sample_nodes} = {?dir, [''v'', ''runs''], [''v'']}"
    by (auto simp: sample_nodes_def)
  have old_dirs: "(p, DirNode) \<in> set sample_nodes" if "node_of evaluated_world p = Some DirNode" for p
    using that by (auto simp: evaluated_world_def node_of_def dest: map_of_SomeD)
  have still: "p \<noteq> [] \<and> \<not> temp_path (w_env evaluated_world) p \<and> p \<notin> {} \<and> node_of evaluated_world p \<noteq> Some DirNode \<and>
      node_of w' p \<noteq> Some DirNode"
    if "p \<in> artifact_paths ?dir \<union> input_paths ?env (PyDict sample_inputs) \<union> written_paths ?dir sample_fin_out" for p
  proof -
    have "(\<exists>n. p = ?dir @ [n] \<and> last n \<noteq> CHR ''p'') \<or> p = [''v'', ''log.md'']"
      using that
    proof (elim UnE)
      assume "p \<in> artifact_paths ?dir"
      then show ?thesis using names by blast
    next
      assume "p \<in> input_paths ?env (PyDict sample_inputs)"
      with given have "p \<in> (\<lambda>n. ?dir @ [n]) ` {''e.json'', ''m.json'', ''changed-files-manifest.json''}" by (rule subsetD)
      then show ?thesis by auto
    next
      assume "p \<in> written_paths ?dir sample_fin_out"
      then show ?thesis unfolding written by auto
    qed
    then consider n where "p = ?dir @ [n]" "last n \<noteq> CHR ''p''" | "p = [''v'', ''log.md'']" by blast
    then show ?thesis
    proof cases
      case 1
      then have "p \<notin> {p. (p, DirNode) \<in> set sample_nodes}" unfolding dir_nodes by simp
      with 1 dirs old_dirs sample_not_temp [of n _ ?dir] show ?thesis by auto
    next
      case 2
      then have "p \<notin> {p. (p, DirNode) \<in> set sample_nodes}" unfolding dir_nodes by simp
      with 2 dirs old_dirs sample_not_temp [of "''log.md''" _ "[''v'']"] show ?thesis by auto
    qed
  qed
  have place: "fin_vault_file final_env (run_file ''r1'' name) = ?dir @ [name]" if "name \<in> set FINALIZED_NAMES" for name
    using that unfolding env FINALIZED_NAMES_def
    by (auto simp: fin_vault_file_def vault_file_def path_join_def path_parts_def run_file_def sample_fin_env_def
        plan_env.defs fin_env.defs sample_gate_def Let_def py_startswith_def slash_def)
  have "undisturbed final_env ''r1'' ?dir (dget pending_sample ''inputs'' (PyDict [])) sample_fin_out {} evaluated_world w'"
    unfolding undisturbed_def inputs
  proof (intro conjI)
    show "\<forall>name \<in> set FINALIZED_NAMES. fin_vault_file final_env (run_file ''r1'' name) = ?dir @ [name]"
      by (rule ballI) (rule place)
  next
    show "\<forall>p \<in> artifact_paths ?dir \<union> input_paths ?env (PyDict sample_inputs) \<union> written_paths ?dir sample_fin_out.
       p \<noteq> [] \<and> \<not> temp_path (w_env evaluated_world) p \<and> p \<notin> {} \<and> node_of evaluated_world p \<noteq> Some DirNode \<and>
       node_of w' p \<noteq> Some DirNode"
      by (rule ballI) (rule still)
  next
    have "[''v'', ''log.md''] \<notin> artifact_paths ?dir"
    proof
      assume "[''v'', ''log.md''] \<in> artifact_paths ?dir"
      from names [OF this] show False by auto
    qed
    then show "artifact_paths ?dir \<inter> written_paths ?dir sample_fin_out \<subseteq> (\<lambda>n. ?dir @ [n]) ` set FINALIZED_NAMES"
      unfolding written FINALIZED_NAMES_def by auto
  next
    have apart: "(\<lambda>n. ?dir @ [n]) ` {''e.json'', ''m.json'', ''changed-files-manifest.json''} \<inter>
        written_paths ?dir sample_fin_out = {}"
      unfolding written by auto
    show "input_paths ?env (PyDict sample_inputs) \<inter> written_paths ?dir sample_fin_out = {}"
      using Int_mono [OF given subset_refl, of "written_paths ?dir sample_fin_out"]
      unfolding apart by (rule iffD1 [OF subset_empty])
  qed
  note quiet = this
  have fingerprint: "leaves (\<lambda>p. p \<notin> {}) E (fe_write_fingerprint final_env ''r1'') (\<lambda>_. True)" for E
    by (simp add: env sample_fin_env_def plan_env.defs fin_env.defs leaves_return)
  have schemas: "fe_load_schema final_env rel = Inr c \<Longrightarrow> pe_schema final_env rel = Inr c" for rel c
    by (simp add: env sample_fin_env_def plan_env.defs fin_env.defs sample_gate_def Let_def)
  show ?thesis
    using finalisation_keeps_gate [OF run before pass sample(2) promotion disjI1 [OF pending] texts dcn quiet fingerprint schemas parse] run by simp
qed

text \<open>
  The condition on a recorded reference is needed. The finaliser looks for the anchor on the page of the
  report, the gate on the page of the reference: here the first finds it and keeps the reference, and the
  gate then misses the entry.
\<close>

definition moved_log :: pydict where
  "moved_log = [(''required'', PyBool True), (''page'', PyStr ''log.md''), (''status'', PyStr ''recorded''),
     (''entry_ref'', PyStr ''other.md#a'')]"

definition moved_report :: pydict where
  "moved_report = [(''log'', PyDict moved_log)]"

definition moved_world :: world where
  "moved_world = \<lparr>w_nodes = [([''v''], DirNode), ([''v'', ''log.md''], FileNode ''# a''),
     ([''v'', ''other.md''], FileNode ''# b'')], w_clock = 0, w_env = sample_env (\<lambda>_. None)\<rparr>"

theorem recorded_reference_on_another_page:
  "case resolve_finalize_log_state (sample_fin_env []) moved_report ''r1'' ''PROMOTE'' ''p'' ''l'' moved_world of
     (Inr st, w') \<Rightarrow> fl_entry_ref st = ''other.md#a'' \<and>
       log_recorded (plan_env.truncate (sample_fin_env [])) (disk_of w')
         (dget (finalized_report moved_report st moved_log) ''log'' (PyDict [])) = Inr False
   | (Inl _, w') \<Rightarrow> False"
  by code_simp

text \<open>
  C12: the finaliser checks before it writes. When it refuses a run (a usage error, a missing, unreadable or
  invalid artifact, or documents that do not satisfy their schemas), every file is as it was, whatever
  operation of the file system fails.
\<close>

theorem finalize_refusal_changes_nothing:
  assumes run: "finalize_run env run_id prel lrel w = (Inl e, w')" and e: "is_refusal e"
    and fingerprint: "\<And>v v' e. fe_write_fingerprint env run_id v = (Inl e, v') \<Longrightarrow> \<not> is_refusal e"
  shows "file_at w' p = file_at w p"
proof -
  define prel' lrel' where "prel' = given_path prel run_id ''promotion-report.json''"
    and "lrel' = given_path lrel run_id ''run-ledger.json''"
  note run' = run [unfolded finalize_run_def Let_def, folded prel'_def lrel'_def]
  obtain r1 w1 where 1: "finalize_prepare env run_id prel' lrel' w = (r1, w1)"
    by (cases "finalize_prepare env run_id prel' lrel' w")
  have same: "file_at w1 p = file_at w p"
    using leavesD(2) [OF reads_prepare [rule_format] refl 1] by simp
  show ?thesis
  proof (cases r1)
    case Inl
    then show ?thesis using run' 1 same by (auto simp: bindm_def)
  next
    case (Inr out)
    let ?us = "finalize_updates (fin_vault_file env prel') (fin_vault_file env lrel')
        (fin_vault_file env (run_file run_id ''planning-validation.json'')) out"
    show ?thesis
    proof (cases "build_atomic_text_updates ?us w1")
      case (Pair r2 w2)
      then have w2: "w2 = w1" and r2: "r2 = Inr ?us \<or> (\<exists>t. r2 = Inl (FilesystemTransactionError t))"
        by (auto simp: build_atomic_text_updates_def Let_def split: if_splits)
      have "r2 = Inl (FilesystemTransactionError t) \<Longrightarrow> False" for t
        using run' 1 Inr Pair e by (auto simp: bindm_def)
      then have r2: "r2 = Inr ?us" using r2 by blast
      then have "bindm (write_finalize_atomic_updates ?us) (\<lambda>_. bindm (fe_write_fingerprint env run_id) (\<lambda>f.
          returnm (out, finalize_summary env run_id (fin_vault_file env prel') (fin_vault_file env lrel')
            (fin_vault_file env (run_file run_id ''planning-validation.json'')) out f))) w2 = (Inl e, w')"
        using run' 1 Inr Pair by (simp add: bindm_def)
      then have False
        using e fingerprint write_finalize_error by (elim bindm_Inl) fastforce+
      then show ?thesis ..
    qed
  qed
qed

theorem finalize_refusal_changes_nothing_witness:
  "(case finalize_run (sample_fin_env []) ''r2'' (Some ''runs/r1/promotion-report.json'')
       (Some ''runs/r1/run-ledger.json'') evaluated_world of
     (Inl (FinalizeRunUsageError _), w') \<Rightarrow> file_at w' [''v'', ''log.md''] = Some ''# x'' | _ \<Rightarrow> False)"
proof -
  let ?run = "finalize_run (sample_fin_env []) ''r2'' (Some ''runs/r1/promotion-report.json'')
       (Some ''runs/r1/run-ledger.json'') evaluated_world"
  have "case fst ?run of Inl (FinalizeRunUsageError _) \<Rightarrow> True | _ \<Rightarrow> False" by code_simp
  then obtain t w' where run: "?run = (Inl (FinalizeRunUsageError t), w')"
    by (cases ?run) (auto split: sum.splits py_exc.splits)
  have "fe_write_fingerprint (sample_fin_env []) ''r2'' v = (Inl e, v') \<Longrightarrow> \<not> is_refusal e" for v v' e
    by (simp add: sample_fin_env_def plan_env.defs fin_env.defs returnm_def)
  from finalize_refusal_changes_nothing [where p = "[''v'', ''log.md'']", OF run _ this]
  have "file_at w' [''v'', ''log.md''] = file_at evaluated_world [''v'', ''log.md'']" by simp
  also have "\<dots> = Some ''# x''" by code_simp
  finally show ?thesis by (simp add: run)
qed

end
