(* ===== verification/Spec2Isabelle.thy ===== *)
theory Spec2Isabelle
  imports MechanismRules FixedPointRun Rehearsal GoalLock CommandSupervision AutoImproveLoop
    FinalizeRun
begin

text \<open>
  Verification of the LLMwiki operations runtime, the Python package under
  \<open>ops/scripts\<close>.

  \<^bold>\<open>The program.\<close>  LLMwiki keeps a wiki of curated knowledge together with a runtime
  that changes its own policies and scripts in bounded experiments.  A worker edits a
  candidate copy of the repository; the \<^emph>\<open>promotion gate\<close> decides from a bundle of JSON
  reports whether the change is promoted, discarded or held; a promoted change is copied into
  the live tree by the \<^emph>\<open>manifest transaction\<close>; the \<^emph>\<open>finaliser\<close> then records the run in
  its ledger and in the system log, and the \<^emph>\<open>planning gate\<close> decides which phase the directory
  of a run is in.  Commands run under a \<^emph>\<open>supervisor\<close> with a timeout, a \<^emph>\<open>workspace lock\<close>
  keeps two runs from working on one tree, an \<^emph>\<open>auto-improve session\<close> strings experiments
  together under budgets, and the \<^emph>\<open>fixed-point run\<close> regenerates the tracked release artifacts.
  The development follows these paths through the code.

  \<^bold>\<open>Theories and sources.\<close>

  \<^item> \<open>PyCore\<close>, \<open>PyText\<close>, \<open>JsonText\<close>: the prelude.  JSON values of
    Python (\<open>pyval\<close>), exceptions as the left part of a sum, dictionaries as association
    lists in insertion order with Python's update, and the string functions the source calls.
    \<open>JsonText\<close> is \<open>json.dumps\<close> with the options of the source.
  \<^item> \<open>RepoPath\<close>: \<open>core/path_runtime.py\<close> (\<open>normalize_repo_path_text\<close>,
    over \<open>posixpath.normpath\<close>) and the apply guard of
    \<open>core/filesystem_runtime.py\<close>.  The locale \<open>path_scope\<close> says what a matcher of
    declared scopes promises; it is interpreted here on the allowed apply roots and in
    \<open>RunValidation\<close> on the declared targets.
  \<^item> \<open>DecisionRegistry\<close>: \<open>core/promotion_decision_registry_runtime.py\<close>.  Proposals
    of decisions, their reduction to one record, validation, reading a decision back from a
    report.  The abstract specification is the maximum of the order
    PROMOTE < HOLD < DISCARD (locale \<open>decision_reduction\<close>, type class instance of
    \<open>verdict\<close>).
  \<^item> \<open>RuleRegistry\<close>: \<open>core/rule_registry_runtime.py\<close>.  Which rules a policy
    configures and how their votes collapse.
  \<^item> \<open>GateCommon\<close>, \<open>RunValidation\<close>, \<open>MechanismState\<close>,
    \<open>MechanismRules\<close>: the mechanism promotion gate
    (\<open>mechanism/promotion_gate_common_runtime.py\<close>,
    \<open>mechanism/mechanism_run_validation_runtime.py\<close>,
    \<open>mechanism/promotion_gate_mechanism_state_runtime.py\<close>, and the rule registry, report,
    finalize and gate files beside it).  \<open>MechanismState\<close> derives the component states from
    the artifact bundle, \<open>MechanismRules\<close> evaluates the rules over them, reduces their
    proposals with \<open>DecisionRegistry\<close> and assembles the report.
  \<^item> \<open>FileSystem\<close>: an explicit store (absolute path to node) with the operations
    \<open>filesystem_runtime.py\<close> calls.  A \<^emph>\<open>fault oracle\<close> decides for every single call
    whether the operating system refuses it, and whether a copy that fails has left a part of
    its bytes, so that theorems quantify over every pattern of failures.
  \<^item> \<open>UndoLog\<close>: the shape both transactions share, a forward pass that stops at the
    first error and a backward pass over what was done; locale \<open>undo_log\<close>, interpreted in
    \<open>AtomicFiles\<close> and in \<open>ManifestApply\<close>.
  \<^item> \<open>AtomicFiles\<close>: \<open>atomic_write_text\<close>, \<open>atomic_multi_write\<close>,
    \<open>stage_replace_file\<close>.
  \<^item> \<open>ManifestApply\<close>: \<open>apply_manifest_transaction\<close>, its preparation, rollback,
    plan and shadow report.  \<open>Rehearsal\<close>: \<open>rehearse_manifest_apply_rollback\<close>, the
    same transaction on a private copy of the files.
  \<^item> \<open>GoalLock\<close>: \<open>mechanism/goal_runtime_lock.py\<close> and the process backend of
    \<open>mechanism/goal_runtime_runner.py\<close> that records a child in the lock.  The functions
    are modelled on file contents; the protocol is the step relation \<open>lock_step\<close>, in which
    any number of processes interleave single system calls on one lock file.
  \<^item> \<open>WriterGraph\<close> and \<open>FixedPointRun\<close>:
    \<open>release/release_closeout_fixed_point.py\<close>.  The first holds the writer policy, its
    validation, the closure over downstream writers and the execution plan (locale
    \<open>ordered_plan\<close>); the second runs the plan, measures durations, loads the authority of
    an earlier report and builds the dry run.

  \<^item> \<open>CommandRuntime\<close>: \<open>core/command_runtime.py\<close>, a command with its timeout,
    heartbeats, signals and clean-up, over an environment that answers every call to the operating
    system from the calls made before.  \<open>CommandLogic\<close> holds triples for its effects and the
    locales of assertions that its operations keep; \<open>CommandSupervision\<close> the properties.
  \<^item> \<open>AutoImproveQueue\<close>, \<open>AutoImproveOutcome\<close>, \<open>AutoImproveMaintenance\<close>,
    \<open>AutoImproveLoop\<close>: the auto-improve session (\<open>mechanism/auto_improve_*.py\<close> and
    \<open>failure_taxonomy_runtime.py\<close>): the queue of proposals, what an attempt counts as, the
    maintenance after a promotion, and \<open>run_auto_improve_session\<close> as actions over an
    environment that answers from the trace of calls.  Reports, experiments, telemetry and
    readiness are answers of that environment.
  \<^item> \<open>SystemLog\<close>, \<open>PlanningGate\<close>, \<open>FinalizeRun\<close>: the entry a finished run
    leaves in the system log, the gate over the artifacts of a run directory
    (\<open>mechanism/planning_gate_*.py\<close>, \<open>core/starter_bundle_runtime.py\<close>) as a function of
    a snapshot of the files, and the finaliser (\<open>mechanism/finalize_run_*.py\<close>) as an
    operation on the file system of \<open>FileSystem\<close>, written with the atomic update of
    \<open>AtomicFiles\<close>.

  \<^bold>\<open>What the theorems show.\<close>

  \<^item> Gate: a promotion implies that the contract evaluation improved (or that nothing got
    worse and a configured axis improved), that every changed path lies under a declared target
    and an allowed root, and that the signoff is respected; the decision does not depend on the
    order of rules; every report reads back as a valid record with the same decision.
  \<^item> Guard: what is let through is exactly what normalises into an allowed root.
  \<^item> Transactions: under every pattern of faults a failed write or application leaves the
    live files as they were, provided it ends in the transaction error and reports no rollback
    issue (the write of several texts up to the newlines of a restored target); a successful one
    has exactly the effect of the manifest; paths outside the manifest are never touched, and no
    target of a text write is ever torn.  Three theorems exhibit the exceptions: a torn backup that
    replaces an intact file, a restore that translates newlines, and a clean-up error that takes
    the place of the error that reports a failed restore.
  \<^item> Lock: at most one process is engaged in every reachable state, as long as no contender
    removes a lock other than the one it inspected; one theorem exhibits a run in which that
    happens.  An acquisition that is left alone settles, and stopping signals only the owner.
  \<^item> Supervision: no exception leaves the child running unless it is the one that says so; a run
    comes back under a steady clock; the verdict agrees with the signals that were sent.
  \<^item> Auto-improve: a session attempts no proposal twice and stays within its budgets of proposals
    and time, it ends, it does not attempt anything past a closed learning gate, and a goal contract
    bounds it; the queue selects the best proposal.
  \<^item> Finalisation: the files a finaliser leaves are those the planning gate asks of a finalised
    run, whose checks over them pass, for a log entry that is new, not required, or recorded on the
    page the report names; one theorem exhibits a recorded entry on another page, which the gate
    misses.  A refused run changes nothing; and a directory the gate passes as finalised satisfies
    what the phase promises.
  \<^item> Writer graph and run: the cycle check decides acyclicity and names a real cycle of every
    cyclic graph, accepted policies are characterised, the plan is closed and ordered, and one pass
    over it reaches the fixed point.  The order of the plan and the fixed point are for policies
    whose expensive prerequisites are not writers; one theorem exhibits what happens otherwise,
    since the loader accepts such a policy.

  \<^bold>\<open>Bounds and fuel.\<close>  The depth-first visits of the writer graph carry fuel equal to the
  number of writers plus one, which no path without repetition exceeds: \<open>acyclic_check_exact\<close> shows that
  on a cyclic graph the answer is the error that names a cycle and never the exhausted fuel, which the
  model reports as \<open>RecursionError\<close>.  (Python's own recursion limit is left out.)  The removal of empty parent
  directories recurs on the length of the path.  An undisturbed lock acquisition takes at most
  seven system calls.  The wait of the supervisor and the maintenance of a session are loops with
  fuel: \<open>run_with_timeout_returns\<close> and \<open>session_ends\<close> show how much is enough, and the
  other theorems hold for every fuel.  The rounding of averages in the duration summary is exact on integers
  below \<open>2 ^ 50\<close>, where Python's division and \<open>round\<close> are as well.

  \<^bold>\<open>Parameters.\<close>  Code that is not in the repository, or whose answers come from outside, is
  an argument of the definitions: the fault oracle, names of temporary files, symbolic-link
  resolution, sha256, the writers of report files, loading and schema validation of JSON, the
  answers of \<open>os.kill\<close>, the command runner, the view of the tree a digest is taken of, the
  parsers of JSON and YAML text, and the environments of the supervisor and of the session.

  \<^bold>\<open>Simplifications.\<close>  Strings range over code points below 256, and a file is the text stored
  in it: decoding errors of UTF-8 are left out.  \<open>Path.read_text\<close> translates newlines (\<open>read_text\<close>
  over \<open>universal_newlines\<close>) where the text itself is used, in the restore of \<open>atomic_multi_write\<close> and
  in the reads of the system log; the decoders of JSON and YAML documents are applied to the stored
  text, since neither format tells the translated text apart.  Writing is POSIX, without translation.  Floats appear only in
  reports.  Keyword-argument coercion wrappers and printing are left out. In the lock
  protocol an owner with a child releases the lock once the child's process group is gone, where the
  runner has reaped the direct child.
  \<open>json.dump\<close> followed by \<open>json.loads\<close> of the lock payload is the identity.  A second
  signal that arrives while the supervisor handles the first is left out, and so are its test
  doubles.  In a session the measured durations and the fields of runtime events are left out.

  \<^bold>\<open>Not modelled.\<close>  The rest of the package reads and writes report files of a live vault or
  drives external processes: the executors of coding agents, the experiment runner and the ledger
  events before finalisation, mutation proposals, mechanism review, run scaffolding, goal admission
  and certificates, the remaining release gates and attestations, the linters, learning claims, the
  public export, raw intake, supply-chain documents and test lanes.  Much of it combines verdicts
  over JSON in the way the modelled gate does and could be added with the same prelude; the parts
  that only format text or walk the tree have no state to verify.
\<close>

end
